(* ===== verification/GoBase.thy ===== *)
theory GoBase
  imports Main "HOL-Library.Char_ord" "HOL-Library.List_Lexorder"
begin

text \<open>
  Prelude: the parts of Go's \<^verbatim>\<open>strings\<close>, \<^verbatim>\<open>strconv\<close> and \<^verbatim>\<open>sort\<close> packages the
  program uses, on byte strings (\<^typ>\<open>string\<close> is a list of bytes, as a Go string is).
  Case folding and white space are the ASCII part of Go's tables: a byte above 127 is never
  a space and has no lower case here.  The general lemmas on splitting, joining, trimming
  and searching that the component theories share are collected in \<open>go_str\<close>.
\<close>

named_theorems go_str \<comment> \<open>facts on the string operations\<close>
named_theorems model_defs \<comment> \<open>definitions of the model unfolded by the component proofs\<close>

type_synonym path = string
type_synonym bytes = string

section \<open>Characters\<close>

abbreviation NL :: char where "NL \<equiv> CHR 0x0A"
abbreviation CR :: char where "CR \<equiv> CHR 0x0D"
abbreviation TAB :: char where "TAB \<equiv> CHR 0x09"
abbreviation SP :: char where "SP \<equiv> CHR '' ''"

definition is_space :: "char \<Rightarrow> bool" where
  "is_space c \<longleftrightarrow> c = CHR '' '' \<or> c = CHR 0x09 \<or> c = CHR 0x0A \<or> c = CHR 0x0B \<or> c = CHR 0x0C \<or> c = CHR 0x0D"

definition is_digit :: "char \<Rightarrow> bool" where
  "is_digit c \<longleftrightarrow> (48::nat) \<le> of_char c \<and> of_char c \<le> (57::nat)"

definition is_upper :: "char \<Rightarrow> bool" where
  "is_upper c \<longleftrightarrow> (65::nat) \<le> of_char c \<and> of_char c \<le> (90::nat)"

definition is_lower :: "char \<Rightarrow> bool" where
  "is_lower c \<longleftrightarrow> (97::nat) \<le> of_char c \<and> of_char c \<le> (122::nat)"

definition lower_char :: "char \<Rightarrow> char" where
  "lower_char c = (if is_upper c then char_of (of_char c + (32::nat)) else c)"

definition to_lower :: "string \<Rightarrow> string" where
  "to_lower s = map lower_char s"

section \<open>Prefixes, suffixes, search\<close>

fun has_prefix :: "string \<Rightarrow> string \<Rightarrow> bool" where
  "has_prefix [] s = True"
| "has_prefix (p # ps) [] = False"
| "has_prefix (p # ps) (c # s) = (p = c \<and> has_prefix ps s)"

definition has_suffix :: "string \<Rightarrow> string \<Rightarrow> bool" where
  "has_suffix p s = has_prefix (rev p) (rev s)"

definition trim_prefix :: "string \<Rightarrow> string \<Rightarrow> string" where
  "trim_prefix p s = (if has_prefix p s then drop (length p) s else s)"

definition trim_suffix :: "string \<Rightarrow> string \<Rightarrow> string" where
  "trim_suffix p s = (if has_suffix p s then take (length s - length p) s else s)"

fun contains :: "string \<Rightarrow> string \<Rightarrow> bool" where
  "contains sub [] = (sub = [])"
| "contains sub (c # s) = (has_prefix sub (c # s) \<or> contains sub s)"

fun index_of :: "string \<Rightarrow> string \<Rightarrow> nat option" where
  "index_of sub [] = (if sub = [] then Some 0 else None)"
| "index_of sub (c # s) =
     (if has_prefix sub (c # s) then Some 0 else map_option Suc (index_of sub s))"

fun index_pred :: "(char \<Rightarrow> bool) \<Rightarrow> string \<Rightarrow> nat option" where
  "index_pred f [] = None"
| "index_pred f (c # s) = (if f c then Some 0 else map_option Suc (index_pred f s))"

fun last_index :: "char \<Rightarrow> string \<Rightarrow> nat option" where
  "last_index c [] = None"
| "last_index c (x # s) =
     (case last_index c s of Some i \<Rightarrow> Some (Suc i) | None \<Rightarrow> if x = c then Some 0 else None)"

lemma has_prefix_append [simp, go_str]: "has_prefix p (p @ s)"
  by (induction p) auto

lemma has_prefix_iff: "has_prefix p s \<longleftrightarrow> (\<exists>t. s = p @ t)"
  by (induction p s rule: has_prefix.induct) auto

lemma has_suffix_iff: "has_suffix p s \<longleftrightarrow> (\<exists>t. s = t @ p)"
  by (auto simp: has_suffix_def has_prefix_iff)
    (metis rev_append rev_rev_ident)

lemma has_suffix_append [simp, go_str]: "has_suffix p (s @ p)"
  by (auto simp: has_suffix_iff)

lemma trim_prefix_append [simp, go_str]: "trim_prefix p (p @ s) = s"
  by (simp add: trim_prefix_def)

lemma trim_suffix_append [simp, go_str]: "trim_suffix p (s @ p) = s"
  by (simp add: trim_suffix_def)

lemma contains_Nil [simp]: "contains [] s"
  by (cases s) auto

lemma contains_iff: "contains sub s \<longleftrightarrow> (\<exists>a b. s = a @ sub @ b)"
proof (induction s)
  case Nil
  then show ?case by auto
next
  case (Cons c s)
  show ?case
  proof
    assume "contains sub (c # s)"
    then consider "has_prefix sub (c # s)" | "contains sub s" by auto
    then show "\<exists>a b. c # s = a @ sub @ b"
    proof cases
      case 1
      then show ?thesis by (metis append_Nil has_prefix_iff)
    next
      case 2
      with Cons.IH obtain a b where "s = a @ sub @ b" by blast
      then show ?thesis by (metis append_Cons)
    qed
  next
    assume "\<exists>a b. c # s = a @ sub @ b"
    then obtain a b where ab: "c # s = a @ sub @ b" by blast
    show "contains sub (c # s)"
    proof (cases a)
      case Nil
      with ab have "has_prefix sub (c # s)" by simp
      then show ?thesis by simp
    next
      case (Cons x a')
      with ab have "s = a' @ sub @ b" by simp
      with Cons.IH show ?thesis by auto
    qed
  qed
qed

lemma contains_mid [simp, go_str]: "contains sub (a @ sub @ b)"
  by (auto simp: contains_iff)

lemma last_index_None [simp]: "last_index c s = None \<longleftrightarrow> c \<notin> set s"
  by (induction s) (auto split: option.splits)

lemma last_index_append:
  "c \<notin> set t \<Longrightarrow> last_index c (s @ c # t) = Some (length s)"
proof (induction s)
  case Nil
  then show ?case by (auto split: option.splits simp flip: last_index_None)
qed auto

lemma last_index_Some:
  "last_index c s = Some i \<Longrightarrow> i < length s \<and> s ! i = c \<and> c \<notin> set (drop (Suc i) s)"
  by (induction s arbitrary: i) (auto split: option.splits if_splits)

section \<open>Splitting, joining, trimming\<close>

fun split_by :: "(char \<Rightarrow> bool) \<Rightarrow> string \<Rightarrow> string list" where
  "split_by f [] = [[]]"
| "split_by f (c # s) =
     (if f c then [] # split_by f s
      else (case split_by f s of [] \<Rightarrow> [[c]] | w # ws \<Rightarrow> (c # w) # ws))"

abbreviation split_on :: "char \<Rightarrow> string \<Rightarrow> string list" where
  "split_on c \<equiv> split_by (\<lambda>x. x = c)"

definition fields_func :: "(char \<Rightarrow> bool) \<Rightarrow> string \<Rightarrow> string list" where
  "fields_func f s = filter (\<lambda>w. w \<noteq> []) (split_by f s)"

definition go_fields :: "string \<Rightarrow> string list" where
  "go_fields s = fields_func is_space s"

fun join :: "string \<Rightarrow> string list \<Rightarrow> string" where
  "join sep [] = []"
| "join sep [w] = w"
| "join sep (w # v # ws) = w @ sep @ join sep (v # ws)"

definition trim_left_by :: "(char \<Rightarrow> bool) \<Rightarrow> string \<Rightarrow> string" where
  "trim_left_by f s = dropWhile f s"

definition trim_right_by :: "(char \<Rightarrow> bool) \<Rightarrow> string \<Rightarrow> string" where
  "trim_right_by f s = rev (dropWhile f (rev s))"

definition trim_space :: "string \<Rightarrow> string" where
  "trim_space s = trim_right_by is_space (trim_left_by is_space s)"

text \<open>\<^verbatim>\<open>strings.TrimRight(s, "\r\n")\<close>\<close>
definition trim_crlf :: "string \<Rightarrow> string" where
  "trim_crlf s = trim_right_by (\<lambda>c. c = CR \<or> c = NL) s"

text \<open>\<^verbatim>\<open>strings.Cut(s, sep)\<close> for a one-byte separator.\<close>
fun cut :: "char \<Rightarrow> string \<Rightarrow> (string \<times> string) option" where
  "cut c [] = None"
| "cut c (x # s) =
     (if x = c then Some ([], s) else map_option (\<lambda>(a, b). (x # a, b)) (cut c s))"

text \<open>\<^verbatim>\<open>strings.SplitN(s, sep, n)\<close> for a one-byte separator and n \<ge> 1.\<close>
fun split_n :: "char \<Rightarrow> nat \<Rightarrow> string \<Rightarrow> string list" where
  "split_n c 0 s = []"
| "split_n c (Suc 0) s = [s]"
| "split_n c (Suc (Suc n)) s =
     (case cut c s of None \<Rightarrow> [s] | Some (a, b) \<Rightarrow> a # split_n c (Suc n) b)"

lemma split_by_not_Nil [simp, go_str]: "split_by f s \<noteq> []"
  by (cases s) (auto split: list.splits)

lemma split_by_clean: "w \<in> set (split_by f s) \<Longrightarrow> c \<in> set w \<Longrightarrow> \<not> f c"
proof (induction s arbitrary: w)
  case (Cons x s)
  note IH = Cons
  obtain v vs where v: "split_by f s = v # vs" by (cases "split_by f s") auto
  have v1: "\<not> f c" if "c \<in> set v" using IH(1)[of v] that v by simp
  have v2: "\<not> f c" if "u \<in> set vs" "c \<in> set u" for u using IH(1)[of u] that v by simp
  from IH(2,3) v show ?case by (cases "f x") (auto dest: v1 v2)
qed simp

lemma join_Cons: "ws \<noteq> [] \<Longrightarrow> join sep (w # ws) = w @ sep @ join sep ws"
  by (cases ws) auto

lemma join_split_on [simp, go_str]: "join [c] (split_on c s) = s"
proof (induction s)
  case (Cons x s)
  show ?case
  proof (cases "split_on c s")
    case Nil
    then show ?thesis by simp
  next
    case (Cons w ws)
    with Cons.IH show ?thesis by (cases ws) auto
  qed
qed simp

lemma split_by_append_sep:
  "(\<forall>x \<in> set w. \<not> f x) \<Longrightarrow> f c \<Longrightarrow> split_by f (w @ c # s) = w # split_by f s"
  by (induction w) auto

lemma split_by_sep: "f c \<Longrightarrow> split_by f (p @ c # q) = split_by f p @ split_by f q"
proof (induction p)
  case (Cons x p)
  then show ?case by (cases "split_by f p") auto
qed simp

lemma split_by_none: "(\<forall>x \<in> set w. \<not> f x) \<Longrightarrow> split_by f w = [w]"
  by (induction w) auto

lemma split_on_join [go_str]:
  "ws \<noteq> [] \<Longrightarrow> (\<forall>w \<in> set ws. c \<notin> set w) \<Longrightarrow> split_on c (join [c] ws) = ws"
proof (induction ws rule: join.induct[of "\<lambda>_ ws. _ ws" "[c]"])
  case (2 sep w)
  then have "\<forall>x \<in> set w. x \<noteq> c" by auto
  then show ?case by (simp add: split_by_none)
next
  case (3 sep w v ws)
  then have "split_on c (w @ c # join [c] (v # ws)) = w # split_on c (join [c] (v # ws))"
    by (intro split_by_append_sep) auto
  with 3 show ?case by simp
qed simp

lemma split_by_append:
  "split_by f (s @ t) =
     butlast (split_by f s) @ (last (split_by f s) @ hd (split_by f t)) # tl (split_by f t)"
proof (induction s)
  case Nil
  then show ?case by (cases "split_by f t") auto
next
  case (Cons c s)
  then show ?case by (cases "split_by f s") auto
qed

lemma split_on_append_nl:
  "split_on c (s @ [c]) = split_on c s @ [[]]"
proof -
  have "split_on c (s @ [c]) = butlast (split_on c s) @ [last (split_on c s), []]"
    by (subst split_by_append) simp
  also have "\<dots> = (butlast (split_on c s) @ [last (split_on c s)]) @ [[]]" by simp
  finally show ?thesis by simp
qed

lemma split_by_append_line:
  "f c \<Longrightarrow> split_by f (s @ c # t) = split_by f s @ split_by f t"
proof (induction s)
  case (Cons x s)
  then show ?case by (cases "split_by f s") auto
qed simp

lemma split_on_append_line:
  "split_on c (s @ c # t) = split_on c s @ split_on c t"
  by (rule split_by_append_line) simp

lemma fields_clean: "w \<in> set (go_fields s) \<Longrightarrow> w \<noteq> [] \<and> (\<forall>c \<in> set w. \<not> is_space c)"
  using split_by_clean by (fastforce simp: go_fields_def fields_func_def)

lemma fields_func_word:
  "w \<noteq> [] \<Longrightarrow> (\<forall>c \<in> set w. \<not> f c) \<Longrightarrow> fields_func f w = [w]"
  by (simp add: fields_func_def split_by_none)

lemma fields_word: "w \<noteq> [] \<Longrightarrow> (\<forall>c \<in> set w. \<not> is_space c) \<Longrightarrow> go_fields w = [w]"
  by (simp add: go_fields_def fields_func_word)

lemma fields_word_sep:
  "w \<noteq> [] \<Longrightarrow> (\<forall>c \<in> set w. \<not> is_space c) \<Longrightarrow> is_space d \<Longrightarrow> go_fields (w @ d # s) = w # go_fields s"
  by (simp add: go_fields_def fields_func_def split_by_append_sep)

lemma fields_Nil [simp]: "go_fields [] = []"
  by (simp add: go_fields_def fields_func_def)

lemma fields_space [simp]: "is_space c \<Longrightarrow> go_fields (c # s) = go_fields s"
  by (simp add: go_fields_def fields_func_def)

lemma fields_append_space: "is_space c \<Longrightarrow> go_fields (s @ c # t) = go_fields s @ go_fields t"
  by (simp add: go_fields_def fields_func_def split_by_append_line)

lemma fields_dropWhile [simp]: "go_fields (dropWhile is_space s) = go_fields s"
  by (induction s) auto

lemma fields_snoc_space [simp]: "is_space c \<Longrightarrow> go_fields (s @ [c]) = go_fields s"
  using fields_append_space[of c s "[]"] by simp

lemma trim_right_by_snoc:
  "trim_right_by f (s @ [c]) = (if f c then trim_right_by f s else s @ [c])"
  by (simp add: trim_right_by_def)

lemma fields_trim_right [simp]: "go_fields (trim_right_by is_space s) = go_fields s"
  by (induction s rule: rev_induct) (auto simp: trim_right_by_snoc, simp add: trim_right_by_def)

lemma fields_trim_space [simp, go_str]: "go_fields (trim_space s) = go_fields s"
  by (simp add: trim_space_def trim_left_by_def)

lemma trim_right_by_id: "s = [] \<or> \<not> f (last s) \<Longrightarrow> trim_right_by f s = s"
  by (cases s rule: rev_cases) (auto simp: trim_right_by_def)

lemma trim_right_last: "trim_right_by f s = [] \<or> \<not> f (last (trim_right_by f s))"
  by (induction s rule: rev_induct) (auto simp: trim_right_by_snoc, simp_all add: trim_right_by_def)

lemma trim_space_id:
  "(s = [] \<or> (\<not> is_space (hd s) \<and> \<not> is_space (last s))) \<Longrightarrow> trim_space s = s"
  by (cases s) (auto simp: trim_space_def trim_left_by_def trim_right_by_id)

lemma trim_space_word: "(\<forall>c \<in> set w. \<not> is_space c) \<Longrightarrow> trim_space w = w"
  by (cases "w = []") (auto intro!: trim_space_id)

lemma trim_right_hd:
  "trim_right_by f s \<noteq> [] \<Longrightarrow> hd (trim_right_by f s) = hd s"
  by (induction s rule: rev_induct) (auto simp: trim_right_by_snoc hd_append trim_right_by_def)

lemma trim_right_eq_Nil: "trim_right_by f s = [] \<longleftrightarrow> (\<forall>c \<in> set s. f c)"
  by (simp add: trim_right_by_def dropWhile_eq_Nil_conv)

lemma trim_space_ends:
  "trim_space s = [] \<or> (\<not> is_space (hd (trim_space s)) \<and> \<not> is_space (last (trim_space s)))"
proof (cases "trim_space s = []")
  case False
  then have ne: "trim_right_by is_space (dropWhile is_space s) \<noteq> []"
    by (simp add: trim_space_def trim_left_by_def)
  have nn: "dropWhile is_space s \<noteq> []"
  proof
    assume "dropWhile is_space s = []"
    with ne show False by (simp only: trim_right_by_def) simp
  qed
  then have "\<not> is_space (hd (dropWhile is_space s))" by (rule hd_dropWhile)
  with ne trim_right_hd[OF ne] trim_right_last[of is_space "dropWhile is_space s"]
  show ?thesis by (simp add: trim_space_def trim_left_by_def)
qed simp

lemma trim_space_idem [simp, go_str]: "trim_space (trim_space s) = trim_space s"
  by (rule trim_space_id) (rule trim_space_ends)

lemma trim_space_Nil [simp]: "trim_space [] = []"
  by (simp add: trim_space_def trim_left_by_def trim_right_by_def)

lemma trim_right_set: "set (trim_right_by f s) \<subseteq> set s"
  by (auto simp: trim_right_by_def dest: set_dropWhileD)

lemma trim_space_set: "set (trim_space s) \<subseteq> set s"
  using trim_right_set[of is_space "dropWhile is_space s"]
  by (auto simp: trim_space_def trim_left_by_def dest: set_dropWhileD)

lemma cut_None [simp]: "cut c s = None \<longleftrightarrow> c \<notin> set s"
  by (induction s) auto

lemma cut_append [go_str]: "c \<notin> set a \<Longrightarrow> cut c (a @ c # b) = Some (a, b)"
  by (induction a) auto

lemma cut_Some: "cut c s = Some (a, b) \<Longrightarrow> s = a @ c # b \<and> c \<notin> set a"
  by (induction s arbitrary: a) (auto split: if_splits)

section \<open>Replacing, comparing, sorting\<close>

text \<open>\<^verbatim>\<open>strings.ReplaceAll\<close>: the non-overlapping occurrences, from the left; an empty
  pattern matches before every byte and at the end.\<close>
function replace_ne :: "string \<Rightarrow> string \<Rightarrow> string \<Rightarrow> string" where
  "replace_ne old new [] = []"
| "replace_ne old new (c # s) =
     (if has_prefix old (c # s) then new @ replace_ne old new (drop (length old - 1) s)
      else c # replace_ne old new s)"
  by pat_completeness auto
termination by (relation "measure (\<lambda>(_, _, s). length s)") auto

definition replace_all :: "string \<Rightarrow> string \<Rightarrow> string \<Rightarrow> string" where
  "replace_all old new s =
     (if old = [] then new @ concat (map (\<lambda>c. c # new) s) else replace_ne old new s)"

definition equal_fold :: "string \<Rightarrow> string \<Rightarrow> bool" where
  "equal_fold a b \<longleftrightarrow> to_lower a = to_lower b"

lemma to_lower_idem [simp, go_str]: "to_lower (to_lower s) = to_lower s"
proof -
  have "lower_char (lower_char c) = lower_char c" for c
    by (auto simp: lower_char_def is_upper_def)
  then show ?thesis by (simp add: to_lower_def)
qed

lemma to_lower_length [simp]: "length (to_lower s) = length s"
  by (simp add: to_lower_def)

lemma replace_ne_absent: "old \<noteq> [] \<Longrightarrow> \<not> contains old s \<Longrightarrow> replace_ne old new s = s"
  by (induction old new s rule: replace_ne.induct) auto

text \<open>Keep the first occurrence of each value: the order in which a Go loop with a
  \<^verbatim>\<open>seen\<close> map appends.\<close>
fun dedup_seen :: "'a list \<Rightarrow> 'a list \<Rightarrow> 'a list" where
  "dedup_seen seen [] = []"
| "dedup_seen seen (x # xs) =
     (if x \<in> set seen then dedup_seen seen xs else x # dedup_seen (x # seen) xs)"

abbreviation dedup :: "'a list \<Rightarrow> 'a list" where
  "dedup \<equiv> dedup_seen []"

lemma dedup_seen_set: "set (dedup_seen seen xs) = set xs - set seen"
  by (induction seen xs rule: dedup_seen.induct) auto

lemma dedup_seen_distinct: "distinct (dedup_seen seen xs)"
  by (induction seen xs rule: dedup_seen.induct) (auto simp: dedup_seen_set)

lemma dedup_set [simp]: "set (dedup xs) = set xs"
  by (simp add: dedup_seen_set)

lemma dedup_distinct [simp]: "distinct (dedup xs)"
  by (rule dedup_seen_distinct)

section \<open>Numbers\<close>

definition digit_val :: "char \<Rightarrow> int" where
  "digit_val c = int (of_char c) - 48"

definition digits_val :: "string \<Rightarrow> int" where
  "digits_val s = foldl (\<lambda>a c. 10 * a + digit_val c) 0 s"

definition max_int64 :: int where "max_int64 = 9223372036854775807"
definition min_int64 :: int where "min_int64 = - 9223372036854775808"

text \<open>\<^verbatim>\<open>strconv.Atoi\<close> on a 64-bit target: the value and whether the error is nil.  A syntax
  error gives 0, an overflow the clamped bound.\<close>
definition go_atoi :: "string \<Rightarrow> int \<times> bool" where
  "go_atoi s =
     (let (neg, d) = (case s of [] \<Rightarrow> (False, [])
                      | c # t \<Rightarrow> if c = CHR ''-'' then (True, t)
                                 else if c = CHR ''+'' then (False, t) else (False, s));
          v = digits_val d
      in if d = [] \<or> \<not> list_all is_digit d then (0, False)
         else if neg then (if - v < min_int64 then (min_int64, False) else (- v, True))
         else if v > max_int64 then (max_int64, False) else (v, True))"

text \<open>The decimal text of a number, as \<^verbatim>\<open>strconv.Itoa\<close> and \<^verbatim>\<open>%d\<close> print it.\<close>
function show_nat :: "nat \<Rightarrow> string" where
  "show_nat n = (if n < 10 then [char_of (48 + n)] else show_nat (n div 10) @ [char_of (48 + n mod 10)])"
  by pat_completeness auto
termination by (relation "measure id") auto

declare show_nat.simps [simp del]

definition show_int :: "int \<Rightarrow> string" where
  "show_int i = (if i < 0 then CHR ''-'' # show_nat (nat (- i)) else show_nat (nat i))"

lemma of_char_digit: "n < 10 \<Longrightarrow> of_char (char_of (48 + n :: nat) :: char) = 48 + n"
  by simp

lemma is_digit_char: "n < 10 \<Longrightarrow> is_digit (char_of (48 + n :: nat))"
  by (simp add: is_digit_def of_char_digit)

lemma show_nat_digits: "list_all is_digit (show_nat n)"
proof (induction n rule: show_nat.induct)
  case (1 n)
  have m: "n mod 10 < 10" by simp
  show ?case
    using 1 is_digit_char[OF m] is_digit_char[of n]
    by (subst show_nat.simps) auto
qed

lemma show_nat_not_Nil [simp]: "show_nat n \<noteq> []"
  by (subst show_nat.simps) simp

lemma digits_val_snoc: "digits_val (s @ [c]) = 10 * digits_val s + digit_val c"
  by (simp add: digits_val_def)

lemma digits_val_show_nat: "digits_val (show_nat n) = int n"
proof (induction n rule: show_nat.induct)
  case (1 n)
  have m: "n mod 10 < 10" by simp
  show ?case
  proof (cases "n < 10")
    case True
    then show ?thesis using of_char_digit[of n]
      by (subst show_nat.simps) (simp add: digits_val_def digit_val_def)
  next
    case False
    then have "digits_val (show_nat n) = 10 * int (n div 10) + int (n mod 10)"
      using 1 of_char_digit[OF m]
      by (subst show_nat.simps) (simp add: digits_val_snoc digit_val_def)
    then show ?thesis by presburger
  qed
qed

lemma go_atoi_digits:
  "d \<noteq> [] \<Longrightarrow> list_all is_digit d \<Longrightarrow> digits_val d \<le> max_int64 \<Longrightarrow> go_atoi d = (digits_val d, True)"
  by (cases d) (auto simp: go_atoi_def is_digit_def Let_def)

lemma go_atoi_show_nat: "int n \<le> max_int64 \<Longrightarrow> go_atoi (show_nat n) = (int n, True)"
  by (simp add: go_atoi_digits show_nat_digits digits_val_show_nat)

lemma digits_val_nonneg: "list_all is_digit d \<Longrightarrow> 0 \<le> digits_val d"
  by (induction d rule: rev_induct)
    (auto simp: digits_val_snoc digit_val_def is_digit_def, simp add: digits_val_def)

lemma go_atoi_bounds: "min_int64 \<le> fst (go_atoi s) \<and> fst (go_atoi s) \<le> max_int64"
proof -
  have "list_all is_digit d \<Longrightarrow> \<not> max_int64 < digits_val d \<Longrightarrow>
      min_int64 \<le> digits_val d \<and> digits_val d \<le> max_int64" for d
    using digits_val_nonneg[of d] by (simp add: min_int64_def)
  moreover have "list_all is_digit d \<Longrightarrow> \<not> - digits_val d < min_int64 \<Longrightarrow>
      min_int64 \<le> - digits_val d \<and> - digits_val d \<le> max_int64" for d
    using digits_val_nonneg[of d] by (simp add: max_int64_def)
  moreover have "min_int64 \<le> 0" "(0::int) \<le> max_int64" "min_int64 \<le> max_int64"
    by (simp_all add: max_int64_def min_int64_def)
  ultimately show ?thesis
    by (simp add: go_atoi_def Let_def split: prod.split list.split)
qed

text \<open>Go's integer division and remainder truncate toward zero.\<close>
definition go_quot :: "int \<Rightarrow> int \<Rightarrow> int" where
  "go_quot a b = sgn a * sgn b * (\<bar>a\<bar> div \<bar>b\<bar>)"

definition go_rem :: "int \<Rightarrow> int \<Rightarrow> int" where
  "go_rem a b = a - b * go_quot a b"

lemma go_quot_nonneg: "0 \<le> a \<Longrightarrow> 0 < b \<Longrightarrow> go_quot a b = a div b"
  by (cases "a = 0") (auto simp: go_quot_def)

section \<open>Trimming as taking the surrounding spaces away\<close>

lemma takeWhile_list_all: "list_all f (takeWhile f s)"
  by (auto simp: list_all_iff dest: set_takeWhileD)

lemma trim_right_decomp: "\<exists>v. s = trim_right_by f s @ v \<and> list_all f v"
proof -
  have "rev s = takeWhile f (rev s) @ dropWhile f (rev s)" by simp
  then have "s = rev (dropWhile f (rev s)) @ rev (takeWhile f (rev s))"
    by (metis rev_append rev_rev_ident)
  moreover have "list_all f (rev (takeWhile f (rev s)))"
    using takeWhile_list_all[of f "rev s"] by simp
  ultimately show ?thesis unfolding trim_right_by_def by blast
qed

lemma trim_space_decomp:
  "\<exists>u v. s = u @ trim_space s @ v \<and> list_all is_space u \<and> list_all is_space v"
proof -
  obtain v where v: "dropWhile is_space s = trim_right_by is_space (dropWhile is_space s) @ v"
    "list_all is_space v" using trim_right_decomp by blast
  have "s = takeWhile is_space s @ dropWhile is_space s" by simp
  with v have "s = takeWhile is_space s @ trim_space s @ v"
    unfolding trim_space_def trim_left_by_def by simp
  with v(2) takeWhile_list_all show ?thesis by blast
qed

lemma trim_space_append_left: "list_all is_space u \<Longrightarrow> trim_space (u @ a) = trim_space a"
  by (induction u) (simp_all add: trim_space_def trim_left_by_def)

lemma trim_right_append: "list_all f v \<Longrightarrow> trim_right_by f (s @ v) = trim_right_by f s"
  by (induction v rule: rev_induct) (simp_all add: trim_right_by_snoc flip: append_assoc)

lemma lower_space: "is_space c \<Longrightarrow> lower_char c = c"
  by (auto simp: is_space_def lower_char_def is_upper_def)

lemma lower_char_eq_iff: "\<not> is_lower c \<Longrightarrow> lower_char x = c \<Longrightarrow> x = c"
proof -
  assume nl: "\<not> is_lower c" and e: "lower_char x = c"
  show "x = c"
  proof (cases "is_upper x")
    case True
    with e have "of_char c = (of_char x + 32 :: nat) mod 256" by (auto simp: lower_char_def)
    with True nl show ?thesis by (simp add: is_upper_def is_lower_def)
  qed (use e in \<open>simp add: lower_char_def\<close>)
qed

lemma is_space_lower [simp]: "is_space (lower_char c) = is_space c"
proof
  assume s: "is_space (lower_char c)"
  then have "\<not> is_lower (lower_char c)" by (auto simp: is_space_def is_lower_def)
  then have "c = lower_char c" using lower_char_eq_iff by metis
  with s show "is_space c" by simp
qed (simp add: lower_space)

lemma to_lower_append [simp]: "to_lower (a @ b) = to_lower a @ to_lower b"
  by (simp add: to_lower_def)

lemma to_lower_spaces: "list_all is_space u \<Longrightarrow> to_lower u = u"
  by (induction u) (simp_all add: to_lower_def lower_space)

lemma list_all_lower [simp]: "list_all is_space (to_lower u) = list_all is_space u"
  by (simp add: to_lower_def list_all_iff)

lemma trim_right_lower: "trim_right_by is_space (to_lower s) = to_lower (trim_right_by is_space s)"
  by (simp add: trim_right_by_def to_lower_def rev_map dropWhile_map comp_def)

lemma trim_space_lower: "trim_space (to_lower s) = to_lower (trim_space s)"
proof -
  have "dropWhile is_space (to_lower s) = to_lower (dropWhile is_space s)"
    by (simp add: to_lower_def dropWhile_map comp_def)
  then show ?thesis by (simp add: trim_space_def trim_left_by_def trim_right_lower)
qed

section \<open>Words\<close>

text \<open>What one field of a line can be.\<close>
definition is_word :: "string \<Rightarrow> bool" where
  "is_word s \<longleftrightarrow> s \<noteq> [] \<and> (\<forall>c \<in> set s. \<not> is_space c)"

lemma is_word_trim: "is_word s \<Longrightarrow> trim_space s = s"
  by (simp add: is_word_def trim_space_word)

lemma is_word_lower: "is_word s \<Longrightarrow> is_word (to_lower s)"
  by (simp add: is_word_def to_lower_def)

lemma is_word_fields: "is_word s \<Longrightarrow> go_fields s = [s]"
  by (simp add: is_word_def fields_word)

lemma is_word_no_nl: "is_word s \<Longrightarrow> NL \<notin> set s"
  by (auto simp: is_word_def is_space_def)

lemma lower_mem: "\<not> is_lower c \<Longrightarrow> c \<in> set (to_lower s) \<Longrightarrow> c \<in> set s"
  by (auto simp: to_lower_def) (frule lower_char_eq_iff[OF _ refl], simp)

lemma has_prefix_lower:
  assumes "\<not> is_lower c" "has_prefix [c] (to_lower s)"
  shows "has_prefix [c] s"
proof (cases s)
  case Nil
  with assms(2) show ?thesis by (simp add: to_lower_def)
next
  case (Cons x t)
  with assms(2) have "lower_char x = c" by (simp add: to_lower_def)
  with assms(1) have "x = c" by (rule lower_char_eq_iff)
  with Cons show ?thesis by simp
qed

lemma trim_crlf_word: "is_word s \<Longrightarrow> trim_crlf (p @ s @ [NL]) = p @ s"
proof -
  assume w: "is_word s"
  then have "last s \<in> set s" "s \<noteq> []" by (auto simp: is_word_def)
  with w have "last (p @ s) \<noteq> CR" "last (p @ s) \<noteq> NL" by (auto simp: is_word_def is_space_def)
  then have "trim_right_by (\<lambda>c. c = CR \<or> c = NL) (p @ s) = p @ s" by (intro trim_right_by_id) auto
  then show ?thesis using trim_right_by_snoc[of "\<lambda>c. c = CR \<or> c = NL" "p @ s" NL] by (simp add: trim_crlf_def)
qed

lemma is_word_trim_line: "is_word w \<Longrightarrow> trim_space (w @ [NL]) = w"
proof -
  assume w: "is_word w"
  then have "w \<noteq> []" and ns: "\<forall>c \<in> set w. \<not> is_space c" by (auto simp: is_word_def)
  then have "dropWhile is_space (w @ [NL]) = w @ [NL]" by (cases w) auto
  moreover have "is_space NL" by (simp add: is_space_def)
  moreover have "trim_right_by is_space w = w" using ns \<open>w \<noteq> []\<close> by (intro trim_right_by_id) simp
  ultimately show ?thesis unfolding trim_space_def trim_left_by_def by (simp only: trim_right_by_snoc if_True)
qed

lemma is_word_digits [simp]: "is_word (show_nat n)"
  using show_nat_digits[of n] by (auto simp: is_word_def list_all_iff is_digit_def is_space_def)

text \<open>A 64-bit signed result.\<close>
definition wrap64 :: "int \<Rightarrow> int" where
  "wrap64 i = (i + 9223372036854775808) mod 18446744073709551616 - 9223372036854775808"

lemma wrap64_id: "min_int64 \<le> i \<Longrightarrow> i \<le> max_int64 \<Longrightarrow> wrap64 i = i"
  by (simp add: wrap64_def min_int64_def max_int64_def)

lemma wrap64_bounds: "min_int64 \<le> wrap64 i \<and> wrap64 i \<le> max_int64"
proof -
  have "0 \<le> (i + 9223372036854775808) mod 18446744073709551616"
    "(i + 9223372036854775808) mod 18446744073709551616 < 18446744073709551616" by simp_all
  then show ?thesis unfolding wrap64_def min_int64_def max_int64_def by linarith
qed

lemma wrap64_over: "max_int64 < i \<Longrightarrow> i \<le> 3 * max_int64 \<Longrightarrow> wrap64 i = i - 2 ^ 64"
proof -
  assume b: "max_int64 < i" "i \<le> 3 * max_int64"
  have "(i + 9223372036854775808) mod 18446744073709551616 = (i + 9223372036854775808 - 18446744073709551616) mod 18446744073709551616"
    by (simp only: minus_mod_self2)
  also have "\<dots> = i + 9223372036854775808 - 18446744073709551616"
    using b by (intro mod_pos_pos_trivial) (simp_all add: max_int64_def)
  finally show ?thesis by (simp add: wrap64_def)
qed

lemma trim_space_snoc: "is_space c \<Longrightarrow> trim_space (s @ [c]) = trim_space s"
proof (cases "dropWhile is_space s = []")
  case True
  assume c: "is_space c"
  from True have "\<forall>x \<in> set s. is_space x" by (simp add: dropWhile_eq_Nil_conv)
  then have "dropWhile is_space (s @ [c]) = []" using c by (simp add: dropWhile_eq_Nil_conv)
  with True show ?thesis unfolding trim_space_def trim_left_by_def by (simp only:)
next
  case False
  assume c: "is_space c"
  from False have "dropWhile is_space (s @ [c]) = dropWhile is_space s @ [c]" by (auto simp: dropWhile_append)
  then show ?thesis unfolding trim_space_def trim_left_by_def using c by (simp only: trim_right_by_snoc if_True)
qed

lemma go_atoi_show_int: "min_int64 \<le> i \<Longrightarrow> i \<le> max_int64 \<Longrightarrow> go_atoi (show_int i) = (i, True)"
proof (cases "i < 0")
  case False
  assume "i \<le> max_int64"
  with False show ?thesis using go_atoi_show_nat[of "nat i"] by (simp add: show_int_def)
next
  case True
  assume "min_int64 \<le> i"
  then have "\<not> - int (nat (- i)) < min_int64" using True by simp
  then show ?thesis
    using True show_nat_digits[of "nat (- i)"] digits_val_show_nat[of "nat (- i)"]
    by (simp add: show_int_def go_atoi_def Let_def)
qed

text \<open>The difference of two times in nanoseconds ends at the bounds of 64 bits.\<close>
definition go_sub :: "int \<Rightarrow> int \<Rightarrow> int" where
  "go_sub t u = max min_int64 (min max_int64 (t - u))"

section \<open>Invariants of step relations\<close>

text \<open>A predicate that holds at the start and that every step keeps holds after any number of steps.\<close>
locale step_invariant =
  fixes step :: "'s \<Rightarrow> 's \<Rightarrow> bool" and start :: "'s \<Rightarrow> bool" and inv :: "'s \<Rightarrow> bool"
  assumes start_inv: "start s \<Longrightarrow> inv s" and step_inv: "inv s \<Longrightarrow> step s t \<Longrightarrow> inv t"
begin

lemma reachable_inv: "step\<^sup>*\<^sup>* s t \<Longrightarrow> start s \<Longrightarrow> inv t"
  by (induction rule: rtranclp_induct) (auto intro: start_inv step_inv)

lemma inv_stays: "step\<^sup>*\<^sup>* s t \<Longrightarrow> inv s \<Longrightarrow> inv t"
  by (induction rule: rtranclp_induct) (auto intro: step_inv)

end

end
