(* ===== verification/GoRegexp.thy ===== *)
theory GoRegexp
  imports GoBase
begin

text \<open>
  Regular expressions as Go matches them: the leftmost match, and of the matches there the one a
  backtracking search would find first, with its groups. Patterns are syntax trees over bytes; a negated
  class matches the bytes of a longer character one by one, which gives the same text. Groups are listed
  in the order in which they close.
\<close>

section \<open>Matching\<close>

datatype re = Eps | Chr "char \<Rightarrow> bool" | Start | End | WordB | Seq re re | Alt re re | Star re | Grp re

text \<open>A position: the text before it (reversed), the text after it, the groups so far.\<close>
type_synonym pos = "string \<times> string \<times> string list"

abbreviation rest_of :: "pos \<Rightarrow> string" where "rest_of q \<equiv> fst (snd q)"

definition word_char :: "char \<Rightarrow> bool" where
  "word_char c \<longleftrightarrow> is_digit c \<or> is_lower c \<or> is_upper c \<or> c = CHR ''_''"

definition blank_char :: "char \<Rightarrow> bool" where
  "blank_char c \<longleftrightarrow> c = TAB \<or> c = NL \<or> c = CHR 0x0C \<or> c = CR \<or> c = SP"

definition head_word :: "string \<Rightarrow> bool" where
  "head_word s = (case s of [] \<Rightarrow> False | c # _ \<Rightarrow> word_char c)"

text \<open>The positions after a match, in the order in which they are tried.\<close>
fun steps :: "re \<Rightarrow> pos \<Rightarrow> pos list" where
  "steps Eps x = [x]"
| "steps (Chr f) x =
     (case x of (p, s, gs) \<Rightarrow> (case s of [] \<Rightarrow> [] | c # t \<Rightarrow> if f c then [(c # p, t, gs)] else []))"
| "steps Start x = (if fst x = [] then [x] else [])"
| "steps End x = (if rest_of x = [] then [x] else [])"
| "steps WordB x = (if head_word (fst x) \<noteq> head_word (rest_of x) then [x] else [])"
| "steps (Seq a b) x = concat (map (steps b) (steps a x))"
| "steps (Alt a b) x = steps a x @ steps b x"
| "steps (Star a) x =
     concat (map (\<lambda>y. if length (rest_of y) < length (rest_of x) then steps (Star a) y else []) (steps a x)) @ [x]"
| "steps (Grp a) x =
     map (\<lambda>(p, s, gs). (p, s, gs @ [take (length (rest_of x) - length s) (rest_of x)])) (steps a x)"

declare steps.simps(8) [simp del]
lemmas star_unfold = steps.simps(8)

text \<open>The first match from a position on: its text, its groups, and the position after it.\<close>
fun search :: "re \<Rightarrow> string \<Rightarrow> string \<Rightarrow> (string \<times> string list \<times> string \<times> string) option" where
  "search r p [] = (case steps r (p, [], []) of [] \<Rightarrow> None | (q, t, gs) # _ \<Rightarrow> Some ('''', gs, q, t))"
| "search r p (c # s) =
     (case steps r (p, c # s, []) of
        (q, t, gs) # _ \<Rightarrow> Some (take (length (c # s) - length t) (c # s), gs, q, t)
      | [] \<Rightarrow> search r (c # p) s)"

definition find_string :: "re \<Rightarrow> string \<Rightarrow> string" where
  "find_string r s = (case search r [] s of None \<Rightarrow> '''' | Some (m, _) \<Rightarrow> m)"

definition match_string :: "re \<Rightarrow> string \<Rightarrow> bool" where
  "match_string r s \<longleftrightarrow> search r [] s \<noteq> None"

text \<open>\<^verbatim>\<open>FindStringSubmatch\<close>: the groups.\<close>
definition submatch :: "re \<Rightarrow> string \<Rightarrow> string list option" where
  "submatch r s = (case search r [] s of None \<Rightarrow> None | Some (_, gs, _) \<Rightarrow> Some gs)"

text \<open>\<^verbatim>\<open>FindAllStringSubmatch\<close> of a pattern without empty matches.\<close>
fun all_from :: "nat \<Rightarrow> re \<Rightarrow> string \<Rightarrow> string \<Rightarrow> string list list" where
  "all_from 0 r p s = []"
| "all_from (Suc n) r p s = (case search r p s of None \<Rightarrow> [] | Some (_, gs, q, t) \<Rightarrow> gs # all_from n r q t)"

definition all_submatches :: "re \<Rightarrow> string \<Rightarrow> string list list" where
  "all_submatches r s = all_from (Suc (length s)) r [] s"

section \<open>Building patterns\<close>

abbreviation any_of :: "string \<Rightarrow> re" where "any_of cs \<equiv> Chr (\<lambda>c. c \<in> set cs)"
abbreviation none_of :: "string \<Rightarrow> re" where "none_of cs \<equiv> Chr (\<lambda>c. c \<notin> set cs)"
abbreviation plus :: "re \<Rightarrow> re" where "plus r \<equiv> Seq r (Star r)"
abbreviation maybe :: "re \<Rightarrow> re" where "maybe r \<equiv> Alt r Eps"
abbreviation spaces :: re where "spaces \<equiv> Star (Chr blank_char)"

fun lit :: "string \<Rightarrow> re" where
  "lit [] = Eps"
| "lit (c # s) = Seq (Chr (\<lambda>x. x = c)) (lit s)"

fun seqs :: "re list \<Rightarrow> re" where
  "seqs [] = Eps"
| "seqs [r] = r"
| "seqs (r # rs) = Seq r (seqs rs)"

fun alts :: "re list \<Rightarrow> re" where
  "alts [] = Chr (\<lambda>_. False)"
| "alts [r] = r"
| "alts (r # rs) = Alt r (alts rs)"

section \<open>Facts\<close>

lemma steps_suffix: "y \<in> set (steps r x) \<Longrightarrow> \<exists>u. rest_of x = u @ rest_of y \<and> fst y = rev u @ fst x"
proof (induction r x arbitrary: y rule: steps.induct)
  case (6 a b x)
  then obtain z where z: "z \<in> set (steps a x)" "y \<in> set (steps b z)" by auto
  with 6 obtain u v where "rest_of x = u @ rest_of z" "fst z = rev u @ fst x" "rest_of z = v @ rest_of y" "fst y = rev v @ fst z"
    by blast
  then show ?case by (intro exI[of _ "u @ v"]) simp
next
  case (8 a x)
  show ?case
  proof (cases "y = x")
    case False
    with 8(3) obtain z where z: "z \<in> set (steps a x)" "length (rest_of z) < length (rest_of x)" "y \<in> set (steps (Star a) z)"
      by (auto simp: star_unfold[of a x] split: if_splits)
    obtain u where "rest_of x = u @ rest_of z" "fst z = rev u @ fst x" using 8(1)[OF z(1)] by blast
    moreover obtain v where "rest_of z = v @ rest_of y" "fst y = rev v @ fst z" using 8(2)[OF z] by blast
    ultimately show ?thesis by (intro exI[of _ "u @ v"]) simp
  qed simp
next
  case (9 a x)
  then show ?case by force
qed (auto split: list.splits if_splits prod.splits)

lemma split_shift:
  assumes "f [] (c # s) = []"
  shows "(\<forall>a b. s = a @ b \<longrightarrow> f (c # a) b = []) \<longleftrightarrow> (\<forall>a b. c # s = a @ b \<longrightarrow> f a b = [])"
proof (intro iffI allI impI)
  fix a b assume h: "\<forall>a b. s = a @ b \<longrightarrow> f (c # a) b = []" "c # s = a @ b"
  then show "f a b = []" using assms by (cases a) auto
next
  fix a b assume h: "\<forall>a b. c # s = a @ b \<longrightarrow> f a b = []" "s = a @ b"
  from h(1)[rule_format, of "c # a" b] h(2) show "f (c # a) b = []" by simp
qed

lemma search_None: "search r p s = None \<longleftrightarrow> (\<forall>a b. s = a @ b \<longrightarrow> steps r (rev a @ p, b, []) = [])"
proof (induction r p s rule: search.induct)
  case (2 r p c s)
  show ?case
  proof (cases "steps r (p, c # s, [])")
    case Nil
    with 2 have "search r p (c # s) = None \<longleftrightarrow> (\<forall>a b. s = a @ b \<longrightarrow> steps r (rev a @ c # p, b, []) = [])" by simp
    also have "\<dots> \<longleftrightarrow> (\<forall>a b. c # s = a @ b \<longrightarrow> steps r (rev a @ p, b, []) = [])"
      using split_shift[of "\<lambda>a b. steps r (rev a @ p, b, [])" c s] Nil by simp
    finally show ?thesis .
  next
    case (Cons y ys)
    then have "steps r (rev [] @ p, c # s, []) \<noteq> []" by simp
    then have "\<not> (\<forall>a b. c # s = a @ b \<longrightarrow> steps r (rev a @ p, b, []) = [])" by (metis append_Nil)
    with Cons show ?thesis by (cases y) simp
  qed
qed (auto split: list.splits)

lemma match_at: "y \<in> set (steps r (rev a, b, [])) \<Longrightarrow> match_string r (a @ b)"
  unfolding match_string_def search_None by (metis append_Nil2 empty_iff empty_set)

lemma steps_lit: "steps (lit w) (p, s, gs) = (if has_prefix w s then [(rev w @ p, drop (length w) s, gs)] else [])"
proof (induction w arbitrary: p s)
  case (Cons c w)
  then show ?case by (cases s) auto
qed simp

lemma steps_seqs [simp]: "set (steps (seqs (r # rs)) x) = (\<Union>y \<in> set (steps r x). set (steps (seqs rs) y))"
  by (cases rs) auto

lemma steps_alts [simp]: "set (steps (alts rs) x) = (\<Union>r \<in> set rs. set (steps r x))"
proof (induction rs rule: alts.induct)
  case 1
  then show ?case by (cases x) (auto split: list.splits)
qed auto

lemma star_stop [intro]: "x \<in> set (steps (Star r) x)"
  by (subst star_unfold) simp

lemma star_go: "y \<in> set (steps r x) \<Longrightarrow> length (rest_of y) < length (rest_of x) \<Longrightarrow> z \<in> set (steps (Star r) y) \<Longrightarrow>
    z \<in> set (steps (Star r) x)"
  by (subst star_unfold) auto

lemma star_class: "\<forall>c \<in> set u. f c \<Longrightarrow> (rev u @ p, t, gs) \<in> set (steps (Star (Chr f)) (p, u @ t, gs))"
proof (induction u arbitrary: p)
  case Nil
  show ?case using star_stop[of "(p, t, gs)" "Chr f"] by simp
next
  case (Cons c u)
  have 1: "(rev u @ (c # p), t, gs) \<in> set (steps (Star (Chr f)) (c # p, u @ t, gs))" using Cons by simp
  have 2: "(c # p, u @ t, gs) \<in> set (steps (Chr f) (p, (c # u) @ t, gs))" using Cons.prems by simp
  show ?case using star_go[OF 2 _ 1] by simp
qed

lemma take_suffix: "s = u @ t \<Longrightarrow> take (length s - length t) s = u"
  by simp

text \<open>What a search finds is a match at some place.\<close>
lemma search_found:
  "search r p s = Some (m, gs, q, t) \<Longrightarrow> \<exists>a. s = a @ m @ t \<and> (q, t, gs) \<in> set (steps r (rev a @ p, m @ t, []))"
proof (induction r p s rule: search.induct)
  case (1 r p)
  then obtain ys where y: "steps r (p, [], []) = (q, t, gs) # ys" "m = ''''" by (auto split: list.splits)
  then have "t = []" using steps_suffix[of "(q, t, gs)" r "(p, [], [])"] by simp
  with y show ?case by simp
next
  case (2 r p c s)
  show ?case
  proof (cases "steps r (p, c # s, [])")
    case Nil
    with 2 obtain a where "s = a @ m @ t" "(q, t, gs) \<in> set (steps r (rev a @ c # p, m @ t, []))" by auto
    then show ?thesis by (intro exI[of _ "c # a"]) simp
  next
    case (Cons y ys)
    with 2(2) have y: "(q, t, gs) \<in> set (steps r (p, c # s, []))" "m = take (length (c # s) - length t) (c # s)"
      by (auto split: prod.splits)
    obtain u where u: "c # s = u @ t" using steps_suffix[OF y(1)] by auto
    have "m = u" using y(2) take_suffix[OF u] by simp
    with u y(1) show ?thesis by (intro exI[of _ "[]"]) simp
  qed
qed

text \<open>Patterns without empty matches.\<close>
definition consuming :: "re \<Rightarrow> bool" where
  "consuming r \<longleftrightarrow> (\<forall>x. \<forall>y \<in> set (steps r x). length (rest_of y) < length (rest_of x))"

lemma consuming_Chr [simp]: "consuming (Chr f)"
  by (auto simp: consuming_def split: list.splits if_splits)

lemma consuming_Seq [simp]: "consuming a \<Longrightarrow> consuming (Seq a b)"
  unfolding consuming_def
proof (intro allI ballI)
  fix x y assume a: "\<forall>x. \<forall>y \<in> set (steps a x). length (rest_of y) < length (rest_of x)" and y: "y \<in> set (steps (Seq a b) x)"
  from y obtain z where z: "z \<in> set (steps a x)" "y \<in> set (steps b z)" by (simp only: steps.simps set_concat set_map) blast
  from steps_suffix[OF z(2)] have "length (rest_of y) \<le> length (rest_of z)" by auto
  with a z(1) show "length (rest_of y) < length (rest_of x)" by fastforce
qed

lemma find_string_ne:
  assumes "match_string r s" "consuming r"
  shows "find_string r s \<noteq> ''''"
proof -
  obtain m gs q t where f: "search r [] s = Some (m, gs, q, t)" using assms(1) by (auto simp: match_string_def)
  from search_found[OF f] obtain a where "(q, t, gs) \<in> set (steps r (rev a @ [], m @ t, []))" by blast
  with assms(2) have "m \<noteq> ''''" by (force simp: consuming_def)
  with f show ?thesis by (simp add: find_string_def)
qed

end
