(* ===== verification/GoJson.thy ===== *)
theory GoJson
  imports GoBase "HOL-Library.Multiset"
begin

text \<open>
  \<^verbatim>\<open>encoding/json\<close> as the program uses it: values with numbers kept as their literal, the
  encoder (Go's default escaping, HTML characters included, invalid UTF-8 replaced), a decoder,
  and the round trip between them.  An object is a list of members in the order they are
  written: the builder of a Go map sorts its keys first (\<open>json_map\<close>).
\<close>

datatype json = JNull | JBool bool | JNum string | JStr string
  | JArr "json list" | JObj "(string \<times> json) list"

section \<open>UTF-8\<close>

definition byte_in :: "nat \<Rightarrow> nat \<Rightarrow> char \<Rightarrow> bool" where
  "byte_in lo hi c \<longleftrightarrow> lo \<le> of_char c \<and> of_char c \<le> hi"

definition cont :: "char \<Rightarrow> bool" where "cont c = byte_in 128 191 c"

text \<open>The length of the well-formed sequence at the head of a text; 0 when there is none.\<close>
definition utf8_width :: "string \<Rightarrow> nat" where
  "utf8_width s =
     (case s of [] \<Rightarrow> 0
      | c # t \<Rightarrow>
          if byte_in 0 127 c then 1
          else case t of [] \<Rightarrow> 0
          | d # u \<Rightarrow>
              if byte_in 194 223 c \<and> cont d then 2
              else case u of [] \<Rightarrow> 0
              | e # v \<Rightarrow>
                  if cont e \<and> (byte_in 224 224 c \<and> byte_in 160 191 d
                      \<or> (byte_in 225 236 c \<or> byte_in 238 239 c) \<and> cont d
                      \<or> byte_in 237 237 c \<and> byte_in 128 159 d) then 3
                  else case v of [] \<Rightarrow> 0
                  | f # _ \<Rightarrow>
                      if cont e \<and> cont f \<and> (byte_in 240 240 c \<and> byte_in 144 191 d
                          \<or> byte_in 241 243 c \<and> cont d \<or> byte_in 244 244 c \<and> byte_in 128 143 d)
                      then 4 else 0)"

lemma utf8_width_le: "utf8_width s \<le> length s"
  by (auto simp: utf8_width_def split: list.splits)

lemma utf8_width_take:
  assumes "utf8_width s = w" "w \<noteq> 0"
  shows "utf8_width (take w s @ t) = w"
proof -
  from assms obtain c s1 where s: "s = c # s1" by (cases s) (auto simp: utf8_width_def)
  consider "w = 1" "byte_in 0 127 c" | d s2 where "\<not> byte_in 0 127 c" "s1 = d # s2"
    using assms s by (cases s1) (auto simp: utf8_width_def split: if_splits)
  then show ?thesis
  proof cases
    case 1
    then show ?thesis by (simp add: utf8_width_def s)
  next
    case (2 d s2)
    note d = this
    consider "w = 2" "byte_in 194 223 c \<and> cont d" | e s3 where "\<not> (byte_in 194 223 c \<and> cont d)" "s2 = e # s3"
      using assms s d by (cases s2) (auto simp: utf8_width_def split: if_splits)
    then show ?thesis
    proof cases
      case 1
      with s d show ?thesis by (simp add: utf8_width_def)
    next
      case (2 e s3)
      with assms s d show ?thesis
        by (cases s3) (simp_all add: utf8_width_def split: if_splits)
    qed
  qed
qed

definition u_fffd :: string where "u_fffd = [CHR 0xEF, CHR 0xBF, CHR 0xBD]"

text \<open>A text with every byte outside a well-formed sequence replaced by U+FFFD.\<close>
function utf8_fix :: "string \<Rightarrow> string" where
  "utf8_fix [] = []"
| "utf8_fix (c # s) =
     (let w = utf8_width (c # s) in
      if w = 0 then u_fffd @ utf8_fix s else take w (c # s) @ utf8_fix (drop w (c # s)))"
  by pat_completeness auto
termination by (relation "measure length") auto

declare utf8_fix.simps(2) [simp del]

section \<open>Strings\<close>

definition esc_ascii :: "char \<Rightarrow> string" where
  "esc_ascii c =
     (if c = CHR 0x22 then [CHR 0x5C, CHR 0x22]
      else if c = CHR 0x5C then [CHR 0x5C, CHR 0x5C]
      else if c = CHR 0x08 then [CHR 0x5C, CHR ''b'']
      else if c = CHR 0x0C then [CHR 0x5C, CHR ''f'']
      else if c = CHR 0x0A then [CHR 0x5C, CHR ''n'']
      else if c = CHR 0x0D then [CHR 0x5C, CHR ''r'']
      else if c = CHR 0x09 then [CHR 0x5C, CHR ''t'']
      else if byte_in 0 31 c \<or> c = CHR ''<'' \<or> c = CHR ''>'' \<or> c = CHR ''&'' then
        [CHR 0x5C, CHR ''u'', CHR ''0'', CHR ''0'',
         char_of (48 + of_char c div 16 :: nat),
         char_of (let k = of_char c mod 16 in (if k < 10 then 48 + k else 87 + k) :: nat)]
      else [c])"

function json_escape :: "string \<Rightarrow> string" where
  "json_escape [] = []"
| "json_escape (c # s) =
     (let w = utf8_width (c # s) in
      if w = 0 then [CHR 0x5C] @ ''ufffd'' @ json_escape s
      else if w = 1 then esc_ascii c @ json_escape s
      else (let ch = take w (c # s) in
            (if ch = [CHR 0xE2, CHR 0x80, CHR 0xA8] then CHR 0x5C # ''u2028''
             else if ch = [CHR 0xE2, CHR 0x80, CHR 0xA9] then CHR 0x5C # ''u2029'' else ch)
            @ json_escape (drop w (c # s))))"
  by pat_completeness auto
termination by (relation "measure length") auto

declare json_escape.simps(2) [simp del]

definition quote :: "string \<Rightarrow> string" where
  "quote s = CHR 0x22 # json_escape s @ [CHR 0x22]"

definition hex_val :: "char \<Rightarrow> nat option" where
  "hex_val c =
     (if byte_in 48 57 c then Some (of_char c - 48)
      else if byte_in 97 102 c then Some (of_char c - 87)
      else if byte_in 65 70 c then Some (of_char c - 55) else None)"

definition hex4 :: "string \<Rightarrow> (nat \<times> string) option" where
  "hex4 s =
     (case s of a # b # c # d # t \<Rightarrow>
        (case (hex_val a, hex_val b, hex_val c, hex_val d) of
           (Some p, Some q, Some r, Some u) \<Rightarrow> Some (((p * 16 + q) * 16 + r) * 16 + u, t)
         | _ \<Rightarrow> None)
      | _ \<Rightarrow> None)"

definition utf8_enc :: "nat \<Rightarrow> string" where
  "utf8_enc r =
     (if r < 128 then [char_of r]
      else if r < 2048 then [char_of (192 + r div 64), char_of (128 + r mod 64)]
      else if r < 65536 then
        [char_of (224 + r div 4096), char_of (128 + r div 64 mod 64), char_of (128 + r mod 64)]
      else [char_of (240 + r div 262144), char_of (128 + r div 4096 mod 64),
            char_of (128 + r div 64 mod 64), char_of (128 + r mod 64)])"

text \<open>A \<^verbatim>\<open>\u\<close> escape, after the letter: surrogate halves combine, a lone half is U+FFFD.\<close>
definition unq_u :: "string \<Rightarrow> (string \<times> string) option" where
  "unq_u s =
     (case hex4 s of None \<Rightarrow> None
      | Some (r, t) \<Rightarrow>
          if 55296 \<le> r \<and> r < 57344 then
            (case t of x # y # t' \<Rightarrow>
               if x = CHR 0x5C \<and> y = CHR ''u'' \<and> r < 56320 then
                 (case hex4 t' of Some (q, t'') \<Rightarrow>
                    if 56320 \<le> q \<and> q < 57344
                    then Some (utf8_enc ((r - 55296) * 1024 + (q - 56320) + 65536), t'')
                    else Some (u_fffd, t)
                  | None \<Rightarrow> Some (u_fffd, t))
               else Some (u_fffd, t)
             | _ \<Rightarrow> Some (u_fffd, t))
          else Some (utf8_enc r, t))"

lemma hex4_length: "hex4 s = Some (r, t) \<Longrightarrow> length t < length s"
  by (auto simp: hex4_def split: list.splits option.splits)

lemma unq_u_length: "unq_u s = Some (r, t) \<Longrightarrow> length t < length s"
  by (auto simp: unq_u_def dest!: hex4_length split: option.splits list.splits if_splits)

definition unesc :: "char \<Rightarrow> char option" where
  "unesc c =
     (if c = CHR 0x22 \<or> c = CHR 0x5C \<or> c = CHR ''/'' then Some c
      else if c = CHR ''b'' then Some CHR 0x08 else if c = CHR ''f'' then Some CHR 0x0C
      else if c = CHR ''n'' then Some CHR 0x0A else if c = CHR ''r'' then Some CHR 0x0D
      else if c = CHR ''t'' then Some CHR 0x09 else None)"

text \<open>The text up to the closing quote, and what follows it.\<close>
function unq :: "string \<Rightarrow> (string \<times> string) option" where
  "unq [] = None"
| "unq (c # s) =
     (if c = CHR 0x22 then Some ([], s)
      else if c = CHR 0x5C then
        (case s of [] \<Rightarrow> None
         | d # t \<Rightarrow>
             if d = CHR ''u'' then
               (case unq_u t of None \<Rightarrow> None
                | Some (r, t') \<Rightarrow> map_option (\<lambda>(a, b). (r @ a, b)) (unq t'))
             else (case unesc d of None \<Rightarrow> None
                   | Some r \<Rightarrow> map_option (\<lambda>(a, b). (r # a, b)) (unq t)))
      else if byte_in 0 31 c then None
      else (let w = utf8_width (c # s) in
            if w = 0 then map_option (\<lambda>(a, b). (u_fffd @ a, b)) (unq s)
            else map_option (\<lambda>(a, b). (take w (c # s) @ a, b)) (unq (drop w (c # s)))))"
  by pat_completeness auto
termination by (relation "measure length") (auto dest: unq_u_length)

declare unq.simps(2) [simp del]

abbreviation push :: "string \<Rightarrow> (string \<times> string) option \<Rightarrow> (string \<times> string) option" where
  "push p \<equiv> map_option (\<lambda>(a, b). (p @ a, b))"

lemma byte_in_quote: "byte_in 0 127 CHR 0x22" "byte_in 0 127 CHR 0x5C"
  by (simp_all add: byte_in_def)

lemma width_one: "utf8_width (c # s) = Suc 0 \<longleftrightarrow> byte_in 0 127 c"
  by (auto simp: utf8_width_def split: list.split)

lemma unq_plain:
  assumes "byte_in 0 127 c" "\<not> byte_in 0 31 c" "c \<noteq> CHR 0x22" "c \<noteq> CHR 0x5C"
  shows "unq (c # t) = push [c] (unq t)"
proof -
  have "utf8_width (c # t) = Suc 0" using assms(1) width_one by blast
  with assms show ?thesis by (simp add: unq.simps)
qed

lemma pos_mod_bound_16: "n mod 16 \<le> (15 :: nat)"
  using mod_less_divisor[of 16 n] by linarith

lemma unq_hex:
  assumes "byte_in 0 62 c"
  shows "unq (CHR 0x5C # CHR ''u'' # CHR ''0'' # CHR ''0'' # char_of (48 + of_char c div 16 :: nat)
     # char_of (let k = of_char c mod 16 in (if k < 10 then 48 + k else 87 + k) :: nat) # t) = push [c] (unq t)"
proof -
  define n where "n = (of_char c :: nat)"
  have n: "n < 63" using assms by (simp add: n_def byte_in_def)
  have hi: "hex_val (char_of (48 + n div 16)) = Some (n div 16)"
    using n by (simp add: hex_val_def byte_in_def)
  have lo: "hex_val (char_of (let k = n mod 16 in (if k < 10 then 48 + k else 87 + k))) = Some (n mod 16)"
    using pos_mod_bound_16[of n] by (simp add: hex_val_def byte_in_def Let_def)
  have z: "hex_val CHR ''0'' = Some 0" by (simp add: hex_val_def byte_in_def)
  have s: "((0 * 16 + 0) * 16 + n div 16) * 16 + n mod 16 = n" by simp
  have "hex4 (CHR ''0'' # CHR ''0'' # char_of (48 + n div 16)
      # char_of (let k = n mod 16 in (if k < 10 then 48 + k else 87 + k)) # t) = Some (n, t)"
    by (simp only: hex4_def list.case hi lo z prod.case option.case s)
  then have "unq_u (CHR ''0'' # CHR ''0'' # char_of (48 + n div 16)
      # char_of (let k = n mod 16 in (if k < 10 then 48 + k else 87 + k)) # t) = Some ([c], t)"
    using n by (simp add: unq_u_def utf8_enc_def) (simp add: n_def)
  then show ?thesis unfolding n_def by (simp add: unq.simps)
qed

lemma unq_esc: "byte_in 0 127 c \<Longrightarrow> unq (esc_ascii c @ t) = push [c] (unq t)"
proof -
  assume a: "byte_in 0 127 c"
  have b: "byte_in 0 31 c \<or> c = CHR ''<'' \<or> c = CHR ''>'' \<or> c = CHR ''&'' \<Longrightarrow> byte_in 0 62 c"
    by (auto simp: byte_in_def)
  show ?thesis
  proof (cases "c = CHR 0x22 \<or> c = CHR 0x5C \<or> c = CHR 0x08 \<or> c = CHR 0x0C \<or> c = CHR 0x0A \<or> c = CHR 0x0D \<or> c = CHR 0x09")
    case True
    then show ?thesis by (elim disjE) (simp_all add: esc_ascii_def unq.simps unesc_def)
  next
    case False
    note F = this
    show ?thesis
    proof (cases "byte_in 0 31 c \<or> c = CHR ''<'' \<or> c = CHR ''>'' \<or> c = CHR ''&''")
      case True
      with F have "esc_ascii c = [CHR 0x5C, CHR ''u'', CHR ''0'', CHR ''0'',
         char_of (48 + of_char c div 16 :: nat),
         char_of (let k = of_char c mod 16 in (if k < 10 then 48 + k else 87 + k) :: nat)]"
        unfolding esc_ascii_def by (simp only: de_Morgan_disj if_False if_True simp_thms)
      then show ?thesis using unq_hex[OF b[OF True]] by simp
    next
      case False
      with F have "esc_ascii c = [c]"
        unfolding esc_ascii_def by (simp only: de_Morgan_disj if_False simp_thms)
      then show ?thesis using unq_plain[OF a] F False by simp
    qed
  qed
qed

lemma unq_wide:
  assumes "utf8_width s = w" "w \<noteq> 0" "w \<noteq> 1"
  shows "unq (take w s @ t) = push (take w s) (unq t)"
proof -
  from assms obtain c u where s: "take w s = c # u" by (cases s; cases w) (auto simp: utf8_width_def)
  have w: "utf8_width (c # u @ t) = w" using utf8_width_take[OF assms(1,2), of t] s by simp
  then have nb: "\<not> byte_in 0 127 c" using width_one[of c "u @ t"] assms(3) by auto
  then have "c \<noteq> CHR 0x22" "c \<noteq> CHR 0x5C" "\<not> byte_in 0 31 c"
    using byte_in_quote by (auto simp: byte_in_def)
  moreover have "length (take w s) = w" using utf8_width_le[of s] assms(1) by simp
  then have "take w (c # u @ t) = c # u" "drop w (c # u @ t) = t" using s by (metis append_eq_conv_conj append_Cons)+
  ultimately show ?thesis using w assms(2) s by (simp add: unq.simps)
qed

lemma unq_sep: "unq (CHR 0x5C # ''u2028'' @ t) = push [CHR 0xE2, CHR 0x80, CHR 0xA8] (unq t)"
  "unq (CHR 0x5C # ''u2029'' @ t) = push [CHR 0xE2, CHR 0x80, CHR 0xA9] (unq t)"
  "unq (CHR 0x5C # ''ufffd'' @ t) = push u_fffd (unq t)"
  by (simp_all add: unq.simps unq_u_def hex4_def hex_val_def byte_in_def utf8_enc_def u_fffd_def char_of_def bit_0)

theorem unq_json_escape: "unq (json_escape s @ CHR 0x22 # rest) = Some (utf8_fix s, rest)"
proof (induction s rule: json_escape.induct)
  case (2 c s)
  define w where "w = utf8_width (c # s)"
  show ?case
  proof (cases "w = 0")
    case True
    then have "json_escape (c # s) = CHR 0x5C # ''ufffd'' @ json_escape s"
      "utf8_fix (c # s) = u_fffd @ utf8_fix s"
      by (simp_all add: json_escape.simps utf8_fix.simps w_def)
    then show ?thesis using 2(1)[OF w_def True] unq_sep(3) by simp
  next
    case False
    note w0 = this
    show ?thesis
    proof (cases "w = 1")
      case True
      then have "byte_in 0 127 c" using width_one by (simp add: w_def)
      moreover have "json_escape (c # s) = esc_ascii c @ json_escape s" "utf8_fix (c # s) = c # utf8_fix s"
        using True by (simp_all add: json_escape.simps utf8_fix.simps flip: w_def)
      ultimately show ?thesis using 2(2)[OF w_def w0 True] unq_esc by simp
    next
      case False
      have IH: "unq (json_escape (drop w (c # s)) @ CHR 0x22 # rest) = Some (utf8_fix (drop w (c # s)), rest)"
        using 2(3)[OF w_def w0 False refl] by simp
      have f: "utf8_fix (c # s) = take w (c # s) @ utf8_fix (drop w (c # s))"
        using w0 by (simp add: utf8_fix.simps flip: w_def)
      show ?thesis
        using w0 False IH unq_wide[OF w_def[symmetric] w0 False] unq_sep(1,2)
        by (simp add: f json_escape.simps Let_def flip: w_def)
    qed
  qed
qed (simp add: unq.simps)

section \<open>Values\<close>

definition num_char :: "char \<Rightarrow> bool" where
  "num_char c \<longleftrightarrow> is_digit c \<or> c \<in> set ''+-.eE''"

definition exp_ok :: "string \<Rightarrow> bool" where
  "exp_ok s =
     (case s of [] \<Rightarrow> True
      | e # t \<Rightarrow> (e = CHR ''e'' \<or> e = CHR ''E'') \<and>
          (let d = (case t of x # u \<Rightarrow> if x = CHR ''+'' \<or> x = CHR ''-'' then u else t | [] \<Rightarrow> t)
           in d \<noteq> [] \<and> list_all is_digit d))"

definition frac_ok :: "string \<Rightarrow> bool" where
  "frac_ok s =
     (case s of [] \<Rightarrow> True
      | c # t \<Rightarrow>
          if c = CHR ''.'' then takeWhile is_digit t \<noteq> [] \<and> exp_ok (dropWhile is_digit t) else exp_ok s)"

definition num_ok :: "string \<Rightarrow> bool" where
  "num_ok s =
     (let t = (case s of c # u \<Rightarrow> if c = CHR ''-'' then u else s | [] \<Rightarrow> s);
          ip = takeWhile is_digit t
      in ip \<noteq> [] \<and> (ip = ''0'' \<or> hd ip \<noteq> CHR ''0'') \<and> frac_ok (dropWhile is_digit t))"

fun marshal :: "json \<Rightarrow> string" where
  "marshal JNull = ''null''"
| "marshal (JBool b) = (if b then ''true'' else ''false'')"
| "marshal (JNum n) = n"
| "marshal (JStr s) = quote s"
| "marshal (JArr vs) = ''['' @ join '','' (map marshal vs) @ '']''"
| "marshal (JObj ms) = ''{'' @ join '','' (map (\<lambda>(k, v). quote k @ '':'' @ marshal v) ms) @ ''}''"

definition json_ws :: "char \<Rightarrow> bool" where
  "json_ws c \<longleftrightarrow> c = SP \<or> c = TAB \<or> c = NL \<or> c = CR"

abbreviation skip :: "string \<Rightarrow> string" where "skip \<equiv> dropWhile json_ws"

fun parse_value :: "nat \<Rightarrow> string \<Rightarrow> (json \<times> string) option"
  and parse_elems :: "nat \<Rightarrow> string \<Rightarrow> (json list \<times> string) option"
  and parse_members :: "nat \<Rightarrow> string \<Rightarrow> ((string \<times> json) list \<times> string) option" where
  "parse_value 0 s = None"
| "parse_value (Suc n) s =
     (case skip s of [] \<Rightarrow> None
      | c # t \<Rightarrow>
          if c = CHR ''['' then
            (if has_prefix '']'' (skip t) then Some (JArr [], drop 1 (skip t))
             else map_option (\<lambda>(vs, r). (JArr vs, r)) (parse_elems n t))
          else if c = CHR ''{'' then
            (if has_prefix ''}'' (skip t) then Some (JObj [], drop 1 (skip t))
             else map_option (\<lambda>(ms, r). (JObj ms, r)) (parse_members n t))
          else if c = CHR 0x22 then map_option (\<lambda>(a, r). (JStr a, r)) (unq t)
          else if has_prefix ''null'' (c # t) then Some (JNull, drop 4 (c # t))
          else if has_prefix ''true'' (c # t) then Some (JBool True, drop 4 (c # t))
          else if has_prefix ''false'' (c # t) then Some (JBool False, drop 5 (c # t))
          else if num_ok (takeWhile num_char (c # t))
            then Some (JNum (takeWhile num_char (c # t)), dropWhile num_char (c # t))
          else None)"
| "parse_elems 0 s = None"
| "parse_elems (Suc n) s =
     (case parse_value n s of None \<Rightarrow> None
      | Some (v, r) \<Rightarrow>
          (case skip r of [] \<Rightarrow> None
           | c # r' \<Rightarrow>
               if c = CHR '','' then map_option (\<lambda>(vs, q). (v # vs, q)) (parse_elems n r')
               else if c = CHR '']'' then Some ([v], r') else None))"
| "parse_members 0 s = None"
| "parse_members (Suc n) s =
     (case skip s of [] \<Rightarrow> None
      | q # s' \<Rightarrow>
          if q \<noteq> CHR 0x22 then None
          else (case unq s' of None \<Rightarrow> None
            | Some (k, r) \<Rightarrow>
                (case skip r of [] \<Rightarrow> None
                 | d # r' \<Rightarrow>
                     if d \<noteq> CHR '':'' then None
                     else (case parse_value n r' of None \<Rightarrow> None
                       | Some (v, r2) \<Rightarrow>
                           (case skip r2 of [] \<Rightarrow> None
                            | c # r3 \<Rightarrow>
                                if c = CHR '','' then
                                  map_option (\<lambda>(ms, z). ((k, v) # ms, z)) (parse_members n r3)
                                else if c = CHR ''}'' then Some ([(k, v)], r3) else None)))))"

declare parse_value.simps(2) [simp del] parse_elems.simps(2) [simp del] parse_members.simps(2) [simp del]

text \<open>\<^verbatim>\<open>json.Unmarshal\<close>: one value and nothing but white space after it.\<close>
definition unmarshal :: "string \<Rightarrow> json option" where
  "unmarshal s =
     (case parse_value (Suc (length s)) s of None \<Rightarrow> None
      | Some (v, r) \<Rightarrow> if skip r = [] then Some v else None)"

text \<open>What a written value reads back as: its strings with invalid UTF-8 replaced.\<close>
fun json_norm :: "json \<Rightarrow> json" where
  "json_norm JNull = JNull"
| "json_norm (JBool b) = JBool b"
| "json_norm (JNum n) = JNum n"
| "json_norm (JStr s) = JStr (utf8_fix s)"
| "json_norm (JArr vs) = JArr (map json_norm vs)"
| "json_norm (JObj ms) = JObj (map (\<lambda>(k, v). (utf8_fix k, json_norm v)) ms)"

text \<open>Every number is a JSON literal.\<close>
fun json_wf :: "json \<Rightarrow> bool" where
  "json_wf (JNum n) = (num_ok n \<and> list_all num_char n)"
| "json_wf (JArr vs) = list_all json_wf vs"
| "json_wf (JObj ms) = list_all (\<lambda>(k, v). json_wf v) ms"
| "json_wf _ = True"

definition closes :: "string \<Rightarrow> bool" where
  "closes r \<longleftrightarrow> (case r of [] \<Rightarrow> True | c # _ \<Rightarrow> c = CHR '','' \<or> c = CHR '']'' \<or> c = CHR ''}'')"

lemma num_head:
  assumes "num_ok n" "list_all num_char n"
  shows "\<exists>c t. n = c # t \<and> (c = CHR ''-'' \<or> is_digit c)"
proof (cases n)
  case Nil
  with assms show ?thesis by (simp add: num_ok_def)
next
  case (Cons c t)
  with assms show ?thesis by (auto simp: num_ok_def Let_def split: if_splits)
qed

lemma num_head_not:
  assumes "c = CHR ''-'' \<or> is_digit c"
  shows "c \<noteq> CHR ''['' \<and> c \<noteq> CHR ''{'' \<and> c \<noteq> CHR 0x22 \<and> c \<noteq> CHR ''n'' \<and> c \<noteq> CHR ''t'' \<and> c \<noteq> CHR ''f'' \<and> \<not> json_ws c"
proof -
  have "(45 :: nat) \<le> of_char c \<and> of_char c \<le> (57 :: nat)" using assms by (auto simp: is_digit_def)
  then show ?thesis by (auto simp: json_ws_def)
qed

lemma closes_num: "closes r \<Longrightarrow> takeWhile num_char r = [] \<and> dropWhile num_char r = r"
  by (cases r) (auto simp: closes_def num_char_def is_digit_def)

lemma parse_num:
  assumes "num_ok n" "list_all num_char n" "closes r"
  shows "parse_value (Suc m) (n @ r) = Some (JNum n, r)"
proof -
  obtain c t where n: "n = c # t" and c: "c = CHR ''-'' \<or> is_digit c" using num_head[OF assms(1,2)] by blast
  note nc = num_head_not[OF c]
  have nc2: "CHR ''n'' \<noteq> c" "CHR ''t'' \<noteq> c" "CHR ''f'' \<noteq> c" using nc by auto
  have s: "n @ r = c # (t @ r)" using n by simp
  have tk: "takeWhile num_char (c # (t @ r)) = n" "dropWhile num_char (c # (t @ r)) = r"
    unfolding s[symmetric]
    using assms(2,3) closes_num[OF assms(3)] by (simp_all add: list_all_iff takeWhile_append2 dropWhile_append2)
  have sk: "skip (c # (t @ r)) = c # (t @ r)" using nc by simp
  show ?thesis
    unfolding s parse_value.simps sk list.case tk has_prefix.simps
    by (simp only: nc nc2 assms(1) if_False if_True simp_thms)
qed

section \<open>The round trip\<close>

lemma marshal_head:
  assumes "json_wf v"
  shows "\<exists>c t. marshal v = c # t \<and> \<not> json_ws c \<and> c \<noteq> CHR '']'' \<and> c \<noteq> CHR ''}''"
proof (cases v)
  case (JNum n)
  with assms have "num_ok n" "list_all num_char n" by simp_all
  from num_head[OF this] obtain c t where n: "n = c # t" and c: "c = CHR ''-'' \<or> is_digit c" by blast
  from c have "(of_char c :: nat) \<le> 57" by (auto simp: is_digit_def)
  then have "c \<noteq> CHR '']''" "c \<noteq> CHR ''}''" by auto
  with JNum n num_head_not[OF c] show ?thesis by simp
qed (auto simp: json_ws_def quote_def)

lemma skip_marshal: "json_wf v \<Longrightarrow> skip (marshal v @ r) = marshal v @ r"
  using marshal_head[of v] by auto

lemma marshal_no_close: "json_wf v \<Longrightarrow>
    has_prefix '']'' (marshal v @ r) = False \<and> has_prefix ''}'' (marshal v @ r) = False"
  using marshal_head[of v] by auto

definition parses :: "json \<Rightarrow> bool" where
  "parses v \<longleftrightarrow> (\<forall>n r. length (marshal v) \<le> n \<longrightarrow> closes r \<longrightarrow>
     parse_value n (marshal v @ r) = Some (json_norm v, r))"

lemma parsesD: "parses v \<Longrightarrow> length (marshal v) \<le> n \<Longrightarrow> closes r \<Longrightarrow>
    parse_value n (marshal v @ r) = Some (json_norm v, r)"
  by (simp add: parses_def)

lemma closes_simps [simp]: "closes (CHR '','' # r)" "closes (CHR '']'' # r)" "closes (CHR ''}'' # r)" "closes []"
  by (simp_all add: closes_def)

lemma json_ws_punct [simp]: "\<not> json_ws CHR '',''" "\<not> json_ws CHR '']''" "\<not> json_ws CHR ''}''"
  "\<not> json_ws CHR '':''" "\<not> json_ws CHR 0x22" "\<not> json_ws CHR ''[''" "\<not> json_ws CHR ''{''"
  by (simp_all add: json_ws_def)

lemma skip_punct: "skip (CHR '','' # r) = CHR '','' # r" "skip (CHR '']'' # r) = CHR '']'' # r"
  "skip (CHR ''}'' # r) = CHR ''}'' # r" "skip (CHR '':'' # r) = CHR '':'' # r"
  "skip (CHR 0x22 # r) = CHR 0x22 # r" "skip (CHR ''['' # r) = CHR ''['' # r" "skip (CHR ''{'' # r) = CHR ''{'' # r"
  by (simp_all add: json_ws_def)

lemma parse_elems_marshal:
  assumes "\<forall>v \<in> set vs. parses v" "vs \<noteq> []" "length (join '','' (map marshal vs)) + 1 \<le> n"
  shows "parse_elems n (join '','' (map marshal vs) @ CHR '']'' # r) = Some (map json_norm vs, r)"
  using assms
proof (induction vs arbitrary: n)
  case (Cons v vs)
  then obtain m where n: "n = Suc m" by (cases n) auto
  show ?case
  proof (cases "vs = []")
    case True
    have pv: "parse_value m (marshal v @ CHR '']'' # r) = Some (json_norm v, CHR '']'' # r)"
      using Cons.prems True n by (intro parsesD) auto
    show ?thesis unfolding n True list.map join.simps parse_elems.simps pv option.case prod.case skip_punct list.case
      by simp
  next
    case False
    have j: "join '','' (map marshal (v # vs)) = marshal v @ CHR '','' # join '','' (map marshal vs)"
      using False join_Cons[of "map marshal vs" "'',''" "marshal v"] by simp
    have pv: "parse_value m (marshal v @ CHR '','' # (join '','' (map marshal vs) @ CHR '']'' # r)) =
        Some (json_norm v, CHR '','' # (join '','' (map marshal vs) @ CHR '']'' # r))"
      using Cons.prems n j by (intro parsesD) auto
    have pe: "parse_elems m (join '','' (map marshal vs) @ CHR '']'' # r) = Some (map json_norm vs, r)"
      using Cons.prems n j False by (intro Cons.IH) auto
    show ?thesis
      unfolding j n append.simps append_assoc parse_elems.simps pv option.case prod.case skip_punct list.case pe
      by simp
  qed
qed simp

abbreviation member :: "string \<times> json \<Rightarrow> string" where
  "member \<equiv> \<lambda>(k, v). quote k @ '':'' @ marshal v"

abbreviation norm_member :: "string \<times> json \<Rightarrow> string \<times> json" where
  "norm_member \<equiv> \<lambda>(k, v). (utf8_fix k, json_norm v)"

lemma parse_member:
  assumes "parses v" "length (member (k, v)) \<le> m" "c = CHR '','' \<or> c = CHR ''}''"
  shows "parse_members (Suc m) (member (k, v) @ c # r) =
    (if c = CHR '','' then map_option (\<lambda>(ms, z). ((utf8_fix k, json_norm v) # ms, z)) (parse_members m r)
     else Some ([(utf8_fix k, json_norm v)], r))"
proof -
  have pv: "parse_value m (marshal v @ c # r) = Some (json_norm v, c # r)"
    using assms by (intro parsesD) auto
  have uq: "unq (json_escape k @ CHR 0x22 # CHR '':'' # (marshal v @ c # r)) =
      Some (utf8_fix k, CHR '':'' # (marshal v @ c # r))" by (rule unq_json_escape)
  have mm: "member (k, v) @ c # r = CHR 0x22 # json_escape k @ CHR 0x22 # CHR '':'' # (marshal v @ c # r)"
    by (simp add: quote_def)
  have sc: "skip (c # r) = c # r" using assms(3) by auto
  have step: "parse_members (Suc m) (member (k, v) @ c # r) =
      (if c = CHR '','' then map_option (\<lambda>(ms, z). ((utf8_fix k, json_norm v) # ms, z)) (parse_members m r)
       else if c = CHR ''}'' then Some ([(utf8_fix k, json_norm v)], r) else None)"
    unfolding mm unfolding parse_members.simps skip_punct list.case uq option.case prod.case pv sc
    by simp
  show ?thesis unfolding step using assms(3) by auto
qed

lemma parse_members_marshal:
  assumes "\<forall>(k, v) \<in> set ms. parses v" "ms \<noteq> []" "length (join '','' (map member ms)) + 1 \<le> n"
  shows "parse_members n (join '','' (map member ms) @ CHR ''}'' # r) = Some (map norm_member ms, r)"
  using assms
proof (induction ms arbitrary: n)
  case (Cons kv ms)
  obtain k v where kv: "kv = (k, v)" by (cases kv)
  from Cons obtain m where n: "n = Suc m" by (cases n) auto
  have pv: "parses v" using Cons.prems(1) kv by simp
  show ?case
  proof (cases "ms = []")
    case True
    have "length (member (k, v)) \<le> m" using Cons.prems(3) True n kv by simp
    from parse_member[OF pv this, of "CHR ''}''" r] True n kv show ?thesis by simp
  next
    case False
    have j: "join '','' (map member (kv # ms)) = member (k, v) @ CHR '','' # join '','' (map member ms)"
      using False join_Cons[of "map member ms" "'',''" "member (k, v)"] kv by simp
    have l: "length (member (k, v)) \<le> m" using Cons.prems(3) n unfolding j by simp
    have pm: "parse_members m (join '','' (map member ms) @ CHR ''}'' # r) = Some (map norm_member ms, r)"
      using Cons.prems n False unfolding j by (intro Cons.IH) auto
    have e: "join '','' (map member (kv # ms)) @ CHR ''}'' # r =
        member (k, v) @ CHR '','' # (join '','' (map member ms) @ CHR ''}'' # r)"
      unfolding j by simp
    show ?thesis
      unfolding n e unfolding parse_member[OF pv l disjI1[OF refl]] pm by (simp add: kv)
  qed
qed simp

lemma parse_open:
  "parse_value (Suc m) (CHR ''['' # t) =
     (if has_prefix '']'' (skip t) then Some (JArr [], drop 1 (skip t))
      else map_option (\<lambda>(vs, r). (JArr vs, r)) (parse_elems m t))"
  "parse_value (Suc m) (CHR ''{'' # t) =
     (if has_prefix ''}'' (skip t) then Some (JObj [], drop 1 (skip t))
      else map_option (\<lambda>(ms, r). (JObj ms, r)) (parse_members m t))"
  "parse_value (Suc m) (CHR 0x22 # t) = map_option (\<lambda>(a, r). (JStr a, r)) (unq t)"
  by (simp_all only: parse_value.simps skip_punct list.case, simp_all)

lemma parsesI:
  "marshal v \<noteq> [] \<Longrightarrow>
    (\<And>m r. closes r \<Longrightarrow> parse_value (Suc m) (marshal v @ r) = Some (json_norm v, r)) \<Longrightarrow> parses v"
  unfolding parses_def
proof (intro allI impI)
  fix n r
  assume ne: "marshal v \<noteq> []" and p: "\<And>m r. closes r \<Longrightarrow> parse_value (Suc m) (marshal v @ r) = Some (json_norm v, r)"
    and l: "length (marshal v) \<le> n" and c: "closes r"
  from ne l obtain m where "n = Suc m" by (cases n) auto
  with p[OF c] show "parse_value n (marshal v @ r) = Some (json_norm v, r)" by simp
qed

lemma parse_words:
  "parse_value (Suc m) (''null'' @ r) = Some (JNull, r)"
  "parse_value (Suc m) (''true'' @ r) = Some (JBool True, r)"
  "parse_value (Suc m) (''false'' @ r) = Some (JBool False, r)"
  by (simp_all add: parse_value.simps json_ws_def)

lemma parses_all: "json_wf v \<Longrightarrow> parses v"
proof (induction v)
  case JNull
  show ?case by (rule parsesI) (simp_all only: marshal.simps json_norm.simps parse_words, simp)
next
  case (JBool b)
  show ?case by (cases b; rule parsesI) (simp_all only: marshal.simps json_norm.simps parse_words if_True if_False, simp_all)
next
  case (JNum n)
  then have "num_ok n" "list_all num_char n" "n \<noteq> []" by (auto simp: num_ok_def)
  then show ?case by (intro parsesI) (simp_all only: marshal.simps json_norm.simps parse_num, simp)
next
  case (JStr s)
  show ?case by (rule parsesI) (simp_all add: quote_def parse_open unq_json_escape)
next
  case (JArr vs)
  show ?case unfolding parses_def
  proof (intro allI impI)
    fix n r assume l: "length (marshal (JArr vs)) \<le> n" and "closes r"
    then obtain m where n: "n = Suc m" by (cases n) auto
    show "parse_value n (marshal (JArr vs) @ r) = Some (json_norm (JArr vs), r)"
    proof (cases vs)
      case Nil
      then show ?thesis by (simp add: n parse_open)
    next
      case (Cons v ws)
      have hp: "has_prefix '']'' (skip (join '','' (map marshal vs) @ CHR '']'' # r)) = False"
        using JArr.prems skip_marshal[of v] marshal_no_close[of v] by (cases ws) (simp_all add: Cons)
      have "parse_elems m (join '','' (map marshal vs) @ CHR '']'' # r) = Some (map json_norm vs, r)"
        using JArr l n Cons by (intro parse_elems_marshal) (auto simp: list_all_iff)
      with hp show ?thesis by (simp add: n parse_open)
    qed
  qed
next
  case (JObj ms)
  show ?case unfolding parses_def
  proof (intro allI impI)
    fix n r assume l: "length (marshal (JObj ms)) \<le> n" and "closes r"
    then obtain m where n: "n = Suc m" by (cases n) auto
    show "parse_value n (marshal (JObj ms) @ r) = Some (json_norm (JObj ms), r)"
    proof (cases ms)
      case Nil
      then show ?thesis by (simp add: n parse_open)
    next
      case (Cons kv ws)
      have hp: "has_prefix ''}'' (skip (join '','' (map member ms) @ CHR ''}'' # r)) = False"
        by (cases kv; cases ws) (simp_all add: Cons quote_def)
      have "\<forall>(k, v) \<in> set ms. parses v" using JObj by (fastforce simp: list_all_iff)
      then have "parse_members m (join '','' (map member ms) @ CHR ''}'' # r) = Some (map norm_member ms, r)"
        using l n Cons by (intro parse_members_marshal) auto
      with hp show ?thesis by (simp add: n parse_open)
    qed
  qed
qed

theorem unmarshal_marshal: "json_wf v \<Longrightarrow> unmarshal (marshal v) = Some (json_norm v)"
  using parsesD[OF parses_all, of v "Suc (length (marshal v))" "[]"] by (simp add: unmarshal_def)

section \<open>An encoded value is one line\<close>

definition printable :: "char \<Rightarrow> bool" where "printable c \<longleftrightarrow> \<not> byte_in 0 31 c"

lemma printable_code: "(32 :: nat) \<le> of_char c \<Longrightarrow> printable c"
  by (simp add: printable_def byte_in_def)

lemma byte_in_lo: "byte_in lo hi c \<Longrightarrow> 32 \<le> lo \<Longrightarrow> printable c"
  by (rule printable_code) (simp add: byte_in_def)

lemma cont_printable: "cont c \<Longrightarrow> printable c"
  unfolding cont_def by (rule byte_in_lo) auto

lemma wide_printable:
  assumes "utf8_width s = w" "w \<noteq> 0" "w \<noteq> 1"
  shows "list_all printable (take w s)"
proof -
  from assms obtain c s1 where s: "s = c # s1" and n1: "\<not> byte_in 0 127 c"
    using width_one by (cases s) (auto simp: utf8_width_def)
  have pc: "printable c" using n1 by (auto simp: printable_def byte_in_def)
  from assms s n1 obtain d s2 where s1: "s1 = d # s2" by (cases s1) (auto simp: utf8_width_def)
  note bl = byte_in_lo[of 160] byte_in_lo[of 128] byte_in_lo[of 144] cont_printable
  show ?thesis
  proof (cases "byte_in 194 223 c \<and> cont d")
    case True
    then have "w = 2" using assms(1) s s1 n1 by (simp add: utf8_width_def)
    then show ?thesis using s s1 pc True bl by simp
  next
    case False
    with assms s n1 s1 obtain e s3 where s2: "s2 = e # s3" by (cases s2) (auto simp: utf8_width_def)
    show ?thesis
    proof (cases "utf8_width s = 3")
      case True
      then have "cont e" "printable d" "w = 3"
        using assms s s1 s2 n1 False bl by (auto simp: utf8_width_def split: if_splits list.splits)
      then show ?thesis using s s1 s2 pc bl by simp
    next
      case F3: False
      with assms s n1 s1 s2 False obtain f s4 where s3: "s3 = f # s4"
        by (cases s3) (auto simp: utf8_width_def split: if_splits)
      have "cont e" "cont f" "printable d" "w = 4"
        using F3 assms s s1 s2 s3 n1 False bl by (auto simp: utf8_width_def split: if_splits)
      then show ?thesis using s s1 s2 s3 pc bl by simp
    qed
  qed
qed

lemma esc_printable: "byte_in 0 127 c \<Longrightarrow> list_all printable (esc_ascii c)"
proof -
  assume a: "byte_in 0 127 c"
  have "printable (char_of (48 + of_char c div 16 :: nat))"
    using a by (simp add: printable_def byte_in_def)
  moreover have "printable (char_of (let k = of_char c mod 16 in (if k < 10 then 48 + k else 87 + k) :: nat))"
    using pos_mod_bound_16[of "of_char c"] by (simp add: printable_def byte_in_def Let_def)
  ultimately show ?thesis
    by (simp add: esc_ascii_def) (simp add: printable_def byte_in_def)
qed

lemma escape_printable: "list_all printable (json_escape s)"
proof (induction s rule: json_escape.induct)
  case (2 c s)
  have k: "list_all printable (CHR 0x5C # ''ufffd'')" "list_all printable (CHR 0x5C # ''u2028'')"
    "list_all printable (CHR 0x5C # ''u2029'')" by (simp_all add: printable_def byte_in_def)
  define w where "w = utf8_width (c # s)"
  show ?case
  proof (cases "w = 0 \<or> w = 1")
    case True
    then show ?thesis
      using 2(1,2)[of w] k(1) esc_printable[of c] width_one[of c s]
      by (auto simp: json_escape.simps Let_def simp flip: w_def)
  next
    case False
    then have "list_all printable (json_escape (drop w (c # s)))" "list_all printable (take w (c # s))"
      using 2(3)[OF w_def] wide_printable[OF w_def[symmetric]] by auto
    with False k show ?thesis
      by (simp add: json_escape.simps Let_def flip: w_def)
  qed
qed simp

lemma join_all: "list_all f sep \<Longrightarrow> list_all (list_all f) ws \<Longrightarrow> list_all f (join sep ws)"
  by (induction sep ws rule: join.induct) auto

lemma num_printable: "num_char c \<Longrightarrow> printable c"
  by (auto simp: num_char_def is_digit_def printable_def byte_in_def)

lemma printable_punct: "printable CHR ''[''" "printable CHR '']''" "printable CHR ''{''" "printable CHR ''}''"
  "printable CHR '',''" "printable CHR '':''" "printable CHR 0x22"
  by (simp_all add: printable_def byte_in_def)

lemma marshal_printable: "json_wf v \<Longrightarrow> list_all printable (marshal v)"
proof (induction v)
  case (JNum n)
  then show ?case using num_printable by (auto simp: list_all_iff)
next
  case (JArr vs)
  then have "list_all printable (join '','' (map marshal vs))"
    by (intro join_all) (auto simp: list_all_iff printable_punct)
  then show ?case by (simp add: printable_punct)
next
  case (JObj ms)
  then have "list_all printable (join '','' (map member ms))"
    by (intro join_all) (fastforce simp: list_all_iff printable_punct quote_def
        dest: bspec[OF escape_printable[unfolded list_all_iff]])+
  then show ?case by (simp add: printable_punct)
qed (use escape_printable in \<open>auto simp: quote_def printable_def byte_in_def list_all_iff\<close>)

lemma marshal_no_nl: "json_wf v \<Longrightarrow> NL \<notin> set (marshal v)"
  using marshal_printable[of v] by (auto simp: list_all_iff printable_def byte_in_def)

section \<open>Building and reading objects\<close>

text \<open>\<^verbatim>\<open>json.Marshal\<close> of a Go map writes the members in the order of their keys.\<close>
definition json_map :: "(string \<times> json) list \<Rightarrow> json" where
  "json_map ms = JObj (sort_key fst ms)"

definition json_get :: "string \<Rightarrow> json \<Rightarrow> json option" where
  "json_get k v = (case v of JObj ms \<Rightarrow> map_of (rev ms) k | _ \<Rightarrow> None)"

definition json_str :: "string \<Rightarrow> json \<Rightarrow> string option" where
  "json_str k v = (case json_get k v of Some (JStr s) \<Rightarrow> Some s | _ \<Rightarrow> None)"

definition json_int :: "int \<Rightarrow> json" where "json_int i = JNum (show_int i)"

text \<open>Text of plain ASCII reads back as it was.\<close>
definition is_ascii :: "string \<Rightarrow> bool" where "is_ascii s \<longleftrightarrow> list_all (byte_in 0 127) s"

lemma utf8_fix_ascii: "is_ascii s \<Longrightarrow> utf8_fix s = s"
proof (induction s)
  case (Cons c s)
  then have "utf8_width (c # s) = Suc 0" using width_one by (simp add: is_ascii_def)
  with Cons show ?case by (simp add: is_ascii_def utf8_fix.simps)
qed simp

lemma show_nat_head: "show_nat n = ''0'' \<or> hd (show_nat n) \<noteq> CHR ''0''"
proof (induction n rule: show_nat.induct)
  case (1 n)
  show ?case
  proof (cases "n < 10")
    case True
    then have s: "show_nat n = [char_of (48 + n)]" by (subst show_nat.simps) simp
    show ?thesis
    proof (cases "n = 0")
      case True
      with s show ?thesis by simp
    next
      case False
      have "(of_char (char_of (48 + n :: nat) :: char) :: nat) \<noteq> of_char CHR ''0''"
        using of_char_digit[OF True] False by simp
      with s show ?thesis by (metis list.sel(1))
    qed
  next
    case False
    then have s: "show_nat n = show_nat (n div 10) @ [char_of (48 + n mod 10)]" by (subst show_nat.simps) simp
    have "show_nat (n div 10) \<noteq> ''0''"
    proof
      assume "show_nat (n div 10) = ''0''"
      then have "int (n div 10) = digits_val ''0''" using digits_val_show_nat[of "n div 10"] by simp
      with False show False by (simp add: digits_val_def digit_val_def)
    qed
    with 1[OF False] s show ?thesis by (simp add: hd_append)
  qed
qed

lemma num_ok_show_int: "num_ok (show_int i) \<and> list_all num_char (show_int i)"
proof -
  have d: "takeWhile is_digit (show_nat n) = show_nat n" "dropWhile is_digit (show_nat n) = []" for n
    using show_nat_digits[of n] by (simp_all add: list_all_iff takeWhile_eq_all_conv)
  have h: "hd (show_nat n) \<noteq> CHR ''-''" for n
    using show_nat_digits[of n] by (cases "show_nat n") (auto simp: is_digit_def)
  have c: "list_all num_char (show_nat n)" for n
    using show_nat_digits[of n] by (auto simp: list_all_iff num_char_def)
  have "num_ok (show_nat n)" for n
    using d[of n] h[of n] show_nat_head[of n]
    by (cases "show_nat n") (auto simp: num_ok_def frac_ok_def Let_def)
  moreover have "num_ok (CHR ''-'' # show_nat n)" for n
    using show_nat_head[of n] by (simp add: num_ok_def frac_ok_def Let_def d)
  ultimately show ?thesis using c by (simp add: show_int_def num_char_def)
qed

lemma json_wf_int [simp]: "json_wf (json_int i)"
  using num_ok_show_int by (simp add: json_int_def)

lemma json_wf_map: "json_wf (json_map ms) = list_all (\<lambda>(k, v). json_wf v) ms"
  by (simp add: json_map_def list_all_iff)

text \<open>A member of a written map is found again under its key.\<close>
lemma json_map_get:
  assumes "distinct (map fst ms)" "\<forall>k \<in> fst ` set ms. is_ascii k" "(k, v) \<in> set ms"
  shows "json_get k (json_norm (json_map ms)) = Some (json_norm v)"
proof -
  let ?xs = "rev (map norm_member (sort_key fst ms))"
  have f: "fst (norm_member kv) = fst kv" if "kv \<in> set (sort_key fst ms)" for kv
  proof -
    obtain k v where kv: "kv = (k, v)" by (cases kv)
    with that have "(k, v) \<in> set ms" by simp
    then have "is_ascii k" using assms(2) by force
    then show ?thesis by (simp add: kv utf8_fix_ascii)
  qed
  have "map fst ?xs = rev (map fst (sort_key fst ms))"
    using f by (simp add: rev_map comp_def)
  moreover have "mset (map fst (sort_key fst ms)) = mset (map fst ms)" by simp
  then have "distinct (map fst (sort_key fst ms))" using assms(1) by (metis mset_eq_imp_distinct_iff)
  ultimately have "distinct (map fst ?xs)" by simp
  moreover have "(k, json_norm v) \<in> set ?xs"
    using assms(2,3) utf8_fix_ascii[of k] by (force simp: image_iff)
  ultimately have "map_of ?xs k = Some (json_norm v)" by (rule map_of_is_SomeI)
  then show ?thesis by (simp add: json_get_def json_map_def)
qed

section \<open>Quoted text\<close>

text \<open>\<^verbatim>\<open>%q\<close> (\<^verbatim>\<open>strconv.Quote\<close>): printable ASCII and well-formed multi-byte sequences
  are kept, other bytes are escaped.\<close>
function go_quote_body :: "string \<Rightarrow> string" where
  "go_quote_body [] = []"
| "go_quote_body (c # s) =
     (let w = utf8_width (c # s);
          hx = [CHR 0x5C, CHR ''x'', char_of (let k = of_char c div 16 in (if k < 10 then 48 + k else 87 + k) :: nat),
                char_of (let k = of_char c mod 16 in (if k < 10 then 48 + k else 87 + k) :: nat)]
      in if w = 0 then hx @ go_quote_body s
         else if w = 1 then
           (if c = CHR 0x22 \<or> c = CHR 0x5C then [CHR 0x5C, c]
            else if c = CHR 0x07 then [CHR 0x5C, CHR ''a'']
            else if c = CHR 0x08 then [CHR 0x5C, CHR ''b'']
            else if c = CHR 0x0C then [CHR 0x5C, CHR ''f'']
            else if c = CHR 0x0A then [CHR 0x5C, CHR ''n'']
            else if c = CHR 0x0D then [CHR 0x5C, CHR ''r'']
            else if c = CHR 0x09 then [CHR 0x5C, CHR ''t'']
            else if c = CHR 0x0B then [CHR 0x5C, CHR ''v'']
            else if byte_in 0 31 c \<or> c = CHR 0x7F then hx else [c]) @ go_quote_body s
         else take w (c # s) @ go_quote_body (drop w (c # s)))"
  by pat_completeness auto
termination by (relation "measure length") auto

definition go_quote :: "string \<Rightarrow> string" where
  "go_quote s = CHR 0x22 # go_quote_body s @ [CHR 0x22]"

end
