(* ===== verification/GoStruct.thy ===== *)
theory GoStruct
  imports GoJson
begin

text \<open>
  JSON documents as Go structs: \<^verbatim>\<open>json.Unmarshal\<close> into a struct takes the members one by one,
  finds the field of that name without regard to case, leaves the field alone for null and fails on a
  value of another type; \<^verbatim>\<open>json.Marshal\<close> leaves out empty fields marked so, and
  \<^verbatim>\<open>json.MarshalIndent\<close> breaks lines.
\<close>

section \<open>Reading\<close>

type_synonym 'a setter = "string \<Rightarrow> json \<Rightarrow> 'a \<Rightarrow> 'a option"

fun set_members :: "'a setter \<Rightarrow> (string \<times> json) list \<Rightarrow> 'a \<Rightarrow> 'a option" where
  "set_members f [] x = Some x"
| "set_members f ((k, v) # ms) x = (case f k v x of None \<Rightarrow> None | Some y \<Rightarrow> set_members f ms y)"

text \<open>A struct value; null leaves it as it is.\<close>
definition struct_of :: "'a setter \<Rightarrow> 'a \<Rightarrow> json \<Rightarrow> 'a option" where
  "struct_of f zero v =
     (case v of JObj ms \<Rightarrow> set_members f ms zero | JNull \<Rightarrow> Some zero | _ \<Rightarrow> None)"

definition text_field :: "json \<Rightarrow> (string \<Rightarrow> 'a) \<Rightarrow> 'a \<Rightarrow> 'a option" where
  "text_field v upd x = (case v of JStr t \<Rightarrow> Some (upd t) | JNull \<Rightarrow> Some x | _ \<Rightarrow> None)"

definition flag_field :: "json \<Rightarrow> (bool \<Rightarrow> 'a) \<Rightarrow> 'a \<Rightarrow> 'a option" where
  "flag_field v upd x = (case v of JBool b \<Rightarrow> Some (upd b) | JNull \<Rightarrow> Some x | _ \<Rightarrow> None)"

definition num_field :: "json \<Rightarrow> (int \<Rightarrow> 'a) \<Rightarrow> 'a \<Rightarrow> 'a option" where
  "num_field v upd x =
     (case v of JNum n \<Rightarrow> (case go_atoi n of (i, ok) \<Rightarrow> if ok then Some (upd i) else None)
      | JNull \<Rightarrow> Some x | _ \<Rightarrow> None)"

fun all_some :: "'a option list \<Rightarrow> 'a list option" where
  "all_some [] = Some []"
| "all_some (x # xs) =
     (case x of None \<Rightarrow> None | Some y \<Rightarrow> (case all_some xs of None \<Rightarrow> None | Some ys \<Rightarrow> Some (y # ys)))"

definition list_field :: "(json \<Rightarrow> 'b option) \<Rightarrow> json \<Rightarrow> ('b list \<Rightarrow> 'a) \<Rightarrow> 'a option" where
  "list_field el v upd =
     (case v of JNull \<Rightarrow> Some (upd []) | JArr vs \<Rightarrow> map_option upd (all_some (map el vs)) | _ \<Rightarrow> None)"

definition text_value :: "json \<Rightarrow> string option" where
  "text_value v = (case v of JStr t \<Rightarrow> Some t | JNull \<Rightarrow> Some '''' | _ \<Rightarrow> None)"

lemma all_some_map: "(\<And>x. x \<in> set xs \<Longrightarrow> f x = Some (g x)) \<Longrightarrow> all_some (map f xs) = Some (map g xs)"
  by (induction xs) auto

section \<open>Writing\<close>

definition omit_empty :: "string \<Rightarrow> string \<Rightarrow> (string \<times> json) list" where
  "omit_empty k v = (if v = '''' then [] else [(k, JStr v)])"

definition omit_false :: "string \<Rightarrow> bool \<Rightarrow> (string \<times> json) list" where
  "omit_false k b = (if b then [(k, JBool True)] else [])"

definition omit_texts :: "string \<Rightarrow> string list \<Rightarrow> (string \<times> json) list" where
  "omit_texts k vs = (if vs = [] then [] else [(k, JArr (map JStr vs))])"

text \<open>A slice of Go: nil, as the collecting loops leave it when they append nothing, is null.\<close>
definition json_list :: "json list \<Rightarrow> json" where
  "json_list vs = (if vs = [] then JNull else JArr vs)"

text \<open>\<^verbatim>\<open>json.MarshalIndent\<close> with two blanks.\<close>
fun marshal_indent :: "nat \<Rightarrow> json \<Rightarrow> string" where
  "marshal_indent n (JArr vs) =
     (if vs = [] then ''[]''
      else ''['' @ join '','' (map (\<lambda>v. [NL] @ replicate (2 * n + 2) SP @ marshal_indent (Suc n) v) vs)
        @ [NL] @ replicate (2 * n) SP @ '']'')"
| "marshal_indent n (JObj ms) =
     (if ms = [] then ''{}''
      else ''{'' @ join '','' (map (\<lambda>(k, v). [NL] @ replicate (2 * n + 2) SP @ quote k @ '': '' @ marshal_indent (Suc n) v) ms)
        @ [NL] @ replicate (2 * n) SP @ ''}'')"
| "marshal_indent n v = marshal v"

section \<open>Overlays\<close>

text \<open>Later entries of a name replace earlier ones; the names stay in the order of their first entry.\<close>
definition overlay :: "('a \<Rightarrow> string) \<Rightarrow> 'a list \<Rightarrow> 'a list \<Rightarrow> 'a list" where
  "overlay name base over =
     (let all = base @ over in
      map (\<lambda>n. the (map_of (rev (map (\<lambda>x. (name x, x)) all)) n)) (dedup (map name all)))"

lemma overlay_mem: "x \<in> set (overlay name base over) \<Longrightarrow> x \<in> set (base @ over)"
proof -
  let ?all = "base @ over"
  assume "x \<in> set (overlay name base over)"
  then obtain n where n: "n \<in> set (dedup (map name ?all))" "x = the (map_of (rev (map (\<lambda>x. (name x, x)) ?all)) n)"
    by (auto simp: overlay_def Let_def)
  obtain y where "y \<in> set ?all" "name y = n" using n(1) by (auto simp: dedup_set)
  then have "(n, y) \<in> set (rev (map (\<lambda>x. (name x, x)) ?all))" by force
  from weak_map_of_SomeI[OF this] obtain z where "map_of (rev (map (\<lambda>x. (name x, x)) ?all)) n = Some z" by blast
  with n(2) show ?thesis by (auto dest!: map_of_SomeD)
qed

text \<open>A document that is a map: of two members with one name the later.\<close>
definition map_of_json :: "(json \<Rightarrow> 'b option) \<Rightarrow> json \<Rightarrow> (string \<times> 'b) list option" where
  "map_of_json el v =
     (case v of
        JObj ms \<Rightarrow> map_option (\<lambda>ys. overlay fst (zip (map fst ms) ys) []) (all_some (map (\<lambda>(_, x). el x) ms))
      | JNull \<Rightarrow> Some [] | _ \<Rightarrow> None)"

end
