(* ===== verification/GoFiles.thy ===== *)
theory GoFiles
  imports GoBase
begin

text \<open>
  The parts of Go's \<^verbatim>\<open>path/filepath\<close> (Unix rules) and \<^verbatim>\<open>os\<close> packages the program uses:
  lexical path functions, shell patterns, and a file system state with the read, write,
  append, remove and rename operations the handlers perform.  What only the operating system
  can answer (symbolic links, I/O errors, the working directory) is a field of the state.
\<close>

section \<open>Lexical paths\<close>

definition clean_step :: "bool \<Rightarrow> string list \<Rightarrow> string \<Rightarrow> string list" where
  "clean_step rooted st c =
     (if c = '''' \<or> c = ''.'' then st
      else if c = ''..'' then
        (case st of [] \<Rightarrow> if rooted then [] else [''..'']
         | tp # rest \<Rightarrow> if tp = ''..'' then ''..'' # st else rest)
      else c # st)"

definition is_abs :: "path \<Rightarrow> bool" where
  "is_abs p \<longleftrightarrow> (case p of [] \<Rightarrow> False | c # _ \<Rightarrow> c = CHR ''/'')"

definition clean_comps :: "path \<Rightarrow> string list" where
  "clean_comps p = rev (foldl (clean_step (is_abs p)) [] (split_on (CHR ''/'') p))"

definition clean_path :: "path \<Rightarrow> path" where
  "clean_path p =
     (if is_abs p then CHR ''/'' # join ''/'' (clean_comps p)
      else if clean_comps p = [] then ''.'' else join ''/'' (clean_comps p))"

definition join_path :: "path list \<Rightarrow> path" where
  "join_path ps =
     (let qs = filter (\<lambda>p. p \<noteq> '''') ps in if qs = [] then '''' else clean_path (join ''/'' qs))"

definition dir_path :: "path \<Rightarrow> path" where
  "dir_path p =
     clean_path (case last_index (CHR ''/'') p of None \<Rightarrow> '''' | Some i \<Rightarrow> take (Suc i) p)"

definition base_path :: "path \<Rightarrow> path" where
  "base_path p =
     (if p = '''' then ''.''
      else let q = trim_right_by (\<lambda>c. c = CHR ''/'') p;
               b = (case last_index (CHR ''/'') q of None \<Rightarrow> q | Some i \<Rightarrow> drop (Suc i) q)
           in if b = '''' then ''/'' else b)"

definition ext_path :: "path \<Rightarrow> string" where
  "ext_path p =
     (let b = (case last_index (CHR ''/'') p of None \<Rightarrow> p | Some i \<Rightarrow> drop (Suc i) p)
      in case last_index (CHR ''.'') b of None \<Rightarrow> '''' | Some i \<Rightarrow> drop i b)"

definition abs_path :: "path \<Rightarrow> path \<Rightarrow> path" where
  "abs_path cwd p = (if is_abs p then clean_path p else join_path [cwd, p])"

text \<open>A normal component: what \<open>clean_path\<close> keeps of a rooted path.\<close>
definition normal_comp :: "string \<Rightarrow> bool" where
  "normal_comp c \<longleftrightarrow> c \<noteq> '''' \<and> c \<noteq> ''.'' \<and> c \<noteq> ''..'' \<and> CHR ''/'' \<notin> set c"

lemma clean_fold_normal:
  "list_all normal_comp st \<Longrightarrow> list_all (\<lambda>c. CHR ''/'' \<notin> set c) cs \<Longrightarrow>
    list_all normal_comp (foldl (clean_step True) st cs)"
proof (induction cs arbitrary: st)
  case (Cons c cs)
  have "list_all normal_comp (clean_step True st c)"
    using Cons.prems by (cases st) (simp_all add: clean_step_def, simp_all add: normal_comp_def)
  with Cons show ?case by simp
qed simp

lemma split_slash_clean: "list_all (\<lambda>c. CHR ''/'' \<notin> set c) (split_on (CHR ''/'') p)"
  using split_by_clean[of _ "\<lambda>x. x = CHR ''/''" p "CHR ''/''"] by (auto simp: list_all_iff)

lemma clean_comps_normal: "is_abs p \<Longrightarrow> list_all normal_comp (clean_comps p)"
  using clean_fold_normal[of "[]" "split_on (CHR ''/'') p"] split_slash_clean[of p]
  by (simp add: clean_comps_def list_all_iff)

lemma clean_fold_id:
  "list_all normal_comp cs \<Longrightarrow> foldl (clean_step r) st cs = rev cs @ st"
  by (induction cs arbitrary: st) (auto simp: clean_step_def normal_comp_def)

lemma normal_no_slash: "list_all normal_comp cs \<Longrightarrow> \<forall>w \<in> set cs. CHR ''/'' \<notin> set w"
  by (auto simp: list_all_iff normal_comp_def)

text \<open>A rooted path built from normal components is its own cleaned form.\<close>
lemma clean_comps_rooted:
  assumes "list_all normal_comp cs"
  shows "clean_comps (CHR ''/'' # join ''/'' cs) = cs"
proof (cases "cs = []")
  case True
  then show ?thesis by (simp add: clean_comps_def clean_step_def)
next
  case False
  then have "split_on (CHR ''/'') (join ''/'' cs) = cs"
    using normal_no_slash[OF assms] by (intro split_on_join) auto
  with assms show ?thesis by (simp add: clean_comps_def clean_fold_id clean_step_def)
qed

lemma clean_path_idem: "is_abs p \<Longrightarrow> clean_path (clean_path p) = clean_path p"
  by (simp add: clean_path_def clean_comps_rooted clean_comps_normal is_abs_def split: list.splits)

lemma clean_path_rooted: "is_abs p \<Longrightarrow> is_abs (clean_path p)"
  by (simp add: clean_path_def is_abs_def split: list.splits)

lemma clean_comps_append:
  assumes "is_abs p"
  shows "clean_comps (p @ CHR ''/'' # q) = rev (foldl (clean_step True) (rev (clean_comps p)) (split_on (CHR ''/'') q))"
proof -
  have "is_abs (p @ CHR ''/'' # q)" using assms by (cases p) (auto simp: is_abs_def)
  then show ?thesis using assms by (simp add: clean_comps_def split_by_sep)
qed

section \<open>Shell patterns: filepath.Match\<close>

fun get_esc :: "string \<Rightarrow> (char \<times> string) option" where
  "get_esc [] = None"
| "get_esc (c # rest) =
     (if c = CHR ''-'' \<or> c = CHR '']'' then None
      else if c = CHR 0x5C then
        (case rest of r # x # more \<Rightarrow> Some (r, x # more) | _ \<Rightarrow> None)
      else (if rest = [] then None else Some (c, rest)))"

lemma get_esc_length: "get_esc s = Some (r, t) \<Longrightarrow> length t < length s"
  by (cases s) (auto split: if_splits list.splits)

declare get_esc.simps [simp del]

text \<open>The ranges of a bracket up to its closing byte: whether one holds the byte \<open>r\<close>, and the
  rest of the pattern; \<open>None\<close> is Go's \<^verbatim>\<open>ErrBadPattern\<close>.\<close>
function match_class :: "bool \<Rightarrow> bool \<Rightarrow> char \<Rightarrow> string \<Rightarrow> (bool \<times> string) option" where
  "match_class started acc r chunk =
     (case chunk of
        c # rest \<Rightarrow>
          if c = CHR '']'' \<and> started then Some (acc, rest)
          else (case get_esc chunk of None \<Rightarrow> None
            | Some (lo, more) \<Rightarrow>
                (case more of
                   d # more' \<Rightarrow>
                     if d = CHR ''-'' then
                       (case get_esc more' of None \<Rightarrow> None
                        | Some (hi, more'') \<Rightarrow>
                            match_class True (acc \<or> lo \<le> r \<and> r \<le> hi) r more'')
                     else match_class True (acc \<or> r = lo) r more
                 | [] \<Rightarrow> None))
      | [] \<Rightarrow> None)"
  by pat_completeness auto
termination
  by (relation "measure (\<lambda>(_, _, _, s). length s)") (auto dest!: get_esc_length)

declare match_class.simps [simp del]

function match_chunk :: "string \<Rightarrow> string \<Rightarrow> string option" where
  "match_chunk chunk s =
     (case chunk of [] \<Rightarrow> Some s
      | c # rest \<Rightarrow>
          (case s of [] \<Rightarrow> None
           | x # s' \<Rightarrow>
               if c = CHR ''['' then
                 (let (neg, body) = (case rest of d # more \<Rightarrow>
                        if d = CHR ''^'' then (True, more) else (False, rest) | [] \<Rightarrow> (False, rest))
                  in case match_class False False x body of None \<Rightarrow> None
                     | Some (b, rest') \<Rightarrow> if b = neg then None else match_chunk rest' s')
               else if c = CHR ''?'' then (if x = CHR ''/'' then None else match_chunk rest s')
               else if c = CHR 0x5C then
                 (case rest of [] \<Rightarrow> None
                  | e # rest' \<Rightarrow> if e = x then match_chunk rest' s' else None)
               else if c = x then match_chunk rest s' else None))"
  by pat_completeness auto
termination by (relation "measure (\<lambda>(_, s). length s)") auto

declare match_chunk.simps [simp del]

fun scan_chunk :: "bool \<Rightarrow> string \<Rightarrow> string \<times> string" where
  "scan_chunk inr [] = ([], [])"
| "scan_chunk inr (c # s) =
     (if c = CHR 0x5C then
        (case s of [] \<Rightarrow> ([c], []) | d # s' \<Rightarrow> (let (a, b) = scan_chunk inr s' in (c # d # a, b)))
      else if c = CHR ''*'' \<and> \<not> inr then ([], c # s)
      else (let (a, b) = scan_chunk (if c = CHR ''['' then True
                                      else if c = CHR '']'' then False else inr) s
            in (c # a, b)))"

text \<open>The shift a star makes: the first offset at which the chunk matches.\<close>
fun star_match :: "string \<Rightarrow> bool \<Rightarrow> string \<Rightarrow> string option" where
  "star_match chunk lastc [] = None"
| "star_match chunk lastc (x # name) =
     (if x = CHR ''/'' then None
      else case match_chunk chunk name of
        Some t \<Rightarrow> if lastc \<and> t \<noteq> [] then star_match chunk lastc name else Some t
      | None \<Rightarrow> star_match chunk lastc name)"

lemma scan_chunk_length: "length (snd (scan_chunk inr s)) \<le> length s"
proof (induction inr s rule: scan_chunk.induct)
  case (2 inr c s)
  show ?case
  proof (cases "c = CHR 0x5C")
    case True
    with 2(1) show ?thesis by (cases s) (simp_all add: split_beta le_SucI)
  next
    case False
    with 2(2) show ?thesis by (simp add: split_beta le_SucI)
  qed
qed simp

lemma scan_chunk_progress:
  "p \<noteq> [] \<Longrightarrow> hd p \<noteq> CHR ''*'' \<Longrightarrow> length (snd (scan_chunk False p)) < length p"
proof (cases p)
  case (Cons c s)
  assume "hd p \<noteq> CHR ''*''"
  with Cons show ?thesis
  proof (cases "c = CHR 0x5C")
    case True
    with Cons scan_chunk_length[of False "tl s"] show ?thesis
      by (cases s) (simp_all add: split_beta)
  next
    case False
    with Cons \<open>hd p \<noteq> CHR ''*''\<close> scan_chunk_length[of _ s] show ?thesis
      by (simp add: split_beta less_Suc_eq_le)
  qed
qed simp

lemma scan_rest_length:
  assumes "pat \<noteq> []"
  shows "length (snd (scan_chunk False (dropWhile (\<lambda>c. c = CHR ''*'') pat))) < length pat"
proof (cases "hd pat = CHR ''*''")
  case True
  with assms have "length (dropWhile (\<lambda>c. c = CHR ''*'') pat) < length pat"
    by (cases pat) (auto simp: le_imp_less_Suc length_dropWhile_le)
  with scan_chunk_length[of False "dropWhile (\<lambda>c. c = CHR ''*'') pat"] show ?thesis by linarith
next
  case False
  with assms have "dropWhile (\<lambda>c. c = CHR ''*'') pat = pat" by (cases pat) auto
  with scan_chunk_progress[OF assms False] show ?thesis by simp
qed

function match_pat :: "string \<Rightarrow> string \<Rightarrow> bool" where
  "match_pat pat name =
     (if pat = [] then name = []
      else let star = (hd pat = CHR ''*'');
               p1 = dropWhile (\<lambda>c. c = CHR ''*'') pat;
               chunk = fst (scan_chunk False p1);
               rest = snd (scan_chunk False p1)
      in if star \<and> chunk = [] then CHR ''/'' \<notin> set name
         else (case match_chunk chunk name of
                 Some t \<Rightarrow>
                   if t = [] \<or> rest \<noteq> [] then match_pat rest t
                   else (star \<and> (case star_match chunk (rest = []) name of
                                   None \<Rightarrow> False | Some t \<Rightarrow> match_pat rest t))
               | None \<Rightarrow> (star \<and> (case star_match chunk (rest = []) name of
                                   None \<Rightarrow> False | Some t \<Rightarrow> match_pat rest t))))"
  by pat_completeness auto
termination
  by (relation "measure (\<lambda>(p, _). length p)") (simp_all add: scan_rest_length)

declare match_pat.simps [simp del]

section \<open>The file system\<close>

record fs_file =
  fdata :: string
  fmtime :: int

datatype io_err = ENotExist | EIo string

record fs =
  fs_files :: "path \<Rightarrow> fs_file option"
  fs_dirs :: "path list"                      \<comment> \<open>paths that are directories\<close>
  fs_rderr :: "path \<Rightarrow> string option"       \<comment> \<open>a read of the path fails with this error\<close>
  fs_wrerr :: "path \<Rightarrow> string option"       \<comment> \<open>a write, create or rename of the path fails\<close>
  fs_evalsym :: "path \<Rightarrow> path option"       \<comment> \<open>\<^verbatim>\<open>filepath.EvalSymlinks\<close>, None for an error\<close>
  fs_cwd :: path
  fs_clock :: int                             \<comment> \<open>the modification time a write stamps\<close>

definition read_file :: "fs \<Rightarrow> path \<Rightarrow> io_err + string" where
  "read_file f p =
     (case fs_rderr f p of Some e \<Rightarrow> Inl (EIo e)
      | None \<Rightarrow> (case fs_files f p of None \<Rightarrow> Inl ENotExist | Some x \<Rightarrow> Inr (fdata x)))"

definition put_file :: "path \<Rightarrow> string \<Rightarrow> fs \<Rightarrow> fs" where
  "put_file p d f =
     f\<lparr>fs_files := (fs_files f)(p := Some \<lparr>fdata = d, fmtime = fs_clock f\<rparr>)\<rparr>"

definition write_file :: "path \<Rightarrow> string \<Rightarrow> fs \<Rightarrow> io_err option \<times> fs" where
  "write_file p d f =
     (case fs_wrerr f p of Some e \<Rightarrow> (Some (EIo e), f) | None \<Rightarrow> (None, put_file p d f))"

text \<open>\<^verbatim>\<open>OpenFile\<close> with \<^verbatim>\<open>O_CREATE | O_APPEND\<close> and one write.\<close>
definition append_file :: "path \<Rightarrow> string \<Rightarrow> fs \<Rightarrow> io_err option \<times> fs" where
  "append_file p d f =
     (case fs_wrerr f p of Some e \<Rightarrow> (Some (EIo e), f)
      | None \<Rightarrow> (None, put_file p ((case fs_files f p of None \<Rightarrow> [] | Some x \<Rightarrow> fdata x) @ d) f))"

definition remove_file :: "path \<Rightarrow> fs \<Rightarrow> fs" where
  "remove_file p f = f\<lparr>fs_files := (fs_files f)(p := None)\<rparr>"

definition rename_file :: "path \<Rightarrow> path \<Rightarrow> fs \<Rightarrow> io_err option \<times> fs" where
  "rename_file src dst f =
     (case fs_wrerr f dst of Some e \<Rightarrow> (Some (EIo e), f)
      | None \<Rightarrow>
          (case fs_files f src of None \<Rightarrow> (Some ENotExist, f)
           | Some x \<Rightarrow>
               (None, f\<lparr>fs_files := (fs_files f)(src := None, dst := Some x)\<rparr>)))"

definition file_text :: "fs \<Rightarrow> path \<Rightarrow> string option" where
  "file_text f p = map_option fdata (fs_files f p)"

named_theorems fs_simps \<comment> \<open>reads after writes\<close>

lemma file_text_put [fs_simps]: "file_text (put_file p d f) q = (if q = p then Some d else file_text f q)"
  by (simp add: file_text_def put_file_def)

lemma file_text_remove [fs_simps]: "file_text (remove_file p f) q = (if q = p then None else file_text f q)"
  by (simp add: file_text_def remove_file_def)

lemma put_file_sel [fs_simps]:
  "fs_rderr (put_file p d f) = fs_rderr f" "fs_wrerr (put_file p d f) = fs_wrerr f"
  "fs_dirs (put_file p d f) = fs_dirs f" "fs_evalsym (put_file p d f) = fs_evalsym f"
  "fs_cwd (put_file p d f) = fs_cwd f" "fs_clock (put_file p d f) = fs_clock f"
  by (simp_all add: put_file_def)

lemma read_file_text:
  "read_file f p = (case fs_rderr f p of Some e \<Rightarrow> Inl (EIo e)
     | None \<Rightarrow> (case file_text f p of None \<Rightarrow> Inl ENotExist | Some d \<Rightarrow> Inr d))"
  by (auto simp: read_file_def file_text_def split: option.splits)

lemma read_put_file [fs_simps]:
  "read_file (put_file p d f) q = (if q = p \<and> fs_rderr f p = None then Inr d else read_file f q)"
  by (auto simp: read_file_text fs_simps split: option.splits)

lemma write_file_ok [fs_simps]: "fs_wrerr f p = None \<Longrightarrow> write_file p d f = (None, put_file p d f)"
  by (simp add: write_file_def)

lemma append_file_ok [fs_simps]:
  "fs_wrerr f p = None \<Longrightarrow>
    append_file p d f = (None, put_file p ((case file_text f p of None \<Rightarrow> [] | Some x \<Rightarrow> x) @ d) f)"
  by (auto simp: append_file_def file_text_def split: option.splits)

text \<open>A file system with nothing in it, where every operation succeeds.\<close>
definition empty_fs :: fs where
  "empty_fs = \<lparr>fs_files = (\<lambda>_. None), fs_dirs = [], fs_rderr = (\<lambda>_. None), fs_wrerr = (\<lambda>_. None),
     fs_evalsym = (\<lambda>p. if is_abs p then Some p else None), fs_cwd = ''/'', fs_clock = 0\<rparr>"

lemma empty_fs_sel [fs_simps]:
  "fs_wrerr empty_fs p = None" "fs_rderr empty_fs p = None" "file_text empty_fs p = None"
  by (simp_all add: empty_fs_def file_text_def)

section \<open>What a step leaves alone\<close>

text \<open>Nothing but the paths of \<open>A\<close> differs.\<close>
definition same_but :: "path set \<Rightarrow> fs \<Rightarrow> fs \<Rightarrow> bool" where
  "same_but A f g \<longleftrightarrow> (\<forall>q. q \<notin> A \<longrightarrow> file_text g q = file_text f q) \<and> fs_rderr g = fs_rderr f \<and> fs_wrerr g = fs_wrerr f"

named_theorems frame \<comment> \<open>frame facts of the file-system operations and the handlers\<close>

lemma same_but_refl [simp, frame]: "same_but A f f"
  by (simp add: same_but_def)

lemma same_but_trans: "same_but A f g \<Longrightarrow> same_but B g h \<Longrightarrow> A \<subseteq> C \<Longrightarrow> B \<subseteq> C \<Longrightarrow> same_but C f h"
  unfolding same_but_def by (metis subsetD)

lemma same_but_step: "same_but A f g \<Longrightarrow> same_but A g h \<Longrightarrow> same_but A f h"
  by (simp add: same_but_def)

lemma same_but_mono: "same_but A f g \<Longrightarrow> A \<subseteq> B \<Longrightarrow> same_but B f g"
  by (auto simp: same_but_def)

lemma same_but_text: "same_but A f g \<Longrightarrow> q \<notin> A \<Longrightarrow> file_text g q = file_text f q"
  by (simp add: same_but_def)

lemma same_but_errs: "same_but A f g \<Longrightarrow> fs_rderr g = fs_rderr f \<and> fs_wrerr g = fs_wrerr f"
  by (simp add: same_but_def)

lemma same_but_put [frame]: "p \<in> A \<Longrightarrow> same_but A f (put_file p d f)"
  by (simp add: same_but_def fs_simps)

lemma same_but_remove [frame]: "p \<in> A \<Longrightarrow> same_but A f (remove_file p f)"
  by (simp add: same_but_def fs_simps) (simp add: remove_file_def)

lemma same_but_write [frame]: "p \<in> A \<Longrightarrow> same_but A f (snd (write_file p d f))"
  by (auto simp: write_file_def frame split: option.split)

lemma same_but_append [frame]: "p \<in> A \<Longrightarrow> same_but A f (snd (append_file p d f))"
  by (auto simp: append_file_def frame split: option.split)

lemma same_but_rename [frame]: "p \<in> A \<Longrightarrow> q \<in> A \<Longrightarrow> same_but A f (snd (rename_file p q f))"
  by (auto simp: rename_file_def same_but_def file_text_def split: option.split)

text \<open>A rename either fails and changes nothing, or moves the contents.\<close>
lemma rename_file_cases:
  assumes "rename_file p q f = (r, g)"
  shows "(r \<noteq> None \<and> g = f) \<or> (r = None \<and> (\<exists>d. file_text f p = Some d \<and> file_text g q = Some d \<and>
    (p \<noteq> q \<longrightarrow> file_text g p = None)))"
  using assms by (auto simp: rename_file_def file_text_def split: option.splits)

end
