(* ===== verification/Resolve.thy ===== *)
theory Resolve
  imports GoStruct GoFiles
begin

text \<open>
  \<^verbatim>\<open>internal/ssh/resolve.go\<close>: from the name of a target to the addresses that are dialled.  The
  network interfaces, the output of the tailscale command and the parser of IP addresses are arguments;
  maps that Go iterates in an unspecified order are lists in the order of the iteration.
\<close>

section \<open>Peers and the machine\<close>

record peer =
  pe_name :: string
  pe_id :: string
  pe_vpn :: string
  pe_lan :: string
  pe_public :: string
  pe_user :: string

record endpoint =
  ep_host :: string
  ep_user :: string
  ep_desc :: string

text \<open>A node of \<^verbatim>\<open>tailscale status\<close>.\<close>
record ts_node =
  tn_host :: string
  tn_dns :: string
  tn_ips :: "string list"

record site =
  st_peers :: "peer list"
  st_users :: "(string \<times> string) list"        \<comment> \<open>users.json\<close>
  st_self :: "ts_node option"                    \<comment> \<open>None where tailscale or its JSON fails\<close>
  st_nodes :: "ts_node list"                     \<comment> \<open>the other nodes\<close>
  st_local :: "string list"                      \<comment> \<open>the addresses of the interfaces but loopback\<close>
  st_hostname :: string                          \<comment> \<open>empty on an error\<close>
  st_parse_ip :: "string \<Rightarrow> bool option"         \<comment> \<open>whether loopback, None for no address\<close>

definition first_label :: "string \<Rightarrow> string" where
  "first_label s = hd (split_on (CHR ''.'') s)"

definition lookupNodeUser :: "(string \<times> string) list \<Rightarrow> string \<Rightarrow> string" where
  "lookupNodeUser users name =
     (let get = (\<lambda>k. case map_of users k of None \<Rightarrow> '''' | Some u \<Rightarrow> u) in
      case find (\<lambda>c. get c \<noteq> '''') [name, to_lower name, first_label (to_lower name)] of
        Some c \<Rightarrow> get c
      | None \<Rightarrow>
          (case find (\<lambda>(k, _). equal_fold k name \<or> equal_fold k (first_label name)) users of
             None \<Rightarrow> '''' | Some (_, u) \<Rightarrow> u))"

definition ts_matches :: "string \<Rightarrow> string \<Rightarrow> bool" where
  "ts_matches hostname candidate =
     (let c = trim_suffix ''.'' (to_lower (trim_space candidate)) in c = hostname \<or> first_label c = hostname)"

definition ts_node_matches :: "string \<Rightarrow> ts_node \<Rightarrow> bool" where
  "ts_node_matches hostname n \<longleftrightarrow> (ts_matches hostname (tn_host n) \<or> ts_matches hostname (tn_dns n)) \<and> tn_ips n \<noteq> []"

definition tailscaleIPForHost :: "site \<Rightarrow> string \<Rightarrow> string" where
  "tailscaleIPForHost st name =
     (let h = to_lower (trim_space name) in
      if h = '''' then ''''
      else (case st_self st of None \<Rightarrow> ''''
        | Some self \<Rightarrow>
            if ts_node_matches h self then hd (tn_ips self)
            else (case find (ts_node_matches h) (st_nodes st) of None \<Rightarrow> '''' | Some n \<Rightarrow> hd (tn_ips n))))"

definition getEndpoints :: "site \<Rightarrow> peer \<Rightarrow> endpoint list" where
  "getEndpoints st p =
     (let u0 = lookupNodeUser (st_users st) (pe_name p); usr = (if u0 = '''' then pe_user p else u0);
          ep = (\<lambda>kind h. if h = '''' then [] else [\<lparr>ep_host = h, ep_user = usr, ep_desc = kind @ '' ('' @ h @ '')''\<rparr>])
      in ep ''Tailscale'' (tailscaleIPForHost st (pe_name p)) @ ep ''VPN'' (pe_vpn p)
           @ (if has_prefix ''127.'' (pe_lan p) then [] else ep ''LAN'' (pe_lan p)) @ ep ''Public'' (pe_public p))"

section \<open>The machine itself\<close>

definition localSelfAddrs :: "site \<Rightarrow> string list" where
  "localSelfAddrs st = st_local st @ (case st_self st of None \<Rightarrow> [] | Some n \<Rightarrow> tn_ips n)"

definition selfNames :: "site \<Rightarrow> string list" where
  "selfNames st =
     filter (\<lambda>n. n \<noteq> '''') ([st_hostname st] @ (case st_self st of None \<Rightarrow> [] | Some n \<Rightarrow> [tn_host n, tn_dns n]))"

definition isSelfTarget :: "site \<Rightarrow> string \<Rightarrow> bool" where
  "isSelfTarget st target =
     (let t = trim_suffix ''.'' (to_lower (trim_space target)) in
      if t = '''' then False
      else (case st_parse_ip st t of
          Some loopback \<Rightarrow> loopback \<or> t \<in> set (localSelfAddrs st)
        | None \<Rightarrow>
            list_ex (\<lambda>n. let m = trim_suffix ''.'' (to_lower n) in m = t \<or> first_label m = first_label t) (selfNames st)))"

section \<open>Addresses of a target\<close>

definition peer_matches :: "string \<Rightarrow> peer \<Rightarrow> bool" where
  "peer_matches t p \<longleftrightarrow> to_lower (pe_name p) = t \<or> contains t (to_lower (pe_name p)) \<or> pe_vpn p = t \<or>
     has_prefix t (to_lower (pe_id p))"

definition findPeer :: "site \<Rightarrow> string \<Rightarrow> peer option" where
  "findPeer st target = find (peer_matches (to_lower target)) (st_peers st)"

text \<open>The loop over the endpoints: the addresses kept, and whether one of the machine's own was left
  out.\<close>
fun pick_hosts :: "string list \<Rightarrow> string list \<Rightarrow> bool \<Rightarrow> string list \<Rightarrow> string list \<times> bool" where
  "pick_hosts own hosts filtered [] = (hosts, filtered)"
| "pick_hosts own hosts filtered (h # hs) =
     (if h = '''' \<or> h \<in> set hosts then pick_hosts own hosts filtered hs
      else if h \<in> set own then pick_hosts own hosts True hs
      else pick_hosts own (hosts @ [h]) filtered hs)"

definition CandidateHosts :: "site \<Rightarrow> string \<Rightarrow> string + string list" where
  "CandidateHosts st target =
     (if isSelfTarget st target then Inr [''127.0.0.1'']
      else (case findPeer st target of None \<Rightarrow> Inl (''peer not found: '' @ target)
        | Some p \<Rightarrow>
            (case pick_hosts (localSelfAddrs st) [] False (map ep_host (getEndpoints st p)) of
               ([], True) \<Rightarrow> Inr [''127.0.0.1'']
             | ([], False) \<Rightarrow> Inl (''no candidate address for peer: '' @ target)
             | (hosts, _) \<Rightarrow> Inr hosts)))"

definition ResolveHost :: "site \<Rightarrow> string \<Rightarrow> string + string" where
  "ResolveHost st target = (case CandidateHosts st target of Inl er \<Rightarrow> Inl er | Inr hosts \<Rightarrow> Inr (hd hosts))"

text \<open>The argument vector of \<^verbatim>\<open>trySSH\<close>.\<close>
definition ssh_args :: "string \<Rightarrow> string \<Rightarrow> string list \<Rightarrow> string list" where
  "ssh_args host usr extra =
     [''-o'', ''ConnectTimeout=10'', ''-o'', ''StrictHostKeyChecking=no'', ''-o'', ''UserKnownHostsFile=/dev/null'',
      ''-o'', ''LogLevel=ERROR'', if usr \<noteq> '''' then usr @ ''@'' @ host else host] @ extra"

section \<open>What the choice guarantees\<close>

lemma pick_hosts_facts:
  "pick_hosts own hosts b hs = (r, b') \<Longrightarrow> distinct hosts \<Longrightarrow> set hosts \<inter> set own = {} \<Longrightarrow>
    distinct r \<and> set r \<inter> set own = {} \<and> set r \<subseteq> set hosts \<union> set hs \<and>
    (\<forall>h \<in> set hs. h \<noteq> '''' \<and> h \<notin> set own \<longrightarrow> h \<in> set r) \<and> set hosts \<subseteq> set r"
  by (induction own hosts b hs rule: pick_hosts.induct) (auto split: if_splits)

text \<open>For a target that is not the machine itself the candidates are addresses of one peer, all of
  them that are not the machine's own, each once; loopback is dialled only when every address of the
  peer was the machine's own.\<close>
theorem candidates_are_remote:
  assumes "\<not> isSelfTarget st target" "CandidateHosts st target = Inr hosts"
  shows "\<exists>p. findPeer st target = Some p \<and>
    (hosts = [''127.0.0.1''] \<and> set (map ep_host (getEndpoints st p)) - {''''} \<subseteq> set (localSelfAddrs st) \<or>
     hosts \<noteq> [] \<and> distinct hosts \<and> set hosts = set (map ep_host (getEndpoints st p)) - {''''} - set (localSelfAddrs st))"
proof -
  obtain p where p: "findPeer st target = Some p" using assms by (auto simp: CandidateHosts_def split: option.splits)
  obtain r b where r: "pick_hosts (localSelfAddrs st) [] False (map ep_host (getEndpoints st p)) = (r, b)"
    by (cases "pick_hosts (localSelfAddrs st) [] False (map ep_host (getEndpoints st p))")
  have f: "distinct r" "set r \<inter> set (localSelfAddrs st) = {}" "set r \<subseteq> set (map ep_host (getEndpoints st p))"
    "\<forall>h \<in> set (map ep_host (getEndpoints st p)). h \<noteq> '''' \<and> h \<notin> set (localSelfAddrs st) \<longrightarrow> h \<in> set r"
    using pick_hosts_facts[OF r] by auto
  have e: "'''' \<notin> set (map ep_host (getEndpoints st p))" by (auto simp: getEndpoints_def Let_def split: if_splits)
  show ?thesis
  proof (cases r)
    case Nil
    with assms p r have "hosts = [''127.0.0.1'']" by (auto simp: CandidateHosts_def split: bool.splits)
    with Nil f p show ?thesis by auto
  next
    case (Cons a as)
    with assms p r have "hosts = r" by (auto simp: CandidateHosts_def)
    moreover have "set r = set (map ep_host (getEndpoints st p)) - {''''} - set (localSelfAddrs st)"
      using f e by blast
    ultimately show ?thesis using Cons f(1) p by auto
  qed
qed

text \<open>A name is also matched as a part of a name, and the first peer that matches in any way is taken:
  a peer whose name has the target's name in it and stands earlier in the list gets what is meant for
  the peer of exactly that name.\<close>
theorem findPeer_takes_partial_match:
  assumes "st_peers st = before @ [p] @ mid @ [q] @ rest" "\<forall>x \<in> set before. \<not> peer_matches (to_lower target) x"
    and "to_lower (pe_name q) = to_lower target" "contains (to_lower target) (to_lower (pe_name p))"
  shows "findPeer st target = Some p"
proof -
  have "find (peer_matches (to_lower target)) before = None" using assms(2) by (simp add: find_None_iff)
  moreover have "peer_matches (to_lower target) p" using assms(4) by (simp add: peer_matches_def)
  moreover have "find P (xs @ y # ys) = Some y" if "find P xs = None" "P y" for P :: "peer \<Rightarrow> bool" and xs y ys
    using that by (induction xs) (auto split: if_splits)
  ultimately show ?thesis using assms(1) by (simp add: findPeer_def)
qed

definition demo_peer :: "string \<Rightarrow> string \<Rightarrow> peer" where
  "demo_peer n ip = \<lparr>pe_name = n, pe_id = ''id-'' @ n, pe_vpn = '''', pe_lan = ip, pe_public = '''', pe_user = ''''\<rparr>"

definition demo_site :: site where
  "demo_site = \<lparr>st_peers = [demo_peer ''d10'' ''10.0.0.10'', demo_peer ''d1'' ''10.0.0.1''], st_users = [], st_self = None,
     st_nodes = [], st_local = [''10.0.0.9''], st_hostname = ''ctl'', st_parse_ip = (\<lambda>_. None)\<rparr>"

lemma findPeer_takes_partial_match_witness:
  "findPeer demo_site ''d1'' = Some (demo_peer ''d10'' ''10.0.0.10'')"
proof -
  have "to_lower (pe_name (demo_peer ''d1'' ''10.0.0.1'')) = to_lower ''d1''"
    "contains (to_lower ''d1'') (to_lower (pe_name (demo_peer ''d10'' ''10.0.0.10'')))" by code_simp+
  then show ?thesis
    by (intro findPeer_takes_partial_match[of _ "[]" _ "[]" "demo_peer ''d1'' ''10.0.0.1''" "[]"]) (simp_all add: demo_site_def)
qed

lemma candidates_are_remote_witness:
  "\<not> isSelfTarget demo_site ''d1'' \<and> CandidateHosts demo_site ''d1'' = Inr [''10.0.0.10''] \<and> ''10.0.0.9'' \<notin> set [''10.0.0.10'']"
proof -
  have s: "\<not> isSelfTarget demo_site ''d1''" "CandidateHosts demo_site ''d1'' = Inr [''10.0.0.10'']" by code_simp+
  from candidates_are_remote[OF s] s show ?thesis by (auto simp: demo_site_def localSelfAddrs_def)
qed

end
