(* ===== verification/GoCodec.thy ===== *)
theory GoCodec
  imports GoBase
begin

text \<open>
  \<^verbatim>\<open>encoding/base64\<close> (the standard padded alphabet) and \<^verbatim>\<open>encoding/hex\<close> on byte strings,
  with the round trip the challenge-response and the EXEJ verb rely on.
\<close>

section \<open>Base64\<close>

definition b64_char :: "nat \<Rightarrow> char" where
  "b64_char n =
     char_of (if n < 26 then 65 + n else if n < 52 then 71 + n else if n < 62 then n - 4
              else if n = 62 then 43 else 47)"

definition b64_val :: "char \<Rightarrow> nat option" where
  "b64_val c =
     (let n = of_char c :: nat in
      if 65 \<le> n \<and> n \<le> 90 then Some (n - 65)
      else if 97 \<le> n \<and> n \<le> 122 then Some (n - 71)
      else if 48 \<le> n \<and> n \<le> 57 then Some (n + 4)
      else if n = 43 then Some 62 else if n = 47 then Some 63 else None)"

fun b64_encode :: "string \<Rightarrow> string" where
  "b64_encode [] = []"
| "b64_encode [a] =
     (let x = of_char a :: nat in
      [b64_char (x div 4), b64_char (x mod 4 * 16), CHR ''='', CHR ''=''])"
| "b64_encode [a, b] =
     (let x = of_char a :: nat; y = of_char b :: nat in
      [b64_char (x div 4), b64_char (x mod 4 * 16 + y div 16), b64_char (y mod 16 * 4), CHR ''=''])"
| "b64_encode (a # b # c # rest) =
     (let x = of_char a :: nat; y = of_char b :: nat; z = of_char c :: nat in
      [b64_char (x div 4), b64_char (x mod 4 * 16 + y div 16),
       b64_char (y mod 16 * 4 + z div 64), b64_char (z mod 64)] @ b64_encode rest)"

definition byte1 :: "nat \<Rightarrow> nat \<Rightarrow> char" where "byte1 p q = char_of (p * 4 + q div 16)"
definition byte2 :: "nat \<Rightarrow> nat \<Rightarrow> char" where "byte2 q r = char_of (q mod 16 * 16 + r div 4)"
definition byte3 :: "nat \<Rightarrow> nat \<Rightarrow> char" where "byte3 r t = char_of (r mod 4 * 64 + t)"

fun b64_quads :: "string \<Rightarrow> string option" where
  "b64_quads [] = Some []"
| "b64_quads (a # b # c # d # rest) =
     (case (b64_val a, b64_val b) of
        (Some p, Some q) \<Rightarrow>
          if c = CHR ''='' then (if d = CHR ''='' \<and> rest = [] then Some [byte1 p q] else None)
          else (case b64_val c of None \<Rightarrow> None
            | Some r \<Rightarrow>
                if d = CHR ''='' then (if rest = [] then Some [byte1 p q, byte2 q r] else None)
                else (case (b64_val d, b64_quads rest) of
                        (Some t, Some out) \<Rightarrow> Some (byte1 p q # byte2 q r # byte3 r t # out)
                      | _ \<Rightarrow> None))
      | _ \<Rightarrow> None)"
| "b64_quads s = None"

text \<open>The decoder skips carriage returns and newlines wherever they stand.\<close>
definition b64_decode :: "string \<Rightarrow> string option" where
  "b64_decode s = b64_quads (filter (\<lambda>c. c \<noteq> CR \<and> c \<noteq> NL) s)"

lemma b64_val_char: "n < 64 \<Longrightarrow> b64_val (b64_char n) = Some n"
proof -
  assume "n < 64"
  then consider "n < 26" | "26 \<le> n" "n < 52" | "52 \<le> n" "n < 62" | "n = 62" | "n = 63" by linarith
  then show ?thesis
    by cases (simp_all add: b64_val_def b64_char_def Let_def, linarith?)
qed

lemma b64_char_code: "n < 64 \<Longrightarrow> (of_char (b64_char n) :: nat) =
    (if n < 26 then 65 + n else if n < 52 then 71 + n else if n < 62 then n - 4
     else if n = 62 then 43 else 47)"
  by (simp add: b64_char_def)

lemma b64_char_not:
  assumes "n < 64"
  shows "b64_char n \<noteq> CHR ''=''" "b64_char n \<noteq> CR" "b64_char n \<noteq> NL" "\<not> is_space (b64_char n)"
proof -
  have ne: "b64_char n \<noteq> c" if "of_char c < (43 :: nat) \<or> of_char c = (61 :: nat)" for c
  proof
    assume "b64_char n = c"
    with that b64_char_code[OF assms] show False by (auto split: if_splits)
  qed
  show "b64_char n \<noteq> CHR ''=''" "b64_char n \<noteq> CR" "b64_char n \<noteq> NL" by (rule ne, simp)+
  show "\<not> is_space (b64_char n)"
    unfolding is_space_def by (intro conjI notI; (elim disjE)?; (drule ne[THEN notE, rotated])?) (simp_all add: ne)
qed

lemma of_char_lt: "(of_char c :: nat) < 256"
  using of_char_mod_256[of c, where ?'a = nat] by (metis mod_less_divisor zero_less_numeral)

lemma pack: "v < k \<Longrightarrow> (u * k + v) div k = (u :: nat)" "v < k \<Longrightarrow> (u * k + v) mod k = v"
  by simp_all

lemma sextets:
  assumes "x < 256" "y < 256"
  shows "x div 4 < 64" "x mod 4 * 16 + y div 16 < 64" "y mod 16 * 4 + x div 64 < 64"
    "x mod 64 < (64 :: nat)" "x mod 4 * 16 < 64" "x mod 16 * 4 < 64"
  using assms by (auto simp: less_mult_imp_div_less)

lemma bytes_back:
  assumes "x < 256" "y < 256" "z < 256"
  shows "byte1 (x div 4) (x mod 4 * 16 + y div 16) = char_of x"
    "byte1 (x div 4) (x mod 4 * 16) = char_of x"
    "byte2 (x mod 4 * 16 + y div 16) (y mod 16 * 4 + z div 64) = char_of y"
    "byte2 (x mod 4 * 16 + y div 16) (y mod 16 * 4) = char_of y"
    "byte3 (y mod 16 * 4 + z div 64) (z mod 64) = char_of z"
proof -
  have "y div 16 < 16" "z div 64 < 4" using assms by (auto simp: less_mult_imp_div_less)
  note p = pack(1)[OF this(1)] pack(2)[OF this(1)] pack(1)[OF this(2)] pack(2)[OF this(2)]
  show "byte1 (x div 4) (x mod 4 * 16 + y div 16) = char_of x"
    "byte1 (x div 4) (x mod 4 * 16) = char_of x"
    "byte2 (x mod 4 * 16 + y div 16) (y mod 16 * 4 + z div 64) = char_of y"
    "byte2 (x mod 4 * 16 + y div 16) (y mod 16 * 4) = char_of y"
    "byte3 (y mod 16 * 4 + z div 64) (z mod 64) = char_of z"
    unfolding byte1_def byte2_def byte3_def p by simp_all
qed

lemmas char_sextets = sextets[OF of_char_lt of_char_lt]
lemmas char_bytes = bytes_back[OF of_char_lt of_char_lt of_char_lt]

definition b64_ok :: "char \<Rightarrow> bool" where
  "b64_ok c \<longleftrightarrow> \<not> is_space c \<and> c \<noteq> CR \<and> c \<noteq> NL"

lemma b64_ok_char: "n < 64 \<Longrightarrow> b64_ok (b64_char n)"
  using b64_char_not[of n] by (simp add: b64_ok_def)

lemma b64_ok_pad: "b64_ok CHR ''=''"
  by (simp add: b64_ok_def is_space_def)

lemma b64_encode_ok: "list_all b64_ok (b64_encode s)"
  by (induction s rule: b64_encode.induct)
    (simp_all only: b64_encode.simps Let_def append.simps list.pred_inject simp_thms
      b64_ok_pad b64_ok_char[OF char_sextets(1)] b64_ok_char[OF char_sextets(2)]
      b64_ok_char[OF char_sextets(3)] b64_ok_char[OF char_sextets(4)]
      b64_ok_char[OF char_sextets(5)] b64_ok_char[OF char_sextets(6)])

lemma b64_encode_clean: "c \<in> set (b64_encode s) \<Longrightarrow> \<not> is_space c \<and> c \<noteq> CR \<and> c \<noteq> NL"
  using b64_encode_ok[of s] by (simp add: list_all_iff b64_ok_def)

lemma b64_quads_encode: "b64_quads (b64_encode s) = Some s"
proof (induction s rule: b64_encode.induct)
  case (2 a)
  show ?case
    by (simp only: b64_encode.simps Let_def b64_quads.simps b64_val_char[OF char_sextets(1)]
        b64_val_char[OF char_sextets(5)] char_bytes char_of_char option.case prod.case simp_thms if_True)
next
  case (3 a b)
  show ?case
    by (simp only: b64_encode.simps Let_def b64_quads.simps b64_val_char[OF char_sextets(1)]
        b64_val_char[OF char_sextets(2)] b64_val_char[OF char_sextets(6)] b64_char_not[OF char_sextets(6)]
        char_bytes char_of_char option.case prod.case simp_thms if_True if_False)
next
  case (4 a b d rest)
  then show ?case
    by (simp only: b64_encode.simps Let_def append.simps b64_quads.simps b64_val_char[OF char_sextets(1)]
        b64_val_char[OF char_sextets(2)] b64_val_char[OF char_sextets(3)] b64_val_char[OF char_sextets(4)]
        b64_char_not[OF char_sextets(3)] b64_char_not[OF char_sextets(4)]
        char_bytes char_of_char option.case prod.case simp_thms if_True if_False)
qed simp

lemma b64_roundtrip [simp, go_str]: "b64_decode (b64_encode s) = Some s"
proof -
  have "filter (\<lambda>c. c \<noteq> CR \<and> c \<noteq> NL) (b64_encode s) = b64_encode s"
    using b64_encode_clean by (intro filter_True) blast
  then show ?thesis by (simp add: b64_decode_def b64_quads_encode)
qed

lemma b64_encode_Nil [simp]: "b64_encode s = [] \<longleftrightarrow> s = []"
  by (cases s rule: b64_encode.cases) (simp_all add: Let_def)

lemma b64_encode_trim [simp]: "trim_space (b64_encode s) = b64_encode s"
  using b64_encode_clean by (intro trim_space_word) blast

section \<open>Hexadecimal\<close>

definition hex_digit :: "nat \<Rightarrow> char" where
  "hex_digit n = char_of (if n < 10 then 48 + n else 87 + n)"

definition hex_encode :: "string \<Rightarrow> string" where
  "hex_encode s =
     concat (map (\<lambda>c. [hex_digit (of_char c div 16), hex_digit (of_char c mod 16)]) s)"

lemma hex_encode_length: "length (hex_encode s) = 2 * length s"
  by (induction s) (simp_all add: hex_encode_def)

lemma hex_digit_inj: "n < 16 \<Longrightarrow> m < 16 \<Longrightarrow> hex_digit n = hex_digit m \<Longrightarrow> n = m"
proof -
  assume nm: "n < 16" "m < 16" and e: "hex_digit n = hex_digit m"
  have c: "(of_char (hex_digit k) :: nat) = (if k < 10 then 48 + k else 87 + k)" if "k < 16" for k
    using that by (simp add: hex_digit_def)
  from e have "(of_char (hex_digit n) :: nat) = of_char (hex_digit m)" by simp
  with c[OF nm(1)] c[OF nm(2)] nm show ?thesis by (auto split: if_splits)
qed

lemma hex_encode_inj: "hex_encode a = hex_encode b \<Longrightarrow> a = b"
proof (induction a arbitrary: b)
  case Nil
  then show ?case by (cases b) (auto simp: hex_encode_def)
next
  case (Cons x a)
  then obtain y b' where b: "b = y # b'" by (cases b) (auto simp: hex_encode_def)
  have lt: "of_char z div 16 < (16 :: nat)" "of_char z mod 16 < (16 :: nat)" for z :: char
    using of_char_lt[of z] by (auto simp: less_mult_imp_div_less)
  from Cons.prems b have h: "hex_digit (of_char x div 16) = hex_digit (of_char y div 16)"
    "hex_digit (of_char x mod 16) = hex_digit (of_char y mod 16)" "hex_encode a = hex_encode b'"
    by (simp_all add: hex_encode_def)
  have "of_char x div 16 = (of_char y div 16 :: nat)" "of_char x mod 16 = (of_char y mod 16 :: nat)"
    using hex_digit_inj[OF lt(1) lt(1) h(1)] hex_digit_inj[OF lt(2) lt(2) h(2)] by simp_all
  then have "(of_char x :: nat) = of_char y" by (metis div_mult_mod_eq)
  then have "x = y" by (metis char_of_char)
  with Cons.IH[OF h(3)] b show ?case by simp
qed

lemma hex_digit_ascii: "n < 16 \<Longrightarrow> (of_char (hex_digit n) :: nat) \<le> 102 \<and> (48 :: nat) \<le> of_char (hex_digit n)"
  by (simp add: hex_digit_def)

lemma hex_encode_range: "list_all (\<lambda>c. (48 :: nat) \<le> of_char c \<and> of_char c \<le> (102 :: nat)) (hex_encode s)"
proof (induction s)
  case (Cons x s)
  have "of_char x div 16 < (16 :: nat)" "of_char x mod 16 < (16 :: nat)"
    using of_char_lt[of x] by (auto simp: less_mult_imp_div_less)
  with Cons hex_digit_ascii show ?case by (simp add: hex_encode_def)
qed (simp add: hex_encode_def)

end
