(* ===== verification/Identity.thy ===== *)
theory Identity
  imports GoFiles GoCodec
begin

text \<open>
  \<^verbatim>\<open>internal/server/identity.go\<close>: the configuration directory, the Ed25519 identity of
  the host, the challenge signature, and the line-oriented files the daemon reads at every
  connection (\<open>authorized_keys\<close>, \<open>config\<close>, \<open>node_keys\<close>).  The home directory is an
  argument; signing, verifying and key generation are arguments of the definitions that use
  them (raw byte strings for keys, messages and signatures).
\<close>

section \<open>Where the files are\<close>

definition vsshConfigDir :: "string \<Rightarrow> path" where
  "vsshConfigDir home = (if home \<noteq> '''' then join_path [home, ''.vssh''] else ''/etc/vssh'')"

definition authorized_paths :: "string \<Rightarrow> path list" where
  "authorized_paths home =
     [join_path [vsshConfigDir home, ''authorized_keys''], ''/etc/vssh/authorized_keys'']"

section \<open>The authorized_keys line of a key\<close>

type_synonym caps = "string list option" \<comment> \<open>None is the nil map: unrestricted\<close>

text \<open>The fields after the key on a line that is for the key, or None: the loop body that
  \<^verbatim>\<open>KeyCapabilities\<close>, \<^verbatim>\<open>KeyName\<close> and \<^verbatim>\<open>KeyPolicy\<close> share.\<close>
definition key_line :: "string \<Rightarrow> string \<Rightarrow> string list option" where
  "key_line pub line =
     (let l = trim_space line in
      if l = '''' \<or> has_prefix ''#'' l then None
      else (case go_fields l of [] \<Rightarrow> None | f # tags \<Rightarrow> if f = pub then Some tags else None))"

fun first_some :: "('a \<Rightarrow> 'b option) \<Rightarrow> 'a list \<Rightarrow> 'b option" where
  "first_some f [] = None"
| "first_some f (x # xs) = (case f x of Some y \<Rightarrow> Some y | None \<Rightarrow> first_some f xs)"

text \<open>The first matching line of the first file that has one; a file that cannot be read is
  skipped.\<close>
definition scan_files :: "(string \<Rightarrow> 'a option) \<Rightarrow> fs \<Rightarrow> path list \<Rightarrow> 'a option" where
  "scan_files f w ps =
     first_some (\<lambda>p. case read_file w p of Inl _ \<Rightarrow> None
                     | Inr d \<Rightarrow> first_some f (split_on NL d)) ps"

definition parse_caps :: "string \<Rightarrow> string list" where
  "parse_caps f =
     filter (\<lambda>c. c \<noteq> '''') (map (\<lambda>c. to_lower (trim_space c)) (split_on (CHR '','') (trim_prefix ''caps='' f)))"

definition caps_of_tags :: "string list \<Rightarrow> caps" where
  "caps_of_tags tags =
     (case find (has_prefix ''caps='') tags of None \<Rightarrow> None
      | Some f \<Rightarrow> let cs = parse_caps f in if ''all'' \<in> set cs \<or> cs = [] then None else Some cs)"

definition KeyCapabilities :: "fs \<Rightarrow> string \<Rightarrow> string \<Rightarrow> caps \<times> bool" where
  "KeyCapabilities w home pub =
     (let pub = trim_space pub in
      if pub = '''' then (None, False)
      else (case scan_files (key_line pub) w (authorized_paths home) of
              None \<Rightarrow> (None, False) | Some tags \<Rightarrow> (caps_of_tags tags, True)))"

definition IsAuthorizedKey :: "fs \<Rightarrow> string \<Rightarrow> string \<Rightarrow> bool" where
  "IsAuthorizedKey w home pub = snd (KeyCapabilities w home pub)"

definition KeyName :: "fs \<Rightarrow> string \<Rightarrow> string \<Rightarrow> string" where
  "KeyName w home pub =
     (let pub = trim_space pub in
      if pub = '''' then ''''
      else (case scan_files (key_line pub) w (authorized_paths home) of
              None \<Rightarrow> ''''
            | Some tags \<Rightarrow>
                join '' '' (filter (\<lambda>f. \<not> (has_prefix ''caps='' f \<or> has_prefix ''policy='' f)) tags)))"

definition KeyPolicy :: "fs \<Rightarrow> string \<Rightarrow> string \<Rightarrow> string \<times> bool" where
  "KeyPolicy w home pub =
     (let pub = trim_space pub in
      if pub = '''' then ('''', False)
      else (case scan_files (key_line pub) w (authorized_paths home) of
              None \<Rightarrow> ('''', False)
            | Some tags \<Rightarrow>
                (case find (has_prefix ''policy='') tags of
                   None \<Rightarrow> ('''', False)
                 | Some f \<Rightarrow> (trim_space (trim_prefix ''policy='' f), True))))"

text \<open>\<^verbatim>\<open>server.go\<close>'s test of a capability: the nil set is unrestricted.\<close>
definition capAllowed :: "caps \<Rightarrow> string \<Rightarrow> bool" where
  "capAllowed cs c = (case cs of None \<Rightarrow> True | Some s \<Rightarrow> c \<in> set s)"

section \<open>The node registry\<close>

definition config_line :: "string \<Rightarrow> string \<Rightarrow> string option" where
  "config_line name line =
     (let l = trim_space line in
      if l = '''' \<or> has_prefix ''#'' l then None
      else (case cut (CHR ''='') l of None \<Rightarrow> None
            | Some (k, v) \<Rightarrow> if trim_space (to_lower k) = name then Some (trim_space v) else None))"

definition ConfigNodeIP :: "fs \<Rightarrow> string \<Rightarrow> string \<Rightarrow> string" where
  "ConfigNodeIP w home name =
     (let name = trim_space (to_lower name) in
      if name = '''' then ''''
      else (case scan_files (config_line name) w
                   [join_path [vsshConfigDir home, ''config''], ''/etc/vssh/config''] of
              None \<Rightarrow> '''' | Some ip \<Rightarrow> ip))"

definition node_key_line :: "string \<Rightarrow> string \<Rightarrow> string option" where
  "node_key_line name line =
     (case go_fields line of f # k # _ \<Rightarrow> if to_lower f = name then Some k else None | _ \<Rightarrow> None)"

definition NodeKey :: "fs \<Rightarrow> string \<Rightarrow> string \<Rightarrow> string" where
  "NodeKey w home name =
     (let name = trim_space (to_lower name) in
      if name = '''' then ''''
      else (case scan_files (node_key_line name) w
                   [join_path [vsshConfigDir home, ''node_keys''], ''/etc/vssh/node_keys''] of
              None \<Rightarrow> '''' | Some k \<Rightarrow> k))"

section \<open>Challenge and response\<close>

definition vauthDomain :: string where
  "vauthDomain = ''VSSH-VAUTH1'' @ [CHR 0x00]"

definition vauthChallengeBytes :: "bytes \<Rightarrow> bytes" where
  "vauthChallengeBytes nonce = vauthDomain @ nonce"

definition SignChallenge :: "(bytes \<Rightarrow> bytes \<Rightarrow> bytes) \<Rightarrow> bytes \<Rightarrow> bytes \<Rightarrow> string" where
  "SignChallenge sign priv nonce = b64_encode (sign priv (vauthChallengeBytes nonce))"

definition VerifyChallenge ::
  "(bytes \<Rightarrow> bytes \<Rightarrow> bytes \<Rightarrow> bool) \<Rightarrow> string \<Rightarrow> bytes \<Rightarrow> string \<Rightarrow> bool" where
  "VerifyChallenge verify pubB64 nonce sigB64 =
     (case b64_decode (trim_space pubB64) of None \<Rightarrow> False
      | Some pub \<Rightarrow>
          length pub = 32 \<and>
          (case b64_decode (trim_space sigB64) of None \<Rightarrow> False
           | Some sig \<Rightarrow>
               length sig = 64 \<and>
               (verify pub (vauthChallengeBytes nonce) sig \<or> verify pub nonce sig)))"

section \<open>The host identity on disk\<close>

definition IdentityKeyPath :: "string \<Rightarrow> path" where
  "IdentityKeyPath home = join_path [vsshConfigDir home, ''vssh_id'']"

text \<open>The stored private key, when the file holds 64 decoded bytes.\<close>
definition stored_key :: "fs \<Rightarrow> path \<Rightarrow> bytes option" where
  "stored_key w p =
     (case read_file w p of Inl _ \<Rightarrow> None
      | Inr d \<Rightarrow> (case b64_decode (trim_space d) of None \<Rightarrow> None
                 | Some raw \<Rightarrow> if length raw = 64 then Some raw else None))"

record ident_cache =
  id_once :: bool                 \<comment> \<open>the sync.Once has run\<close>
  id_priv :: "bytes option"
  id_pub :: string

definition LoadOrCreateIdentity ::
  "(bytes \<times> bytes) option \<Rightarrow> (bytes \<Rightarrow> bytes) \<Rightarrow> string \<Rightarrow> ident_cache \<times> fs \<Rightarrow> ident_cache \<times> fs" where
  "LoadOrCreateIdentity gen pub_of home = (\<lambda>(c, w).
     if id_once c then (c, w)
     else let p = IdentityKeyPath home; c1 = c\<lparr>id_once := True\<rparr> in
       (case stored_key w p of
          Some raw \<Rightarrow> (c1\<lparr>id_priv := Some raw, id_pub := b64_encode (pub_of raw)\<rparr>, w)
        | None \<Rightarrow>
            (case gen of None \<Rightarrow> (c1, w)
             | Some (pub, priv) \<Rightarrow>
                 let w1 = snd (write_file p (b64_encode priv) w);
                     w2 = snd (write_file (p @ ''.pub'') (b64_encode pub) w1)
                 in (c1\<lparr>id_priv := Some priv, id_pub := b64_encode pub\<rparr>, w2))))"

definition CurrentIdentityPub :: "(bytes \<Rightarrow> bytes) \<Rightarrow> string \<Rightarrow> fs \<Rightarrow> string" where
  "CurrentIdentityPub pub_of home w =
     (case stored_key w (IdentityKeyPath home) of None \<Rightarrow> '''' | Some raw \<Rightarrow> b64_encode (pub_of raw))"

record rotate_result =
  rr_pub :: string
  rr_backup :: string
  rr_err :: "io_err option"

text \<open>\<open>stamp\<close> is the formatted time; \<open>mkdir_err\<close> the result of creating the directory; a failed
  key generation is the error \<open>EIo gen\<close>.\<close>
definition RotateIdentity ::
  "(bytes \<times> bytes) option \<Rightarrow> string \<Rightarrow> io_err option \<Rightarrow> string \<Rightarrow> fs \<Rightarrow> rotate_result \<times> fs" where
  "RotateIdentity gen stamp mkdir_err home w =
     (let p = IdentityKeyPath home;
          bak = p @ ''.bak.'' @ stamp;
          finish = (\<lambda>backup w.
            case gen of None \<Rightarrow> (\<lparr>rr_pub = '''', rr_backup = backup, rr_err = Some (EIo ''gen'')\<rparr>, w)
            | Some (pub, priv) \<Rightarrow>
                if mkdir_err \<noteq> None then (\<lparr>rr_pub = '''', rr_backup = backup, rr_err = mkdir_err\<rparr>, w)
                else (case write_file p (b64_encode priv) w of
                        (Some e, w1) \<Rightarrow> (\<lparr>rr_pub = '''', rr_backup = backup, rr_err = Some e\<rparr>, w1)
                      | (None, w1) \<Rightarrow>
                          (\<lparr>rr_pub = b64_encode pub, rr_backup = backup, rr_err = None\<rparr>,
                           snd (write_file (p @ ''.pub'') (b64_encode pub) w1))))
      in case read_file w p of
           Inl _ \<Rightarrow> finish '''' w
         | Inr d \<Rightarrow>
             (case write_file bak d w of
                (Some e, w1) \<Rightarrow> (\<lparr>rr_pub = '''', rr_backup = '''', rr_err = Some e\<rparr>, w1)
              | (None, w1) \<Rightarrow>
                  (case read_file w1 (p @ ''.pub'') of
                     Inl _ \<Rightarrow> finish bak w1
                   | Inr old \<Rightarrow> finish bak (snd (write_file (bak @ ''.pub'') old w1)))))"

section \<open>Facts\<close>

lemma first_some_append:
  "first_some f (xs @ ys) = (case first_some f xs of Some y \<Rightarrow> Some y | None \<Rightarrow> first_some f ys)"
  by (induction xs) (auto split: option.splits)

lemma first_some_None: "first_some f xs = None \<longleftrightarrow> (\<forall>x \<in> set xs. f x = None)"
  by (induction xs) (auto split: option.splits)

lemma first_some_cong: "map f xs = map g xs \<Longrightarrow> first_some f xs = first_some g xs"
  by (induction xs) (auto split: option.splits)

lemma fields_head:
  assumes "l \<noteq> ''''" "\<not> is_space (hd l)"
  shows "\<exists>f fs. go_fields l = (hd l # f) # fs"
proof -
  obtain c t where ct: "l = c # t" using assms(1) by (cases l) auto
  with assms(2) show ?thesis
    by (cases "split_by is_space t") (auto simp: go_fields_def fields_func_def)
qed

lemma key_line_iff:
  "key_line pub line = Some tags \<longleftrightarrow> go_fields line = pub # tags \<and> \<not> has_prefix ''#'' pub"
proof -
  define l where "l = trim_space line"
  have fl: "go_fields l = go_fields line" by (simp add: l_def)
  have kl: "key_line pub line =
      (if l = '''' \<or> has_prefix ''#'' l then None
       else (case go_fields l of [] \<Rightarrow> None | f # tags \<Rightarrow> if f = pub then Some tags else None))"
    by (simp add: key_line_def l_def Let_def)
  show ?thesis
  proof (cases "l = ''''")
    case True
    with fl have "go_fields line = []" by simp
    with True kl show ?thesis by simp
  next
    case False
    then have "\<not> is_space (hd l)" using trim_space_ends[of line] by (simp add: l_def)
    with False obtain f fs where f: "go_fields l = (hd l # f) # fs" using fields_head by blast
    have "has_prefix ''#'' l \<longleftrightarrow> hd l = CHR ''#''" using False by (cases l) auto
    with False kl f have kl2: "key_line pub line =
        (if hd l = CHR ''#'' then None else if hd l # f = pub then Some fs else None)" by simp
    have "go_fields line = (hd l # f) # fs" using fl f by simp
    moreover define c where "c = hd l"
    ultimately show ?thesis unfolding kl2 c_def[symmetric]
      by (cases "pub = c # f"; cases "c = CHR ''#''") simp_all
  qed
qed

lemma KeyName_unknown: "\<not> IsAuthorizedKey w home pub \<Longrightarrow> KeyName w home pub = ''''"
  by (auto simp: IsAuthorizedKey_def KeyCapabilities_def KeyName_def Let_def split: if_splits option.splits)

lemma KeyPolicy_unknown: "\<not> IsAuthorizedKey w home pub \<Longrightarrow> KeyPolicy w home pub = ('''', False)"
  by (auto simp: IsAuthorizedKey_def KeyCapabilities_def KeyPolicy_def Let_def split: if_splits option.splits)

lemma capAllowed_nil [simp]: "capAllowed None c"
  by (simp add: capAllowed_def)

end
