(* ===== verification/ConfigWrite.thy ===== *)
theory ConfigWrite
  imports Identity
begin

text \<open>
  \<^verbatim>\<open>internal/server/configwrite.go\<close>: authorizing and revoking keys, and the two keyed
  line files (\<open>config\<close>: name=ip, \<open>node_keys\<close>: name key) that share \<open>upsertKeyed\<close>.  The
  locale \<open>keyed_lines\<close> states what a reader of such a file and the writer's key function
  owe each other; it is interpreted for both files.
\<close>

section \<open>Operations\<close>

datatype cfg_error = EmptyPubkey | EmptyName | CfgIo io_err

definition authorizedKeysPath :: "string \<Rightarrow> path" where
  "authorizedKeysPath home = join_path [vsshConfigDir home, ''authorized_keys'']"

definition auth_line :: "string \<Rightarrow> string \<Rightarrow> string \<Rightarrow> string" where
  "auth_line pub cs comment =
     pub @ (if trim_space cs = '''' then '''' else '' caps='' @ trim_space cs)
         @ (if trim_space comment = '''' then '''' else '' '' @ trim_space comment)"

definition AuthorizeKey ::
  "string \<Rightarrow> string \<Rightarrow> string \<Rightarrow> string \<Rightarrow> fs \<Rightarrow> cfg_error option \<times> fs" where
  "AuthorizeKey home pub cs comment w =
     (let pub = trim_space pub in
      if pub = '''' then (Some EmptyPubkey, w)
      else if snd (KeyCapabilities w home pub) then (None, w)
      else (case append_file (authorizedKeysPath home) (auth_line pub cs comment @ [NL]) w of
              (Some e, w1) \<Rightarrow> (Some (CfgIo e), w1) | (None, w1) \<Rightarrow> (None, w1)))"

definition line_of_key :: "string \<Rightarrow> string \<Rightarrow> bool" where
  "line_of_key pub line = (case go_fields line of [] \<Rightarrow> False | f # _ \<Rightarrow> f = pub)"

definition RevokeKey :: "string \<Rightarrow> string \<Rightarrow> fs \<Rightarrow> (bool \<times> io_err option) \<times> fs" where
  "RevokeKey home pub w =
     (let pub = trim_space pub; p = authorizedKeysPath home in
      case read_file w p of
        Inl ENotExist \<Rightarrow> ((False, None), w)
      | Inl e \<Rightarrow> ((False, Some e), w)
      | Inr d \<Rightarrow>
          let lines = split_on NL d; kept = filter (\<lambda>l. \<not> line_of_key pub l) lines in
          if \<not> list_ex (line_of_key pub) lines then ((False, None), w)
          else let w1 = snd (write_file (p @ ''.bak'') d w);
                   r = write_file p (join [NL] kept) w1
               in ((True, fst r), snd r))"

fun upsert_lines :: "(string \<Rightarrow> string) \<Rightarrow> string \<Rightarrow> string \<Rightarrow> bool \<Rightarrow> string list \<Rightarrow> string list" where
  "upsert_lines keyOf key newline replaced [] = (if replaced then [] else [newline])"
| "upsert_lines keyOf key newline replaced (l # ls) =
     (if keyOf l = key
      then (if replaced then upsert_lines keyOf key newline True ls
            else newline # upsert_lines keyOf key newline True ls)
      else l # upsert_lines keyOf key newline replaced ls)"

definition upsertKeyed ::
  "path \<Rightarrow> string \<Rightarrow> string \<Rightarrow> (string \<Rightarrow> string) \<Rightarrow> fs \<Rightarrow> io_err option \<times> fs" where
  "upsertKeyed p key newline keyOf w =
     (let old = (case read_file w p of Inl _ \<Rightarrow> [] | Inr d \<Rightarrow> split_on NL d)
      in write_file p (join [NL] (upsert_lines keyOf key newline False old)) w)"

definition config_key_of :: "string \<Rightarrow> string" where
  "config_key_of line = (case cut (CHR ''='') line of None \<Rightarrow> '''' | Some (k, _) \<Rightarrow> trim_space (to_lower k))"

definition SetNodeConfig :: "string \<Rightarrow> string \<Rightarrow> string \<Rightarrow> fs \<Rightarrow> cfg_error option \<times> fs" where
  "SetNodeConfig home name ip w =
     (let name = trim_space (to_lower name) in
      if name = '''' then (Some EmptyName, w)
      else (case upsertKeyed (join_path [vsshConfigDir home, ''config'']) name
                   (name @ ''='' @ trim_space ip) config_key_of w of
              (e, w1) \<Rightarrow> (map_option CfgIo e, w1)))"

definition pin_key_of :: "string \<Rightarrow> string" where
  "pin_key_of line = (case go_fields line of [] \<Rightarrow> '''' | f # _ \<Rightarrow> to_lower f)"

definition PinNode :: "string \<Rightarrow> string \<Rightarrow> string \<Rightarrow> fs \<Rightarrow> cfg_error option \<times> fs" where
  "PinNode home name pub w =
     (let name = trim_space (to_lower name) in
      if name = '''' then (Some EmptyName, w)
      else (case upsertKeyed (join_path [vsshConfigDir home, ''node_keys'']) name
                   (name @ '' '' @ trim_space pub) pin_key_of w of
              (e, w1) \<Rightarrow> (map_option CfgIo e, w1)))"

section \<open>Keyed line files\<close>

lemma split_lines_no_nl: "\<forall>l \<in> set (split_on NL d). NL \<notin> set l"
  using split_by_clean[of _ "\<lambda>x. x = NL" d NL] by blast


locale keyed_lines =
  fixes keyOf :: "string \<Rightarrow> string"
    and readLine :: "string \<Rightarrow> string \<Rightarrow> string option"
  assumes reads_own: "readLine k line = Some v \<Longrightarrow> keyOf line = k"
begin

text \<open>The new line is what a reader of its key finds, whatever the file held.\<close>
lemma upsert_found:
  assumes "readLine k new = Some v"
  shows "first_some (readLine k) (upsert_lines keyOf k new False ls) = Some v"
proof (induction ls)
  case (Cons l ls)
  have "readLine k l = None" if "keyOf l \<noteq> k"
    using that reads_own by (cases "readLine k l") auto
  with Cons assms show ?case by auto
qed (simp add: assms)

lemma upsert_other_gen:
  assumes "keyOf new = k" "k' \<noteq> k"
  shows "first_some (readLine k') (upsert_lines keyOf k new r ls) = first_some (readLine k') ls"
proof -
  have n: "readLine k' l = None" if "keyOf l = k" for l
    using that assms(2) reads_own[of k' l] by (cases "readLine k' l") auto
  show ?thesis using n[OF assms(1)]
    by (induction ls arbitrary: r) (auto simp: n split: option.splits)
qed

text \<open>No other key is affected.\<close>
lemmas upsert_other = upsert_other_gen[where r = False]

text \<open>At most one line of the key remains.\<close>
lemma upsert_single:
  assumes "keyOf new = k"
  shows "length (filter (\<lambda>l. keyOf l = k) (upsert_lines keyOf k new False ls)) = 1"
proof -
  have r: "filter (\<lambda>l. keyOf l = k) (upsert_lines keyOf k new True ls) = []" for ls
    by (induction ls) auto
  show ?thesis using assms r by (induction ls) auto
qed

lemma upsert_no_nl:
  "NL \<notin> set new \<Longrightarrow> \<forall>l \<in> set ls. NL \<notin> set l \<Longrightarrow>
    \<forall>l \<in> set (upsert_lines keyOf k new r ls). NL \<notin> set l"
  by (induction ls arbitrary: r) auto

lemma upsert_nonempty: "upsert_lines keyOf k new False ls \<noteq> []"
  by (cases ls) auto

lemma upsert_split:
  assumes "NL \<notin> set new"
  shows "split_on NL (join [NL] (upsert_lines keyOf k new False (split_on NL d))) =
    upsert_lines keyOf k new False (split_on NL d)"
  using upsert_no_nl[OF assms split_lines_no_nl] upsert_nonempty by (intro split_on_join) auto

lemma upsertKeyed_text:
  assumes "fs_wrerr w p = None" "NL \<notin> set new"
  shows "\<exists>d. upsertKeyed p k new keyOf w = (None, put_file p d w) \<and>
    split_on NL d = upsert_lines keyOf k new False
      (case read_file w p of Inl _ \<Rightarrow> [] | Inr d \<Rightarrow> split_on NL d)"
proof -
  have new1: "split_on NL new = [new]" using assms(2) by (intro split_by_none) auto
  show ?thesis
    using assms(1) upsert_split[OF assms(2)] new1
    by (intro exI[where x = "join [NL] (upsert_lines keyOf k new False
          (case read_file w p of Inl _ \<Rightarrow> [] | Inr d \<Rightarrow> split_on NL d))"])
      (simp add: upsertKeyed_def fs_simps split: sum.split)
qed

text \<open>A write to a key file is found by the file's reader.\<close>
lemma upsertKeyed_found:
  assumes "fs_wrerr w p = None" "fs_rderr w p = None" "NL \<notin> set new" "readLine k new = Some v"
  shows "scan_files (readLine k) (snd (upsertKeyed p k new keyOf w)) (p # ps) = Some v"
proof -
  obtain d where d: "upsertKeyed p k new keyOf w = (None, put_file p d w)"
    "split_on NL d = upsert_lines keyOf k new False
      (case read_file w p of Inl _ \<Rightarrow> [] | Inr d \<Rightarrow> split_on NL d)"
    using upsertKeyed_text[OF assms(1,3)] by blast
  show ?thesis using assms(2) by (simp add: scan_files_def d fs_simps upsert_found[OF assms(4)])
qed

text \<open>It leaves what the reader finds for every other key as it was, in every list of files.\<close>
lemma upsertKeyed_other:
  assumes "fs_wrerr w p = None" "NL \<notin> set new" "keyOf new = k" "k' \<noteq> k"
  shows "scan_files (readLine k') (snd (upsertKeyed p k new keyOf w)) ps = scan_files (readLine k') w ps"
proof -
  obtain d where d: "upsertKeyed p k new keyOf w = (None, put_file p d w)"
    "split_on NL d = upsert_lines keyOf k new False
      (case read_file w p of Inl _ \<Rightarrow> [] | Inr d \<Rightarrow> split_on NL d)"
    using upsertKeyed_text[OF assms(1,2)] by blast
  have none: "readLine k' new = None" using reads_own[of k' new] assms(3,4) by (cases "readLine k' new") auto
  have "(case read_file (put_file p d w) q of Inl _ \<Rightarrow> None | Inr d \<Rightarrow> first_some (readLine k') (split_on NL d)) =
      (case read_file w q of Inl _ \<Rightarrow> None | Inr d \<Rightarrow> first_some (readLine k') (split_on NL d))" for q
    using d(2) none upsert_other[OF assms(3,4)]
    by (cases "q = p"; cases "fs_rderr w q"; cases "file_text w q") (simp_all add: fs_simps read_file_text)
  then show ?thesis by (simp add: scan_files_def d(1))
qed

end

lemma config_reads_own: "config_line k line = Some v \<Longrightarrow> config_key_of line = k"
proof -
  assume a: "config_line k line = Some v"
  obtain u t where d: "line = u @ trim_space line @ t" "list_all is_space u"
    using trim_space_decomp by blast
  from a obtain x y where c: "cut (CHR ''='') (trim_space line) = Some (x, y)"
    and k: "trim_space (to_lower x) = k"
    by (auto simp: config_line_def Let_def split: if_splits option.splits)
  from cut_Some[OF c] have tl: "trim_space line = x @ CHR ''='' # y" "CHR ''='' \<notin> set x" by auto
  have nu: "CHR ''='' \<notin> set u"
  proof
    assume "CHR ''='' \<in> set u"
    with d(2) have "is_space CHR ''=''" by (auto simp: list_all_iff)
    then show False by (simp add: is_space_def)
  qed
  have "line = (u @ x) @ CHR ''='' # (y @ t)" using d(1) tl(1) by simp
  then have "cut (CHR ''='') line = Some (u @ x, y @ t)"
    using nu tl(2) cut_append[of "CHR ''=''" "u @ x" "y @ t"] by simp
  then show ?thesis
    using d(2) k by (simp add: config_key_of_def trim_space_append_left)
qed

lemma node_key_reads_own: "node_key_line k line = Some v \<Longrightarrow> pin_key_of line = k"
  by (auto simp: node_key_line_def pin_key_of_def split: list.splits if_splits)

interpretation node_config: keyed_lines config_key_of config_line
  by unfold_locales (rule config_reads_own)

interpretation node_pins: keyed_lines pin_key_of node_key_line
  by unfold_locales (rule node_key_reads_own)

section \<open>Properties\<close>

lemma PinNode_line:
  "is_word (to_lower name) \<Longrightarrow> is_word pub \<Longrightarrow>
    node_key_line (to_lower name) (to_lower name @ '' '' @ pub) = Some pub \<and>
    pin_key_of (to_lower name @ '' '' @ pub) = to_lower name \<and>
    NL \<notin> set (to_lower name @ '' '' @ pub)"
  using fields_word_sep[of "to_lower name" SP pub] fields_word[of pub]
  by (auto simp: is_word_def node_key_line_def pin_key_of_def is_space_def)

text \<open>after \<open>PinNode\<close> the registry answers the pinned key for the node, under any
  spelling of its case, and every other node's key is what it was.\<close>
theorem PinNode_then_NodeKey:
  assumes "is_word name" "is_word pub"
    and "fs_wrerr w (join_path [vsshConfigDir home, ''node_keys'']) = None"
    and "fs_rderr w (join_path [vsshConfigDir home, ''node_keys'']) = None"
  shows "fst (PinNode home name pub w) = None \<and>
    NodeKey (snd (PinNode home name pub w)) home name = pub \<and>
    (\<forall>other. trim_space (to_lower other) \<noteq> to_lower name \<longrightarrow>
       NodeKey (snd (PinNode home name pub w)) home other = NodeKey w home other)"
proof -
  let ?p = "join_path [vsshConfigDir home, ''node_keys'']"
  let ?n = "to_lower name" and ?l = "to_lower name @ '' '' @ pub"
  have wn: "is_word ?n" using assms(1) by (rule is_word_lower)
  then have n: "trim_space ?n = ?n" "?n \<noteq> ''''" by (auto simp: is_word_trim is_word_def)
  have pub: "trim_space pub = pub" using assms(2) by (rule is_word_trim)
  note L = PinNode_line[OF wn assms(2), THEN conjunct1] PinNode_line[OF wn assms(2), THEN conjunct2, THEN conjunct1]
    PinNode_line[OF wn assms(2), THEN conjunct2, THEN conjunct2]
  have e: "PinNode home name pub w =
      (map_option CfgIo (fst (upsertKeyed ?p ?n ?l pin_key_of w)), snd (upsertKeyed ?p ?n ?l pin_key_of w))"
    using n pub by (simp add: PinNode_def Let_def split: prod.split)
  show ?thesis
    using n node_pins.upsertKeyed_text[OF assms(3) L(3), of ?n]
      node_pins.upsertKeyed_found[OF assms(3,4) L(3,1)]
      node_pins.upsertKeyed_other[OF assms(3) L(3,2)]
    by (auto simp: e NodeKey_def Let_def)
qed

lemma PinNode_witness:
  "NodeKey (snd (PinNode ''/root'' ''Web1'' ''AbC='' empty_fs)) ''/root'' ''Web1'' = ''AbC=''"
  using PinNode_then_NodeKey[of "''Web1''" "''AbC=''" empty_fs "''/root''"]
  by (simp add: fs_simps is_word_def is_space_def)

lemma SetNodeConfig_line:
  assumes "is_word n" "to_lower n = n" "CHR ''='' \<notin> set n" "\<not> has_prefix ''#'' n" "is_word ip"
  shows "config_line n (n @ ''='' @ ip) = Some ip \<and> config_key_of (n @ ''='' @ ip) = n \<and>
    NL \<notin> set (n @ ''='' @ ip)"
proof -
  have "is_word (n @ ''='' @ ip)" using assms(1,5) by (auto simp: is_word_def is_space_def)
  then have t: "trim_space (n @ ''='' @ ip) = n @ ''='' @ ip" and nl: "NL \<notin> set (n @ ''='' @ ip)"
    by (rule is_word_trim, rule is_word_no_nl)
  have c: "cut (CHR ''='') (n @ ''='' @ ip) = Some (n, ip)" using cut_append[OF assms(3)] by simp
  have h: "\<not> has_prefix ''#'' (n @ ''='' @ ip)"
    using assms(1,4) by (cases n) (auto simp: is_word_def)
  show ?thesis
    using c nl h assms(2) is_word_trim[OF assms(1)] is_word_trim[OF assms(5)]
    unfolding config_line_def config_key_of_def t Let_def by simp
qed

text \<open>after \<open>SetNodeConfig\<close> the configured address of the node is the new one, and every
  other node's address is what it was.\<close>
theorem SetNodeConfig_then_ConfigNodeIP:
  assumes "is_word name" "CHR ''='' \<notin> set name" "\<not> has_prefix ''#'' name" "is_word ip"
    and "fs_wrerr w (join_path [vsshConfigDir home, ''config'']) = None"
    and "fs_rderr w (join_path [vsshConfigDir home, ''config'']) = None"
  shows "fst (SetNodeConfig home name ip w) = None \<and>
    ConfigNodeIP (snd (SetNodeConfig home name ip w)) home name = ip \<and>
    (\<forall>other. trim_space (to_lower other) \<noteq> to_lower name \<longrightarrow>
       ConfigNodeIP (snd (SetNodeConfig home name ip w)) home other = ConfigNodeIP w home other)"
proof -
  let ?p = "join_path [vsshConfigDir home, ''config'']"
  let ?n = "to_lower name" and ?l = "to_lower name @ ''='' @ ip"
  have wn: "is_word ?n" using assms(1) by (rule is_word_lower)
  then have n: "trim_space ?n = ?n" "?n \<noteq> ''''" by (auto simp: is_word_trim is_word_def)
  have "\<not> is_lower CHR ''=''" "\<not> is_lower CHR ''#''" by (simp_all add: is_lower_def)
  then have eq: "CHR ''='' \<notin> set ?n" "\<not> has_prefix ''#'' ?n"
    using assms(2,3) lower_mem has_prefix_lower by blast+
  have ip: "trim_space ip = ip" using assms(4) by (rule is_word_trim)
  note L = SetNodeConfig_line[OF wn to_lower_idem eq assms(4)]
  have e: "SetNodeConfig home name ip w =
      (map_option CfgIo (fst (upsertKeyed ?p ?n ?l config_key_of w)), snd (upsertKeyed ?p ?n ?l config_key_of w))"
    using n ip by (simp add: SetNodeConfig_def Let_def split: prod.split)
  show ?thesis
    using n L node_config.upsertKeyed_text[OF assms(5), of ?l ?n]
      node_config.upsertKeyed_found[OF assms(5,6), of ?l ?n ip]
      node_config.upsertKeyed_other[OF assms(5), of ?l ?n]
    by (auto simp: e ConfigNodeIP_def Let_def)
qed

lemma SetNodeConfig_witness:
  "ConfigNodeIP (snd (SetNodeConfig ''/root'' ''D2'' ''10.0.0.2'' empty_fs)) ''/root'' ''D2'' = ''10.0.0.2''"
  using SetNodeConfig_then_ConfigNodeIP[of "''D2''" "''10.0.0.2''" empty_fs "''/root''"]
  by (simp add: fs_simps is_word_def is_space_def)

section \<open>Authorizing and revoking\<close>

text \<open>The last line of a text, where an append lands.\<close>
definition last_line :: "string \<Rightarrow> string" where
  "last_line d = last (split_on NL d)"

lemma split_append_last:
  "split_on NL (d @ t) = butlast (split_on NL d) @ (last_line d @ hd (split_on NL t)) # tl (split_on NL t)"
  by (simp add: last_line_def split_by_append)

lemma split_line_nl: "NL \<notin> set l \<Longrightarrow> split_on NL (l @ [NL]) = [l, []]"
  using split_by_append_sep[of l "\<lambda>x. x = NL" NL "[]"] by auto

lemma key_line_Nil [simp]: "key_line pub [] = None"
  by (simp add: key_line_def)

lemma first_some_last: "xs \<noteq> [] \<Longrightarrow>
    first_some f xs = (case first_some f (butlast xs) of Some y \<Rightarrow> Some y | None \<Rightarrow> f (last xs))"
  using first_some_append[of f "butlast xs" "[last xs]"]
  by (cases "first_some f (butlast xs)"; cases "f (last xs)") simp_all

text \<open>What a lookup in a file finds after a line is appended.\<close>
lemma key_append:
  assumes "NL \<notin> set l"
  shows "first_some (key_line k) (split_on NL (d @ l @ [NL])) =
    (case first_some (key_line k) (butlast (split_on NL d)) of
       Some y \<Rightarrow> Some y | None \<Rightarrow> key_line k (last_line d @ l))"
  using split_line_nl[OF assms]
  by (simp add: split_append_last first_some_append split: option.split)

lemma auth_line_fields:
  assumes "is_word pub"
  shows "go_fields (auth_line pub cs comment) =
    pub # (if trim_space cs = '''' then [] else go_fields (''caps='' @ trim_space cs)) @ go_fields comment"
proof -
  have sp: "is_space SP" by (simp add: is_space_def)
  have w: "go_fields (pub @ SP # s) = pub # go_fields s" for s
    using assms sp by (simp add: is_word_def fields_word_sep)
  have c0: "go_fields comment = []" if "trim_space comment = ''''"
    using that fields_trim_space[of comment] by simp
  have "go_fields (''caps='' @ trim_space cs @ SP # s) = go_fields (''caps='' @ trim_space cs) @ go_fields s" for s
    using fields_append_space[OF sp, of "''caps='' @ trim_space cs" s] by simp
  then show ?thesis
    using w[of "''caps='' @ trim_space cs"] w[of "''caps='' @ trim_space cs @ SP # trim_space comment"]
      w[of "trim_space comment"] is_word_fields[OF assms] c0
    by (simp add: auth_line_def)
qed

text \<open>The fields that follow the key on the line \<open>AuthorizeKey\<close> writes.\<close>
definition auth_tags :: "string \<Rightarrow> string \<Rightarrow> string list" where
  "auth_tags cs comment =
     (if trim_space cs = '''' then [] else go_fields (''caps='' @ trim_space cs)) @ go_fields comment"

lemma key_line_auth:
  assumes "is_word pub" "\<not> has_prefix ''#'' pub"
  shows "key_line k (auth_line pub cs comment) = (if k = pub then Some (auth_tags cs comment) else None)"
  using key_line_iff[of k "auth_line pub cs comment"] assms
  by (cases "key_line k (auth_line pub cs comment)")
    (auto simp: auth_line_fields auth_tags_def)

lemma trim_no_nl: "NL \<notin> set s \<Longrightarrow> NL \<notin> set (trim_space s)"
  using trim_space_set by blast

lemma auth_line_no_nl:
  "is_word pub \<Longrightarrow> NL \<notin> set cs \<Longrightarrow> NL \<notin> set comment \<Longrightarrow> NL \<notin> set (auth_line pub cs comment)"
  by (auto simp: auth_line_def dest: is_word_no_nl trim_no_nl)

text \<open>The world after a successful append to the key file.\<close>
lemma AuthorizeKey_step:
  assumes "is_word pub" "\<not> IsAuthorizedKey w home pub" "fs_wrerr w (authorizedKeysPath home) = None"
  shows "AuthorizeKey home pub cs comment w =
    (None, put_file (authorizedKeysPath home)
       ((case file_text w (authorizedKeysPath home) of None \<Rightarrow> [] | Some d \<Rightarrow> d)
         @ auth_line pub cs comment @ [NL]) w)"
  using assms is_word_trim[OF assms(1)]
  by (auto simp: AuthorizeKey_def Let_def IsAuthorizedKey_def is_word_def append_file_ok)

lemma scan_authorized_put:
  assumes "fs_rderr w (authorizedKeysPath home) = None"
  shows "scan_files f (put_file (authorizedKeysPath home) d w) (authorized_paths home) =
    (case first_some f (split_on NL d) of Some y \<Rightarrow> Some y
     | None \<Rightarrow> (if authorizedKeysPath home = ''/etc/vssh/authorized_keys'' then None
                else scan_files f w [''/etc/vssh/authorized_keys'']))"
  using assms
  by (auto simp: scan_files_def authorized_paths_def authorizedKeysPath_def fs_simps split: option.splits sum.splits)

lemma scan_authorized:
  "scan_files f w (authorized_paths home) =
    (case (case read_file w (authorizedKeysPath home) of Inl _ \<Rightarrow> None
           | Inr d \<Rightarrow> first_some f (split_on NL d)) of
       Some y \<Rightarrow> Some y | None \<Rightarrow> scan_files f w [''/etc/vssh/authorized_keys''])"
  by (simp add: scan_files_def authorized_paths_def authorizedKeysPath_def split: option.splits)

lemma authorized_iff:
  "is_word pub \<Longrightarrow> IsAuthorizedKey w home pub \<longleftrightarrow> scan_files (key_line pub) w (authorized_paths home) \<noteq> None"
  using is_word_trim[of pub]
  by (auto simp: IsAuthorizedKey_def KeyCapabilities_def Let_def is_word_def split: option.splits)

text \<open>authorizing a key that is not yet trusted, into a key file that is absent, empty or
  ends in a newline, makes it trusted with exactly the capabilities its new line spells.\<close>
theorem AuthorizeKey_grants:
  assumes "is_word pub" "\<not> has_prefix ''#'' pub" "NL \<notin> set cs" "NL \<notin> set comment"
    and "\<not> IsAuthorizedKey w home pub"
    and "fs_wrerr w (authorizedKeysPath home) = None" "fs_rderr w (authorizedKeysPath home) = None"
    and "case file_text w (authorizedKeysPath home) of None \<Rightarrow> True | Some d \<Rightarrow> last_line d = ''''"
  shows "fst (AuthorizeKey home pub cs comment w) = None \<and>
    KeyCapabilities (snd (AuthorizeKey home pub cs comment w)) home pub =
      (caps_of_tags (auth_tags cs comment), True)"
proof -
  let ?p = "authorizedKeysPath home"
  define d where "d = (case file_text w ?p of None \<Rightarrow> [] | Some d \<Rightarrow> d)"
  have ll: "last_line d = ''''" using assms(8) by (auto simp: d_def last_line_def split: option.splits)
  have none: "scan_files (key_line pub) w (authorized_paths home) = None"
    using assms(1,5) authorized_iff by blast
  have old: "first_some (key_line pub) (butlast (split_on NL d)) = None"
  proof (cases "file_text w ?p")
    case None
    then show ?thesis by (simp add: d_def)
  next
    case (Some t)
    then have "first_some (key_line pub) (split_on NL d) = None"
      using none assms(7) by (simp add: d_def scan_authorized read_file_text split: option.splits)
    then show ?thesis using first_some_last[of "split_on NL d" "key_line pub"] by (simp split: option.splits)
  qed
  have "first_some (key_line pub) (split_on NL (d @ auth_line pub cs comment @ [NL])) =
      Some (auth_tags cs comment)"
    using key_append[OF auth_line_no_nl[OF assms(1,3,4)], of pub d] old ll
      key_line_auth[OF assms(1,2), of pub] by simp
  then show ?thesis
    using is_word_trim[OF assms(1)] assms(1)
    by (simp add: AuthorizeKey_step[OF assms(1,5,6)] scan_authorized_put[OF assms(7)] d_def[symmetric] KeyCapabilities_def Let_def is_word_def)
qed

lemma AuthorizeKey_grants_witness:
  "KeyCapabilities (snd (AuthorizeKey ''/root'' ''AbC='' ''exec,file'' ''ops laptop'' empty_fs)) ''/root'' ''AbC=''
    = (Some [''exec'', ''file''], True)"
proof -
  have "snd (KeyCapabilities empty_fs ''/root'' ''AbC='') = False" by code_simp
  moreover have "caps_of_tags (auth_tags ''exec,file'' ''ops laptop'') = Some [''exec'', ''file'']" by code_simp
  ultimately show ?thesis
    using AuthorizeKey_grants[of "''AbC=''" "''exec,file''" "''ops laptop''" empty_fs "''/root''"]
    by (simp add: fs_simps is_word_def is_space_def IsAuthorizedKey_def)
qed

lemma fields_snoc_nonempty: "\<not> is_space b \<Longrightarrow> go_fields (a @ [b]) \<noteq> []"
  by (induction a) (auto simp: go_fields_def fields_func_def split: list.splits)

text \<open>The first field of a text grows, and keeps its place, when more text follows it.\<close>
lemma first_field_append:
  assumes "l \<noteq> ''''" "\<not> is_space (last l)" "go_fields l = f # fs"
  shows "\<exists>g gs. go_fields (l @ t) = (f @ g) # gs \<and> (fs \<noteq> [] \<longrightarrow> g = [])
     \<and> (fs = [] \<longrightarrow> g = takeWhile (\<lambda>x. \<not> is_space x) t)"
  using assms
proof (induction l arbitrary: f fs)
  case (Cons c l)
  show ?case
  proof (cases "is_space c")
    case True
    with Cons.prems have "l \<noteq> ''''" "\<not> is_space (last l)" "go_fields l = f # fs"
      by (auto split: if_splits)
    with Cons.IH True show ?thesis by simp
  next
    case False
    define w where "w = takeWhile (\<lambda>x. \<not> is_space x) (c # l)"
    define r where "r = dropWhile (\<lambda>x. \<not> is_space x) (c # l)"
    have cl: "c # l = w @ r" by (simp add: w_def r_def)
    have ww: "w \<noteq> []" "\<forall>x \<in> set w. \<not> is_space x" using False by (auto simp: w_def dest: set_takeWhileD)
    show ?thesis
    proof (cases r)
      case Nil
      with cl Cons.prems(3) ww have ff: "f = w" "fs = []" by (simp_all add: fields_word)
      define g where "g = takeWhile (\<lambda>x. \<not> is_space x) t"
      define r2 where "r2 = dropWhile (\<lambda>x. \<not> is_space x) t"
      have t: "t = g @ r2" by (simp add: g_def r2_def)
      have wg: "w @ g \<noteq> []" "\<forall>x \<in> set (w @ g). \<not> is_space x"
        using ww by (auto simp: g_def dest: set_takeWhileD)
      have "\<exists>gs. go_fields ((w @ g) @ r2) = (w @ g) # gs"
      proof (cases r2)
        case Nil
        then show ?thesis using fields_word[OF wg] by simp
      next
        case (Cons d r3)
        then have "is_space d" unfolding r2_def using hd_dropWhile[of "\<lambda>x. \<not> is_space x" t] by simp
        then show ?thesis using Cons fields_word_sep[OF wg] by simp
      qed
      then obtain gs where gs: "go_fields ((w @ g) @ r2) = (w @ g) # gs" by blast
      have "(c # l) @ t = (w @ g) @ r2" using Nil cl t by simp
      then have "go_fields ((c # l) @ t) = (f @ g) # gs" using gs ff(1) by (simp only:)
      then show ?thesis using ff(2) by (intro exI[of _ g] exI[of _ gs]) (simp add: g_def)
    next
      case (Cons d r')
      then have "is_space d" unfolding r_def using hd_dropWhile[of "\<lambda>x. \<not> is_space x" "c # l"] by simp
      with ww have e: "go_fields (w @ d # s) = w # go_fields s" for s by (rule fields_word_sep)
      have ff: "f = w" "fs = go_fields r'" using e[of r'] Cons.prems(3) cl Cons by simp_all
      have "fs \<noteq> []"
      proof
        assume "fs = []"
        have "last (d # r') = last (c # l)" using cl Cons by simp
        then have "\<not> is_space (last (d # r'))" using Cons.prems(2) by simp
        with \<open>is_space d\<close> have "r' \<noteq> []" "\<not> is_space (last r')" by (auto split: if_splits)
        then obtain a b where "r' = a @ [b]" "\<not> is_space b" by (metis append_butlast_last_id)
        moreover note fields_snoc_nonempty[of b a]
        ultimately show False using \<open>fs = []\<close> ff by auto
      qed
      with e[of "r' @ t"] cl Cons ff show ?thesis by simp
    qed
  qed
qed simp

lemma key_line_glued:
  assumes "is_word pub" "l \<noteq> ''''" "\<not> is_space (last l)" "key_line pub l = None" "\<not> has_prefix ''#'' pub"
  shows "key_line pub (l @ auth_line pub cs comment) = None"
proof (rule ccontr)
  let ?a = "auth_line pub cs comment"
  assume "key_line pub (l @ ?a) \<noteq> None"
  then obtain tags where t: "go_fields (l @ ?a) = pub # tags" using key_line_iff by (metis not_Some_eq)
  have "go_fields l \<noteq> []" using fields_snoc_nonempty[OF assms(3), of "butlast l"] assms(2) by simp
  then obtain f fs where f: "go_fields l = f # fs" by (cases "go_fields l") auto
  from first_field_append[OF assms(2,3) f, of ?a] t obtain g where
    g: "f @ g = pub" "fs \<noteq> [] \<longrightarrow> g = []" "fs = [] \<longrightarrow> g = takeWhile (\<lambda>x. \<not> is_space x) ?a"
    by auto
  show False
  proof (cases "fs = []")
    case True
    have "takeWhile (\<lambda>x. \<not> is_space x) ?a = pub @ takeWhile (\<lambda>x. \<not> is_space x) (drop (length pub) ?a)"
      using assms(1) takeWhile_append2[of pub "\<lambda>x. \<not> is_space x"] by (simp add: auth_line_def is_word_def)
    with True g(3) have "length pub \<le> length g" by simp
    moreover have "length f + length g = length pub" using arg_cong[OF g(1), of length] by simp
    ultimately have "length f = 0" by linarith
    then have "f = []" by simp
    with f show False using fields_clean[of "[]" l] by simp
  next
    case False
    with g f have "go_fields l = pub # fs" by simp
    with assms(4,5) key_line_iff show False by (metis option.distinct(1))
  qed
qed

text \<open>when the key file does not end in a newline, \<open>AuthorizeKey\<close> reports success but its
  line is glued to the last one, and the key stays untrusted.\<close>
theorem AuthorizeKey_glued:
  assumes "is_word pub" "\<not> has_prefix ''#'' pub" "NL \<notin> set cs" "NL \<notin> set comment"
    and "\<not> IsAuthorizedKey w home pub"
    and "fs_wrerr w (authorizedKeysPath home) = None" "fs_rderr w (authorizedKeysPath home) = None"
    and "file_text w (authorizedKeysPath home) = Some d" "last_line d \<noteq> ''''" "\<not> is_space (last (last_line d))"
  shows "fst (AuthorizeKey home pub cs comment w) = None \<and>
    \<not> IsAuthorizedKey (snd (AuthorizeKey home pub cs comment w)) home pub"
proof -
  let ?p = "authorizedKeysPath home"
  have none: "scan_files (key_line pub) w (authorized_paths home) = None"
    using assms(1,5) authorized_iff by blast
  then have d: "first_some (key_line pub) (split_on NL d) = None"
    and etc: "scan_files (key_line pub) w [''/etc/vssh/authorized_keys''] = None"
    using assms(7,8) by (simp_all add: scan_authorized read_file_text split: option.splits)
  have b: "first_some (key_line pub) (butlast (split_on NL d)) = None" "key_line pub (last_line d) = None"
    using d first_some_last[of "split_on NL d" "key_line pub"] by (auto simp: last_line_def split: option.splits)
  have "first_some (key_line pub) (split_on NL (d @ auth_line pub cs comment @ [NL])) = None"
    using key_append[OF auth_line_no_nl[OF assms(1,3,4)], of pub d] b
      key_line_glued[OF assms(1,9,10) b(2) assms(2)] by simp
  then show ?thesis
    using etc by (simp add: AuthorizeKey_step[OF assms(1,5,6)] assms(8) authorized_iff[OF assms(1)]
        scan_authorized_put[OF assms(7)])
qed

definition glue_fs :: fs where
  "glue_fs = put_file (authorizedKeysPath ''/root'') ''OLD='' empty_fs"

lemma AuthorizeKey_glued_witness:
  "\<not> IsAuthorizedKey (snd (AuthorizeKey ''/root'' ''AbC='' ''exec'' '''' glue_fs)) ''/root'' ''AbC=''"
proof -
  have "snd (KeyCapabilities glue_fs ''/root'' ''AbC='') = False" by code_simp
  moreover have "last_line ''OLD='' = ''OLD=''" by code_simp
  ultimately show ?thesis
    using AuthorizeKey_glued[of "''AbC=''" "''exec''" "''''" glue_fs "''/root''" "''OLD=''"]
    by (simp add: fs_simps glue_fs_def is_word_def is_space_def IsAuthorizedKey_def)
qed

lemma key_line_None: "key_line k l = None \<longleftrightarrow> (\<forall>tags. go_fields l = k # tags \<longrightarrow> has_prefix ''#'' k)"
  by (simp add: key_line_iff flip: not_Some_eq)

lemma first_some_kept:
  assumes "is_word pub"
  shows "first_some (key_line k) (filter (\<lambda>l. \<not> line_of_key pub l) ls) =
    (if k = pub then None else first_some (key_line k) ls)"
proof (induction ls)
  case (Cons l ls)
  have lk: "line_of_key pub l \<longleftrightarrow> (\<exists>tags. go_fields l = pub # tags)"
    by (auto simp: line_of_key_def split: list.splits)
  show ?case
  proof (cases "line_of_key pub l")
    case True
    then have "key_line k l = None" if "k \<noteq> pub"
      using that lk unfolding key_line_None by auto
    with True Cons show ?thesis by simp
  next
    case False
    then have "key_line pub l = None"
      using lk unfolding key_line_None by auto
    with False Cons show ?thesis by (cases "k = pub") (simp_all split: option.split)
  qed
qed simp

lemma is_word_nonempty: "is_word s \<Longrightarrow> s \<noteq> ''''"
  by (simp add: is_word_def)

lemma RevokeKey_caps:
  assumes "is_word pub" "is_word k"
    and "fst (RevokeKey home pub w) = (True, None)"
    and "authorizedKeysPath home \<noteq> ''/etc/vssh/authorized_keys''"
  shows "KeyCapabilities (snd (RevokeKey home pub w)) home k =
    (if k = pub
     then (case scan_files (key_line k) w [''/etc/vssh/authorized_keys''] of
             None \<Rightarrow> (None, False) | Some tags \<Rightarrow> (caps_of_tags tags, True))
     else KeyCapabilities w home k)"
proof -
  let ?p = "authorizedKeysPath home"
  have tp: "trim_space pub = pub" "trim_space k = k" using assms(1,2) by (simp_all add: is_word_trim)
  from assms(3) tp obtain d where rd: "read_file w ?p = Inr d"
    by (auto simp: RevokeKey_def Let_def split: sum.splits io_err.splits)
  define kept where "kept = filter (\<lambda>l. \<not> line_of_key pub l) (split_on NL d)"
  define w1 where "w1 = snd (write_file (?p @ ''.bak'') d w)"
  have ne: "?p @ ''.bak'' \<noteq> ''/etc/vssh/authorized_keys''" "?p @ ''.bak'' \<noteq> ?p"
    by (rule notI, drule arg_cong[where f = last], simp, simp)
  have w1: "fs_wrerr w1 ?p = fs_wrerr w ?p" "fs_rderr w1 = fs_rderr w"
    "\<And>q. q \<noteq> ?p @ ''.bak'' \<Longrightarrow> read_file w1 q = read_file w q"
    by (auto simp: w1_def write_file_def fs_simps split: option.splits)
  have wr: "fs_wrerr w ?p = None" and rev: "snd (RevokeKey home pub w) = put_file ?p (join [NL] kept) w1"
    using assms(3) rd tp w1(1)
    by (auto simp: RevokeKey_def Let_def kept_def w1_def write_file_def fs_simps split: if_splits option.splits)
  have rdp: "fs_rderr w ?p = None" using rd by (auto simp: read_file_text split: option.splits)
  have sp: "first_some (key_line k) (split_on NL (join [NL] kept)) = first_some (key_line k) kept"
  proof (cases "kept = []")
    case False
    then show ?thesis
      using split_lines_no_nl[of d] by (subst split_on_join) (auto simp: kept_def)
  qed simp
  note kk = first_some_kept[OF assms(1), of k "split_on NL d", folded kept_def]
  have etc: "scan_files f w1 [''/etc/vssh/authorized_keys''] = scan_files f w [''/etc/vssh/authorized_keys'']"
    for f :: "string \<Rightarrow> string list option"
    using w1(3)[OF ne(1)[symmetric]] by (simp add: scan_files_def split: sum.split option.split)
  have rdp1: "fs_rderr w1 ?p = None" using rdp w1(2) by simp
  have new: "scan_files (key_line k) (snd (RevokeKey home pub w)) (authorized_paths home) =
      (case (if k = pub then None else first_some (key_line k) (split_on NL d)) of Some y \<Rightarrow> Some y
       | None \<Rightarrow> scan_files (key_line k) w [''/etc/vssh/authorized_keys''])"
    using assms(4) by (simp only: rev scan_authorized_put[OF rdp1] sp kk etc if_False)
  have old: "scan_files (key_line k) w (authorized_paths home) =
      (case first_some (key_line k) (split_on NL d) of Some y \<Rightarrow> Some y
       | None \<Rightarrow> scan_files (key_line k) w [''/etc/vssh/authorized_keys''])"
    by (simp only: scan_authorized rd sum.case)
  show ?thesis
    using is_word_nonempty[OF assms(2)] unfolding KeyCapabilities_def Let_def tp new old by simp
qed

text \<open>\<open>RevokeKey\<close> takes the key out of the configuration directory's key file and leaves
  every other key as it was; the key stays trusted exactly when the system-wide file lists it.\<close>
theorem RevokeKey_effect:
  assumes "is_word pub" "is_word k"
    and "fst (RevokeKey home pub w) = (True, None)"
    and "authorizedKeysPath home \<noteq> ''/etc/vssh/authorized_keys''"
  shows "KeyCapabilities (snd (RevokeKey home pub w)) home k =
    (if k = pub
     then (case scan_files (key_line k) w [''/etc/vssh/authorized_keys''] of
             None \<Rightarrow> (None, False) | Some tags \<Rightarrow> (caps_of_tags tags, True))
     else KeyCapabilities w home k)"
  using assms by (rule RevokeKey_caps)

lemma RevokeKey_witness:
  "snd (KeyCapabilities (snd (RevokeKey ''/root'' ''OLD='' glue_fs)) ''/root'' ''OLD='') = False"
proof -
  have "fst (RevokeKey ''/root'' ''OLD='' glue_fs) = (True, None)" by code_simp
  moreover have "authorizedKeysPath ''/root'' \<noteq> ''/etc/vssh/authorized_keys''" by code_simp
  moreover have "scan_files (key_line ''OLD='') glue_fs [''/etc/vssh/authorized_keys''] = None" by code_simp
  ultimately show ?thesis
    using RevokeKey_effect[of "''OLD=''" "''OLD=''" "''/root''" glue_fs]
    by (simp add: is_word_def is_space_def)
qed

end
