(* ===== verification/KnownHosts.thy ===== *)
theory KnownHosts
  imports ConfigWrite GoJson
begin

text \<open>
  \<^verbatim>\<open>internal/server/tlsident.go\<close> and the dialling half of \<^verbatim>\<open>internal/server/transfer.go\<close>: the pins
  of daemon keys (\<^verbatim>\<open>known_hosts\<close>, trust on first use), the check of a daemon's certificate, the
  client's side of the VAUTH1 exchange, and \<open>dialAuth\<close> with its fallback from TLS to plaintext.
  The X.509 parser and the TLS handshake are outside: a server is described by what it shows.
\<close>

section \<open>The pins\<close>

definition knownHostsPath :: "string \<Rightarrow> path" where
  "knownHostsPath home = join_path [vsshConfigDir home, ''known_hosts'']"

definition raw_key :: "string \<Rightarrow> bool" where
  "raw_key k = (case b64_decode k of None \<Rightarrow> False | Some raw \<Rightarrow> length raw = 32)"

definition known_line :: "string \<Rightarrow> string \<Rightarrow> string option" where
  "known_line host line =
     (case go_fields (trim_space line) of
        h # k # _ \<Rightarrow> if h \<noteq> host \<or> has_prefix ''#'' h then None else if raw_key k then Some k else None
      | _ \<Rightarrow> None)"

definition KnownHostPub :: "string \<Rightarrow> fs \<Rightarrow> string \<Rightarrow> string" where
  "KnownHostPub home f host =
     (case read_file f (knownHostsPath home) of Inl _ \<Rightarrow> ''''
      | Inr d \<Rightarrow> (case first_some (known_line host) (split_on NL d) of None \<Rightarrow> '''' | Some k \<Rightarrow> k))"

text \<open>The error, None for nil.\<close>
definition RecordKnownHost :: "string \<Rightarrow> string \<Rightarrow> string \<Rightarrow> fs \<Rightarrow> string option \<times> fs" where
  "RecordKnownHost home host pub f =
     (if host = '''' \<or> pub = '''' then (Some ''empty host or key'', f)
      else if KnownHostPub home f host \<noteq> '''' then (None, f)
      else (case append_file (knownHostsPath home) (host @ '' '' @ pub @ [NL]) f of
          (Some (EIo er), _) \<Rightarrow> (Some er, f)
        | (Some ENotExist, _) \<Rightarrow> (Some ''no such file or directory'', f)
        | (None, f') \<Rightarrow> (None, f')))"

text \<open>The host field of a line, the key of the line store.\<close>
definition host_of :: "string \<Rightarrow> string" where
  "host_of line = (case go_fields (trim_space line) of [] \<Rightarrow> '''' | h # _ \<Rightarrow> h)"

interpretation host_pins: keyed_lines host_of known_line
  by unfold_locales (auto simp: known_line_def host_of_def split: list.splits if_splits)

lemma known_line_record:
  assumes "is_word host" "is_word k" "\<not> has_prefix ''#'' host" "raw_key k"
  shows "known_line host (host @ '' '' @ k) = Some k"
proof -
  have "go_fields (host @ SP # k) = [host, k]"
    using assms(1,2) fields_word_sep[of host SP k] by (simp add: is_word_def is_space_def is_word_fields[OF assms(2)])
  with assms(3,4) show ?thesis by (simp add: known_line_def)
qed

lemma known_line_other:
  assumes "is_word host" "is_word k" "h \<noteq> host"
  shows "known_line h (host @ '' '' @ k) = None"
proof -
  have "go_fields (host @ SP # k) = [host, k]"
    using assms(1,2) fields_word_sep[of host SP k] by (simp add: is_word_def is_space_def is_word_fields[OF assms(2)])
  then have "host_of (host @ '' '' @ k) = host" by (simp add: host_of_def)
  with host_pins.reads_own[of h "host @ '' '' @ k"] assms(3) show ?thesis by (cases "known_line h (host @ '' '' @ k)") auto
qed

text \<open>A pins file written line by line: nothing, or text that ends in a newline.\<close>
definition line_file :: "fs \<Rightarrow> path \<Rightarrow> bool" where
  "line_file f p = (case file_text f p of None \<Rightarrow> True | Some d \<Rightarrow> d = '''' \<or> last d = NL)"

definition good_pin :: "string \<times> string \<Rightarrow> bool" where
  "good_pin r = (is_word (fst r) \<and> is_word (snd r) \<and> \<not> has_prefix ''#'' (fst r) \<and> raw_key (snd r))"

definition usable :: "string \<Rightarrow> fs \<Rightarrow> bool" where
  "usable home f \<longleftrightarrow> fs_rderr f (knownHostsPath home) = None \<and> fs_wrerr f (knownHostsPath home) = None
     \<and> line_file f (knownHostsPath home)"

lemma scan_record:
  assumes "d = '''' \<or> last d = NL" "good_pin (host, k)"
  shows "first_some (known_line h) (split_on NL (d @ host @ '' '' @ k @ [NL])) =
    (case first_some (known_line h) (split_on NL d) of Some y \<Rightarrow> Some y
     | None \<Rightarrow> if h = host then Some k else None)"
proof -
  have w: "is_word host" "is_word k" "\<not> has_prefix ''#'' host" "raw_key k" using assms(2) by (simp_all add: good_pin_def)
  let ?l = "host @ '' '' @ k"
  have nl: "NL \<notin> set ?l" using is_word_no_nl[OF w(1)] is_word_no_nl[OF w(2)] by simp
  have e: "known_line h '''' = None" by (simp add: known_line_def)
  have l: "known_line h ?l = (if h = host then Some k else None)"
    using known_line_record[OF w] known_line_other[OF w(1,2)] by simp
  have sl: "split_on NL (?l @ [NL]) = [?l, '''']"
    using split_on_append_nl[of NL ?l] split_by_none[of ?l "\<lambda>c. c = NL"] nl by auto
  show ?thesis
  proof (cases "d = ''''")
    case True
    with sl l e show ?thesis by simp
  next
    case False
    then obtain d' where d: "d = d' @ [NL]" using assms(1) by (cases d rule: rev_cases) auto
    have "split_on NL (d @ ?l @ [NL]) = split_on NL d' @ [?l, '''']"
      using split_on_append_line[of NL d' "?l @ [NL]"] sl d by simp
    moreover have "split_on NL d = split_on NL d' @ ['''']" using d split_on_append_nl by simp
    ultimately show ?thesis using l e by (cases "h = host") (simp_all add: first_some_append split: option.split)
  qed
qed

lemma RecordKnownHost_effect:
  assumes "usable home f" "good_pin (host, k)"
  shows "fst (RecordKnownHost home host k f) = None \<and> usable home (snd (RecordKnownHost home host k f)) \<and>
    KnownHostPub home (snd (RecordKnownHost home host k f)) h =
      (if h = host \<and> KnownHostPub home f h = '''' then k else KnownHostPub home f h)"
proof (cases "KnownHostPub home f host = ''''")
  case False
  with assms show ?thesis by (auto simp: RecordKnownHost_def good_pin_def is_word_def raw_key_def)
next
  case True
  let ?p = "knownHostsPath home"
  define d where "d = (case file_text f ?p of None \<Rightarrow> '''' | Some x \<Rightarrow> x)"
  have ok: "fs_rderr f ?p = None" "fs_wrerr f ?p = None" "d = '''' \<or> last d = NL"
    using assms(1) by (auto simp: usable_def line_file_def d_def split: option.splits)
  have ne: "host \<noteq> ''''" "k \<noteq> ''''" using assms(2) by (auto simp: good_pin_def is_word_def)
  have r: "RecordKnownHost home host k f = (None, put_file ?p (d @ host @ '' '' @ k @ [NL]) f)"
    using True ne append_file_ok[OF ok(2)] by (simp add: RecordKnownHost_def d_def)
  have e: "first_some (known_line h) (split_on NL '''') = None" for h by (simp add: known_line_def)
  have K: "KnownHostPub home f h = (case first_some (known_line h) (split_on NL d) of None \<Rightarrow> '''' | Some k \<Rightarrow> k)" for h
    using ok(1) e[of h] by (auto simp: KnownHostPub_def read_file_text d_def split: option.split)
  have nz: "first_some (known_line h) ls = Some y \<Longrightarrow> y \<noteq> ''''" for h ls y
  proof (induction ls)
    case (Cons l ls)
    then show ?case
      using fields_clean[of "''''" "trim_space l"]
      by (auto simp: known_line_def split: option.splits list.splits if_splits)
  qed simp
  have "KnownHostPub home (put_file ?p (d @ host @ '' '' @ k @ [NL]) f) h =
      (if h = host \<and> KnownHostPub home f h = '''' then k else KnownHostPub home f h)"
    using ok scan_record[OF ok(3) assms(2), of h] nz[of h "split_on NL d"]
    by (auto simp: KnownHostPub_def[of _ "put_file _ _ _"] K fs_simps split: option.splits)
  with r ok show ?thesis by (auto simp: usable_def line_file_def fs_simps)
qed

text \<open>Any number of first contacts, in any order.\<close>
definition record_all :: "string \<Rightarrow> (string \<times> string) list \<Rightarrow> fs \<Rightarrow> fs" where
  "record_all home rs f = fold (\<lambda>(h, k) f. snd (RecordKnownHost home h k f)) rs f"

lemma record_all_keeps:
  "usable home f \<Longrightarrow> list_all good_pin rs \<Longrightarrow> KnownHostPub home f h \<noteq> '''' \<Longrightarrow>
    usable home (record_all home rs f) \<and> KnownHostPub home (record_all home rs f) h = KnownHostPub home f h"
proof (induction rs arbitrary: f)
  case Nil
  then show ?case by (simp add: record_all_def)
next
  case (Cons r rs)
  obtain host k where r: "r = (host, k)" by (cases r)
  note E = RecordKnownHost_effect[OF Cons.prems(1), of host k h]
  show ?case using Cons.IH[of "snd (RecordKnownHost home host k f)"] Cons.prems E r by (simp add: record_all_def)
qed

text \<open>trust on first use: the first contact with an unknown host pins the key it showed, and no
  later contact, with this or any other host and whatever key it shows, changes the pin.\<close>
theorem tofu_pin_is_stable:
  assumes "usable home f" "good_pin (host, k)" "KnownHostPub home f host = ''''" "list_all good_pin later"
  shows "KnownHostPub home (record_all home ((host, k) # later) f) host = k"
proof -
  note E = RecordKnownHost_effect[OF assms(1,2), of host]
  have "k \<noteq> ''''" using assms(2) by (auto simp: good_pin_def is_word_def)
  then show ?thesis
    using record_all_keeps[of home "snd (RecordKnownHost home host k f)" later host] E assms(3,4)
    by (simp add: record_all_def)
qed

lemma demo_pin: "good_pin (''h1'', b64_encode (replicate 32 CHR ''a''))" "good_pin (''h1'', b64_encode (replicate 32 CHR ''b''))"
proof -
  have "is_word (b64_encode (replicate 32 c))" for c
    using b64_encode_clean by (auto simp: is_word_def)
  then show "good_pin (''h1'', b64_encode (replicate 32 CHR ''a''))" "good_pin (''h1'', b64_encode (replicate 32 CHR ''b''))"
    by (simp_all add: good_pin_def raw_key_def is_word_def is_space_def)
qed

lemma tofu_witness:
  "KnownHostPub ''/root'' (record_all ''/root'' [(''h1'', b64_encode (replicate 32 CHR ''a'')),
     (''h1'', b64_encode (replicate 32 CHR ''b''))] empty_fs) ''h1'' = b64_encode (replicate 32 CHR ''a'')"
proof -
  have u: "usable ''/root'' empty_fs" by (simp add: usable_def line_file_def fs_simps)
  have n: "KnownHostPub ''/root'' empty_fs ''h1'' = ''''"
    by (simp add: KnownHostPub_def read_file_text fs_simps)
  show ?thesis by (rule tofu_pin_is_stable[OF u demo_pin(1) n]) (simp add: demo_pin)
qed

section \<open>Dialling\<close>

definition envEnabled :: "string \<Rightarrow> bool" where
  "envEnabled value =
     (let v = trim_space value in v = ''1'' \<or> equal_fold v ''true'' \<or> equal_fold v ''yes'')"

text \<open>What a server shows as its first certificate, and how it answers a ClientHello: not with TLS
  (the error the client then has), or with a handshake, resumed or full.\<close>
datatype cert = NoCert | BadCert string | OtherKey | EdKey bytes
datatype tls_answer = NotTls string | TlsServer bool cert

definition PeerPubB64 :: "cert \<Rightarrow> string" where
  "PeerPubB64 c = (case c of EdKey raw \<Rightarrow> b64_encode raw | _ \<Rightarrow> '''')"

text \<open>The callback of \<^verbatim>\<open>ClientTLSConfig\<close>; a resumed session does not call it.\<close>
definition verify_peer :: "string \<Rightarrow> cert \<Rightarrow> string option" where
  "verify_peer pinned c =
     (case c of
        NoCert \<Rightarrow> Some ''vtls: daemon sent no certificate''
      | BadCert er \<Rightarrow> Some (''vtls: bad daemon certificate: '' @ er)
      | OtherKey \<Rightarrow> Some ''vtls: daemon certificate is not Ed25519''
      | EdKey raw \<Rightarrow>
          if pinned \<noteq> '''' \<and> b64_encode raw \<noteq> pinned then Some ''vtls: daemon key mismatch (known_hosts)'' else None)"

definition handshake :: "string \<Rightarrow> tls_answer \<Rightarrow> string option" where
  "handshake pinned a =
     (case a of NotTls er \<Rightarrow> Some er | TlsServer resumed c \<Rightarrow> if resumed then None else verify_peer pinned c)"

text \<open>The client's exchange: what it sends and whether it is authenticated, given the two lines of
  the daemon (None: a read error).\<close>
definition vauth1 :: "(bytes \<Rightarrow> bytes \<Rightarrow> bytes) \<Rightarrow> bytes \<Rightarrow> string \<Rightarrow> string option \<Rightarrow> string option \<Rightarrow> string list \<times> bool" where
  "vauth1 sign priv pub l1 l2 =
     (let hello = ''VAUTH1 '' @ pub @ [NL] in
      case l1 of None \<Rightarrow> ([hello], False)
      | Some line \<Rightarrow>
          if \<not> has_prefix ''CHALLENGE '' line then ([hello], False)
          else (case b64_decode (trim_space (trim_prefix ''CHALLENGE '' line)) of None \<Rightarrow> ([hello], False)
            | Some nonce \<Rightarrow>
                if nonce = '''' then ([hello], False)
                else ([hello, ''SIG '' @ SignChallenge sign priv nonce @ [NL]],
                      (case l2 of None \<Rightarrow> False | Some ok \<Rightarrow> has_prefix ''AUTH_OK'' ok))))"

record dial_opts =
  do_require :: bool                  \<comment> \<open>VSSH_REQUIRE_TLS\<close>
  do_no_tls :: bool                   \<comment> \<open>VSSH_NO_TLS is 1\<close>
  do_no_verify :: bool                \<comment> \<open>VSSH_NO_HOSTKEY_VERIFY is 1\<close>
  do_sign :: "bytes \<Rightarrow> bytes \<Rightarrow> bytes"
  do_cert :: "string option"          \<comment> \<open>the error of making the TLS certificate\<close>
  do_ident :: "(bytes \<times> string) option"  \<comment> \<open>private key and public key of the client\<close>

text \<open>The two connections that may be opened: errors of dialling, the TLS answer, the lines of the
  VAUTH1 exchange.\<close>
record dial_net =
  dn_tcp1 :: "string option"
  dn_tcp2 :: "string option"
  dn_tls :: tls_answer
  dn_tls_lines :: "string option \<times> string option"
  dn_plain_lines :: "string option \<times> string option"

datatype channel = TlsChannel bool string | PlainChannel

definition expectedKeyFor :: "(string \<Rightarrow> string option) \<Rightarrow> string \<Rightarrow> string" where
  "expectedKeyFor exp host = (case exp host of None \<Rightarrow> '''' | Some k \<Rightarrow> k)"

definition SetExpectedHostKey :: "string \<Rightarrow> string \<Rightarrow> (string \<Rightarrow> string option) \<Rightarrow> string \<Rightarrow> string option" where
  "SetExpectedHostKey host key exp =
     (if host = '''' then exp else if key = '''' then exp(host := None) else exp(host \<mapsto> key))"

definition dash :: string where "dash = [CHR 0xE2, CHR 0x80, CHR 0x94]"

definition mismatch_msg :: "string \<Rightarrow> string \<Rightarrow> string \<Rightarrow> string" where
  "mismatch_msg host got exp =
     ''host identity mismatch for '' @ host @ '': reached daemon key '' @ got @ '', expected '' @ exp @ '' '' @ dash
       @ '' refusing to run on the wrong host''"

definition authed :: "dial_opts \<Rightarrow> bytes \<times> string \<Rightarrow> string option \<times> string option \<Rightarrow> channel \<Rightarrow> string + channel" where
  "authed opts idk ls ch =
     (if snd (vauth1 (do_sign opts) (fst idk) (snd idk) (fst ls) (snd ls)) then Inr ch else Inl ''auth failed'')"

text \<open>The second connection, without TLS.\<close>
definition dial_plain :: "dial_opts \<Rightarrow> bytes \<times> string \<Rightarrow> dial_net \<Rightarrow> string + channel" where
  "dial_plain opts idk net =
     (case dn_tcp2 net of Some er \<Rightarrow> Inl er | None \<Rightarrow> authed opts idk (dn_plain_lines net) PlainChannel)"

text \<open>Behind a handshake that succeeded.\<close>
definition dial_checked ::
  "string \<Rightarrow> (string \<Rightarrow> string option) \<Rightarrow> dial_opts \<Rightarrow> bytes \<times> string \<Rightarrow> dial_net \<Rightarrow> string \<Rightarrow> bool \<Rightarrow> cert \<Rightarrow> fs
    \<Rightarrow> (string + channel) \<times> fs" where
  "dial_checked home exp opts idk net host resumed c f =
     (let got = PeerPubB64 c; want = expectedKeyFor exp host in
      if \<not> resumed \<and> \<not> do_no_verify opts \<and> want \<noteq> '''' \<and> got \<noteq> want
      then (Inl (mismatch_msg host got want), f)
      else
        let f' = (if \<not> resumed \<and> KnownHostPub home f host = '''' then snd (RecordKnownHost home host got f) else f)
        in (authed opts idk (dn_tls_lines net) (TlsChannel resumed got), f'))"

definition dialAuth ::
  "string \<Rightarrow> (string \<Rightarrow> string option) \<Rightarrow> dial_opts \<Rightarrow> dial_net \<Rightarrow> string \<Rightarrow> fs \<Rightarrow> (string + channel) \<times> fs" where
  "dialAuth home exp opts net host f =
     (case do_ident opts of None \<Rightarrow> (Inl ''no vssh identity'', f)
      | Some idk \<Rightarrow>
          if snd idk = '''' then (Inl ''no vssh identity'', f)
          else if \<not> do_no_tls opts \<or> do_require opts then
            (case dn_tcp1 net of Some er \<Rightarrow> (Inl er, f)
             | None \<Rightarrow>
                 (case do_cert opts of Some er \<Rightarrow> (Inl er, f)
                  | None \<Rightarrow>
                 let pinned = KnownHostPub home f host in
                 (case (dn_tls net, handshake pinned (dn_tls net)) of
                    (TlsServer resumed c, None) \<Rightarrow> dial_checked home exp opts idk net host resumed c f
                  | (_, er) \<Rightarrow>
                      let herr = (case er of None \<Rightarrow> '''' | Some t \<Rightarrow> t) in
                      if pinned \<noteq> '''' \<and> contains ''known_hosts'' herr then (Inl (''vtls handshake: '' @ herr), f)
                      else if do_require opts then
                        (Inl (''vtls handshake (VSSH_REQUIRE_TLS=1, no plaintext fallback): '' @ herr), f)
                      else (dial_plain opts idk net, f))))
          else (dial_plain opts idk net, f))"

section \<open>What a channel is worth\<close>

lemma authed_Inr: "authed opts idk ls ch = Inr ch' \<Longrightarrow> ch' = ch"
  by (auto simp: authed_def split: if_splits)

lemma dial_plain_Inr: "dial_plain opts idk net = Inr ch \<Longrightarrow> ch = PlainChannel"
  by (auto simp: dial_plain_def dest: authed_Inr split: option.splits)

text \<open>Where a successful dial comes from.\<close>
lemma dialAuth_Inr:
  assumes "dialAuth home exp opts net host f = (Inr ch, f')"
  shows "(ch = PlainChannel \<and> f' = f \<and> \<not> do_require opts) \<or>
    (\<exists>resumed c idk. ch = TlsChannel resumed (PeerPubB64 c) \<and> handshake (KnownHostPub home f host) (TlsServer resumed c) = None \<and>
       dial_checked home exp opts idk net host resumed c f = (Inr ch, f'))"
proof -
  obtain idk where i: "do_ident opts = Some idk" "snd idk \<noteq> ''''"
    using assms by (auto simp: dialAuth_def split: option.splits if_splits)
  have pl: "ch = PlainChannel" if "dial_plain opts idk net = Inr ch" using dial_plain_Inr[OF that] .
  show ?thesis
  proof (cases "\<not> do_no_tls opts \<or> do_require opts")
    case False
    then have "dial_plain opts idk net = Inr ch \<and> f' = f" using assms i by (simp add: dialAuth_def)
    with False pl show ?thesis by blast
  next
    case tls: True
    then have t: "dn_tcp1 net = None" "do_cert opts = None" using assms i by (auto simp: dialAuth_def split: option.splits)
    show ?thesis
    proof (cases "\<exists>resumed c. dn_tls net = TlsServer resumed c \<and> handshake (KnownHostPub home f host) (dn_tls net) = None")
      case True
      then obtain resumed c where s: "dn_tls net = TlsServer resumed c" "handshake (KnownHostPub home f host) (dn_tls net) = None" by blast
      have d: "dial_checked home exp opts idk net host resumed c f = (Inr ch, f')"
        using assms i t tls s by (simp add: dialAuth_def Let_def)
      have "ch = TlsChannel resumed (PeerPubB64 c)"
        using d by (auto simp: dial_checked_def Let_def dest!: authed_Inr split: if_splits)
      with d s show ?thesis by metis
    next
      case False
      then have "dial_plain opts idk net = Inr ch \<and> f' = f \<and> \<not> do_require opts"
        using assms i t tls
        by (cases "dn_tls net"; cases "handshake (KnownHostPub home f host) (dn_tls net)")
          (simp_all add: dialAuth_def Let_def handshake_def split: if_splits)
      with pl show ?thesis by blast
    qed
  qed
qed

text \<open>A resumed session is taken as it is: neither pins nor expected keys are looked at.\<close>
lemma resumed_unchecked:
  assumes "dialAuth home exp opts net host f = (Inr (TlsChannel True k), f')"
  shows "f' = f \<and> dialAuth home exp2 opts net host f2 = (Inr (TlsChannel True k), f2)"
proof -
  obtain idk where i: "do_ident opts = Some idk" "snd idk \<noteq> ''''"
    using assms by (auto simp: dialAuth_def split: option.splits if_splits)
  have t: "\<not> do_no_tls opts \<or> do_require opts" "dn_tcp1 net = None" "do_cert opts = None"
    using assms i dial_plain_Inr[of opts idk net]
    by (auto simp: dialAuth_def split: option.splits if_splits)
  obtain c where c: "dn_tls net = TlsServer True c"
  proof (cases "dn_tls net")
    case (NotTls er)
    then have "dial_plain opts idk net = Inr (TlsChannel True k)"
      using assms i t by (auto simp: dialAuth_def Let_def handshake_def split: if_splits)
    then show ?thesis using dial_plain_Inr by blast
  next
    case (TlsServer resumed c)
    show ?thesis
    proof (cases resumed)
      case False
      then have "dial_plain opts idk net = Inr (TlsChannel True k) \<or>
          dial_checked home exp opts idk net host False c f = (Inr (TlsChannel True k), f')"
        using assms i t TlsServer
        by (cases "verify_peer (KnownHostPub home f host) c") (auto simp: dialAuth_def Let_def handshake_def split: if_splits)
      moreover have "dial_plain opts idk net \<noteq> Inr (TlsChannel True k)" using dial_plain_Inr by blast
      ultimately show ?thesis by (auto simp: dial_checked_def Let_def dest!: authed_Inr split: if_splits)
    qed (use TlsServer that in simp)
  qed
  show ?thesis using assms i t c by (auto simp: dialAuth_def Let_def handshake_def dial_checked_def)
qed

text \<open>C11: what an authenticated channel is worth.  A plaintext channel comes only where TLS is not
  required.  On a TLS channel with a full handshake the daemon has the pinned key if there is a pin;
  has the key expected for the host if one is expected and VSSH_NO_HOSTKEY_VERIFY is not set; and on
  a first contact, where known_hosts can be written, becomes the pin.  On a resumed TLS session the
  client checks no key at all: the dial has the same result under any pins and any expected keys, so
  that the channel is worth what the handshake that issued the ticket was.\<close>
theorem dialAuth_channel_trust:
  assumes "dialAuth home exp opts net host f = (Inr ch, f')"
  shows "(ch = PlainChannel \<longrightarrow> \<not> do_require opts) \<and>
    (\<forall>k. ch = TlsChannel False k \<longrightarrow>
       (KnownHostPub home f host \<noteq> '''' \<longrightarrow> k = KnownHostPub home f host \<and> f' = f) \<and>
       (\<not> do_no_verify opts \<and> expectedKeyFor exp host \<noteq> '''' \<longrightarrow> k = expectedKeyFor exp host) \<and>
       (KnownHostPub home f host = '''' \<and> usable home f \<and> good_pin (host, k) \<longrightarrow> KnownHostPub home f' host = k)) \<and>
    (\<forall>k. ch = TlsChannel True k \<longrightarrow>
       f' = f \<and> (\<forall>exp2 f2. dialAuth home exp2 opts net host f2 = (Inr ch, f2)))"
proof (intro conjI allI impI)
  fix k assume "ch = TlsChannel True k"
  then show "f' = f" "dialAuth home exp2 opts net host f2 = (Inr ch, f2)" for exp2 f2
    using resumed_unchecked assms by blast+
next
  show "\<not> do_require opts" if "ch = PlainChannel" using dialAuth_Inr[OF assms] that by auto
next
  fix k assume k: "ch = TlsChannel False k"
  then obtain c idk where c: "k = PeerPubB64 c" "handshake (KnownHostPub home f host) (TlsServer False c) = None"
    "dial_checked home exp opts idk net host False c f = (Inr ch, f')"
    using dialAuth_Inr[OF assms] by auto
  show "k = expectedKeyFor exp host" if "\<not> do_no_verify opts \<and> expectedKeyFor exp host \<noteq> ''''"
    using c(1,3) that by (auto simp: dial_checked_def Let_def split: if_splits)
  have f': "f' = (if KnownHostPub home f host = '''' then snd (RecordKnownHost home host k f) else f)"
    using c(1,3) by (auto simp: dial_checked_def Let_def split: if_splits)
  {
    assume p: "KnownHostPub home f host \<noteq> ''''"
    then show "k = KnownHostPub home f host"
      using c(1,2) by (auto simp: handshake_def verify_peer_def PeerPubB64_def split: cert.splits if_splits)
    show "f' = f" using p f' by simp
  }
  show "KnownHostPub home f' host = k"
    if "KnownHostPub home f host = '''' \<and> usable home f \<and> good_pin (host, k)"
    using RecordKnownHost_effect[of home f host k host] that f' by simp
qed

text \<open>C35: TLS can be stripped: for a host with a pin, a man in the middle that answers the ClientHello
  with anything but TLS gets the client to open a plaintext connection and authenticate there,
  unless VSSH_REQUIRE_TLS is set; neither the pin nor the expected key is looked at.\<close>
theorem dialAuth_downgrade:
  assumes "KnownHostPub home f host \<noteq> ''''" "dn_tls net = NotTls er" "\<not> contains ''known_hosts'' er"
    and "\<not> do_require opts" "dn_tcp1 net = None" "do_cert opts = None" "dn_tcp2 net = None" "do_ident opts = Some idk" "snd idk \<noteq> ''''"
    and "snd (vauth1 (do_sign opts) (fst idk) (snd idk) (fst (dn_plain_lines net)) (snd (dn_plain_lines net)))"
  shows "dialAuth home exp opts net host f = (Inr PlainChannel, f)"
  using assms by (simp add: dialAuth_def handshake_def Let_def dial_plain_def authed_def)

definition opts0 :: dial_opts where
  "opts0 = \<lparr>do_require = False, do_no_tls = False, do_no_verify = False, do_sign = (\<lambda>p msg. p), do_cert = None, do_ident = Some (''p'', ''P'')\<rparr>"

definition net0 :: "tls_answer \<Rightarrow> dial_net" where
  "net0 a = \<lparr>dn_tcp1 = None, dn_tcp2 = None, dn_tls = a,
     dn_tls_lines = (Some (''CHALLENGE YWFh'' @ [NL]), Some (''AUTH_OK'' @ [NL])),
     dn_plain_lines = (Some (''CHALLENGE YWFh'' @ [NL]), Some (''AUTH_OK'' @ [NL]))\<rparr>"

definition key_a :: string where "key_a = b64_encode (replicate 32 CHR ''a'')"

definition pinned_fs :: fs where
  "pinned_fs = snd (RecordKnownHost ''/root'' ''h1'' key_a empty_fs)"

lemma demo_lines: "snd (vauth1 (do_sign opts0) ''p'' ''P'' (Some (''CHALLENGE YWFh'' @ [NL])) (Some (''AUTH_OK'' @ [NL])))"
proof -
  have "has_prefix ''CHALLENGE '' (''CHALLENGE YWFh'' @ [NL])" "has_prefix ''AUTH_OK'' (''AUTH_OK'' @ [NL])"
    "b64_decode (trim_space (trim_prefix ''CHALLENGE '' (''CHALLENGE YWFh'' @ [NL]))) = Some ''aaa''" by code_simp+
  then show ?thesis by (simp add: vauth1_def Let_def)
qed

lemma pinned_fs_pin: "KnownHostPub ''/root'' pinned_fs ''h1'' = key_a" "key_a \<noteq> ''''"
proof -
  have u: "usable ''/root'' empty_fs" by (simp add: usable_def line_file_def fs_simps)
  have n: "KnownHostPub ''/root'' empty_fs h = ''''" for h
    by (simp add: KnownHostPub_def read_file_text fs_simps)
  show "KnownHostPub ''/root'' pinned_fs ''h1'' = key_a"
    using RecordKnownHost_effect[OF u demo_pin(1), of "''h1''"] n by (simp add: pinned_fs_def key_a_def)
  show "key_a \<noteq> ''''" by (simp add: key_a_def)
qed

lemma dialAuth_downgrade_witness:
  "dialAuth ''/root'' (\<lambda>_. None) opts0 (net0 (NotTls ''first record does not look like a TLS handshake'')) ''h1'' pinned_fs
     = (Inr PlainChannel, pinned_fs)"
proof -
  obtain er where er: "er = ''first record does not look like a TLS handshake''" by simp
  have "\<not> contains ''known_hosts'' er" unfolding er by code_simp
  then have "dialAuth ''/root'' (\<lambda>_. None) opts0 (net0 (NotTls er)) ''h1'' pinned_fs = (Inr PlainChannel, pinned_fs)"
    using pinned_fs_pin demo_lines
    by (intro dialAuth_downgrade[where idk = "(''p'', ''P'')" and er = er]) (simp_all add: net0_def opts0_def)
  then show ?thesis unfolding er .
qed

lemma dialAuth_channel_trust_witness:
  "dialAuth ''/root'' (\<lambda>_. None) opts0 (net0 (TlsServer False (EdKey (replicate 32 CHR ''a'')))) ''h1'' pinned_fs
     = (Inr (TlsChannel False key_a), pinned_fs) \<and> key_a = KnownHostPub ''/root'' pinned_fs ''h1''"
proof -
  have d: "dialAuth ''/root'' (\<lambda>_. None) opts0 (net0 (TlsServer False (EdKey (replicate 32 CHR ''a'')))) ''h1'' pinned_fs
      = (Inr (TlsChannel False key_a), pinned_fs)"
    using pinned_fs_pin demo_lines
    by (simp add: dialAuth_def net0_def opts0_def handshake_def verify_peer_def dial_checked_def PeerPubB64_def
        expectedKeyFor_def authed_def Let_def flip: key_a_def)
  from dialAuth_channel_trust[OF d] show ?thesis using d pinned_fs_pin by simp
qed

end
