(* ===== verification/Reach.thy ===== *)
theory Reach
  imports Resolve KnownHosts
begin

text \<open>
  The command line's way from a target to the address it dials (\<^verbatim>\<open>cmd/vssh/main.go\<close>): the
  port, the candidates of the resolver, the probes that run at the same time, and the key the daemon of
  that address is expected to have. The answers of the probes come in an order that is an argument.
\<close>

section \<open>Targets, ports, parallelism\<close>

definition defaultPort :: int where "defaultPort = 48291"

definition getPort :: "string \<Rightarrow> int" where
  "getPort vssh_port =
     (if vssh_port \<noteq> '''' \<and> snd (go_atoi vssh_port) then fst (go_atoi vssh_port) else defaultPort)"

definition parseHostPort :: "int \<Rightarrow> string \<Rightarrow> string \<times> int" where
  "parseHostPort port s =
     (case last_index (CHR '':'') s of None \<Rightarrow> (s, port)
      | Some i \<Rightarrow> (case go_atoi (drop (Suc i) s) of (n, ok) \<Rightarrow> if ok then (take i s, n) else (s, port)))"

definition splitTargets :: "string \<Rightarrow> string list" where
  "splitTargets s = filter (\<lambda>p. p \<noteq> '''') (map trim_space (split_on (CHR '','') s))"

definition defaultMaxParallelism :: "string \<Rightarrow> int" where
  "defaultMaxParallelism env =
     (let v = trim_space env in if v \<noteq> '''' \<and> snd (go_atoi v) then fst (go_atoi v) else 16)"

definition normalizedMaxParallelism :: "int \<Rightarrow> nat \<Rightarrow> int" where
  "normalizedMaxParallelism m n =
     (if n = 0 then 1 else if m \<le> 0 then int n else if int n < m then int n else m)"

section \<open>Probing\<close>

datatype probe_state = Pending | Up | Down

text \<open>The scan after each answer: the first host that is up once all before it are down.\<close>
fun decide :: "probe_state list \<Rightarrow> nat option" where
  "decide [] = None"
| "decide (Pending # _) = None"
| "decide (Up # _) = Some 0"
| "decide (Down # ps) = map_option Suc (decide ps)"

fun pick_loop :: "(string \<Rightarrow> bool) \<Rightarrow> string list \<Rightarrow> probe_state list \<Rightarrow> nat list \<Rightarrow> string option" where
  "pick_loop dial hosts st [] = None"
| "pick_loop dial hosts st (i # arrivals) =
     (let st' = st[i := (if dial (hosts ! i) then Up else Down)] in
      case decide st' of Some k \<Rightarrow> Some (hosts ! k) | None \<Rightarrow> pick_loop dial hosts st' arrivals)"

text \<open>The indices in the order in which the probes answer.\<close>
definition pickReachable :: "(string \<Rightarrow> bool) \<Rightarrow> string list \<Rightarrow> nat list \<Rightarrow> string option" where
  "pickReachable dial hosts arrivals =
     (if hosts = [] then None else pick_loop dial hosts (replicate (length hosts) Pending) arrivals)"

type_synonym expected = "string \<Rightarrow> string option"

definition resolveNativeHost :: "site \<Rightarrow> fs \<Rightarrow> string \<Rightarrow> string \<Rightarrow> expected \<Rightarrow> string \<times> expected" where
  "resolveNativeHost st f home target ex =
     (case ResolveHost st target of Inl _ \<Rightarrow> (target, ex)
      | Inr h \<Rightarrow> if h = '''' then (target, ex) else (h, SetExpectedHostKey h (NodeKey f home target) ex))"

definition resolveReachableHost ::
  "site \<Rightarrow> fs \<Rightarrow> string \<Rightarrow> (string \<Rightarrow> bool) \<Rightarrow> nat list \<Rightarrow> string \<Rightarrow> expected \<Rightarrow> string \<times> expected" where
  "resolveReachableHost st f home dial arrivals target ex =
     (let expect = (\<lambda>h. (h, SetExpectedHostKey h (NodeKey f home target) ex)) in
      case CandidateHosts st target of
        Inl _ \<Rightarrow> resolveNativeHost st f home target ex
      | Inr [] \<Rightarrow> resolveNativeHost st f home target ex
      | Inr [h] \<Rightarrow> expect h
      | Inr hosts \<Rightarrow> (case pickReachable dial hosts arrivals of Some h \<Rightarrow> expect h | None \<Rightarrow> expect (hd hosts)))"

section \<open>The order of the answers does not matter\<close>

text \<open>Every answer that has come is the answer of its host.\<close>
definition answered :: "(string \<Rightarrow> bool) \<Rightarrow> string list \<Rightarrow> probe_state list \<Rightarrow> bool" where
  "answered dial hosts st \<longleftrightarrow> list_all2 (\<lambda>h p. p = Pending \<or> p = (if dial h then Up else Down)) hosts st"

lemma decide_find: "answered dial hosts st \<Longrightarrow> decide st = Some k \<Longrightarrow> find dial hosts = Some (hosts ! k)"
proof (induction st arbitrary: hosts k rule: decide.induct)
  case (3 ps)
  then show ?case by (cases hosts) (auto simp: answered_def split: if_splits)
next
  case (4 ps)
  then show ?case by (cases hosts) (auto simp: answered_def split: if_splits)
qed simp_all

lemma decide_none: "answered dial hosts st \<Longrightarrow> Pending \<notin> set st \<Longrightarrow> decide st = None \<Longrightarrow> find dial hosts = None"
proof (induction st arbitrary: hosts rule: decide.induct)
  case (4 ps)
  then show ?case by (cases hosts) (auto simp: answered_def split: if_splits)
qed (auto simp: answered_def)

lemma answered_update:
  "answered dial hosts st \<Longrightarrow> i < length hosts \<Longrightarrow> answered dial hosts (st[i := (if dial (hosts ! i) then Up else Down)])"
  by (auto simp: answered_def list_all2_conv_all_nth nth_list_update)

lemma pick_loop_find:
  assumes "answered dial hosts st" "{i. i < length hosts \<and> st ! i = Pending} \<subseteq> set arrivals" "set arrivals \<subseteq> {..<length hosts}"
    and "arrivals \<noteq> []"
  shows "pick_loop dial hosts st arrivals = find dial hosts"
  using assms
proof (induction arrivals arbitrary: st)
  case (Cons i later)
  let ?st = "st[i := (if dial (hosts ! i) then Up else Down)]"
  have l: "length st = length hosts" using Cons.prems(1) by (auto simp: answered_def list_all2_lengthD)
  have a: "answered dial hosts ?st" using answered_update[OF Cons.prems(1)] Cons.prems(3) by simp
  have p: "{j. j < length hosts \<and> ?st ! j = Pending} \<subseteq> set later"
    using Cons.prems(2,3) l by (auto simp: nth_list_update split: if_splits)
  show ?case
  proof (cases "decide ?st")
    case (Some k)
    with decide_find[OF a Some] show ?thesis by (simp add: Let_def)
  next
    case None
    show ?thesis
    proof (cases "later = []")
      case True
      with p l have "Pending \<notin> set ?st" by (auto simp: in_set_conv_nth)
      from decide_none[OF a this None] None True show ?thesis by (simp add: Let_def)
    next
      case False
      with Cons.IH[OF a p] Cons.prems(3) None show ?thesis by (simp add: Let_def)
    qed
  qed
qed simp

lemma pickReachable_find:
  assumes "set arrivals = {..<length hosts}"
  shows "pickReachable dial hosts arrivals = find dial hosts"
proof (cases "hosts = []")
  case False
  have "answered dial hosts (replicate (length hosts) Pending)"
    by (auto simp: answered_def list_all2_conv_all_nth)
  moreover have "arrivals \<noteq> []" using assms False by (cases arrivals) auto
  ultimately show ?thesis
    using assms False by (auto simp: pickReachable_def intro!: pick_loop_find)
qed (simp add: pickReachable_def)

text \<open>C40: The address that is dialled is the first candidate that answers, else the preferred one, and the
  daemon there is expected to have the key of the target, when the target has one.\<close>
theorem dials_first_reachable:
  assumes "CandidateHosts st target = Inr hosts" "hosts \<noteq> []" "'''' \<notin> set hosts" "set arrivals = {..<length hosts}"
    and "resolveReachableHost st f home dial arrivals target ex = (h, ex')"
  shows "h = (case find dial hosts of Some x \<Rightarrow> x | None \<Rightarrow> hd hosts) \<and> h \<in> set hosts \<and>
    expectedKeyFor ex' h = NodeKey f home target \<and> (\<forall>x. x \<noteq> h \<longrightarrow> ex' x = ex x)"
proof -
  note p = pickReachable_find[OF assms(4), of dial]
  have "(h, ex') = ((case find dial hosts of Some x \<Rightarrow> x | None \<Rightarrow> hd hosts),
      SetExpectedHostKey (case find dial hosts of Some x \<Rightarrow> x | None \<Rightarrow> hd hosts) (NodeKey f home target) ex)"
    using assms(1,2,5) p by (auto simp: resolveReachableHost_def Let_def split: list.splits option.splits if_splits)
  moreover have "(case find dial hosts of Some x \<Rightarrow> x | None \<Rightarrow> hd hosts) \<in> set hosts"
    using assms(2) by (auto split: option.splits simp: find_Some_iff)
  ultimately show ?thesis using assms(3) by (auto simp: SetExpectedHostKey_def expectedKeyFor_def split: if_splits)
qed

definition two_ways :: site where
  "two_ways = demo_site\<lparr>st_peers := [\<lparr>pe_name = ''g1'', pe_id = ''n1'', pe_vpn = ''10.9.0.4'', pe_lan = ''192.168.0.4'',
     pe_public = '''', pe_user = ''ops''\<rparr>]\<rparr>"

definition keyed_fs :: fs where
  "keyed_fs = put_file ''/root/.vssh/node_keys'' (''g1 KEY'' @ [NL]) empty_fs"

definition lan_only :: "string \<Rightarrow> bool" where "lan_only h \<longleftrightarrow> h = ''192.168.0.4''"

lemma dials_first_reachable_witness:
  "fst (resolveReachableHost two_ways keyed_fs ''/root'' lan_only [1, 0] ''g1'' Map.empty) = ''192.168.0.4'' \<and>
   expectedKeyFor (snd (resolveReachableHost two_ways keyed_fs ''/root'' lan_only [1, 0] ''g1'' Map.empty)) ''192.168.0.4'' = ''KEY''"
proof -
  let ?r = "resolveReachableHost two_ways keyed_fs ''/root'' lan_only [1, 0] ''g1'' Map.empty"
  have c: "CandidateHosts two_ways ''g1'' = Inr [''10.9.0.4'', ''192.168.0.4'']" by code_simp
  have s: "set [1, 0] = {..<length [''10.9.0.4'', ''192.168.0.4'']}" by auto
  have k: "NodeKey keyed_fs ''/root'' ''g1'' = ''KEY''" by code_simp
  have l: "\<not> lan_only ''10.9.0.4''" "lan_only ''192.168.0.4''" by (simp_all add: lan_only_def)
  obtain h ex' where r: "?r = (h, ex')" by (cases ?r)
  note D = dials_first_reachable[OF c _ _ s r]
  have "h = ''192.168.0.4''" using D[THEN conjunct1] l by simp
  moreover have "expectedKeyFor ex' h = ''KEY''" using D[THEN conjunct2, THEN conjunct2, THEN conjunct1] k by simp
  ultimately show ?thesis unfolding r by simp
qed

end
