(* ===== verification/AuditLog.thy ===== *)
theory AuditLog
  imports Identity GoJson "HOL-Library.Sublist"
begin

text \<open>
  The daemon's shared state (\<open>world\<close>: the file system, the audit chain and the per-connection
  maps of \<^verbatim>\<open>audit.go\<close> and \<^verbatim>\<open>policy.go\<close>), the hash-chained audit log of
  \<^verbatim>\<open>internal/server/audit.go\<close> and the verifier of \<^verbatim>\<open>cmd/vssh/main.go\<close>
  (\<open>cmdAuditVerify\<close>).  SHA-256 on bytes is an argument.
\<close>

section \<open>The daemon state\<close>

type_synonym conn = nat \<comment> \<open>a connection; \<open>None\<close> of \<open>conn option\<close> is the nil connection\<close>

record exec_result =
  er_success :: bool
  er_command :: string
  er_stdout :: string
  er_stderr :: string
  er_exit :: int
  er_duration :: int
  er_error :: string
  er_code :: string
  er_retryable :: bool

definition exec_zero :: exec_result where
  "exec_zero = \<lparr>er_success = False, er_command = '''', er_stdout = '''', er_stderr = '''', er_exit = 0,
     er_duration = 0, er_error = '''', er_code = '''', er_retryable = False\<rparr>"

record ('pol) world =
  w_fs :: fs
  w_home :: string
  w_now :: int                                   \<comment> \<open>seconds since the epoch\<close>
  w_ts :: string                                 \<comment> \<open>the time as RFC 3339 text\<close>
  w_remote :: "conn \<Rightarrow> string"
  w_idents :: "conn \<Rightarrow> (string \<times> string) option"   \<comment> \<open>connIdentities: key, name\<close>
  w_transports :: "conn \<Rightarrow> string option"
  w_polmeta :: "conn \<Rightarrow> (string \<times> bool) option"
  w_polcache :: "string \<Rightarrow> 'pol option"
  w_rates :: "string \<Rightarrow> int list option"
  w_audit_path :: path
  w_au_prev :: string
  w_au_init :: bool
  w_sent :: "conn \<Rightarrow> string list"                \<comment> \<open>what was written, a chunk per write\<close>

definition send :: "conn option \<Rightarrow> string \<Rightarrow> 'pol world \<Rightarrow> 'pol world" where
  "send cn s w = (case cn of None \<Rightarrow> w | Some c \<Rightarrow> w\<lparr>w_sent := (w_sent w)(c := w_sent w c @ [s])\<rparr>)"

definition setConnIdentity :: "conn option \<Rightarrow> string \<Rightarrow> string \<Rightarrow> 'pol world \<Rightarrow> 'pol world" where
  "setConnIdentity cn pub name w =
     (case cn of None \<Rightarrow> w | Some c \<Rightarrow> w\<lparr>w_idents := (w_idents w)(c \<mapsto> (pub, name))\<rparr>)"

definition clearConnIdentity :: "conn option \<Rightarrow> 'pol world \<Rightarrow> 'pol world" where
  "clearConnIdentity cn w =
     (case cn of None \<Rightarrow> w
      | Some c \<Rightarrow> w\<lparr>w_idents := (w_idents w)(c := None), w_transports := (w_transports w)(c := None),
                     w_polmeta := (w_polmeta w)(c := None)\<rparr>)"

definition setConnTransport :: "conn option \<Rightarrow> string \<Rightarrow> 'pol world \<Rightarrow> 'pol world" where
  "setConnTransport cn t w =
     (case cn of None \<Rightarrow> w
      | Some c \<Rightarrow> if t = '''' then w else w\<lparr>w_transports := (w_transports w)(c \<mapsto> t)\<rparr>)"

definition connTransport :: "'pol world \<Rightarrow> conn option \<Rightarrow> string" where
  "connTransport w cn =
     (case cn of None \<Rightarrow> '''' | Some c \<Rightarrow> (case w_transports w c of None \<Rightarrow> '''' | Some t \<Rightarrow> t))"

definition connIdentity :: "'pol world \<Rightarrow> conn option \<Rightarrow> string \<times> string" where
  "connIdentity w cn =
     (case cn of None \<Rightarrow> ('''', '''') | Some c \<Rightarrow> (case w_idents w c of None \<Rightarrow> ('''', '''') | Some i \<Rightarrow> i))"

definition setConnPolicyMeta :: "conn option \<Rightarrow> string \<Rightarrow> bool \<Rightarrow> 'pol world \<Rightarrow> 'pol world" where
  "setConnPolicyMeta cn rid pre w =
     (case cn of None \<Rightarrow> w | Some c \<Rightarrow> w\<lparr>w_polmeta := (w_polmeta w)(c \<mapsto> (rid, pre))\<rparr>)"

definition connPolicyRule :: "'pol world \<Rightarrow> conn option \<Rightarrow> string \<times> bool" where
  "connPolicyRule w cn =
     (case cn of None \<Rightarrow> ('''', False) | Some c \<Rightarrow> (case w_polmeta w c of None \<Rightarrow> ('''', False) | Some m \<Rightarrow> m))"

section \<open>Where the log is\<close>

record audit_env =
  ae_dir :: string                 \<comment> \<open>VSSH_AUDIT_DIR\<close>
  ae_home :: string
  ae_root :: bool                  \<comment> \<open>effective uid 0\<close>
  ae_mkdir :: "path \<Rightarrow> bool"       \<comment> \<open>MkdirAll succeeds\<close>

text \<open>The cache is the pair of \<^verbatim>\<open>auditPathCache\<close> and \<^verbatim>\<open>auditPathHome\<close>.\<close>
definition auditLogPath :: "audit_env \<Rightarrow> path \<times> string \<Rightarrow> path \<times> (path \<times> string)" where
  "auditLogPath e cache =
     (if ae_dir e \<noteq> '''' then (join_path [ae_dir e, ''audit.log''], cache)
      else if fst cache \<noteq> '''' \<and> ae_home e = snd cache then (fst cache, cache)
      else (case find (ae_mkdir e)
                   ((if ae_root e then [''/var/log/vssh''] else []) @
                    (if ae_home e \<noteq> '''' then [join_path [ae_home e, ''.vssh'']] else []) @ [''/tmp/vssh'']) of
              None \<Rightarrow> (fst cache, cache)
            | Some d \<Rightarrow> (join_path [d, ''audit.log''], (join_path [d, ''audit.log''], ae_home e))))"

section \<open>Writing the log\<close>

definition sha_hex :: "(bytes \<Rightarrow> bytes) \<Rightarrow> string \<Rightarrow> string" where
  "sha_hex H s = hex_encode (H s)"

definition trim_nls :: "string \<Rightarrow> string" where
  "trim_nls s = trim_right_by (\<lambda>c. c = NL) s"

definition lastAuditHash :: "(bytes \<Rightarrow> bytes) \<Rightarrow> fs \<Rightarrow> path \<Rightarrow> string" where
  "lastAuditHash H f p =
     (case read_file f p of Inl _ \<Rightarrow> ''''
      | Inr d \<Rightarrow>
          if d = '''' then ''''
          else let l = trim_space (last (split_on NL (trim_nls d))) in
               if l = '''' then '''' else sha_hex H l)"

text \<open>U+2026, the mark of a shortened command.\<close>
definition ellipsis :: string where "ellipsis = [CHR 0xE2, CHR 0x80, CHR 0xA6]"

definition audit_command :: "string \<Rightarrow> string" where
  "audit_command cmd = (if length cmd > 800 then take 800 cmd @ ellipsis else cmd)"

definition audit_members ::
  "'pol world \<Rightarrow> conn option \<Rightarrow> string \<Rightarrow> exec_result \<Rightarrow> string \<Rightarrow> (string \<times> json) list" where
  "audit_members w cn cmd res prev =
       [(''ts'', JStr (w_ts w)),
         (''remote'', JStr (case cn of None \<Rightarrow> '''' | Some c \<Rightarrow> w_remote w c)),
         (''command'', JStr (audit_command cmd)),
         (''success'', JBool (er_success res)),
         (''exit_code'', json_int (er_exit res)),
         (''duration_ms'', json_int (er_duration res)),
         (''prev'', JStr prev)]
        @ (let (pub, name) = connIdentity w cn in
           (if pub \<noteq> '''' then [(''key'', JStr pub)] else []) @
           (if name \<noteq> '''' then [(''key_name'', JStr name)] else []))
        @ (if connTransport w cn \<noteq> '''' then [(''transport'', JStr (connTransport w cn))] else [])
        @ (let (rid, pre) = connPolicyRule w cn in
           if rid \<noteq> '''' then (''policy_rule'', JStr rid) # (if pre then [(''preapproved'', JBool True)] else [])
           else [])"

definition audit_record :: "'pol world \<Rightarrow> conn option \<Rightarrow> string \<Rightarrow> exec_result \<Rightarrow> string \<Rightarrow> json" where
  "audit_record w cn cmd res prev = json_map (audit_members w cn cmd res prev)"

definition auditLog :: "(bytes \<Rightarrow> bytes) \<Rightarrow> conn option \<Rightarrow> string \<Rightarrow> exec_result \<Rightarrow> 'pol world \<Rightarrow> 'pol world" where
  "auditLog H cn cmd res w =
     (let p = w_audit_path w in
      if p = '''' then w
      else
        let w1 = (if w_au_init w then w
                  else w\<lparr>w_au_prev := lastAuditHash H (w_fs w) p, w_au_init := True\<rparr>);
            line = marshal (audit_record w1 cn cmd res (w_au_prev w1))
        in case append_file p (line @ [NL]) (w_fs w1) of
             (Some _, _) \<Rightarrow> w1
           | (None, f) \<Rightarrow> w1\<lparr>w_fs := f, w_au_prev := sha_hex H line\<rparr>)"

section \<open>Verifying the log\<close>

datatype violation = NotJson nat | ChainBreak nat string string

text \<open>The loop of \<^verbatim>\<open>cmdAuditVerify\<close> on the lines from number \<open>i\<close>: records seen, records
  that carry a chain value, violations.\<close>
fun verify_lines ::
  "(bytes \<Rightarrow> bytes) \<Rightarrow> nat \<Rightarrow> bool \<Rightarrow> string \<Rightarrow> string list \<Rightarrow> nat \<times> nat \<times> violation list" where
  "verify_lines H i first prev [] = (0, 0, [])"
| "verify_lines H i first prev (raw # ls) =
     (let ln = trim_space raw in
      if ln = '''' then verify_lines H (Suc i) first prev ls
      else let (t, c, vs) = verify_lines H (Suc i) False (sha_hex H ln) ls in
        (case unmarshal ln of
           None \<Rightarrow> (Suc t, c, NotJson (Suc i) # vs)
         | Some v \<Rightarrow>
             (case v of
                JObj _ \<Rightarrow>
                  (case json_str ''prev'' v of
                     None \<Rightarrow> (Suc t, c, vs)
                   | Some p \<Rightarrow>
                       (Suc t, Suc c,
                        if \<not> first \<and> p \<noteq> prev then ChainBreak (Suc i) prev p # vs else vs))
              | JNull \<Rightarrow> (Suc t, c, vs)
              | _ \<Rightarrow> (Suc t, c, NotJson (Suc i) # vs))))"

record audit_report =
  ar_records :: nat
  ar_chained :: nat
  ar_violations :: "violation list"

definition cmdAuditVerify :: "(bytes \<Rightarrow> bytes) \<Rightarrow> string \<Rightarrow> audit_report" where
  "cmdAuditVerify H d =
     (case verify_lines H 0 True '''' (split_on NL (trim_nls d)) of
        (t, c, vs) \<Rightarrow> \<lparr>ar_records = t, ar_chained = c, ar_violations = vs\<rparr>)"

definition audit_verified :: "(bytes \<Rightarrow> bytes) \<Rightarrow> string \<Rightarrow> bool" where
  "audit_verified H d \<longleftrightarrow> ar_violations (cmdAuditVerify H d) = []"

section \<open>The chain\<close>

text \<open>The text of a log whose lines are \<open>ls\<close>; a line as the daemon writes one.\<close>
definition log_of :: "string list \<Rightarrow> string" where
  "log_of ls = concat (map (\<lambda>l. l @ [NL]) ls)"

definition log_line :: "string \<Rightarrow> bool" where
  "log_line l \<longleftrightarrow> l \<noteq> '''' \<and> NL \<notin> set l \<and> trim_space l = l"

definition chain_value :: "(bytes \<Rightarrow> bytes) \<Rightarrow> string list \<Rightarrow> string" where
  "chain_value H ls = (if ls = [] then '''' else sha_hex H (last ls))"

abbreviation violations_of :: "(bytes \<Rightarrow> bytes) \<Rightarrow> nat \<Rightarrow> bool \<Rightarrow> string \<Rightarrow> string list \<Rightarrow> violation list" where
  "violations_of H i first prev ls \<equiv> snd (snd (verify_lines H i first prev ls))"

lemma log_of_snoc: "log_of (ls @ [l]) = log_of ls @ l @ [NL]"
  by (simp add: log_of_def)

lemma log_join: "ls \<noteq> [] \<Longrightarrow> log_of ls = join [NL] ls @ [NL]"
  by (induction "[NL] :: string" ls rule: join.induct) (auto simp: log_of_def)

lemma join_last: "ls \<noteq> [] \<Longrightarrow> last ls \<noteq> '''' \<Longrightarrow> join sep ls \<noteq> '''' \<and> last (join sep ls) = last (last ls)"
  by (induction sep ls rule: join.induct) (auto simp: last_append)

lemma trim_nls_log:
  assumes "list_all log_line ls" "ls \<noteq> []"
  shows "trim_nls (log_of ls) = join [NL] ls"
proof -
  have ll: "log_line (last ls)" using assms by (auto simp: list_all_iff)
  then have j: "join [NL] ls \<noteq> ''''" "last (join [NL] ls) = last (last ls)"
    using join_last[OF assms(2), of "[NL]"] by (auto simp: log_line_def)
  have "last (last ls) \<in> set (last ls)" "NL \<notin> set (last ls)" using ll by (simp_all add: log_line_def)
  then have "last (last ls) \<noteq> NL" by auto
  then show ?thesis using j log_join[OF assms(2)]
    by (simp add: trim_nls_def trim_right_by_snoc trim_right_by_id)
qed

lemma split_log:
  assumes "list_all log_line ls"
  shows "split_on NL (trim_nls (log_of ls)) = (if ls = [] then [[]] else ls)"
proof (cases "ls = []")
  case True
  then show ?thesis by (simp add: log_of_def trim_nls_def trim_right_by_def)
next
  case False
  with assms show ?thesis
    by (simp add: trim_nls_log) (intro split_on_join, auto simp: list_all_iff log_line_def)
qed

lemma verified_log:
  assumes "list_all log_line ls"
  shows "audit_verified H (log_of ls) \<longleftrightarrow> violations_of H 0 True '''' ls = []"
  using split_log[OF assms]
  by (simp add: audit_verified_def cmdAuditVerify_def split_beta Let_def)

text \<open>The violations of one line, after \<open>prev\<close>.\<close>
definition line_violations :: "nat \<Rightarrow> bool \<Rightarrow> string \<Rightarrow> string \<Rightarrow> violation list" where
  "line_violations i first prev l =
     (case unmarshal l of
        None \<Rightarrow> [NotJson (Suc i)]
      | Some v \<Rightarrow>
          (case v of
             JObj _ \<Rightarrow> (case json_str ''prev'' v of None \<Rightarrow> []
                        | Some p \<Rightarrow> if \<not> first \<and> p \<noteq> prev then [ChainBreak (Suc i) prev p] else [])
           | JNull \<Rightarrow> [] | _ \<Rightarrow> [NotJson (Suc i)]))"

lemma violations_Cons:
  "log_line l \<Longrightarrow> violations_of H i first prev (l # ls) =
    line_violations i first prev l @ violations_of H (Suc i) False (sha_hex H l) ls"
  by (auto simp: log_line_def line_violations_def Let_def split_beta split: option.split json.split)

lemma violations_append:
  "list_all log_line (ls @ ms) \<Longrightarrow> violations_of H i first prev (ls @ ms) =
    violations_of H i first prev ls @
    violations_of H (i + length ls) (first \<and> ls = []) (if ls = [] then prev else sha_hex H (last ls)) ms"
proof (induction ls arbitrary: i first prev)
  case (Cons l ls)
  then show ?case by (simp add: violations_Cons del: verify_lines.simps)
qed simp

lemma sha_hex_ascii: "is_ascii (sha_hex H s)"
  using hex_encode_range[of "H s"] by (auto simp: is_ascii_def sha_hex_def list_all_iff byte_in_def)

text \<open>Any record the daemon writes is one object whose \<open>prev\<close> is the value it was given.\<close>
lemma audit_record_obj: "\<exists>ms. audit_record w cn cmd res prev = JObj ms"
  by (simp add: audit_record_def json_map_def)

lemma audit_record_wf: "json_wf (audit_record w cn cmd res prev)"
  by (simp add: audit_record_def audit_members_def json_wf_map split_beta Let_def)

lemma audit_record_prev:
  "json_str ''prev'' (json_norm (audit_record w cn cmd res prev)) = Some (utf8_fix prev)"
proof -
  let ?ms = "audit_members w cn cmd res prev"
  have "distinct (map fst ?ms)"
    by (auto simp: audit_members_def split_beta Let_def)
  moreover have "\<forall>k \<in> fst ` set ?ms. is_ascii k"
    by (auto simp: audit_members_def split_beta Let_def is_ascii_def byte_in_def)
  moreover have "(''prev'', JStr prev) \<in> set ?ms" by (simp add: audit_members_def)
  ultimately show ?thesis using json_map_get by (fastforce simp: audit_record_def json_str_def)
qed

lemma audit_line:
  assumes "is_ascii prev"
  shows "log_line (marshal (audit_record w cn cmd res prev)) \<and>
    line_violations i first prev (marshal (audit_record w cn cmd res prev)) = []"
proof -
  let ?v = "audit_record w cn cmd res prev"
  obtain ms where ms: "?v = JObj ms" using audit_record_obj by blast
  have "log_line (marshal ?v)"
    unfolding log_line_def
  proof (intro conjI)
    show "NL \<notin> set (marshal ?v)" by (rule marshal_no_nl[OF audit_record_wf])
    show "trim_space (marshal ?v) = marshal ?v" by (rule trim_space_id) (simp add: ms is_space_def)
    show "marshal ?v \<noteq> ''''" by (simp add: ms)
  qed
  moreover have "line_violations i first prev (marshal ?v) = []"
    using audit_record_prev[of w cn cmd res prev] utf8_fix_ascii[OF assms]
    unfolding line_violations_def unmarshal_marshal[OF audit_record_wf] by (simp add: ms)
  ultimately show ?thesis by blast
qed

text \<open>The log on disk is a verified chain and the value in memory is the hash of its last line.\<close>
definition audit_inv :: "(bytes \<Rightarrow> bytes) \<Rightarrow> 'pol world \<Rightarrow> bool" where
  "audit_inv H w \<longleftrightarrow>
     (\<exists>ls. list_all log_line ls \<and>
        (case file_text (w_fs w) (w_audit_path w) of None \<Rightarrow> [] | Some d \<Rightarrow> d) = log_of ls \<and>
        violations_of H 0 True '''' ls = [] \<and>
        (w_au_init w \<longrightarrow> w_au_prev w = chain_value H ls))"

lemma chain_value_ascii: "is_ascii (chain_value H ls)"
  using sha_hex_ascii by (simp add: chain_value_def is_ascii_def)

lemma lastAuditHash_log:
  assumes "list_all log_line ls" "fs_rderr f p = None"
    "(case file_text f p of None \<Rightarrow> [] | Some d \<Rightarrow> d) = log_of ls"
  shows "lastAuditHash H f p = chain_value H ls"
proof (cases "ls = []")
  case True
  then show ?thesis using assms(2,3)
    by (auto simp: lastAuditHash_def chain_value_def read_file_text log_of_def split: option.splits)
next
  case False
  then have t: "file_text f p = Some (log_of ls)" "log_of ls \<noteq> ''''"
    using assms(3) log_join[OF False] by (auto split: option.splits)
  have "log_line (last ls)" using assms(1) False by (auto simp: list_all_iff)
  with t assms(2) show ?thesis
    by (simp add: lastAuditHash_def chain_value_def read_file_text split_log[OF assms(1)] False Let_def log_line_def)
qed

text \<open>C5: a daemon that starts from a verified log keeps it verified with every record it
  appends, whatever the command, the result and the connection; a failed append changes nothing
  on disk.\<close>
theorem auditLog_keeps_chain:
  assumes "audit_inv H w" "fs_rderr (w_fs w) (w_audit_path w) = None"
  shows "audit_inv H (auditLog H cn cmd res w) \<and>
    audit_verified H (case file_text (w_fs (auditLog H cn cmd res w)) (w_audit_path w) of None \<Rightarrow> [] | Some d \<Rightarrow> d)"
proof -
  let ?p = "w_audit_path w"
  obtain ls where ls: "list_all log_line ls"
    "(case file_text (w_fs w) ?p of None \<Rightarrow> [] | Some d \<Rightarrow> d) = log_of ls"
    "violations_of H 0 True '''' ls = []" "w_au_init w \<longrightarrow> w_au_prev w = chain_value H ls"
    using assms(1) by (auto simp: audit_inv_def)
  define w1 where "w1 = (if w_au_init w then w
    else w\<lparr>w_au_prev := lastAuditHash H (w_fs w) ?p, w_au_init := True\<rparr>)"
  have w1: "w_au_prev w1 = chain_value H ls" "w_fs w1 = w_fs w" "w_audit_path w1 = ?p" "w_au_init w1"
    using ls(4) lastAuditHash_log[OF ls(1) assms(2) ls(2)] by (auto simp: w1_def)
  define line where "line = marshal (audit_record w1 cn cmd res (w_au_prev w1))"
  have L: "log_line line" "line_violations i first (chain_value H ls) line = []" for i first
    by (simp_all add: line_def w1(1) audit_line[OF chain_value_ascii])
  have inv1: "audit_inv H w1" using ls w1 by (auto simp: audit_inv_def)
  have ver: "audit_verified H (log_of ls)" using ls(1,3) by (simp add: verified_log)
  have lsn: "list_all log_line (ls @ [line])" using ls(1) L(1) by simp
  have vn: "violations_of H 0 True '''' (ls @ [line]) = []"
    using violations_append[OF lsn, of H 0 True "''''"] ls(3) L
    by (simp add: violations_Cons chain_value_def del: verify_lines.simps(2))
  show ?thesis
  proof (cases "?p = '''' \<or> fs_wrerr (w_fs w) ?p \<noteq> None")
    case True
    then have "auditLog H cn cmd res w = w \<or> auditLog H cn cmd res w = w1"
      by (auto simp: auditLog_def Let_def append_file_def w1(2) simp flip: w1_def)
    then show ?thesis using assms(1) inv1 ver ls(2) w1(2) by auto
  next
    case False
    then have e: "auditLog H cn cmd res w = w1\<lparr>w_fs := put_file ?p (log_of ls @ line @ [NL]) (w_fs w),
        w_au_prev := sha_hex H line\<rparr>"
      using ls(2) by (auto simp: auditLog_def Let_def append_file_ok w1(2) line_def simp flip: w1_def)
    have "audit_inv H (auditLog H cn cmd res w)"
      unfolding audit_inv_def e
      by (rule exI[of _ "ls @ [line]"]) (use lsn vn in \<open>simp add: w1(3) fs_simps log_of_snoc chain_value_def\<close>)
    moreover have "audit_verified H (log_of (ls @ [line]))" using lsn vn by (simp add: verified_log)
    ultimately show ?thesis by (simp add: e fs_simps log_of_snoc)
  qed
qed

definition world0 :: "'pol world" where
  "world0 = \<lparr>w_fs = empty_fs, w_home = ''/root'', w_now = 1000, w_ts = ''2026-01-01T00:00:00Z'',
     w_remote = (\<lambda>_. ''10.0.0.9:4022''), w_idents = (\<lambda>_. None), w_transports = (\<lambda>_. None),
     w_polmeta = (\<lambda>_. None), w_polcache = (\<lambda>_. None), w_rates = (\<lambda>_. None),
     w_audit_path = ''/root/.vssh/audit.log'', w_au_prev = '''', w_au_init = False, w_sent = (\<lambda>_. [])\<rparr>"

lemma audit_inv_world0: "audit_inv H world0"
  unfolding audit_inv_def
  by (rule exI[of _ "[]"]) (simp add: world0_def fs_simps log_of_def)

lemma world0_sel [simp]: "w_fs world0 = empty_fs" "w_audit_path world0 = ''/root/.vssh/audit.log''"
  "w_home world0 = ''/root''" "w_polcache world0 n = None" "w_rates world0 k = None" "w_now world0 = 1000"
  "w_idents world0 c = None" "w_sent world0 c = []"
  by (simp_all add: world0_def)

lemma auditLog_keeps_chain_witness:
  "audit_inv (\<lambda>s. take 32 s) (auditLog (\<lambda>s. take 32 s) (Some 7) ''uptime'' exec_zero (world0 :: unit world))"
proof -
  have "audit_inv (\<lambda>s. take 32 s) (world0 :: unit world)" by (rule audit_inv_world0)
  from auditLog_keeps_chain[OF this, of "Some 7" "''uptime''" exec_zero] show ?thesis
    by (simp add: fs_simps)
qed

section \<open>What the chain detects\<close>

text \<open>Every line carries a chain value.\<close>
definition chained :: "string list \<Rightarrow> bool" where
  "chained ls \<longleftrightarrow> list_all (\<lambda>l. \<exists>v p. unmarshal l = Some v \<and> json_str ''prev'' v = Some p) ls"

lemma json_str_obj: "json_str k v = Some p \<Longrightarrow> \<exists>ms. v = JObj ms"
  by (cases v) (auto simp: json_str_def json_get_def)

definition prev_of :: "string \<Rightarrow> string" where
  "prev_of l = (case unmarshal l of None \<Rightarrow> ''''
     | Some v \<Rightarrow> (case json_str ''prev'' v of None \<Rightarrow> '''' | Some p \<Rightarrow> p))"

text \<open>A verified, fully chained log: each line holds the hash of the one before it.\<close>
lemma verified_links:
  assumes "list_all log_line (a @ x # y # b)" "chained (a @ x # y # b)"
    "violations_of H i f p (a @ x # y # b) = []"
  shows "prev_of y = sha_hex H x"
proof -
  have "line_violations (i + length (a @ [x])) False (sha_hex H x) y = []"
    using assms(1,3) violations_append[of "a @ [x]" "y # b" H i f p]
    by (auto simp: violations_Cons simp del: verify_lines.simps)
  moreover obtain v q where v: "unmarshal y = Some v" "json_str ''prev'' v = Some q"
    using assms(2) by (auto simp: chained_def)
  moreover obtain ms where "v = JObj ms" using json_str_obj[OF v(2)] by blast
  ultimately show ?thesis by (auto simp: line_violations_def prev_of_def split: if_splits)
qed

definition links :: "(bytes \<Rightarrow> bytes) \<Rightarrow> string list \<Rightarrow> bool" where
  "links H ls \<longleftrightarrow> (\<forall>a x y b. ls = a @ x # y # b \<longrightarrow> prev_of y = sha_hex H x)"

lemma linksD: "links H (a @ x # y # b) \<Longrightarrow> prev_of y = sha_hex H x"
  by (auto simp: links_def)

lemma links_butlast: "links H (ls @ [l]) \<Longrightarrow> links H ls"
  unfolding links_def
proof (intro allI impI)
  fix a x y b
  assume "\<forall>a x y b. ls @ [l] = a @ x # y # b \<longrightarrow> prev_of y = sha_hex H x" and "ls = a @ x # y # b"
  then show "prev_of y = sha_hex H x" by (elim allE[of _ a] allE[of _ x] allE[of _ y] allE[of _ "b @ [l]"]) simp
qed

lemma links_last:
  assumes "links H (ls @ [l])" "ls \<noteq> []"
  shows "prev_of l = sha_hex H (last ls)"
proof -
  have "ls @ [l] = (butlast ls @ [last ls]) @ [l]" using assms(2) by simp
  then have "ls @ [l] = butlast ls @ last ls # l # []" by simp
  with assms(1) show ?thesis using linksD by metis
qed

lemma links_suffix:
  assumes "links H xs" "links H ys" "inj_on H (set xs \<union> set ys)" "xs \<noteq> []" "ys \<noteq> []" "last xs = last ys"
  shows "suffix xs ys \<or> suffix ys xs"
  using assms
proof (induction xs arbitrary: ys rule: rev_induct)
  case (snoc x xs)
  obtain ys' where ys: "ys = ys' @ [x]" using snoc.prems by (metis append_butlast_last_id last_snoc)
  show ?case
  proof (cases "xs = [] \<or> ys' = []")
    case True
    then show ?thesis by (auto simp: ys suffix_def)
  next
    case False
    then have "sha_hex H (last xs) = sha_hex H (last ys')"
      using links_last[OF snoc.prems(1)] links_last[of H ys' x] snoc.prems(2) ys by simp
    then have "H (last xs) = H (last ys')" unfolding sha_hex_def by (rule hex_encode_inj)
    then have "last xs = last ys'"
      using snoc.prems(3) False by (auto simp: ys inj_on_def)
    moreover have "inj_on H (set xs \<union> set ys')" using snoc.prems(3) by (rule inj_on_subset) (auto simp: ys)
    ultimately have "suffix xs ys' \<or> suffix ys' xs"
      using snoc.IH[of ys'] snoc.prems(1,2) False links_butlast ys by blast
    then show ?thesis by (auto simp: ys)
  qed
qed simp

text \<open>C6: two verified, fully chained logs that end in the same line are the same log up to lines
  missing from the front, as long as the hash does not collide on their lines: an edit, an
  insertion, a deletion or a reordering anywhere behind the first kept line is detected.\<close>
theorem audit_tamper_evident:
  assumes "list_all log_line xs" "list_all log_line ys" "chained xs" "chained ys"
    and "audit_verified H (log_of xs)" "audit_verified H (log_of ys)"
    and "inj_on H (set xs \<union> set ys)" "xs \<noteq> []" "ys \<noteq> []" "last xs = last ys"
  shows "suffix xs ys \<or> suffix ys xs"
proof -
  have "links H zs" if "list_all log_line zs" "chained zs" "audit_verified H (log_of zs)" for zs
    using verified_links[where H = H] that verified_log[OF that(1)] by (auto simp: links_def)
  with assms show ?thesis by (intro links_suffix) auto
qed

definition prev_line :: "string \<Rightarrow> string" where
  "prev_line p = marshal (JObj [(''prev'', JStr p)])"

definition two_lines :: "string list" where
  "two_lines = [prev_line '''', prev_line (sha_hex (\<lambda>s. s) (prev_line ''''))]"

lemma prev_line_facts:
  assumes "is_ascii p"
  shows "log_line (prev_line p)" "unmarshal (prev_line p) = Some (JObj [(''prev'', JStr p)])"
proof -
  let ?v = "JObj [(''prev'', JStr p)]"
  have wf: "json_wf ?v" by simp
  show "log_line (prev_line p)" unfolding log_line_def prev_line_def
  proof (intro conjI)
    show "NL \<notin> set (marshal ?v)" by (rule marshal_no_nl[OF wf])
    show "trim_space (marshal ?v) = marshal ?v" by (rule trim_space_id) (simp add: is_space_def)
    show "marshal ?v \<noteq> ''''" by simp
  qed
  have "is_ascii ''prev''" by (simp add: is_ascii_def byte_in_def)
  then show "unmarshal (prev_line p) = Some ?v"
    using unmarshal_marshal[OF wf] assms by (simp only: prev_line_def) (simp add: utf8_fix_ascii)
qed

lemma two_lines_facts:
  "list_all log_line two_lines" "chained two_lines" "audit_verified (\<lambda>s. s) (log_of two_lines)"
  "list_all log_line (tl two_lines)" "chained (tl two_lines)" "audit_verified (\<lambda>s. s) (log_of (tl two_lines))"
  "two_lines \<noteq> []" "tl two_lines \<noteq> []" "last two_lines = last (tl two_lines)"
proof -
  have e: "is_ascii ''''" by (simp add: is_ascii_def)
  note P = prev_line_facts[OF e] prev_line_facts[OF sha_hex_ascii, of "\<lambda>s. s" "prev_line ''''"]
  show l: "list_all log_line two_lines" "list_all log_line (tl two_lines)" using P by (simp_all add: two_lines_def)
  show "chained two_lines" "chained (tl two_lines)"
    using P by (simp_all add: two_lines_def chained_def json_str_def json_get_def)
  have "violations_of (\<lambda>s. s) 0 True '''' two_lines = []" "violations_of (\<lambda>s. s) 0 True '''' (tl two_lines) = []"
    using P by (simp_all add: two_lines_def violations_Cons line_violations_def json_str_def json_get_def
        del: verify_lines.simps(2))
  then show "audit_verified (\<lambda>s. s) (log_of two_lines)" "audit_verified (\<lambda>s. s) (log_of (tl two_lines))"
    using l by (simp_all add: verified_log)
qed (simp_all add: two_lines_def)

lemma audit_tamper_evident_witness: "suffix two_lines (tl two_lines) \<or> suffix (tl two_lines) two_lines"
  using audit_tamper_evident[OF two_lines_facts(1,4,2,5,3,6) _ two_lines_facts(7-9)] by (simp add: inj_on_def)

text \<open>what the chain does not detect: a verified log stays verified when its first records
  are cut off.\<close>
theorem audit_front_deletion_undetected:
  assumes "list_all log_line (xs @ ys)" "audit_verified H (log_of (xs @ ys))" "ys \<noteq> []"
  shows "audit_verified H (log_of ys)"
proof -
  obtain y zs where ys: "ys = y # zs" using assms(3) by (cases ys) auto
  have "violations_of H 0 True '''' (xs @ ys) = []" using assms(1,2) verified_log by blast
  then have v: "violations_of H (length xs) (xs = []) (if xs = [] then '''' else sha_hex H (last xs)) ys = []"
    using violations_append[OF assms(1), of H 0 True "''''"] by simp
  have shift: "(violations_of H i f p ls = []) = (violations_of H j f p ls = [])"
    if "list_all log_line ls" for i j f p ls
    using that
  proof (induction ls arbitrary: i j f p)
    case (Cons l ls)
    have "(line_violations i f p l = []) = (line_violations j f p l = [])"
      by (simp add: line_violations_def split: option.split json.split)
    with Cons show ?case by (simp add: violations_Cons del: verify_lines.simps) blast
  qed simp
  have first: "line_violations i f p l = [] \<Longrightarrow> line_violations j True q l = []" for i f p l j q
    by (simp add: line_violations_def split: option.splits json.splits)
  have "list_all log_line (y # zs)" using assms(1) ys by simp
  then have "violations_of H 0 True '''' (y # zs) = []"
    using v first[of "length xs" _ _ y 0 "''''"] shift[of zs "Suc (length xs)" False _ "Suc 0"]
    by (auto simp: ys violations_Cons simp del: verify_lines.simps)
  then show ?thesis using assms(1) by (simp add: verified_log ys)
qed

lemma audit_front_deletion_undetected_witness: "audit_verified (\<lambda>s. s) (log_of (tl two_lines))"
proof -
  have "two_lines = [hd two_lines] @ tl two_lines" using two_lines_facts(7) by simp
  then show ?thesis
    using audit_front_deletion_undetected[of "[hd two_lines]" "tl two_lines" "\<lambda>s. s"] two_lines_facts(1,3,8) by simp
qed

end
