(* ===== verification/GoScan.thy ===== *)
theory GoScan
  imports GoBase
begin

text \<open>
  \<^verbatim>\<open>fmt.Sscanf\<close> for the formats the program uses: literal text, a run of spaces (which must
  match at least one space of the input, and no newline), \<^verbatim>\<open>%d\<close> (64-bit) and \<^verbatim>\<open>%s\<close>.
  The verbs skip leading spaces but not newlines.  The result is the list of the arguments
  assigned before the first mismatch: the variables behind it keep their zero value.
\<close>

datatype scan_item = SLit string | SSpace | SInt | SStr
datatype scan_val = VInt int | VStr string

definition blank :: "char \<Rightarrow> bool" where "blank c \<longleftrightarrow> is_space c \<and> c \<noteq> NL"

definition scan_int :: "string \<Rightarrow> (int \<times> string) option" where
  "scan_int s =
     (let t = dropWhile blank s;
          (sgn, u) = (case t of c # v \<Rightarrow> if c = CHR ''+'' \<or> c = CHR ''-'' then ([c], v) else ([], t) | [] \<Rightarrow> ([], t));
          d = takeWhile is_digit u;
          (v, ok) = go_atoi (sgn @ d)
      in if d \<noteq> [] \<and> ok then Some (v, dropWhile is_digit u) else None)"

definition scan_str :: "string \<Rightarrow> (string \<times> string) option" where
  "scan_str s =
     (let t = dropWhile blank s; w = takeWhile (\<lambda>c. \<not> is_space c) t
      in if w = [] then None else Some (w, dropWhile (\<lambda>c. \<not> is_space c) t))"

fun sscanf :: "scan_item list \<Rightarrow> string \<Rightarrow> scan_val list" where
  "sscanf [] s = []"
| "sscanf (SLit p # f) s = (if has_prefix p s then sscanf f (drop (length p) s) else [])"
| "sscanf (SSpace # f) s =
     (case s of [] \<Rightarrow> []
      | c # t \<Rightarrow>
          if blank c \<and> (case dropWhile blank t of [] \<Rightarrow> True | d # _ \<Rightarrow> d \<noteq> NL)
          then sscanf f (dropWhile blank t) else [])"
| "sscanf (SInt # f) s = (case scan_int s of None \<Rightarrow> [] | Some (v, r) \<Rightarrow> VInt v # sscanf f r)"
| "sscanf (SStr # f) s = (case scan_str s of None \<Rightarrow> [] | Some (w, r) \<Rightarrow> VStr w # sscanf f r)"

text \<open>The i-th argument, or its zero value.\<close>
definition arg_int :: "scan_val list \<Rightarrow> nat \<Rightarrow> int" where
  "arg_int vs i = (if i < length vs then (case vs ! i of VInt v \<Rightarrow> v | VStr _ \<Rightarrow> 0) else 0)"

definition arg_str :: "scan_val list \<Rightarrow> nat \<Rightarrow> string" where
  "arg_str vs i = (if i < length vs then (case vs ! i of VStr w \<Rightarrow> w | VInt _ \<Rightarrow> '''') else '''')"

lemma scan_str_word:
  "is_word w \<Longrightarrow> (case r of [] \<Rightarrow> True | c # _ \<Rightarrow> is_space c) \<Longrightarrow> scan_str (w @ r) = Some (w, r)"
proof -
  assume w: "is_word w" and r: "case r of [] \<Rightarrow> True | c # _ \<Rightarrow> is_space c"
  have d: "dropWhile blank (w @ r) = w @ r" using w by (cases w) (auto simp: is_word_def blank_def)
  have t: "takeWhile (\<lambda>c. \<not> is_space c) r = []" "dropWhile (\<lambda>c. \<not> is_space c) r = r"
    using r by (cases r; simp)+
  have "takeWhile (\<lambda>c. \<not> is_space c) (w @ r) = w" "dropWhile (\<lambda>c. \<not> is_space c) (w @ r) = r"
    using w t by (simp_all add: is_word_def takeWhile_append2 dropWhile_append2)
  with d w show ?thesis by (simp add: scan_str_def Let_def is_word_def)
qed

lemma scan_int_nat:
  assumes "int n \<le> max_int64" "case r of [] \<Rightarrow> True | c # _ \<Rightarrow> \<not> is_digit c"
  shows "scan_int (show_nat n @ r) = Some (int n, r)"
proof -
  have dg: "\<forall>c \<in> set (show_nat n). is_digit c" using show_nat_digits[of n] by (simp add: list_all_iff)
  obtain c t where ct: "show_nat n = c # t" by (cases "show_nat n") auto
  then have c: "is_digit c" using dg by auto
  then have nb: "\<not> blank c" "c \<noteq> CHR ''+''" "c \<noteq> CHR ''-''"
    by (auto simp: blank_def is_space_def is_digit_def)
  have tk: "takeWhile is_digit (show_nat n @ r) = show_nat n" "dropWhile is_digit (show_nat n @ r) = r"
    using dg assms(2) by (cases r; simp add: takeWhile_append2 dropWhile_append2)+
  have dw: "dropWhile blank (show_nat n @ r) = show_nat n @ r" using ct nb by simp
  have sp: "(case show_nat n @ r of c # v \<Rightarrow> if c = CHR ''+'' \<or> c = CHR ''-'' then ([c], v) else ([], show_nat n @ r)
      | [] \<Rightarrow> ([], show_nat n @ r)) = ([], show_nat n @ r)" using ct nb by simp
  show ?thesis
    unfolding scan_int_def Let_def dw sp prod.case tk append.simps go_atoi_show_nat[OF assms(1)] by simp
qed

lemma scan_skip: "blank c \<Longrightarrow> scan_str (c # s) = scan_str s" "blank c \<Longrightarrow> scan_int (c # s) = scan_int s"
  by (simp_all add: scan_str_def scan_int_def)

lemma blank_sp [simp]: "blank SP"
  by (simp add: blank_def is_space_def)

lemma sscanf_space: "w \<noteq> [] \<Longrightarrow> \<not> is_space (hd w) \<Longrightarrow> sscanf (SSpace # f) (SP # w @ r) = sscanf f (w @ r)"
  by (cases w) (auto simp: blank_def is_space_def)
end
