(* ===== verification/ExecShell.thy ===== *)
theory ExecShell
  imports AuditLog GoScan
begin

text \<open>
  \<^verbatim>\<open>internal/server/exec_shell.go\<close>: choosing the user, expanding a transfer path, building
  the argument vector and running a command.  Running a process is an argument: the combined
  output and the error of an argument vector.  The quoting of the login path is checked against
  a model of how a POSIX shell reads a word.
\<close>

section \<open>The machine\<close>

record machine =
  m_root :: bool                          \<comment> \<open>Getuid is 0\<close>
  m_env_user :: string                    \<comment> \<open>WIRE_DEFAULT_USER\<close>
  m_home_dirs :: "string list option"     \<comment> \<open>the directories in /home, None when unreadable\<close>
  m_syno_dirs :: "string list option"     \<comment> \<open>the directories in /volume1/homes\<close>
  m_lookup :: "string \<Rightarrow> (string \<times> string \<times> string) option"  \<comment> \<open>uid, gid, home of a user\<close>
  m_home :: string                        \<comment> \<open>UserHomeDir, empty on an error\<close>
  m_zsh :: bool                           \<comment> \<open>/bin/zsh exists\<close>
  m_login_path :: "string \<Rightarrow> string \<Rightarrow> string option"  \<comment> \<open>PATH printed by the login shell of a user\<close>
  m_run :: "string \<Rightarrow> string list \<Rightarrow> bytes \<times> string option"   \<comment> \<open>output, error\<close>
  m_run_sep :: "string \<Rightarrow> string list \<Rightarrow> bytes \<times> bytes \<times> (int + string) option \<times> int"
    \<comment> \<open>stdout, stderr, exit code or other error, duration\<close>
  m_pid :: nat
  m_alloc :: int                          \<comment> \<open>the longest slice \<^verbatim>\<open>make\<close> can allocate\<close>

definition getDefaultUser :: "machine \<Rightarrow> string" where
  "getDefaultUser m =
     (if m_env_user m \<noteq> '''' then m_env_user m
      else (case find (\<lambda>n. n \<noteq> ''lost+found'' \<and> m_lookup m n \<noteq> None)
                  (case m_home_dirs m of None \<Rightarrow> [] | Some ds \<Rightarrow> ds) of
              Some n \<Rightarrow> n
            | None \<Rightarrow>
                (case find (\<lambda>n. n \<noteq> ''admin'' \<and> m_lookup m n \<noteq> None)
                        (case m_syno_dirs m of None \<Rightarrow> [] | Some ds \<Rightarrow> ds) of
                   Some n \<Rightarrow> n | None \<Rightarrow> '''')))"

text \<open>The user files are written for: uid, gid and home, None for the daemon's own.\<close>
definition effectiveTransferUser :: "machine \<Rightarrow> (string \<times> string \<times> string) option" where
  "effectiveTransferUser m =
     (if \<not> m_root m then None
      else let u = getDefaultUser m in if u = '''' \<or> u = ''root'' then None else m_lookup m u)"

definition expandTransferPath :: "machine \<Rightarrow> path \<Rightarrow> (string \<times> string \<times> string) option \<Rightarrow> path" where
  "expandTransferPath m path usr =
     (if path = '''' \<or> hd path \<noteq> CHR ''~'' then path
      else (case usr of
              Some (_, _, home) \<Rightarrow> (if home \<noteq> '''' then home @ tl path else m_home m @ tl path)
            | None \<Rightarrow> m_home m @ tl path))"

definition serverShellQuote :: "string \<Rightarrow> string" where
  "serverShellQuote s =
     [CHR 0x27] @ replace_all [CHR 0x27] [CHR 0x27, CHR 0x5C, CHR 0x27, CHR 0x27] s @ [CHR 0x27]"

text \<open>The cache of login paths is the second component.\<close>
definition loginPATHFor :: "machine \<Rightarrow> string \<Rightarrow> string \<Rightarrow> (string \<Rightarrow> string option) \<Rightarrow> string \<times> (string \<Rightarrow> string option)" where
  "loginPATHFor m usr shell cache =
     (case cache usr of Some p \<Rightarrow> (p, cache)
      | None \<Rightarrow> let p = (case m_login_path m usr shell of None \<Rightarrow> '''' | Some out \<Rightarrow> trim_space out)
                in (p, cache(usr \<mapsto> p)))"

definition userExecParts ::
  "machine \<Rightarrow> string \<Rightarrow> string \<Rightarrow> string \<Rightarrow> (string \<Rightarrow> string option) \<Rightarrow> (string \<times> string list) \<times> (string \<Rightarrow> string option)" where
  "userExecParts m usr shell cmdStr cache =
     (let (p, cache') = loginPATHFor m usr shell cache;
          full = (if p \<noteq> '''' then ''export PATH='' @ serverShellQuote p @ [NL] @ cmdStr else cmdStr)
      in ((''sudo'', [''-u'', usr, shell, ''-c'', full]), cache'))"

definition shell_path :: "machine \<Rightarrow> string" where
  "shell_path m = (if m_zsh m then ''/bin/zsh'' else ''/bin/bash'')"

definition default_account :: "machine \<Rightarrow> string option" where
  "default_account m =
     (if m_root m \<and> getDefaultUser m \<noteq> '''' \<and> getDefaultUser m \<noteq> ''root'' then Some (getDefaultUser m) else None)"

definition execShell ::
  "machine \<Rightarrow> string \<Rightarrow> (string \<Rightarrow> string option) \<Rightarrow> (bytes \<times> string option) \<times> (string \<Rightarrow> string option)" where
  "execShell m cmdStr cache =
     (case default_account m of
        Some usr \<Rightarrow>
          (let ((name, args), cache') = userExecParts m usr (shell_path m) cmdStr cache;
               (out, err) = m_run m name args
           in ((''[wire-user:'' @ usr @ ''] '' @ out, err), cache'))
      | None \<Rightarrow> (m_run m (shell_path m) [''-c'', cmdStr], cache))"

definition execShellStructured ::
  "machine \<Rightarrow> string \<Rightarrow> (string \<Rightarrow> string option) \<Rightarrow> exec_result \<times> (string \<Rightarrow> string option)" where
  "execShellStructured m cmdStr cache =
     (let (argv, cache') = (case default_account m of
             Some usr \<Rightarrow> userExecParts m usr (shell_path m) cmdStr cache
           | None \<Rightarrow> ((shell_path m, [''-c'', cmdStr]), cache));
          (out, err, fail, ms) = m_run_sep m (fst argv) (snd argv);
          base = exec_zero\<lparr>er_command := cmdStr, er_exit := -1, er_duration := ms, er_stdout := out, er_stderr := err\<rparr>
      in ((case fail of
             None \<Rightarrow> base\<lparr>er_success := True, er_exit := 0\<rparr>
           | Some (Inl code) \<Rightarrow> base\<lparr>er_exit := code\<rparr>
           | Some (Inr msg) \<Rightarrow> base\<lparr>er_error := msg\<rparr>), cache'))"

definition ExecLocalStructured :: "machine \<Rightarrow> string \<Rightarrow> (string \<Rightarrow> string option) \<Rightarrow> exec_result \<times> (string \<Rightarrow> string option)" where
  "ExecLocalStructured m cmd cache = execShellStructured m cmd cache"

text \<open>The JSON of a result: the tagged fields in order, empty optional ones left out.\<close>
definition exec_json :: "exec_result \<Rightarrow> json" where
  "exec_json r =
     JObj ([(''success'', JBool (er_success r))]
       @ (if er_command r \<noteq> '''' then [(''command'', JStr (er_command r))] else [])
       @ [(''stdout'', JStr (er_stdout r)), (''stderr'', JStr (er_stderr r)),
          (''exit_code'', json_int (er_exit r)), (''duration_ms'', json_int (er_duration r))]
       @ (if er_error r \<noteq> '''' then [(''error'', JStr (er_error r))] else [])
       @ (if er_code r \<noteq> '''' then [(''error_code'', JStr (er_code r))] else [])
       @ (if er_retryable r then [(''retryable'', JBool True)] else []))"

definition writeExecJSON :: "conn option \<Rightarrow> exec_result \<Rightarrow> 'pol world \<Rightarrow> 'pol world" where
  "writeExecJSON cn r w = send cn [NL] (send cn (marshal (exec_json r)) w)"

section \<open>Quoting\<close>

text \<open>How a POSIX shell reads one word: single quotes take everything up to the next one, a
  backslash outside of them the next byte, and an unquoted blank ends the word.\<close>
fun sh_word :: "string \<Rightarrow> (string \<times> string) option" where
  "sh_word [] = Some ('''', '''')"
| "sh_word (c # s) =
     (if c = CHR 0x27 then
        (case cut CHR 0x27 s of None \<Rightarrow> None
         | Some (a, b) \<Rightarrow> if length b < Suc (length s) then map_option (\<lambda>(x, r). (a @ x, r)) (sh_word b) else None)
      else if c = CHR 0x5C then (case s of [] \<Rightarrow> None | d # t \<Rightarrow> map_option (\<lambda>(x, r). (d # x, r)) (sh_word t))
      else if is_space c then Some ('''', c # s)
      else map_option (\<lambda>(x, r). (c # x, r)) (sh_word s))"

abbreviation (input) sq :: char where "sq \<equiv> CHR 0x27"

lemma replace_quote:
  "replace_ne [CHR 0x27] n (c # s) = (if c = CHR 0x27 then n @ replace_ne [CHR 0x27] n s else c # replace_ne [CHR 0x27] n s)"
  "replace_ne [CHR 0x27] n [] = []"
  by simp_all

lemma sh_word_quote_step:
  assumes "cut (CHR 0x27) s = Some (a, b)"
  shows "sh_word (CHR 0x27 # s) = map_option (\<lambda>(x, r). (a @ x, r)) (sh_word b)"
  using cut_Some[OF assms] assms by simp

lemma cut_cons: "c \<noteq> d \<Longrightarrow> cut d (c # s) = map_option (\<lambda>(a, b). (c # a, b)) (cut d s)"
  by (cases "cut d s") auto

lemma quoted_body:
  assumes "sh_word rest = Some (x, r)"
  shows "sh_word (CHR 0x27 # replace_ne [CHR 0x27] [CHR 0x27, CHR 0x5C, CHR 0x27, CHR 0x27] s @ CHR 0x27 # rest) = Some (s @ x, r)"
proof (induction s)
  case Nil
  have "cut (CHR 0x27) (CHR 0x27 # rest) = Some ([], rest)" by simp
  from sh_word_quote_step[OF this] show ?case using assms by (simp del: sh_word.simps add: replace_quote)
next
  case (Cons c s)
  let ?t = "replace_ne [CHR 0x27] [CHR 0x27, CHR 0x5C, CHR 0x27, CHR 0x27] s @ CHR 0x27 # rest"
  show ?case
  proof (cases "c = CHR 0x27")
    case True
    have k: "cut (CHR 0x27) (CHR 0x27 # CHR 0x5C # CHR 0x27 # CHR 0x27 # ?t) = Some ([], CHR 0x5C # CHR 0x27 # CHR 0x27 # ?t)" by simp
    have "sh_word (CHR 0x5C # CHR 0x27 # CHR 0x27 # ?t) = Some (CHR 0x27 # s @ x, r)"
      using Cons.IH by (subst sh_word.simps) (simp del: sh_word.simps)
    with sh_word_quote_step[OF k] True show ?thesis by (simp del: sh_word.simps add: replace_quote)
  next
    case False
    obtain a b where ab: "cut (CHR 0x27) ?t = Some (a, b)"
      by (cases "cut (CHR 0x27) ?t") auto
    from Cons.IH sh_word_quote_step[OF ab]
    have "map_option (\<lambda>(y, r). (a @ y, r)) (sh_word b) = Some (s @ x, r)" by (simp del: sh_word.simps)
    then obtain y where y: "sh_word b = Some (y, r)" "s @ x = a @ y" by auto
    have "cut (CHR 0x27) (c # ?t) = Some (c # a, b)" using False ab by (simp add: cut_cons)
    from sh_word_quote_step[OF this] y False show ?thesis by (simp del: sh_word.simps add: replace_quote)
  qed
qed

lemma sh_word_end: "rest = [] \<or> is_space (hd rest) \<Longrightarrow> sh_word rest = Some ('''', rest)"
  by (cases rest) (auto simp: is_space_def)

lemma sh_word_quoted:
  "rest = [] \<or> is_space (hd rest) \<Longrightarrow> sh_word (serverShellQuote s @ rest) = Some (s, rest)"
  using quoted_body[OF sh_word_end, of rest s] by (simp add: serverShellQuote_def replace_all_def)

lemma sh_word_char:
  "c \<noteq> CHR 0x27 \<Longrightarrow> c \<noteq> CHR 0x5C \<Longrightarrow> \<not> is_space c \<Longrightarrow> sh_word s = Some (x, r) \<Longrightarrow> sh_word (c # s) = Some (c # x, r)"
  by simp

lemma sh_word_plain:
  "\<forall>c \<in> set p. c \<noteq> CHR 0x27 \<and> c \<noteq> CHR 0x5C \<and> \<not> is_space c \<Longrightarrow> sh_word s = Some (x, r) \<Longrightarrow>
    sh_word (p @ s) = Some (p @ x, r)"
  by (induction p) (simp_all del: sh_word.simps add: sh_word_char)

text \<open>the command of a user is run behind a login path that cannot break out: whatever the login
  shell printed, the script given to \<^verbatim>\<open>sudo\<close> is the word \<^verbatim>\<open>export\<close>, one word that sets PATH to
  exactly that text, and then the command on a line of its own; without a login path it is the
  command alone.\<close>
theorem userExecParts_path_quoted:
  "let ((name, args), cache') = userExecParts m usr shell cmdStr cache; p = fst (loginPATHFor m usr shell cache) in
   cache' usr = Some p \<and>
   (\<exists>full. name = ''sudo'' \<and> args = [''-u'', usr, shell, ''-c'', full] \<and>
     (if p = '''' then full = cmdStr
      else \<exists>r1. sh_word full = Some (''export'', SP # r1) \<and> sh_word r1 = Some (''PATH='' @ p, NL # cmdStr)))"
proof -
  obtain p cache' where l: "loginPATHFor m usr shell cache = (p, cache')" by (cases "loginPATHFor m usr shell cache")
  then have c: "cache' usr = Some p" by (auto simp: loginPATHFor_def Let_def split: option.splits)
  have nl: "is_space NL" "is_space SP" by (simp_all add: is_space_def)
  have w: "sh_word (''PATH='' @ serverShellQuote p @ NL # cmdStr) = Some (''PATH='' @ p, NL # cmdStr)"
    by (rule sh_word_plain) (simp add: is_space_def, rule sh_word_quoted, simp add: nl)
  have e: "sh_word (''export'' @ SP # r) = Some (''export'' @ '''', SP # r)" for r
    by (rule sh_word_plain) (simp add: is_space_def, rule sh_word_end, simp add: nl)
  have "sh_word (''export PATH='' @ serverShellQuote p @ NL # cmdStr) =
      Some (''export'', SP # ''PATH='' @ serverShellQuote p @ NL # cmdStr)"
    using e[of "''PATH='' @ serverShellQuote p @ NL # cmdStr"] by (simp del: sh_word.simps)
  with w c show ?thesis by (simp add: userExecParts_def l del: sh_word.simps) 
qed

end

