(* ===== verification/McpExec.thy ===== *)
theory McpExec
  imports Classify Reach ExecShell
begin

text \<open>
  The tools of the MCP front end that act on a node (\<^verbatim>\<open>cmd/vssh/mcp_exec.go\<close>,
  \<^verbatim>\<open>mcp_tools.go\<close>, \<^verbatim>\<open>mcp_grouped.go\<close>, \<^verbatim>\<open>mcp.go\<close>). A tool takes its arguments as a
  JSON object and returns a JSON object; on the way it calls daemons. The calls are recorded in the
  state, the answers of the daemons, the clock and the text and value of floats are arguments.
\<close>

section \<open>Arguments of a tool\<close>

definition getString :: "json \<Rightarrow> string \<Rightarrow> string" where
  "getString args k = (case json_str k args of Some s \<Rightarrow> s | None \<Rightarrow> '''')"

text \<open>A float is kept as its text.\<close>
definition getFloat :: "json \<Rightarrow> string \<Rightarrow> string \<Rightarrow> string" where
  "getFloat args k fallback = (case json_get k args of Some (JNum n) \<Rightarrow> n | _ \<Rightarrow> fallback)"

definition getBool :: "json \<Rightarrow> string \<Rightarrow> bool \<Rightarrow> bool" where
  "getBool args k fallback = (case json_get k args of Some (JBool b) \<Rightarrow> b | _ \<Rightarrow> fallback)"

definition normalizeList :: "string list \<Rightarrow> string list" where
  "normalizeList vs = sort (filter (\<lambda>v. v \<noteq> '''') (dedup (map (\<lambda>v. to_lower (trim_space v)) vs)))"

definition getStringList :: "json \<Rightarrow> string \<Rightarrow> string list \<Rightarrow> string list" where
  "getStringList args k fallback =
     (case json_get k args of
        Some (JArr vs) \<Rightarrow> normalizeList (concat (map (\<lambda>v. case v of JStr s \<Rightarrow> [s] | _ \<Rightarrow> []) vs))
      | Some (JStr s) \<Rightarrow> if trim_space s = '''' then fallback else normalizeList (split_on (CHR '','') s)
      | _ \<Rightarrow> fallback)"

text \<open>A list that was not given is nil.\<close>
definition given_list :: "json \<Rightarrow> string \<Rightarrow> string list option \<Rightarrow> string list option" where
  "given_list args k fallback =
     (case json_get k args of
        Some (JArr _) \<Rightarrow> Some (getStringList args k [])
      | Some (JStr s) \<Rightarrow> if trim_space s = '''' then fallback else Some (getStringList args k [])
      | _ \<Rightarrow> fallback)"

definition getParamsMap :: "json \<Rightarrow> string \<Rightarrow> json" where
  "getParamsMap args k = (case json_get k args of Some (JObj ms) \<Rightarrow> JObj ms | _ \<Rightarrow> JObj [])"

section \<open>Calls\<close>

text \<open>A command, an RPC, INFO, an upload with its data, a download.\<close>
datatype call = ExecOn string int string | RpcOn string int string json | InfoOn string int
  | PutOn string int path bytes | GetOn string int path

record reply =
  rp_success :: bool
  rp_data :: json
  rp_error :: string

record front =
  fr_site :: site
  fr_home :: string
  fr_port :: int                                  \<comment> \<open>getPort\<close>
  fr_parallel :: string                           \<comment> \<open>the default parallelism as the text of a float\<close>
  fr_dial :: "string \<Rightarrow> bool"                     \<comment> \<open>whether a probe answers\<close>
  fr_arrivals :: "nat list"                       \<comment> \<open>the order in which probes answer\<close>
  fr_exec :: "string \<Rightarrow> int \<Rightarrow> string \<Rightarrow> exec_result \<times> string option"   \<comment> \<open>ExecCommandStructuredTimeout\<close>
  fr_rpc :: "string \<Rightarrow> int \<Rightarrow> string \<Rightarrow> json \<Rightarrow> string + reply"           \<comment> \<open>CallRPC\<close>
  fr_info :: "string \<Rightarrow> int \<Rightarrow> string + json"                             \<comment> \<open>GetInfo\<close>
  fr_times :: "string \<times> string \<times> int"            \<comment> \<open>start, end, milliseconds between\<close>
  fr_num :: "string \<Rightarrow> json"                      \<comment> \<open>the JSON of a float\<close>
  fr_int :: "string \<Rightarrow> int"                       \<comment> \<open>a float as an integer\<close>
  fr_pos :: "string \<Rightarrow> bool"                      \<comment> \<open>a float above zero\<close>

text \<open>The keys expected of addresses, the files of the controller, and the calls made so far.\<close>
record mstate =
  ms_expected :: expected
  ms_fs :: fs
  ms_calls :: "call list"

definition log_call :: "call \<Rightarrow> mstate \<Rightarrow> mstate" where
  "log_call c s = s\<lparr>ms_calls := ms_calls s @ [c]\<rparr>"

definition reach :: "front \<Rightarrow> string \<Rightarrow> mstate \<Rightarrow> string \<times> mstate" where
  "reach fr target s =
     (let (h, ex) = resolveReachableHost (fr_site fr) (ms_fs s) (fr_home fr) (fr_dial fr) (fr_arrivals fr) target (ms_expected s)
      in (h, s\<lparr>ms_expected := ex\<rparr>))"

definition exec_on :: "front \<Rightarrow> string \<Rightarrow> int \<Rightarrow> string \<Rightarrow> mstate \<Rightarrow> (exec_result \<times> string option) \<times> mstate" where
  "exec_on fr host port command s = (fr_exec fr host port command, log_call (ExecOn host port command) s)"

definition callRPCNative :: "front \<Rightarrow> string \<Rightarrow> string \<Rightarrow> json \<Rightarrow> mstate \<Rightarrow> (string + reply) \<times> mstate" where
  "callRPCNative fr target mth params s =
     (let (h0, port) = parseHostPort (fr_port fr) target; (h, s1) = reach fr h0 s
      in (fr_rpc fr h port mth params, log_call (RpcOn h port mth params) s1))"

section \<open>JSON of the results\<close>

definition tool_error :: "string \<Rightarrow> string \<Rightarrow> json" where
  "tool_error code msg = json_map [(''code'', JStr code), (''message'', JStr msg)]"

definition retry_error :: "string \<Rightarrow> string \<Rightarrow> bool \<Rightarrow> json" where
  "retry_error code msg retry = json_map [(''code'', JStr code), (''message'', JStr msg), (''retryable'', JBool retry)]"

definition texts :: "string list \<Rightarrow> json" where "texts vs = JArr (map JStr vs)"

definition maybe_list :: "string list option \<Rightarrow> json" where
  "maybe_list l = (case l of None \<Rightarrow> JNull | Some xs \<Rightarrow> texts xs)"

definition decision_json :: "decision \<Rightarrow> json" where
  "decision_json d = JObj ([(''allowed'', JBool (pd_allowed d)), (''risk'', JStr (pd_risk d)), (''reason'', JStr (pd_reason d))]
     @ omit_texts ''matched_patterns'' (pd_patterns d) @ [(''requires_approval'', JBool (pd_approval d))])"

definition reply_json :: "reply \<Rightarrow> json" where
  "reply_json r = JObj ([(''success'', JBool (rp_success r))] @ (if rp_data r = JNull then [] else [(''data'', rp_data r)])
     @ omit_empty ''error'' (rp_error r))"

definition times_json :: "front \<Rightarrow> (string \<times> json) list" where
  "times_json fr = (case fr_times fr of (t0, t1, ms) \<Rightarrow>
     [(''started_at'', JStr t0), (''ended_at'', JStr t1), (''duration_ms'', json_int ms)])"

section \<open>One command on one node\<close>

text \<open>\<^verbatim>\<open>ssh.ExecError\<close>: code, message, whether to retry.\<close>
type_synonym exec_error = "string \<times> string \<times> bool"

record native_result =
  nr_success :: bool
  nr_target :: string
  nr_command :: string
  nr_endpoint :: string
  nr_stdout :: string
  nr_stderr :: string
  nr_exit :: int
  nr_duration :: int
  nr_error :: "exec_error option"

definition native_json :: "native_result \<Rightarrow> json" where
  "native_json r = JObj
     ([(''success'', JBool (nr_success r)), (''host'', JStr (nr_target r)), (''target'', JStr (nr_target r)),
       (''command'', JStr (nr_command r))] @ omit_empty ''endpoint'' (nr_endpoint r)
      @ [(''stdout'', JStr (nr_stdout r)), (''stderr'', JStr (nr_stderr r)), (''exit_code'', json_int (nr_exit r)),
         (''duration_ms'', json_int (nr_duration r)),
         (''attempts'', JArr [JObj [(''endpoint'', JStr (nr_endpoint r)), (''path'', JStr ''native daemon''),
            (''transport'', JStr ''vssh-native'')]]),
         (''transport'', JStr ''vssh-native''), (''fallback_used'', JBool False)]
      @ (case nr_error r of None \<Rightarrow> []
         | Some (c, m, b) \<Rightarrow> [(''error'', JObj [(''code'', JStr c), (''message'', JStr m), (''retryable'', JBool b)])]))"

definition execNativeCapture ::
  "front \<Rightarrow> string \<Rightarrow> string \<Rightarrow> mstate \<Rightarrow> (native_result \<times> string option) \<times> mstate" where
  "execNativeCapture fr target command s =
     (let (host, ex) = resolveNativeHost (fr_site fr) (ms_fs s) (fr_home fr) target (ms_expected s);
          ((n, err), s1) = exec_on fr host (fr_port fr) command (s\<lparr>ms_expected := ex\<rparr>);
          r = \<lparr>nr_success = False, nr_target = target, nr_command = command, nr_endpoint = host,
               nr_stdout = er_stdout n, nr_stderr = er_stderr n, nr_exit = er_exit n,
               nr_duration = (if 0 < er_duration n then er_duration n else snd (snd (fr_times fr))), nr_error = None\<rparr>
      in case err of
           Some m \<Rightarrow>
             ((r\<lparr>nr_error := Some (if er_code n = '''' then (''native_execution_failed'', m, True)
                                  else (er_code n, m, er_retryable n))\<rparr>, Some m), s1)
         | None \<Rightarrow>
             if er_success n then ((r\<lparr>nr_success := True\<rparr>, None), s1)
             else
               (let m = (if er_error n = '''' then ''remote command exited with code '' @ show_int (er_exit n) else er_error n)
                in ((r\<lparr>nr_error := Some (if er_code n = '''' then ''remote_exit_nonzero'' else er_code n, m, er_retryable n)\<rparr>,
                     Some m), s1)))"

section \<open>The approval gate\<close>

definition defaultTimeout :: string where "defaultTimeout = ''30''"

text \<open>The daemon's own decision on the command, asked for on the default port.\<close>
definition daemonPreapproves :: "front \<Rightarrow> string \<Rightarrow> string \<Rightarrow> mstate \<Rightarrow> (bool \<times> string) \<times> mstate" where
  "daemonPreapproves fr target command s =
     (let (h, s1) = reach fr target s; params = JObj [(''command'', JStr command)];
          s2 = log_call (RpcOn h defaultPort ''policy_check'' params) s1
      in case fr_rpc fr h defaultPort ''policy_check'' params of
           Inl _ \<Rightarrow> ((False, ''''), s2)
         | Inr r \<Rightarrow>
             if \<not> rp_success r then ((False, ''''), s2)
             else (let d = getString (rp_data r) ''decision'' in ((d = ''preapproved'' \<or> d = ''allow'', d), s2)))"

definition missing :: "(string \<times> json) list \<Rightarrow> string \<Rightarrow> json" where
  "missing ms msg = json_map ([(''success'', JBool False)] @ ms @ [(''error'', tool_error ''missing_argument'' msg)])"

definition by_flag :: "decision \<Rightarrow> decision" where
  "by_flag d = d\<lparr>pd_allowed := True, pd_reason := ''dangerous command allowed by explicit allow_dangerous flag''\<rparr>"

definition blocked_json :: "front \<Rightarrow> string \<Rightarrow> string \<Rightarrow> string \<Rightarrow> decision \<Rightarrow> (string \<times> json) list" where
  "blocked_json fr target command timeout d =
     [(''success'', JBool False), (''tool'', JStr ''vssh_exec''), (''target'', JStr target), (''command'', JStr command)]
     @ times_json fr
     @ [(''timeout_sec'', fr_num fr timeout), (''policy'', decision_json d), (''approved'', JBool False), (''blocked'', JBool True),
        (''evidence_type'', JStr ''policy_decision''), (''error'', retry_error ''policy_blocked'' (pd_reason d) False)]"

definition executed_json ::
  "front \<Rightarrow> string \<Rightarrow> string \<Rightarrow> string \<Rightarrow> decision \<Rightarrow> bool \<Rightarrow> native_result \<Rightarrow> string option \<Rightarrow> (string \<times> json) list" where
  "executed_json fr target command timeout d approved r err =
     [(''success'', JBool (err = None)), (''tool'', JStr ''vssh_exec''), (''target'', JStr target), (''command'', JStr command)]
     @ times_json fr
     @ [(''timeout_sec'', fr_num fr timeout), (''policy'', decision_json d), (''approved'', JBool approved), (''blocked'', JBool False),
        (''evidence_type'', JStr ''execution_result''), (''result'', native_json r)]
     @ (case err of None \<Rightarrow> []
        | Some m \<Rightarrow> [(''error'', case nr_error r of
              Some (c, t, b) \<Rightarrow> JObj [(''code'', JStr c), (''message'', JStr t), (''retryable'', JBool b)]
            | None \<Rightarrow> retry_error ''execution_failed'' m True)])"

text \<open>The members of the payload, so that a caller can change some of them.\<close>
definition toolExec_members ::
  "front \<Rightarrow> string \<Rightarrow> string \<Rightarrow> string \<Rightarrow> bool \<Rightarrow> mstate \<Rightarrow> (string \<times> json) list \<times> mstate" where
  "toolExec_members fr target command timeout0 allow s =
     (if target = '''' \<or> command = '''' then
        ([(''success'', JBool False), (''tool'', JStr ''vssh_exec''), (''target'', JStr target), (''command'', JStr command),
          (''error'', tool_error ''missing_argument'' ''target and command are required'')], s)
      else
        let timeout = (if fr_pos fr timeout0 then timeout0 else defaultTimeout);
            d = classifyCommand command;
            run = (\<lambda>d' s. let ((r, err), s') = execNativeCapture fr target command s
                          in (executed_json fr target command timeout d' allow r err, s'))
        in if pd_allowed d then run d s
           else if allow then run (by_flag d) s
           else (let ((ok, why), s1) = daemonPreapproves fr target command s in
                 if ok then run (d\<lparr>pd_allowed := True, pd_reason := ''pre-approved by daemon policy ('' @ why @ '')''\<rparr>) s1
                 else (blocked_json fr target command timeout d, s1)))"

definition toolExec :: "front \<Rightarrow> string \<Rightarrow> string \<Rightarrow> string \<Rightarrow> bool \<Rightarrow> mstate \<Rightarrow> json \<times> mstate" where
  "toolExec fr target command timeout allow s =
     (let (ms, s1) = toolExec_members fr target command timeout allow s in (json_map ms, s1))"

section \<open>Many nodes\<close>

text \<open>The nodes are taken one after the other, where the code takes them side by side.\<close>
fun over_targets :: "(string \<Rightarrow> mstate \<Rightarrow> 'a \<times> mstate) \<Rightarrow> string list \<Rightarrow> mstate \<Rightarrow> (string \<times> 'a) list \<times> mstate" where
  "over_targets f [] s = ([], s)"
| "over_targets f (t # ts) s =
     (let (r, s1) = f t s; (rs, s2) = over_targets f ts s1 in ((t, r) # rs, s2))"

definition run_one :: "front \<Rightarrow> string \<Rightarrow> string \<Rightarrow> mstate \<Rightarrow> (string + exec_result) \<times> mstate" where
  "run_one fr command target s =
     (let (h0, port) = parseHostPort (fr_port fr) target; (h, s1) = reach fr h0 s;
          ((n, err), s2) = exec_on fr h port command s1
      in (case err of Some m \<Rightarrow> Inl m | None \<Rightarrow> Inr n, s2))"

definition runMany :: "front \<Rightarrow> string list \<Rightarrow> string \<Rightarrow> mstate \<Rightarrow> (string \<times> (string + exec_result)) list \<times> mstate" where
  "runMany fr targets command s = over_targets (run_one fr command) targets s"

definition rpcMany :: "front \<Rightarrow> string list \<Rightarrow> string \<Rightarrow> json \<Rightarrow> mstate \<Rightarrow> (string \<times> (string + reply)) list \<times> mstate" where
  "rpcMany fr targets mth params s = over_targets (\<lambda>t. callRPCNative fr t mth params) targets s"

definition facts_one :: "front \<Rightarrow> string \<Rightarrow> mstate \<Rightarrow> (string + json) \<times> mstate" where
  "facts_one fr target s =
     (let (h0, port) = parseHostPort (fr_port fr) target; (h, s1) = reach fr h0 s
      in (fr_info fr h port, log_call (InfoOn h port) s1))"

definition factsMany :: "front \<Rightarrow> string list \<Rightarrow> mstate \<Rightarrow> (string \<times> (string + json)) list \<times> mstate" where
  "factsMany fr targets s = over_targets (facts_one fr) targets s"

definition multi_json :: "('a \<Rightarrow> json) \<Rightarrow> string \<times> (string + 'a) \<Rightarrow> json" where
  "multi_json f tr = (case tr of (t, r) \<Rightarrow>
     JObj ([(''target'', JStr t)] @ (case r of Inl e \<Rightarrow> omit_empty ''error'' e | Inr x \<Rightarrow> [(''result'', f x)])))"

definition count_ok :: "('a \<Rightarrow> bool) \<Rightarrow> (string \<times> (string + 'a)) list \<Rightarrow> nat" where
  "count_ok good rs = length (filter (\<lambda>(_, r). case r of Inl _ \<Rightarrow> False | Inr x \<Rightarrow> good x) rs)"

definition many_json :: "front \<Rightarrow> string list \<Rightarrow> string \<Rightarrow> nat \<Rightarrow> nat \<Rightarrow> json list \<Rightarrow> (string \<times> json) list" where
  "many_json fr targets par n ok results =
     times_json fr @
     [(''success'', JBool (n = ok)), (''targets'', texts targets),
      (''max_parallelism'', json_int (normalizedMaxParallelism (fr_int fr par) (length targets))),
      (''summary'', json_map [(''total'', json_int (int (length targets))), (''ok'', json_int (int ok)), (''failed'', json_int (int (n - ok)))]),
      (''results'', JArr results)]"

definition toolExecMany :: "front \<Rightarrow> json \<Rightarrow> mstate \<Rightarrow> json \<times> mstate" where
  "toolExecMany fr args s =
     (let targets = getStringList args ''targets'' []; command = getString args ''command'';
          head = [(''tool'', JStr ''vssh_exec_many''), (''targets'', maybe_list (given_list args ''targets'' None)), (''command'', JStr command)]
      in if targets = [] \<or> command = '''' then (missing head ''targets and command are required'', s)
         else
           let d = classifyCommand command; allow = getBool args ''allow_dangerous'' False in
           if \<not> pd_allowed d \<and> \<not> allow then
             (json_map (head @ [(''success'', JBool False), (''policy'', decision_json d), (''blocked'', JBool True),
                (''evidence_type'', JStr ''policy_decision''), (''error'', retry_error ''policy_blocked'' (pd_reason d) False)]), s)
           else
             let d' = (if allow \<and> \<not> pd_allowed d then by_flag d else d);
                 par = getFloat args ''max_parallelism'' (fr_parallel fr);
                 (rs, s1) = runMany fr targets command s
             in (json_map ([(''tool'', JStr ''vssh_exec_many''), (''command'', JStr command), (''policy'', decision_json d'),
                   (''approved'', JBool allow), (''evidence_type'', JStr ''execution_result_many'')]
                   @ many_json fr targets par (length rs) (count_ok er_success rs) (map (multi_json exec_json) rs)), s1))"

definition rpc_payload :: "front \<Rightarrow> string \<Rightarrow> string \<Rightarrow> string \<Rightarrow> string \<Rightarrow> string \<Rightarrow> string \<Rightarrow> string + reply \<Rightarrow> json" where
  "rpc_payload fr tool target mth field failed_code error_code r =
     json_map ([(''success'', JBool (case r of Inl _ \<Rightarrow> False | Inr x \<Rightarrow> rp_success x)), (''tool'', JStr tool),
        (''target'', JStr target), (''method'', JStr mth),
        (field, case r of Inl _ \<Rightarrow> JNull | Inr x \<Rightarrow> reply_json x)]
      @ times_json fr
      @ (case r of Inl e \<Rightarrow> [(''error'', retry_error failed_code e True)]
         | Inr x \<Rightarrow> if rp_success x then [] else [(''error'', retry_error error_code (rp_error x) False)]))"

definition toolRPCCall :: "front \<Rightarrow> json \<Rightarrow> mstate \<Rightarrow> json \<times> mstate" where
  "toolRPCCall fr args s =
     (let target = getString args ''target''; mth = getString args ''method'' in
      if target = '''' \<or> mth = '''' then
        (missing [(''tool'', JStr ''vssh_rpc_call''), (''target'', JStr target), (''method'', JStr mth)] ''target and method are required'', s)
      else (let (r, s1) = callRPCNative fr target mth (getParamsMap args ''params'') s
            in (rpc_payload fr ''vssh_rpc_call'' target mth ''result'' ''rpc_failed'' ''rpc_error'' r, s1)))"

definition toolRPCMany :: "front \<Rightarrow> json \<Rightarrow> mstate \<Rightarrow> json \<times> mstate" where
  "toolRPCMany fr args s =
     (let targets = getStringList args ''targets'' []; mth = getString args ''method'';
          head = [(''tool'', JStr ''vssh_rpc_many''), (''targets'', maybe_list (given_list args ''targets'' None)), (''method'', JStr mth)]
      in if targets = [] \<or> mth = '''' then (missing head ''targets and method are required'', s)
         else
           let par = getFloat args ''max_parallelism'' (fr_parallel fr);
               (rs, s1) = rpcMany fr targets mth (getParamsMap args ''params'') s
           in (json_map ([(''tool'', JStr ''vssh_rpc_many''), (''method'', JStr mth)]
                 @ many_json fr targets par (length rs) (count_ok rp_success rs) (map (multi_json reply_json) rs)), s1))"

definition toolFacts :: "front \<Rightarrow> json \<Rightarrow> mstate \<Rightarrow> json \<times> mstate" where
  "toolFacts fr args s =
     (let target = getString args ''target'' in
      if target = '''' then (missing [(''tool'', JStr ''vssh_facts'')] ''target is required'', s)
      else
        let (h0, port) = parseHostPort (fr_port fr) target; (h, s1) = reach fr h0 s;
            r = fr_info fr h port; s2 = log_call (InfoOn h port) s1
        in (json_map ([(''success'', JBool (case r of Inl _ \<Rightarrow> False | Inr _ \<Rightarrow> True)), (''tool'', JStr ''vssh_facts''),
              (''target'', JStr target), (''endpoint'', JStr h), (''facts'', case r of Inl _ \<Rightarrow> JNull | Inr v \<Rightarrow> v)]
              @ times_json fr @ (case r of Inl e \<Rightarrow> [(''error'', retry_error ''facts_failed'' e True)] | Inr _ \<Rightarrow> [])), s2))"

definition toolFactsMany :: "front \<Rightarrow> json \<Rightarrow> mstate \<Rightarrow> json \<times> mstate" where
  "toolFactsMany fr args s =
     (let targets = getStringList args ''targets'' [] in
      if targets = [] then (missing [(''tool'', JStr ''vssh_facts_many'')] ''targets is required'', s)
      else
        let par = getFloat args ''max_parallelism'' (fr_parallel fr); (rs, s1) = factsMany fr targets s
        in (json_map ([(''tool'', JStr ''vssh_facts_many'')]
              @ many_json fr targets par (length rs) (count_ok (\<lambda>_. True) rs) (map (multi_json id) rs)), s1))"

section \<open>Jobs and artifacts\<close>

definition toolRPCJobCall :: "front \<Rightarrow> string \<Rightarrow> string \<Rightarrow> string \<Rightarrow> json \<Rightarrow> mstate \<Rightarrow> json \<times> mstate" where
  "toolRPCJobCall fr tool target mth params s =
     (let (r, s1) = callRPCNative fr target mth params s
      in (rpc_payload fr tool target mth ''response'' ''job_rpc_failed'' ''job_rpc_error'' r, s1))"

definition toolJobStart :: "front \<Rightarrow> json \<Rightarrow> mstate \<Rightarrow> json \<times> mstate" where
  "toolJobStart fr args s =
     (let target = getString args ''target''; command = getString args ''command'' in
      if target = '''' \<or> command = '''' then
        (missing [(''tool'', JStr ''vssh_job_start'')] ''target and command are required'', s)
      else
        let d = classifyCommand command in
        if \<not> pd_allowed d \<and> \<not> getBool args ''allow_dangerous'' False then
          (json_map [(''success'', JBool False), (''tool'', JStr ''vssh_job_start''), (''target'', JStr target),
             (''command'', JStr command), (''policy'', decision_json d), (''blocked'', JBool True),
             (''error'', retry_error ''policy_blocked'' (pd_reason d) False)], s)
        else toolRPCJobCall fr ''vssh_job_start'' target ''job_start'' (JObj [(''command'', JStr command)]) s)"

definition toolJobRPC :: "front \<Rightarrow> json \<Rightarrow> string \<Rightarrow> string \<Rightarrow> mstate \<Rightarrow> json \<times> mstate" where
  "toolJobRPC fr args tool mth s =
     (let target = getString args ''target''; jid = getString args ''id'' in
      if target = '''' \<or> jid = '''' then (missing [(''tool'', JStr tool)] ''target and id are required'', s)
      else toolRPCJobCall fr tool target mth
        (json_map ([(''id'', JStr jid)]
           @ (if mth = ''job_logs'' then [(''tail_bytes'', fr_num fr (getFloat args ''tail_bytes'' ''0''))] else []))) s)"

definition toolArtifactCollect :: "front \<Rightarrow> json \<Rightarrow> mstate \<Rightarrow> json \<times> mstate" where
  "toolArtifactCollect fr args s =
     (let target = getString args ''target''; path = getString args ''path'' in
      if target = '''' \<or> path = '''' then
        (missing [(''tool'', JStr ''vssh_artifact_collect'')] ''target and path are required'', s)
      else toolRPCJobCall fr ''vssh_artifact_collect'' target ''artifact_collect''
        (json_map [(''path'', JStr path), (''max_bytes'', fr_num fr (getFloat args ''max_bytes'' ''1048576''))]) s)"

end
