(* ===== verification/Peers.thy ===== *)
theory Peers
  imports Resolve
begin

text \<open>
  \<^verbatim>\<open>internal/ssh/peers.go\<close> and the peer of \<^verbatim>\<open>internal/config/config.go\<close>: the list of nodes,
  put together from Tailscale, the wire daemon, a coordinator, a cache and the local servers file. What
  these sources answer is an argument; a Go map is a list in the order of its iteration. A time of day
  that came as a float is a number of seconds, as the text of a number its conversion is an argument.
\<close>

section \<open>Peers\<close>

record stats =
  pt_load :: string
  pt_load_value :: string                         \<comment> \<open>the text of a float\<close>
  pt_mem :: int
  pt_disk :: int
  pt_uptime :: string
  pt_updated :: int

datatype seen = NotSeen | SeenAt int | SeenText string

record node =
  nd_id :: string
  nd_name :: string
  nd_vpn :: string
  nd_public :: string
  nd_lan :: string
  nd_port :: int
  nd_user :: string
  nd_monitor_url :: string
  nd_monitor_port :: int
  nd_tags :: "string list"
  nd_caps :: "string list"
  nd_roles :: "string list"
  nd_os :: string
  nd_arch :: string
  nd_online :: "bool option"
  nd_seen :: seen
  nd_stats :: "stats option"
  nd_meta :: "(string \<times> json) list option"

definition node_zero :: node where
  "node_zero = \<lparr>nd_id = '''', nd_name = '''', nd_vpn = '''', nd_public = '''', nd_lan = '''', nd_port = 0, nd_user = '''',
     nd_monitor_url = '''', nd_monitor_port = 0, nd_tags = [], nd_caps = [], nd_roles = [], nd_os = '''', nd_arch = '''',
     nd_online = None, nd_seen = NotSeen, nd_stats = None, nd_meta = None\<rparr>"

text \<open>What the resolver sees of a node.\<close>
definition peer_of :: "node \<Rightarrow> peer" where
  "peer_of n = \<lparr>pe_name = nd_name n, pe_id = nd_id n, pe_vpn = nd_vpn n, pe_lan = nd_lan n, pe_public = nd_public n,
     pe_user = nd_user n\<rparr>"

record server_entry =
  sc_ip :: string
  sc_vpn :: string
  sc_public :: string
  sc_lan :: string
  sc_port :: int
  sc_user :: string
  sc_monitor_url :: string
  sc_monitor_port :: int
  sc_tags :: "string list"
  sc_caps :: "string list"
  sc_roles :: "string list"
  sc_os :: string
  sc_arch :: string
  sc_meta :: "(string \<times> json) list option"

section \<open>Names\<close>

text \<open>The first label of the DNS name, else the name of the host.\<close>
definition extractTailscaleName :: "string \<Rightarrow> string \<Rightarrow> string" where
  "extractTailscaleName dns host =
     (let l = first_label (trim_suffix ''.'' dns) in if dns \<noteq> '''' \<and> l \<noteq> '''' then l else host)"

definition normalizeHostname :: "string \<Rightarrow> string" where
  "normalizeHostname s = filter (\<lambda>c. is_lower c \<or> is_digit c) (to_lower s)"

section \<open>Tailscale\<close>

text \<open>A peer of the status document, with whether it is online and its system.\<close>
record ts_peer =
  tp_node :: ts_node
  tp_online :: bool
  tp_os :: string

definition ts_peer_node :: "int \<Rightarrow> ts_peer \<Rightarrow> node" where
  "ts_peer_node now p = node_zero\<lparr>nd_name := extractTailscaleName (tn_dns (tp_node p)) (tn_host (tp_node p)),
     nd_vpn := hd (tn_ips (tp_node p)), nd_online := Some (tp_online p),
     nd_seen := (if tp_online p then SeenAt now else NotSeen)\<rparr>"

definition ts_listed :: "string \<Rightarrow> ts_peer \<Rightarrow> bool" where
  "ts_listed self p \<longleftrightarrow>
     (let name = extractTailscaleName (tn_dns (tp_node p)) (tn_host (tp_node p)) in
      tn_ips (tp_node p) \<noteq> [] \<and> to_lower (tp_os p) \<notin> {''ios'', ''android''} \<and> name \<noteq> '''' \<and>
      normalizeHostname name \<noteq> normalizeHostname self)"

text \<open>Nothing listed is nil, as without Tailscale.\<close>
definition peersFromTailscale :: "(ts_node \<times> ts_peer list) option \<Rightarrow> int \<Rightarrow> node list" where
  "peersFromTailscale status now =
     (case status of None \<Rightarrow> []
      | Some (self, ps) \<Rightarrow>
          map (ts_peer_node now) (filter (ts_listed (extractTailscaleName (tn_dns self) (tn_host self))) ps))"

text \<open>The host names of the status in lower case: of two peers with one name the later.\<close>
definition ts_online :: "ts_peer list \<Rightarrow> (string \<times> bool) list" where
  "ts_online ps = map (\<lambda>p. (to_lower (tn_host (tp_node p)), tp_online p)) (filter (\<lambda>p. tn_host (tp_node p) \<noteq> '''') ps)"

definition mark_online :: "int \<Rightarrow> bool \<Rightarrow> node \<Rightarrow> node" where
  "mark_online now on n = n\<lparr>nd_online := Some on, nd_seen := (if on then SeenAt now else nd_seen n)\<rparr>"

definition overlay_one :: "(string \<times> bool) list \<Rightarrow> int \<Rightarrow> node \<Rightarrow> node" where
  "overlay_one status now n =
     (let name = to_lower (nd_name n); norm = normalizeHostname name;
          fuzzy = (\<lambda>(h, _). contains norm (normalizeHostname h) \<or> contains (normalizeHostname h) norm)
      in case map_of (rev status) name of
           Some on \<Rightarrow> mark_online now on n
         | None \<Rightarrow> (case find fuzzy status of Some (_, on) \<Rightarrow> mark_online now on n | None \<Rightarrow> n))"

definition overlayTailscaleStatus :: "ts_peer list option \<Rightarrow> int \<Rightarrow> node list \<Rightarrow> node list" where
  "overlayTailscaleStatus status now base =
     (case status of None \<Rightarrow> base | Some ps \<Rightarrow> map (overlay_one (ts_online ps) now) base)"

section \<open>Stats\<close>

definition applyStats :: "node \<Rightarrow> node \<Rightarrow> node" where
  "applyStats dst src = dst\<lparr>nd_stats := nd_stats src,
     nd_port := (if nd_port dst = 0 then nd_port src else nd_port dst),
     nd_user := (if nd_user dst = '''' then nd_user src else nd_user dst),
     nd_public := (if nd_public dst = '''' then nd_public src else nd_public dst),
     nd_lan := (if nd_lan dst = '''' then nd_lan src else nd_lan dst)\<rparr>"

text \<open>The entries of the map: of two peers with one normalized name the later.\<close>
definition stats_map :: "node list \<Rightarrow> (string \<times> node) list" where
  "stats_map ps = map (\<lambda>p. (normalizeHostname (nd_name p), p))
     (overlay (\<lambda>p. normalizeHostname (nd_name p)) ps [])"

definition fuzzy_match :: "string \<Rightarrow> string \<Rightarrow> bool" where
  "fuzzy_match a b \<longleftrightarrow> 3 < length b \<and> (contains b a \<or> contains a b)"

definition merge_one :: "(string \<times> node) list \<Rightarrow> node \<Rightarrow> node" where
  "merge_one sm n =
     (let a = normalizeHostname (nd_name n) in
      case map_of sm a of
        Some p \<Rightarrow> applyStats n p
      | None \<Rightarrow>
          if 3 < length a then
            (case find (\<lambda>(b, _). fuzzy_match a b) sm of
               None \<Rightarrow> n
             | Some (_, p) \<Rightarrow>
                 let m = applyStats n p in
                 if length (nd_name p) < length (nd_name m) then m\<lparr>nd_name := nd_name p\<rparr> else m)
          else n)"

text \<open>The first argument is the order in which the map is iterated.\<close>
definition mergeStats :: "((string \<times> node) list \<Rightarrow> (string \<times> node) list) \<Rightarrow> node list \<Rightarrow> node list \<Rightarrow> node list" where
  "mergeStats it ts ps = (if ps = [] then ts else map (merge_one (it (stats_map ps))) ts)"

section \<open>The local servers file\<close>

definition mergeStringLists :: "string list \<Rightarrow> string list \<Rightarrow> string list" where
  "mergeStringLists a b =
     (let vs = filter (\<lambda>v. to_lower v \<noteq> '''') (map trim_space (a @ b)) in
      map (\<lambda>k. the (find (\<lambda>v. to_lower v = k) vs)) (dedup (map to_lower vs)))"

definition merge_meta :: "(string \<times> json) list option \<Rightarrow> (string \<times> json) list option \<Rightarrow> (string \<times> json) list option" where
  "merge_meta a b =
     (case a of None \<Rightarrow> b
      | Some ms \<Rightarrow> Some (ms @ filter (\<lambda>(k, _). k \<notin> fst ` set ms) (case b of None \<Rightarrow> [] | Some bs \<Rightarrow> bs)))"

definition or_else :: "string \<Rightarrow> string \<Rightarrow> string" where "or_else a b = (if a = '''' then b else a)"
definition or_num :: "int \<Rightarrow> int \<Rightarrow> int" where "or_num a b = (if a = 0 then b else a)"

definition applyLocalServerConfig :: "node \<Rightarrow> server_entry \<Rightarrow> node" where
  "applyLocalServerConfig n c = n\<lparr>
     nd_vpn := or_else (nd_vpn n) (or_else (sc_vpn c) (sc_ip c)),
     nd_public := or_else (nd_public n) (sc_public c),
     nd_lan := or_else (nd_lan n) (sc_lan c),
     nd_port := or_num (nd_port n) (sc_port c),
     nd_user := or_else (nd_user n) (sc_user c),
     nd_monitor_url := or_else (nd_monitor_url n) (sc_monitor_url c),
     nd_monitor_port := or_num (nd_monitor_port n) (sc_monitor_port c),
     nd_os := or_else (nd_os n) (sc_os c),
     nd_arch := or_else (nd_arch n) (sc_arch c),
     nd_tags := mergeStringLists (nd_tags n) (sc_tags c),
     nd_caps := mergeStringLists (nd_caps n) (sc_caps c),
     nd_roles := mergeStringLists (nd_roles n) (sc_roles c),
     nd_meta := merge_meta (nd_meta n) (sc_meta c)\<rparr>"

text \<open>The addresses of the servers with their names; a later entry of the iteration wins.\<close>
definition ip_names :: "(string \<times> server_entry) list \<Rightarrow> (string \<times> string) list" where
  "ip_names servers = concat (map (\<lambda>(n, c).
     (if sc_ip c = '''' then [] else [(sc_ip c, n)]) @ (if sc_vpn c = '''' then [] else [(sc_vpn c, n)])) servers)"

definition enrich_one :: "(string \<times> server_entry) list \<Rightarrow> node \<Rightarrow> node" where
  "enrich_one servers n =
     (let n1 = (case map_of (rev (ip_names servers)) (nd_vpn n) of None \<Rightarrow> n | Some nm \<Rightarrow> n\<lparr>nd_name := nm\<rparr>) in
      case map_of servers (nd_name n1) of
        Some c \<Rightarrow> applyLocalServerConfig n1 c
      | None \<Rightarrow> (case find (\<lambda>(k, _). equal_fold k (nd_name n1)) servers of
                   Some (_, c) \<Rightarrow> applyLocalServerConfig n1 c
                 | None \<Rightarrow> n1))"

definition enrichPeersFromConfig :: "(string \<times> server_entry) list \<Rightarrow> node list \<Rightarrow> node list" where
  "enrichPeersFromConfig servers ps = (if ps = [] \<or> servers = [] then ps else map (enrich_one servers) ps)"

definition peersFromConfig :: "(string \<times> server_entry) list \<Rightarrow> node list" where
  "peersFromConfig servers = map (\<lambda>(n, c).
     \<lparr>nd_id = '''', nd_name = n, nd_vpn = or_else (sc_vpn c) (sc_ip c), nd_public = sc_public c, nd_lan = sc_lan c,
      nd_port = sc_port c, nd_user = sc_user c, nd_monitor_url = sc_monitor_url c, nd_monitor_port = sc_monitor_port c,
      nd_tags = sc_tags c, nd_caps = sc_caps c, nd_roles = sc_roles c, nd_os = sc_os c, nd_arch = sc_arch c,
      nd_online = None, nd_seen = NotSeen, nd_stats = None, nd_meta = sc_meta c\<rparr>) servers"


section \<open>Documents\<close>

definition int_field :: "json \<Rightarrow> (int \<Rightarrow> 'a) \<Rightarrow> 'a \<Rightarrow> 'a option" where "int_field = num_field"

text \<open>A number read into a float is kept as its text.\<close>
definition float_field :: "json \<Rightarrow> (string \<Rightarrow> 'a) \<Rightarrow> 'a \<Rightarrow> 'a option" where
  "float_field v upd x = (case v of JNum t \<Rightarrow> Some (upd t) | JNull \<Rightarrow> Some x | _ \<Rightarrow> None)"

definition texts_field :: "json \<Rightarrow> (string list \<Rightarrow> 'a) \<Rightarrow> 'a option" where
  "texts_field v upd = list_field text_value v upd"

definition set_stats :: "stats setter" where
  "set_stats k v s =
     (if equal_fold k ''load'' then text_field v (\<lambda>t. s\<lparr>pt_load := t\<rparr>) s
      else if equal_fold k ''load_value'' then float_field v (\<lambda>t. s\<lparr>pt_load_value := t\<rparr>) s
      else if equal_fold k ''mem_pct'' then num_field v (\<lambda>i. s\<lparr>pt_mem := i\<rparr>) s
      else if equal_fold k ''disk_pct'' then num_field v (\<lambda>i. s\<lparr>pt_disk := i\<rparr>) s
      else if equal_fold k ''uptime'' then text_field v (\<lambda>t. s\<lparr>pt_uptime := t\<rparr>) s
      else if equal_fold k ''updated_at'' then num_field v (\<lambda>i. s\<lparr>pt_updated := i\<rparr>) s
      else Some s)"

definition stats_zero :: stats where
  "stats_zero = \<lparr>pt_load = '''', pt_load_value = ''0'', pt_mem = 0, pt_disk = 0, pt_uptime = '''', pt_updated = 0\<rparr>"

definition meta_field :: "json \<Rightarrow> ((string \<times> json) list option \<Rightarrow> 'a) \<Rightarrow> 'a option" where
  "meta_field v upd = (case v of JObj ms \<Rightarrow> Some (upd (Some ms)) | JNull \<Rightarrow> Some (upd None) | _ \<Rightarrow> None)"

definition seen_value :: "(string \<Rightarrow> int) \<Rightarrow> json \<Rightarrow> seen" where
  "seen_value flt v = (case v of JNum t \<Rightarrow> SeenAt (flt t) | JStr t \<Rightarrow> SeenText t | _ \<Rightarrow> NotSeen)"

definition set_node :: "(string \<Rightarrow> int) \<Rightarrow> node setter" where
  "set_node flt k v n =
     (if equal_fold k ''node_id'' then text_field v (\<lambda>t. n\<lparr>nd_id := t\<rparr>) n
      else if equal_fold k ''node_name'' then text_field v (\<lambda>t. n\<lparr>nd_name := t\<rparr>) n
      else if equal_fold k ''vpn_ip'' then text_field v (\<lambda>t. n\<lparr>nd_vpn := t\<rparr>) n
      else if equal_fold k ''public_ip'' then text_field v (\<lambda>t. n\<lparr>nd_public := t\<rparr>) n
      else if equal_fold k ''lan_ip'' then text_field v (\<lambda>t. n\<lparr>nd_lan := t\<rparr>) n
      else if equal_fold k ''port'' then num_field v (\<lambda>i. n\<lparr>nd_port := i\<rparr>) n
      else if equal_fold k ''user'' then text_field v (\<lambda>t. n\<lparr>nd_user := t\<rparr>) n
      else if equal_fold k ''monitor_url'' then text_field v (\<lambda>t. n\<lparr>nd_monitor_url := t\<rparr>) n
      else if equal_fold k ''monitor_port'' then num_field v (\<lambda>i. n\<lparr>nd_monitor_port := i\<rparr>) n
      else if equal_fold k ''tags'' then texts_field v (\<lambda>ts. n\<lparr>nd_tags := ts\<rparr>)
      else if equal_fold k ''capabilities'' then texts_field v (\<lambda>ts. n\<lparr>nd_caps := ts\<rparr>)
      else if equal_fold k ''roles'' then texts_field v (\<lambda>ts. n\<lparr>nd_roles := ts\<rparr>)
      else if equal_fold k ''os'' then text_field v (\<lambda>t. n\<lparr>nd_os := t\<rparr>) n
      else if equal_fold k ''arch'' then text_field v (\<lambda>t. n\<lparr>nd_arch := t\<rparr>) n
      else if equal_fold k ''online'' then
        (case v of JNull \<Rightarrow> Some (n\<lparr>nd_online := None\<rparr>) | _ \<Rightarrow> flag_field v (\<lambda>b. n\<lparr>nd_online := Some b\<rparr>) n)
      else if equal_fold k ''last_seen'' then Some (n\<lparr>nd_seen := seen_value flt v\<rparr>)
      else if equal_fold k ''stats'' then
        (case v of JNull \<Rightarrow> Some (n\<lparr>nd_stats := None\<rparr>)
         | _ \<Rightarrow> map_option (\<lambda>s. n\<lparr>nd_stats := Some s\<rparr>) (struct_of set_stats stats_zero v))
      else if equal_fold k ''metadata'' then meta_field v (\<lambda>m. n\<lparr>nd_meta := m\<rparr>)
      else Some n)"

definition node_of :: "(string \<Rightarrow> int) \<Rightarrow> json \<Rightarrow> node option" where "node_of flt v = struct_of (set_node flt) node_zero v"

definition set_server :: "server_entry setter" where
  "set_server k v c =
     (if equal_fold k ''ip'' then text_field v (\<lambda>t. c\<lparr>sc_ip := t\<rparr>) c
      else if equal_fold k ''vpn_ip'' then text_field v (\<lambda>t. c\<lparr>sc_vpn := t\<rparr>) c
      else if equal_fold k ''public_ip'' then text_field v (\<lambda>t. c\<lparr>sc_public := t\<rparr>) c
      else if equal_fold k ''lan_ip'' then text_field v (\<lambda>t. c\<lparr>sc_lan := t\<rparr>) c
      else if equal_fold k ''port'' then num_field v (\<lambda>i. c\<lparr>sc_port := i\<rparr>) c
      else if equal_fold k ''user'' then text_field v (\<lambda>t. c\<lparr>sc_user := t\<rparr>) c
      else if equal_fold k ''monitor_url'' then text_field v (\<lambda>t. c\<lparr>sc_monitor_url := t\<rparr>) c
      else if equal_fold k ''monitor_port'' then num_field v (\<lambda>i. c\<lparr>sc_monitor_port := i\<rparr>) c
      else if equal_fold k ''tags'' then texts_field v (\<lambda>ts. c\<lparr>sc_tags := ts\<rparr>)
      else if equal_fold k ''capabilities'' then texts_field v (\<lambda>ts. c\<lparr>sc_caps := ts\<rparr>)
      else if equal_fold k ''roles'' then texts_field v (\<lambda>ts. c\<lparr>sc_roles := ts\<rparr>)
      else if equal_fold k ''os'' then text_field v (\<lambda>t. c\<lparr>sc_os := t\<rparr>) c
      else if equal_fold k ''arch'' then text_field v (\<lambda>t. c\<lparr>sc_arch := t\<rparr>) c
      else if equal_fold k ''metadata'' then meta_field v (\<lambda>m. c\<lparr>sc_meta := m\<rparr>)
      else Some c)"

definition server_zero :: server_entry where
  "server_zero = \<lparr>sc_ip = '''', sc_vpn = '''', sc_public = '''', sc_lan = '''', sc_port = 0, sc_user = '''', sc_monitor_url = '''',
     sc_monitor_port = 0, sc_tags = [], sc_caps = [], sc_roles = [], sc_os = '''', sc_arch = '''', sc_meta = None\<rparr>"

definition loadLocalServers :: "string \<Rightarrow> fs \<Rightarrow> (string \<times> server_entry) list" where
  "loadLocalServers home f =
     (if home = '''' then []
      else (case read_file f (home @ ''/.vssh/servers.json'') of Inl _ \<Rightarrow> []
        | Inr d \<Rightarrow> (case unmarshal d of None \<Rightarrow> []
            | Some v \<Rightarrow> (case map_of_json (struct_of set_server server_zero) v of None \<Rightarrow> [] | Some ss \<Rightarrow> ss))))"

section \<open>The sources\<close>

text \<open>The wire directory: of root, else of the home directory, else of the account, else in tmp.\<close>
definition WireDir :: "bool \<Rightarrow> string \<Rightarrow> string \<Rightarrow> path" where
  "WireDir root home account =
     (if root then ''/etc/wire''
      else let h = (if home \<noteq> '''' then home else if account \<noteq> '''' then account else ''/tmp'') in join_path [h, ''.wire''])"

definition LoadNodeUsers :: "path \<Rightarrow> fs \<Rightarrow> (string \<times> string) list" where
  "LoadNodeUsers wire f =
     (case read_file f (join_path [wire, ''users.json'']) of Inl _ \<Rightarrow> []
      | Inr d \<Rightarrow> (case unmarshal d of None \<Rightarrow> []
          | Some v \<Rightarrow> (case map_of_json (\<lambda>x. Some (case x of JStr t \<Rightarrow> t | _ \<Rightarrow> '''')) v of None \<Rightarrow> [] | Some us \<Rightarrow> us)))"

text \<open>Of the wire configuration the program uses the address of the coordinator.\<close>
definition wire_server :: "json \<Rightarrow> string option" where
  "wire_server v = struct_of (\<lambda>k x u. if equal_fold k ''server_url'' then text_field x (\<lambda>t. t) u else Some u) '''' v"

definition LoadWireConfig :: "path \<Rightarrow> fs \<Rightarrow> string option" where
  "LoadWireConfig wire f =
     (let try = (\<lambda>p. case read_file f p of Inl _ \<Rightarrow> None
                     | Inr d \<Rightarrow> (case unmarshal d of None \<Rightarrow> None | Some v \<Rightarrow> wire_server v))
      in case try (join_path [wire, ''config.json'']) of Some u \<Rightarrow> Some u | None \<Rightarrow> try ''/etc/wire/config.json'')"

definition getCoordinatorURLs :: "string \<Rightarrow> string list" where
  "getCoordinatorURLs url = (if url \<noteq> '''' then [url] else [])"

definition peers_member :: "(string \<Rightarrow> int) \<Rightarrow> json \<Rightarrow> node list option" where
  "peers_member flt v = struct_of (\<lambda>k x ps. if equal_fold k ''peers'' then list_field (node_of flt) x (\<lambda>ys. ys) else Some ps) [] v"

text \<open>The members of a peer in the order of its struct.\<close>
definition node_json :: "node \<Rightarrow> json" where
  "node_json n = JObj
     ([(''node_id'', JStr (nd_id n)), (''node_name'', JStr (nd_name n)), (''vpn_ip'', JStr (nd_vpn n)),
       (''public_ip'', JStr (nd_public n)), (''lan_ip'', JStr (nd_lan n)), (''port'', json_int (nd_port n))]
      @ omit_empty ''user'' (nd_user n) @ omit_empty ''monitor_url'' (nd_monitor_url n)
      @ (if nd_monitor_port n = 0 then [] else [(''monitor_port'', json_int (nd_monitor_port n))])
      @ omit_texts ''tags'' (nd_tags n) @ omit_texts ''capabilities'' (nd_caps n) @ omit_texts ''roles'' (nd_roles n)
      @ omit_empty ''os'' (nd_os n) @ omit_empty ''arch'' (nd_arch n)
      @ (case nd_online n of None \<Rightarrow> [] | Some b \<Rightarrow> [(''online'', JBool b)])
      @ (case nd_seen n of NotSeen \<Rightarrow> [] | SeenAt i \<Rightarrow> [(''last_seen'', json_int i)] | SeenText t \<Rightarrow> [(''last_seen'', JStr t)])
      @ (case nd_stats n of None \<Rightarrow> []
         | Some s \<Rightarrow> [(''stats'', JObj (omit_empty ''load'' (pt_load s)
              @ (if pt_load_value s = ''0'' then [] else [(''load_value'', JNum (pt_load_value s))])
              @ (if pt_mem s = 0 then [] else [(''mem_pct'', json_int (pt_mem s))])
              @ (if pt_disk s = 0 then [] else [(''disk_pct'', json_int (pt_disk s))])
              @ omit_empty ''uptime'' (pt_uptime s)
              @ (if pt_updated s = 0 then [] else [(''updated_at'', json_int (pt_updated s))])))])
      @ (case nd_meta n of None \<Rightarrow> [] | Some ms \<Rightarrow> if ms = [] then [] else [(''metadata'', json_map ms)]))"

definition savePeersCache :: "path \<Rightarrow> node list \<Rightarrow> fs \<Rightarrow> fs" where
  "savePeersCache wire ps f =
     snd (write_file (wire @ ''/peers_cache.json'') (marshal_indent 0 (JArr (map node_json ps))) f)"

text \<open>The error of the decoder is not looked at: what has another type is left out.\<close>
definition lenient :: "'a setter \<Rightarrow> 'a \<Rightarrow> json \<Rightarrow> 'a" where
  "lenient f zero v =
     (case v of JObj ms \<Rightarrow> foldl (\<lambda>x (k, w). case f k w x of None \<Rightarrow> x | Some y \<Rightarrow> y) zero ms | _ \<Rightarrow> zero)"

definition peersFromCache :: "(string \<Rightarrow> int) \<Rightarrow> path \<Rightarrow> fs \<Rightarrow> node list option" where
  "peersFromCache flt wire f =
     (case read_file f (wire @ ''/peers_cache.json'') of Inl _ \<Rightarrow> None
      | Inr d \<Rightarrow> (case unmarshal d of Some (JArr vs) \<Rightarrow> Some (map (lenient (set_node flt) node_zero) vs) | _ \<Rightarrow> None))"

text \<open>The coordinators in turn; the argument gives the document a URL answers with.\<close>
fun peersFromCoordinators ::
  "(string \<Rightarrow> int) \<Rightarrow> (string \<Rightarrow> json option) \<Rightarrow> path \<Rightarrow> string list \<Rightarrow> fs \<Rightarrow> node list option \<times> fs" where
  "peersFromCoordinators flt http wire [] f = (None, f)"
| "peersFromCoordinators flt http wire (u # us) f =
     (case (case http (trim_suffix ''/'' u @ ''/peers'') of None \<Rightarrow> None | Some v \<Rightarrow> peers_member flt v) of
        Some (p # ps) \<Rightarrow> (Some (p # ps), savePeersCache wire (p # ps) f)
      | _ \<Rightarrow> peersFromCoordinators flt http wire us f)"

text \<open>The answer line of the wire daemon, where it runs and answers.\<close>
definition peersFromDaemon :: "(string \<Rightarrow> int) \<Rightarrow> string option \<Rightarrow> node list option" where
  "peersFromDaemon flt line =
     (case line of None \<Rightarrow> None
      | Some l \<Rightarrow> (case unmarshal l of None \<Rightarrow> None
          | Some v \<Rightarrow>
              (case struct_of (\<lambda>k x (ok, d).
                  if equal_fold k ''success'' then flag_field x (\<lambda>b. (b, d)) (ok, d)
                  else if equal_fold k ''data'' then
                    (case x of JNull \<Rightarrow> Some (ok, None) | _ \<Rightarrow> list_field (node_of flt) x (\<lambda>ys. (ok, Some ys)))
                  else Some (ok, d)) (False, None) v of
                Some (True, d) \<Rightarrow> d | _ \<Rightarrow> None)))"

record sources =
  so_tailscale :: "(ts_node \<times> ts_peer list) option"
  so_now :: int
  so_daemon :: "string option"
  so_http :: "string \<Rightarrow> json option"
  so_wire :: path
  so_home :: string
  so_float :: "string \<Rightarrow> int"
  so_order :: "(string \<times> node) list \<Rightarrow> (string \<times> node) list"

definition loadPeers :: "sources \<Rightarrow> fs \<Rightarrow> node list \<times> fs" where
  "loadPeers so f =
     (let ts = peersFromTailscale (so_tailscale so) (so_now so);
          servers = loadLocalServers (so_home so) f;
          url = (case LoadWireConfig (so_wire so) f of None \<Rightarrow> '''' | Some u \<Rightarrow> u);
          (st, f1) = (case peersFromDaemon (so_float so) (so_daemon so) of
              Some ps \<Rightarrow> (Some ps, f)
            | None \<Rightarrow> (case peersFromCoordinators (so_float so) (so_http so) (so_wire so) (getCoordinatorURLs url) f of
                  (Some ps, g) \<Rightarrow> (Some ps, g)
                | (None, g) \<Rightarrow> (peersFromCache (so_float so) (so_wire so) g, g)))
      in (if ts \<noteq> [] then
            enrichPeersFromConfig servers (mergeStats (so_order so) ts (case st of None \<Rightarrow> [] | Some ps \<Rightarrow> ps))
          else (case st of
              Some ps \<Rightarrow> enrichPeersFromConfig servers ps
            | None \<Rightarrow> enrichPeersFromConfig servers (peersFromConfig servers)), f1))"


section \<open>What merging keeps\<close>

lemma applyStats_sel [simp]:
  "nd_name (applyStats n p) = nd_name n" "nd_vpn (applyStats n p) = nd_vpn n" "nd_id (applyStats n p) = nd_id n"
  by (simp_all add: applyStats_def)

lemma merge_one_vpn [simp]: "nd_vpn (merge_one sm n) = nd_vpn n"
  by (simp add: merge_one_def Let_def split: option.splits prod.splits)

lemma enrich_one_vpn: "nd_vpn n \<noteq> '''' \<Longrightarrow> nd_vpn (enrich_one servers n) = nd_vpn n"
  by (auto simp: enrich_one_def Let_def applyLocalServerConfig_def or_else_def split: option.splits prod.splits)

lemma stats_map_mem:
  assumes "(k, p) \<in> set (stats_map ps)"
  shows "p \<in> set ps \<and> normalizeHostname (nd_name p) = k"
proof -
  have m: "p \<in> set (overlay (\<lambda>p. normalizeHostname (nd_name p)) ps [])" "k = normalizeHostname (nd_name p)"
    using assms by (auto simp: stats_map_def)
  then show ?thesis using overlay_mem[OF m(1)] by simp
qed

text \<open>With Tailscale the addresses of the nodes are those Tailscale reported, in its order, whatever
  the other sources say; they add names, statistics and what is missing.\<close>
theorem tailscale_addresses_kept:
  assumes "peersFromTailscale (so_tailscale so) (so_now so) = ts" "ts \<noteq> []" "\<forall>n \<in> set ts. nd_vpn n \<noteq> ''''"
  shows "map nd_vpn (fst (loadPeers so f)) = map nd_vpn ts"
proof -
  have m: "map nd_vpn (mergeStats it ts ps) = map nd_vpn ts" "\<forall>n \<in> set (mergeStats it ts ps). nd_vpn n \<noteq> ''''" for it ps
    using assms(3) by (auto simp: mergeStats_def)
  have e: "map nd_vpn (enrichPeersFromConfig servers ns) = map nd_vpn ns" if "\<forall>n \<in> set ns. nd_vpn n \<noteq> ''''" for servers ns
    using that by (auto simp: enrichPeersFromConfig_def enrich_one_vpn)
  show ?thesis using assms(1,2) m e by (simp add: loadPeers_def Let_def split: prod.splits)
qed

text \<open>A node with a short name gets statistics only from the node of the same name: names of up to
  three characters never match in part.\<close>
theorem short_names_match_exactly:
  assumes "length (normalizeHostname (nd_name n)) \<le> 3" "set (it (stats_map ps)) \<subseteq> set (stats_map ps)"
  shows "merge_one (it (stats_map ps)) n = n \<or>
    (\<exists>p \<in> set ps. normalizeHostname (nd_name p) = normalizeHostname (nd_name n) \<and> merge_one (it (stats_map ps)) n = applyStats n p)"
proof (cases "map_of (it (stats_map ps)) (normalizeHostname (nd_name n))")
  case None
  with assms(1) show ?thesis by (simp add: merge_one_def Let_def)
next
  case (Some p)
  with assms(2) have "(normalizeHostname (nd_name n), p) \<in> set (stats_map ps)" by (blast dest: map_of_SomeD)
  from stats_map_mem[OF this] Some show ?thesis by (auto simp: merge_one_def Let_def)
qed

definition demo_sources :: sources where
  "demo_sources = \<lparr>so_tailscale = Some (\<lparr>tn_host = ''ctl'', tn_dns = '''', tn_ips = [''100.64.0.9'']\<rparr>,
       [\<lparr>tp_node = \<lparr>tn_host = ''Mac mini'', tn_dns = ''m1.tail.ts.net.'', tn_ips = [''100.64.0.1'']\<rparr>, tp_online = True, tp_os = ''macOS''\<rparr>,
        \<lparr>tp_node = \<lparr>tn_host = ''phone'', tn_dns = '''', tn_ips = [''100.64.0.2'']\<rparr>, tp_online = True, tp_os = ''iOS''\<rparr>]),
     so_now = 1000, so_daemon = None, so_http = (\<lambda>_. None), so_wire = ''/etc/wire'', so_home = ''/root'',
     so_float = (\<lambda>_. 0), so_order = (\<lambda>xs. xs)\<rparr>"

lemma tailscale_addresses_kept_witness: "map nd_vpn (fst (loadPeers demo_sources empty_fs)) = [''100.64.0.1'']"
proof -
  obtain ts where ts: "peersFromTailscale (so_tailscale demo_sources) (so_now demo_sources) = ts" by blast
  have v: "map nd_vpn (peersFromTailscale (so_tailscale demo_sources) (so_now demo_sources)) = [''100.64.0.1'']" by code_simp
  then have v': "map nd_vpn ts = [''100.64.0.1'']" unfolding ts .
  then have "ts \<noteq> []" by auto
  moreover have "\<forall>n \<in> set ts. nd_vpn n \<noteq> ''''"
  proof
    fix n assume "n \<in> set ts"
    then have "nd_vpn n \<in> set (map nd_vpn ts)" by simp
    then show "nd_vpn n \<noteq> ''''" unfolding v' by simp
  qed
  ultimately have "map nd_vpn (fst (loadPeers demo_sources empty_fs)) = map nd_vpn ts"
    by (rule tailscale_addresses_kept[OF ts])
  then show ?thesis unfolding v' .
qed

lemma short_names_match_exactly_witness:
  "merge_one (id (stats_map [node_zero\<lparr>nd_name := ''s2'', nd_user := ''root''\<rparr>])) (node_zero\<lparr>nd_name := ''s1''\<rparr>)
     = node_zero\<lparr>nd_name := ''s1''\<rparr>"
proof -
  let ?n = "node_zero\<lparr>nd_name := ''s1''\<rparr>" and ?p = "node_zero\<lparr>nd_name := ''s2'', nd_user := ''root''\<rparr>"
  have l: "length (normalizeHostname (nd_name ?n)) \<le> 3" by code_simp
  have d: "normalizeHostname (nd_name ?p) \<noteq> normalizeHostname (nd_name ?n)" by code_simp
  from short_names_match_exactly[OF l, of id "[?p]"] d show ?thesis by auto
qed

end
