(* ===== verification/McpRoute.thy ===== *)
theory McpRoute
  imports McpExec Peers
begin

text \<open>
  Host records and the choice of a host (\<^verbatim>\<open>cmd/vssh/mcp_hostrecord.go\<close>,
  \<^verbatim>\<open>mcp_routing.go\<close>). Times of day, what a monitor answers, the comparison of floats and the
  formatting of a float are arguments.
\<close>

section \<open>Host records\<close>

definition mergeLists :: "string list \<Rightarrow> string list \<Rightarrow> string list" where "mergeLists a b = normalizeList (a @ b)"

text \<open>Tags and capabilities.\<close>
definition builtInHostHints :: "string \<Rightarrow> string list \<times> string list" where
  "builtInHostHints name =
     (let n = to_lower (trim_space name) in
      if n = ''d1'' then ([''linux'', ''gpu'', ''ai-workload''], [''cuda'', ''docker'', ''ollama''])
      else if n \<in> {''d2'', ''g1'', ''g2'', ''g3'', ''g4''} then ([''linux'', ''gpu'', ''docker-host''], [''cuda'', ''docker'', ''ollama''])
      else if n \<in> {''v1'', ''v2'', ''v3'', ''v4'', ''v5'', ''c1'', ''c2''} then ([''linux'', ''vps''], [''server''])
      else if n \<in> {''macmini'', ''m1''} then ([''macos'', ''client''], [''local-shell''])
      else if n = ''s2'' then ([''synology'', ''nas''], [''storage''])
      else ([], []))"

definition caps_of_value :: "string \<Rightarrow> string list" where
  "caps_of_value v =
     (if v \<in> {''gpu'', ''cuda'', ''nvidia''} \<or> contains ''rtx'' v then [''gpu'', ''cuda'']
      else if v = ''ollama'' \<or> contains ''llm'' v then [''ollama'']
      else if v \<in> {''browser'', ''chrome'', ''safari''} then [''browser'']
      else if v = ''controller'' then [''controller'']
      else if v \<in> {''mail'', ''smtp'', ''mox''} then [''mail'']
      else if v = ''docker'' then [''docker'']
      else if v = ''darwin'' \<or> v = ''mac'' \<or> contains ''mac'' v then [''macos'']
      else if v \<in> {''linux'', ''ubuntu'', ''debian''} then [''linux'']
      else [])"

definition inferCapabilities :: "node \<Rightarrow> string list \<Rightarrow> string list" where
  "inferCapabilities n tags =
     (let values = tags @ (if nd_name n = '''' then [] else [to_lower (nd_name n)])
            @ (if nd_os n = '''' then [] else [to_lower (nd_os n)])
      in normalizeList (concat (map caps_of_value values)))"

definition host_tags :: "node \<Rightarrow> string list" where
  "host_tags n =
     (let base = mergeLists (normalizeList (nd_tags n @ nd_roles n)) (fst (builtInHostHints (nd_name n)));
          os = to_lower (trim_space (nd_os n))
      in if os = '''' then base else mergeLists base [os])"

definition host_caps :: "node \<Rightarrow> string list" where
  "host_caps n =
     (let base = mergeLists (normalizeList (nd_tags n @ nd_roles n)) (fst (builtInHostHints (nd_name n))) in
      mergeLists (mergeLists (normalizeList (nd_caps n)) (snd (builtInHostHints (nd_name n)))) (inferCapabilities n base))"

definition buildAddressRecord :: "node \<Rightarrow> json" where
  "buildAddressRecord n = json_map (omit_empty ''vpn'' (nd_vpn n) @ omit_empty ''lan'' (nd_lan n) @ omit_empty ''public'' (nd_public n))"

text \<open>The clock, the reader and the printer of RFC 3339 times.\<close>
record clock =
  ck_now :: int
  ck_parse :: "string \<Rightarrow> int option"
  ck_format :: "int \<Rightarrow> string"

definition seen_unix :: "clock \<Rightarrow> seen \<Rightarrow> int" where
  "seen_unix ck v = (case v of NotSeen \<Rightarrow> 0 | SeenAt i \<Rightarrow> i | SeenText t \<Rightarrow> (case ck_parse ck t of None \<Rightarrow> 0 | Some i \<Rightarrow> i))"

text \<open>The status and the reason from the provider and the last sight.\<close>
definition seen_status :: "clock \<Rightarrow> node \<Rightarrow> string \<times> string" where
  "seen_status ck n =
     (let base = (case nd_online n of
            None \<Rightarrow> (''unknown'', ''no live health signal'')
          | Some True \<Rightarrow> (''online'', ''provider reported online'')
          | Some False \<Rightarrow> (''offline'', ''provider reported offline''));
          u = seen_unix ck (nd_seen n); age = max 0 (ck_now ck - u)
      in if u \<le> 0 then base
         else if age < 60 then (''online'', ''last_seen is fresh'')
         else if fst base = ''unknown'' then (''stale'', ''last_seen is stale'')
         else base)"

definition host_status :: "clock \<Rightarrow> node \<Rightarrow> string \<times> string" where
  "host_status ck n =
     (let s = seen_status ck n in
      case nd_stats n of
        Some t \<Rightarrow> if (90 \<le> pt_disk t \<or> 95 \<le> pt_mem t) \<and> fst s = ''online''
                  then (''degraded'', ''resource pressure detected'') else s
      | None \<Rightarrow> s)"

text \<open>The text of the last sight is empty where there is none, a text that is not a time included.\<close>
definition seen_text :: "clock \<Rightarrow> seen \<Rightarrow> string" where
  "seen_text ck v =
     (case v of SeenText t \<Rightarrow> (case ck_parse ck t of None \<Rightarrow> '''' | Some i \<Rightarrow> ck_format ck i)
      | _ \<Rightarrow> if 0 < seen_unix ck v then ck_format ck (seen_unix ck v) else '''')"

definition buildHealthRecord :: "clock \<Rightarrow> node \<Rightarrow> (string \<times> json) list" where
  "buildHealthRecord ck n =
     [(''status'', JStr (fst (host_status ck n))), (''reason'', JStr (snd (host_status ck n)))]
     @ (let t = seen_text ck (nd_seen n) in
        if t = '''' then [] else [(''last_seen'', JStr t), (''last_seen_age_sec'', json_int (ck_now ck - seen_unix ck (nd_seen n)))])
     @ (case nd_online n of None \<Rightarrow> [] | Some b \<Rightarrow> [(''provider_online'', JBool b)])"

definition monitorEndpoint :: "node \<Rightarrow> string" where
  "monitorEndpoint n =
     (let host = or_else (nd_vpn n) (or_else (nd_lan n) (nd_public n)) in
      if nd_monitor_url n \<noteq> '''' then trim_right_by (\<lambda>c. c = CHR ''/'') (nd_monitor_url n)
      else if nd_monitor_port n = 0 \<or> host = '''' then ''''
      else ''http://'' @ host @ '':'' @ show_int (nd_monitor_port n))"

text \<open>What a monitor answers: an error, or a status with the document of the body, if it is one.\<close>
datatype probe = ProbeError string | ProbeHttp int "string + json"

record meter =
  mt_probe :: "string \<Rightarrow> probe \<times> int"            \<comment> \<open>with the milliseconds it took\<close>
  mt_ge :: "string \<Rightarrow> int \<Rightarrow> bool"               \<comment> \<open>a float at least an integer\<close>
  mt_num :: "string \<Rightarrow> json"                      \<comment> \<open>the JSON of a float\<close>

definition numberFromMap :: "json \<Rightarrow> string \<Rightarrow> string" where
  "numberFromMap v k = (case json_get k v of Some (JNum t) \<Rightarrow> t | _ \<Rightarrow> ''0'')"

definition copied :: "json \<Rightarrow> string \<Rightarrow> string \<times> json" where
  "copied v k = (k, case json_get k v of Some x \<Rightarrow> x | None \<Rightarrow> JNull)"

definition optional :: "json \<Rightarrow> string \<Rightarrow> (string \<times> json) list" where
  "optional v k = (case json_get k v of Some x \<Rightarrow> [(k, x)] | None \<Rightarrow> [])"

definition monitor_status :: "meter \<Rightarrow> json \<Rightarrow> string \<times> string" where
  "monitor_status mt v =
     (let ge = (\<lambda>k. mt_ge mt (numberFromMap v k)) in
      if ge ''cpu_pct'' 95 \<or> ge ''mem_pct'' 95 \<or> ge ''disk_pct'' 95
      then (''degraded'', ''critical resource pressure from node monitor'')
      else if ge ''cpu_pct'' 85 \<or> ge ''mem_pct'' 90 \<or> ge ''disk_pct'' 90
      then (''degraded'', ''resource pressure from node monitor'')
      else (''online'', ''node monitor responded''))"

definition fetchLiveMonitorHealth :: "meter \<Rightarrow> node \<Rightarrow> (string \<times> json) list" where
  "fetchLiveMonitorHealth mt n =
     (let e = monitorEndpoint n; url = e @ ''/api/node/status''; (answer, ms) = mt_probe mt url;
          head = [(''live_checked'', JBool True), (''source'', JStr ''node_monitor''), (''endpoint'', JStr url),
                  (''duration_ms'', json_int ms)];
          with_status = (\<lambda>s r. [(''status'', JStr s), (''reason'', JStr r)])
      in if e = '''' then
           [(''live_checked'', JBool False), (''source'', JStr ''node_monitor''),
            (''error'', tool_error ''monitor_not_configured'' ''monitor_url or monitor_port is not configured'')]
         else (case answer of
             ProbeError m \<Rightarrow> head @ with_status ''offline'' ''monitor endpoint unreachable''
                               @ [(''error'', retry_error ''monitor_unreachable'' m True)]
           | ProbeHttp code body \<Rightarrow>
               if code < 200 \<or> 300 \<le> code then
                 head @ with_status ''degraded'' (''monitor endpoint returned HTTP '' @ show_int code) @ [(''http_status'', json_int code)]
               else (case body of
                   Inl m \<Rightarrow> head @ with_status ''degraded'' ''monitor payload is not valid JSON''
                              @ [(''error'', retry_error ''monitor_invalid_json'' m True)]
                 | Inr v \<Rightarrow>
                     head @ with_status (fst (monitor_status mt v)) (snd (monitor_status mt v))
                       @ map (copied v) [''node'', ''ip'', ''os'', ''arch'']
                       @ map (\<lambda>k. (k, mt_num mt (numberFromMap v k))) [''cpu_pct'', ''mem_pct'', ''disk_pct'']
                       @ map (copied v) [''load'', ''uptime'', ''ts'']
                       @ concat (map (optional v) [''gpu'', ''docker'', ''alerts'']))))"

text \<open>The live members replace those of the record.\<close>
definition mergeLiveHealth :: "(string \<times> json) list \<Rightarrow> (string \<times> json) list \<Rightarrow> (string \<times> json) list" where
  "mergeLiveHealth base live = filter (\<lambda>(k, _). k \<notin> fst ` set live) base @ live"

definition buildHostRecord :: "clock \<Rightarrow> meter \<Rightarrow> bool \<Rightarrow> node \<Rightarrow> (string \<times> json) list" where
  "buildHostRecord ck mt include_health n =
     [(''name'', JStr (nd_name n)), (''node_id'', JStr (nd_id n)), (''addresses'', buildAddressRecord n),
      (''vpn_ip'', JStr (nd_vpn n)), (''public_ip'', JStr (nd_public n)), (''lan_ip'', JStr (nd_lan n)),
      (''port'', json_int (nd_port n)), (''user'', JStr (nd_user n)), (''os'', JStr (nd_os n)), (''arch'', JStr (nd_arch n)),
      (''tags'', texts (host_tags n)), (''capabilities'', texts (host_caps n)),
      (''health'', json_map (let h = buildHealthRecord ck n in
          if include_health then mergeLiveHealth h (fetchLiveMonitorHealth mt n) else h)),
      (''stats'', case nd_stats n of None \<Rightarrow> JNull | Some _ \<Rightarrow> (case json_get ''stats'' (node_json n) of Some v \<Rightarrow> v | None \<Rightarrow> JNull)),
      (''metadata'', case nd_meta n of None \<Rightarrow> JNull | Some ms \<Rightarrow> json_map ms)]
     @ (if monitorEndpoint n = '''' then [] else [(''monitor'', JObj [(''url'', JStr (monitorEndpoint n))])])"

definition listHostRecords :: "clock \<Rightarrow> meter \<Rightarrow> bool \<Rightarrow> node list \<Rightarrow> json list" where
  "listHostRecords ck mt include_health ns =
     map (\<lambda>n. json_map (buildHostRecord ck mt include_health n)) (sort_key nd_name (filter (\<lambda>n. nd_name n \<noteq> '''') ns))"

section \<open>Choosing a host\<close>

text \<open>A list that was not given is nil.\<close>
record route_request =
  rq_caps :: "string list option"
  rq_tags :: "string list option"
  rq_avoid :: "string list option"
  rq_target :: string
  rq_health :: bool
  rq_timeout :: string

definition getRouteRequest :: "json \<Rightarrow> route_request" where
  "getRouteRequest args =
     \<lparr>rq_caps = given_list args ''required_capabilities'' None, rq_tags = given_list args ''preferred_tags'' None,
      rq_avoid = given_list args ''avoid_health'' (Some [''offline'', ''degraded'']),
      rq_target = getString args ''target'', rq_health = getBool args ''include_health'' False,
      rq_timeout = getFloat args ''health_timeout_seconds'' ''1''\<rparr>"

definition the_list :: "'a list option \<Rightarrow> 'a list" where "the_list l = (case l of None \<Rightarrow> [] | Some xs \<Rightarrow> xs)"

record candidate =
  ca_name :: string
  ca_score :: int
  ca_selected :: bool
  ca_reasons :: "string list"
  ca_missing :: "string list"
  ca_health :: string
  ca_tags :: "string list"
  ca_caps :: "string list"
  ca_host :: json

definition getStringSliceFromHost :: "json \<Rightarrow> string \<Rightarrow> string list" where
  "getStringSliceFromHost host k =
     (case json_get k host of
        Some (JArr vs) \<Rightarrow> normalizeList (concat (map (\<lambda>v. case v of JStr s \<Rightarrow> [s] | _ \<Rightarrow> []) vs))
      | _ \<Rightarrow> [])"

definition getHealthStatus :: "json \<Rightarrow> string" where
  "getHealthStatus host =
     (case json_get ''health'' host of
        Some (JObj ms) \<Rightarrow> (let s = getString (JObj ms) ''status'' in if trim_space s = '''' then ''unknown'' else to_lower s)
      | _ \<Rightarrow> ''unknown'')"

definition containsNormalized :: "string list \<Rightarrow> string \<Rightarrow> bool" where
  "containsNormalized vs want = (to_lower (trim_space want) \<in> set (map (\<lambda>v. to_lower (trim_space v)) vs))"

definition health_score :: "string \<Rightarrow> int" where
  "health_score h =
     (if h = ''online'' then 20 else if h = ''stale'' then - 10 else if h = ''degraded'' then - 50
      else if h = ''offline'' then - 1000 else 0)"

definition health_reason :: "string \<Rightarrow> string list" where
  "health_reason h = (if h \<in> {''online'', ''unknown'', ''stale'', ''degraded'', ''offline''} then [''health '' @ h] else [])"

text \<open>Score and reasons add up over the capabilities, the tags, the health and what to avoid.\<close>
definition scoreRouteCandidate :: "json \<Rightarrow> route_request \<Rightarrow> candidate" where
  "scoreRouteCandidate host rq =
     (let caps = getStringSliceFromHost host ''capabilities''; tags = getStringSliceFromHost host ''tags'';
          h = getHealthStatus host; req = the_list (rq_caps rq); pref = the_list (rq_tags rq); av = the_list (rq_avoid rq);
          avoided = filter (\<lambda>a. equal_fold h a) av
      in \<lparr>ca_name = getString host ''name'',
          ca_score = (\<Sum>c \<leftarrow> req. if containsNormalized caps c then 100 else - 1000)
            + 10 * int (length (filter (containsNormalized tags) pref)) + health_score h - 1000 * int (length avoided),
          ca_selected = False,
          ca_reasons = map (\<lambda>c. (if containsNormalized caps c then ''has capability '' else ''missing capability '') @ c) req
            @ map (\<lambda>t. ''has preferred tag '' @ t) (filter (containsNormalized tags) pref)
            @ health_reason h @ map (\<lambda>a. ''avoids health '' @ a) avoided,
          ca_missing = filter (\<lambda>c. \<not> containsNormalized caps c) req,
          ca_health = h, ca_tags = tags, ca_caps = caps, ca_host = host\<rparr>)"

definition with_target :: "route_request \<Rightarrow> candidate \<Rightarrow> candidate" where
  "with_target rq c =
     (if rq_target rq \<noteq> '''' \<and> \<not> equal_fold (ca_name c) (rq_target rq)
      then c\<lparr>ca_score := ca_score c - 10000, ca_reasons := ca_reasons c @ [''not explicit target'']\<rparr> else c)"

text \<open>By falling score, then by name.\<close>
definition ranked :: "candidate list \<Rightarrow> candidate list" where
  "ranked cs = sort_key (\<lambda>c. - ca_score c) (sort_key ca_name cs)"

record route_decision =
  rd_success :: bool
  rd_selected :: string
  rd_reason :: string
  rd_candidates :: "candidate list"

definition selectRoute :: "json list \<Rightarrow> route_request \<Rightarrow> route_decision" where
  "selectRoute hosts rq =
     (case ranked (map (\<lambda>h. with_target rq (scoreRouteCandidate h rq)) hosts) of
        [] \<Rightarrow> \<lparr>rd_success = False, rd_selected = '''', rd_reason = ''no hosts available'', rd_candidates = []\<rparr>
      | best # cs \<Rightarrow>
          if ca_missing best \<noteq> [] \<or> ca_score best < 0 then
            \<lparr>rd_success = False, rd_selected = '''', rd_reason = ''no host satisfies route constraints'', rd_candidates = best # cs\<rparr>
          else \<lparr>rd_success = True, rd_selected = ca_name best, rd_reason = join ''; '' (ca_reasons best),
                rd_candidates = best\<lparr>ca_selected := True\<rparr> # cs\<rparr>)"

definition candidate_json :: "candidate \<Rightarrow> json" where
  "candidate_json c = JObj
     ([(''name'', JStr (ca_name c)), (''score'', json_int (ca_score c)), (''selected'', JBool (ca_selected c)),
       (''reasons'', texts (ca_reasons c))] @ omit_texts ''missing_capabilities'' (ca_missing c)
      @ [(''health'', JStr (ca_health c)), (''tags'', texts (ca_tags c)), (''capabilities'', texts (ca_caps c)), (''host'', ca_host c)])"

definition request_json :: "front \<Rightarrow> route_request \<Rightarrow> json" where
  "request_json fr rq = JObj
     ([(''required_capabilities'', maybe_list (rq_caps rq)), (''preferred_tags'', maybe_list (rq_tags rq)),
       (''avoid_health'', maybe_list (rq_avoid rq))] @ omit_empty ''target'' (rq_target rq)
      @ [(''include_health'', JBool (rq_health rq))]
      @ (if fr_num fr (rq_timeout rq) = JNum ''0'' then [] else [(''health_timeout_seconds'', fr_num fr (rq_timeout rq))]))"

definition decision_members :: "front \<Rightarrow> route_request \<Rightarrow> route_decision \<Rightarrow> (string \<times> json) list" where
  "decision_members fr rq d =
     [(''reason'', JStr (rd_reason d)), (''request'', request_json fr rq), (''candidates'', JArr (map candidate_json (rd_candidates d)))]"

text \<open>\<^verbatim>\<open>routeDecisionMap\<close>, and the decision itself as a struct inside another payload.\<close>
definition routeDecisionMap :: "front \<Rightarrow> route_request \<Rightarrow> route_decision \<Rightarrow> json" where
  "routeDecisionMap fr rq d =
     json_map ([(''success'', JBool (rd_success d)), (''selected'', JStr (rd_selected d))] @ decision_members fr rq d)"

definition route_json :: "front \<Rightarrow> route_request \<Rightarrow> route_decision \<Rightarrow> json" where
  "route_json fr rq d =
     JObj ([(''success'', JBool (rd_success d))] @ omit_empty ''selected'' (rd_selected d) @ decision_members fr rq d)"

text \<open>The hosts are those of the records, which depend on whether health is asked for.\<close>
type_synonym inventory = "bool \<Rightarrow> json list"

definition toolRouteSelect :: "front \<Rightarrow> inventory \<Rightarrow> json \<Rightarrow> mstate \<Rightarrow> json \<times> mstate" where
  "toolRouteSelect fr recs args s =
     (let rq = getRouteRequest args in (routeDecisionMap fr rq (selectRoute (recs (rq_health rq)) rq), s))"

definition toolExecRouted :: "front \<Rightarrow> inventory \<Rightarrow> json \<Rightarrow> mstate \<Rightarrow> json \<times> mstate" where
  "toolExecRouted fr recs args s =
     (let command = getString args ''command''; rq = getRouteRequest args; d = selectRoute (recs (rq_health rq)) rq in
      if command = '''' then (missing [(''tool'', JStr ''vssh_exec_routed'')] ''command is required'', s)
      else if \<not> rd_success d \<or> rd_selected d = '''' then
        (json_map ([(''success'', JBool False), (''tool'', JStr ''vssh_exec_routed''), (''command'', JStr command)] @ times_json fr
           @ [(''route'', route_json fr rq d), (''error'', retry_error ''route_not_found'' (rd_reason d) True)]), s)
      else
        let (ms, s1) = toolExec_members fr (rd_selected d) command (getFloat args ''timeout_seconds'' defaultTimeout)
                         (getBool args ''allow_dangerous'' False) s
        in (json_map (filter (\<lambda>(k, _). k \<noteq> ''tool'') ms
              @ [(''tool'', JStr ''vssh_exec_routed''), (''route'', route_json fr rq d), (''routed_target'', JStr (rd_selected d))]), s1))"

section \<open>What the choice guarantees\<close>

lemma ranked_set [simp]: "set (ranked cs) = set cs" by (simp add: ranked_def)

lemma ranked_first:
  assumes "ranked cs = b # bs" "c \<in> set cs"
  shows "ca_score c \<le> ca_score b"
proof -
  have "sorted (map (\<lambda>c. - ca_score c) (ranked cs))" by (simp add: ranked_def)
  moreover have "c \<in> set (b # bs)" using assms by (metis ranked_set)
  ultimately show ?thesis using assms(1) by auto
qed

lemma cap_score: "(\<Sum>c \<leftarrow> req. if containsNormalized caps c then 100 else - 1000 :: int) \<le> 100 * int (length req)"
  by (induction req) auto

text \<open>A chosen host has every required capability. It has the best score of all; and as long as the
  capabilities and tags asked for cannot outweigh a penalty, it is the explicit target, when there is
  one, and its health is none of those to avoid.\<close>
theorem chosen_host_fits:
  assumes "selectRoute hosts rq = d" "rd_success d"
    and "100 * length (the_list (rq_caps rq)) + 10 * length (the_list (rq_tags rq)) + 20 < 1000"
  shows "\<exists>h \<in> set hosts. rd_selected d = getString h ''name'' \<and>
    (\<forall>c \<in> set (the_list (rq_caps rq)). containsNormalized (getStringSliceFromHost h ''capabilities'') c) \<and>
    (\<forall>a \<in> set (the_list (rq_avoid rq)). \<not> equal_fold (getHealthStatus h) a) \<and>
    (rq_target rq \<noteq> '''' \<longrightarrow> equal_fold (getString h ''name'') (rq_target rq)) \<and>
    (\<forall>g \<in> set hosts. ca_score (with_target rq (scoreRouteCandidate g rq)) \<le> ca_score (with_target rq (scoreRouteCandidate h rq)))"
proof -
  let ?cs = "map (\<lambda>h. with_target rq (scoreRouteCandidate h rq)) hosts"
  obtain best bs where r: "ranked ?cs = best # bs" "ca_missing best = []" "0 \<le> ca_score best" "rd_selected d = ca_name best"
    using assms(1,2) by (auto simp: selectRoute_def split: list.splits if_splits)
  have "best \<in> set ?cs" using r(1) by (metis list.set_intros(1) ranked_set)
  then obtain h where h: "h \<in> set hosts" "best = with_target rq (scoreRouteCandidate h rq)" by auto
  define caps tags where "caps = getStringSliceFromHost h ''capabilities''" and "tags = getStringSliceFromHost h ''tags''"
  let ?av = "filter (\<lambda>a. equal_fold (getHealthStatus h) a) (the_list (rq_avoid rq))"
  have name: "ca_name best = getString h ''name''" by (simp add: h(2) with_target_def scoreRouteCandidate_def Let_def)
  have miss: "filter (\<lambda>c. \<not> containsNormalized caps c) (the_list (rq_caps rq)) = []"
    using r(2) by (simp add: h(2) with_target_def scoreRouteCandidate_def Let_def caps_def split: if_splits)
  have l: "length (filter (containsNormalized tags) (the_list (rq_tags rq))) \<le> length (the_list (rq_tags rq))" by simp
  have hs: "health_score (getHealthStatus h) \<le> 20" by (simp add: health_score_def)
  have bound: "ca_score (scoreRouteCandidate h rq) \<le> 999 - 1000 * int (length ?av)"
  proof -
    have "ca_score (scoreRouteCandidate h rq) =
        (\<Sum>c \<leftarrow> the_list (rq_caps rq). if containsNormalized caps c then 100 else - 1000)
        + 10 * int (length (filter (containsNormalized tags) (the_list (rq_tags rq))))
        + health_score (getHealthStatus h) - 1000 * int (length ?av)"
      by (simp add: scoreRouteCandidate_def Let_def caps_def tags_def)
    then show ?thesis using cap_score[of caps "the_list (rq_caps rq)"] l hs assms(3) by linarith
  qed
  have le: "ca_score best \<le> ca_score (scoreRouteCandidate h rq)" by (simp add: h(2) with_target_def)
  have "int (length ?av) = 0" using bound le r(3) by linarith
  then have av: "\<forall>a \<in> set (the_list (rq_avoid rq)). \<not> equal_fold (getHealthStatus h) a" by (simp add: filter_empty_conv)
  have tgt: "equal_fold (getString h ''name'') (rq_target rq)" if "rq_target rq \<noteq> ''''"
  proof (rule ccontr)
    assume "\<not> equal_fold (getString h ''name'') (rq_target rq)"
    then have "ca_score best = ca_score (scoreRouteCandidate h rq) - 10000"
      using that by (simp add: h(2) with_target_def scoreRouteCandidate_def Let_def)
    with bound r(3) show False by simp
  qed
  have "\<forall>g \<in> set hosts. ca_score (with_target rq (scoreRouteCandidate g rq)) \<le> ca_score best"
    using ranked_first[OF r(1)] by auto
  with h(1) name miss av tgt r(4) show ?thesis
    unfolding h(2)[symmetric] caps_def by (auto simp: filter_empty_conv h(2) intro!: bexI[of _ h])
qed

definition demo_hosts :: "json list" where
  "demo_hosts = [
     JObj [(''name'', JStr ''g1''), (''capabilities'', texts [''cuda'']), (''tags'', texts [''gpu'']),
           (''health'', JObj [(''status'', JStr ''offline'')])],
     JObj [(''name'', JStr ''g2''), (''capabilities'', texts [''cuda'']), (''tags'', texts []),
           (''health'', JObj [(''status'', JStr ''online'')])]]"

definition demo_request :: route_request where
  "demo_request = \<lparr>rq_caps = Some [''CUDA''], rq_tags = Some [''gpu''], rq_avoid = Some [''offline''], rq_target = '''',
     rq_health = False, rq_timeout = ''1''\<rparr>"

lemma chosen_host_fits_witness:
  "rd_selected (selectRoute demo_hosts demo_request) = ''g2'' \<and>
   (\<exists>h \<in> set demo_hosts. getString h ''name'' = ''g2'' \<and> \<not> equal_fold (getHealthStatus h) ''offline'')"
proof -
  have s: "rd_success (selectRoute demo_hosts demo_request)" "rd_selected (selectRoute demo_hosts demo_request) = ''g2''"
    "100 * length (the_list (rq_caps demo_request)) + 10 * length (the_list (rq_tags demo_request)) + 20 < 1000" by code_simp+
  have a: "''offline'' \<in> set (the_list (rq_avoid demo_request))" by (simp add: demo_request_def the_list_def)
  show ?thesis using chosen_host_fits[OF refl s(1,3)] s(2) a by metis
qed

end
