(* ===== verification/Policy.thy ===== *)
theory Policy
  imports AuditLog ConfigWrite
begin

text \<open>
  \<^verbatim>\<open>internal/server/policy.go\<close>: the per-key policies (their files, the mtime cache, the
  deny-first evaluation of commands, the path and forward rules, the rate limit) and the gates
  the handlers call.  Compiling a regular expression and testing CIDR membership are arguments:
  \<open>compile p\<close> is \<^verbatim>\<open>regexp.Compile\<close> with \<^verbatim>\<open>MatchString\<close> of the result,
  \<open>cidr r h\<close> is \<^verbatim>\<open>ParseCIDR\<close>, \<^verbatim>\<open>ParseIP\<close> and \<^verbatim>\<open>Contains\<close>.
\<close>

section \<open>Policies and their files\<close>

type_synonym compiler = "string \<Rightarrow> (string \<Rightarrow> bool) option"

record policy =
  p_name :: string
  p_exec_allow :: "string list"
  p_exec_deny :: "string list"
  p_file_paths :: "string list"
  p_fwd_targets :: "string list"
  p_exec_per_min :: int
  p_danger :: "string list"
  p_allow_re :: "(string \<Rightarrow> bool) list"
  p_deny_re :: "(string \<Rightarrow> bool) list"
  p_danger_re :: "(string \<Rightarrow> bool) list"

definition policy_zero :: policy where
  "policy_zero = \<lparr>p_name = '''', p_exec_allow = [], p_exec_deny = [], p_file_paths = [], p_fwd_targets = [],
     p_exec_per_min = 0, p_danger = [], p_allow_re = [], p_deny_re = [], p_danger_re = []\<rparr>"

datatype pol_err = BadPolicyName string | PolicyNotFound string | PolicyRead string io_err
  | PolicyParse string | PolicyRegex string string nat string

record pol_entry =
  pe_mtime :: int
  pe_path :: path
  pe_res :: "pol_err + policy"

type_synonym pworld = "pol_entry world"

definition policyPaths :: "string \<Rightarrow> string \<Rightarrow> path list" where
  "policyPaths home name =
     [join_path [vsshConfigDir home, ''policies'', name @ ''.json''],
      join_path [''/etc/vssh/policies'', name @ ''.json'']]"

text \<open>Compile a rule list: the rules, or the first bad one; and the indices of the rules that are
  not anchored on both sides, for which a warning is printed.\<close>
fun compile_from :: "compiler \<Rightarrow> string \<Rightarrow> string \<Rightarrow> nat \<Rightarrow> string list \<Rightarrow> pol_err + ((string \<Rightarrow> bool) list \<times> nat list)" where
  "compile_from compile name kind i [] = Inr ([], [])"
| "compile_from compile name kind i (p # ps) =
     (case compile p of None \<Rightarrow> Inl (PolicyRegex name kind i p)
      | Some re \<Rightarrow>
          (case compile_from compile name kind (Suc i) ps of Inl e \<Rightarrow> Inl e
           | Inr (res, warns) \<Rightarrow>
               Inr (re # res, (if \<not> has_prefix ''^'' p \<or> \<not> has_suffix ''$'' p then i # warns else warns))))"

definition compileAnchoredWarn :: "compiler \<Rightarrow> string \<Rightarrow> string \<Rightarrow> string list \<Rightarrow> pol_err + ((string \<Rightarrow> bool) list \<times> nat list)" where
  "compileAnchoredWarn compile name kind ps = compile_from compile name kind 0 ps"

text \<open>\<^verbatim>\<open>json.Unmarshal\<close> into the struct: members by their tag, case folded, null ignored,
  another type an error.\<close>
fun json_strings :: "json list \<Rightarrow> string list option" where
  "json_strings [] = Some []"
| "json_strings (v # vs) =
     (case json_strings vs of None \<Rightarrow> None
      | Some ss \<Rightarrow> (case v of JStr s \<Rightarrow> Some (s # ss) | JNull \<Rightarrow> Some ('''' # ss) | _ \<Rightarrow> None))"

definition set_strings :: "json \<Rightarrow> (string list \<Rightarrow> policy) \<Rightarrow> policy \<Rightarrow> policy option" where
  "set_strings v upd p =
     (case v of JNull \<Rightarrow> Some (upd []) | JArr vs \<Rightarrow> map_option upd (json_strings vs) | _ \<Rightarrow> None)"

fun set_rate :: "(string \<times> json) list \<Rightarrow> policy \<Rightarrow> policy option" where
  "set_rate [] p = Some p"
| "set_rate ((k, v) # ms) p =
     (if equal_fold k ''exec_per_min'' then
        (case v of JNull \<Rightarrow> set_rate ms p
         | JNum n \<Rightarrow> (case go_atoi n of (i, ok) \<Rightarrow> if ok then set_rate ms (p\<lparr>p_exec_per_min := i\<rparr>) else None)
         | _ \<Rightarrow> None)
      else set_rate ms p)"

definition set_field :: "string \<Rightarrow> json \<Rightarrow> policy \<Rightarrow> policy option" where
  "set_field k v p =
     (if equal_fold k ''name'' then
        (case v of JNull \<Rightarrow> Some p | JStr s \<Rightarrow> Some (p\<lparr>p_name := s\<rparr>) | _ \<Rightarrow> None)
      else if equal_fold k ''exec_allow'' then set_strings v (\<lambda>ss. p\<lparr>p_exec_allow := ss\<rparr>) p
      else if equal_fold k ''exec_deny'' then set_strings v (\<lambda>ss. p\<lparr>p_exec_deny := ss\<rparr>) p
      else if equal_fold k ''file_paths'' then set_strings v (\<lambda>ss. p\<lparr>p_file_paths := ss\<rparr>) p
      else if equal_fold k ''fwd_targets'' then set_strings v (\<lambda>ss. p\<lparr>p_fwd_targets := ss\<rparr>) p
      else if equal_fold k ''danger_preapproved'' then set_strings v (\<lambda>ss. p\<lparr>p_danger := ss\<rparr>) p
      else if equal_fold k ''rate'' then
        (case v of JNull \<Rightarrow> Some p | JObj ms \<Rightarrow> set_rate ms p | _ \<Rightarrow> None)
      else Some p)"

fun set_fields :: "(string \<times> json) list \<Rightarrow> policy \<Rightarrow> policy option" where
  "set_fields [] p = Some p"
| "set_fields ((k, v) # ms) p = (case set_field k v p of None \<Rightarrow> None | Some p' \<Rightarrow> set_fields ms p')"

definition policy_of_json :: "string \<Rightarrow> policy option" where
  "policy_of_json d =
     (case unmarshal d of Some (JObj ms) \<Rightarrow> set_fields ms policy_zero
      | Some JNull \<Rightarrow> Some policy_zero | _ \<Rightarrow> None)"

definition loadPolicyFile :: "compiler \<Rightarrow> fs \<Rightarrow> string \<Rightarrow> path \<Rightarrow> pol_err + policy" where
  "loadPolicyFile compile f name p =
     (case read_file f p of Inl e \<Rightarrow> Inl (PolicyRead name e)
      | Inr d \<Rightarrow>
         (case policy_of_json d of None \<Rightarrow> Inl (PolicyParse name)
          | Some pol \<Rightarrow>
             (case compileAnchoredWarn compile name ''exec_deny'' (p_exec_deny pol) of Inl e \<Rightarrow> Inl e
              | Inr (deny, _) \<Rightarrow>
                 (case compileAnchoredWarn compile name ''exec_allow'' (p_exec_allow pol) of Inl e \<Rightarrow> Inl e
                  | Inr (allow, _) \<Rightarrow>
                     (case compileAnchoredWarn compile name ''danger_preapproved'' (p_danger pol) of Inl e \<Rightarrow> Inl e
                      | Inr (danger, _) \<Rightarrow>
                          Inr (pol\<lparr>p_deny_re := deny, p_allow_re := allow, p_danger_re := danger\<rparr>))))))"

text \<open>The first of the two paths that is a plain file.\<close>
definition policy_file :: "fs \<Rightarrow> path list \<Rightarrow> path option" where
  "policy_file f ps = find (\<lambda>p. fs_files f p \<noteq> None \<and> p \<notin> set (fs_dirs f)) ps"

definition file_mtime :: "fs \<Rightarrow> path \<Rightarrow> int" where
  "file_mtime f p = (case fs_files f p of None \<Rightarrow> 0 | Some x \<Rightarrow> fmtime x)"

definition LoadPolicy :: "compiler \<Rightarrow> string \<Rightarrow> pworld \<Rightarrow> (pol_err + policy) \<times> pworld" where
  "LoadPolicy compile name w =
     (let name = trim_space name in
      if name = '''' \<or> list_ex (\<lambda>c. c = CHR ''/'' \<or> c = CHR 0x5C \<or> c = CHR ''.'') name
      then (Inl (BadPolicyName name), w)
      else (case policy_file (w_fs w) (policyPaths (w_home w) name) of
          None \<Rightarrow> (Inl (PolicyNotFound name), w)
        | Some p \<Rightarrow>
            let m = file_mtime (w_fs w) p;
                fresh = (let r = loadPolicyFile compile (w_fs w) name p in
                  (r, w\<lparr>w_polcache := (w_polcache w)(name \<mapsto> \<lparr>pe_mtime = m, pe_path = p, pe_res = r\<rparr>)\<rparr>))
            in (case w_polcache w name of
                  None \<Rightarrow> fresh
                | Some e \<Rightarrow> if pe_path e = p \<and> pe_mtime e = m then (pe_res e, w) else fresh)))"

section \<open>Decisions\<close>

fun match_index :: "nat \<Rightarrow> (string \<Rightarrow> bool) list \<Rightarrow> string \<Rightarrow> nat option" where
  "match_index i [] s = None"
| "match_index i (re # res) s = (if re s then Some i else match_index (Suc i) res s)"

definition rule_id :: "string \<Rightarrow> nat \<Rightarrow> string" where
  "rule_id kind i = kind @ ''['' @ show_nat i @ '']''"

record exec_decision =
  ed_allowed :: bool
  ed_rule :: string
  ed_preapproved :: bool

definition EvalExec :: "policy \<Rightarrow> string \<Rightarrow> exec_decision" where
  "EvalExec p command =
     (let cmd = trim_crlf command in
      case match_index 0 (p_deny_re p) cmd of
        Some i \<Rightarrow> \<lparr>ed_allowed = False, ed_rule = rule_id ''exec_deny'' i, ed_preapproved = False\<rparr>
      | None \<Rightarrow>
         (case match_index 0 (p_danger_re p) cmd of
            Some i \<Rightarrow> \<lparr>ed_allowed = True, ed_rule = rule_id ''danger_preapproved'' i, ed_preapproved = True\<rparr>
          | None \<Rightarrow>
             (case match_index 0 (p_allow_re p) cmd of
                Some i \<Rightarrow> \<lparr>ed_allowed = True, ed_rule = rule_id ''exec_allow'' i, ed_preapproved = False\<rparr>
              | None \<Rightarrow> \<lparr>ed_allowed = False, ed_rule = ''no_match'', ed_preapproved = False\<rparr>)))"

text \<open>The loop of \<^verbatim>\<open>resolvePath\<close>: the longest ancestor that resolves, with the rest of the path
  put back.  The parent of a rooted path is shorter until the root; the second test of the guard
  only makes that explicit.\<close>
function resolve_loop :: "fs \<Rightarrow> path \<Rightarrow> path \<Rightarrow> path \<Rightarrow> path" where
  "resolve_loop f r rest cur =
     (case fs_evalsym f cur of
        Some ev \<Rightarrow> clean_path (join_path [ev, rest])
      | None \<Rightarrow>
          if dir_path cur = cur \<or> length cur \<le> length (dir_path cur) then r
          else resolve_loop f r (join_path [base_path cur, rest]) (dir_path cur))"
  by pat_completeness auto
termination by (relation "measure (\<lambda>(_, _, _, cur). length cur)") auto

declare resolve_loop.simps [simp del]

definition resolvePath :: "fs \<Rightarrow> path \<Rightarrow> path" where
  "resolvePath f p = (let r = clean_path (abs_path (fs_cwd f) p) in resolve_loop f r '''' r)"

definition resolveGlob :: "fs \<Rightarrow> string \<Rightarrow> string" where
  "resolveGlob f glob =
     (case index_pred (\<lambda>c. c \<in> set ''*?['') glob of
        None \<Rightarrow> resolvePath f glob
      | Some i \<Rightarrow>
          let base0 = take i glob;
              base = (case last_index (CHR ''/'') base0 of None \<Rightarrow> base0 | Some j \<Rightarrow> take j base0)
          in resolvePath f base @ drop (length base) glob)"

definition matchGlob :: "string \<Rightarrow> path \<Rightarrow> bool" where
  "matchGlob glob p =
     (if has_suffix ''/**'' glob
      then (let base = trim_suffix ''/**'' glob in p = base \<or> has_prefix (base @ ''/'') p)
      else match_pat glob p)"

definition PathAllowed :: "fs \<Rightarrow> policy \<Rightarrow> path \<Rightarrow> bool" where
  "PathAllowed f p path =
     (p_file_paths p \<noteq> [] \<and>
      list_ex (\<lambda>glob. matchGlob (resolveGlob f glob) (resolvePath f path)) (p_file_paths p))"

definition fwd_rule_match :: "(string \<Rightarrow> string \<Rightarrow> bool) \<Rightarrow> string \<Rightarrow> int \<Rightarrow> string \<Rightarrow> bool" where
  "fwd_rule_match cidr host port r =
     (case last_index (CHR '':'') r of None \<Rightarrow> False
      | Some i \<Rightarrow>
          let hp = take i r; pp = drop (Suc i) r in
          (pp = ''*'' \<or> go_atoi pp = (port, True)) \<and>
          (hp = host \<or> contains ''/'' hp \<and> cidr hp host))"

definition fwdTargetMatch :: "(string \<Rightarrow> string \<Rightarrow> bool) \<Rightarrow> string list \<Rightarrow> string \<Rightarrow> int \<Rightarrow> bool" where
  "fwdTargetMatch cidr rules host port = list_ex (fwd_rule_match cidr host port) rules"

definition rateExceeded :: "string \<Rightarrow> int \<Rightarrow> 'pol world \<Rightarrow> bool \<times> 'pol world" where
  "rateExceeded keyPub perMin w =
     (if perMin \<le> 0 \<or> keyPub = '''' then (False, w)
      else let old = (case w_rates w keyPub of None \<Rightarrow> [] | Some es \<Rightarrow> es);
               kept = filter (\<lambda>t. w_now w - 60 \<le> t) old
           in if perMin \<le> int (length kept)
              then (True, w\<lparr>w_rates := (w_rates w)(keyPub \<mapsto> kept)\<rparr>)
              else (False, w\<lparr>w_rates := (w_rates w)(keyPub \<mapsto> kept @ [w_now w])\<rparr>))"

section \<open>The gates the handlers call\<close>

text \<open>What the daemon takes from outside the program.\<close>
record denv =
  de_compile :: compiler
  de_cidr :: "string \<Rightarrow> string \<Rightarrow> bool"
  de_sha :: "bytes \<Rightarrow> bytes"

definition ErrCodePolicyDenied :: string where "ErrCodePolicyDenied = ''policy_denied''"

text \<open>The text of a load error; of an error a library wraps only the program's part.\<close>
definition pol_err_text :: "pol_err \<Rightarrow> string" where
  "pol_err_text e =
     (case e of
        BadPolicyName n \<Rightarrow> ''invalid policy name '' @ go_quote n
      | PolicyNotFound n \<Rightarrow> ''policy '' @ go_quote n @ '' not found''
      | PolicyRead n _ \<Rightarrow> ''policy '' @ go_quote n @ '' read: ''
      | PolicyParse n \<Rightarrow> ''policy '' @ go_quote n @ '' parse: ''
      | PolicyRegex n kind i p \<Rightarrow>
          ''policy '' @ go_quote n @ '' '' @ rule_id kind i @ '' bad regex '' @ go_quote p @ '': '')"

definition deny_result :: "string \<Rightarrow> exec_result" where
  "deny_result msg = exec_zero\<lparr>er_exit := -1, er_code := ErrCodePolicyDenied, er_error := msg\<rparr>"

definition unavailable_msg :: "string \<Rightarrow> pol_err \<Rightarrow> string" where
  "unavailable_msg name e =
     ''policy '' @ go_quote name @ '' unavailable (fail-closed): '' @ pol_err_text e"

definition enforceExecPolicy :: "denv \<Rightarrow> conn option \<Rightarrow> string \<Rightarrow> pworld \<Rightarrow> exec_result option \<times> pworld" where
  "enforceExecPolicy e cn command w =
     (let pub = fst (connIdentity w cn) in
      if pub = '''' then (None, w)
      else (case KeyPolicy (w_fs w) (w_home w) pub of
          (_, False) \<Rightarrow> (None, w)
        | (name, True) \<Rightarrow>
           (case LoadPolicy (de_compile e) name w of
              (Inl err, w1) \<Rightarrow>
                let res = deny_result (unavailable_msg name err) in
                (Some res, auditLog (de_sha e) cn command res (setConnPolicyMeta cn ''load_error'' False w1))
            | (Inr pol, w1) \<Rightarrow>
                let d = EvalExec pol command;
                    w2 = setConnPolicyMeta cn (ed_rule d) (ed_preapproved d) w1
                in if \<not> ed_allowed d then
                     (let res = deny_result (''command not permitted by policy '' @ go_quote name
                            @ '' (rule '' @ ed_rule d @ '')'')
                      in (Some res, auditLog (de_sha e) cn command res w2))
                   else if 0 < p_exec_per_min pol then
                     (case rateExceeded pub (p_exec_per_min pol) w2 of
                        (True, w3) \<Rightarrow>
                          let res = deny_result (''policy '' @ go_quote name @ '' rate limit exceeded (''
                                @ show_int (p_exec_per_min pol) @ ''/min)'')
                          in (Some res, auditLog (de_sha e) cn command res (setConnPolicyMeta cn ''rate_exceeded'' False w3))
                      | (False, w3) \<Rightarrow> (None, w3))
                   else (None, w2))))"

definition connPolicyName :: "'pol world \<Rightarrow> conn option \<Rightarrow> string" where
  "connPolicyName w cn =
     (let pub = fst (connIdentity w cn) in
      if pub = '''' then ''''
      else (case KeyPolicy (w_fs w) (w_home w) pub of (name, True) \<Rightarrow> name | (_, False) \<Rightarrow> ''''))"

text \<open>Refuse: note the rule, audit, and write the error line.\<close>
definition refuse :: "denv \<Rightarrow> conn option \<Rightarrow> string \<Rightarrow> string \<Rightarrow> string \<Rightarrow> pworld \<Rightarrow> pworld" where
  "refuse e cn rule what msg w =
     send cn (''ERROR policy_denied: '' @ msg @ [NL])
       (auditLog (de_sha e) cn what (deny_result msg) (setConnPolicyMeta cn rule False w))"

definition policyPathDenied :: "denv \<Rightarrow> conn option \<Rightarrow> path \<Rightarrow> pworld \<Rightarrow> bool \<times> pworld" where
  "policyPathDenied e cn path w =
     (let name = connPolicyName w cn in
      if name = '''' then (False, w)
      else (case LoadPolicy (de_compile e) name w of
          (Inl err, w1) \<Rightarrow> (True, refuse e cn ''load_error'' (''FILE '' @ path) (unavailable_msg name err) w1)
        | (Inr pol, w1) \<Rightarrow>
            if PathAllowed (w_fs w1) pol path then (False, setConnPolicyMeta cn ''file_path_ok'' False w1)
            else (True, refuse e cn ''file_path_denied'' (''FILE '' @ path)
                    (''path not permitted by policy '' @ go_quote name @ '': '' @ path) w1)))"

definition policyBlockUnscoped :: "denv \<Rightarrow> conn option \<Rightarrow> string \<Rightarrow> pworld \<Rightarrow> bool \<times> pworld" where
  "policyBlockUnscoped e cn verb w =
     (let name = connPolicyName w cn in
      if name = '''' then (False, w)
      else (True, refuse e cn ''verb_blocked'' verb
              (''verb '' @ verb @ '' not permitted under policy '' @ go_quote name @ '' (unscoped; fail-closed)'') w))"

definition ProtoVersion :: string where "ProtoVersion = ''1''"

definition writeFwdErr :: "conn option \<Rightarrow> string \<Rightarrow> string \<Rightarrow> 'pol world \<Rightarrow> 'pol world" where
  "writeFwdErr cn msg code w =
     send cn [NL] (send cn (marshal (json_map
       [(''success'', JBool False), (''error'', JStr msg), (''error_code'', JStr code),
        (''proto_version'', JStr ProtoVersion)])) w)"

definition policyFwdDenied :: "denv \<Rightarrow> conn option \<Rightarrow> string \<Rightarrow> int \<Rightarrow> pworld \<Rightarrow> bool \<times> pworld" where
  "policyFwdDenied e cn host port w =
     (let name = connPolicyName w cn;
          what = ''FWD '' @ host @ '':'' @ show_int port;
          deny = (\<lambda>msg w. (True, writeFwdErr cn msg ErrCodePolicyDenied
            (auditLog (de_sha e) cn what (deny_result msg) (setConnPolicyMeta cn ''fwd_denied'' False w))))
      in if name = '''' then (False, w)
         else (case LoadPolicy (de_compile e) name w of
             (Inl err, w1) \<Rightarrow> deny (unavailable_msg name err) w1
           | (Inr pol, w1) \<Rightarrow>
               if fwdTargetMatch (de_cidr e) (p_fwd_targets pol) host port
               then (False, setConnPolicyMeta cn ''fwd_ok'' False w1)
               else deny (''forward '' @ host @ '':'' @ show_int port @ '' not permitted by policy ''
                            @ go_quote name) w1))"

definition rpc_ok :: "json \<Rightarrow> json" where
  "rpc_ok data = JObj [(''success'', JBool True), (''data'', data)]"

definition PolicyCheckRPC :: "denv \<Rightarrow> conn option \<Rightarrow> string \<Rightarrow> pworld \<Rightarrow> json \<times> pworld" where
  "PolicyCheckRPC e cn command w =
     (let name = connPolicyName w cn in
      if name = '''' then (rpc_ok (json_map [(''policied'', JBool False), (''decision'', JStr ''none'')]), w)
      else (case LoadPolicy (de_compile e) name w of
          (Inl err, w1) \<Rightarrow>
            (rpc_ok (json_map [(''policied'', JBool True), (''decision'', JStr ''deny''),
               (''rule'', JStr ''load_error''), (''error'', JStr (pol_err_text err))]), w1)
        | (Inr pol, w1) \<Rightarrow>
            let d = EvalExec pol command;
                decision = (if ed_allowed d \<and> ed_preapproved d then ''preapproved''
                            else if ed_allowed d then ''allow'' else ''deny'')
            in (rpc_ok (json_map [(''policied'', JBool True), (''decision'', JStr decision),
                  (''rule'', JStr (ed_rule d)), (''preapproved'', JBool (ed_preapproved d))]), w1)))"

section \<open>Facts\<close>

lemma match_index_None: "match_index i res s = None \<longleftrightarrow> (\<forall>re \<in> set res. \<not> re s)"
  by (induction i res s rule: match_index.induct) auto

lemma match_index_Some: "match_index i res s = Some j \<Longrightarrow> i \<le> j \<and> j < i + length res \<and> (res ! (j - i)) s
    \<and> (\<forall>k < j - i. \<not> (res ! k) s)"
proof (induction i res s rule: match_index.induct)
  case (2 i re res s)
  show ?case
  proof (cases "re s")
    case False
    with 2 have IH: "Suc i \<le> j \<and> j < Suc i + length res \<and> (res ! (j - Suc i)) s \<and> (\<forall>k < j - Suc i. \<not> (res ! k) s)"
      by simp
    then have "j - i = Suc (j - Suc i)" by linarith
    with IH False show ?thesis by (auto simp: less_Suc_eq_0_disj)
  qed (use 2 in simp)
qed simp

lemma match_index_ex: "match_index i res s = Some j \<Longrightarrow> \<exists>re \<in> set res. re s"
  using match_index_None[of i res s] by auto

text \<open>the decision of a policy on a command: a deny rule that matches always wins, then a
  pre-approval, then an allow rule; without a match the command is refused.  Only a command
  some danger rule matches counts as pre-approved.\<close>
theorem EvalExec_deny_first:
  "(ed_allowed (EvalExec p cmd) \<longleftrightarrow>
     (\<forall>re \<in> set (p_deny_re p). \<not> re (trim_crlf cmd)) \<and>
     (\<exists>re \<in> set (p_danger_re p) \<union> set (p_allow_re p). re (trim_crlf cmd))) \<and>
   (ed_preapproved (EvalExec p cmd) \<longleftrightarrow>
     ed_allowed (EvalExec p cmd) \<and> (\<exists>re \<in> set (p_danger_re p). re (trim_crlf cmd)))"
proof -
  define c where "c = trim_crlf cmd"
  note N = match_index_None[THEN iffD1] and S = match_index_ex
  show ?thesis
  proof (cases "match_index 0 (p_deny_re p) c")
    case (Some i)
    with S[OF Some] show ?thesis by (simp add: EvalExec_def flip: c_def, blast?)
  next
    case None
    note D = N[OF None]
    show ?thesis
    proof (cases "match_index 0 (p_danger_re p) c")
      case (Some i)
      with S[OF Some] D None show ?thesis by (simp add: EvalExec_def flip: c_def, blast?)
    next
      case N2: None
      show ?thesis
      proof (cases "match_index 0 (p_allow_re p) c")
        case (Some i)
        with S[OF Some] N[OF N2] N2 D None show ?thesis by (simp add: EvalExec_def flip: c_def, blast?)
      next
        case N3: None
        with N[OF N3] N[OF N2] N2 D None show ?thesis by (simp add: EvalExec_def flip: c_def, blast?)
      qed
    qed
  qed
qed

section \<open>Fail closed\<close>

lemma auditLog_sel [simp]:
  "w_idents (auditLog H cn c r w) = w_idents w" "w_home (auditLog H cn c r w) = w_home w"
  "w_polcache (auditLog H cn c r w) = w_polcache w" "w_rates (auditLog H cn c r w) = w_rates w"
  "w_sent (auditLog H cn c r w) = w_sent w" "w_now (auditLog H cn c r w) = w_now w"
  by (auto simp: auditLog_def Let_def split: prod.splits option.splits)

lemma setConnPolicyMeta_sel [simp]:
  "w_idents (setConnPolicyMeta cn r b w) = w_idents w" "w_home (setConnPolicyMeta cn r b w) = w_home w"
  "w_fs (setConnPolicyMeta cn r b w) = w_fs w" "w_polcache (setConnPolicyMeta cn r b w) = w_polcache w"
  "w_rates (setConnPolicyMeta cn r b w) = w_rates w" "w_sent (setConnPolicyMeta cn r b w) = w_sent w"
  "w_now (setConnPolicyMeta cn r b w) = w_now w"
  by (auto simp: setConnPolicyMeta_def split: option.splits)

lemma LoadPolicy_sel:
  "LoadPolicy cmp name w = (r, w1) \<Longrightarrow> w_idents w1 = w_idents w \<and> w_home w1 = w_home w \<and> w_fs w1 = w_fs w
    \<and> w_sent w1 = w_sent w \<and> w_rates w1 = w_rates w \<and> w_now w1 = w_now w"
  by (auto simp: LoadPolicy_def Let_def split: if_splits option.splits)

text \<open>The cached result of every name is what loading that file now would give.\<close>
definition cache_coherent :: "compiler \<Rightarrow> pworld \<Rightarrow> bool" where
  "cache_coherent cmp w \<longleftrightarrow>
     (\<forall>name e. w_polcache w name = Some e \<and> fs_files (w_fs w) (pe_path e) \<noteq> None
        \<and> file_mtime (w_fs w) (pe_path e) = pe_mtime e \<longrightarrow>
        pe_res e = loadPolicyFile cmp (w_fs w) name (pe_path e))"

definition policy_now :: "compiler \<Rightarrow> string \<Rightarrow> pworld \<Rightarrow> pol_err + policy" where
  "policy_now cmp name w =
     (let name = trim_space name in
      if name = '''' \<or> list_ex (\<lambda>c. c = CHR ''/'' \<or> c = CHR 0x5C \<or> c = CHR ''.'') name
      then Inl (BadPolicyName name)
      else (case policy_file (w_fs w) (policyPaths (w_home w) name) of
              None \<Rightarrow> Inl (PolicyNotFound name) | Some p \<Rightarrow> loadPolicyFile cmp (w_fs w) name p))"

lemma policy_file_exists: "policy_file f ps = Some p \<Longrightarrow> fs_files f p \<noteq> None"
  by (auto simp: policy_file_def find_Some_iff)

text \<open>The cache never changes what a policy is: as long as a change of a policy file changes its
  modification time, \<open>LoadPolicy\<close> answers what reading the file now would, and keeps it so.\<close>
lemma LoadPolicy_cache:
  assumes "cache_coherent cmp w"
  shows "fst (LoadPolicy cmp name w) = policy_now cmp name w \<and> cache_coherent cmp (snd (LoadPolicy cmp name w))"
proof -
  define n where "n = trim_space name"
  show ?thesis
  proof (cases "n = '''' \<or> list_ex (\<lambda>c. c = CHR ''/'' \<or> c = CHR 0x5C \<or> c = CHR ''.'') n")
    case True
    with assms show ?thesis by (simp add: LoadPolicy_def policy_now_def Let_def flip: n_def)
  next
    case False
    note nb = this
    show ?thesis
    proof (cases "policy_file (w_fs w) (policyPaths (w_home w) n)")
      case None
      with nb assms show ?thesis unfolding LoadPolicy_def policy_now_def Let_def n_def[symmetric] by simp
    next
      case (Some p)
      define m where "m = file_mtime (w_fs w) p"
      define r where "r = loadPolicyFile cmp (w_fs w) n p"
      have now: "policy_now cmp name w = r"
        using nb Some unfolding policy_now_def Let_def n_def[symmetric] r_def by simp
      have ex: "fs_files (w_fs w) p \<noteq> None" using Some by (rule policy_file_exists)
      show ?thesis
      proof (cases "\<exists>e. w_polcache w n = Some e \<and> pe_path e = p \<and> pe_mtime e = m")
        case True
        then obtain e where e: "w_polcache w n = Some e" "pe_path e = p" "pe_mtime e = m" by blast
        with assms[unfolded cache_coherent_def, rule_format, of n e] ex have "pe_res e = r"
          by (simp add: r_def m_def)
        moreover have "LoadPolicy cmp name w = (pe_res e, w)"
          using nb Some e unfolding LoadPolicy_def Let_def n_def[symmetric] m_def by simp
        ultimately show ?thesis using assms now by simp
      next
        case False
        then have "LoadPolicy cmp name w =
            (r, w\<lparr>w_polcache := (w_polcache w)(n \<mapsto> \<lparr>pe_mtime = m, pe_path = p, pe_res = r\<rparr>)\<rparr>)"
          using nb Some unfolding LoadPolicy_def Let_def n_def[symmetric] m_def r_def
          by (auto split: option.split)
        then show ?thesis using assms now unfolding cache_coherent_def by (auto simp: r_def)
      qed
    qed
  qed
qed

definition tagged :: "pworld \<Rightarrow> conn option \<Rightarrow> string \<Rightarrow> bool" where
  "tagged w cn name \<longleftrightarrow>
     fst (connIdentity w cn) \<noteq> '''' \<and> KeyPolicy (w_fs w) (w_home w) (fst (connIdentity w cn)) = (name, True)"

lemma tagged_name: "tagged w cn name \<Longrightarrow> connPolicyName w cn = name"
  by (simp add: tagged_def connPolicyName_def Let_def)

lemma LoadPolicy_now:
  "cache_coherent cmp w \<Longrightarrow> policy_now cmp name w = r \<Longrightarrow> \<exists>w1. LoadPolicy cmp name w = (r, w1)"
  using LoadPolicy_cache[of cmp w name] by (cases "LoadPolicy cmp name w") auto

text \<open>C3: a key tagged with a policy that cannot be loaded (absent, unreadable, malformed, of a bad
  name) can run no command; and a name that is not empty refuses it also every path, every forward
  target and every verb the policy does not scope.  The three last gates let exactly the empty name
  (\<open>policy=\<close>) pass, which they cannot tell from no tag.  Only operations behind one of these gates
  are meant: the interactive shell is behind none (\<open>Daemon\<close>).\<close>
theorem policy_fails_closed:
  assumes "tagged w cn name" "cache_coherent (de_compile e) w"
    and "policy_now (de_compile e) name w = Inl err"
  shows "fst (enforceExecPolicy e cn cmd w) \<noteq> None \<and>
    (fst (policyPathDenied e cn path w) \<longleftrightarrow> name \<noteq> '''') \<and>
    (fst (policyFwdDenied e cn host port w) \<longleftrightarrow> name \<noteq> '''') \<and>
    (fst (policyBlockUnscoped e cn verb w) \<longleftrightarrow> name \<noteq> '''')"
proof -
  obtain w1 where l: "LoadPolicy (de_compile e) name w = (Inl err, w1)"
    using LoadPolicy_now[OF assms(2,3)] by blast
  have t: "fst (connIdentity w cn) \<noteq> ''''"
    "KeyPolicy (w_fs w) (w_home w) (fst (connIdentity w cn)) = (name, True)"
    using assms(1) by (simp_all add: tagged_def)
  show ?thesis
    using l t tagged_name[OF assms(1)]
    by (simp add: enforceExecPolicy_def policyPathDenied_def policyFwdDenied_def policyBlockUnscoped_def Let_def)
qed

lemma exec_accepted:
  assumes "tagged w cn name" "cache_coherent (de_compile e) w" "fst (enforceExecPolicy e cn cmd w) = None"
  shows "\<exists>pol. policy_now (de_compile e) name w = Inr pol \<and> ed_allowed (EvalExec pol cmd) \<and>
    (0 < p_exec_per_min pol \<longrightarrow>
       int (length (filter (\<lambda>t. w_now w - 60 \<le> t)
         (case w_rates w (fst (connIdentity w cn)) of None \<Rightarrow> [] | Some es \<Rightarrow> es))) < p_exec_per_min pol)"
proof -
  obtain r w1 where l: "LoadPolicy (de_compile e) name w = (r, w1)" by (cases "LoadPolicy (de_compile e) name w")
  have now: "policy_now (de_compile e) name w = r" using LoadPolicy_cache[OF assms(2), of name] l by simp
  note sel = LoadPolicy_sel[OF l]
  have t: "fst (connIdentity w cn) \<noteq> ''''"
    "KeyPolicy (w_fs w) (w_home w) (fst (connIdentity w cn)) = (name, True)"
    using assms(1) by (simp_all add: tagged_def)
  from assms(3) t l obtain pol where r: "r = Inr pol"
    by (cases r) (auto simp: enforceExecPolicy_def Let_def)
  from assms(3) t l r have a: "ed_allowed (EvalExec pol cmd)"
    by (auto simp: enforceExecPolicy_def Let_def split: if_splits)
  have "int (length (filter (\<lambda>t. w_now w - 60 \<le> t)
      (case w_rates w (fst (connIdentity w cn)) of None \<Rightarrow> [] | Some es \<Rightarrow> es))) < p_exec_per_min pol"
    if "0 < p_exec_per_min pol"
    using assms(3) t l r a sel that
    by (auto simp: enforceExecPolicy_def rateExceeded_def Let_def split: if_splits)
  with now r a show ?thesis by simp
qed

text \<open>C2: what an accepted command means for a tagged key: its policy is loaded, its rules accept
  the command, and an enabled rate limit had room.\<close>
theorem enforceExecPolicy_sound:
  assumes "tagged w cn name" "cache_coherent (de_compile e) w" "fst (enforceExecPolicy e cn cmd w) = None"
  shows "\<exists>pol. policy_now (de_compile e) name w = Inr pol \<and> ed_allowed (EvalExec pol cmd) \<and>
    (0 < p_exec_per_min pol \<longrightarrow>
       int (length (filter (\<lambda>t. w_now w - 60 \<le> t)
         (case w_rates w (fst (connIdentity w cn)) of None \<Rightarrow> [] | Some es \<Rightarrow> es))) < p_exec_per_min pol)"
  using exec_accepted[OF assms] .

text \<open>an empty policy name (\<open>policy=\<close>) is refused at every command but is no policy at all
  for the file, forward and unscoped verbs.\<close>
theorem empty_policy_name_half_open:
  assumes "tagged w cn ''''"
  shows "fst (enforceExecPolicy e cn cmd w) \<noteq> None \<and> \<not> fst (policyPathDenied e cn path w) \<and>
    \<not> fst (policyFwdDenied e cn host port w) \<and> \<not> fst (policyBlockUnscoped e cn verb w)"
proof -
  have t: "fst (connIdentity w cn) \<noteq> ''''"
    "KeyPolicy (w_fs w) (w_home w) (fst (connIdentity w cn)) = ('''', True)"
    using assms by (simp_all add: tagged_def)
  have "LoadPolicy (de_compile e) '''' w = (Inl (BadPolicyName ''''), w)" by (simp add: LoadPolicy_def)
  with t tagged_name[OF assms] show ?thesis
    by (simp add: enforceExecPolicy_def policyPathDenied_def policyFwdDenied_def policyBlockUnscoped_def Let_def)
qed

section \<open>The rate limit\<close>

text \<open>A run of the limiter at the given times: the times it let through.\<close>
fun run_rate :: "string \<Rightarrow> int \<Rightarrow> 'pol world \<Rightarrow> int list \<Rightarrow> int list" where
  "run_rate key per w [] = []"
| "run_rate key per w (t # ts) =
     (case rateExceeded key per (w\<lparr>w_now := t\<rparr>) of
        (True, w1) \<Rightarrow> run_rate key per w1 ts | (False, w1) \<Rightarrow> t # run_rate key per w1 ts)"

definition stored :: "string \<Rightarrow> 'pol world \<Rightarrow> int list" where
  "stored key w = (case w_rates w key of None \<Rightarrow> [] | Some es \<Rightarrow> es)"

lemma rateExceeded_step:
  assumes "0 < per" "key \<noteq> ''''"
  shows "rateExceeded key per (w\<lparr>w_now := t\<rparr>) = (ex, w1) \<Longrightarrow>
    ex = (per \<le> int (length (filter (\<lambda>x. t - 60 \<le> x) (stored key w)))) \<and>
    stored key w1 = filter (\<lambda>x. t - 60 \<le> x) (stored key w) @ (if ex then [] else [t])"
  using assms by (auto simp: rateExceeded_def stored_def Let_def split: if_splits)

lemma run_rate_window:
  assumes "0 < per" "key \<noteq> ''''" "sorted (now # ts)"
    and "\<forall>c \<ge> now - 60. filter (\<lambda>x. c \<le> x) (stored key w) = filter (\<lambda>x. c \<le> x) past"
    and "\<forall>a. int (length (filter (\<lambda>x. a \<le> x \<and> x \<le> a + 60) past)) \<le> per"
  shows "int (length (filter (\<lambda>x. a \<le> x \<and> x \<le> a + 60) (past @ run_rate key per w ts))) \<le> per"
  using assms(3-5)
proof (induction ts arbitrary: now w past)
  case (Cons t ts)
  obtain ex w1 where r: "rateExceeded key per (w\<lparr>w_now := t\<rparr>) = (ex, w1)" by fastforce
  note st = rateExceeded_step[OF assms(1,2) r]
  have nt: "now \<le> t" "sorted (t # ts)" using Cons.prems(1) by auto
  have kept: "filter (\<lambda>x. t - 60 \<le> x) (stored key w) = filter (\<lambda>x. t - 60 \<le> x) past"
    using Cons.prems(2) nt(1) by simp
  have keep: "filter (\<lambda>x. c \<le> x) (filter (\<lambda>x. t - 60 \<le> x) past) = filter (\<lambda>x. c \<le> x) past" if "t - 60 \<le> c" for c
    using that by (auto intro!: filter_cong)
  show ?case
  proof (cases ex)
    case True
    then have "\<forall>c \<ge> t - 60. filter (\<lambda>x. c \<le> x) (stored key w1) = filter (\<lambda>x. c \<le> x) past"
      using st kept keep by simp
    with Cons.IH[OF nt(2) this Cons.prems(3)] r True show ?thesis by simp
  next
    case False
    then have len: "int (length (filter (\<lambda>x. t - 60 \<le> x) past)) < per" using st kept by simp
    have inv: "\<forall>c \<ge> t - 60. filter (\<lambda>x. c \<le> x) (stored key w1) = filter (\<lambda>x. c \<le> x) (past @ [t])"
      using False st kept keep by simp
    have "int (length (filter (\<lambda>x. a \<le> x \<and> x \<le> a + 60) (past @ [t]))) \<le> per" for a
    proof (cases "a \<le> t \<and> t \<le> a + 60")
      case True
      have "length (filter (\<lambda>x. a \<le> x \<and> x \<le> a + 60) past) \<le> length (filter (\<lambda>x. t - 60 \<le> x) past)"
        using True by (induction past) auto
      with len True show ?thesis by simp
    next
      case False
      with Cons.prems(3)[rule_format, of a] show ?thesis by auto
    qed
    with Cons.IH[OF nt(2) inv] r False show ?thesis by simp
  qed
qed (use assms in simp)

text \<open>C33: the rate limit holds over every window of a minute, whatever the pattern of attempts.\<close>
theorem rate_limit_window:
  assumes "0 < per" "key \<noteq> ''''" "sorted ts" "w_rates w key = None"
  shows "int (length (filter (\<lambda>x. a \<le> x \<and> x \<le> a + 60) (run_rate key per w ts))) \<le> per"
proof (cases ts)
  case Nil
  with assms(1) show ?thesis by simp
next
  case (Cons t us)
  have "int (length (filter (\<lambda>x. a \<le> x \<and> x \<le> a + 60) ([] @ run_rate key per w ts))) \<le> per"
    by (rule run_rate_window[where now = t]) (use assms Cons in \<open>auto simp: stored_def\<close>)
  then show ?thesis by simp
qed

lemma rate_limit_window_witness:
  "int (length (filter (\<lambda>x. 0 \<le> x \<and> x \<le> 0 + 60) (run_rate ''K'' 2 (world0 :: pworld) [0, 10, 20, 61, 62]))) \<le> 2"
  by (rule rate_limit_window) simp_all

section \<open>A concrete tagged connection\<close>

definition env0 :: denv where
  "env0 = \<lparr>de_compile = (\<lambda>p. Some (\<lambda>s. s = p)), de_cidr = (\<lambda>_ _. False), de_sha = (\<lambda>s. take 32 s)\<rparr>"

text \<open>Connection 7 authenticated as the key K, whose line carries the given policy tag; \<open>pf\<close> is
  the text of the policy file, if there is one.\<close>
definition tag_world :: "string \<Rightarrow> string option \<Rightarrow> pworld" where
  "tag_world tag pf =
     world0\<lparr>w_fs := (case pf of None \<Rightarrow> (\<lambda>f. f) | Some d \<Rightarrow> put_file ''/etc/vssh/policies/ro.json'' d)
        (put_file ''/root/.vssh/authorized_keys'' (''K policy='' @ tag @ [NL]) empty_fs),
      w_idents := (\<lambda>_. None)(7 \<mapsto> (''K'', ''''))\<rparr>"

lemma tag_world_sel [simp]:
  "w_home (tag_world t pf) = ''/root''" "connIdentity (tag_world t pf) (Some 7) = (''K'', '''')"
  "w_polcache (tag_world t pf) n = None" "w_rates (tag_world t pf) k = None" "w_now (tag_world t pf) = 1000"
  "w_sent (tag_world t pf) c = []"
  by (simp_all add: tag_world_def connIdentity_def)

lemma tag_world_coherent [simp]: "cache_coherent c (tag_world t pf)"
  by (simp add: cache_coherent_def)

lemma cfg_paths: "authorized_paths ''/root'' = [''/root/.vssh/authorized_keys'', ''/etc/vssh/authorized_keys'']"
  "policyPaths ''/root'' ''ro'' = [''/root/.vssh/policies/ro.json'', ''/etc/vssh/policies/ro.json'']"
  by code_simp+

lemma tag_world_tagged_ro [simp]: "tagged (tag_world ''ro'' None) (Some 7) ''ro''"
  and tag_world_tagged_empty [simp]: "tagged (tag_world '''' None) (Some 7) ''''"
  and tag_world_tagged_file [simp]: "tagged (tag_world ''ro'' (Some d)) (Some 7) ''ro''"
proof -
  have s: "split_on NL (''K policy=ro'' @ [NL]) = [''K policy=ro'', '''']"
    "split_on NL (''K policy='' @ [NL]) = [''K policy='', '''']" by code_simp+
  have k: "key_line ''K'' ''K policy=ro'' = Some [''policy=ro'']" "key_line ''K'' ''K policy='' = Some [''policy='']"
    by code_simp+
  have t: "trim_space ''K'' = ''K''" "trim_space (trim_prefix ''policy='' ''policy=ro'') = ''ro''"
    "trim_space (trim_prefix ''policy='' ''policy='') = ''''" by code_simp+
  have rd: "read_file (w_fs (tag_world tag pf)) ''/root/.vssh/authorized_keys'' = Inr (''K policy='' @ tag @ [NL])" for tag pf
    by (cases pf) (simp_all add: tag_world_def fs_simps empty_fs_sel)
  have sc: "scan_files (key_line ''K'') (w_fs (tag_world ''ro'' pf)) (authorized_paths ''/root'') = Some [''policy=ro'']"
    "scan_files (key_line ''K'') (w_fs (tag_world '''' pf)) (authorized_paths ''/root'') = Some [''policy='']" for pf
    using rd[of "''ro''" pf] rd[of "''''" pf] s k unfolding scan_files_def cfg_paths by simp_all
  have kp: "KeyPolicy (w_fs (tag_world ''ro'' pf)) ''/root'' ''K'' = (''ro'', True)"
    "KeyPolicy (w_fs (tag_world '''' pf)) ''/root'' ''K'' = ('''', True)" for pf
    unfolding KeyPolicy_def Let_def t(1) sc by (simp_all add: t)
  show "tagged (tag_world ''ro'' None) (Some 7) ''ro''" "tagged (tag_world '''' None) (Some 7) ''''"
    "tagged (tag_world ''ro'' (Some d)) (Some 7) ''ro''"
    by (simp_all add: tagged_def kp)
qed

lemma policy_fails_closed_witness:
  "fst (enforceExecPolicy env0 (Some 7) ''uptime'' (tag_world ''ro'' None)) \<noteq> None \<and>
   fst (policyPathDenied env0 (Some 7) ''/etc/shadow'' (tag_world ''ro'' None)) \<and>
   \<not> fst (policyPathDenied env0 (Some 7) ''/etc/shadow'' (tag_world '''' None))"
proof -
  have "trim_space ''ro'' = ''ro''" "trim_space '''' = ''''" by code_simp+
  then have "policy_now (de_compile env0) ''ro'' (tag_world ''ro'' None) = Inl (PolicyNotFound ''ro'')"
    "policy_now (de_compile env0) '''' (tag_world '''' None) = Inl (BadPolicyName '''')"
    by (simp_all add: policy_now_def Let_def cfg_paths policy_file_def)
      (simp add: tag_world_def put_file_def empty_fs_def)
  from policy_fails_closed[OF tag_world_tagged_ro tag_world_coherent this(1)]
    policy_fails_closed[OF tag_world_tagged_empty tag_world_coherent this(2)]
  show ?thesis by simp
qed

lemma empty_policy_name_half_open_witness:
  "\<not> fst (policyPathDenied env0 (Some 7) ''/etc/shadow'' (tag_world '''' None))"
  using empty_policy_name_half_open[OF tag_world_tagged_empty] by blast

definition ro_json :: string where
  "ro_json = marshal (JObj [(''exec_allow'', JArr [JStr ''uptime'']), (''rate'', JObj [(''exec_per_min'', JNum ''1'')])])"

definition ro_policy :: policy where
  "ro_policy = policy_zero\<lparr>p_exec_allow := [''uptime''], p_exec_per_min := 1, p_allow_re := [\<lambda>s. s = ''uptime'']\<rparr>"

lemma ro_json_policy: "policy_of_json ro_json = Some (policy_zero\<lparr>p_exec_allow := [''uptime''], p_exec_per_min := 1\<rparr>)"
proof -
  let ?v = "JObj [(''exec_allow'', JArr [JStr ''uptime'']), (''rate'', JObj [(''exec_per_min'', JNum ''1'')])]"
  have "json_wf ?v" by code_simp
  from unmarshal_marshal[OF this] have u: "unmarshal ro_json = Some ?v"
    by (simp add: ro_json_def utf8_fix_ascii is_ascii_def byte_in_def)
  have e: "\<not> equal_fold ''exec_allow'' ''name''" "equal_fold ''exec_allow'' ''exec_allow''"
    "\<not> equal_fold ''rate'' ''name''" "\<not> equal_fold ''rate'' ''exec_allow''" "\<not> equal_fold ''rate'' ''exec_deny''"
    "\<not> equal_fold ''rate'' ''file_paths''" "\<not> equal_fold ''rate'' ''fwd_targets''"
    "\<not> equal_fold ''rate'' ''danger_preapproved''" "equal_fold ''rate'' ''rate''"
    by code_simp+
  have i: "equal_fold ''exec_per_min'' ''exec_per_min'' = True" "go_atoi ''1'' = (1, True)" by code_simp+
  show ?thesis by (simp add: policy_of_json_def u set_field_def e set_strings_def i)
qed

lemma ro_policy_now: "policy_now (de_compile env0) ''ro'' (tag_world ''ro'' (Some ro_json)) = Inr ro_policy"
proof -
  have "trim_space ''ro'' = ''ro''" by code_simp
  then show ?thesis
    by (simp add: policy_now_def Let_def cfg_paths policy_file_def)
      (simp add: tag_world_def put_file_def empty_fs_def loadPolicyFile_def read_file_def ro_json_policy
        compileAnchoredWarn_def env0_def ro_policy_def policy_zero_def)
qed

lemma ro_uptime_accepted:
  "fst (enforceExecPolicy env0 (Some 7) ''uptime'' (tag_world ''ro'' (Some ro_json))) = None"
proof -
  let ?w = "tag_world ''ro'' (Some ro_json)"
  obtain w1 where l: "LoadPolicy (de_compile env0) ''ro'' ?w = (Inr ro_policy, w1)"
    using LoadPolicy_now[OF tag_world_coherent ro_policy_now] by blast
  have c: "trim_crlf ''uptime'' = ''uptime''" by code_simp
  have a: "ed_allowed (EvalExec ro_policy ''uptime'')"
    by (simp add: EvalExec_def c Let_def ro_policy_def policy_zero_def)
  show ?thesis
    using l a tag_world_tagged_file[of ro_json] LoadPolicy_sel[OF l]
    by (simp add: enforceExecPolicy_def tagged_def Let_def rateExceeded_def ro_policy_def policy_zero_def)
qed

lemma enforceExecPolicy_sound_witness:
  "\<exists>pol. policy_now (de_compile env0) ''ro'' (tag_world ''ro'' (Some ro_json)) = Inr pol \<and>
     ed_allowed (EvalExec pol ''uptime'')"
  using enforceExecPolicy_sound[OF tag_world_tagged_file tag_world_coherent ro_uptime_accepted] by blast

section \<open>Paths\<close>

text \<open>An absolute path in its cleaned form: no empty, \<open>.\<close> or \<open>..\<close> component is left in it.\<close>
definition canonical :: "path \<Rightarrow> bool" where
  "canonical p \<longleftrightarrow> is_abs p \<and> clean_path p = p \<and> list_all normal_comp (clean_comps p)"

text \<open>What it is to lie in a directory, said of the names on the way from the root: those of the
  directory come first.  The root has no name on its way and holds every path.\<close>
definition path_names :: "path \<Rightarrow> string list" where
  "path_names p = filter (\<lambda>c. c \<noteq> '''') (split_on (CHR ''/'') p)"

definition inside :: "path \<Rightarrow> path \<Rightarrow> bool" where
  "inside base p \<longleftrightarrow> prefix (path_names base) (path_names p)"

lemma canonical_clean: "is_abs p \<Longrightarrow> canonical (clean_path p)"
  by (simp add: canonical_def clean_path_rooted clean_path_idem clean_comps_normal)

lemma abs_join: "is_abs ev \<Longrightarrow> is_abs (join_path [ev, rest])"
proof -
  assume a: "is_abs ev"
  then obtain t where ev: "ev = CHR ''/'' # t" by (cases ev) (auto simp: is_abs_def)
  have "is_abs (join ''/'' (filter (\<lambda>p. p \<noteq> '''') [ev, rest]))"
    by (simp add: ev is_abs_def)
  then show ?thesis using clean_path_rooted by (simp add: join_path_def Let_def ev)
qed

lemma abs_dir: "is_abs p \<Longrightarrow> is_abs (dir_path p)"
proof -
  assume "is_abs p"
  then obtain t where p: "p = CHR ''/'' # t" by (cases p) (auto simp: is_abs_def)
  have "last_index (CHR ''/'') p \<noteq> None" using last_index_None[of "CHR ''/''" p] by (simp add: p)
  then obtain i where i: "last_index (CHR ''/'') p = Some i" by blast
  have "is_abs (take (Suc i) p)" by (simp add: p is_abs_def)
  then show ?thesis using i clean_path_rooted by (simp add: dir_path_def)
qed

lemma resolve_loop_canonical:
  assumes "\<And>p q. is_abs p \<Longrightarrow> fs_evalsym f p = Some q \<Longrightarrow> is_abs q" "canonical r" "is_abs cur"
  shows "canonical (resolve_loop f r rest cur)"
  using assms
proof (induction f r rest cur rule: resolve_loop.induct)
  case (1 f r rest cur)
  show ?case
  proof (cases "fs_evalsym f cur")
    case None
    with 1 show ?thesis by (subst resolve_loop.simps) (auto simp: abs_dir)
  next
    case (Some ev)
    with 1 have "is_abs ev" by blast
    with Some show ?thesis by (subst resolve_loop.simps) (simp add: canonical_clean abs_join)
  qed
qed

lemma resolvePath_canonical:
  assumes "\<And>p q. is_abs p \<Longrightarrow> fs_evalsym f p = Some q \<Longrightarrow> is_abs q" "is_abs (fs_cwd f)"
  shows "canonical (resolvePath f p)"
proof -
  have "is_abs (abs_path (fs_cwd f) p)"
    using assms(2) by (simp add: abs_path_def clean_path_rooted abs_join)
  then show ?thesis
    using assms(1) by (simp add: resolvePath_def Let_def resolve_loop_canonical canonical_clean clean_path_rooted)
qed

text \<open>A canonical path is the slash and its names between slashes.\<close>
lemma canonical_names:
  assumes "canonical p"
  shows "p = CHR ''/'' # join ''/'' (path_names p) \<and> list_all normal_comp (path_names p)"
proof -
  let ?cs = "clean_comps p"
  have p: "p = CHR ''/'' # join ''/'' ?cs" and n: "list_all normal_comp ?cs"
    using assms unfolding canonical_def clean_path_def by metis+
  have "path_names p = ?cs"
  proof (cases "?cs = []")
    case True
    with p have "p = ''/''" by simp
    then show ?thesis using True by (simp add: path_names_def)
  next
    case False
    then have "split_on (CHR ''/'') (join ''/'' ?cs) = ?cs"
      using normal_no_slash[OF n] by (intro split_on_join) auto
    then have "split_on (CHR ''/'') p = '''' # ?cs" by (subst p) simp
    then show ?thesis using n by (simp add: path_names_def list_all_iff normal_comp_def filter_id_conv)
  qed
  with p n show ?thesis by simp
qed

lemma has_prefix_prefix: "has_prefix p s \<longleftrightarrow> prefix p s"
  by (auto simp: has_prefix_iff prefix_def)

text \<open>Slashes after each name make the prefix order of the strings that of the lists of names.\<close>
lemma names_prefix:
  assumes "list_all normal_comp xs" "list_all normal_comp ys"
  shows "prefix (concat (map (\<lambda>x. x @ ''/'') xs)) (concat (map (\<lambda>x. x @ ''/'') ys)) \<longleftrightarrow> prefix xs ys"
  using assms
proof (induction xs arbitrary: ys)
  case (Cons x xs)
  show ?case
  proof (cases ys)
    case (Cons y zs)
    have nx: "CHR ''/'' \<notin> set x" "CHR ''/'' \<notin> set y" using Cons.prems Cons by (auto simp: normal_comp_def)
    have up: "takeWhile (\<lambda>c. c \<noteq> CHR ''/'') (w @ CHR ''/'' # r) = w" if "CHR ''/'' \<notin> set w" for w r
      using that by (simp add: takeWhile_append takeWhile_eq_all_conv)
    have same: "x = y" if pr: "prefix (x @ CHR ''/'' # a) (y @ CHR ''/'' # b)" for a b
    proof -
      obtain c where "y @ CHR ''/'' # b = x @ CHR ''/'' # (a @ c)" using pr by (auto elim!: prefixE)
      then show ?thesis using up[OF nx(1)] up[OF nx(2)] by metis
    qed
    show ?thesis
    proof (cases "x = y")
      case True
      then show ?thesis using Cons.IH[of zs] Cons.prems Cons by simp
    next
      case False
      then show ?thesis using same Cons by auto
    qed
  qed simp
qed simp

lemma join_slash: "xs \<noteq> [] \<Longrightarrow> join ''/'' xs @ ''/'' = concat (map (\<lambda>x. x @ ''/'') xs)"
  by (induction "''/''" xs rule: join.induct) auto

lemma subtree_inside:
  assumes "canonical b" "canonical p" "b \<noteq> ''/''"
  shows "p = b \<or> has_prefix (b @ ''/'') p \<longleftrightarrow> inside b p"
proof -
  let ?bs = "path_names b" let ?ps = "path_names p" let ?c = "\<lambda>xs. concat (map (\<lambda>x. x @ ''/'') xs)"
  have b: "b = CHR ''/'' # join ''/'' ?bs" "list_all normal_comp ?bs"
    and p: "p = CHR ''/'' # join ''/'' ?ps" "list_all normal_comp ?ps"
    using canonical_names assms by blast+
  have nb: "?bs \<noteq> []" using b(1) assms(3) by (cases ?bs) auto
  have "p = b \<or> has_prefix (b @ ''/'') p \<longleftrightarrow> prefix (b @ ''/'') (p @ ''/'')"
    unfolding has_prefix_prefix prefix_snoc by blast
  also have "\<dots> \<longleftrightarrow> prefix ?bs ?ps"
  proof (cases "?ps = []")
    case True
    have "?c ?bs \<noteq> '''' \<and> hd (?c ?bs) \<noteq> CHR ''/''"
      using nb b(2) by (cases ?bs) (auto simp: normal_comp_def hd_append neq_Nil_conv)
    then show ?thesis
      using True nb p(1) by (subst b(1), subst p(1)) (cases "?c ?bs"; simp add: join_slash)
  next
    case False
    then show ?thesis using nb b(2) p(2)
      by (subst b(1), subst p(1)) (simp add: join_slash names_prefix)
  qed
  finally show ?thesis by (simp add: inside_def)
qed

lemma index_pred_app: "\<forall>c \<in> set a. \<not> f c \<Longrightarrow> f c \<Longrightarrow> index_pred f (a @ c # b) = Some (length a)"
  by (induction a) auto

lemma resolveGlob_subtree:
  assumes "\<forall>c \<in> set b. c \<notin> set ''*?[''"
  shows "resolveGlob f (b @ ''/**'') = resolvePath f b @ ''/**''"
proof -
  have i: "index_pred (\<lambda>c. c \<in> set ''*?['') ((b @ ''/'') @ CHR ''*'' # ''*'') = Some (length (b @ ''/''))"
    using assms by (intro index_pred_app) auto
  have l: "last_index (CHR ''/'') (b @ CHR ''/'' # []) = Some (length b)" by (rule last_index_append) simp
  from i have i': "index_pred (\<lambda>c. c \<in> set ''*?['') (b @ ''/**'') = Some (Suc (length b))" by simp
  show ?thesis unfolding resolveGlob_def i' using l by (simp add: Let_def)
qed

lemma matchGlob_dir: "matchGlob (x @ ''/**'') p \<longleftrightarrow> p = x \<or> has_prefix (x @ ''/'') p"
  by (simp add: matchGlob_def Let_def)

text \<open>A subtree rule whose directory is the root: only the root itself matches.\<close>
lemma matchGlob_root: "canonical p \<Longrightarrow> matchGlob (''/'' @ ''/**'') p \<longleftrightarrow> p = ''/''"
proof -
  assume "canonical p"
  then have p: "p = CHR ''/'' # join ''/'' (path_names p)" "list_all normal_comp (path_names p)"
    using canonical_names by blast+
  have "\<not> has_prefix ''//'' p"
  proof (cases "path_names p")
    case (Cons x xs)
    then obtain c cs where "x = c # cs" "c \<noteq> CHR ''/''" using p(2) by (cases x) (auto simp: normal_comp_def)
    then show ?thesis using Cons by (subst p(1)) (cases xs; simp)
  qed (subst p(1), simp)
  then show ?thesis using matchGlob_dir[of "''/''" p] by simp
qed

text \<open>C8: with subtree rules (\<open>dir/**\<close>), where \<^verbatim>\<open>EvalSymlinks\<close> gives an absolute path for an absolute
  one, a path is allowed exactly when the file it resolves to lies inside what one of the rule
  directories resolves to, by the names on the way from the root, so that no \<open>..\<close>, no symbolic link
  and no longer name leads out of the subtree; except that a directory which resolves to the root
  allows the root and nothing in it.  The directory of the rule \<open>/**\<close> is the working directory.\<close>
theorem PathAllowed_subtrees:
  assumes "\<And>p q. is_abs p \<Longrightarrow> fs_evalsym f p = Some q \<Longrightarrow> is_abs q" "is_abs (fs_cwd f)"
    and "p_file_paths pol = map (\<lambda>b. b @ ''/**'') bs" "\<forall>b \<in> set bs. \<forall>c \<in> set b. c \<notin> set ''*?[''"
  shows "(PathAllowed f pol path \<longleftrightarrow>
      (\<exists>b \<in> set bs. if resolvePath f b = ''/'' then resolvePath f path = ''/''
         else inside (resolvePath f b) (resolvePath f path))) \<and>
    canonical (resolvePath f path)"
proof -
  have can: "canonical (resolvePath f q)" for q by (rule resolvePath_canonical) (use assms(1,2) in auto)
  have "matchGlob (resolveGlob f (b @ ''/**'')) (resolvePath f path) \<longleftrightarrow>
      (if resolvePath f b = ''/'' then resolvePath f path = ''/'' else inside (resolvePath f b) (resolvePath f path))"
    if "b \<in> set bs" for b
  proof -
    have g: "resolveGlob f (b @ ''/**'') = resolvePath f b @ ''/**''"
      using that assms(4) resolveGlob_subtree[of b f] by blast
    show ?thesis unfolding g
    proof (cases "resolvePath f b = ''/''")
      case False
      then show "matchGlob (resolvePath f b @ ''/**'') (resolvePath f path) \<longleftrightarrow>
        (if resolvePath f b = ''/'' then resolvePath f path = ''/'' else inside (resolvePath f b) (resolvePath f path))"
        using subtree_inside[OF can can False, of path] matchGlob_dir by metis
    qed (use matchGlob_root[OF can, of path] in metis)
  qed
  then show ?thesis using can unfolding PathAllowed_def assms(3) by (auto simp: list_ex_iff)
qed

lemma PathAllowed_subtrees_witness:
  "\<not> PathAllowed empty_fs (policy_zero\<lparr>p_file_paths := [''/srv/data/**'']\<rparr>) ''/srv/data/../../etc/shadow''"
proof -
  let ?pol = "policy_zero\<lparr>p_file_paths := [''/srv/data/**'']\<rparr>"
  have r: "clean_path (abs_path ''/'' ''/srv/data/../../etc/shadow'') = ''/etc/shadow''"
    "clean_path (abs_path ''/'' ''/srv/data'') = ''/srv/data''"
    "clean_path (join_path [''/etc/shadow'', '''']) = ''/etc/shadow''"
    "clean_path (join_path [''/srv/data'', '''']) = ''/srv/data''" by code_simp+
  have p: "resolvePath empty_fs ''/srv/data/../../etc/shadow'' = ''/etc/shadow''"
    "resolvePath empty_fs ''/srv/data'' = ''/srv/data''"
    by (simp_all add: resolvePath_def Let_def empty_fs_def is_abs_def resolve_loop.simps r)
  have "\<not> inside ''/srv/data'' ''/etc/shadow''" by code_simp
  moreover have "PathAllowed empty_fs ?pol ''/srv/data/../../etc/shadow'' \<longleftrightarrow>
      (\<exists>b \<in> set [''/srv/data'']. if resolvePath empty_fs b = ''/''
         then resolvePath empty_fs ''/srv/data/../../etc/shadow'' = ''/''
         else inside (resolvePath empty_fs b) (resolvePath empty_fs ''/srv/data/../../etc/shadow''))"
    by (rule PathAllowed_subtrees[THEN conjunct1])
      (auto simp: policy_zero_def empty_fs_def is_abs_def split: if_splits)
  ultimately show ?thesis by (simp add: p)
qed

text \<open>The rule that looks like everything allows nothing under the root: \<open>/**\<close> stands for the
  working directory, and where that is the root only the root itself passes.\<close>
lemma allow_all_rule_denies:
  "\<not> PathAllowed empty_fs (policy_zero\<lparr>p_file_paths := [''/**'']\<rparr>) ''/etc/passwd''"
proof -
  have r: "clean_path (abs_path ''/'' ''/etc/passwd'') = ''/etc/passwd''" "clean_path (abs_path ''/'' '''') = ''/''"
    "clean_path (join_path [''/etc/passwd'', '''']) = ''/etc/passwd''"
    "clean_path (join_path [''/'', '''']) = ''/''" by code_simp+
  have p: "resolvePath empty_fs ''/etc/passwd'' = ''/etc/passwd''" "resolvePath empty_fs '''' = ''/''"
    by (simp_all add: resolvePath_def Let_def empty_fs_def is_abs_def resolve_loop.simps r)
  have "matchGlob (''/'' @ ''/**'') ''/etc/passwd'' = False" by code_simp
  then show ?thesis using resolveGlob_subtree[of "''''" empty_fs] by (simp add: PathAllowed_def policy_zero_def p)
qed

lemma EvalExec_deny_first_witness: "\<not> ed_allowed (EvalExec ro_policy ''reboot'')"
proof -
  have "trim_crlf ''reboot'' = ''reboot''" by code_simp
  then show ?thesis using EvalExec_deny_first[of ro_policy "''reboot''"]
    by (simp add: ro_policy_def policy_zero_def)
qed

section \<open>What the gates change\<close>

lemma auditLog_frame [frame]:
  "same_but {w_audit_path w} (w_fs w) (w_fs (auditLog H cn c r w))"
  "w_audit_path (auditLog H cn c r w) = w_audit_path w"
  by (auto simp: auditLog_def append_file_def Let_def frame split: prod.splits option.splits)

lemma setConnPolicyMeta_path [simp]: "w_audit_path (setConnPolicyMeta cn r b w) = w_audit_path w"
  by (auto simp: setConnPolicyMeta_def split: option.splits)

lemma LoadPolicy_path: "LoadPolicy cmp name w = (r, w1) \<Longrightarrow> w_audit_path w1 = w_audit_path w"
  by (auto simp: LoadPolicy_def Let_def split: if_splits option.splits)

lemma send_sel [simp]:
  "w_fs (send cn t w) = w_fs w" "w_audit_path (send cn t w) = w_audit_path w" "w_home (send cn t w) = w_home w"
  "w_idents (send cn t w) = w_idents w" "w_polcache (send cn t w) = w_polcache w"
  by (simp_all add: send_def split: option.split)

lemma send_sent: "w_sent (send (Some c) t w) c = w_sent w c @ [t]"
  by (simp add: send_def)

lemma refuse_frame:
  "same_but {w_audit_path w} (w_fs w) (w_fs (refuse e cn rule what msg w))"
  "w_audit_path (refuse e cn rule what msg w) = w_audit_path w"
  "cn = Some c \<Longrightarrow> w_sent (refuse e cn rule what msg w) c = w_sent w c @ [''ERROR policy_denied: '' @ msg @ [NL]]"
proof -
  let ?w = "setConnPolicyMeta cn rule False w"
  show "same_but {w_audit_path w} (w_fs w) (w_fs (refuse e cn rule what msg w))"
    using auditLog_frame(1)[of ?w "de_sha e" cn what "deny_result msg"] by (simp add: refuse_def)
  show "w_audit_path (refuse e cn rule what msg w) = w_audit_path w" by (simp add: refuse_def frame)
  show "cn = Some c \<Longrightarrow> w_sent (refuse e cn rule what msg w) c = w_sent w c @ [''ERROR policy_denied: '' @ msg @ [NL]]"
    by (simp add: refuse_def send_def)
qed

text \<open>The file gate: an accepted path leaves files and replies alone, a refused one writes one
  error line and at most one audit record.\<close>
lemma policyPathDenied_frame:
  assumes "policyPathDenied e cn p w = (b, w1)"
  shows "same_but {w_audit_path w} (w_fs w) (w_fs w1)" "w_audit_path w1 = w_audit_path w"
    "\<not> b \<Longrightarrow> w_fs w1 = w_fs w \<and> w_sent w1 = w_sent w"
    "b \<Longrightarrow> cn = Some c \<Longrightarrow> \<exists>t. w_sent w1 c = w_sent w c @ [''ERROR '' @ t]"
proof -
  obtain r w2 where l: "LoadPolicy (de_compile e) (connPolicyName w cn) w = (r, w2)"
    by (cases "LoadPolicy (de_compile e) (connPolicyName w cn) w")
  note S = LoadPolicy_sel[OF l] LoadPolicy_path[OF l]
  note R = refuse_frame[where w = w2 and cn = cn and e = e]
  have er: "''ERROR policy_denied: '' @ t = ''ERROR '' @ (''policy_denied: '' @ t)" for t by simp
  show "same_but {w_audit_path w} (w_fs w) (w_fs w1)" "w_audit_path w1 = w_audit_path w"
    "\<not> b \<Longrightarrow> w_fs w1 = w_fs w \<and> w_sent w1 = w_sent w"
    "b \<Longrightarrow> cn = Some c \<Longrightarrow> \<exists>t. w_sent w1 c = w_sent w c @ [''ERROR '' @ t]"
    using assms l S R R(3)[where c = c] unfolding policyPathDenied_def Let_def er
    by (auto split: if_splits sum.splits)
qed

lemma policyBlockUnscoped_frame:
  assumes "policyBlockUnscoped e cn verb w = (b, w1)"
  shows "same_but {w_audit_path w} (w_fs w) (w_fs w1)" "w_audit_path w1 = w_audit_path w"
    "\<not> b \<Longrightarrow> w1 = w \<and> connPolicyName w cn = ''''"
    "b \<Longrightarrow> cn = Some c \<Longrightarrow> \<exists>t. w_sent w1 c = w_sent w c @ [''ERROR '' @ t]"
proof -
  note R = refuse_frame[where w = w and cn = cn and e = e]
  have er: "''ERROR policy_denied: '' @ t = ''ERROR '' @ (''policy_denied: '' @ t)" for t by simp
  show "same_but {w_audit_path w} (w_fs w) (w_fs w1)" "w_audit_path w1 = w_audit_path w"
    "\<not> b \<Longrightarrow> w1 = w \<and> connPolicyName w cn = ''''"
    "b \<Longrightarrow> cn = Some c \<Longrightarrow> \<exists>t. w_sent w1 c = w_sent w c @ [''ERROR '' @ t]"
    using assms R R(3)[where c = c] unfolding policyBlockUnscoped_def Let_def er by (auto split: if_splits)
qed

lemma enforceExecPolicy_frame:
  assumes "enforceExecPolicy e cn cmd w = (r, w1)"
  shows "same_but {w_audit_path w} (w_fs w) (w_fs w1)" "w_audit_path w1 = w_audit_path w"
    "w_sent w1 = w_sent w" "r = None \<Longrightarrow> w_fs w1 = w_fs w"
proof -
  obtain pol w2 where l: "LoadPolicy (de_compile e) (fst (KeyPolicy (w_fs w) (w_home w) (fst (connIdentity w cn)))) w = (pol, w2)"
    by (cases "LoadPolicy (de_compile e) (fst (KeyPolicy (w_fs w) (w_home w) (fst (connIdentity w cn)))) w")
  note S = LoadPolicy_sel[OF l] LoadPolicy_path[OF l]
  have A: "same_but {w_audit_path w} (w_fs w) (w_fs (auditLog H cn c x w'))"
    if "w_fs w' = w_fs w" "w_audit_path w' = w_audit_path w" for H c x w'
    using auditLog_frame(1)[of w' H cn c x] that by simp
  have R: "rateExceeded k n w' = (b, w3) \<Longrightarrow> w_fs w3 = w_fs w' \<and> w_audit_path w3 = w_audit_path w' \<and> w_sent w3 = w_sent w'" for k n w' b w3
    by (auto simp: rateExceeded_def Let_def split: if_splits)
  show "same_but {w_audit_path w} (w_fs w) (w_fs w1)" "w_audit_path w1 = w_audit_path w"
    "w_sent w1 = w_sent w" "r = None \<Longrightarrow> w_fs w1 = w_fs w"
    using assms l S
    by (auto simp: enforceExecPolicy_def Let_def frame intro!: A dest!: R split: if_splits prod.splits bool.splits sum.splits)
qed

lemma enforceExecPolicy_denial:
  assumes "enforceExecPolicy e cn cmd w = (Some x, w')"
  shows "\<exists>t. x = deny_result t"
proof -
  obtain name tag where k: "KeyPolicy (w_fs w) (w_home w) (fst (connIdentity w cn)) = (name, tag)"
    by (cases "KeyPolicy (w_fs w) (w_home w) (fst (connIdentity w cn))")
  obtain pol w2 where l: "LoadPolicy (de_compile e) name w = (pol, w2)" by (cases "LoadPolicy (de_compile e) name w")
  show ?thesis
    using assms unfolding enforceExecPolicy_def Let_def k l prod.case
    by (cases tag; cases pol) (auto split: if_split_asm prod.split_asm bool.split_asm)
qed

end
