(* ===== verification/Mcp.thy ===== *)
theory Mcp
  imports McpRoute Policy
begin

text \<open>
  The dispatcher of the MCP front end (\<^verbatim>\<open>cmd/vssh/mcp.go\<close>, \<^verbatim>\<open>mcp_grouped.go\<close>) and what
  its approval gate guarantees. The tools that do not run commands on a node, the automatic set-up and
  the list of tools are arguments.
\<close>

section \<open>Grouped tools\<close>

definition groupActions :: "(string \<times> (string \<times> string) list) list" where
  "groupActions =
     [(''vssh_exec'', [('''', ''vssh_exec''), (''plain'', ''vssh_exec''), (''safe'', ''vssh_exec_safe''),
        (''routed'', ''vssh_exec_routed''), (''many'', ''vssh_exec_many'')]),
      (''vssh_query'', [(''facts'', ''vssh_facts''), (''facts_many'', ''vssh_facts_many''),
        (''rpc'', ''vssh_rpc_call''), (''rpc_many'', ''vssh_rpc_many'')]),
      (''vssh_job'', [(''start'', ''vssh_job_start''), (''status'', ''vssh_job_status''),
        (''logs'', ''vssh_job_logs''), (''cancel'', ''vssh_job_cancel'')]),
      (''vssh_fleet'', [(''doctor'', ''vssh_doctor''), (''status'', ''vssh_status''), (''list'', ''vssh_list''),
        (''hosts'', ''vssh_hosts_list''), (''setup'', ''vssh_setup'')]),
      (''vssh_transport'', [(''artifact_collect'', ''vssh_artifact_collect''), (''tunnel'', ''vssh_tunnel''),
        (''put'', ''vssh_put''), (''get'', ''vssh_get''), (''deploy_binary'', ''vssh_deploy_binary'')]),
      (''vssh_route'', [(''select'', ''vssh_route_select''), (''policy_check'', ''vssh_policy_check'')]),
      (''vssh_config'', [(''list'', ''vssh_config_list''), (''authorize_key'', ''vssh_config_authorize_key''),
        (''revoke_key'', ''vssh_config_revoke_key''), (''set_node'', ''vssh_config_set_node''),
        (''pin_node'', ''vssh_config_pin_node'')]),
      (''vssh_memory'', [(''get'', ''vssh_memory_get''), (''set'', ''vssh_memory_set''), (''note'', ''vssh_memory_note''),
        (''auto_note'', ''vssh_memory_auto_note''), (''find'', ''vssh_memory_find''), (''ask'', ''vssh_memory_ask''),
        (''discover'', ''vssh_memory_discover'')]),
      (''vssh_workflow'', [(''list'', ''vssh_workflow_list''), (''run'', ''vssh_workflow_run''),
        (''status'', ''vssh_workflow_status'')])]"

text \<open>The flat name, or the error result.\<close>
definition resolveGroupedTool :: "string \<Rightarrow> json \<Rightarrow> json + string" where
  "resolveGroupedTool name args =
     (case map_of groupActions name of None \<Rightarrow> Inr name
      | Some actions \<Rightarrow>
          (let action = trim_space (getString args ''action'') in
           case map_of actions action of Some flat \<Rightarrow> Inr flat
           | None \<Rightarrow> Inl (json_map [(''success'', JBool False), (''tool'', JStr name),
               (''error'', tool_error ''invalid_action'' (''unknown action '' @ go_quote action @ '' for '' @ name @ ''; valid: ''
                  @ join '', '' (sort (filter (\<lambda>k. k \<noteq> '''') (map fst actions)))))])))"

section \<open>Dispatch\<close>

text \<open>The remaining tools: name and arguments to a result, on the same state.\<close>
type_synonym other_tools = "string \<Rightarrow> json \<Rightarrow> mstate \<Rightarrow> json \<times> mstate"

definition toolPolicyCheck :: "json \<Rightarrow> json" where
  "toolPolicyCheck args =
     (let command = getString args ''command'' in
      if command = '''' then missing [] ''command is required''
      else json_map [(''success'', JBool True), (''command'', JStr command), (''policy'', decision_json (classifyCommand command))])"

definition dispatchMCPTool :: "front \<Rightarrow> inventory \<Rightarrow> other_tools \<Rightarrow> string \<Rightarrow> json \<Rightarrow> mstate \<Rightarrow> json \<times> mstate" where
  "dispatchMCPTool fr recs other name args s =
     (let exec = (\<lambda>allow. toolExec fr (getString args ''target'') (getString args ''command'')
                    (getFloat args ''timeout_seconds'' defaultTimeout) allow s)
      in if name = ''vssh_exec'' then exec (getBool args ''allow_dangerous'' False)
         else if name = ''vssh_exec_safe'' then exec False
         else if name = ''vssh_policy_check'' then (toolPolicyCheck args, s)
         else if name = ''vssh_route_select'' then toolRouteSelect fr recs args s
         else if name = ''vssh_exec_routed'' then toolExecRouted fr recs args s
         else if name = ''vssh_rpc_call'' then toolRPCCall fr args s
         else if name = ''vssh_exec_many'' then toolExecMany fr args s
         else if name = ''vssh_rpc_many'' then toolRPCMany fr args s
         else if name = ''vssh_facts'' then toolFacts fr args s
         else if name = ''vssh_facts_many'' then toolFactsMany fr args s
         else if name = ''vssh_job_start'' then toolJobStart fr args s
         else if name = ''vssh_job_status'' then toolJobRPC fr args ''vssh_job_status'' ''job_status'' s
         else if name = ''vssh_job_logs'' then toolJobRPC fr args ''vssh_job_logs'' ''job_logs'' s
         else if name = ''vssh_job_cancel'' then toolJobRPC fr args ''vssh_job_cancel'' ''job_cancel'' s
         else if name = ''vssh_artifact_collect'' then toolArtifactCollect fr args s
         else other name args s)"

definition isOperationalMCPTool :: "string \<Rightarrow> bool" where
  "isOperationalMCPTool name \<longleftrightarrow> name \<in> set
     [''vssh_exec'', ''vssh_exec_safe'', ''vssh_exec_routed'', ''vssh_exec_many'', ''vssh_rpc_call'', ''vssh_rpc_many'',
      ''vssh_facts'', ''vssh_facts_many'', ''vssh_job_start'', ''vssh_job_status'', ''vssh_job_logs'', ''vssh_job_cancel'',
      ''vssh_artifact_collect'', ''vssh_tunnel'']"

definition with_member :: "string \<Rightarrow> json \<Rightarrow> json \<Rightarrow> json" where
  "with_member k v r = (case r of JObj ms \<Rightarrow> json_map (filter (\<lambda>(x, _). x \<noteq> k) ms @ [(k, v)]) | _ \<Rightarrow> r)"

text \<open>What the automatic set-up did, if it ran, and the state after it.\<close>
type_synonym auto_setup = "mstate \<Rightarrow> json option \<times> mstate"

definition callMCPTool ::
  "front \<Rightarrow> inventory \<Rightarrow> other_tools \<Rightarrow> auto_setup \<Rightarrow> string \<Rightarrow> json \<Rightarrow> mstate \<Rightarrow> json \<times> mstate" where
  "callMCPTool fr recs other setup name args s =
     (case resolveGroupedTool name args of Inl er \<Rightarrow> (er, s)
      | Inr flat \<Rightarrow>
          if isOperationalMCPTool flat then
            (let (done, s1) = setup s; (r, s2) = dispatchMCPTool fr recs other flat args s1
             in (case done of None \<Rightarrow> r | Some v \<Rightarrow> with_member ''_autosetup'' v r, s2))
          else dispatchMCPTool fr recs other flat args s)"

section \<open>Requests\<close>

definition rpc_reply :: "json \<Rightarrow> (string \<times> json) list \<Rightarrow> json" where
  "rpc_reply rid ms = JObj ([(''jsonrpc'', JStr ''2.0'')] @ ms @ [(''id'', rid)])"

text \<open>The method, the parameters and the id of a request; the id is absent in a notification.\<close>
record request =
  mr_method :: string
  mr_params :: json
  mr_id :: json

definition request_of :: "json \<Rightarrow> request option" where
  "request_of v = struct_of (\<lambda>k x r.
      if equal_fold k ''jsonrpc'' then text_field x (\<lambda>_. r) r
      else if equal_fold k ''method'' then text_field x (\<lambda>t. r\<lparr>mr_method := t\<rparr>) r
      else if equal_fold k ''params'' then Some (r\<lparr>mr_params := x\<rparr>)
      else if equal_fold k ''id'' then Some (r\<lparr>mr_id := x\<rparr>)
      else Some r) \<lparr>mr_method = '''', mr_params = JNull, mr_id = JNull\<rparr> v"

text \<open>Name and arguments; what has another type is left out.\<close>
definition call_params :: "json \<Rightarrow> string \<times> json" where
  "call_params v = lenient (\<lambda>k x (n, a).
      if equal_fold k ''name'' then text_field x (\<lambda>t. (t, a)) (n, a)
      else if equal_fold k ''arguments'' then (case x of JObj _ \<Rightarrow> Some (n, x) | JNull \<Rightarrow> Some (n, JObj []) | _ \<Rightarrow> None)
      else Some (n, a)) ('''', JObj []) v"

definition version_json :: "string \<Rightarrow> json" where
  "version_json version = json_map
     [(''protocolVersion'', JStr ''2024-11-05''), (''capabilities'', json_map [(''tools'', JObj [])]),
      (''serverInfo'', json_map [(''name'', JStr ''vssh-mcp''), (''version'', JStr version)])]"

definition handleMCPRequest ::
  "(string \<Rightarrow> json \<Rightarrow> mstate \<Rightarrow> json \<times> mstate) \<Rightarrow> json \<Rightarrow> string \<Rightarrow> request \<Rightarrow> mstate \<Rightarrow> json option \<times> mstate" where
  "handleMCPRequest call tools version rq s =
     (let m = mr_method rq in
      if m = ''notifications/initialized'' \<or> m = ''notifications/cancelled'' then (None, s)
      else if m = ''initialize'' then (Some (rpc_reply (mr_id rq) [(''result'', version_json version)]), s)
      else if m = ''tools/list'' then (Some (rpc_reply (mr_id rq) [(''result'', JObj [(''tools'', tools)])]), s)
      else if m = ''tools/call'' then
        (let (name, args) = call_params (mr_params rq); (r, s1) = call name args s
         in (Some (rpc_reply (mr_id rq) [(''result'', JObj [(''content'', JArr [json_map
               [(''type'', JStr ''text''), (''text'', JStr (marshal_indent 0 r))]])])]), s1))
      else (Some (rpc_reply (mr_id rq)
              [(''error'', JObj [(''code'', json_int (- 32601)), (''message'', JStr (''Unknown method: '' @ m))])]), s))"

text \<open>The lines of the session and the lines printed for them.\<close>
fun cmdMcp ::
  "(string \<Rightarrow> json \<Rightarrow> mstate \<Rightarrow> json \<times> mstate) \<Rightarrow> json \<Rightarrow> string \<Rightarrow> string list \<Rightarrow> mstate \<Rightarrow> string list \<times> mstate" where
  "cmdMcp call tools version [] s = ([], s)"
| "cmdMcp call tools version (l # ls) s =
     (case (if l = '''' then None else unmarshal l) of None \<Rightarrow> cmdMcp call tools version ls s
      | Some v \<Rightarrow>
          (case request_of v of None \<Rightarrow> cmdMcp call tools version ls s
           | Some rq \<Rightarrow>
               if mr_id rq = JNull then cmdMcp call tools version ls s
               else
                 (let (r, s1) = handleMCPRequest call tools version rq s; (rest, s2) = cmdMcp call tools version ls s1
                  in ((case r of None \<Rightarrow> [] | Some v \<Rightarrow> [marshal v]) @ rest, s2))))"

section \<open>The approval gate\<close>

text \<open>A run of a command is approved: the classifier lets it pass, the caller allowed it, or the daemon
  said so among the calls before.\<close>
definition daemon_said :: "front \<Rightarrow> call list \<Rightarrow> string \<Rightarrow> bool" where
  "daemon_said fr calls command \<longleftrightarrow>
     (\<exists>h r. RpcOn h defaultPort ''policy_check'' (JObj [(''command'', JStr command)]) \<in> set calls \<and>
        fr_rpc fr h defaultPort ''policy_check'' (JObj [(''command'', JStr command)]) = Inr r \<and> rp_success r \<and>
        getString (rp_data r) ''decision'' \<in> {''preapproved'', ''allow''})"

text \<open>The commands a call makes a daemon run.\<close>
fun runs :: "call \<Rightarrow> string option" where
  "runs (ExecOn _ _ c) = Some c"
| "runs (RpcOn _ _ m p) = (if m = ''job_start'' then Some (getString p ''command'') else None)"
| "runs (InfoOn _ _) = None"
| "runs (PutOn _ _ _ _) = None"
| "runs (GetOn _ _ _) = None"

definition gated :: "front \<Rightarrow> mstate \<Rightarrow> mstate \<Rightarrow> bool" where
  "gated fr s s' \<longleftrightarrow> (\<exists>new. ms_calls s' = ms_calls s @ new \<and>
     (\<forall>c \<in> set new. \<forall>cmd. runs c = Some cmd \<longrightarrow> pd_allowed (classifyCommand cmd) \<or> daemon_said fr new cmd))"

text \<open>The same with the order: the daemon has agreed before the run.\<close>
fun in_order :: "front \<Rightarrow> call list \<Rightarrow> call list \<Rightarrow> bool" where
  "in_order fr earlier [] = True"
| "in_order fr earlier (c # later) \<longleftrightarrow>
     (\<forall>cmd. runs c = Some cmd \<longrightarrow> pd_allowed (classifyCommand cmd) \<or> daemon_said fr earlier cmd) \<and>
     in_order fr (earlier @ [c]) later"

definition gated_first :: "front \<Rightarrow> mstate \<Rightarrow> mstate \<Rightarrow> bool" where
  "gated_first fr s s' \<longleftrightarrow> (\<exists>new. ms_calls s' = ms_calls s @ new \<and> in_order fr [] new)"

lemma daemon_said_mono: "daemon_said fr a cmd \<Longrightarrow> set a \<subseteq> set b \<Longrightarrow> daemon_said fr b cmd"
  by (auto simp: daemon_said_def)

lemma in_order_all:
  "in_order fr earlier new \<Longrightarrow> c \<in> set new \<Longrightarrow> runs c = Some cmd \<Longrightarrow>
    pd_allowed (classifyCommand cmd) \<or> daemon_said fr (earlier @ new) cmd"
proof (induction fr earlier new rule: in_order.induct)
  case (2 fr earlier d later)
  show ?case
  proof (cases "c = d")
    case True
    then show ?thesis using "2.prems" daemon_said_mono[of fr earlier cmd "earlier @ d # later"] by auto
  next
    case False
    then show ?thesis using "2.IH" "2.prems" by simp
  qed
qed simp

lemma gated_first_gated: "gated_first fr s s' \<Longrightarrow> gated fr s s'"
  unfolding gated_first_def gated_def using in_order_all[of fr "[]"] by (metis append_Nil)

lemma in_order_allowed:
  "(\<And>c cmd. c \<in> set new \<Longrightarrow> runs c = Some cmd \<Longrightarrow> pd_allowed (classifyCommand cmd)) \<Longrightarrow> in_order fr earlier new"
  by (induction fr earlier new rule: in_order.induct) auto

lemma gated_first_allowed:
  assumes "ms_calls s' = ms_calls s @ new" "\<And>c cmd. c \<in> set new \<Longrightarrow> runs c = Some cmd \<Longrightarrow> pd_allowed (classifyCommand cmd)"
  shows "gated_first fr s s'"
  using assms in_order_allowed[of new] unfolding gated_first_def by blast

lemma gated_first_refl [simp]: "gated_first fr s s" by (rule gated_first_allowed[of _ _ "[]"]) simp_all

lemma log_call_sel [simp]: "ms_calls (log_call c s) = ms_calls s @ [c]"
  by (simp add: log_call_def)

lemma reach_calls [simp]: "reach fr t s = (h, s1) \<Longrightarrow> ms_calls s1 = ms_calls s"
  by (auto simp: reach_def split: prod.splits)

lemma callRPCNative_calls:
  "callRPCNative fr t m p s = (r, s1) \<Longrightarrow> \<exists>h port. ms_calls s1 = ms_calls s @ [RpcOn h port m p]"
  by (auto simp: callRPCNative_def Let_def split: prod.splits)

lemma execNativeCapture_calls:
  "execNativeCapture fr t c s = (r, s1) \<Longrightarrow> \<exists>h port. ms_calls s1 = ms_calls s @ [ExecOn h port c]"
  by (auto simp: execNativeCapture_def exec_on_def Let_def split: prod.splits option.splits if_splits)

lemma daemonPreapproves_calls:
  assumes "daemonPreapproves fr t c s = ((ok, why), s1)"
  shows "\<exists>h. ms_calls s1 = ms_calls s @ [RpcOn h defaultPort ''policy_check'' (JObj [(''command'', JStr c)])] \<and>
    (ok \<longrightarrow> daemon_said fr [RpcOn h defaultPort ''policy_check'' (JObj [(''command'', JStr c)])] c)"
  using assms
  by (auto simp: daemonPreapproves_def Let_def daemon_said_def split: prod.splits sum.splits if_splits)

lemma toolExec_members_gated:
  assumes "toolExec_members fr t c timeout False s = (ms, s')"
  shows "gated_first fr s s'"
proof (cases "t = '''' \<or> c = ''''")
  case True
  with assms show ?thesis by (auto simp: toolExec_members_def)
next
  case False
  show ?thesis
  proof (cases "pd_allowed (classifyCommand c)")
    case True
    then obtain r s1 where "execNativeCapture fr t c s = (r, s1)" "s' = s1"
      using assms False by (auto simp: toolExec_members_def Let_def split: prod.splits)
    with execNativeCapture_calls[of fr t c s r s1] True show ?thesis by (auto simp: gated_first_def)
  next
    case no: False
    obtain ok why s1 where d: "daemonPreapproves fr t c s = ((ok, why), s1)" by (metis surj_pair)
    from daemonPreapproves_calls[OF d] obtain h where h:
      "ms_calls s1 = ms_calls s @ [RpcOn h defaultPort ''policy_check'' (JObj [(''command'', JStr c)])]"
      "ok \<longrightarrow> daemon_said fr [RpcOn h defaultPort ''policy_check'' (JObj [(''command'', JStr c)])] c" by blast
    show ?thesis
    proof (cases ok)
      case True
      then obtain r s2 where "execNativeCapture fr t c s1 = (r, s2)" "s' = s2"
        using assms False no d by (auto simp: toolExec_members_def Let_def split: prod.splits)
      with execNativeCapture_calls[of fr t c s1 r s2] h True show ?thesis
        by (auto simp: gated_first_def daemon_said_def)
    next
      case False
      with assms \<open>\<not> (t = '''' \<or> c = '''')\<close> no d h show ?thesis by (auto simp: toolExec_members_def Let_def gated_first_def)
    qed
  qed
qed

lemma run_one_calls: "run_one fr c t s = (r, s1) \<Longrightarrow> \<exists>h port. ms_calls s1 = ms_calls s @ [ExecOn h port c]"
  by (auto simp: run_one_def exec_on_def Let_def split: prod.splits)

lemma over_targets_calls:
  assumes "\<And>t s r s1. f t s = (r, s1) \<Longrightarrow> \<exists>new. ms_calls s1 = ms_calls s @ new \<and> (\<forall>c \<in> set new. P c)"
  shows "over_targets f ts s = (rs, s') \<Longrightarrow> \<exists>new. ms_calls s' = ms_calls s @ new \<and> (\<forall>c \<in> set new. P c)"
proof (induction ts arbitrary: s rs)
  case (Cons t ts)
  obtain r s1 where f: "f t s = (r, s1)" by (cases "f t s")
  obtain rs2 where o: "over_targets f ts s1 = (rs2, s')" using Cons.prems f by (auto split: prod.splits)
  obtain a where "ms_calls s1 = ms_calls s @ a" "\<forall>c \<in> set a. P c" using assms[OF f] by blast
  moreover obtain b where "ms_calls s' = ms_calls s1 @ b" "\<forall>c \<in> set b. P c" using Cons.IH[OF o] by blast
  ultimately show ?case by (intro exI[of _ "a @ b"]) auto
qed simp

lemma runMany_calls:
  assumes "runMany fr ts c s = (rs, s')"
  shows "\<exists>new. ms_calls s' = ms_calls s @ new \<and> (\<forall>x \<in> set new. runs x = Some c)"
  using assms unfolding runMany_def
  by (rule over_targets_calls[rotated]) (use run_one_calls in force)

lemma runMany_gated: "runMany fr ts c s = (rs, s') \<Longrightarrow> pd_allowed (classifyCommand c) \<Longrightarrow> gated_first fr s s'"
  using runMany_calls[of fr ts c s rs s'] gated_first_allowed[of s' s] by force

lemma toolExecMany_gated: "toolExecMany fr args s = (r, s') \<Longrightarrow> \<not> getBool args ''allow_dangerous'' False \<Longrightarrow> gated_first fr s s'"
  by (auto simp: toolExecMany_def Let_def dest!: runMany_gated split: prod.splits if_splits)

lemma toolJobStart_gated: "toolJobStart fr args s = (r, s') \<Longrightarrow> \<not> getBool args ''allow_dangerous'' False \<Longrightarrow> gated_first fr s s'"
  by (fastforce simp: toolJobStart_def toolRPCJobCall_def Let_def gated_first_def getString_def json_str_def json_get_def
      dest!: callRPCNative_calls split: prod.splits if_splits)

lemma toolExecRouted_gated:
  "toolExecRouted fr recs args s = (r, s') \<Longrightarrow> \<not> getBool args ''allow_dangerous'' False \<Longrightarrow> gated_first fr s s'"
  by (auto simp: toolExecRouted_def Let_def dest!: toolExec_members_gated split: prod.splits if_splits)

definition exec_tools :: "string list" where
  "exec_tools = [''vssh_exec'', ''vssh_exec_safe'', ''vssh_exec_routed'', ''vssh_exec_many'', ''vssh_job_start'']"

lemma exec_tools_operational: "list_all isOperationalMCPTool exec_tools"
  by code_simp

lemma exec_tools_gated:
  assumes "resolveGroupedTool name args = Inr flat" "flat \<in> set exec_tools" "\<not> getBool args ''allow_dangerous'' False"
    and "\<forall>s0. ms_calls (snd (setup s0)) = ms_calls s0" "callMCPTool fr recs other setup name args s = (r, s')"
  shows "gated_first fr s s'"
proof -
  have op: "isOperationalMCPTool flat" using assms(2) exec_tools_operational by (simp add: list_all_iff)
  obtain r2 t where d: "dispatchMCPTool fr recs other flat args t = (r2, s')" and t: "ms_calls t = ms_calls s"
    using assms(1,5) assms(4)[rule_format, of s] op by (auto simp: callMCPTool_def split: prod.splits)
  have cases: "flat = ''vssh_exec'' \<or> flat = ''vssh_exec_safe'' \<or> flat = ''vssh_exec_routed'' \<or> flat = ''vssh_exec_many'' \<or>
      flat = ''vssh_job_start''"
    using assms(2) by (simp only: exec_tools_def list.set insert_iff empty_iff simp_thms)
  have "gated_first fr t s'"
    using cases
  proof (elim disjE)
    assume "flat = ''vssh_exec''"
    with d assms(3) obtain ms where "toolExec_members fr (getString args ''target'') (getString args ''command'')
        (getFloat args ''timeout_seconds'' defaultTimeout) False t = (ms, s')"
      by (auto simp: dispatchMCPTool_def toolExec_def split: prod.splits)
    then show ?thesis by (rule toolExec_members_gated)
  next
    assume "flat = ''vssh_exec_safe''"
    with d obtain ms where "toolExec_members fr (getString args ''target'') (getString args ''command'')
        (getFloat args ''timeout_seconds'' defaultTimeout) False t = (ms, s')"
      by (auto simp: dispatchMCPTool_def toolExec_def split: prod.splits)
    then show ?thesis by (rule toolExec_members_gated)
  next
    assume "flat = ''vssh_exec_routed''"
    with d have "toolExecRouted fr recs args t = (r2, s')" by (simp add: dispatchMCPTool_def)
    then show ?thesis using assms(3) by (rule toolExecRouted_gated)
  next
    assume "flat = ''vssh_exec_many''"
    with d have "toolExecMany fr args t = (r2, s')" by (simp add: dispatchMCPTool_def)
    then show ?thesis using assms(3) by (rule toolExecMany_gated)
  next
    assume "flat = ''vssh_job_start''"
    with d have "toolJobStart fr args t = (r2, s')" by (simp add: dispatchMCPTool_def)
    then show ?thesis using assms(3) by (rule toolJobStart_gated)
  qed
  then show ?thesis using t by (simp add: gated_first_def)
qed


definition demo_front :: front where
  "demo_front = \<lparr>fr_site = two_ways, fr_home = ''/root'', fr_port = 48291, fr_parallel = ''8'',
     fr_dial = lan_only, fr_arrivals = [0, 1], fr_exec = (\<lambda>_ _ _. (exec_zero, None)),
     fr_rpc = (\<lambda>_ _ _ _. Inr \<lparr>rp_success = False, rp_data = JNull, rp_error = ''unauthorized''\<rparr>), fr_info = (\<lambda>_ _. Inl ''''),
     fr_times = ('''', '''', 0), fr_num = JNum, fr_int = (\<lambda>_. 0), fr_pos = (\<lambda>_. True)\<rparr>"

definition demo_args :: json where
  "demo_args = JObj [(''target'', JStr ''g1''), (''command'', JStr ''rm -rf /''), (''method'', JStr ''job_start''),
     (''params'', JObj [(''command'', JStr ''rm -rf /'')])]"

abbreviation idle :: mstate where "idle \<equiv> \<lparr>ms_expected = Map.empty, ms_fs = empty_fs, ms_calls = []\<rparr>"


text \<open>The raw RPC tool is not behind the gate: it starts any command as a job, whatever the classifier
  says of it and without asking anyone.\<close>
theorem rpc_call_bypasses_gate:
  assumes "getString args ''target'' = target" "target \<noteq> ''''" "getString args ''method'' = ''job_start''"
    and "json_get ''params'' args = Some (JObj [(''command'', JStr cmd)])"
    and "callMCPTool fr recs other setup ''vssh_rpc_call'' args s = (r, s')" "setup s = (None, s)"
  shows "\<exists>h port. ms_calls s' = ms_calls s @ [RpcOn h port ''job_start'' (JObj [(''command'', JStr cmd)])] \<and>
    runs (RpcOn h port ''job_start'' (JObj [(''command'', JStr cmd)])) = Some cmd"
proof -
  have g: "resolveGroupedTool ''vssh_rpc_call'' args = Inr ''vssh_rpc_call''"
    by (simp add: resolveGroupedTool_def groupActions_def)
  have "toolRPCCall fr args s = (r, s')"
    using assms(5,6) by (auto simp: callMCPTool_def g isOperationalMCPTool_def dispatchMCPTool_def split: prod.splits)
  then obtain x where "callRPCNative fr target ''job_start'' (JObj [(''command'', JStr cmd)]) s = (x, s')"
    using assms(1-4) by (auto simp: toolRPCCall_def Let_def getParamsMap_def split: prod.splits)
  from callRPCNative_calls[OF this] show ?thesis by (auto simp: getString_def json_str_def json_get_def)
qed

lemma rpc_call_bypasses_gate_witness:
  "\<exists>h port. ms_calls (snd (callMCPTool demo_front (\<lambda>_. []) (\<lambda>_ _ s. (JNull, s)) (\<lambda>s. (None, s)) ''vssh_rpc_call'' demo_args idle))
     = [RpcOn h port ''job_start'' (JObj [(''command'', JStr ''rm -rf /'')])]
   \<and> \<not> pd_allowed (classifyCommand ''rm -rf /'')"
proof -
  have t: "getString demo_args ''target'' = ''g1''" "getString demo_args ''method'' = ''job_start''"
    "json_get ''params'' demo_args = Some (JObj [(''command'', JStr ''rm -rf /'')])" by code_simp+
  have c: "\<not> pd_allowed (classifyCommand ''rm -rf /'')" by code_simp
  obtain r s' where x: "callMCPTool demo_front (\<lambda>_. []) (\<lambda>_ _ s. (JNull, s)) (\<lambda>s. (None, s)) ''vssh_rpc_call'' demo_args idle = (r, s')"
    by (metis surj_pair)
  show ?thesis using rpc_call_bypasses_gate[OF t(1) _ t(2,3) x] c unfolding x by auto
qed

section \<open>The gate and the policy of the key\<close>

text \<open>The response of a daemon as its client reads it.\<close>
definition reply_of :: "json \<Rightarrow> reply" where
  "reply_of v =
     \<lparr>rp_success = (json_get ''success'' v = Some (JBool True)),
      rp_data = (case json_get ''data'' v of None \<Rightarrow> JNull | Some d \<Rightarrow> d), rp_error = getString v ''error''\<rparr>"

text \<open>What the policy of a key says of a command.\<close>
definition policy_permits :: "denv \<Rightarrow> conn option \<Rightarrow> pworld \<Rightarrow> string \<Rightarrow> bool" where
  "policy_permits e cn w cmd \<longleftrightarrow> connPolicyName w cn \<noteq> '''' \<and>
     (\<exists>pol. fst (LoadPolicy (de_compile e) (connPolicyName w cn) w) = Inr pol \<and> ed_allowed (EvalExec pol cmd))"

lemma decision_member:
  "getString (json_map ((''policied'', b) # (''decision'', JStr d) # ms)) ''decision'' = d"
  if "list_all (\<lambda>(k, _). k \<noteq> ''decision'') ms"
proof -
  let ?ms = "(''policied'', b) # (''decision'', JStr d) # ms"
  have "filter (\<lambda>x. fst x = ''decision'') ?ms = [(''decision'', JStr d)]"
    using that by (auto simp: filter_empty_conv list_all_iff)
  then have f: "filter (\<lambda>x. fst x = ''decision'') (sort_key fst ?ms) = [(''decision'', JStr d)]"
    unfolding filter_sort \<open>filter _ ?ms = _\<close> by simp
  have "map_of (rev xs) k = Some v" if "filter (\<lambda>x. fst x = k) xs = [(k, v)]" for xs :: "(string \<times> json) list" and k v
  proof -
    have "map_of ys k = map_of (filter (\<lambda>x. fst x = k) ys) k" for ys :: "(string \<times> json) list"
      by (induction ys) auto
    from this[of "rev xs"] that show ?thesis by (simp add: rev_filter[symmetric])
  qed
  from this[OF f] show ?thesis by (simp add: getString_def json_str_def json_get_def json_map_def)
qed

lemma policy_check_answer:
  assumes "r = reply_of (fst (PolicyCheckRPC e cn cmd w))" "getString (rp_data r) ''decision'' \<in> {''preapproved'', ''allow''}"
  shows "policy_permits e cn w cmd"
proof -
  have d: "rp_data (reply_of (rpc_ok v)) = v" for v by (simp add: reply_of_def rpc_ok_def json_get_def)
  obtain res w1 where l: "LoadPolicy (de_compile e) (connPolicyName w cn) w = (res, w1)" by (metis surj_pair)
  show ?thesis
  proof (cases "connPolicyName w cn = ''''")
    case True
    with assms show ?thesis by (simp add: PolicyCheckRPC_def d decision_member)
  next
    case False
    show ?thesis
    proof (cases res)
      case (Inl er)
      with assms l False show ?thesis by (simp add: PolicyCheckRPC_def d decision_member)
    next
      case (Inr pol)
      with assms l False have "ed_allowed (EvalExec pol cmd)"
        by (simp add: PolicyCheckRPC_def d decision_member Let_def split: if_splits)
      with l Inr False show ?thesis by (simp add: policy_permits_def)
    qed
  qed
qed

text \<open>Where the daemons answer with the policy of the key, a command the classifier holds back is run
  without the flag only if the policy file of the key could be read and its rules permit the command
  on some daemon.\<close>
theorem approval_is_the_policy:
  assumes "resolveGroupedTool name args = Inr flat" "flat \<in> set exec_tools" "\<not> getBool args ''allow_dangerous'' False"
    and "\<forall>s0. ms_calls (snd (setup s0)) = ms_calls s0" "callMCPTool fr recs other setup name args s = (r, s')"
    and "\<forall>h c x. fr_rpc fr h defaultPort ''policy_check'' (JObj [(''command'', JStr c)]) = Inr x \<longrightarrow>
           x = reply_of (fst (PolicyCheckRPC (e h) (cn h) c (w h)))"
  shows "\<exists>new. ms_calls s' = ms_calls s @ new \<and> (\<forall>c \<in> set new. \<forall>cmd. runs c = Some cmd \<longrightarrow>
    pd_allowed (classifyCommand cmd) \<or> (\<exists>h. policy_permits (e h) (cn h) (w h) cmd))"
proof -
  from gated_first_gated[OF exec_tools_gated[OF assms(1-5)]] obtain new where new: "ms_calls s' = ms_calls s @ new"
    "\<forall>c \<in> set new. \<forall>cmd. runs c = Some cmd \<longrightarrow> pd_allowed (classifyCommand cmd) \<or> daemon_said fr new cmd"
    unfolding gated_def by blast
  have "\<exists>h. policy_permits (e h) (cn h) (w h) cmd" if "daemon_said fr new cmd" for cmd
    using that assms(6) policy_check_answer unfolding daemon_said_def by metis
  with new show ?thesis by blast
qed

definition policy_front :: front where
  "policy_front = demo_front\<lparr>fr_rpc := \<lambda>h p m v. Inr (reply_of
     (fst (PolicyCheckRPC env0 (Some 7) (getString v ''command'') (tag_world ''ro'' (Some ro_json)))))\<rparr>"

lemma approval_is_the_policy_witness:
  "\<exists>new. ms_calls (snd (callMCPTool policy_front (\<lambda>_. []) (\<lambda>_ _ s. (JNull, s)) (\<lambda>s. (None, s)) ''vssh_exec'' demo_args idle)) = new \<and>
     (\<forall>c \<in> set new. \<forall>cmd. runs c = Some cmd \<longrightarrow>
       pd_allowed (classifyCommand cmd) \<or> policy_permits env0 (Some 7) (tag_world ''ro'' (Some ro_json)) cmd)"
proof -
  have g: "resolveGroupedTool ''vssh_exec'' demo_args = Inr ''vssh_exec''" by code_simp
  have f: "\<not> getBool demo_args ''allow_dangerous'' False" by code_simp
  have e: "''vssh_exec'' \<in> set exec_tools" by (simp add: exec_tools_def)
  have st: "\<forall>s0 :: mstate. ms_calls (snd (None :: json option, s0)) = ms_calls s0" by simp
  have "\<forall>h c x. fr_rpc policy_front h defaultPort ''policy_check'' (JObj [(''command'', JStr c)]) = Inr x \<longrightarrow>
      x = reply_of (fst (PolicyCheckRPC env0 (Some 7) c (tag_world ''ro'' (Some ro_json))))"
    by (simp add: policy_front_def getString_def json_str_def json_get_def)
  from approval_is_the_policy[where e = "\<lambda>_. env0" and cn = "\<lambda>_. Some 7" and w = "\<lambda>_. tag_world ''ro'' (Some ro_json)"
      and recs = "\<lambda>_. []" and other = "\<lambda>_ _ s. (JNull, s)" and s = idle,
      OF g e f st surjective_pairing this]
  show ?thesis by simp
qed

end
