(* ===== verification/Fleet.thy ===== *)
theory Fleet
  imports GoRegexp GoStruct GoFiles
begin

text \<open>
  What the controller remembers of each node and what it infers from command output
  (\<^verbatim>\<open>internal/fleet\<close>): the store with its note log, the searches, notes from command
  output, the assessment of health signals and the discovery of what a node is. The store is one file;
  the time is an argument. The order of the entries stands for the order in which Go iterates the map.
\<close>

section \<open>The store\<close>

record node_note =
  nt_text :: string
  nt_ts :: string

record memory =
  me_name :: string
  me_role :: string
  me_services :: "string list"
  me_tags :: "string list"
  me_notes :: "node_note list"
  me_updated :: string

record fleet =
  fl_version :: int
  fl_updated :: string
  fl_nodes :: "(string \<times> memory) list"

definition memory_zero :: memory where
  "memory_zero = \<lparr>me_name = '''', me_role = '''', me_services = [], me_tags = [], me_notes = [], me_updated = ''''\<rparr>"

definition fleet_new :: fleet where
  "fleet_new = \<lparr>fl_version = 1, fl_updated = '''', fl_nodes = []\<rparr>"

definition maxNotes :: nat where "maxNotes = 20"

definition fleet_dir :: "string \<Rightarrow> path" where
  "fleet_dir home = (if home = '''' then ''/etc/vssh'' else join_path [home, ''.vssh''])"

definition MemoryPath :: "string \<Rightarrow> path" where
  "MemoryPath home = join_path [fleet_dir home, ''fleet_memory.json'']"

subsection \<open>Its document\<close>

definition set_note :: "node_note setter" where
  "set_note k v n =
     (if equal_fold k ''text'' then text_field v (\<lambda>t. n\<lparr>nt_text := t\<rparr>) n
      else if equal_fold k ''ts'' then text_field v (\<lambda>t. n\<lparr>nt_ts := t\<rparr>) n
      else Some n)"

definition set_memory :: "memory setter" where
  "set_memory k v m =
     (if equal_fold k ''name'' then text_field v (\<lambda>t. m\<lparr>me_name := t\<rparr>) m
      else if equal_fold k ''role'' then text_field v (\<lambda>t. m\<lparr>me_role := t\<rparr>) m
      else if equal_fold k ''services'' then list_field text_value v (\<lambda>vs. m\<lparr>me_services := vs\<rparr>)
      else if equal_fold k ''tags'' then list_field text_value v (\<lambda>vs. m\<lparr>me_tags := vs\<rparr>)
      else if equal_fold k ''notes'' then
        list_field (struct_of set_note \<lparr>nt_text = '''', nt_ts = ''''\<rparr>) v (\<lambda>vs. m\<lparr>me_notes := vs\<rparr>)
      else if equal_fold k ''updated_at'' then text_field v (\<lambda>t. m\<lparr>me_updated := t\<rparr>) m
      else Some m)"

text \<open>The members of a second map of nodes are added to the first; null takes the map away.\<close>
definition set_fleet :: "fleet setter" where
  "set_fleet k v f =
     (if equal_fold k ''version'' then num_field v (\<lambda>i. f\<lparr>fl_version := i\<rparr>) f
      else if equal_fold k ''updated_at'' then text_field v (\<lambda>t. f\<lparr>fl_updated := t\<rparr>) f
      else if equal_fold k ''nodes'' then
        (if v = JNull then Some (f\<lparr>fl_nodes := []\<rparr>)
         else map_option (\<lambda>ns. f\<lparr>fl_nodes := overlay fst (fl_nodes f) ns\<rparr>)
                (map_of_json (struct_of set_memory memory_zero) v))
      else Some f)"

definition note_json :: "node_note \<Rightarrow> json" where
  "note_json n = JObj [(''text'', JStr (nt_text n)), (''ts'', JStr (nt_ts n))]"

definition memory_json :: "memory \<Rightarrow> json" where
  "memory_json m = JObj ([(''name'', JStr (me_name m))] @ omit_empty ''role'' (me_role m)
     @ omit_texts ''services'' (me_services m) @ omit_texts ''tags'' (me_tags m)
     @ (if me_notes m = [] then [] else [(''notes'', JArr (map note_json (me_notes m)))])
     @ omit_empty ''updated_at'' (me_updated m))"

definition nodes_json :: "(string \<times> memory) list \<Rightarrow> json" where
  "nodes_json ns = json_map (map (\<lambda>(k, m). (k, memory_json m)) ns)"

definition fleet_json :: "fleet \<Rightarrow> json" where
  "fleet_json f = JObj [(''version'', json_int (fl_version f)), (''updated_at'', JStr (fl_updated f)),
     (''nodes'', nodes_json (fl_nodes f))]"

datatype load_err = Unreadable io_err | NotADocument

definition or_one :: "int \<Rightarrow> int" where "or_one i = (if i = 0 then 1 else i)"

text \<open>A file that does not exist is an empty store.\<close>
definition LoadFleet :: "string \<Rightarrow> fs \<Rightarrow> load_err + fleet" where
  "LoadFleet home f =
     (case read_file f (MemoryPath home) of
        Inl ENotExist \<Rightarrow> Inr fleet_new
      | Inl e \<Rightarrow> Inl (Unreadable e)
      | Inr d \<Rightarrow>
          (case unmarshal d of None \<Rightarrow> Inl NotADocument
           | Some v \<Rightarrow> (case struct_of set_fleet fleet_new v of None \<Rightarrow> Inl NotADocument
               | Some fl \<Rightarrow> Inr (fl\<lparr>fl_version := or_one (fl_version fl)\<rparr>))))"

definition SaveFleet :: "string \<Rightarrow> string \<Rightarrow> fleet \<Rightarrow> fs \<Rightarrow> io_err option \<times> fs" where
  "SaveFleet now home fl f =
     write_file (MemoryPath home)
       (marshal_indent 0 (fleet_json (fl\<lparr>fl_version := or_one (fl_version fl), fl_updated := now\<rparr>))) f"

subsection \<open>Its operations\<close>

definition put_entry :: "string \<Rightarrow> 'a \<Rightarrow> (string \<times> 'a) list \<Rightarrow> (string \<times> 'a) list" where
  "put_entry k v xs =
     (if k \<in> fst ` set xs then map (\<lambda>(a, b). if a = k then (k, v) else (a, b)) xs else xs @ [(k, v)])"

definition GetNode :: "fleet \<Rightarrow> string \<Rightarrow> memory option" where
  "GetNode fl name = map_of (fl_nodes fl) name"

text \<open>Without the empty texts, each once, in order.\<close>
definition normalize_texts :: "string list \<Rightarrow> string list" where
  "normalize_texts vs = sort (dedup (filter (\<lambda>v. v \<noteq> '''') (map trim_space vs)))"

definition SetNode :: "string \<Rightarrow> string \<Rightarrow> memory \<Rightarrow> fleet \<Rightarrow> fleet" where
  "SetNode now name m fl =
     (let notes = (case GetNode fl name of Some old \<Rightarrow> if me_notes m = [] then me_notes old else me_notes m
                   | None \<Rightarrow> me_notes m)
      in fl\<lparr>fl_nodes := put_entry name (m\<lparr>me_name := name, me_services := normalize_texts (me_services m),
             me_tags := normalize_texts (me_tags m), me_notes := notes, me_updated := now\<rparr>) (fl_nodes fl)\<rparr>)"

definition last_notes :: "node_note list \<Rightarrow> node_note list" where
  "last_notes ns = (if maxNotes < length ns then drop (length ns - maxNotes) ns else ns)"

definition AddNote :: "string \<Rightarrow> string \<Rightarrow> string \<Rightarrow> fleet \<Rightarrow> fleet" where
  "AddNote now node text fl =
     (let m = (case GetNode fl node of Some m \<Rightarrow> m | None \<Rightarrow> memory_zero) in
      fl\<lparr>fl_nodes := put_entry node (m\<lparr>me_name := node,
           me_notes := last_notes (me_notes m @ [\<lparr>nt_text = text, nt_ts = now\<rparr>]), me_updated := now\<rparr>) (fl_nodes fl)\<rparr>)"

section \<open>Searching\<close>

definition memory_fields :: "memory \<Rightarrow> (string \<times> string) list" where
  "memory_fields m = [(''name'', me_name m), (''role'', me_role m)] @ map (Pair ''service'') (me_services m)
     @ map (Pair ''tag'') (me_tags m) @ map (\<lambda>n. (''note'', nt_text n)) (me_notes m)"

record fleet_filter =
  ff_role :: string
  ff_tag :: string
  ff_service :: string
  ff_text :: string

definition containsFold :: "string list \<Rightarrow> string \<Rightarrow> bool" where
  "containsFold vs want = list_ex (\<lambda>v. to_lower v = want) vs"

definition textMatch :: "memory \<Rightarrow> string \<Rightarrow> bool" where
  "textMatch m t = list_ex (\<lambda>(_, v). contains t (to_lower v)) (memory_fields m)"

definition selects :: "fleet_filter \<Rightarrow> memory \<Rightarrow> bool" where
  "selects ff m \<longleftrightarrow>
     (let role = to_lower (trim_space (ff_role ff)); tag = to_lower (trim_space (ff_tag ff));
          svc = to_lower (trim_space (ff_service ff)); t = to_lower (trim_space (ff_text ff))
      in (role = '''' \<or> to_lower (me_role m) = role) \<and> (tag = '''' \<or> containsFold (me_tags m) tag) \<and>
         (svc = '''' \<or> containsFold (me_services m) svc) \<and> (t = '''' \<or> textMatch m t))"

definition FindNodes :: "fleet_filter \<Rightarrow> fleet \<Rightarrow> memory list" where
  "FindNodes ff fl = sort_key me_name (filter (selects ff) (map snd (fl_nodes fl)))"

definition askStopwords :: "string list" where
  "askStopwords =
     [[CHR 0xEB, CHR 0x85, CHR 0xB8, CHR 0xEB, CHR 0x93, CHR 0x9C],
      [CHR 0xEC, CHR 0x84, CHR 0x9C, CHR 0xEB, CHR 0xB2, CHR 0x84],
      [CHR 0xEB, CHR 0xAA, CHR 0xA9, CHR 0xEB, CHR 0xA1, CHR 0x9D],
      [CHR 0xEC, CHR 0x9E, CHR 0x88, CHR 0xEB, CHR 0x8A, CHR 0x94],
      [CHR 0xEC, CHR 0x9E, CHR 0x88, CHR 0xEB, CHR 0x8B, CHR 0xA4],
      [CHR 0xEC, CHR 0x9E, CHR 0x88, CHR 0xEB, CHR 0x82, CHR 0x98],
      [CHR 0xEC, CHR 0x9D, CHR 0xB4, CHR 0xEB, CHR 0xA0, CHR 0xA5],
      [CHR 0xED, CHR 0x95, CHR 0x98, CHR 0xEB, CHR 0x8A, CHR 0x94],
      [CHR 0xEB, CHR 0x8F, CHR 0x8C, CHR 0xEB, CHR 0xA6, CHR 0xAC, CHR 0xEB, CHR 0x8A, CHR 0x94],
      [CHR 0xEB, CHR 0x8F, CHR 0x8C, CHR 0xEB, CHR 0xA6, CHR 0xAC],
      [CHR 0xEB, CHR 0xB3, CHR 0xB4, CHR 0xEC, CHR 0x97, CHR 0xAC, CHR 0xEC, CHR 0xA4, CHR 0x98],
      [CHR 0xEC, CHR 0x95, CHR 0x8C, CHR 0xEB, CHR 0xA0, CHR 0xA4, CHR 0xEC, CHR 0xA4, CHR 0x98],
      [CHR 0xEC, CHR 0x96, CHR 0xB4, CHR 0xEB, CHR 0x96, CHR 0xA4],
      [CHR 0xEB, CHR 0xAC, CHR 0xB4, CHR 0xEC, CHR 0x8A, CHR 0xA8],
      [CHR 0xEA, CHR 0xB0, CHR 0x80, CHR 0xEC, CHR 0xA7, CHR 0x84],
      [CHR 0xEC, CHR 0xA2, CHR 0x80], [CHR 0xEB, CHR 0xAD, CHR 0x90], ''the'', ''a'', ''an'',
      ''node'', ''nodes'', ''server'', ''servers'', ''list'', ''show'', ''which'', ''with'', ''that'',
      ''have'', ''has'', ''running'', ''run'', ''of'']"

definition askSynonyms :: "(string \<times> string list) list" where
  "askSynonyms =
     [([CHR 0xEB, CHR 0x94, CHR 0x94, CHR 0xEC, CHR 0x8A, CHR 0xA4, CHR 0xED, CHR 0x81, CHR 0xAC], [''disk'', [CHR 0xEC, CHR 0x9A, CHR 0xA9, CHR 0xEB, CHR 0x9F, CHR 0x89]]),
      (''disk'', [[CHR 0xEB, CHR 0x94, CHR 0x94, CHR 0xEC, CHR 0x8A, CHR 0xA4, CHR 0xED, CHR 0x81, CHR 0xAC]]),
      (''gpu'', [[CHR 0xEA, CHR 0xB7, CHR 0xB8, CHR 0xEB, CHR 0x9E, CHR 0x98, CHR 0xED, CHR 0x94, CHR 0xBD], ''cuda'']),
      ([CHR 0xEA, CHR 0xB7, CHR 0xB8, CHR 0xEB, CHR 0x9E, CHR 0x98, CHR 0xED, CHR 0x94, CHR 0xBD], [''gpu'']),
      ([CHR 0xEC, CHR 0x9E, CHR 0xA5, CHR 0xEC, CHR 0x95, CHR 0xA0], [''fail'', ''down'', ''error'', [CHR 0xEC, CHR 0x98, CHR 0xA4, CHR 0xEB, CHR 0xA5, CHR 0x98], [CHR 0xEC, CHR 0x97, CHR 0x90, CHR 0xEB, CHR 0x9F, CHR 0xAC], ''issue'']),
      (''fault'', [[CHR 0xEC, CHR 0x9E, CHR 0xA5, CHR 0xEC, CHR 0x95, CHR 0xA0], ''fail'']),
      (''failure'', [[CHR 0xEC, CHR 0x9E, CHR 0xA5, CHR 0xEC, CHR 0x95, CHR 0xA0], ''fail'']),
      (''postgres'', [''postgresql'', ''pg'']),
      (''postgresql'', [''postgres'', ''pg'']),
      ([CHR 0xEC, CHR 0x8A, CHR 0xA4, CHR 0xED, CHR 0x86, CHR 0xA0, CHR 0xEB, CHR 0xA6, CHR 0xAC, CHR 0xEC, CHR 0xA7, CHR 0x80], [''storage'']),
      ([CHR 0xEC, CHR 0xA0, CHR 0x80, CHR 0xEC, CHR 0x9E, CHR 0xA5], [''storage'']),
      (''storage'', [[CHR 0xEC, CHR 0x8A, CHR 0xA4, CHR 0xED, CHR 0x86, CHR 0xA0, CHR 0xEB, CHR 0xA6, CHR 0xAC, CHR 0xEC, CHR 0xA7, CHR 0x80]]),
      (''relay'', [[CHR 0xEB, CHR 0xA6, CHR 0xB4, CHR 0xEB, CHR 0xA0, CHR 0x88, CHR 0xEC, CHR 0x9D, CHR 0xB4]]),
      ([CHR 0xEB, CHR 0xA6, CHR 0xB4, CHR 0xEB, CHR 0xA0, CHR 0x88, CHR 0xEC, CHR 0x9D, CHR 0xB4], [''relay''])]"

definition arrow :: string where "arrow = ('' '' @ [CHR 0xE2, CHR 0x86, CHR 0x92] @ '' '')"

definition ask_delim :: "char \<Rightarrow> bool" where
  "ask_delim c = (c \<in> {SP, TAB, NL, CHR '','', CHR ''?'', CHR ''!'', CHR ''.'', CHR 0x22, CHR 0x27})"

definition askTokens :: "string \<Rightarrow> string list" where
  "askTokens query = dedup (filter (\<lambda>t. t \<notin> set askStopwords) (fields_func ask_delim (to_lower query)))"

definition expandToken :: "string \<Rightarrow> string list" where
  "expandToken tok = tok # (case map_of askSynonyms tok of Some vs \<Rightarrow> vs | None \<Rightarrow> [])"

definition matchToken :: "memory \<Rightarrow> string list \<Rightarrow> string option" where
  "matchToken m variants =
     (case find (\<lambda>(_, v). list_ex (\<lambda>w. w \<noteq> '''' \<and> contains (to_lower w) (to_lower v)) variants) (memory_fields m) of
        None \<Rightarrow> None | Some (k, v) \<Rightarrow> Some (k @ '' '' @ go_quote v))"

record hit =
  ht_node :: string
  ht_memory :: memory
  ht_reasons :: "string list"
  ht_score :: int

definition ask_one :: "string list \<Rightarrow> memory \<Rightarrow> hit" where
  "ask_one toks m =
     (let rs = concat (map (\<lambda>t. case matchToken m (expandToken t) of None \<Rightarrow> [] | Some r \<Rightarrow> [go_quote t @ arrow @ r]) toks)
      in \<lparr>ht_node = me_name m, ht_memory = m, ht_reasons = rs, ht_score = int (length rs)\<rparr>)"

definition AskFleet :: "string \<Rightarrow> fleet \<Rightarrow> hit list" where
  "AskFleet query fl =
     sort_key (\<lambda>h. - ht_score h) (sort_key ht_node
       (filter (\<lambda>h. 0 < ht_score h) (map (ask_one (askTokens query) \<circ> snd) (fl_nodes fl))))"

end
