(* ===== verification/Observe.thy ===== *)
theory Observe
  imports Fleet
begin

text \<open>
  What command output says of a node (\<^verbatim>\<open>internal/fleet/autonote.go\<close>, \<^verbatim>\<open>health.go\<close>,
  \<^verbatim>\<open>discover.go\<close>): notes, the severity of health signals, and role, services and tags from
  what the node runs. Floats are kept as their text; their comparison and printing are arguments.
\<close>

section \<open>Notes from output\<close>

record floats =
  fl_over :: "string \<Rightarrow> int \<Rightarrow> int \<Rightarrow> bool"       \<comment> \<open>\<open>fl_over x n k\<close>: \<open>x / n\<close> is at least \<open>k\<close>\<close>
  fl_parses :: "string \<Rightarrow> bool"
  fl_fixed :: "string \<Rightarrow> string"                \<comment> \<open>with two decimals\<close>
  fl_short :: "string \<Rightarrow> string"                \<comment> \<open>without trailing zeros\<close>
  fl_positive :: "string \<Rightarrow> bool"

definition diskThreshold :: int where "diskThreshold = 85"
definition highLoadThreshold :: int where "highLoadThreshold = 4"

definition unit_char :: "char \<Rightarrow> bool" where
  "unit_char c \<longleftrightarrow> word_char c \<or> c = CHR ''.'' \<or> c = CHR ''@'' \<or> c = CHR ''-''"

definition dfPctRe :: re where "dfPctRe = seqs [Start, Grp (plus (Chr is_digit)), lit ''%'', End]"

definition loadRe :: re where
  "loadRe = seqs [lit ''load average'', maybe (any_of ''s''), lit '':'', spaces, Grp (plus (Chr (\<lambda>c. is_digit c \<or> c = CHR ''.'')))]"

definition unitRe :: re where "unitRe = Grp (Seq (plus (Chr unit_char)) (lit ''.service''))"

definition cmdUnitRe :: re where
  "cmdUnitRe = seqs [lit ''systemctl'', plus (Chr blank_char),
     alts (map lit [''status'', ''is-active'', ''show'', ''restart'', ''start'', ''stop'']), plus (Chr blank_char), Grp (plus (Chr unit_char))]"

definition auto :: string where "auto = '' (auto)''"

definition disk_row :: "string \<Rightarrow> string list" where
  "disk_row line =
     (let fs = go_fields line in
      if length fs < 5 then []
      else (case find (\<lambda>f. match_string dfPctRe f) fs of None \<Rightarrow> []
        | Some f \<Rightarrow> (case submatch dfPctRe f of
              Some (m # _) \<Rightarrow> (let pct = fst (go_atoi m) in
                 if diskThreshold \<le> pct then [''disk '' @ hd fs @ '' at '' @ show_int pct @ ''%'' @ auto] else [])
            | _ \<Rightarrow> [])))"

definition extractDisk :: "string \<Rightarrow> string list" where
  "extractDisk out = concat (map disk_row (split_on NL out))"

definition extractService :: "string \<Rightarrow> string \<Rightarrow> string list" where
  "extractService command out =
     (let low = to_lower out in
      if \<not> contains ''active: failed'' low \<and> \<not> contains ''(dead)'' low then []
      else
        let u = (case submatch cmdUnitRe command of Some (m # _) \<Rightarrow> m
                 | _ \<Rightarrow> (case submatch unitRe out of Some (m # _) \<Rightarrow> m | _ \<Rightarrow> ''''));
            t = trim_suffix ''.service'' u
        in [''service '' @ (if t = '''' then ''service'' else t) @ '' failed'' @ auto])"

definition extractLoad :: "floats \<Rightarrow> string \<Rightarrow> string list" where
  "extractLoad fl out =
     (case submatch loadRe out of
        Some (m # _) \<Rightarrow> if fl_parses fl m \<and> fl_over fl m 1 highLoadThreshold then [''high load avg '' @ fl_fixed fl m @ auto] else []
      | _ \<Rightarrow> [])"

definition nvidia_markers :: "string list" where
  "nvidia_markers = [''failed to initialize nvml'', ''driver/library version mismatch'', ''err!'', ''nvidia-smi has failed'',
     ''no devices were found'']"

definition extractNvidia :: "string \<Rightarrow> string list" where
  "extractNvidia out =
     (if list_ex (\<lambda>m. contains m (to_lower out)) nvidia_markers then [''nvidia driver issue'' @ auto] else [])"

text \<open>The first characters of a text; a byte outside a well-formed sequence counts as one.\<close>
fun take_runes :: "nat \<Rightarrow> string \<Rightarrow> string" where
  "take_runes 0 s = []"
| "take_runes (Suc n) [] = []"
| "take_runes (Suc n) (c # s) =
     (let w = utf8_width (c # s) in
      if w = 0 then u_fffd @ take_runes n s else take w (c # s) @ take_runes n (drop w (c # s)))"

fun rune_count :: "nat \<Rightarrow> string \<Rightarrow> nat" where
  "rune_count fuel [] = 0"
| "rune_count 0 (c # s) = 0"
| "rune_count (Suc fuel) (c # s) =
     (let w = utf8_width (c # s) in Suc (rune_count fuel (if w = 0 then s else drop w (c # s))))"

definition firstLine :: "string \<Rightarrow> string" where
  "firstLine out =
     (case find (\<lambda>l. l \<noteq> '''') (map trim_space (split_on NL out)) of None \<Rightarrow> ''''
      | Some l \<Rightarrow> if 160 < rune_count (length l) l then take_runes 160 l else l)"

definition ExtractNotes :: "floats \<Rightarrow> string \<Rightarrow> string \<Rightarrow> string list" where
  "ExtractNotes fl command out =
     (let ns = extractDisk out @ extractService command out @ extractLoad fl out @ extractNvidia out in
      if ns = [] then (let s = firstLine out in if s = '''' then [] else [s @ auto]) else ns)"

definition AutoNote :: "floats \<Rightarrow> string \<Rightarrow> string \<Rightarrow> string \<Rightarrow> string \<Rightarrow> fleet \<Rightarrow> string list \<times> fleet" where
  "AutoNote fl now node command out fm =
     (let ns = ExtractNotes fl command out in (ns, fold (AddNote now node) ns fm))"

section \<open>Health\<close>

record health =
  hs_load :: string
  hs_cores :: int
  hs_disk :: int
  hs_mem :: int
  hs_failed :: int

definition health_line :: "string \<Rightarrow> health \<Rightarrow> health" where
  "health_line line h =
     (case cut (CHR ''='') (trim_space line) of None \<Rightarrow> h
      | Some (k, v) \<Rightarrow>
          if v = '''' then h
          else if k = ''load'' then h\<lparr>hs_load := v\<rparr>
          else if k = ''cores'' then h\<lparr>hs_cores := fst (go_atoi v)\<rparr>
          else if k = ''disk_pct'' then h\<lparr>hs_disk := fst (go_atoi v)\<rparr>
          else if k = ''mem_pct'' then h\<lparr>hs_mem := fst (go_atoi v)\<rparr>
          else if k = ''failed'' then h\<lparr>hs_failed := fst (go_atoi v)\<rparr>
          else h)"

definition ParseHealth :: "string \<Rightarrow> health" where
  "ParseHealth out =
     fold health_line (split_on NL out) \<lparr>hs_load = ''0'', hs_cores = 0, hs_disk = 0, hs_mem = 0, hs_failed = 0\<rparr>"

datatype severity = HealthOK | HealthWarn | HealthCritical

text \<open>A raise goes to critical, and to a warning only from where nothing was wrong.\<close>
definition raise_to :: "severity \<Rightarrow> severity \<Rightarrow> severity" where
  "raise_to s old = (if s = HealthCritical \<or> old = HealthOK then s else old)"

definition disk_issue :: "health \<Rightarrow> (severity \<times> string) list" where
  "disk_issue h =
     (if 95 \<le> hs_disk h then [(HealthCritical, ''disk '' @ show_int (hs_disk h) @ ''% (critical)'')]
      else if 90 \<le> hs_disk h then [(HealthWarn, ''disk '' @ show_int (hs_disk h) @ ''%'')] else [])"

definition load_issue :: "floats \<Rightarrow> health \<Rightarrow> (severity \<times> string) list" where
  "load_issue fl h =
     (let text = ''load '' @ fl_short fl (hs_load h) @ '' on '' @ show_int (hs_cores h) @ '' cores'' in
      if 0 < hs_cores h \<and> fl_positive fl (hs_load h) then
        if fl_over fl (hs_load h) (hs_cores h) 4 then [(HealthCritical, text @ '' (critical)'')]
        else if fl_over fl (hs_load h) (hs_cores h) 2 then [(HealthWarn, text)] else []
      else [])"

definition Assess :: "floats \<Rightarrow> health \<Rightarrow> severity \<times> string list" where
  "Assess fl h =
     (let found = disk_issue h @ load_issue fl h
            @ (if 90 \<le> hs_mem h then [(HealthWarn, ''memory '' @ show_int (hs_mem h) @ ''%'')] else [])
            @ (if 0 < hs_failed h then [(HealthWarn, show_int (hs_failed h) @ '' failed unit(s)'')] else [])
      in (fold raise_to (map fst found) HealthOK, map snd found))"

definition SeverityRank :: "severity \<Rightarrow> nat" where
  "SeverityRank s = (case s of HealthCritical \<Rightarrow> 0 | HealthWarn \<Rightarrow> 1 | HealthOK \<Rightarrow> 2)"

definition SortReports :: "(string \<Rightarrow> severity) \<Rightarrow> string list \<Rightarrow> string list" where
  "SortReports sev names = sort_key (\<lambda>n. SeverityRank (sev n)) (sort names)"

section \<open>Discovery\<close>

record signals =
  sg_os :: string
  sg_arch :: string
  sg_distro :: string
  sg_gpus :: "string list"
  sg_units :: "string list"
  sg_ports :: "int list"
  sg_containers :: int
  sg_disk :: int
  sg_bigdisk :: int

definition signals_zero :: signals where
  "signals_zero = \<lparr>sg_os = '''', sg_arch = '''', sg_distro = '''', sg_gpus = [], sg_units = [], sg_ports = [],
     sg_containers = 0, sg_disk = 0, sg_bigdisk = 0\<rparr>"

definition signal_line :: "string \<Rightarrow> signals \<Rightarrow> signals" where
  "signal_line line s =
     (case cut (CHR ''='') (trim_space line) of None \<Rightarrow> s
      | Some (k, v) \<Rightarrow>
          if v = '''' then s
          else if k = ''os'' then s\<lparr>sg_os := v\<rparr>
          else if k = ''arch'' then s\<lparr>sg_arch := v\<rparr>
          else if k = ''distro'' then s\<lparr>sg_distro := v\<rparr>
          else if k = ''gpu'' then s\<lparr>sg_gpus := sg_gpus s @ [v]\<rparr>
          else if k = ''unit'' then s\<lparr>sg_units := sg_units s @ [v]\<rparr>
          else if k = ''port'' then (case go_atoi v of (n, ok) \<Rightarrow> if ok then s\<lparr>sg_ports := sg_ports s @ [n]\<rparr> else s)
          else if k = ''containers'' then s\<lparr>sg_containers := fst (go_atoi v)\<rparr>
          else if k = ''disk_gb'' then s\<lparr>sg_disk := fst (go_atoi v)\<rparr>
          else if k = ''bigdisk_gb'' then s\<lparr>sg_bigdisk := fst (go_atoi v)\<rparr>
          else s)"

definition ParseSignals :: "string \<Rightarrow> signals" where
  "ParseSignals out = fold signal_line (split_on NL out) signals_zero"

definition serviceRules :: "(string \<times> string list \<times> int list) list" where
  "serviceRules =
     [(''ollama'', [''ollama''], [11434]), (''docker'', [''docker'', ''containerd''], []), (''nginx'', [''nginx''], []),
      (''caddy'', [''caddy''], []), (''postgres'', [''postgres''], [5432]), (''mysql'', [''mysql'', ''mariadb''], [3306]),
      (''redis'', [''redis''], [6379]), (''mail'', [''mox'', ''postfix'', ''dovecot'', ''exim''], [25, 587, 993]),
      (''samba'', [''smbd'', ''samba''], [445]), (''nfs'', [''nfs-server'', ''nfsd'', ''nfs-kernel''], [2049]),
      (''minio'', [''minio''], [9000]), (''prometheus'', [''prometheus''], [9090]),
      (''node_exporter'', [''node_exporter'', ''node-exporter''], [9100]), (''grafana'', [''grafana''], [3000]),
      (''tailscale'', [''tailscaled'', ''tailscale''], []), (''vsshd'', [''vsshd''], []), (''k3s'', [''k3s''], []),
      (''squid'', [''squid''], [3128]), (''haproxy'', [''haproxy''], []), (''ssh'', [''sshd'', ''ssh''], [22])]"

definition unit_blob :: "signals \<Rightarrow> string" where "unit_blob s = to_lower (join '' '' (sg_units s))"

definition rule_hit :: "signals \<Rightarrow> string \<times> string list \<times> int list \<Rightarrow> bool" where
  "rule_hit s r = (case r of (_, us, ps) \<Rightarrow>
     list_ex (\<lambda>u. contains u (unit_blob s)) us \<or> list_ex (\<lambda>p. p \<in> set (sg_ports s)) ps)"

definition services_of :: "signals \<Rightarrow> string list" where
  "services_of s = sort (map fst (filter (rule_hit s) serviceRules))"

text \<open>A mail daemon, or two of its ports.\<close>
definition mail_server :: "signals \<Rightarrow> bool" where
  "mail_server s \<longleftrightarrow> list_ex (\<lambda>u. contains u (unit_blob s)) [''mox'', ''postfix'', ''dovecot'', ''exim''] \<or>
     2 \<le> length (filter (\<lambda>p. p \<in> set (sg_ports s)) [25, 587, 993])"

definition storage_box :: "signals \<Rightarrow> bool" where
  "storage_box s \<longleftrightarrow> ''samba'' \<in> set (services_of s) \<or> ''nfs'' \<in> set (services_of s) \<or> ''minio'' \<in> set (services_of s) \<or>
     4000 \<le> max (sg_disk s) (sg_bigdisk s)"

definition role_of :: "signals \<Rightarrow> string" where
  "role_of s =
     (if sg_gpus s \<noteq> [] then ''gpu''
      else if mail_server s then ''mail''
      else if storage_box s then ''storage''
      else if ''squid'' \<in> set (services_of s) \<or> ''haproxy'' \<in> set (services_of s) then ''network''
      else ''vm'')"

fun family_slug :: "string \<Rightarrow> string list \<Rightarrow> string option" where
  "family_slug n [] = None"
| "family_slug n (fam # fams) =
     (case index_of fam n of None \<Rightarrow> family_slug n fams
      | Some i \<Rightarrow> (case go_fields (drop i n) of a # b # _ \<Rightarrow> Some (replace_all '' '' '''' (a @ b)) | _ \<Rightarrow> family_slug n fams))"

definition gpuSlug :: "string \<Rightarrow> string" where
  "gpuSlug name =
     (let n = to_lower name in
      case family_slug n [''rtx'', ''gtx'', ''tesla'', ''quadro''] of Some t \<Rightarrow> t
      | None \<Rightarrow> (case find (\<lambda>m. contains m n) [''a100'', ''h100'', ''l40'', ''a6000'', ''v100''] of Some m \<Rightarrow> m | None \<Rightarrow> ''''))"

definition arch_tags :: "string \<Rightarrow> string list" where
  "arch_tags a = (if a \<in> {''x86_64'', ''amd64''} then [''amd64''] else if a \<in> {''aarch64'', ''arm64''} then [''arm64'']
     else if a = '''' then [] else [to_lower a])"

definition gpu_tags :: "string list \<Rightarrow> string list" where
  "gpu_tags gs = (if gs = [] then [] else [''gpu''] @ (if 1 < length gs then [''multi-gpu''] else [])
     @ (let t = gpuSlug (hd gs) in if t = '''' then [] else [t]))"

definition tags_of :: "signals \<Rightarrow> string list" where
  "tags_of s = sort ((if sg_os s = '''' then [] else [to_lower (sg_os s)]) @ arch_tags (sg_arch s)
     @ (if sg_distro s = '''' then [] else [to_lower (sg_distro s)]) @ gpu_tags (sg_gpus s)
     @ (if 0 < sg_containers s then [''containers''] else []))"

definition Infer :: "signals \<Rightarrow> memory" where
  "Infer s = memory_zero\<lparr>me_role := role_of s, me_services := services_of s, me_tags := tags_of s\<rparr>"

section \<open>The log of notes\<close>

text \<open>What happens to the store: a note, notes from output, new role, services and tags.\<close>
datatype memory_op = Noted string string string | AutoNoted string string string string
  | Edited string string string "string list" "string list"

definition memory_step :: "floats \<Rightarrow> memory_op \<Rightarrow> fleet \<Rightarrow> fleet" where
  "memory_step fl op fm = (case op of
     Noted now node text \<Rightarrow> AddNote now node text fm
   | AutoNoted now node command out \<Rightarrow> snd (AutoNote fl now node command out fm)
   | Edited now node role services tags \<Rightarrow>
       SetNode now node ((case GetNode fm node of Some m \<Rightarrow> m | None \<Rightarrow> memory_zero)
         \<lparr>me_role := role, me_services := services, me_tags := tags\<rparr>) fm)"

text \<open>The abstract store: for each node every note there ever was.\<close>
fun history :: "floats \<Rightarrow> string \<Rightarrow> memory_op \<Rightarrow> node_note list" where
  "history fl node (Noted now n t) = (if n = node then [\<lparr>nt_text = t, nt_ts = now\<rparr>] else [])"
| "history fl node (AutoNoted now n command out) =
     (if n = node then map (\<lambda>t. \<lparr>nt_text = t, nt_ts = now\<rparr>) (ExtractNotes fl command out) else [])"
| "history fl node (Edited now n role services tags) = []"

definition notes_of :: "fleet \<Rightarrow> string \<Rightarrow> node_note list" where
  "notes_of fm node = (case GetNode fm node of None \<Rightarrow> [] | Some m \<Rightarrow> me_notes m)"

lemma put_entry_get [simp]: "map_of (put_entry k v xs) k' = (if k' = k then Some v else map_of xs k')"
proof -
  let ?f = "\<lambda>(a, b). if a = k then (k, v) else (a, b)"
  have 1: "map_of (map ?f xs) k' = map_of xs k'" if "k' \<noteq> k"
    using that by (induction xs) (simp_all split: prod.split)
  have 2: "map_of (map ?f xs) k = Some v" if "k \<in> set (map fst xs)"
    using that
  proof (induction xs)
    case (Cons a xs)
    obtain x y where a: "a = (x, y)" by (cases a)
    with Cons show ?case by (cases "x = k") simp_all
  qed simp
  have 3: "map_of (xs @ [(k, v)]) k' = (if k' = k then Some v else map_of xs k')" if "k \<notin> set (map fst xs)"
  proof -
    have "map_of xs k = None" using that by (simp add: map_of_eq_None_iff)
    then show ?thesis by (simp add: map_add_def split: option.split)
  qed
  show ?thesis
  proof (cases "k \<in> set (map fst xs)")
    case True
    then have "put_entry k v xs = map ?f xs" by (simp add: put_entry_def)
    then show ?thesis using 1 2[OF True] by (cases "k' = k") simp_all
  next
    case False
    then have "put_entry k v xs = xs @ [(k, v)]" by (simp add: put_entry_def)
    then show ?thesis using 3[OF False] by simp
  qed
qed

lemma last_notes_id [simp]: "length ns \<le> maxNotes \<Longrightarrow> last_notes ns = ns"
  by (simp add: last_notes_def)

lemma last_notes_length [simp]: "length (last_notes ns) \<le> maxNotes"
  by (simp add: last_notes_def)

lemma last_notes_drop: "last_notes ns = drop (length ns - maxNotes) ns"
  by (simp add: last_notes_def)

lemma last_notes_app [simp]: "last_notes (last_notes a @ b) = last_notes (a @ b)"
  by (cases "length a \<le> maxNotes") (auto simp: last_notes_drop add.commute)

lemma AddNote_notes:
  "notes_of (AddNote now n t fm) node =
     (if node = n then last_notes (notes_of fm n @ [\<lparr>nt_text = t, nt_ts = now\<rparr>]) else notes_of fm node)"
  by (simp add: notes_of_def AddNote_def GetNode_def Let_def memory_zero_def split: option.splits)

lemma AddNotes_notes:
  "length (notes_of fm node) \<le> maxNotes \<Longrightarrow> notes_of (fold (AddNote now n) ts fm) node =
     (if node = n then last_notes (notes_of fm n @ map (\<lambda>t. \<lparr>nt_text = t, nt_ts = now\<rparr>) ts) else notes_of fm node)"
proof (induction ts arbitrary: fm)
  case (Cons t ts)
  have "length (notes_of (AddNote now n t fm) node) \<le> maxNotes" using Cons.prems by (simp add: AddNote_notes)
  from Cons.IH[OF this] show ?case by (simp add: AddNote_notes)
qed auto

lemma memory_step_notes:
  "length (notes_of fm node) \<le> maxNotes \<Longrightarrow>
   notes_of (memory_step fl op fm) node = last_notes (notes_of fm node @ history fl node op)"
proof (cases op)
  case (Edited now n role services tags)
  assume "length (notes_of fm node) \<le> maxNotes"
  then show ?thesis
    by (auto simp: memory_step_def Edited notes_of_def SetNode_def GetNode_def Let_def memory_zero_def split: option.splits)
qed (auto simp: memory_step_def AddNote_notes AddNotes_notes AutoNote_def Let_def)

text \<open>The log is the last twenty of the history.\<close>
lemma note_log_refines:
  assumes "length (notes_of fm node) \<le> maxNotes"
  shows "notes_of (fold (memory_step fl) ops fm) node =
    last_notes (notes_of fm node @ concat (map (history fl node) ops))"
  using assms
proof (induction ops arbitrary: fm)
  case (Cons op ops)
  note s = memory_step_notes[OF Cons.prems, of fl op]
  have "length (notes_of (memory_step fl op fm) node) \<le> maxNotes" by (simp add: s)
  from Cons.IH[OF this] show ?case by (simp add: s)
qed simp

section \<open>Severity and role\<close>

lemma raise_to_fold:
  "fold raise_to ss s = (if HealthCritical \<in> set (s # ss) then HealthCritical
     else if HealthWarn \<in> set (s # ss) then HealthWarn else HealthOK)"
proof (induction ss arbitrary: s)
  case Nil
  show ?case by (cases s) auto
next
  case (Cons a ss)
  have "raise_to a s = (if a = HealthCritical \<or> s = HealthOK then a else s)" by (simp add: raise_to_def)
  then show ?case by (simp only: fold.simps comp_apply Cons.IH) (cases a; cases s; auto)
qed

text \<open>The severity is the worst of what was found: critical exactly for a full disk or an overload,
  fine exactly when there is nothing to report.\<close>
theorem Assess_severity:
  "(fst (Assess fl h) = HealthCritical \<longleftrightarrow> 95 \<le> hs_disk h \<or>
      (0 < hs_cores h \<and> fl_positive fl (hs_load h) \<and> fl_over fl (hs_load h) (hs_cores h) 4)) \<and>
   (fst (Assess fl h) = HealthOK \<longleftrightarrow> snd (Assess fl h) = [])"
  by (auto simp: Assess_def raise_to_fold disk_issue_def load_issue_def Let_def)

text \<open>A unit that only contains the name of another service counts for it.\<close>
lemma discovery_by_substring:
  "''ssh'' \<in> set (services_of (signals_zero\<lparr>sg_units := [''vsshd'']\<rparr>))"
  "role_of (signals_zero\<lparr>sg_units := [''proxmox-firewall'']\<rparr>) = ''mail''"
  by code_simp+

end
