(* ===== verification/GoIndent.thy ===== *)
theory GoIndent
  imports GoStruct
begin

text \<open>
  \<^verbatim>\<open>json.Unmarshal\<close> reads what \<^verbatim>\<open>json.MarshalIndent\<close> wrote: the round trip of indented
  documents, and of the structs read from them.
\<close>

section \<open>Values with white space around them\<close>

abbreviation white :: "string \<Rightarrow> bool" where "white \<equiv> list_all json_ws"

text \<open>What may follow a value: nothing, punctuation, or a line break.\<close>
definition ends :: "string \<Rightarrow> bool" where
  "ends r \<longleftrightarrow> closes r \<or> (\<exists>t. r = NL # t)"

lemma ends_simps [simp]: "ends []" "ends (CHR '','' # r)" "ends (CHR '']'' # r)" "ends (CHR ''}'' # r)" "ends (NL # r)"
  by (simp_all add: ends_def)

definition iparses :: "string \<Rightarrow> json \<Rightarrow> bool" where
  "iparses t v \<longleftrightarrow> (\<forall>w n r. white w \<longrightarrow> length t \<le> n \<longrightarrow> ends r \<longrightarrow> parse_value n (w @ t @ r) = Some (json_norm v, r))"

lemma skip_white [simp]: "white w \<Longrightarrow> skip (w @ s) = skip s"
  by (induction w) auto

lemma parse_white: "white w \<Longrightarrow> parse_value (Suc m) (w @ s) = parse_value (Suc m) s"
  by (simp add: parse_value.simps)

lemma iparsesI:
  assumes "t \<noteq> []" "\<And>m r. length t \<le> Suc m \<Longrightarrow> ends r \<Longrightarrow> parse_value (Suc m) (t @ r) = Some (json_norm v, r)"
  shows "iparses t v"
  unfolding iparses_def
proof (intro allI impI)
  fix w n r
  assume w: "white w" and l: "length t \<le> n" and e: "ends r"
  from assms(1) l obtain m where n: "n = Suc m" by (cases n) auto
  show "parse_value n (w @ t @ r) = Some (json_norm v, r)"
    using assms(2) l e w by (simp add: n parse_white)
qed

lemma iparsesD: "iparses t v \<Longrightarrow> white w \<Longrightarrow> length t \<le> n \<Longrightarrow> ends r \<Longrightarrow>
    parse_value n (w @ t @ r) = Some (json_norm v, r)"
  by (simp add: iparses_def)

lemma parse_num_ends:
  assumes "num_ok n" "list_all num_char n" "ends r"
  shows "parse_value (Suc m) (n @ r) = Some (JNum n, r)"
proof -
  obtain c t where n: "n = c # t" and c: "c = CHR ''-'' \<or> is_digit c" using num_head[OF assms(1,2)] by blast
  note nc = num_head_not[OF c]
  have nc2: "CHR ''n'' \<noteq> c" "CHR ''t'' \<noteq> c" "CHR ''f'' \<noteq> c" using nc by auto
  have s: "n @ r = c # (t @ r)" using n by simp
  have e: "takeWhile num_char r = [] \<and> dropWhile num_char r = r"
    using assms(3) closes_num[of r] by (auto simp: ends_def num_char_def is_digit_def)
  have tk: "takeWhile num_char (c # (t @ r)) = n" "dropWhile num_char (c # (t @ r)) = r"
    unfolding s[symmetric] using assms(2) e by (simp_all add: list_all_iff takeWhile_append2 dropWhile_append2)
  have sk: "skip (c # (t @ r)) = c # (t @ r)" using nc by simp
  show ?thesis
    unfolding s parse_value.simps sk list.case tk has_prefix.simps
    by (simp only: nc nc2 assms(1) if_False if_True simp_thms)
qed

section \<open>Lists and objects\<close>

text \<open>Elements written each after the same white space.\<close>
abbreviation spaced :: "string \<Rightarrow> string list \<Rightarrow> string" where
  "spaced w ts \<equiv> join '','' (map (\<lambda>t. w @ t) ts)"

lemma spaced_Cons: "ts \<noteq> [] \<Longrightarrow> spaced w (t # ts) = w @ t @ CHR '','' # spaced w ts"
  using join_Cons[of "map (\<lambda>t. w @ t) ts" "'',''" "w @ t"] by simp

lemma parse_elems_spaced:
  assumes "list_all2 iparses ts vs" "ts \<noteq> []" "white w" "white w'" "ends (w' @ CHR '']'' # r)" "length (spaced w ts) < n"
  shows "parse_elems n (spaced w ts @ w' @ CHR '']'' # r) = Some (map json_norm vs, r)"
  using assms
proof (induction ts vs arbitrary: n rule: list_all2_induct)
  case (Cons t ts v vs)
  then obtain m where n: "n = Suc m" by (cases n) auto
  have sk: "skip (w' @ CHR '']'' # r) = CHR '']'' # r" using Cons.prems(3) by simp
  show ?case
  proof (cases "ts = []")
    case True
    with Cons have vs: "vs = []" by simp
    have "parse_value m (w @ t @ w' @ CHR '']'' # r) = Some (json_norm v, w' @ CHR '']'' # r)"
      using Cons.hyps(1) Cons.prems True n by (intro iparsesD) auto
    then have pv: "parse_value m (spaced w (t # ts) @ w' @ CHR '']'' # r) = Some (json_norm v, w' @ CHR '']'' # r)"
      using True by simp
    show ?thesis unfolding n parse_elems.simps pv option.case prod.case sk list.case vs by simp
  next
    case False
    note j = spaced_Cons[OF False, of w t]
    let ?rest = "spaced w ts @ w' @ CHR '']'' # r"
    have pv: "parse_value m (w @ t @ CHR '','' # ?rest) = Some (json_norm v, CHR '','' # ?rest)"
      using Cons.hyps(1) Cons.prems n j by (intro iparsesD) auto
    have pe: "parse_elems m ?rest = Some (map json_norm vs, r)"
      using Cons.prems n j False by (intro Cons.IH) auto
    have s: "spaced w (t # ts) @ w' @ CHR '']'' # r = w @ t @ CHR '','' # ?rest" unfolding j by simp
    show ?thesis unfolding s n parse_elems.simps pv option.case prod.case skip_punct list.case pe by simp
  qed
qed simp

definition imember :: "string \<Rightarrow> string \<Rightarrow> string" where
  "imember k t = quote k @ '': '' @ t"

lemma parse_imember:
  assumes "iparses t v" "white w" "length (imember k t) \<le> m" "ends q" "skip q = c # r" "c = CHR '','' \<or> c = CHR ''}''"
  shows "parse_members (Suc m) (w @ imember k t @ q) =
    (if c = CHR '','' then map_option (\<lambda>(ms, z). ((utf8_fix k, json_norm v) # ms, z)) (parse_members m r)
     else Some ([(utf8_fix k, json_norm v)], r))"
proof -
  have "parse_value m ([SP] @ t @ q) = Some (json_norm v, q)"
    using assms(3) by (intro iparsesD[OF assms(1) _ _ assms(4)]) (auto simp: json_ws_def imember_def)
  then have pv: "parse_value m (SP # t @ q) = Some (json_norm v, q)" by simp
  have uq: "unq (json_escape k @ CHR 0x22 # CHR '':'' # (SP # t @ q)) = Some (utf8_fix k, CHR '':'' # (SP # t @ q))"
    by (rule unq_json_escape)
  have mm: "imember k t @ q = CHR 0x22 # json_escape k @ CHR 0x22 # CHR '':'' # (SP # t @ q)"
    by (simp add: imember_def quote_def)
  have sk: "skip (w @ imember k t @ q) = CHR 0x22 # json_escape k @ CHR 0x22 # CHR '':'' # (SP # t @ q)"
    using assms(2) by (simp add: mm)
  show ?thesis
    unfolding parse_members.simps sk list.case uq option.case prod.case skip_punct pv assms(5)
    using assms(6) by auto
qed

lemma parse_members_spaced:
  assumes "list_all2 (\<lambda>(k, t) (k', v). k = k' \<and> iparses t v) kts kvs" "kts \<noteq> []" "white w" "white w'"
    and "ends (w' @ CHR ''}'' # r)" "length (spaced w (map (\<lambda>(k, t). imember k t) kts)) < n"
  shows "parse_members n (spaced w (map (\<lambda>(k, t). imember k t) kts) @ w' @ CHR ''}'' # r) = Some (map norm_member kvs, r)"
  using assms
proof (induction kts kvs arbitrary: n rule: list_all2_induct)
  case (Cons kt kts kv kvs)
  obtain k t v where kt: "kt = (k, t)" "kv = (k, v)" and p: "iparses t v" using Cons.hyps(1) by (cases kt; cases kv) auto
  obtain m where n: "n = Suc m" using Cons.prems by (cases n) auto
  let ?ts = "map (\<lambda>(k, t). imember k t) kts"
  show ?case
  proof (cases "kts = []")
    case True
    with Cons have kvs: "kvs = []" by simp
    have l: "length (imember k t) \<le> m" using Cons.prems(5) True n kt by simp
    have "skip (w' @ CHR ''}'' # r) = CHR ''}'' # r" using Cons.prems(3) by simp
    from parse_imember[OF p Cons.prems(2) l Cons.prems(4) this] True n kt kvs show ?thesis by simp
  next
    case False
    then have j: "spaced w (map (\<lambda>(k, t). imember k t) (kt # kts)) = w @ imember k t @ CHR '','' # spaced w ?ts"
      using spaced_Cons[of ?ts w "imember k t"] kt by simp
    let ?rest = "spaced w ?ts @ w' @ CHR ''}'' # r"
    have l: "length (imember k t) \<le> m" using Cons.prems(5) n unfolding j by simp
    have pm: "parse_members m ?rest = Some (map norm_member kvs, r)"
      using Cons.prems n False unfolding j by (intro Cons.IH) auto
    have s: "spaced w (map (\<lambda>(k, t). imember k t) (kt # kts)) @ w' @ CHR ''}'' # r = w @ imember k t @ CHR '','' # ?rest"
      unfolding j by simp
    have sk: "skip (CHR '','' # ?rest) = CHR '','' # ?rest" by (rule skip_punct)
    show ?thesis
      unfolding s n parse_imember[OF p Cons.prems(2) l ends_simps(2) sk disjI1[OF refl]] pm by (simp add: kt)
  qed
qed simp

section \<open>The round trip\<close>

definition margin :: "nat \<Rightarrow> string" where "margin n = NL # replicate (2 * n) SP"

lemma margin_white [simp]: "white (margin n)"
  by (simp add: margin_def json_ws_def list_all_iff)

lemma margin_ends [simp]: "ends (margin n @ r)" by (simp add: margin_def)

lemma indent_arr: "vs \<noteq> [] \<Longrightarrow> marshal_indent n (JArr vs) =
    CHR ''['' # spaced (margin (Suc n)) (map (marshal_indent (Suc n)) vs) @ margin n @ '']''"
  by (simp add: margin_def comp_def)

lemma indent_obj: "ms \<noteq> [] \<Longrightarrow> marshal_indent n (JObj ms) =
    CHR ''{'' # spaced (margin (Suc n)) (map (\<lambda>(k, t). imember k t) (map (\<lambda>(k, v). (k, marshal_indent (Suc n) v)) ms))
      @ margin n @ ''}''"
  by (simp add: margin_def imember_def comp_def split_def)

lemma parse_bracket: "white w \<Longrightarrow> x \<noteq> CHR '']'' \<Longrightarrow> \<not> json_ws x \<Longrightarrow> parse_value (Suc m) (CHR ''['' # w @ x # t) =
    map_option (\<lambda>(vs, r). (JArr vs, r)) (parse_elems m (w @ x # t))"
  by (simp add: parse_open)

lemma indent_head: "json_wf v \<Longrightarrow> \<exists>c t. marshal_indent n v = c # t \<and> \<not> json_ws c \<and> c \<noteq> CHR '']'' \<and> c \<noteq> CHR ''}''"
  using marshal_head[of v] by (cases v) (auto simp: json_ws_def)

lemma spaced_head: "ts \<noteq> [] \<Longrightarrow> hd ts = c # t \<Longrightarrow> \<exists>u. spaced w ts = w @ c # u"
  by (cases ts; cases "tl ts") auto

lemma iparses_indent: "json_wf v \<Longrightarrow> iparses (marshal_indent n v) v"
proof (induction v arbitrary: n)
  case JNull
  show ?case by (rule iparsesI) (simp_all only: marshal_indent.simps marshal.simps json_norm.simps parse_words, simp)
next
  case (JBool b)
  show ?case
    by (cases b; rule iparsesI)
      (simp_all only: marshal_indent.simps marshal.simps json_norm.simps parse_words if_True if_False, simp_all)
next
  case (JNum x)
  then have "num_ok x" "list_all num_char x" "x \<noteq> []" by (auto simp: num_ok_def)
  then show ?case by (intro iparsesI) (simp_all only: marshal_indent.simps marshal.simps json_norm.simps parse_num_ends, simp)
next
  case (JStr s)
  show ?case by (rule iparsesI) (simp_all add: quote_def parse_open unq_json_escape)
next
  case (JArr vs)
  show ?case
  proof (cases vs)
    case Nil
    then show ?thesis by (intro iparsesI) (simp_all add: parse_open)
  next
    case (Cons v ws)
    then have ne: "vs \<noteq> []" by simp
    let ?w = "margin (Suc n)" and ?ts = "map (marshal_indent (Suc n)) vs"
    have "json_wf v" using JArr.prems Cons by simp
    then obtain c t where c: "marshal_indent (Suc n) v = c # t" "\<not> json_ws c" "c \<noteq> CHR '']''" using indent_head by blast
    obtain u where u: "spaced ?w ?ts = ?w @ c # u" using spaced_head[of ?ts c t ?w] c(1) Cons by auto
    have l2: "list_all2 iparses ?ts vs"
      using JArr by (auto simp: list_all2_conv_all_nth list_all_iff)
    show ?thesis
    proof (rule iparsesI)
      fix m r
      assume l: "length (marshal_indent n (JArr vs)) \<le> Suc m" and "ends r"
      have "length (spaced ?w ?ts) < m" using l unfolding indent_arr[OF ne] by simp
      from parse_elems_spaced[OF l2 _ margin_white margin_white margin_ends this, where r = r]
      have pe: "parse_elems m (spaced ?w ?ts @ margin n @ CHR '']'' # r) = Some (map json_norm vs, r)" using ne by simp
      have e: "marshal_indent n (JArr vs) @ r = CHR ''['' # spaced ?w ?ts @ margin n @ CHR '']'' # r"
        unfolding indent_arr[OF ne] by simp
      have "\<not> has_prefix '']'' (skip (spaced ?w ?ts @ margin n @ CHR '']'' # r))"
        unfolding u using c by simp
      then show "parse_value (Suc m) (marshal_indent n (JArr vs) @ r) = Some (json_norm (JArr vs), r)"
        unfolding e by (simp only: parse_open pe if_False option.map prod.case json_norm.simps)
    qed (simp add: indent_arr[OF ne])
  qed
next
  case (JObj ms)
  show ?case
  proof (cases ms)
    case Nil
    then show ?thesis by (intro iparsesI) (simp_all add: parse_open)
  next
    case (Cons kv ws)
    then have ne: "ms \<noteq> []" by simp
    let ?w = "margin (Suc n)" and ?kts = "map (\<lambda>(k, v). (k, marshal_indent (Suc n) v)) ms"
    let ?ts = "map (\<lambda>(k, t). imember k t) ?kts"
    obtain t where "hd ?ts = CHR 0x22 # t" using Cons by (cases kv) (auto simp: imember_def quote_def)
    then obtain u where u: "spaced ?w ?ts = ?w @ CHR 0x22 # u" using spaced_head[of ?ts _ _ ?w] ne by auto
    have "iparses (marshal_indent (Suc n) v) v" if "(k, v) \<in> set ms" for k v
      using JObj that by (fastforce simp: list_all_iff)
    then have l2: "list_all2 (\<lambda>(k, t) (k', v). k = k' \<and> iparses t v) ?kts ms"
      by (auto simp: list_all2_conv_all_nth split: prod.splits) (metis nth_mem)
    show ?thesis
    proof (rule iparsesI)
      fix m r
      assume l: "length (marshal_indent n (JObj ms)) \<le> Suc m" and "ends r"
      have "length (spaced ?w ?ts) < m" using l unfolding indent_obj[OF ne] by simp
      from parse_members_spaced[OF l2 _ margin_white margin_white margin_ends this, where r = r]
      have pe: "parse_members m (spaced ?w ?ts @ margin n @ CHR ''}'' # r) = Some (map norm_member ms, r)" using ne by simp
      have e: "marshal_indent n (JObj ms) @ r = CHR ''{'' # spaced ?w ?ts @ margin n @ CHR ''}'' # r"
        unfolding indent_obj[OF ne] by simp
      have "\<not> has_prefix ''}'' (skip (spaced ?w ?ts @ margin n @ CHR ''}'' # r))" unfolding u by simp
      then show "parse_value (Suc m) (marshal_indent n (JObj ms) @ r) = Some (json_norm (JObj ms), r)"
        unfolding e by (simp only: parse_open pe if_False option.map prod.case json_norm.simps)
    qed (simp add: indent_obj[OF ne])
  qed
qed

theorem unmarshal_indent: "json_wf v \<Longrightarrow> unmarshal (marshal_indent n v) = Some (json_norm v)"
  using iparsesD[OF iparses_indent[of v n], of "[]" "Suc (length (marshal_indent n v))" "[]"] by (simp add: unmarshal_def)

end
