(* ===== verification/FleetLog.thy ===== *)
theory FleetLog
  imports Observe GoIndent
begin

text \<open>
  The store on disk: what is saved is loaded again, and the log of a node in the file is the last twenty
  of all the notes it got, however often the file is read and written in between.
\<close>

section \<open>Saved and loaded\<close>

definition utf8 :: "string \<Rightarrow> bool" where "utf8 s \<longleftrightarrow> utf8_fix s = s"

lemma utf8_ascii: "is_ascii s \<Longrightarrow> utf8 s" by (simp add: utf8_def utf8_fix_ascii)

definition note_ok :: "node_note \<Rightarrow> bool" where "note_ok n \<longleftrightarrow> utf8 (nt_text n) \<and> utf8 (nt_ts n)"

definition memory_ok :: "memory \<Rightarrow> bool" where
  "memory_ok m \<longleftrightarrow> utf8 (me_name m) \<and> utf8 (me_role m) \<and> utf8 (me_updated m) \<and>
     list_all utf8 (me_services m) \<and> list_all utf8 (me_tags m) \<and> list_all note_ok (me_notes m)"

definition nodes_ok :: "(string \<times> memory) list \<Rightarrow> bool" where
  "nodes_ok ns \<longleftrightarrow> distinct (map fst ns) \<and> list_all (\<lambda>(k, m). utf8 k \<and> memory_ok m) ns"

definition fleet_ok :: "fleet \<Rightarrow> bool" where
  "fleet_ok fl \<longleftrightarrow> nodes_ok (fl_nodes fl) \<and> min_int64 \<le> fl_version fl \<and> fl_version fl \<le> max_int64"

named_theorems json_keys \<comment> \<open>the keys of the document are ASCII and told apart\<close>

lemma keys_ascii [json_keys]:
  "utf8_fix ''name'' = ''name''" "utf8_fix ''role'' = ''role''" "utf8_fix ''services'' = ''services''"
  "utf8_fix ''tags'' = ''tags''" "utf8_fix ''notes'' = ''notes''" "utf8_fix ''updated_at'' = ''updated_at''"
  "utf8_fix ''text'' = ''text''" "utf8_fix ''ts'' = ''ts''" "utf8_fix ''version'' = ''version''" "utf8_fix ''nodes'' = ''nodes''"
  by (simp_all add: utf8_fix_ascii is_ascii_def byte_in_def)

lemma keys_apart [json_keys]:
  "equal_fold ''text'' ''text''" "\<not> equal_fold ''ts'' ''text''" "equal_fold ''ts'' ''ts''"
  "equal_fold ''name'' ''name''" "\<not> equal_fold ''role'' ''name''" "equal_fold ''role'' ''role''"
  "\<not> equal_fold ''services'' ''name''" "\<not> equal_fold ''services'' ''role''" "equal_fold ''services'' ''services''"
  "\<not> equal_fold ''tags'' ''name''" "\<not> equal_fold ''tags'' ''role''" "\<not> equal_fold ''tags'' ''services''"
  "equal_fold ''tags'' ''tags''" "\<not> equal_fold ''notes'' ''name''" "\<not> equal_fold ''notes'' ''role''"
  "\<not> equal_fold ''notes'' ''services''" "\<not> equal_fold ''notes'' ''tags''" "equal_fold ''notes'' ''notes''"
  "\<not> equal_fold ''updated_at'' ''name''" "\<not> equal_fold ''updated_at'' ''role''" "\<not> equal_fold ''updated_at'' ''services''"
  "\<not> equal_fold ''updated_at'' ''tags''" "\<not> equal_fold ''updated_at'' ''notes''" "equal_fold ''updated_at'' ''updated_at''"
  "equal_fold ''version'' ''version''" "\<not> equal_fold ''updated_at'' ''version''" "\<not> equal_fold ''nodes'' ''version''"
  "\<not> equal_fold ''nodes'' ''updated_at''" "equal_fold ''nodes'' ''nodes''"
  by code_simp+

subsection \<open>Writing\<close>

lemma norm_texts: "list_all utf8 vs \<Longrightarrow> map (json_norm \<circ> JStr) vs = map JStr vs"
  by (induction vs) (auto simp: utf8_def)

lemma norm_note: "note_ok n \<Longrightarrow> json_norm (note_json n) = note_json n"
  by (simp add: note_json_def note_ok_def utf8_def json_keys)

lemma norm_notes: "list_all note_ok ns \<Longrightarrow> map (json_norm \<circ> note_json) ns = map note_json ns"
  by (induction ns) (auto simp: norm_note)

lemma norm_memory: "memory_ok m \<Longrightarrow> json_norm (memory_json m) = memory_json m"
  by (simp add: memory_json_def memory_ok_def omit_empty_def omit_texts_def norm_texts norm_notes utf8_def json_keys)

lemma norm_nodes: "list_all (\<lambda>(k, m). utf8 k \<and> memory_ok m) ns \<Longrightarrow> json_norm (nodes_json ns) = nodes_json ns"
proof -
  assume a: "list_all (\<lambda>(k, m). utf8 k \<and> memory_ok m) ns"
  have "\<forall>kv \<in> set (sort_key fst (map (\<lambda>(k, m). (k, memory_json m)) ns)). norm_member kv = kv"
    using a norm_memory by (auto simp: list_all_iff utf8_def)
  then have "map norm_member (sort_key fst (map (\<lambda>(k, m). (k, memory_json m)) ns))
      = sort_key fst (map (\<lambda>(k, m). (k, memory_json m)) ns)" by (intro map_idI) blast
  then show ?thesis by (simp only: nodes_json_def json_map_def json_norm.simps)
qed

lemma wf_memory [simp]: "json_wf (memory_json m)"
  by (auto simp: memory_json_def omit_empty_def omit_texts_def note_json_def list_all_iff)

lemma wf_nodes [simp]: "json_wf (nodes_json ns)"
  by (auto simp: nodes_json_def json_wf_map list_all_iff)

lemma norm_int [simp]: "json_norm (json_int i) = json_int i" by (simp add: json_int_def)

lemma norm_fleet: "nodes_ok (fl_nodes fl) \<Longrightarrow> utf8 (fl_updated fl) \<Longrightarrow> json_norm (fleet_json fl) = fleet_json fl"
  by (simp add: fleet_json_def norm_nodes nodes_ok_def utf8_def json_keys)

subsection \<open>Reading\<close>

lemma read_note: "struct_of set_note z (note_json n) = Some n"
  by (simp add: struct_of_def note_json_def set_note_def text_field_def json_keys)

lemma all_some_texts: "all_some (map (text_value \<circ> JStr) vs) = Some vs"
  by (induction vs) (auto simp: text_value_def)

lemma all_some_notes: "all_some (map (struct_of set_note z \<circ> note_json) ns) = Some ns"
  by (induction ns) (auto simp: read_note)

lemma read_memory: "struct_of set_memory memory_zero (memory_json m) = Some m"
  by (simp add: struct_of_def memory_json_def set_memory_def text_field_def list_field_def omit_empty_def omit_texts_def
      all_some_texts all_some_notes memory_zero_def json_keys)

lemma overlay_distinct: "distinct (map name xs) \<Longrightarrow> overlay name xs [] = xs"
proof -
  assume d: "distinct (map name xs)"
  have "map_of (rev (map (\<lambda>x. (name x, x)) xs)) (name x) = Some x" if "x \<in> set xs" for x
    using d that by (intro map_of_is_SomeI) (simp_all add: comp_def rev_map[symmetric])
  moreover have "dedup_seen seen ys = ys" if "distinct ys" "set ys \<inter> set seen = {}" for seen ys :: "string list"
    using that by (induction seen ys rule: dedup_seen.induct) auto
  ultimately show ?thesis using d by (simp add: overlay_def Let_def map_idI comp_def)
qed

lemma distinct_sort_key: "distinct (map fst ns) \<Longrightarrow> distinct (map fst (sort_key fst ns))"
  by (metis distinct_map distinct_sort set_sort)

lemma sort_key_map_snd: "sort_key fst (map (\<lambda>(k, m). (k, g m)) ns) = map (\<lambda>(k, m). (k, g m)) (sort_key fst ns)"
proof -
  have i: "insort_key fst (k, g m) (map (\<lambda>(k, m). (k, g m)) xs) = map (\<lambda>(k, m). (k, g m)) (insort_key fst (k, m) xs)" for k m xs
    by (induction xs) auto
  show ?thesis by (induction ns) (auto simp: i)
qed

lemma read_nodes:
  assumes "distinct (map fst ns)"
  shows "map_of_json (struct_of set_memory memory_zero) (nodes_json ns) = Some (sort_key fst ns)"
proof -
  let ?ms = "map (\<lambda>(k, m). (k, memory_json m)) (sort_key fst ns)"
  have a: "all_some (map (\<lambda>(_, x). struct_of set_memory memory_zero x) ?ms) = Some (map snd (sort_key fst ns))"
    by (induction "sort_key fst ns" rule: list.induct) (auto simp: read_memory comp_def split_def intro: all_some_map)
  have z: "zip (map fst ?ms) (map snd (sort_key fst ns)) = sort_key fst ns"
    by (simp add: comp_def split_def zip_map_fst_snd)
  show ?thesis
    using distinct_sort_key[OF assms]
    by (simp only: map_of_json_def nodes_json_def json_map_def sort_key_map_snd json.case a option.map z overlay_distinct)
qed

lemma read_fleet:
  assumes "nodes_ok (fl_nodes fl)" "min_int64 \<le> fl_version fl" "fl_version fl \<le> max_int64"
  shows "struct_of set_fleet fleet_new (fleet_json fl) = Some (fl\<lparr>fl_nodes := sort_key fst (fl_nodes fl)\<rparr>)"
proof -
  have n: "nodes_json ns \<noteq> JNull" for ns by (simp add: nodes_json_def json_map_def)
  have d: "distinct (map fst (sort_key fst (fl_nodes fl)))" using assms(1) by (simp add: nodes_ok_def distinct_sort_key)
  have o: "overlay fst [] xs = overlay fst xs []" for xs :: "(string \<times> memory) list" by (simp add: overlay_def)
  have r: "map_of_json (struct_of set_memory memory_zero) (nodes_json (fl_nodes fl)) = Some (sort_key fst (fl_nodes fl))"
    using assms(1) by (simp add: read_nodes nodes_ok_def)
  show ?thesis
    using go_atoi_show_int[OF assms(2,3)]
    by (simp add: struct_of_def fleet_json_def set_fleet_def num_field_def json_int_def text_field_def json_keys n r o
        overlay_distinct[OF d] fleet_new_def)
qed

definition stored :: "string \<Rightarrow> fleet \<Rightarrow> fleet" where
  "stored now fl = fl\<lparr>fl_version := or_one (fl_version fl), fl_updated := now, fl_nodes := sort_key fst (fl_nodes fl)\<rparr>"

text \<open>What is saved is loaded again, with the nodes in the order of their names.\<close>
lemma load_saved:
  assumes "fleet_ok fl" "utf8 now" "SaveFleet now home fl f = (None, f')" "fs_rderr f (MemoryPath home) = None"
  shows "LoadFleet home f' = Inr (stored now fl)"
proof -
  let ?fl = "fl\<lparr>fl_version := or_one (fl_version fl), fl_updated := now\<rparr>"
  have f': "f' = put_file (MemoryPath home) (marshal_indent 0 (fleet_json ?fl)) f"
    using assms(3) by (auto simp: SaveFleet_def write_file_def split: option.splits)
  have rd: "read_file f' (MemoryPath home) = Inr (marshal_indent 0 (fleet_json ?fl))"
    using assms(4) by (simp add: f' fs_simps)
  have ok: "nodes_ok (fl_nodes ?fl)" "min_int64 \<le> fl_version ?fl" "fl_version ?fl \<le> max_int64" "utf8 (fl_updated ?fl)"
    using assms(1,2) by (auto simp: fleet_ok_def or_one_def max_int64_def min_int64_def)
  have "json_wf (fleet_json ?fl)" by (simp add: fleet_json_def)
  then have u: "unmarshal (marshal_indent 0 (fleet_json ?fl)) = Some (fleet_json ?fl)"
    using norm_fleet[OF ok(1,4)] by (simp add: unmarshal_indent)
  have "or_one (or_one i) = or_one i" for i by (simp add: or_one_def)
  then show ?thesis unfolding LoadFleet_def rd using read_fleet[OF ok(1-3)] u by (simp add: stored_def)
qed

section \<open>The log in the file\<close>

text \<open>Each operation loads the store, changes it and saves it.\<close>
fun op_time :: "memory_op \<Rightarrow> string" where
  "op_time (Noted now n t) = now"
| "op_time (AutoNoted now n command out) = now"
| "op_time (Edited now n role services tags) = now"

definition file_step :: "floats \<Rightarrow> string \<Rightarrow> memory_op \<Rightarrow> fs \<Rightarrow> fs" where
  "file_step fp home op f =
     (case LoadFleet home f of Inl _ \<Rightarrow> f | Inr fl \<Rightarrow> snd (SaveFleet (op_time op) home (memory_step fp op fl) f))"

text \<open>The texts that get into the store are UTF-8.\<close>
fun op_ok :: "floats \<Rightarrow> memory_op \<Rightarrow> bool" where
  "op_ok fp (Noted now n t) = (utf8 now \<and> utf8 n \<and> utf8 t)"
| "op_ok fp (AutoNoted now n command out) = (utf8 now \<and> utf8 n \<and> list_all utf8 (ExtractNotes fp command out))"
| "op_ok fp (Edited now n role services tags) =
     (utf8 now \<and> utf8 n \<and> utf8 role \<and> list_all utf8 (normalize_texts services) \<and> list_all utf8 (normalize_texts tags))"

lemma put_entry_keys: "map fst (put_entry k v xs) = (if k \<in> set (map fst xs) then map fst xs else map fst xs @ [k])"
  by (auto simp: put_entry_def comp_def split_def intro!: map_cong)

lemma put_entry_set: "kv \<in> set (put_entry k v xs) \<Longrightarrow> kv = (k, v) \<or> kv \<in> set xs"
  by (auto simp: put_entry_def split: if_splits)

lemma put_entry_ok: "nodes_ok ns \<Longrightarrow> utf8 k \<Longrightarrow> memory_ok m \<Longrightarrow> nodes_ok (put_entry k m ns)"
proof -
  assume a: "nodes_ok ns" "utf8 k" "memory_ok m"
  have "distinct (map fst (put_entry k m ns))" unfolding put_entry_keys using a(1) by (simp add: nodes_ok_def)
  moreover have "\<forall>kv \<in> set (put_entry k m ns). case kv of (k, m) \<Rightarrow> utf8 k \<and> memory_ok m"
    using a put_entry_set[of _ k m ns] by (fastforce simp: nodes_ok_def list_all_iff)
  ultimately show ?thesis by (simp add: nodes_ok_def list_all_iff)
qed

lemma get_ok: "nodes_ok (fl_nodes fl) \<Longrightarrow> GetNode fl n = Some m \<Longrightarrow> memory_ok m"
  by (auto simp: nodes_ok_def list_all_iff GetNode_def dest!: map_of_SomeD)

lemma zero_ok [simp]: "memory_ok memory_zero" by (simp add: memory_ok_def memory_zero_def utf8_def)

lemma last_notes_ok: "list_all note_ok ns \<Longrightarrow> list_all note_ok (last_notes ns)"
  by (auto simp: last_notes_def list_all_iff dest: in_set_dropD)

lemma fleet_okI: "nodes_ok (fl_nodes fl) \<Longrightarrow> fl_version fl = fl_version fl0 \<Longrightarrow> fleet_ok fl0 \<Longrightarrow> fleet_ok fl"
  by (simp add: fleet_ok_def)

lemma AddNote_ok: "fleet_ok fl \<Longrightarrow> utf8 now \<Longrightarrow> utf8 n \<Longrightarrow> utf8 t \<Longrightarrow> fleet_ok (AddNote now n t fl)"
proof (rule fleet_okI)
  assume f: "fleet_ok fl" and u: "utf8 now" "utf8 n" "utf8 t"
  have m: "memory_ok (case GetNode fl n of Some m \<Rightarrow> m | None \<Rightarrow> memory_zero)"
    using f get_ok[of fl n] by (auto simp: fleet_ok_def split: option.splits)
  show "nodes_ok (fl_nodes (AddNote now n t fl))"
    using f u m by (auto simp: AddNote_def Let_def fleet_ok_def memory_ok_def note_ok_def
        intro!: put_entry_ok last_notes_ok)
qed (simp add: AddNote_def Let_def)

lemma AddNotes_ok: "fleet_ok fl \<Longrightarrow> utf8 now \<Longrightarrow> utf8 n \<Longrightarrow> list_all utf8 ts \<Longrightarrow> fleet_ok (fold (AddNote now n) ts fl)"
  by (induction ts arbitrary: fl) (auto intro: AddNote_ok)

lemma memory_step_ok: "fleet_ok fl \<Longrightarrow> op_ok fp op \<Longrightarrow> fleet_ok (memory_step fp op fl)"
proof (cases op)
  case (Edited now n role services tags)
  assume f: "fleet_ok fl" and o: "op_ok fp op"
  let ?m = "case GetNode fl n of Some m \<Rightarrow> m | None \<Rightarrow> memory_zero"
  have m: "memory_ok ?m" using f get_ok[of fl n] by (auto simp: fleet_ok_def split: option.splits)
  have old: "list_all note_ok (me_notes old)" if "GetNode fl n = Some old" for old
    using f get_ok[of fl n old] that by (simp add: fleet_ok_def memory_ok_def)
  have "nodes_ok (fl_nodes (memory_step fp op fl))"
    using f o m old by (auto simp: memory_step_def Edited SetNode_def Let_def fleet_ok_def memory_ok_def
        intro!: put_entry_ok split: option.splits)
  moreover have "fl_version (memory_step fp op fl) = fl_version fl"
    by (simp add: memory_step_def Edited SetNode_def Let_def)
  ultimately show ?thesis using f by (simp add: fleet_ok_def)
qed (auto simp: memory_step_def AutoNote_def Let_def AddNote_ok AddNotes_ok)

lemma stored_ok: "fleet_ok fl \<Longrightarrow> fleet_ok (stored now fl)"
  using distinct_sort_key[of "fl_nodes fl"]
  by (auto simp: fleet_ok_def stored_def nodes_ok_def list_all_iff or_one_def max_int64_def min_int64_def)

lemma stored_notes: "fleet_ok fl \<Longrightarrow> notes_of (stored now fl) node = notes_of fl node"
proof -
  assume "fleet_ok fl"
  then have d: "distinct (map fst (fl_nodes fl))" by (simp add: fleet_ok_def nodes_ok_def)
  have "map_of (sort_key fst (fl_nodes fl)) = map_of (fl_nodes fl)"
    using d distinct_sort_key[OF d] by (intro map_of_inject_set[THEN iffD2]) auto
  then show ?thesis by (simp add: notes_of_def GetNode_def stored_def)
qed

lemma op_time_utf8: "op_ok fp op \<Longrightarrow> utf8 (op_time op)" by (cases op) auto

text \<open>C26: The notes of a node in the file are the last twenty of all it ever got, in order, although every
  operation reads the file and writes it anew.\<close>
theorem notes_on_disk:
  assumes "LoadFleet home f = Inr fl" "fleet_ok fl" "length (notes_of fl node) \<le> maxNotes" "list_all (op_ok fp) ops"
    and "fs_rderr f (MemoryPath home) = None" "fs_wrerr f (MemoryPath home) = None"
  shows "\<exists>fl'. LoadFleet home (fold (file_step fp home) ops f) = Inr fl' \<and>
    notes_of fl' node = last_notes (notes_of fl node @ concat (map (history fp node) ops))"
  using assms
proof (induction ops arbitrary: f fl)
  case (Cons op ops)
  let ?fl = "memory_step fp op fl" and ?t = "op_time op"
  have ok: "fleet_ok ?fl" using Cons.prems by (simp add: memory_step_ok)
  have u: "utf8 ?t" using Cons.prems(4) op_time_utf8[of fp op] by simp
  obtain f' where s: "SaveFleet ?t home ?fl f = (None, f')" using Cons.prems(6) by (simp add: SaveFleet_def fs_simps)
  then have step: "file_step fp home op f = f'" using Cons.prems(1) by (simp add: file_step_def)
  have e: "fs_rderr f' = fs_rderr f" "fs_wrerr f' = fs_wrerr f"
    using s Cons.prems(6) by (auto simp: SaveFleet_def fs_simps)
  note n = memory_step_notes[OF Cons.prems(3), of fp op]
  have l: "notes_of (stored ?t ?fl) node = last_notes (notes_of fl node @ history fp node op)"
    using ok n by (simp add: stored_notes)
  have "\<exists>fl'. LoadFleet home (fold (file_step fp home) ops f') = Inr fl' \<and>
      notes_of fl' node = last_notes (notes_of (stored ?t ?fl) node @ concat (map (history fp node) ops))"
    using Cons.prems ok l e by (intro Cons.IH load_saved[OF ok u s]) (auto simp: stored_ok)
  then show ?case unfolding step fold.simps comp_apply l by simp
qed simp

definition no_floats :: floats where
  "no_floats = \<lparr>fl_over = (\<lambda>_ _ _. False), fl_parses = (\<lambda>_. False), fl_fixed = id, fl_short = id, fl_positive = (\<lambda>_. False)\<rparr>"

lemma notes_on_disk_witness:
  "\<exists>fl. LoadFleet ''/root'' (fold (file_step no_floats ''/root'') (replicate 30 (Noted ''now'' ''d1'' ''up'')) empty_fs) = Inr fl \<and>
     length (notes_of fl ''d1'') = 20"
proof -
  have l: "LoadFleet ''/root'' empty_fs = Inr fleet_new"
    by (simp add: LoadFleet_def read_file_def empty_fs_def)
  have o: "fleet_ok fleet_new" by (simp add: fleet_ok_def fleet_new_def nodes_ok_def max_int64_def min_int64_def)
  have n: "notes_of fleet_new ''d1'' = []" by (simp add: notes_of_def GetNode_def fleet_new_def)
  have u: "utf8 ''now''" "utf8 ''d1''" "utf8 ''up''" by (simp_all add: utf8_ascii is_ascii_def byte_in_def)
  have k: "list_all (op_ok no_floats) (replicate 30 (Noted ''now'' ''d1'' ''up''))" using u by (simp add: list_all_iff)
  have "length (concat (map (history no_floats ''d1'') (replicate 30 (Noted ''now'' ''d1'' ''up'')))) = 30"
    by (simp add: length_concat sum_list_replicate)
  then show ?thesis using notes_on_disk[OF l o _ k, of "''d1''"] n
    by (fastforce simp: last_notes_drop maxNotes_def empty_fs_def)
qed

end
