(* ===== verification/Workflow.thy ===== *)
theory Workflow
  imports GoStruct GoFiles Identity
begin

text \<open>
  \<^verbatim>\<open>internal/workflow\<close>: plans of steps with failure handling (\<^verbatim>\<open>engine.go\<close>), the plans that
  ship with the program (\<^verbatim>\<open>builtin.go\<close>) and their storage (\<^verbatim>\<open>store.go\<close>).  The command runner is
  an argument with a state of its own, so a run is a function of the plan, the parameters and what the
  commands do.  A Go map is iterated in an unspecified order: the parameters are a list of pairs in
  the order of that iteration.
\<close>

section \<open>Plans and their results\<close>

record step =
  ws_id :: string
  ws_cmd :: string
  ws_type :: string
  ws_on_fail :: string

record workflow =
  wf_name :: string
  wf_desc :: string
  wf_params :: "string list"
  wf_steps :: "step list"

record step_result =
  sr_id :: string
  sr_cmd :: string
  sr_type :: string
  sr_stdout :: string
  sr_stderr :: string
  sr_exit :: int
  sr_success :: bool
  sr_error :: string
  sr_action :: string
  sr_skipped :: bool

definition result_zero :: step_result where
  "result_zero = \<lparr>sr_id = '''', sr_cmd = '''', sr_type = '''', sr_stdout = '''', sr_stderr = '''', sr_exit = 0,
     sr_success = False, sr_error = '''', sr_action = '''', sr_skipped = False\<rparr>"

record run_result =
  rr_id :: string
  rr_workflow :: string
  rr_target :: string
  rr_params :: "(string \<times> string) list"
  rr_status :: string
  rr_steps :: "step_result list"
  rr_summary :: string
  rr_started :: string
  rr_ended :: string
  rr_dry :: bool

text \<open>Standard output, standard error, exit code, success, and the text of the error.\<close>
type_synonym 'st runner = "string \<Rightarrow> 'st \<Rightarrow> (string \<times> string \<times> int \<times> bool \<times> string option) \<times> 'st"

section \<open>Running\<close>

definition param_of :: "(string \<times> string) list \<Rightarrow> string \<Rightarrow> string" where
  "param_of ps k = (case map_of ps k of None \<Rightarrow> '''' | Some v \<Rightarrow> v)"

text \<open>The first declared parameter without a value.\<close>
definition Validate :: "workflow \<Rightarrow> (string \<times> string) list \<Rightarrow> string option" where
  "Validate w ps =
     (case find (\<lambda>p. trim_space (param_of ps p) = '''') (wf_params w) of
        None \<Rightarrow> None | Some p \<Rightarrow> Some (''missing required param '' @ go_quote p))"

definition fillParams :: "string \<Rightarrow> (string \<times> string) list \<Rightarrow> string" where
  "fillParams cmd ps =
     trim_space (foldl (\<lambda>c (k, v). replace_all (''{{'' @ k @ ''}}'') v c) cmd ps)"

text \<open>The index of an id: of two steps with one id the later one.\<close>
definition step_index :: "step list \<Rightarrow> string \<Rightarrow> nat option" where
  "step_index steps k = map_of (rev (map (\<lambda>i. (ws_id (steps ! i), i)) [0..<length steps])) k"

text \<open>What a failed step does: the note, the new status and the next index.\<close>
definition on_failure :: "step list \<Rightarrow> nat \<Rightarrow> string \<Rightarrow> string \<Rightarrow> string \<times> string \<times> nat" where
  "on_failure steps i on_fail status =
     (let policy = trim_space on_fail in
      if policy = '''' \<or> policy = ''continue'' then (''continued'', status, Suc i)
      else if policy = ''abort'' then (''aborted'', ''aborted'', length steps)
      else (case step_index steps policy of
          Some j \<Rightarrow> (''jumped:'' @ policy, if status = ''success'' then ''failed'' else status, j)
        | None \<Rightarrow> (''aborted (unknown on_fail target)'', ''aborted'', length steps)))"

text \<open>One step: its result, the status and the next index.\<close>
definition run_step ::
  "'st runner \<Rightarrow> bool \<Rightarrow> (string \<times> string) list \<Rightarrow> step list \<Rightarrow> nat \<Rightarrow> string \<Rightarrow> 'st \<Rightarrow> (step_result \<times> string \<times> nat) \<times> 'st" where
  "run_step exec dry ps steps i status st =
     (let s = steps ! i; cmd = fillParams (ws_cmd s) ps in
      if ws_type s = ''summary''
      then ((result_zero\<lparr>sr_id := ws_id s, sr_type := ''summary'', sr_success := True\<rparr>, status, Suc i), st)
      else if dry
      then ((result_zero\<lparr>sr_id := ws_id s, sr_cmd := cmd, sr_type := ''exec'', sr_skipped := True, sr_action := ''dry-run''\<rparr>,
             status, Suc i), st)
      else
        (case exec cmd st of ((out, err, code, ok, er), st') \<Rightarrow>
          let r = \<lparr>sr_id = ws_id s, sr_cmd = cmd, sr_type = ''exec'', sr_stdout = out, sr_stderr = err, sr_exit = code,
                   sr_success = ok, sr_error = (case er of None \<Rightarrow> '''' | Some t \<Rightarrow> t), sr_action = '''', sr_skipped = False\<rparr>
          in if ok then ((r, status, Suc i), st')
             else (case on_failure steps i (ws_on_fail s) status of
                 (act, status', j) \<Rightarrow> ((r\<lparr>sr_action := act\<rparr>, status', j), st'))))"

text \<open>The loop; the fuel counts the hops that are left.\<close>
fun run_loop ::
  "'st runner \<Rightarrow> bool \<Rightarrow> (string \<times> string) list \<Rightarrow> step list \<Rightarrow> nat \<Rightarrow> nat \<Rightarrow> string \<Rightarrow> 'st
    \<Rightarrow> (step_result list \<times> string \<times> nat) \<times> 'st" where
  "run_loop exec dry ps steps 0 i status st = (([], status, i), st)"
| "run_loop exec dry ps steps (Suc hops) i status st =
     (if length steps \<le> i then (([], status, i), st)
      else (case run_step exec dry ps steps i status st of
        ((r, status', j), st') \<Rightarrow>
          (case run_loop exec dry ps steps hops j status' st' of
             ((rs, status2, k), st2) \<Rightarrow> ((r # rs, status2, k), st2))))"

definition max_hops :: "step list \<Rightarrow> nat" where "max_hops steps = length steps * 4 + 8"

definition summarize_run :: "run_result \<Rightarrow> string" where
  "summarize_run r =
     (let ran = filter (\<lambda>s. sr_type s \<noteq> ''summary'' \<and> \<not> sr_skipped s) (rr_steps r);
          bad = filter (\<lambda>s. \<not> sr_success s) ran;
          base = ''workflow '' @ rr_workflow r @ '' on '' @ rr_target r @ '': '' @ show_nat (length ran - length bad) @ ''/''
            @ show_nat (length ran) @ '' steps ok, status='' @ rr_status r
      in if rr_dry r
         then ''workflow '' @ rr_workflow r @ '' on '' @ rr_target r @ '': dry-run, '' @ show_nat (length (rr_steps r)) @ '' steps planned''
         else if bad = [] then base else base @ '' (failed: '' @ join '', '' (map sr_id bad) @ '')'')"

text \<open>\<^verbatim>\<open>Run\<close>; the two times are arguments.\<close>
definition Run_workflow ::
  "workflow \<Rightarrow> string \<Rightarrow> string \<Rightarrow> (string \<times> string) list \<Rightarrow> bool \<Rightarrow> 'st runner \<Rightarrow> string \<Rightarrow> string \<Rightarrow> 'st \<Rightarrow> run_result \<times> 'st" where
  "Run_workflow w rid target ps dry exec t0 t1 st =
     (case run_loop exec dry ps (wf_steps w) (max_hops (wf_steps w)) 0 ''success'' st of
        ((rs, status, _), st') \<Rightarrow>
          let r = \<lparr>rr_id = rid, rr_workflow = wf_name w, rr_target = target, rr_params = ps, rr_status = status, rr_steps = rs,
                   rr_summary = '''', rr_started = t0, rr_ended = t1, rr_dry = dry\<rparr>
          in (r\<lparr>rr_summary := summarize_run r\<rparr>, st'))"

section \<open>What a run guarantees\<close>

definition tolerated :: "step_result \<Rightarrow> bool" where
  "tolerated r \<longleftrightarrow> sr_success r \<or> sr_skipped r \<or> sr_action r = ''continued''"

lemma on_failure_cases:
  assumes "on_failure steps i f status = (act, status', j)"
  shows "(act = ''continued'' \<and> status' = status \<and> j = Suc i) \<or> (status' = ''aborted'' \<and> j = length steps) \<or>
    (step_index steps (trim_space f) = Some j \<and> status' \<noteq> ''success'')"
  using assms by (auto simp: on_failure_def Let_def split: if_splits option.splits)

lemma run_step_cases:
  assumes "run_step exec dry ps steps i status st = ((r, status', j), st')"
  shows "sr_id r = ws_id (steps ! i) \<and>
    ((tolerated r \<and> status' = status \<and> j = Suc i) \<or> (status' = ''aborted'' \<and> j = length steps) \<or>
     (step_index steps (trim_space (ws_on_fail (steps ! i))) = Some j \<and> status' \<noteq> ''success''))"
  using assms
  by (auto simp: run_step_def Let_def result_zero_def tolerated_def split: if_splits prod.splits dest!: on_failure_cases)

text \<open>A status that is not success stays so.\<close>
lemma run_loop_failed:
  "run_loop exec dry ps steps h i status st = ((rs, status', k), st') \<Longrightarrow> status' = ''success'' \<Longrightarrow> status = ''success''"
proof (induction h arbitrary: i status st rs)
  case (Suc h)
  show ?case
  proof (cases "length steps \<le> i")
    case True
    with Suc.prems show ?thesis by simp
  next
    case False
    then obtain r status1 j st1 rs1 where s: "run_step exec dry ps steps i status st = ((r, status1, j), st1)"
      and l: "run_loop exec dry ps steps h j status1 st1 = ((rs1, status', k), st')"
      using Suc.prems(1) by (auto split: prod.splits)
    from Suc.IH[OF l Suc.prems(2)] have "status1 = ''success''" .
    then show ?thesis using run_step_cases[OF s] by auto
  qed
qed simp

lemma run_loop_success:
  assumes "run_loop exec dry ps steps h i status st = ((rs, ''success'', k), st')" "i \<le> length steps" "length steps - i \<le> h"
  shows "map sr_id rs = map ws_id (drop i steps) \<and> list_all tolerated rs \<and> status = ''success''"
  using assms
proof (induction h arbitrary: i status st rs)
  case 0
  then show ?case by simp
next
  case (Suc h)
  show ?case
  proof (cases "length steps \<le> i")
    case True
    with Suc.prems show ?thesis by simp
  next
    case False
    obtain r status1 j st1 rs1 where s: "run_step exec dry ps steps i status st = ((r, status1, j), st1)"
      and l: "run_loop exec dry ps steps h j status1 st1 = ((rs1, ''success'', k), st')" and rs: "rs = r # rs1"
      using Suc.prems(1) False by (auto split: prod.splits)
    have n: "status1 = ''success''" using run_loop_failed[OF l] by simp
    from run_step_cases[OF s] consider
        (go) "tolerated r" "status1 = status" "j = Suc i"
      | (abort) "status1 = ''aborted''" "j = length steps"
      | (jump) "step_index steps (trim_space (ws_on_fail (steps ! i))) = Some j" "status1 \<noteq> ''success''" by blast
    then show ?thesis
    proof cases
      case go
      with Suc.IH[OF l] False Suc.prems(3) run_step_cases[OF s] show ?thesis
        by (simp add: rs Cons_nth_drop_Suc[symmetric])
    next
      case abort
      with n show ?thesis by simp
    next
      case jump
      with n show ?thesis by simp
    qed
  qed
qed

text \<open>C38: A run that reports success has done every step of the plan exactly once, in the order of the
  plan, and each of them succeeded, was only planned, or failed with leave to; so a run that jumped,
  was aborted or was cut off by the bound on hops never reports success.\<close>
theorem successful_run_is_complete:
  assumes "Run_workflow w rid target ps dry exec t0 t1 st = (r, st')" "rr_status r = ''success''"
  shows "map sr_id (rr_steps r) = map ws_id (wf_steps w) \<and> list_all tolerated (rr_steps r)"
proof -
  obtain rs k st2 where l: "run_loop exec dry ps (wf_steps w) (max_hops (wf_steps w)) 0 ''success'' st = ((rs, ''success'', k), st2)"
    "rr_steps r = rs"
    using assms by (auto simp: Run_workflow_def Let_def split: prod.splits)
  show ?thesis using run_loop_success[OF l(1)] l(2) by (simp add: max_hops_def)
qed

definition demo_plan :: workflow where
  "demo_plan = \<lparr>wf_name = ''p'', wf_desc = '''', wf_params = [], wf_steps =
     [\<lparr>ws_id = ''a'', ws_cmd = ''x'', ws_type = '''', ws_on_fail = ''continue''\<rparr>,
      \<lparr>ws_id = ''b'', ws_cmd = ''y'', ws_type = '''', ws_on_fail = ''c''\<rparr>,
      \<lparr>ws_id = ''c'', ws_cmd = '''', ws_type = ''summary'', ws_on_fail = ''''\<rparr>]\<rparr>"

text \<open>The first command fails, the others do not.\<close>
definition demo_runner :: "unit runner" where
  "demo_runner c st = (('''', '''', if c = ''x'' then 1 else 0, c \<noteq> ''x'', None), st)"

lemma successful_run_is_complete_witness:
  "map sr_id (rr_steps (fst (Run_workflow demo_plan ''r'' ''n'' [] False demo_runner ''0'' ''1'' ()))) = [''a'', ''b'', ''c'']"
proof -
  let ?r = "Run_workflow demo_plan ''r'' ''n'' [] False demo_runner ''0'' ''1'' ()"
  have st: "rr_status (fst ?r) = ''success''" by code_simp
  have "map sr_id (rr_steps (fst ?r)) = map ws_id (wf_steps demo_plan)"
    using successful_run_is_complete[OF surjective_pairing st] by blast
  then show ?thesis unfolding demo_plan_def by simp
qed

text \<open>Every jump of the plan goes forward.\<close>
definition forward_plan :: "step list \<Rightarrow> bool" where
  "forward_plan steps \<longleftrightarrow>
     (\<forall>i < length steps. case step_index steps (trim_space (ws_on_fail (steps ! i))) of None \<Rightarrow> True | Some j \<Rightarrow> i < j \<and> j \<le> length steps)"

lemma run_loop_forward:
  assumes "forward_plan steps" "i \<le> length steps" "length steps - i \<le> h"
  shows "run_loop exec dry ps steps h i status st = run_loop exec dry ps steps (length steps - i) i status st \<and>
    snd (snd (fst (run_loop exec dry ps steps h i status st))) = length steps"
  using assms(2,3)
proof (induction "length steps - i" arbitrary: i h status st rule: less_induct)
  case less
  show ?case
  proof (cases "length steps \<le> i")
    case True
    with less.prems show ?thesis by (cases h) auto
  next
    case False
    then obtain h1 m where h: "h = Suc h1" "length steps - i = Suc m" using less.prems(2) by (cases h; cases "length steps - i") auto
    obtain r status1 j st1 where s: "run_step exec dry ps steps i status st = ((r, status1, j), st1)"
      by (metis surj_pair)
    have j: "i < j" "j \<le> length steps"
      using run_step_cases[OF s] False assms(1)[unfolded forward_plan_def, rule_format, of i] by auto
    then have f: "length steps - j < length steps - i" "length steps - j \<le> h1" "length steps - j \<le> m"
      using False h less.prems(2) by linarith+
    note ih1 = less.hyps[OF f(1) j(2) f(2), of status1 st1] and ih2 = less.hyps[OF f(1) j(2) f(3), of status1 st1]
    have "run_loop exec dry ps steps h1 j status1 st1 = run_loop exec dry ps steps m j status1 st1"
      using ih1 ih2 by simp
    moreover have "snd (snd (fst (run_loop exec dry ps steps h1 j status1 st1))) = length steps" by (rule ih1[THEN conjunct2])
    ultimately show ?thesis using False unfolding h by (auto simp: s split: prod.split)
  qed
qed

text \<open>C39: A plan without backward jumps ends by itself: the loop comes to the end of the plan within as
  many hops as there are steps, so the bound on hops changes nothing; with any larger number of hops
  the run is the same.\<close>
theorem forward_plan_ends:
  assumes "forward_plan steps"
  shows "snd (snd (fst (run_loop exec dry ps steps (max_hops steps) 0 ''success'' st))) = length steps \<and>
    length (fst (fst (run_loop exec dry ps steps (max_hops steps) 0 ''success'' st))) \<le> length steps \<and>
    (\<forall>h. length steps \<le> h \<longrightarrow>
       run_loop exec dry ps steps h 0 ''success'' st = run_loop exec dry ps steps (max_hops steps) 0 ''success'' st)"
proof -
  have n: "length (fst (fst (run_loop exec dry ps steps h i status st))) \<le> h" for h i status st
  proof (induction h arbitrary: i status st)
    case (Suc h)
    show ?case
    proof (cases "length steps \<le> i")
      case False
      obtain r s1 j st1 where s: "run_step exec dry ps steps i status st = ((r, s1, j), st1)" by (metis surj_pair)
      with False Suc.IH[of j s1 st1] show ?thesis by (auto split: prod.split)
    qed simp
  qed simp
  note f = run_loop_forward[OF assms, of 0]
  have h: "length steps - 0 \<le> max_hops steps" by (simp add: max_hops_def)
  have m: "run_loop exec dry ps steps (max_hops steps) 0 ''success'' st = run_loop exec dry ps steps (length steps) 0 ''success'' st"
    using f[OF _ h, of exec dry ps "''success''" st, THEN conjunct1] by simp
  show ?thesis
  proof (intro conjI allI impI)
    show "snd (snd (fst (run_loop exec dry ps steps (max_hops steps) 0 ''success'' st))) = length steps"
      by (rule f[OF _ h, THEN conjunct2]) simp
    show "length (fst (fst (run_loop exec dry ps steps (max_hops steps) 0 ''success'' st))) \<le> length steps"
      unfolding m by (rule n)
    show "run_loop exec dry ps steps h 0 ''success'' st = run_loop exec dry ps steps (max_hops steps) 0 ''success'' st"
      if "length steps \<le> h" for h
      unfolding m using f[of h exec dry ps "''success''" st, THEN conjunct1] that by simp
  qed
qed

lemma forward_plan_ends_witness:
  "snd (snd (fst (run_loop demo_runner False [] (wf_steps demo_plan) (max_hops (wf_steps demo_plan)) 0 ''success'' ()))) = 3"
proof -
  have "step_index (wf_steps demo_plan) (trim_space ''continue'') = None"
    "step_index (wf_steps demo_plan) (trim_space ''c'') = Some 2" "step_index (wf_steps demo_plan) (trim_space '''') = None"
    unfolding demo_plan_def by code_simp+
  then have "forward_plan (wf_steps demo_plan)"
    by (auto simp: forward_plan_def demo_plan_def less_Suc_eq numeral_eq_Suc)
  from forward_plan_ends[OF this, of demo_runner False "[]" "()"]
  have "snd (snd (fst (run_loop demo_runner False [] (wf_steps demo_plan) (max_hops (wf_steps demo_plan)) 0 ''success'' ())))
      = length (wf_steps demo_plan)" by blast
  moreover have "length (wf_steps demo_plan) = 3" by (simp add: demo_plan_def)
  ultimately show ?thesis by (simp only:)
qed

text \<open>The order in which the parameters are put in matters when a value looks like a placeholder.\<close>
lemma fillParams_order:
  "fillParams ''echo {{a}}'' [(''a'', ''{{b}}''), (''b'', ''x'')] = ''echo x''"
  "fillParams ''echo {{a}}'' [(''b'', ''x''), (''a'', ''{{b}}'')] = ''echo {{b}}''"
  by code_simp+

section \<open>The plans that ship with the program\<close>

definition builtinWorkflows :: "workflow list" where
  "builtinWorkflows = [
     \<lparr>wf_name = ''service-restart'',
      wf_desc = ''Restart a systemd service with a pre-check and post-verify.'',
      wf_params = [''service''], wf_steps = [
       \<lparr>ws_id = ''check'', ws_cmd = ''systemctl status {{service}} --no-pager'',
        ws_type = '''', ws_on_fail = ''abort''\<rparr>,
       \<lparr>ws_id = ''stop'', ws_cmd = ''systemctl stop {{service}}'',
        ws_type = '''', ws_on_fail = ''continue''\<rparr>,
       \<lparr>ws_id = ''start'', ws_cmd = ''systemctl start {{service}}'',
        ws_type = '''', ws_on_fail = ''report''\<rparr>,
       \<lparr>ws_id = ''verify'', ws_cmd = ''systemctl is-active {{service}}'',
        ws_type = '''', ws_on_fail = ''report''\<rparr>,
       \<lparr>ws_id = ''report'', ws_cmd = '''',
        ws_type = ''summary'', ws_on_fail = ''''\<rparr>]\<rparr>,
     \<lparr>wf_name = ''health-check'',
      wf_desc = ''Quick box health: uptime, disk, memory, top processes.'',
      wf_params = [], wf_steps = [
       \<lparr>ws_id = ''uptime'', ws_cmd = ''uptime'',
        ws_type = '''', ws_on_fail = ''continue''\<rparr>,
       \<lparr>ws_id = ''disk'', ws_cmd = ''df -h'',
        ws_type = '''', ws_on_fail = ''continue''\<rparr>,
       \<lparr>ws_id = ''memory'', ws_cmd = ''free -h 2>/dev/null || vm_stat'',
        ws_type = '''', ws_on_fail = ''continue''\<rparr>,
       \<lparr>ws_id = ''top'', ws_cmd = ''ps -eo pid,pcpu,pmem,comm 2>/dev/null | sort -k2 -nr | head -10'',
        ws_type = '''', ws_on_fail = ''continue''\<rparr>,
       \<lparr>ws_id = ''summary'', ws_cmd = '''',
        ws_type = ''summary'', ws_on_fail = ''''\<rparr>]\<rparr>,
     \<lparr>wf_name = ''disk-cleanup'',
      wf_desc = ''Best-effort space reclaim: old /tmp files, journal vacuum, package cache.'',
      wf_params = [], wf_steps = [
       \<lparr>ws_id = ''before'', ws_cmd = ''df -h /'',
        ws_type = '''', ws_on_fail = ''continue''\<rparr>,
       \<lparr>ws_id = ''tmp'', ws_cmd = (''find /tmp -type f -atime +7 -delete 2>/dev/null; echo '' @ [CHR 0x27] @ ''/tmp pruned'' @ [CHR 0x27]),
        ws_type = '''', ws_on_fail = ''continue''\<rparr>,
       \<lparr>ws_id = ''journal'', ws_cmd = (''journalctl --vacuum-time=7d 2>/dev/null || echo '' @ [CHR 0x27] @ ''no journald'' @ [CHR 0x27]),
        ws_type = '''', ws_on_fail = ''continue''\<rparr>,
       \<lparr>ws_id = ''pkgcache'', ws_cmd = (''apt-get clean 2>/dev/null || yum clean all 2>/dev/null || dnf clean all 2>/dev/null || echo '' @ [CHR 0x27] @ ''no apt/yum/dnf'' @ [CHR 0x27]),
        ws_type = '''', ws_on_fail = ''continue''\<rparr>,
       \<lparr>ws_id = ''after'', ws_cmd = ''df -h /'',
        ws_type = '''', ws_on_fail = ''continue''\<rparr>,
       \<lparr>ws_id = ''summary'', ws_cmd = '''',
        ws_type = ''summary'', ws_on_fail = ''''\<rparr>]\<rparr>,
     \<lparr>wf_name = ''log-collect'',
      wf_desc = ''Collect recent system logs, error-priority entries, and failed units.'',
      wf_params = [], wf_steps = [
       \<lparr>ws_id = ''recent'', ws_cmd = ''journalctl -n 100 --no-pager 2>/dev/null || tail -n 100 /var/log/syslog 2>/dev/null || tail -n 100 /var/log/messages'',
        ws_type = '''', ws_on_fail = ''continue''\<rparr>,
       \<lparr>ws_id = ''errors'', ws_cmd = ''journalctl -p err -n 50 --no-pager 2>/dev/null'',
        ws_type = '''', ws_on_fail = ''continue''\<rparr>,
       \<lparr>ws_id = ''failed'', ws_cmd = ''systemctl --failed --no-pager 2>/dev/null'',
        ws_type = '''', ws_on_fail = ''continue''\<rparr>,
       \<lparr>ws_id = ''summary'', ws_cmd = '''',
        ws_type = ''summary'', ws_on_fail = ''''\<rparr>]\<rparr>]"

text \<open>All of them end by themselves.\<close>
lemma builtin_plans_forward: "list_all (\<lambda>w. forward_plan (wf_steps w)) builtinWorkflows"
proof -
  have e: "forward_plan steps \<longleftrightarrow> list_all (\<lambda>i. case step_index steps (trim_space (ws_on_fail (steps ! i))) of
      None \<Rightarrow> True | Some j \<Rightarrow> i < j \<and> j \<le> length steps) [0..<length steps]" for steps
    by (auto simp: forward_plan_def list_all_iff)
  show ?thesis unfolding e by code_simp
qed

section \<open>Storage\<close>

definition configDir :: "string \<Rightarrow> path" where
  "configDir home = (if home \<noteq> '''' then join_path [home, ''.vssh''] else ''/etc/vssh'')"

definition WorkflowsDir :: "string \<Rightarrow> path" where "WorkflowsDir home = join_path [configDir home, ''workflows'']"
definition runsDir :: "string \<Rightarrow> path" where "runsDir home = join_path [configDir home, ''workflow_runs'']"

definition set_step :: "step setter" where
  "set_step k v s =
     (if equal_fold k ''id'' then text_field v (\<lambda>t. s\<lparr>ws_id := t\<rparr>) s
      else if equal_fold k ''cmd'' then text_field v (\<lambda>t. s\<lparr>ws_cmd := t\<rparr>) s
      else if equal_fold k ''type'' then text_field v (\<lambda>t. s\<lparr>ws_type := t\<rparr>) s
      else if equal_fold k ''on_fail'' then text_field v (\<lambda>t. s\<lparr>ws_on_fail := t\<rparr>) s
      else Some s)"

definition step_zero :: step where
  "step_zero = \<lparr>ws_id = '''', ws_cmd = '''', ws_type = '''', ws_on_fail = ''''\<rparr>"

definition set_workflow :: "workflow setter" where
  "set_workflow k v w =
     (if equal_fold k ''name'' then text_field v (\<lambda>t. w\<lparr>wf_name := t\<rparr>) w
      else if equal_fold k ''description'' then text_field v (\<lambda>t. w\<lparr>wf_desc := t\<rparr>) w
      else if equal_fold k ''params'' then list_field text_value v (\<lambda>ps. w\<lparr>wf_params := ps\<rparr>)
      else if equal_fold k ''steps'' then list_field (struct_of set_step step_zero) v (\<lambda>ss. w\<lparr>wf_steps := ss\<rparr>)
      else Some w)"

definition workflow_zero :: workflow where
  "workflow_zero = \<lparr>wf_name = '''', wf_desc = '''', wf_params = [], wf_steps = []\<rparr>"

definition workflow_of :: "string \<Rightarrow> workflow option" where
  "workflow_of d = (case unmarshal d of None \<Rightarrow> None | Some v \<Rightarrow> struct_of set_workflow workflow_zero v)"

text \<open>The workflows of the entries of the directory (name, whether a directory), in their order.\<close>
definition loadUserWorkflows :: "string \<Rightarrow> (string \<times> bool) list \<Rightarrow> fs \<Rightarrow> workflow list" where
  "loadUserWorkflows home entries f =
     concat (map (\<lambda>(n, dir).
       if dir \<or> \<not> has_suffix ''.json'' n then []
       else (case read_file f (join_path [WorkflowsDir home, n]) of Inl _ \<Rightarrow> []
         | Inr d \<Rightarrow> (case workflow_of d of None \<Rightarrow> [] | Some w \<Rightarrow> if wf_name w \<noteq> '''' then [w] else []))) entries)"

definition ListWorkflows :: "string \<Rightarrow> (string \<times> bool) list \<Rightarrow> fs \<Rightarrow> workflow list" where
  "ListWorkflows home entries f =
     sort_key wf_name (overlay wf_name builtinWorkflows
       (filter (\<lambda>w. wf_name w \<noteq> '''' \<and> wf_steps w \<noteq> []) (loadUserWorkflows home entries f)))"

definition GetWorkflow :: "string \<Rightarrow> (string \<times> bool) list \<Rightarrow> fs \<Rightarrow> string \<Rightarrow> workflow option" where
  "GetWorkflow home entries f name = find (\<lambda>w. wf_name w = name) (ListWorkflows home entries f)"

text \<open>Rune by rune: what is not a letter, a digit, a dash or an underscore becomes an underscore.\<close>
function sanitizeRunID :: "string \<Rightarrow> string" where
  "sanitizeRunID [] = []"
| "sanitizeRunID (c # s) =
     (if is_lower c \<or> is_upper c \<or> is_digit c \<or> c = CHR ''-'' \<or> c = CHR ''_'' then c # sanitizeRunID s
      else CHR ''_'' # sanitizeRunID (drop (utf8_width (c # s) - 1) s))"
  by pat_completeness auto
termination by (relation "measure length") auto

definition step_json :: "step_result \<Rightarrow> json" where
  "step_json r = JObj ([(''id'', JStr (sr_id r))] @ omit_empty ''cmd'' (sr_cmd r) @ [(''type'', JStr (sr_type r))]
     @ omit_empty ''stdout'' (sr_stdout r) @ omit_empty ''stderr'' (sr_stderr r)
     @ [(''exit_code'', json_int (sr_exit r)), (''success'', JBool (sr_success r))]
     @ omit_empty ''error'' (sr_error r) @ omit_empty ''action'' (sr_action r) @ omit_false ''skipped'' (sr_skipped r))"

definition run_json :: "run_result \<Rightarrow> json" where
  "run_json r = JObj ([(''run_id'', JStr (rr_id r)), (''workflow'', JStr (rr_workflow r)), (''target'', JStr (rr_target r))]
     @ (if rr_params r = [] then [] else [(''params'', json_map (map (\<lambda>(k, v). (k, JStr v)) (rr_params r)))])
     @ [(''status'', JStr (rr_status r)), (''steps'', json_list (map step_json (rr_steps r))),
        (''summary'', JStr (rr_summary r)), (''started_at'', JStr (rr_started r)), (''ended_at'', JStr (rr_ended r))]
     @ omit_false ''dry_run'' (rr_dry r))"

definition run_path :: "string \<Rightarrow> string \<Rightarrow> path" where
  "run_path home rid = join_path [runsDir home, sanitizeRunID rid @ ''.json'']"

definition SaveRun :: "string \<Rightarrow> run_result \<Rightarrow> fs \<Rightarrow> io_err option \<times> fs" where
  "SaveRun home r f = write_file (run_path home (rr_id r)) (marshal_indent 0 (run_json r)) f"

text \<open>A saved run is read back member by member; a second map of parameters is added to the first.\<close>
definition set_result :: "step_result setter" where
  "set_result k v r =
     (if equal_fold k ''id'' then text_field v (\<lambda>t. r\<lparr>sr_id := t\<rparr>) r
      else if equal_fold k ''cmd'' then text_field v (\<lambda>t. r\<lparr>sr_cmd := t\<rparr>) r
      else if equal_fold k ''type'' then text_field v (\<lambda>t. r\<lparr>sr_type := t\<rparr>) r
      else if equal_fold k ''stdout'' then text_field v (\<lambda>t. r\<lparr>sr_stdout := t\<rparr>) r
      else if equal_fold k ''stderr'' then text_field v (\<lambda>t. r\<lparr>sr_stderr := t\<rparr>) r
      else if equal_fold k ''exit_code'' then num_field v (\<lambda>i. r\<lparr>sr_exit := i\<rparr>) r
      else if equal_fold k ''success'' then flag_field v (\<lambda>b. r\<lparr>sr_success := b\<rparr>) r
      else if equal_fold k ''error'' then text_field v (\<lambda>t. r\<lparr>sr_error := t\<rparr>) r
      else if equal_fold k ''action'' then text_field v (\<lambda>t. r\<lparr>sr_action := t\<rparr>) r
      else if equal_fold k ''skipped'' then flag_field v (\<lambda>b. r\<lparr>sr_skipped := b\<rparr>) r
      else Some r)"

definition set_run :: "run_result setter" where
  "set_run k v r =
     (if equal_fold k ''run_id'' then text_field v (\<lambda>t. r\<lparr>rr_id := t\<rparr>) r
      else if equal_fold k ''workflow'' then text_field v (\<lambda>t. r\<lparr>rr_workflow := t\<rparr>) r
      else if equal_fold k ''target'' then text_field v (\<lambda>t. r\<lparr>rr_target := t\<rparr>) r
      else if equal_fold k ''params'' then
        (if v = JNull then Some (r\<lparr>rr_params := []\<rparr>)
         else map_option (\<lambda>ps. r\<lparr>rr_params := overlay fst (rr_params r) ps\<rparr>) (map_of_json text_value v))
      else if equal_fold k ''status'' then text_field v (\<lambda>t. r\<lparr>rr_status := t\<rparr>) r
      else if equal_fold k ''steps'' then list_field (struct_of set_result result_zero) v (\<lambda>rs. r\<lparr>rr_steps := rs\<rparr>)
      else if equal_fold k ''summary'' then text_field v (\<lambda>t. r\<lparr>rr_summary := t\<rparr>) r
      else if equal_fold k ''started_at'' then text_field v (\<lambda>t. r\<lparr>rr_started := t\<rparr>) r
      else if equal_fold k ''ended_at'' then text_field v (\<lambda>t. r\<lparr>rr_ended := t\<rparr>) r
      else if equal_fold k ''dry_run'' then flag_field v (\<lambda>b. r\<lparr>rr_dry := b\<rparr>) r
      else Some r)"

definition run_zero :: run_result where
  "run_zero = \<lparr>rr_id = '''', rr_workflow = '''', rr_target = '''', rr_params = [], rr_status = '''', rr_steps = [],
     rr_summary = '''', rr_started = '''', rr_ended = '''', rr_dry = False\<rparr>"

definition LoadRun :: "string \<Rightarrow> string \<Rightarrow> fs \<Rightarrow> (io_err option) + run_result" where
  "LoadRun home rid f =
     (case read_file f (run_path home rid) of Inl e \<Rightarrow> Inl (Some e)
      | Inr d \<Rightarrow>
          (case unmarshal d of None \<Rightarrow> Inl None
           | Some v \<Rightarrow> (case struct_of set_run run_zero v of None \<Rightarrow> Inl None | Some r \<Rightarrow> Inr r)))"

text \<open>A run id cannot lead out of the directory: what is left of it has no separator and no dot.\<close>
lemma sanitize_safe: "c \<in> set (sanitizeRunID s) \<Longrightarrow> is_lower c \<or> is_upper c \<or> is_digit c \<or> c = CHR ''-'' \<or> c = CHR ''_''"
  by (induction s rule: sanitizeRunID.induct) (auto split: if_splits)

text \<open>Two ids that differ only in other characters share a file.\<close>
lemma sanitize_collides: "sanitizeRunID ''a/b'' = sanitizeRunID ''a.b''"
  by code_simp

end
