(* ===== verification/Intent.thy ===== *)
theory Intent
  imports GoStruct GoFiles
begin

text \<open>
  \<^verbatim>\<open>internal/intent\<close>: a request in words is mapped to a plan of commands by keywords
  (\<^verbatim>\<open>engine.go\<close>), over the intents that ship with the program (\<^verbatim>\<open>builtin.go\<close>) and those of
  the user.
\<close>

section \<open>Intents\<close>

record intent =
  in_name :: string
  in_keywords :: "string list"
  in_commands :: "string list"
  in_rationale :: string
  in_needs_arg :: bool

record plan =
  pn_intent :: string
  pn_commands :: "string list"
  pn_rationale :: string
  pn_matched :: "string list"
  pn_arg :: string

definition intent_zero :: intent where
  "intent_zero = \<lparr>in_name = '''', in_keywords = [], in_commands = [], in_rationale = '''', in_needs_arg = False\<rparr>"

definition IntentsPath :: "string \<Rightarrow> path" where
  "IntentsPath home = (if home \<noteq> '''' then join_path [home, ''.vssh'', ''intents.json''] else ''/etc/vssh/intents.json'')"

definition set_intent :: "intent setter" where
  "set_intent k v x =
     (if equal_fold k ''name'' then text_field v (\<lambda>t. x\<lparr>in_name := t\<rparr>) x
      else if equal_fold k ''keywords'' then list_field text_value v (\<lambda>ts. x\<lparr>in_keywords := ts\<rparr>)
      else if equal_fold k ''commands'' then list_field text_value v (\<lambda>ts. x\<lparr>in_commands := ts\<rparr>)
      else if equal_fold k ''rationale'' then text_field v (\<lambda>t. x\<lparr>in_rationale := t\<rparr>) x
      else if equal_fold k ''needs_arg'' then flag_field v (\<lambda>b. x\<lparr>in_needs_arg := b\<rparr>) x
      else Some x)"

definition loadUserIntents :: "string \<Rightarrow> fs \<Rightarrow> intent list" where
  "loadUserIntents home f =
     (case read_file f (IntentsPath home) of Inl _ \<Rightarrow> []
      | Inr d \<Rightarrow>
          (case unmarshal d of
             Some (JArr vs) \<Rightarrow> (case all_some (map (struct_of set_intent intent_zero) vs) of None \<Rightarrow> [] | Some xs \<Rightarrow> xs)
           | _ \<Rightarrow> []))"

definition builtinIntents :: "intent list" where
  "builtinIntents = [
     \<lparr>in_name = ''disk-check'', in_keywords = [''disk check'', ''disk usage'', ''disk space'', ''disk'', ''storage usage''],
      in_commands = [''df -h'', ''du -sh /var/* /home/* 2>/dev/null | sort -rh | head -20''],
      in_rationale = ''filesystem usage and the largest top-level consumers'', in_needs_arg = False\<rparr>,
     \<lparr>in_name = ''inode-check'', in_keywords = [''inode'', ''inodes''],
      in_commands = [''df -i''],
      in_rationale = ''inode exhaustion (a full-disk lookalike)'', in_needs_arg = False\<rparr>,
     \<lparr>in_name = ''log-check'', in_keywords = [''log check'', ''recent logs'', ''logs'', ''syslog''],
      in_commands = [''journalctl -n 50 --no-pager 2>/dev/null || tail -n 50 /var/log/syslog 2>/dev/null || tail -n 50 /var/log/messages''],
      in_rationale = ''the most recent system log lines'', in_needs_arg = False\<rparr>,
     \<lparr>in_name = ''journal-errors'', in_keywords = [''journal errors'', ''error logs'', ''errors'', ''log errors''],
      in_commands = [(''journalctl -p err -n 50 --no-pager 2>/dev/null || grep -iE '' @ [CHR 0x27] @ ''error|fail'' @ [CHR 0x27] @ '' /var/log/syslog 2>/dev/null | tail -n 50'')],
      in_rationale = ''error-priority log entries only'', in_needs_arg = False\<rparr>,
     \<lparr>in_name = ''service-check'', in_keywords = [''service check'', ''service status'', ''check service''],
      in_commands = [''systemctl status {{service}} --no-pager'', ''systemctl is-active {{service}}''],
      in_rationale = ''status and active-state of a named service'', in_needs_arg = True\<rparr>,
     \<lparr>in_name = ''service-logs'', in_keywords = [''service logs'', ''unit logs'', ''service log''],
      in_commands = [''journalctl -u {{service}} -n 50 --no-pager''],
      in_rationale = ''recent logs for a named service unit'', in_needs_arg = True\<rparr>,
     \<lparr>in_name = ''failed-services'', in_keywords = [''failed services'', ''failed units'', ''broken services''],
      in_commands = [''systemctl --failed --no-pager''],
      in_rationale = ''units in a failed state'', in_needs_arg = False\<rparr>,
     \<lparr>in_name = ''gpu-status'', in_keywords = [''gpu status'', ''gpu'', ''nvidia'', ''cuda status''],
      in_commands = [''nvidia-smi''],
      in_rationale = ''GPU utilization, memory, and driver health'', in_needs_arg = False\<rparr>,
     \<lparr>in_name = ''process-check'', in_keywords = [''process check'', ''processes'', ''top process'', ''cpu hogs''],
      in_commands = [''ps -eo pid,pcpu,pmem,comm 2>/dev/null | sort -k2 -nr | head -20''],
      in_rationale = ''the top processes by CPU'', in_needs_arg = False\<rparr>,
     \<lparr>in_name = ''memory-check'', in_keywords = [''memory check'', ''memory usage'', ''memory'', ''ram'', ''mem''],
      in_commands = [''free -h 2>/dev/null || vm_stat'', ''ps -eo pid,pmem,pcpu,comm 2>/dev/null | sort -k2 -nr | head -10''],
      in_rationale = ''memory pressure and the top processes by RSS'', in_needs_arg = False\<rparr>,
     \<lparr>in_name = ''cpu-check'', in_keywords = [''cpu check'', ''cpu load'', ''cpu usage'', ''cpu''],
      in_commands = [''top -bn1 2>/dev/null | head -15 || top -l1 | head -15''],
      in_rationale = ''instantaneous CPU load snapshot'', in_needs_arg = False\<rparr>,
     \<lparr>in_name = ''uptime-check'', in_keywords = [''uptime'', ''load average'', ''how long up''],
      in_commands = [''uptime''],
      in_rationale = ''uptime and load averages'', in_needs_arg = False\<rparr>,
     \<lparr>in_name = ''network-check'', in_keywords = [''network check'', ''network'', ''connections'', ''sockets''],
      in_commands = [''ss -tulpn 2>/dev/null || netstat -tulpn 2>/dev/null'', ''ip -br addr 2>/dev/null || ifconfig''],
      in_rationale = ''active sockets and interface addresses'', in_needs_arg = False\<rparr>,
     \<lparr>in_name = ''listening-ports'', in_keywords = [''listening ports'', ''open ports'', ''ports''],
      in_commands = [''ss -tlnp 2>/dev/null || netstat -tlnp 2>/dev/null || lsof -iTCP -sTCP:LISTEN -P''],
      in_rationale = ''TCP sockets in LISTEN state'', in_needs_arg = False\<rparr>,
     \<lparr>in_name = ''dns-check'', in_keywords = [''dns check'', ''dns'', ''resolver''],
      in_commands = [''cat /etc/resolv.conf'', ''getent hosts example.com 2>/dev/null || nslookup example.com''],
      in_rationale = ''resolver config and a sample lookup'', in_needs_arg = False\<rparr>,
     \<lparr>in_name = ''docker-status'', in_keywords = [''docker status'', ''containers'', ''docker ps'', ''docker''],
      in_commands = [''docker ps -a 2>/dev/null'', ''docker stats --no-stream 2>/dev/null''],
      in_rationale = ''container inventory and live resource use'', in_needs_arg = False\<rparr>,
     \<lparr>in_name = ''scheduled-jobs'', in_keywords = [''scheduled jobs'', ''timers'', ''cron jobs'', ''cron''],
      in_commands = [''systemctl list-timers --no-pager 2>/dev/null'', ''crontab -l 2>/dev/null''],
      in_rationale = ''systemd timers and user cron entries'', in_needs_arg = False\<rparr>,
     \<lparr>in_name = ''system-info'', in_keywords = [''system info'', ''os version'', ''kernel'', ''machine info''],
      in_commands = [''uname -a'', ''cat /etc/os-release 2>/dev/null || sw_vers''],
      in_rationale = ''kernel and OS release identification'', in_needs_arg = False\<rparr>,
     \<lparr>in_name = ''who-check'', in_keywords = [''who is logged in'', ''logged in users'', ''active sessions'', ''who''],
      in_commands = [''who'', ''w 2>/dev/null''],
      in_rationale = ''interactive sessions currently open'', in_needs_arg = False\<rparr>,
     \<lparr>in_name = ''temperature-check'', in_keywords = [''temperature'', ''thermal'', ''temp''],
      in_commands = [(''sensors 2>/dev/null || vcgencmd measure_temp 2>/dev/null || echo '' @ [CHR 0x27] @ ''no sensor tooling'' @ [CHR 0x27])],
      in_rationale = ''hardware temperature readings where available'', in_needs_arg = False\<rparr>,
     \<lparr>in_name = ''largest-files'', in_keywords = [''largest files'', ''big files'', ''what is using space''],
      in_commands = [''du -ahx / 2>/dev/null | sort -rh | head -20''],
      in_rationale = ''the biggest files/dirs on the root filesystem'', in_needs_arg = False\<rparr>,
     \<lparr>in_name = ''package-updates'', in_keywords = [''package updates'', ''upgradable'', ''outdated packages'', ''updates available''],
      in_commands = [''apt list --upgradable 2>/dev/null || yum check-update 2>/dev/null || dnf check-update 2>/dev/null || brew outdated 2>/dev/null''],
      in_rationale = ''pending package upgrades'', in_needs_arg = False\<rparr>,
     \<lparr>in_name = ''reboot-required'', in_keywords = [''reboot required'', ''pending reboot'', ''needs reboot''],
      in_commands = [(''[ -f /var/run/reboot-required ] && cat /var/run/reboot-required || echo '' @ [CHR 0x27] @ ''no reboot flag'' @ [CHR 0x27])],
      in_rationale = ''whether a kernel/library update is awaiting reboot'', in_needs_arg = False\<rparr>]"

definition LoadIntents :: "string \<Rightarrow> fs \<Rightarrow> intent list" where
  "LoadIntents home f =
     overlay in_name builtinIntents (filter (\<lambda>x. in_name x \<noteq> '''' \<and> in_commands x \<noteq> []) (loadUserIntents home f))"

section \<open>Choosing a plan\<close>

definition kw_norm :: "string \<Rightarrow> string" where "kw_norm kw = to_lower (trim_space kw)"

definition kw_hits :: "string \<Rightarrow> intent \<Rightarrow> string list" where
  "kw_hits low x = filter (\<lambda>kw. kw_norm kw \<noteq> '''' \<and> contains (kw_norm kw) low) (in_keywords x)"

text \<open>The number of keywords that match and the length of their texts.\<close>
definition intent_score :: "string \<Rightarrow> intent \<Rightarrow> nat \<times> nat" where
  "intent_score low x = (length (kw_hits low x), sum_list (map (\<lambda>kw. length (kw_norm kw)) (kw_hits low x)))"

definition beats :: "nat \<times> nat \<Rightarrow> nat \<times> nat \<Rightarrow> bool" where
  "beats a b \<longleftrightarrow> fst b < fst a \<or> (fst a = fst b \<and> snd b < snd a)"

text \<open>The scan over the intents: the best so far.\<close>
fun best_intent :: "string \<Rightarrow> intent option \<Rightarrow> intent list \<Rightarrow> intent option" where
  "best_intent low best [] = best"
| "best_intent low best (x # xs) =
     best_intent low
       (if kw_hits low x = [] then best
        else (case best of None \<Rightarrow> Some x
          | Some b \<Rightarrow> if beats (intent_score low x) (intent_score low b) then Some x else best)) xs"

text \<open>The last word of the request that is in no keyword of the intent.\<close>
definition extractArg :: "string \<Rightarrow> intent \<Rightarrow> string" where
  "extractArg low x =
     (if \<not> in_needs_arg x then ''''
      else (let kws = concat (map (\<lambda>k. go_fields (to_lower k)) (in_keywords x)) in
        case find (\<lambda>w. w \<notin> set kws) (rev (go_fields low)) of None \<Rightarrow> '''' | Some w \<Rightarrow> w))"

definition fillArg :: "string \<Rightarrow> string \<Rightarrow> string" where
  "fillArg cmd arg = trim_space (replace_all ''{{service}}'' arg (replace_all ''{{arg}}'' arg cmd))"

definition plan_of :: "string \<Rightarrow> intent \<Rightarrow> plan" where
  "plan_of low x =
     (let arg = extractArg low x in
      \<lparr>pn_intent = in_name x, pn_commands = map (\<lambda>c. fillArg c arg) (in_commands x), pn_rationale = in_rationale x,
       pn_matched = sort (kw_hits low x), pn_arg = arg\<rparr>)"

definition resolveWith :: "intent list \<Rightarrow> string \<Rightarrow> plan option" where
  "resolveWith intents query =
     (let low = to_lower (trim_space query) in
      if low = '''' then None
      else map_option (plan_of low) (best_intent low None intents))"

definition ResolveIntent :: "string \<Rightarrow> fs \<Rightarrow> string \<Rightarrow> plan option" where
  "ResolveIntent home f query = resolveWith (LoadIntents home f) query"

section \<open>The choice is the best one\<close>

lemma beats_trans: "beats a b \<Longrightarrow> \<not> beats c b \<Longrightarrow> beats a c \<or> a = c \<or> beats a b"
  by (auto simp: beats_def)

lemma beats_order: "\<not> beats a b \<Longrightarrow> \<not> beats b c \<Longrightarrow> \<not> beats a c"
  by (auto simp: beats_def)

lemma beats_asym: "beats a b \<Longrightarrow> \<not> beats b a"
  by (auto simp: beats_def)

text \<open>What the scan carries: the best of the intents before, the first of them.\<close>
definition best_of :: "string \<Rightarrow> intent list \<Rightarrow> intent option \<Rightarrow> bool" where
  "best_of low xs b \<longleftrightarrow>
     (case b of None \<Rightarrow> \<forall>x \<in> set xs. kw_hits low x = []
      | Some y \<Rightarrow> kw_hits low y \<noteq> [] \<and>
          (\<exists>i < length xs. y = xs ! i \<and> (\<forall>j < i. kw_hits low (xs ! j) \<noteq> [] \<longrightarrow> beats (intent_score low y) (intent_score low (xs ! j)))) \<and>
          (\<forall>x \<in> set xs. \<not> beats (intent_score low x) (intent_score low y)))"

lemma no_hits_score: "kw_hits low x = [] \<Longrightarrow> kw_hits low y \<noteq> [] \<Longrightarrow> \<not> beats (intent_score low x) (intent_score low y)"
  by (auto simp: beats_def intent_score_def)

lemma best_of_keep:
  assumes "best_of low xs (Some y)" "\<not> beats (intent_score low x) (intent_score low y)"
  shows "best_of low (xs @ [x]) (Some y)"
proof -
  from assms(1) obtain i where i: "i < length xs" "y = xs ! i"
    "\<forall>j < i. kw_hits low (xs ! j) \<noteq> [] \<longrightarrow> beats (intent_score low y) (intent_score low (xs ! j))"
    by (auto simp: best_of_def)
  then have "i < length (xs @ [x]) \<and> y = (xs @ [x]) ! i \<and>
      (\<forall>j < i. kw_hits low ((xs @ [x]) ! j) \<noteq> [] \<longrightarrow> beats (intent_score low y) (intent_score low ((xs @ [x]) ! j)))"
    by (simp add: nth_append)
  then show ?thesis using assms unfolding best_of_def by auto
qed

lemma best_of_new:
  assumes "best_of low xs b" "kw_hits low x \<noteq> []"
    and "case b of None \<Rightarrow> True | Some y \<Rightarrow> beats (intent_score low x) (intent_score low y)"
  shows "best_of low (xs @ [x]) (Some x)"
proof -
  have older: "kw_hits low z \<noteq> [] \<longrightarrow> beats (intent_score low x) (intent_score low z)" if "z \<in> set xs" for z
  proof (cases b)
    case None
    with assms(1) that show ?thesis by (simp add: best_of_def)
  next
    case (Some y)
    with assms(1) that have "\<not> beats (intent_score low z) (intent_score low y)" by (simp add: best_of_def)
    moreover have "beats (intent_score low x) (intent_score low y)" using assms(3) Some by simp
    ultimately show ?thesis by (auto simp: beats_def)
  qed
  have "\<not> beats (intent_score low z) (intent_score low x)" if "z \<in> set xs" for z
    using older[OF that] no_hits_score[OF _ assms(2), of z] beats_asym by (cases "kw_hits low z = []") auto
  moreover have "length xs < length (xs @ [x]) \<and> x = (xs @ [x]) ! length xs \<and>
      (\<forall>j < length xs. kw_hits low ((xs @ [x]) ! j) \<noteq> [] \<longrightarrow> beats (intent_score low x) (intent_score low ((xs @ [x]) ! j)))"
    using older by (simp add: nth_append)
  ultimately show ?thesis using assms(2) unfolding best_of_def by (auto simp: beats_def)
qed

lemma best_intent_best: "best_of low pre b \<Longrightarrow> best_of low (pre @ xs) (best_intent low b xs)"
proof (induction xs arbitrary: pre b)
  case (Cons x xs)
  define b' where "b' = (if kw_hits low x = [] then b
      else (case b of None \<Rightarrow> Some x | Some y \<Rightarrow> if beats (intent_score low x) (intent_score low y) then Some x else b))"
  have "best_of low (pre @ [x]) b'"
  proof (cases b)
    case None
    then show ?thesis using Cons.prems best_of_new[OF Cons.prems, of x]
      by (cases "kw_hits low x = []") (auto simp: b'_def best_of_def)
  next
    case (Some y)
    then have y: "kw_hits low y \<noteq> []" using Cons.prems by (simp add: best_of_def)
    show ?thesis
    proof (cases "kw_hits low x \<noteq> [] \<and> beats (intent_score low x) (intent_score low y)")
      case True
      with Some best_of_new[OF Cons.prems, of x] show ?thesis by (simp add: b'_def)
    next
      case False
      then have "\<not> beats (intent_score low x) (intent_score low y)" using no_hits_score[OF _ y] by blast
      then have "best_of low (pre @ [x]) (Some y)" using best_of_keep Cons.prems Some by blast
      with False Some show ?thesis by (auto simp: b'_def)
    qed
  qed
  from Cons.IH[OF this] show ?case by (simp add: b'_def)
qed simp

text \<open>A plan comes from the intent with the most matching keywords, of several from the one whose
  matching keywords are longest, and of several such from the first; there is none exactly when no
  keyword of any intent is in the request.\<close>
theorem resolve_picks_best:
  assumes "low = to_lower (trim_space query)" "low \<noteq> ''''"
  shows "case resolveWith intents query of
      None \<Rightarrow> \<forall>x \<in> set intents. kw_hits low x = []
    | Some p \<Rightarrow> \<exists>i < length intents. p = plan_of low (intents ! i) \<and> kw_hits low (intents ! i) \<noteq> [] \<and>
        (\<forall>x \<in> set intents. \<not> beats (intent_score low x) (intent_score low (intents ! i))) \<and>
        (\<forall>j < i. kw_hits low (intents ! j) \<noteq> [] \<longrightarrow> beats (intent_score low (intents ! i)) (intent_score low (intents ! j)))"
proof -
  have "best_of low ([] @ intents) (best_intent low None intents)"
    by (rule best_intent_best) (simp add: best_of_def)
  then show ?thesis
    using assms by (auto simp: resolveWith_def Let_def best_of_def split: option.splits)
qed

lemma resolve_picks_best_witness:
  "map_option pn_intent (resolveWith builtinIntents ''service check nginx'') = Some ''service-check'' \<and>
   (case resolveWith builtinIntents ''service check nginx'' of None \<Rightarrow> False
    | Some p \<Rightarrow> \<exists>i < length builtinIntents. p = plan_of ''service check nginx'' (builtinIntents ! i) \<and>
        kw_hits ''service check nginx'' (builtinIntents ! i) \<noteq> [])"
proof -
  have q: "''service check nginx'' = to_lower (trim_space ''service check nginx'')" by code_simp
  have r: "map_option pn_intent (resolveWith builtinIntents ''service check nginx'') = Some ''service-check''" by code_simp
  then obtain p where p: "resolveWith builtinIntents ''service check nginx'' = Some p" by (cases "resolveWith builtinIntents ''service check nginx''") auto
  have "''service check nginx'' \<noteq> ''''" by simp
  from resolve_picks_best[OF q this, of builtinIntents] show ?thesis unfolding p option.case using r p by auto
qed

end
