(* ===== verification/McpFleet.thy ===== *)
theory McpFleet
  imports Mcp FleetLog Workflow Intent ConfigWrite
begin

text \<open>
  The tools of the MCP front end on the memory of the fleet, on plans and on the local configuration
  (\<^verbatim>\<open>cmd/vssh/mcp_memory.go\<close>, \<^verbatim>\<open>commands_discover.go\<close>, \<^verbatim>\<open>commands_health.go\<close>,
  \<^verbatim>\<open>commands_intent.go\<close>, \<^verbatim>\<open>mcp_workflow.go\<close>, \<^verbatim>\<open>commands_config.go\<close>,
  \<^verbatim>\<open>targets.go\<close>). The nodes are taken one after the other, where the code takes them side by side.
  Times, texts of errors, floats and the environment are arguments.
\<close>

section \<open>What the tools are given\<close>

record ctl =
  ct_now :: string                              \<comment> \<open>RFC 3339\<close>
  ct_stamp :: string                            \<comment> \<open>nanoseconds, for run ids\<close>
  ct_floats :: floats
  ct_load_err :: "load_err \<Rightarrow> string"
  ct_io_err :: "io_err \<Rightarrow> string"
  ct_cfg_err :: "cfg_error \<Rightarrow> string"
  ct_run_err :: "io_err option \<Rightarrow> string"
  ct_env :: "string \<Rightarrow> string"
  ct_show :: "json \<Rightarrow> string"                   \<comment> \<open>\<^verbatim>\<open>%v\<close>\<close>

definition memErr :: "string \<Rightarrow> string \<Rightarrow> string \<Rightarrow> json" where
  "memErr tool code msg = json_map [(''success'', JBool False), (''tool'', JStr tool), (''error'', tool_error code msg)]"

definition ok_json :: "string \<Rightarrow> (string \<times> json) list \<Rightarrow> json" where
  "ok_json tool ms = json_map ([(''success'', JBool True), (''tool'', JStr tool)] @ ms)"

text \<open>Load the store, or report; save it, or report.\<close>
definition with_store :: "ctl \<Rightarrow> front \<Rightarrow> string \<Rightarrow> (fleet \<Rightarrow> json \<times> mstate) \<Rightarrow> mstate \<Rightarrow> json \<times> mstate" where
  "with_store ct fr tool k s =
     (case LoadFleet (fr_home fr) (ms_fs s) of Inl e \<Rightarrow> (memErr tool ''load_failed'' (ct_load_err ct e), s) | Inr fl \<Rightarrow> k fl)"

definition save_store :: "ctl \<Rightarrow> front \<Rightarrow> string \<Rightarrow> fleet \<Rightarrow> json \<Rightarrow> mstate \<Rightarrow> json \<times> mstate" where
  "save_store ct fr tool fl r s =
     (case SaveFleet (ct_now ct) (fr_home fr) fl (ms_fs s) of
        (Some e, f) \<Rightarrow> (memErr tool ''save_failed'' (ct_io_err ct e), s\<lparr>ms_fs := f\<rparr>)
      | (None, f) \<Rightarrow> (r, s\<lparr>ms_fs := f\<rparr>))"

definition node_memory :: "fleet \<Rightarrow> string \<Rightarrow> memory" where
  "node_memory fl node = (case GetNode fl node of Some m \<Rightarrow> m | None \<Rightarrow> memory_zero)"

section \<open>Memory\<close>

definition toolMemoryGet :: "ctl \<Rightarrow> front \<Rightarrow> json \<Rightarrow> mstate \<Rightarrow> json \<times> mstate" where
  "toolMemoryGet ct fr args s = with_store ct fr ''vssh_memory_get'' (\<lambda>fl.
     (let node = getString args ''node'' in
      if node = '''' then
        (ok_json ''vssh_memory_get'' [(''version'', json_int (fl_version fl)), (''updated_at'', JStr (fl_updated fl)),
           (''node_count'', json_int (int (length (fl_nodes fl)))), (''nodes'', nodes_json (fl_nodes fl))], s)
      else (case GetNode fl node of
          None \<Rightarrow> (memErr ''vssh_memory_get'' ''not_found'' (''no memory for node '' @ node), s)
        | Some m \<Rightarrow> (ok_json ''vssh_memory_get'' [(''node'', JStr node), (''memory'', memory_json m)], s)))) s"

text \<open>Only the members that are given change.\<close>
definition edit_memory :: "json \<Rightarrow> memory \<Rightarrow> memory" where
  "edit_memory args m = m\<lparr>
     me_role := (if json_get ''role'' args = None then me_role m else getString args ''role''),
     me_services := (if json_get ''services'' args = None then me_services m else getStringList args ''services'' (me_services m)),
     me_tags := (if json_get ''tags'' args = None then me_tags m else getStringList args ''tags'' (me_tags m))\<rparr>"

definition toolMemorySet :: "ctl \<Rightarrow> front \<Rightarrow> json \<Rightarrow> mstate \<Rightarrow> json \<times> mstate" where
  "toolMemorySet ct fr args s =
     (let node = getString args ''node''; tool = ''vssh_memory_set'' in
      if node = '''' then (memErr tool ''missing_argument'' ''node is required'', s)
      else with_store ct fr tool (\<lambda>fl.
        let fl1 = SetNode (ct_now ct) node (edit_memory args (node_memory fl node)) fl
        in save_store ct fr tool fl1 (ok_json tool [(''node'', JStr node), (''memory'', memory_json (node_memory fl1 node))]) s) s)"

definition toolMemoryNote :: "ctl \<Rightarrow> front \<Rightarrow> json \<Rightarrow> mstate \<Rightarrow> json \<times> mstate" where
  "toolMemoryNote ct fr args s =
     (let node = getString args ''node''; t = getString args ''text''; tool = ''vssh_memory_note'' in
      if node = '''' \<or> t = '''' then (memErr tool ''missing_argument'' ''node and text are required'', s)
      else with_store ct fr tool (\<lambda>fl.
        let fl1 = AddNote (ct_now ct) node t fl
        in save_store ct fr tool fl1 (ok_json tool [(''node'', JStr node), (''memory'', memory_json (node_memory fl1 node))]) s) s)"

definition toolMemoryAutoNote :: "ctl \<Rightarrow> front \<Rightarrow> json \<Rightarrow> mstate \<Rightarrow> json \<times> mstate" where
  "toolMemoryAutoNote ct fr args s =
     (let node = getString args ''node''; out = getString args ''output''; tool = ''vssh_memory_auto_note'' in
      if node = '''' \<or> out = '''' then (memErr tool ''missing_argument'' ''node and output are required'', s)
      else with_store ct fr tool (\<lambda>fl.
        let (ns, fl1) = AutoNote (ct_floats ct) (ct_now ct) node (getString args ''command'') out fl
        in save_store ct fr tool fl1 (ok_json tool [(''node'', JStr node), (''extracted'', json_list (map JStr ns)),
             (''memory'', memory_json (node_memory fl1 node))]) s) s)"

definition toolMemoryFind :: "ctl \<Rightarrow> front \<Rightarrow> json \<Rightarrow> mstate \<Rightarrow> json \<times> mstate" where
  "toolMemoryFind ct fr args s = with_store ct fr ''vssh_memory_find'' (\<lambda>fl.
     let ms = FindNodes \<lparr>ff_role = getString args ''role'', ff_tag = getString args ''tag'',
                ff_service = getString args ''service'', ff_text = getString args ''text''\<rparr> fl
     in (ok_json ''vssh_memory_find'' [(''match_count'', json_int (int (length ms))), (''nodes'', JArr (map memory_json ms))], s)) s"

definition hit_json :: "hit \<Rightarrow> json" where
  "hit_json h = JObj [(''node'', JStr (ht_node h)), (''memory'', memory_json (ht_memory h)),
     (''reasons'', texts (ht_reasons h)), (''score'', json_int (ht_score h))]"

definition toolMemoryAsk :: "ctl \<Rightarrow> front \<Rightarrow> json \<Rightarrow> mstate \<Rightarrow> json \<times> mstate" where
  "toolMemoryAsk ct fr args s =
     (let query = getString args ''query''; tool = ''vssh_memory_ask'' in
      if query = '''' then (memErr tool ''missing_argument'' ''query is required'', s)
      else with_store ct fr tool (\<lambda>fl.
        let hs = AskFleet query fl
        in (ok_json tool [(''query'', JStr query), (''match_count'', json_int (int (length hs))),
              (''matches'', JArr (map hit_json hs))], s)) s)"

section \<open>Discovery and health\<close>

definition ProbeCommand :: string where
  "ProbeCommand = join [NL]
     ['''',
      ''echo '' @ [CHR 0x22] @ ''os=$(uname -s)'' @ [CHR 0x22],
      ''echo '' @ [CHR 0x22] @ ''arch=$(uname -m)'' @ [CHR 0x22],
      ''if [ -r /etc/os-release ]; then . /etc/os-release 2>/dev/null; echo '' @ [CHR 0x22] @
        ''distro=${ID:-}'' @ [CHR 0x22] @ ''; fi'',
      ''if command -v nvidia-smi >/dev/null 2>&1; then'',
      ''  nvidia-smi --query-gpu=name --format=csv,noheader 2>/dev/null | while read -r g; do echo '' @
        [CHR 0x22] @ ''gpu=$g'' @ [CHR 0x22] @ ''; done'',
      ''fi'',
      ''if command -v systemctl >/dev/null 2>&1; then'',
      ''  systemctl list-units --type=service --state=running --no-legend --no-pager 2>/dev/null '' @
        [CHR 0x5C],
      ''    | awk '' @ [CHR 0x27] @ ''{sub(/'' @ [CHR 0x5C] @ ''.service$/,'' @ [CHR 0x22, CHR 0x22] @
        '',$1); print '' @ [CHR 0x22] @ ''unit='' @ [CHR 0x22] @ ''$1}'' @ [CHR 0x27],
      ''fi'',
      ''(ss -tlnH 2>/dev/null || netstat -tln 2>/dev/null) '' @ [CHR 0x5C],
      ''  | awk '' @ [CHR 0x27] @ ''{print $4}'' @ [CHR 0x27] @ '' | sed '' @ [CHR 0x27] @ ''s/.*[:.]//'' @
        [CHR 0x27] @ '' | grep -E '' @ [CHR 0x27] @ ''^[0-9]+$'' @ [CHR 0x27] @ '' | sort -un | awk '' @
        [CHR 0x27] @ ''{print '' @ [CHR 0x22] @ ''port='' @ [CHR 0x22] @ ''$1}'' @ [CHR 0x27],
      ''if command -v docker >/dev/null 2>&1; then echo '' @ [CHR 0x22] @
        ''containers=$(docker ps -q 2>/dev/null | wc -l | tr -d '' @ [CHR 0x27] @ '' '' @ [CHR 0x27] @ '')'' @
        [CHR 0x22] @ ''; fi'',
      ''echo '' @ [CHR 0x22] @ ''disk_gb=$(df -k / 2>/dev/null | tail -1 | awk '' @ [CHR 0x27] @ ''{printf '' @
        [CHR 0x22] @ ''%d'' @ [CHR 0x22] @ '', $2/1048576}'' @ [CHR 0x27] @ '')'' @ [CHR 0x22],
      ''# Largest single real filesystem '' @ [CHR 0xE2, CHR 0x80, CHR 0x94] @
        '' a NAS/storage box has its bulk on a data'',
      ''# volume (/volume1, /mnt/...), not on a small root, so root size alone misses it.'',
      ''echo '' @ [CHR 0x22] @
        ''bigdisk_gb=$(df -k -x tmpfs -x devtmpfs -x overlay -x squashfs 2>/dev/null | awk '' @ [CHR 0x27] @
        ''NR>1{if($2>m)m=$2}END{printf '' @ [CHR 0x22] @ ''%d'' @ [CHR 0x22] @ '', m/1048576}'' @ [CHR 0x27] @
        '')'' @ [CHR 0x22],
      '''']"

definition HealthProbeCommand :: string where
  "HealthProbeCommand = join [NL]
     ['''',
      ''echo '' @ [CHR 0x22] @ ''load=$(cat /proc/loadavg 2>/dev/null | awk '' @ [CHR 0x27] @ ''{print $1}'' @
        [CHR 0x27] @ '' || uptime | sed '' @ [CHR 0x27] @ ''s/.*averages*: //'' @ [CHR 0x27] @ '' | awk -F'' @
        [CHR 0x27] @ ''[, ]+'' @ [CHR 0x27] @ '' '' @ [CHR 0x27] @ ''{print $1}'' @ [CHR 0x27] @ '')'' @
        [CHR 0x22],
      ''echo '' @ [CHR 0x22] @ ''cores=$(nproc 2>/dev/null || sysctl -n hw.ncpu 2>/dev/null || echo 1)'' @
        [CHR 0x22],
      ''echo '' @ [CHR 0x22] @ ''disk_pct=$(df -P / 2>/dev/null | awk '' @ [CHR 0x27] @ ''NR==2{gsub(/%/,'' @
        [CHR 0x22, CHR 0x22] @ '',$5); print $5}'' @ [CHR 0x27] @ '')'' @ [CHR 0x22],
      ''echo '' @ [CHR 0x22] @ ''mem_pct=$(free 2>/dev/null | awk '' @ [CHR 0x27] @ ''/Mem:/{printf '' @
        [CHR 0x22] @ ''%d'' @ [CHR 0x22] @ '', $3*100/$2}'' @ [CHR 0x27] @ '')'' @ [CHR 0x22],
      ''echo '' @ [CHR 0x22] @
        ''failed=$(systemctl --failed --no-legend --no-pager 2>/dev/null | grep -c . )'' @ [CHR 0x22],
      '''']"

text \<open>Every node vssh knows, each once, in order.\<close>
definition peerNames :: "front \<Rightarrow> string list" where
  "peerNames fr = sort (dedup (filter (\<lambda>n. n \<noteq> '''') (map pe_name (st_peers (fr_site fr)))))"

text \<open>One command on the address of a node.\<close>
definition run_at :: "front \<Rightarrow> string \<Rightarrow> string \<Rightarrow> mstate \<Rightarrow> (exec_result \<times> string option) \<times> mstate" where
  "run_at fr target command s = (let (h, s1) = reach fr target s in exec_on fr h (fr_port fr) command s1)"

record discovery =
  di_node :: string
  di_role :: string
  di_services :: "string list"
  di_tags :: "string list"
  di_error :: string

definition discover_one :: "front \<Rightarrow> string \<Rightarrow> mstate \<Rightarrow> discovery \<times> mstate" where
  "discover_one fr t s =
     (let ((r, err), s1) = run_at fr t ProbeCommand s;
          failed = (\<lambda>m. \<lparr>di_node = t, di_role = '''', di_services = [], di_tags = [], di_error = m\<rparr>)
      in (case err of
            Some m \<Rightarrow> failed m
          | None \<Rightarrow>
              if \<not> er_success r then failed (if trim_space (er_error r) \<noteq> '''' then er_error r else ''unreachable'')
              else (let m = Infer (ParseSignals (er_stdout r)) in
                    \<lparr>di_node = t, di_role = me_role m, di_services = me_services m, di_tags = me_tags m, di_error = ''''\<rparr>), s1))"

definition discoverNodes :: "front \<Rightarrow> string list \<Rightarrow> mstate \<Rightarrow> discovery list \<times> mstate" where
  "discoverNodes fr targets s = (let (rs, s1) = over_targets (discover_one fr) targets s in (map snd rs, s1))"

definition discovery_json :: "discovery \<Rightarrow> json" where
  "discovery_json d = JObj ([(''node'', JStr (di_node d))] @ omit_empty ''role'' (di_role d)
     @ omit_texts ''services'' (di_services d) @ omit_texts ''tags'' (di_tags d) @ omit_empty ''error'' (di_error d))"

definition given_targets :: "front \<Rightarrow> json \<Rightarrow> string list" where
  "given_targets fr args =
     (let t = getString args ''target'' in
      map trim_space (if trim_space t \<noteq> '''' then split_on (CHR '','') t else peerNames fr))"

text \<open>Role, services and tags of the nodes that answered; the notes stay.\<close>
definition apply_discovery :: "string \<Rightarrow> discovery list \<Rightarrow> fleet \<Rightarrow> fleet" where
  "apply_discovery now ds =
     fold (\<lambda>d fl. SetNode now (di_node d) (memory_zero\<lparr>me_role := di_role d, me_services := di_services d, me_tags := di_tags d\<rparr>) fl)
       (filter (\<lambda>d. di_error d = '''') ds)"

definition toolMemoryDiscover :: "ctl \<Rightarrow> front \<Rightarrow> json \<Rightarrow> mstate \<Rightarrow> json \<times> mstate" where
  "toolMemoryDiscover ct fr args s =
     (let targets = given_targets fr args; tool = ''vssh_memory'' in
      if targets = [] then (memErr tool ''no_nodes'' ''no peers configured to discover'', s)
      else
        let (ds, s1) = discoverNodes fr targets s; do_apply = getBool args ''apply'' False;
            r = (\<lambda>n. ok_json tool [(''action'', JStr ''discover''), (''applied'', JBool do_apply),
                   (''applied_count'', json_int n), (''nodes'', JArr (map discovery_json ds))])
        in if do_apply then with_store ct fr tool (\<lambda>fl.
             save_store ct fr tool (apply_discovery (ct_now ct) ds fl)
               (r (int (length (filter (\<lambda>d. di_error d = '''') ds)))) s1) s1
           else (r 0, s1))"

text \<open>A node that cannot be reached is reported as such.\<close>
record node_health =
  nh_node :: string
  nh_severity :: "severity option"
  nh_signals :: health
  nh_issues :: "string list"
  nh_error :: string

definition no_signals :: health where
  "no_signals = \<lparr>hs_load = ''0'', hs_cores = 0, hs_disk = 0, hs_mem = 0, hs_failed = 0\<rparr>"

definition health_one :: "floats \<Rightarrow> front \<Rightarrow> string \<Rightarrow> mstate \<Rightarrow> node_health \<times> mstate" where
  "health_one fp fr t s =
     (let ((r, err), s1) = run_at fr t HealthProbeCommand s;
          down = (\<lambda>m. \<lparr>nh_node = t, nh_severity = None, nh_signals = no_signals, nh_issues = [], nh_error = m\<rparr>)
      in (case err of
            Some m \<Rightarrow> down m
          | None \<Rightarrow>
              if \<not> er_success r then down ''unreachable''
              else (let h = ParseHealth (er_stdout r); (sev, issues) = Assess fp h in
                    \<lparr>nh_node = t, nh_severity = Some sev, nh_signals = h, nh_issues = issues, nh_error = ''''\<rparr>), s1))"

definition probeFleetHealth :: "floats \<Rightarrow> front \<Rightarrow> string list \<Rightarrow> mstate \<Rightarrow> node_health list \<times> mstate" where
  "probeFleetHealth fp fr targets s = (let (rs, s1) = over_targets (health_one fp fr) targets s in (map snd rs, s1))"

definition severity_text :: "severity option \<Rightarrow> string" where
  "severity_text x = (case x of None \<Rightarrow> ''unreachable'' | Some HealthOK \<Rightarrow> ''ok'' | Some HealthWarn \<Rightarrow> ''warn''
     | Some HealthCritical \<Rightarrow> ''critical'')"

definition omit_zero :: "string \<Rightarrow> int \<Rightarrow> (string \<times> json) list" where
  "omit_zero k i = (if i = 0 then [] else [(k, json_int i)])"

definition health_json :: "front \<Rightarrow> node_health \<Rightarrow> json" where
  "health_json fr n = JObj
     ([(''node'', JStr (nh_node n)), (''severity'', JStr (severity_text (nh_severity n)))]
      @ (if fr_num fr (hs_load (nh_signals n)) = JNum ''0'' then [] else [(''load'', fr_num fr (hs_load (nh_signals n)))])
      @ omit_zero ''cores'' (hs_cores (nh_signals n)) @ omit_zero ''disk_pct'' (hs_disk (nh_signals n))
      @ omit_zero ''mem_pct'' (hs_mem (nh_signals n)) @ omit_zero ''failed_units'' (hs_failed (nh_signals n))
      @ omit_texts ''issues'' (nh_issues n) @ omit_empty ''error'' (nh_error n))"

definition healthRank :: "node_health \<Rightarrow> int" where
  "healthRank n = (case nh_severity n of None \<Rightarrow> - 1 | Some v \<Rightarrow> int (SeverityRank v))"

definition healthCounts :: "node_health list \<Rightarrow> json" where
  "healthCounts ns = json_map (map (\<lambda>v. (severity_text v, json_int (int (length (filter (\<lambda>n. nh_severity n = v) ns)))))
     [Some HealthOK, Some HealthWarn, Some HealthCritical, None])"

text \<open>The report of the command line is put in order by exchanges: each place takes, from the rest, what
  belongs before it.\<close>
fun settle :: "('a \<Rightarrow> 'a \<Rightarrow> bool) \<Rightarrow> 'a \<Rightarrow> 'a list \<Rightarrow> 'a \<times> 'a list" where
  "settle before x [] = (x, [])"
| "settle before x (y # ys) =
     (if before y x then (let (m, zs) = settle before y ys in (m, x # zs))
      else (let (m, zs) = settle before x ys in (m, y # zs)))"

lemma settle_length: "settle before x ys = (m, zs) \<Longrightarrow> length zs = length ys"
  by (induction before x ys arbitrary: m zs rule: settle.induct) (auto split: prod.splits if_splits)

function exchange_sort :: "('a \<Rightarrow> 'a \<Rightarrow> bool) \<Rightarrow> 'a list \<Rightarrow> 'a list" where
  "exchange_sort before [] = []"
| "exchange_sort before (x # xs) = (case settle before x xs of (m, ys) \<Rightarrow> m # exchange_sort before ys)"
  by pat_completeness auto
termination
  by (relation "measure (\<lambda>(_, xs). length xs)") (auto dest!: settle_length[OF sym])

definition worse :: "node_health \<Rightarrow> node_health \<Rightarrow> bool" where
  "worse a b \<longleftrightarrow> healthRank a < healthRank b \<or> healthRank a = healthRank b \<and> nh_node a < nh_node b"

definition cmdFleetHealth_report :: "node_health list \<Rightarrow> node_health list" where
  "cmdFleetHealth_report = exchange_sort worse"

definition toolFleetHealth :: "ctl \<Rightarrow> front \<Rightarrow> json \<Rightarrow> mstate \<Rightarrow> json \<times> mstate" where
  "toolFleetHealth ct fr args s =
     (let targets = given_targets fr args; tool = ''vssh_fleet_health'' in
      if targets = [] then (memErr tool ''no_nodes'' ''no peers to check'', s)
      else let (ns, s1) = probeFleetHealth (ct_floats ct) fr targets s
           in (ok_json tool [(''summary'', healthCounts ns), (''nodes'', JArr (map (health_json fr) ns))], s1))"

section \<open>Targets\<close>

text \<open>The nodes of a selector.\<close>
definition facet :: "string \<Rightarrow> string \<Rightarrow> fleet_filter" where
  "facet k v = \<lparr>ff_role = (if k = ''role'' then v else ''''), ff_tag = (if k = ''tag'' then v else ''''),
     ff_service = (if k = ''service'' then v else ''''), ff_text = ''''\<rparr>"

definition expandSelector :: "fleet \<Rightarrow> string \<Rightarrow> string + string list" where
  "expandSelector fl tok =
     (let sel = to_lower (trim_space (trim_prefix ''@'' tok)) in
      if sel = '''' then Inl (''empty selector '' @ go_quote tok)
      else if sel = ''all'' then
        (if fl_nodes fl = [] then Inl ''selector @all matched no nodes (fleet memory empty)''
         else Inr (sort (map fst (fl_nodes fl))))
      else
        let found = (if has_prefix ''role:'' sel \<or> has_prefix ''tag:'' sel \<or> has_prefix ''service:'' sel then
               (case cut (CHR '':'') sel of None \<Rightarrow> Inr [] | Some (k, v) \<Rightarrow>
                  if v = '''' then Inl (''empty '' @ k @ '' value in selector '' @ go_quote tok)
                  else Inr (map me_name (FindNodes (facet k v) fl)))
             else Inr (dedup (concat (map (\<lambda>k. map me_name (FindNodes (facet k sel) fl)) [''role'', ''tag'', ''service'']))))
        in (case found of Inl e \<Rightarrow> Inl e
            | Inr [] \<Rightarrow> Inl (''selector '' @ go_quote tok @ '' matched no nodes'')
            | Inr ns \<Rightarrow> Inr (sort ns)))"

fun expand_tokens :: "fleet \<Rightarrow> string list \<Rightarrow> string + string list" where
  "expand_tokens fl [] = Inr []"
| "expand_tokens fl (t # ts) =
     (let tok = trim_space t;
          here = (if tok = '''' then Inr [] else if \<not> has_prefix ''@'' tok then Inr [tok] else expandSelector fl tok)
      in case here of Inl e \<Rightarrow> Inl e
         | Inr ns \<Rightarrow> (case expand_tokens fl ts of Inl e \<Rightarrow> Inl e | Inr ms \<Rightarrow> Inr (ns @ ms)))"

definition resolveTargetsWith :: "fleet \<Rightarrow> string \<Rightarrow> string + string list" where
  "resolveTargetsWith fl spec =
     (let spec = trim_space spec in
      if spec = '''' then Inl ''empty target''
      else (case expand_tokens fl (split_on (CHR '','') spec) of Inl e \<Rightarrow> Inl e
          | Inr ns \<Rightarrow> (let out = dedup (filter (\<lambda>n. n \<noteq> '''') ns) in
              if out = [] then Inl (''target '' @ go_quote spec @ '' resolved to no nodes'') else Inr out)))"

definition resolveTargets :: "ctl \<Rightarrow> front \<Rightarrow> string \<Rightarrow> mstate \<Rightarrow> string + string list" where
  "resolveTargets ct fr spec s =
     (case LoadFleet (fr_home fr) (ms_fs s) of Inl e \<Rightarrow> Inl (ct_load_err ct e) | Inr fl \<Rightarrow> resolveTargetsWith fl spec)"

section \<open>Plans\<close>

fun run_commands :: "front \<Rightarrow> string \<Rightarrow> string list \<Rightarrow> mstate \<Rightarrow> json list \<times> mstate" where
  "run_commands fr h [] s = ([], s)"
| "run_commands fr h (c # cs) s =
     (let ((r, err), s1) = exec_on fr h (fr_port fr) c s; (rs, s2) = run_commands fr h cs s1
      in (JObj ([(''command'', JStr c), (''stdout'', JStr (er_stdout r)), (''stderr'', JStr (er_stderr r)),
            (''exit_code'', json_int (er_exit r)), (''success'', JBool (err = None \<and> er_success r))]
            @ (case err of None \<Rightarrow> [] | Some m \<Rightarrow> omit_empty ''error'' m)) # rs, s2))"

definition runPlan :: "front \<Rightarrow> string list \<Rightarrow> string \<Rightarrow> mstate \<Rightarrow> json list \<times> mstate" where
  "runPlan fr commands target s = (let (h, s1) = reach fr target s in run_commands fr h commands s1)"

definition runPlanMulti :: "front \<Rightarrow> string list \<Rightarrow> string list \<Rightarrow> mstate \<Rightarrow> json list \<times> mstate" where
  "runPlanMulti fr targets commands s =
     (let (rs, s1) = over_targets (runPlan fr commands) targets s
      in (map (\<lambda>(t, r). JObj [(''node'', JStr t), (''results'', JArr r)]) rs, s1))"

definition toolIntent :: "ctl \<Rightarrow> front \<Rightarrow> json \<Rightarrow> mstate \<Rightarrow> json \<times> mstate" where
  "toolIntent ct fr args s =
     (let query = getString args ''query''; tool = ''vssh_intent'' in
      if trim_space query = '''' then (memErr tool ''missing_argument'' ''query is required'', s)
      else (case ResolveIntent (fr_home fr) (ms_fs s) query of
          None \<Rightarrow> (json_map [(''success'', JBool False), (''tool'', JStr tool), (''query'', JStr query),
                     (''error'', tool_error ''no_match'' ''no intent matched the query'')], s)
        | Some p \<Rightarrow>
            let target = getString args ''target'';
                base = [(''tool'', JStr tool), (''query'', JStr query), (''intent'', JStr (pn_intent p)),
                  (''commands'', json_list (map JStr (pn_commands p))), (''rationale'', JStr (pn_rationale p)),
                  (''matched_keywords'', json_list (map JStr (pn_matched p)))];
                failed = (\<lambda>c m. json_map (base @ [(''success'', JBool False), (''executed'', JBool False), (''error'', tool_error c m)]))
            in if \<not> getBool args ''execute'' False then (json_map (base @ [(''success'', JBool True), (''executed'', JBool False)]), s)
               else if target = '''' then (failed ''missing_argument'' ''execute=true requires target'', s)
               else (case resolveTargets ct fr target s of
                   Inl e \<Rightarrow> (failed ''bad_target'' e, s)
                 | Inr ts \<Rightarrow>
                     let (ns, s1) = runPlanMulti fr ts (pn_commands p) s
                     in (json_map (base @ [(''success'', JBool True), (''executed'', JBool True), (''target'', JStr target),
                           (''targets'', texts ts), (''nodes'', JArr ns)]), s1))))"

definition newRunID :: "ctl \<Rightarrow> string \<Rightarrow> string" where "newRunID ct name = name @ ''-'' @ ct_stamp ct"

text \<open>The runner of a plan, on an address resolved once.\<close>
definition nativeExecFunc :: "front \<Rightarrow> string \<Rightarrow> mstate runner" where
  "nativeExecFunc fr h c s =
     (let ((r, err), s1) = exec_on fr h (fr_port fr) c s
      in ((er_stdout r, er_stderr r, er_exit r, err = None \<and> er_success r, err), s1))"

definition no_runner :: "mstate runner" where "no_runner c s = (('''', '''', 0, False, None), s)"

definition workflow_json :: "workflow \<Rightarrow> json" where
  "workflow_json w = json_map [(''name'', JStr (wf_name w)), (''description'', JStr (wf_desc w)),
     (''params'', json_list (map JStr (wf_params w))), (''steps'', json_int (int (length (wf_steps w))))]"

text \<open>The files of the directory of plans are an argument.\<close>
definition toolWorkflowList :: "(string \<times> bool) list \<Rightarrow> front \<Rightarrow> mstate \<Rightarrow> json \<times> mstate" where
  "toolWorkflowList entries fr s =
     (let ws = ListWorkflows (fr_home fr) entries (ms_fs s) in
      (ok_json ''vssh_workflow_list'' [(''count'', json_int (int (length ws))), (''workflows'', JArr (map workflow_json ws))], s))"

definition given_params :: "ctl \<Rightarrow> json \<Rightarrow> (string \<times> string) list" where
  "given_params ct args = (case getParamsMap args ''params'' of
     JObj ms \<Rightarrow> overlay fst (map (\<lambda>(k, v). (k, ct_show ct v)) ms) [] | _ \<Rightarrow> [])"

definition toolWorkflowRun :: "(string \<times> bool) list \<Rightarrow> ctl \<Rightarrow> front \<Rightarrow> json \<Rightarrow> mstate \<Rightarrow> json \<times> mstate" where
  "toolWorkflowRun entries ct fr args s =
     (let name = getString args ''name''; tool = ''vssh_workflow_run'' in
      if name = '''' then (memErr tool ''missing_argument'' ''name is required'', s)
      else (case GetWorkflow (fr_home fr) entries (ms_fs s) name of
          None \<Rightarrow> (memErr tool ''not_found'' (''no workflow '' @ name), s)
        | Some w \<Rightarrow>
            let ps = given_params ct args; dry = getBool args ''dry_run'' False; target = getString args ''target'' in
            (case Validate w ps of
               Some e \<Rightarrow> (memErr tool ''invalid_params'' e, s)
             | None \<Rightarrow>
                 if target = '''' \<and> \<not> dry then (memErr tool ''missing_argument'' ''target is required unless dry_run=true'', s)
                 else
                   let (exec, s1) = (if dry then (no_runner, s) else (let (h, s1) = reach fr target s in (nativeExecFunc fr h, s1)));
                       (r, s2) = Run_workflow w (newRunID ct name) target ps dry exec (ct_now ct) (ct_now ct) s1;
                       (err, f) = SaveRun (fr_home fr) r (ms_fs s2);
                       r1 = (case err of None \<Rightarrow> r
                             | Some e \<Rightarrow> r\<lparr>rr_summary := rr_summary r @ '' (warning: run not persisted: '' @ ct_io_err ct e @ '')''\<rparr>)
                   in (json_map [(''success'', JBool (rr_status r1 \<noteq> ''aborted'' \<and> rr_status r1 \<noteq> ''failed'')),
                         (''tool'', JStr tool), (''run'', run_json r1)], s2\<lparr>ms_fs := f\<rparr>))))"

definition toolWorkflowStatus :: "ctl \<Rightarrow> front \<Rightarrow> json \<Rightarrow> mstate \<Rightarrow> json \<times> mstate" where
  "toolWorkflowStatus ct fr args s =
     (let rid = getString args ''run_id''; tool = ''vssh_workflow_status'' in
      if rid = '''' then (memErr tool ''missing_argument'' ''run_id is required'', s)
      else (case LoadRun (fr_home fr) rid (ms_fs s) of
          Inl e \<Rightarrow> (memErr tool ''not_found'' (ct_run_err ct e), s)
        | Inr r \<Rightarrow> (ok_json tool [(''run'', run_json r)], s)))"

section \<open>Configuration\<close>

definition configWriteAllowed :: "ctl \<Rightarrow> bool" where
  "configWriteAllowed ct \<longleftrightarrow>
     (let v = trim_space (ct_env ct ''VSSH_ALLOW_CONFIG_WRITE'') in v = ''1'' \<or> equal_fold v ''true'' \<or> equal_fold v ''yes'')"

definition disabled_text :: string where
  "disabled_text = ''config-mutating tools are OFF by default; set VSSH_ALLOW_CONFIG_WRITE=1 on the vssh mcp server to let the AI manage local config''"

text \<open>The frame of the tools that write: the switch, the arguments, the write.\<close>
definition config_tool ::
  "ctl \<Rightarrow> string \<Rightarrow> bool \<Rightarrow> string \<Rightarrow> (fs \<Rightarrow> (string option \<times> (string \<times> json) list) \<times> fs) \<Rightarrow> mstate \<Rightarrow> json \<times> mstate" where
  "config_tool ct tool complete what write s =
     (if \<not> configWriteAllowed ct then (memErr tool ''config_write_disabled'' disabled_text, s)
      else if \<not> complete then (memErr tool ''missing_argument'' what, s)
      else (let ((err, ms), f) = write (ms_fs s)
            in (case err of Some e \<Rightarrow> memErr tool ''write_failed'' e | None \<Rightarrow> ok_json tool ms, s\<lparr>ms_fs := f\<rparr>)))"

definition trimmed :: "json \<Rightarrow> string \<Rightarrow> string" where "trimmed args k = trim_space (getString args k)"

definition toolConfigAuthorizeKey :: "ctl \<Rightarrow> front \<Rightarrow> json \<Rightarrow> mstate \<Rightarrow> json \<times> mstate" where
  "toolConfigAuthorizeKey ct fr args =
     (let pub = trimmed args ''pubkey'' in
      config_tool ct ''vssh_config_authorize_key'' (pub \<noteq> '''') ''pubkey is required'' (\<lambda>f.
        let (err, f1) = AuthorizeKey (fr_home fr) pub (getString args ''caps'') (getString args ''comment'') f
        in ((map_option (ct_cfg_err ct) err, [(''authorized'', JStr pub), (''path'', JStr (authorizedKeysPath (fr_home fr))),
              (''note'', JStr ''local controller only; use scripts/rotate_authorized_key.sh to propagate fleet-wide'')]), f1)))"

definition toolConfigRevokeKey :: "ctl \<Rightarrow> front \<Rightarrow> json \<Rightarrow> mstate \<Rightarrow> json \<times> mstate" where
  "toolConfigRevokeKey ct fr args =
     (let pub = trimmed args ''pubkey'' in
      config_tool ct ''vssh_config_revoke_key'' (pub \<noteq> '''') ''pubkey is required'' (\<lambda>f.
        let ((removed, err), f1) = RevokeKey (fr_home fr) pub f
        in ((map_option (ct_io_err ct) err, [(''removed'', JBool removed), (''pubkey'', JStr pub)]), f1)))"

definition toolConfigSetNode :: "ctl \<Rightarrow> front \<Rightarrow> json \<Rightarrow> mstate \<Rightarrow> json \<times> mstate" where
  "toolConfigSetNode ct fr args =
     (let name = trimmed args ''name''; ip = trimmed args ''ip'' in
      config_tool ct ''vssh_config_set_node'' (name \<noteq> '''' \<and> ip \<noteq> '''') ''name and ip are required'' (\<lambda>f.
        let (err, f1) = SetNodeConfig (fr_home fr) name ip f
        in ((map_option (ct_cfg_err ct) err, [(''name'', JStr name), (''ip'', JStr ip)]), f1)))"

definition toolConfigPinNode :: "ctl \<Rightarrow> front \<Rightarrow> json \<Rightarrow> mstate \<Rightarrow> json \<times> mstate" where
  "toolConfigPinNode ct fr args =
     (let name = trimmed args ''name''; pub = trimmed args ''pubkey'' in
      config_tool ct ''vssh_config_pin_node'' (name \<noteq> '''' \<and> pub \<noteq> '''') ''name and pubkey are required'' (\<lambda>f.
        let (err, f1) = PinNode (fr_home fr) name pub f
        in ((map_option (ct_cfg_err ct) err, [(''name'', JStr name), (''pubkey'', JStr pub)]), f1)))"

text \<open>The lines of a file of the configuration without comments; nil when it cannot be read.\<close>
definition config_lines :: "front \<Rightarrow> string \<Rightarrow> fs \<Rightarrow> string list" where
  "config_lines fr name f =
     (case read_file f (join_path [vsshConfigDir (fr_home fr), name]) of Inl _ \<Rightarrow> []
      | Inr d \<Rightarrow> filter (\<lambda>l. l \<noteq> '''' \<and> \<not> has_prefix ''#'' l) (map trim_space (split_on NL d)))"

definition last_tag :: "string \<Rightarrow> string \<Rightarrow> string list \<Rightarrow> (string \<times> json) list" where
  "last_tag k pre xs = (case find (has_prefix pre) (rev xs) of None \<Rightarrow> [] | Some x \<Rightarrow> [(k, JStr (trim_prefix pre x))])"

definition key_entry :: "string \<Rightarrow> json" where
  "key_entry l = (case go_fields l of [] \<Rightarrow> JNull | k # xs \<Rightarrow>
     (let comment = filter (\<lambda>x. \<not> has_prefix ''caps='' x \<and> \<not> has_prefix ''policy='' x) xs in
      json_map ([(''pubkey'', JStr k)] @ last_tag ''caps'' ''caps='' xs @ last_tag ''policy'' ''policy='' xs
        @ (if comment = [] then [] else [(''comment'', JStr (join '' '' comment))]))))"

definition toolConfigList :: "ctl \<Rightarrow> front \<Rightarrow> mstate \<Rightarrow> json \<times> mstate" where
  "toolConfigList ct fr s =
     (let f = ms_fs s in
      (ok_json ''vssh_config_list'' [(''config_dir'', JStr (vsshConfigDir (fr_home fr))),
         (''authorized_keys'', JArr (map key_entry (config_lines fr ''authorized_keys'' f))),
         (''config'', json_list (map JStr (config_lines fr ''config'' f))),
         (''node_keys'', json_list (map JStr (config_lines fr ''node_keys'' f))),
         (''write_enabled'', JBool (configWriteAllowed ct))], s))"

section \<open>Dispatch\<close>

text \<open>The rest of the dispatcher; what is still left is an argument.\<close>
definition dispatch_fleet :: "(string \<times> bool) list \<Rightarrow> ctl \<Rightarrow> front \<Rightarrow> other_tools \<Rightarrow> other_tools" where
  "dispatch_fleet entries ct fr other name args s =
     (if name = ''vssh_memory_get'' then toolMemoryGet ct fr args s
      else if name = ''vssh_memory_set'' then toolMemorySet ct fr args s
      else if name = ''vssh_memory_note'' then toolMemoryNote ct fr args s
      else if name = ''vssh_memory_find'' then toolMemoryFind ct fr args s
      else if name = ''vssh_memory_auto_note'' then toolMemoryAutoNote ct fr args s
      else if name = ''vssh_memory_ask'' then toolMemoryAsk ct fr args s
      else if name = ''vssh_memory_discover'' then toolMemoryDiscover ct fr args s
      else if name = ''vssh_fleet_health'' then toolFleetHealth ct fr args s
      else if name = ''vssh_intent'' then toolIntent ct fr args s
      else if name = ''vssh_workflow_list'' then toolWorkflowList entries fr s
      else if name = ''vssh_workflow_run'' then toolWorkflowRun entries ct fr args s
      else if name = ''vssh_workflow_status'' then toolWorkflowStatus ct fr args s
      else if name = ''vssh_config_list'' then toolConfigList ct fr s
      else if name = ''vssh_config_authorize_key'' then toolConfigAuthorizeKey ct fr args s
      else if name = ''vssh_config_revoke_key'' then toolConfigRevokeKey ct fr args s
      else if name = ''vssh_config_set_node'' then toolConfigSetNode ct fr args s
      else if name = ''vssh_config_pin_node'' then toolConfigPinNode ct fr args s
      else other name args s)"

end
