(* ===== verification/FleetState.thy ===== *)
theory FleetState
  imports FleetLog Identity
begin

text \<open>
  The signed snapshot of the fleet (\<^verbatim>\<open>internal/server/fleetstate.go\<close>): its canonical bytes, signing
  by the identity of the controller, verification, age and file. Ed25519, the clock and the reading of
  times are arguments. Nodes of one name stand in the order they came in, where \<^verbatim>\<open>sort.Slice\<close>
  promises none; a slice that is null in the file is read as one without elements.
\<close>

section \<open>The snapshot\<close>

record fleet_node =
  fn_name :: string
  fn_ip :: string
  fn_os :: string
  fn_arch :: string
  fn_caps :: "string list"
  fn_tags :: "string list"
  fn_pubkey :: string
  fn_online :: bool
  fn_seen :: int

record fleet_state =
  sn_version :: int
  sn_at :: string
  sn_by :: string                                 \<comment> \<open>the public key of the controller\<close>
  sn_nodes :: "fleet_node list"
  sn_sig :: string

definition node_zero :: fleet_node where
  "node_zero = \<lparr>fn_name = '''', fn_ip = '''', fn_os = '''', fn_arch = '''', fn_caps = [], fn_tags = [], fn_pubkey = '''',
     fn_online = False, fn_seen = 0\<rparr>"

definition state_zero :: fleet_state where
  "state_zero = \<lparr>sn_version = 0, sn_at = '''', sn_by = '''', sn_nodes = [], sn_sig = ''''\<rparr>"

definition omit_int :: "string \<Rightarrow> int \<Rightarrow> (string \<times> json) list" where
  "omit_int k i = (if i = 0 then [] else [(k, json_int i)])"

definition fleet_node_json :: "fleet_node \<Rightarrow> json" where
  "fleet_node_json n = JObj ([(''name'', JStr (fn_name n))] @ omit_empty ''ip'' (fn_ip n) @ omit_empty ''os'' (fn_os n)
     @ omit_empty ''arch'' (fn_arch n) @ omit_texts ''caps'' (fn_caps n) @ omit_texts ''tags'' (fn_tags n)
     @ omit_empty ''pubkey'' (fn_pubkey n) @ [(''online'', JBool (fn_online n))] @ omit_int ''last_seen'' (fn_seen n))"

definition state_json :: "fleet_state \<Rightarrow> json" where
  "state_json s = JObj ([(''version'', json_int (sn_version s)), (''generated_at'', JStr (sn_at s)),
     (''generated_by'', JStr (sn_by s)), (''nodes'', JArr (map fleet_node_json (sn_nodes s)))]
     @ omit_empty ''signature'' (sn_sig s))"

definition set_fleet_node :: "fleet_node setter" where
  "set_fleet_node k v n =
     (if equal_fold k ''name'' then text_field v (\<lambda>t. n\<lparr>fn_name := t\<rparr>) n
      else if equal_fold k ''ip'' then text_field v (\<lambda>t. n\<lparr>fn_ip := t\<rparr>) n
      else if equal_fold k ''os'' then text_field v (\<lambda>t. n\<lparr>fn_os := t\<rparr>) n
      else if equal_fold k ''arch'' then text_field v (\<lambda>t. n\<lparr>fn_arch := t\<rparr>) n
      else if equal_fold k ''caps'' then list_field text_value v (\<lambda>vs. n\<lparr>fn_caps := vs\<rparr>)
      else if equal_fold k ''tags'' then list_field text_value v (\<lambda>vs. n\<lparr>fn_tags := vs\<rparr>)
      else if equal_fold k ''pubkey'' then text_field v (\<lambda>t. n\<lparr>fn_pubkey := t\<rparr>) n
      else if equal_fold k ''online'' then flag_field v (\<lambda>b. n\<lparr>fn_online := b\<rparr>) n
      else if equal_fold k ''last_seen'' then num_field v (\<lambda>i. n\<lparr>fn_seen := i\<rparr>) n
      else Some n)"

definition set_state :: "fleet_state setter" where
  "set_state k v s =
     (if equal_fold k ''version'' then num_field v (\<lambda>i. s\<lparr>sn_version := i\<rparr>) s
      else if equal_fold k ''generated_at'' then text_field v (\<lambda>t. s\<lparr>sn_at := t\<rparr>) s
      else if equal_fold k ''generated_by'' then text_field v (\<lambda>t. s\<lparr>sn_by := t\<rparr>) s
      else if equal_fold k ''nodes'' then list_field (struct_of set_fleet_node node_zero) v (\<lambda>ns. s\<lparr>sn_nodes := ns\<rparr>)
      else if equal_fold k ''signature'' then text_field v (\<lambda>t. s\<lparr>sn_sig := t\<rparr>) s
      else Some s)"

definition FleetStatePath :: "string \<Rightarrow> path" where
  "FleetStatePath home = join_path [vsshConfigDir home, ''fleet_state.json'']"

section \<open>Signing and verifying\<close>

definition sortedNodesCopy :: "fleet_node list \<Rightarrow> fleet_node list" where
  "sortedNodesCopy ns = sort_key fn_name (map (\<lambda>n. n\<lparr>fn_caps := sort (fn_caps n), fn_tags := sort (fn_tags n)\<rparr>) ns)"

definition canonicalFleetBytes :: "fleet_state \<Rightarrow> bytes" where
  "canonicalFleetBytes s = marshal (state_json (s\<lparr>sn_sig := '''', sn_nodes := sortedNodesCopy (sn_nodes s)\<rparr>))"

text \<open>None is the panic of signing without a key.\<close>
definition BuildAndSignFleetState ::
  "(bytes \<Rightarrow> bytes \<Rightarrow> bytes) \<Rightarrow> string \<Rightarrow> ident_cache \<Rightarrow> fleet_node list \<Rightarrow> fleet_state option" where
  "BuildAndSignFleetState sign now c nodes =
     (let s = \<lparr>sn_version = 1, sn_at = now, sn_by = id_pub c, sn_nodes = sortedNodesCopy nodes, sn_sig = ''''\<rparr>
      in map_option (\<lambda>priv. s\<lparr>sn_sig := b64_encode (sign priv (canonicalFleetBytes s))\<rparr>) (id_priv c))"

definition VerifyFleetState :: "(bytes \<Rightarrow> bytes \<Rightarrow> bytes \<Rightarrow> bool) \<Rightarrow> fleet_state \<Rightarrow> bool" where
  "VerifyFleetState verify s =
     (case b64_decode (trim_space (sn_by s)) of None \<Rightarrow> False
      | Some pub \<Rightarrow> if length pub \<noteq> 32 then False
          else (case b64_decode (trim_space (sn_sig s)) of None \<Rightarrow> False
                | Some sg \<Rightarrow> length sg = 64 \<and> verify pub (canonicalFleetBytes s) sg))"

text \<open>In nanoseconds, where a difference of two times ends at the bounds of 64 bits; whole seconds.\<close>
definition FleetStateAgeSeconds :: "(string \<Rightarrow> int option) \<Rightarrow> int \<Rightarrow> fleet_state \<Rightarrow> int" where
  "FleetStateAgeSeconds parse_time now s =
     (case parse_time (sn_at s) of None \<Rightarrow> - 1
      | Some t \<Rightarrow> go_quot (go_sub now t) 1000000000)"

definition WriteFleetState :: "string \<Rightarrow> fleet_state \<Rightarrow> fs \<Rightarrow> io_err option \<times> fs" where
  "WriteFleetState home s f = write_file (FleetStatePath home) (marshal_indent 0 (state_json s)) f"

definition ReadFleetState :: "string \<Rightarrow> fs \<Rightarrow> load_err + fleet_state" where
  "ReadFleetState home f =
     (case read_file f (FleetStatePath home) of
        Inl e \<Rightarrow> Inl (Unreadable e)
      | Inr d \<Rightarrow>
          (case unmarshal d of None \<Rightarrow> Inl NotADocument
           | Some v \<Rightarrow> (case struct_of set_state state_zero v of None \<Rightarrow> Inl NotADocument | Some s \<Rightarrow> Inr s)))"

section \<open>What is written is read again\<close>

definition int64 :: "int \<Rightarrow> bool" where "int64 i \<longleftrightarrow> min_int64 \<le> i \<and> i \<le> max_int64"

definition fleet_node_ok :: "fleet_node \<Rightarrow> bool" where
  "fleet_node_ok n \<longleftrightarrow> list_all utf8 [fn_name n, fn_ip n, fn_os n, fn_arch n, fn_pubkey n] \<and>
     list_all utf8 (fn_caps n) \<and> list_all utf8 (fn_tags n) \<and> int64 (fn_seen n)"

definition state_ok :: "fleet_state \<Rightarrow> bool" where
  "state_ok s \<longleftrightarrow> int64 (sn_version s) \<and> utf8 (sn_at s) \<and> utf8 (sn_by s) \<and> utf8 (sn_sig s) \<and> list_all fleet_node_ok (sn_nodes s)"

lemma state_keys_ascii [json_keys]:
  "utf8_fix ''ip'' = ''ip''" "utf8_fix ''os'' = ''os''" "utf8_fix ''arch'' = ''arch''" "utf8_fix ''caps'' = ''caps''"
  "utf8_fix ''pubkey'' = ''pubkey''" "utf8_fix ''online'' = ''online''" "utf8_fix ''last_seen'' = ''last_seen''"
  "utf8_fix ''generated_at'' = ''generated_at''" "utf8_fix ''generated_by'' = ''generated_by''"
  "utf8_fix ''signature'' = ''signature''"
  by (simp_all add: utf8_fix_ascii is_ascii_def byte_in_def)

lemma node_keys_apart [json_keys]:
  "list_all (\<lambda>(a, b). (equal_fold a b) = (a = b))
     (List.product [''ip'', ''os'', ''arch'', ''caps'', ''tags'', ''pubkey'', ''online'', ''last_seen'']
        [''name'', ''ip'', ''os'', ''arch'', ''caps'', ''tags'', ''pubkey'', ''online'', ''last_seen''])"
  by code_simp

lemma state_keys_apart [json_keys]:
  "list_all (\<lambda>(a, b). (equal_fold a b) = (a = b))
     (List.product [''generated_at'', ''generated_by'', ''nodes'', ''signature'']
        [''version'', ''generated_at'', ''generated_by'', ''nodes'', ''signature''])"
  by code_simp

lemma norm_fleet_node: "fleet_node_ok n \<Longrightarrow> json_norm (fleet_node_json n) = fleet_node_json n"
  by (simp add: fleet_node_json_def fleet_node_ok_def omit_empty_def omit_texts_def omit_int_def norm_texts utf8_def
      state_keys_ascii keys_ascii)

lemma norm_fleet_nodes: "list_all fleet_node_ok ns \<Longrightarrow> map (json_norm \<circ> fleet_node_json) ns = map fleet_node_json ns"
  by (induction ns) (auto simp: norm_fleet_node)

lemma norm_state: "state_ok s \<Longrightarrow> json_norm (state_json s) = state_json s"
  by (simp add: state_json_def state_ok_def omit_empty_def norm_fleet_nodes utf8_def state_keys_ascii keys_ascii)

lemma wf_fleet_node [simp]: "json_wf (fleet_node_json n)"
  by (auto simp: fleet_node_json_def omit_empty_def omit_texts_def omit_int_def list_all_iff)

lemma wf_state [simp]: "json_wf (state_json s)"
  by (auto simp: state_json_def omit_empty_def list_all_iff)

lemma read_int: "int64 i \<Longrightarrow> go_atoi (show_int i) = (i, True)"
  by (simp add: int64_def go_atoi_show_int)

lemma read_fleet_node: "fleet_node_ok n \<Longrightarrow> struct_of set_fleet_node node_zero (fleet_node_json n) = Some n"
  using node_keys_apart
  by (simp add: struct_of_def fleet_node_json_def set_fleet_node_def text_field_def list_field_def flag_field_def num_field_def
      omit_empty_def omit_texts_def omit_int_def all_some_texts node_zero_def json_int_def read_int fleet_node_ok_def keys_apart)

lemma read_state: "state_ok s \<Longrightarrow> struct_of set_state state_zero (state_json s) = Some s"
proof -
  assume ok: "state_ok s"
  then have ns: "all_some (map (struct_of set_fleet_node node_zero \<circ> fleet_node_json) (sn_nodes s)) = Some (sn_nodes s)"
    using all_some_map[of "sn_nodes s" "struct_of set_fleet_node node_zero \<circ> fleet_node_json" id]
    by (simp add: read_fleet_node state_ok_def list_all_iff)
  show ?thesis using ok ns state_keys_apart
    by (simp add: struct_of_def state_json_def set_state_def text_field_def list_field_def num_field_def omit_empty_def
        state_zero_def json_int_def read_int state_ok_def keys_apart)
qed

text \<open>The file gives back the snapshot.\<close>
lemma read_written_state:
  assumes "state_ok s" "WriteFleetState home s f = (None, f')" "fs_rderr f (FleetStatePath home) = None"
  shows "ReadFleetState home f' = Inr s"
proof -
  have "f' = put_file (FleetStatePath home) (marshal_indent 0 (state_json s)) f"
    using assms(2) by (auto simp: WriteFleetState_def write_file_def split: option.splits)
  then have "read_file f' (FleetStatePath home) = Inr (marshal_indent 0 (state_json s))"
    using assms(3) by (simp add: fs_simps)
  then show ?thesis using assms(1) by (simp add: ReadFleetState_def unmarshal_indent norm_state read_state)
qed

section \<open>The signature\<close>

abbreviation sort_lists :: "fleet_node \<Rightarrow> fleet_node" where
  "sort_lists n \<equiv> n\<lparr>fn_caps := sort (fn_caps n), fn_tags := sort (fn_tags n)\<rparr>"

lemma sorted_copy_idem: "sortedNodesCopy (sortedNodesCopy ns) = sortedNodesCopy ns"
proof -
  have "sort_lists n = n" if "n \<in> set (sortedNodesCopy ns)" for n
    using that by (auto simp: sortedNodesCopy_def sorted_sort_id)
  then have "map sort_lists (sortedNodesCopy ns) = sortedNodesCopy ns" by (simp add: map_idI)
  then have "sortedNodesCopy (sortedNodesCopy ns) = sort_key fn_name (sortedNodesCopy ns)"
    by (simp only: sortedNodesCopy_def)
  also have "\<dots> = sortedNodesCopy ns" unfolding sortedNodesCopy_def by (rule sort_key_id_if_sorted) simp
  finally show ?thesis .
qed

lemma sorted_copy_ok: "list_all fleet_node_ok ns \<Longrightarrow> list_all fleet_node_ok (sortedNodesCopy ns)"
  by (auto simp: sortedNodesCopy_def list_all_iff fleet_node_ok_def)

lemma canonical_ok: "state_ok s \<Longrightarrow> state_ok (s\<lparr>sn_sig := '''', sn_nodes := sortedNodesCopy (sn_nodes s)\<rparr>)"
  by (simp add: state_ok_def sorted_copy_ok utf8_def)

lemma canonical_sign: "canonicalFleetBytes (s\<lparr>sn_sig := sg\<rparr>) = canonicalFleetBytes s"
  by (simp add: canonicalFleetBytes_def)

lemma b64_char_ascii: "byte_in 0 127 (b64_char n)"
  by (auto simp: b64_char_def byte_in_def of_char_mod_256)

lemma utf8_b64: "utf8 (b64_encode x)"
proof -
  have "is_ascii (b64_encode x)"
    by (induction x rule: b64_encode.induct) (simp_all add: is_ascii_def b64_char_ascii Let_def, simp_all add: byte_in_def)
  then show ?thesis by (rule utf8_ascii)
qed

text \<open>The bytes that are signed determine the version, the time, the author and the nodes with all their
  members, up to the order of nodes, capabilities and tags.\<close>
theorem canonical_fixes_content:
  assumes "state_ok s" "state_ok t" "canonicalFleetBytes s = canonicalFleetBytes t"
  shows "sn_version s = sn_version t \<and> sn_at s = sn_at t \<and> sn_by s = sn_by t \<and>
    sortedNodesCopy (sn_nodes s) = sortedNodesCopy (sn_nodes t)"
proof -
  define C :: "fleet_state \<Rightarrow> fleet_state" where "C = (\<lambda>s. s\<lparr>sn_sig := [], sn_nodes := sortedNodesCopy (sn_nodes s)\<rparr>)"
  have u: "unmarshal (marshal (state_json (C x))) = Some (state_json (C x))"
    and r: "struct_of set_state state_zero (state_json (C x)) = Some (C x)" if "state_ok x" for x
    using unmarshal_marshal[OF wf_state, of "C x"] norm_state[OF canonical_ok[OF that]] read_state[OF canonical_ok[OF that]]
    by (simp_all only: C_def)
  have "marshal (state_json (C s)) = marshal (state_json (C t))" using assms(3) by (simp only: canonicalFleetBytes_def C_def)
  then have "Some (C s) = Some (C t)" using u[OF assms(1)] u[OF assms(2)] r[OF assms(1)] r[OF assms(2)] by (metis option.inject)
  then have c: "C s = C t" by simp
  show ?thesis using arg_cong[OF c, of sn_version] arg_cong[OF c, of sn_at] arg_cong[OF c, of sn_by] arg_cong[OF c, of sn_nodes]
    by (simp add: C_def)
qed

text \<open>C27: A snapshot that the controller signs and writes is read back with its nodes and passes the
  verification, whoever holds the key: the check is against the key in the file itself.\<close>
theorem signed_state_verifies:
  assumes "BuildAndSignFleetState sign now c nodes = Some s" "id_pub c = b64_encode pub" "length pub = 32"
    and "\<forall>priv m. id_priv c = Some priv \<longrightarrow> verify pub m (sign priv m) \<and> length (sign priv m) = 64"
    and "list_all fleet_node_ok nodes" "utf8 now" "WriteFleetState home s f = (None, f')" "fs_rderr f (FleetStatePath home) = None"
  shows "\<exists>r. ReadFleetState home f' = Inr r \<and> VerifyFleetState verify r \<and> sn_nodes r = sortedNodesCopy nodes \<and> sn_by r = id_pub c"
proof -
  obtain priv where p: "id_priv c = Some priv" using assms(1) by (auto simp: BuildAndSignFleetState_def Let_def)
  let ?s = "\<lparr>sn_version = 1, sn_at = now, sn_by = id_pub c, sn_nodes = sortedNodesCopy nodes, sn_sig = ''''\<rparr>"
  have s: "s = ?s\<lparr>sn_sig := b64_encode (sign priv (canonicalFleetBytes ?s))\<rparr>"
    using assms(1) p by (simp add: BuildAndSignFleetState_def Let_def)
  have "state_ok s" using assms(2,5,6) utf8_b64
    by (simp add: s state_ok_def int64_def min_int64_def max_int64_def sorted_copy_ok)
  then have "ReadFleetState home f' = Inr s" using assms(7,8) by (rule read_written_state)
  moreover have "VerifyFleetState verify s"
  proof -
    have "canonicalFleetBytes s = canonicalFleetBytes ?s" unfolding s by (rule canonical_sign)
    moreover have "sn_by s = b64_encode pub" "sn_sig s = b64_encode (sign priv (canonicalFleetBytes ?s))" using s assms(2) by simp_all
    ultimately show ?thesis using assms(3,4) p by (simp add: VerifyFleetState_def)
  qed
  ultimately show ?thesis by (simp add: s)
qed

section \<open>Examples\<close>

text \<open>A signature of the right length that the verifier recomputes.\<close>
definition demo_sign :: "bytes \<Rightarrow> bytes \<Rightarrow> bytes" where
  "demo_sign k m = take 64 (k @ m @ replicate 64 (CHR 0x00))"

definition demo_nodes :: "fleet_node list" where
  "demo_nodes = [node_zero\<lparr>fn_name := ''d2'', fn_caps := [''shell'', ''file''], fn_online := True\<rparr>, node_zero\<lparr>fn_name := ''d1'', fn_seen := 7\<rparr>]"

definition demo_cache :: ident_cache where
  "demo_cache = \<lparr>id_once = True, id_priv = Some ''k'', id_pub = b64_encode (replicate 32 (CHR ''k''))\<rparr>"

lemma demo_nodes_ok: "list_all fleet_node_ok demo_nodes"
  by (simp add: demo_nodes_def node_zero_def fleet_node_ok_def int64_def min_int64_def max_int64_def utf8_ascii is_ascii_def byte_in_def)

lemma signed_state_verifies_witness:
  "\<exists>s f' r. BuildAndSignFleetState demo_sign ''2026-01-01T00:00:00Z'' demo_cache demo_nodes = Some s \<and>
     WriteFleetState ''/root'' s empty_fs = (None, f') \<and> ReadFleetState ''/root'' f' = Inr r \<and>
     VerifyFleetState (\<lambda>p m g. g = demo_sign ''k'' m) r \<and> map fn_name (sn_nodes r) = [''d1'', ''d2'']"
proof -
  have k: "id_priv demo_cache = Some ''k''" "id_pub demo_cache = b64_encode (replicate 32 (CHR ''k''))" by (simp_all add: demo_cache_def)
  then obtain s where s: "BuildAndSignFleetState demo_sign ''2026-01-01T00:00:00Z'' demo_cache demo_nodes = Some s"
    by (simp add: BuildAndSignFleetState_def Let_def)
  obtain f' where w: "WriteFleetState ''/root'' s empty_fs = (None, f')" by (simp add: WriteFleetState_def write_file_def empty_fs_def)
  have l: "length (demo_sign x m) = 64" for x m by (simp add: demo_sign_def)
  have u: "utf8 ''2026-01-01T00:00:00Z''" by (simp add: utf8_ascii is_ascii_def byte_in_def)
  have n: "map fn_name (sortedNodesCopy demo_nodes) = [''d1'', ''d2'']" by code_simp
  have "fs_rderr empty_fs (FleetStatePath ''/root'') = None" by (simp add: empty_fs_def)
  with signed_state_verifies[OF s k(2) _ _ demo_nodes_ok u w, of "\<lambda>p m g. g = demo_sign ''k'' m"] k(1) l n s w
  show ?thesis by auto
qed

lemma canonical_fixes_content_witness:
  "canonicalFleetBytes (state_zero\<lparr>sn_version := 1\<rparr>) \<noteq> canonicalFleetBytes (state_zero\<lparr>sn_version := 2\<rparr>)"
proof
  have ok: "state_ok (state_zero\<lparr>sn_version := 1\<rparr>)" "state_ok (state_zero\<lparr>sn_version := 2\<rparr>)"
    by (simp_all add: state_ok_def state_zero_def int64_def min_int64_def max_int64_def utf8_def)
  assume "canonicalFleetBytes (state_zero\<lparr>sn_version := 1\<rparr>) = canonicalFleetBytes (state_zero\<lparr>sn_version := 2\<rparr>)"
  from canonical_fixes_content[OF ok this] show False by simp
qed

end
