(* ===== verification/McpState.thy ===== *)
theory McpState
  imports McpFleet FleetState Peers
begin

text \<open>
  The signed fleet state at the front end (\<^verbatim>\<open>cmd/vssh/commands_fleetstate.go\<close>): the inventory
  from the list of nodes and their pinned keys, the probing of nodes, the tool.
\<close>

record signer =
  si_sign :: "bytes \<Rightarrow> bytes \<Rightarrow> bytes"
  si_verify :: "bytes \<Rightarrow> bytes \<Rightarrow> bytes \<Rightarrow> bool"
  si_gen :: "(bytes \<times> bytes) option"
  si_pub_of :: "bytes \<Rightarrow> bytes"
  si_parse :: "string \<Rightarrow> int option"                \<comment> \<open>a time in nanoseconds\<close>
  si_now :: int

definition toInt64 :: "seen \<Rightarrow> int" where
  "toInt64 v = (case v of SeenAt i \<Rightarrow> i | _ \<Rightarrow> 0)"

definition probeReachable :: "front \<Rightarrow> string \<Rightarrow> string \<Rightarrow> bool" where
  "probeReachable fr name fallbackIP =
     (let cands = (case CandidateHosts (fr_site fr) name of Inl _ \<Rightarrow> [] | Inr hs \<Rightarrow> hs);
          cands = (if cands = [] \<and> fallbackIP \<noteq> '''' then [fallbackIP] else cands)
      in list_ex (fr_dial fr) cands)"

definition inventory :: "string \<Rightarrow> fs \<Rightarrow> node list \<Rightarrow> fleet_node list" where
  "inventory home f ns = map (\<lambda>p. \<lparr>fn_name = nd_name p, fn_ip = nd_vpn p, fn_os = nd_os p, fn_arch = nd_arch p, fn_caps = nd_caps p,
     fn_tags = nd_tags p, fn_pubkey = NodeKey f home (nd_name p), fn_online = (nd_online p = Some True), fn_seen = toInt64 (nd_seen p)\<rparr>)
     (filter (\<lambda>p. trim_space (nd_name p) \<noteq> '''') ns)"

definition buildFleetNodes :: "front \<Rightarrow> fs \<Rightarrow> node list \<Rightarrow> bool \<Rightarrow> fleet_node list" where
  "buildFleetNodes fr f ns live =
     map (\<lambda>n. if live then n\<lparr>fn_online := probeReachable fr (fn_name n) (fn_ip n)\<rparr> else n) (inventory (fr_home fr) f ns)"

text \<open>None is the panic of a controller that has no key and could not make one.\<close>
definition refreshFleetState ::
  "signer \<Rightarrow> ctl \<Rightarrow> front \<Rightarrow> node list \<Rightarrow> bool \<Rightarrow> ident_cache \<times> mstate \<Rightarrow> ((fleet_state \<times> io_err option) \<times> ident_cache \<times> mstate) option" where
  "refreshFleetState si ct fr ns live = (\<lambda>(c, s).
     (let nodes = buildFleetNodes fr (ms_fs s) ns live;
          (c1, f1) = LoadOrCreateIdentity (si_gen si) (si_pub_of si) (fr_home fr) (c, ms_fs s)
      in map_option (\<lambda>sn. (let (err, f2) = WriteFleetState (fr_home fr) sn f1 in ((sn, err), c1, s\<lparr>ms_fs := f2\<rparr>)))
           (BuildAndSignFleetState (si_sign si) (ct_now ct) c1 nodes)))"

definition fleetStateResult :: "signer \<Rightarrow> front \<Rightarrow> fleet_state \<Rightarrow> bool \<Rightarrow> mstate \<Rightarrow> json" where
  "fleetStateResult si fr sn rebuilt s =
     ok_json ''vssh_fleet_state''
       ([(''verified'', JBool (VerifyFleetState (si_verify si) sn)), (''age_seconds'', json_int (FleetStateAgeSeconds (si_parse si) (si_now si) sn)),
         (''generated_at'', JStr (sn_at sn)), (''generated_by'', JStr (sn_by sn)), (''node_count'', json_int (int (length (sn_nodes sn)))),
         (''nodes'', JArr (map fleet_node_json (sn_nodes sn))), (''rebuilt'', JBool rebuilt)]
        @ (case LoadFleet (fr_home fr) (ms_fs s) of Inl _ \<Rightarrow> []
           | Inr fl \<Rightarrow> if fl_nodes fl = [] then [] else [(''memory'', nodes_json (fl_nodes fl))]))"

definition toolFleetState ::
  "signer \<Rightarrow> ctl \<Rightarrow> front \<Rightarrow> node list \<Rightarrow> json \<Rightarrow> ident_cache \<times> mstate \<Rightarrow> (json \<times> ident_cache \<times> mstate) option" where
  "toolFleetState si ct fr ns args cs =
     (let a = getString args ''action''; tool = ''vssh_fleet_state'' in
      if a = ''build'' \<or> a = ''refresh'' then
        map_option (\<lambda>((sn, err), c1, s1). case err of
            Some e \<Rightarrow> (memErr tool ''build_failed'' (ct_io_err ct e), c1, s1)
          | None \<Rightarrow> (fleetStateResult si fr sn True s1, c1, s1))
          (refreshFleetState si ct fr ns (getBool args ''live'' False) cs)
      else (case ReadFleetState (fr_home fr) (ms_fs (snd cs)) of
          Inl _ \<Rightarrow> Some (memErr tool ''not_found'' ''no fleet state yet; call with action=build'', cs)
        | Inr sn \<Rightarrow> Some (fleetStateResult si fr sn False (snd cs), cs)))"

end
