(* ===== verification/TunnelTool.thy ===== *)
theory TunnelTool
  imports McpState
begin

text \<open>
  The tool that keeps port forwards as processes of their own (\<^verbatim>\<open>cmd/vssh/tunnel.go\<close>): its registry
  of one file for each tunnel, the check that a recorded process is still a forward, starting, listing and
  stopping. What \<^verbatim>\<open>ps\<close> prints of a process is an argument, asked with the number of questions
  before it, so that processes may end and identifiers may be used again between any two questions.
\<close>

section \<open>The registry\<close>

record tunnel_record =
  tu_id :: string
  tu_pid :: int
  tu_type :: string
  tu_target :: string
  tu_spec :: string
  tu_argv :: "string list"
  tu_log :: string
  tu_started :: string

definition tunnel_zero :: tunnel_record where
  "tunnel_zero = \<lparr>tu_id = '''', tu_pid = 0, tu_type = '''', tu_target = '''', tu_spec = '''', tu_argv = [], tu_log = '''', tu_started = ''''\<rparr>"

definition tunnel_json :: "tunnel_record \<Rightarrow> json" where
  "tunnel_json r = JObj [(''id'', JStr (tu_id r)), (''pid'', json_int (tu_pid r)), (''type'', JStr (tu_type r)),
     (''target'', JStr (tu_target r)), (''spec'', JStr (tu_spec r)), (''argv'', JArr (map JStr (tu_argv r))),
     (''log'', JStr (tu_log r)), (''started_at'', JStr (tu_started r))]"

definition set_tunnel :: "tunnel_record setter" where
  "set_tunnel k v r =
     (if equal_fold k ''id'' then text_field v (\<lambda>t. r\<lparr>tu_id := t\<rparr>) r
      else if equal_fold k ''pid'' then num_field v (\<lambda>i. r\<lparr>tu_pid := i\<rparr>) r
      else if equal_fold k ''type'' then text_field v (\<lambda>t. r\<lparr>tu_type := t\<rparr>) r
      else if equal_fold k ''target'' then text_field v (\<lambda>t. r\<lparr>tu_target := t\<rparr>) r
      else if equal_fold k ''spec'' then text_field v (\<lambda>t. r\<lparr>tu_spec := t\<rparr>) r
      else if equal_fold k ''argv'' then list_field text_value v (\<lambda>vs. r\<lparr>tu_argv := vs\<rparr>)
      else if equal_fold k ''log'' then text_field v (\<lambda>t. r\<lparr>tu_log := t\<rparr>) r
      else if equal_fold k ''started_at'' then text_field v (\<lambda>t. r\<lparr>tu_started := t\<rparr>) r
      else Some r)"

definition tunnelDir :: "string \<Rightarrow> path" where "tunnelDir home = join_path [home, ''.vssh'', ''tunnels'']"

definition tunnel_path :: "string \<Rightarrow> string \<Rightarrow> string \<Rightarrow> path" where
  "tunnel_path home rid ext = join_path [tunnelDir home, rid @ ext]"

definition writeTunnelRecord :: "string \<Rightarrow> tunnel_record \<Rightarrow> fs \<Rightarrow> fs" where
  "writeTunnelRecord home r f = snd (write_file (tunnel_path home (tu_id r) ''.json'') (marshal_indent 0 (tunnel_json r)) f)"

definition removeTunnelRecord :: "string \<Rightarrow> string \<Rightarrow> fs \<Rightarrow> fs" where
  "removeTunnelRecord home rid f = remove_file (tunnel_path home rid ''.log'') (remove_file (tunnel_path home rid ''.json'') f)"

definition readTunnelRecord :: "string \<Rightarrow> string \<Rightarrow> fs \<Rightarrow> tunnel_record option" where
  "readTunnelRecord home rid f =
     (case read_file f (tunnel_path home rid ''.json'') of Inl _ \<Rightarrow> None
      | Inr d \<Rightarrow> (case unmarshal d of None \<Rightarrow> None | Some v \<Rightarrow> struct_of set_tunnel tunnel_zero v))"

text \<open>The names in the directory are an argument; records of one time keep their order, where
  \<^verbatim>\<open>sort.Slice\<close> promises none.\<close>
definition readTunnelRecords :: "string \<Rightarrow> string list \<Rightarrow> fs \<Rightarrow> tunnel_record list" where
  "readTunnelRecords home entries f =
     sort_key tu_started (List.map_filter (\<lambda>e. if has_suffix ''.json'' e then readTunnelRecord home (trim_suffix ''.json'' e) f else None) entries)"

section \<open>Processes\<close>

datatype tunnel_event = Started "string list" int | Signalled int string

record tunnel_env =
  te_home :: string
  te_self :: "string + string"                       \<comment> \<open>the path of the program\<close>
  te_mkdir :: "string option"
  te_stamp :: string                                 \<comment> \<open>nanoseconds\<close>
  te_now :: string
  te_io :: "io_err \<Rightarrow> string"
  te_spawn :: "string list \<Rightarrow> string + int"           \<comment> \<open>starting a process: its identifier\<close>
  te_output :: "string list \<Rightarrow> string"                \<comment> \<open>what it has written after a moment\<close>
  te_ps :: "nat \<Rightarrow> int \<Rightarrow> string option"               \<comment> \<open>the n-th question about a process\<close>

record tunnel_state =
  tt_fs :: fs
  tt_asked :: nat
  tt_events :: "tunnel_event list"

definition aliveAsTunnel :: "tunnel_env \<Rightarrow> tunnel_record \<Rightarrow> tunnel_state \<Rightarrow> bool \<times> tunnel_state" where
  "aliveAsTunnel e r st =
     (if tu_pid r \<le> 0 then (False, st)
      else (case te_ps e (tt_asked st) (tu_pid r) of
          None \<Rightarrow> False
        | Some out \<Rightarrow> (let a = trim_space out in a \<noteq> '''' \<and> contains ''fwd'' a \<and> contains (tu_target r) a),
        st\<lparr>tt_asked := Suc (tt_asked st)\<rparr>))"

definition tailFile :: "fs \<Rightarrow> path \<Rightarrow> nat \<Rightarrow> string" where
  "tailFile f p n =
     (case read_file f p of Inl _ \<Rightarrow> ''''
      | Inr d \<Rightarrow> (let ls = split_on NL (trim_right_by (\<lambda>c. c = NL) d) in join [NL] (drop (length ls - n) ls)))"

definition sanitizeID :: "string \<Rightarrow> string" where "sanitizeID s = sanitizeRunID s"

section \<open>The tool\<close>

definition tunnelErr :: "string \<Rightarrow> string \<Rightarrow> json" where "tunnelErr code msg = memErr ''vssh_tunnel'' code msg"

definition tunnelView :: "tunnel_record \<Rightarrow> json" where
  "tunnelView r = json_map [(''id'', JStr (tu_id r)), (''pid'', json_int (tu_pid r)), (''type'', JStr (tu_type r)),
     (''target'', JStr (tu_target r)), (''spec'', JStr (tu_spec r)), (''started_at'', JStr (tu_started r)), (''log'', JStr (tu_log r))]"

definition tunnel_mode :: "string \<Rightarrow> string option" where
  "tunnel_mode t =
     (if t \<in> set [''local'', ''l'', ''-l''] then Some ''-L''
      else if t \<in> set [''reverse'', ''remote'', ''r'', ''-r''] then Some ''-R''
      else if t \<in> set [''socks'', ''dynamic'', ''d'', ''-d''] then Some ''-D'' else None)"

definition tunnelStart :: "tunnel_env \<Rightarrow> json \<Rightarrow> tunnel_state \<Rightarrow> json \<times> tunnel_state" where
  "tunnelStart e args st =
     (let target = trimmed args ''target''; spec = trimmed args ''spec''; ttype = to_lower (trimmed args ''type'') in
      if target = '''' \<or> spec = '''' then (tunnelErr ''missing_argument'' ''target and spec are required for start'', st)
      else (case tunnel_mode ttype of
          None \<Rightarrow> (tunnelErr ''invalid_argument'' ''type must be local|reverse|socks'', st)
        | Some mode \<Rightarrow>
           (case te_self e of
              Inl m \<Rightarrow> (tunnelErr ''internal_error'' (''cannot resolve vssh binary: '' @ m), st)
            | Inr self \<Rightarrow>
               (case te_mkdir e of
                  Some m \<Rightarrow> (tunnelErr ''internal_error'' m, st)
                | None \<Rightarrow>
                    let rid = te_stamp e @ ''-'' @ sanitizeID target @ ''-'' @ trim_prefix ''-'' mode;
                        log = tunnel_path (te_home e) rid ''.log'';
                        argv = [''fwd'', target, mode, spec]
                    in (case write_file log '''' (tt_fs st) of
                          (Some m, f) \<Rightarrow> (tunnelErr ''internal_error'' (te_io e m), st)
                        | (None, f) \<Rightarrow>
                            (case te_spawn e argv of
                               Inl m \<Rightarrow> (tunnelErr ''start_failed'' m, st\<lparr>tt_fs := f\<rparr>)
                             | Inr pid \<Rightarrow>
                                 let r = \<lparr>tu_id = rid, tu_pid = pid, tu_type = ttype, tu_target = target, tu_spec = spec,
                                          tu_argv = base_path self # argv, tu_log = log, tu_started = te_now e\<rparr>;
                                     f1 = writeTunnelRecord (te_home e) r (put_file log (te_output e argv) f);
                                     (alive, st1) = aliveAsTunnel e r (st\<lparr>tt_fs := f1, tt_events := tt_events st @ [Started argv pid]\<rparr>)
                                 in if \<not> alive then
                                      (json_map [(''success'', JBool False), (''tool'', JStr ''vssh_tunnel''), (''action'', JStr ''start''),
                                         (''error'', tool_error ''tunnel_exited'' ''tunnel process exited immediately; see log_tail''),
                                         (''log_tail'', JStr (tailFile (tt_fs st1) log 20))],
                                       st1\<lparr>tt_fs := removeTunnelRecord (te_home e) rid (tt_fs st1)\<rparr>)
                                    else (ok_json ''vssh_tunnel'' [(''action'', JStr ''start''), (''tunnel'', tunnelView r),
                                            (''alive'', JBool True)], st1)))))))"

fun prune :: "tunnel_env \<Rightarrow> tunnel_record list \<Rightarrow> tunnel_state \<Rightarrow> json list \<times> tunnel_state" where
  "prune e [] st = ([], st)"
| "prune e (r # rs) st =
     (let (alive, st1) = aliveAsTunnel e r st in
      if alive then (let (vs, st2) = prune e rs st1 in (tunnelView r # vs, st2))
      else prune e rs (st1\<lparr>tt_fs := removeTunnelRecord (te_home e) (tu_id r) (tt_fs st1)\<rparr>))"

definition tunnelList :: "tunnel_env \<Rightarrow> string list \<Rightarrow> tunnel_state \<Rightarrow> json \<times> tunnel_state" where
  "tunnelList e entries st =
     (let (vs, st1) = prune e (readTunnelRecords (te_home e) entries (tt_fs st)) st
      in (ok_json ''vssh_tunnel'' [(''action'', JStr ''list''), (''count'', json_int (int (length vs))), (''tunnels'', JArr vs)], st1))"

definition signal :: "int \<Rightarrow> string \<Rightarrow> tunnel_state \<Rightarrow> tunnel_state" where
  "signal pid sig st = st\<lparr>tt_events := tt_events st @ [Signalled (- pid) sig, Signalled pid sig]\<rparr>"

definition tunnelStop :: "tunnel_env \<Rightarrow> json \<Rightarrow> tunnel_state \<Rightarrow> json \<times> tunnel_state" where
  "tunnelStop e args st =
     (let rid = trimmed args ''id'' in
      if rid = '''' then (tunnelErr ''missing_argument'' ''id is required (get it from vssh_tunnel list)'', st)
      else (case readTunnelRecord (te_home e) rid (tt_fs st) of
          None \<Rightarrow> (tunnelErr ''not_found'' (''no tunnel with id '' @ rid), st)
        | Some r \<Rightarrow>
            let (alive, st1) = aliveAsTunnel e r st;
                st3 = (if \<not> alive then st1
                       else (let (still, st2) = aliveAsTunnel e r (signal (tu_pid r) ''SIGTERM'' st1)
                             in if still then signal (tu_pid r) ''SIGKILL'' st2 else st2))
            in (ok_json ''vssh_tunnel'' [(''action'', JStr ''stop''), (''id'', JStr rid), (''killed'', JBool alive)],
                st3\<lparr>tt_fs := removeTunnelRecord (te_home e) rid (tt_fs st3)\<rparr>)))"

definition toolTunnel :: "tunnel_env \<Rightarrow> string list \<Rightarrow> json \<Rightarrow> tunnel_state \<Rightarrow> json \<times> tunnel_state" where
  "toolTunnel e entries args st =
     (let a = to_lower (trimmed args ''action''); action = (if a = '''' then ''list'' else a) in
      if action = ''start'' then tunnelStart e args st
      else if action = ''list'' \<or> action = ''status'' then tunnelList e entries st
      else if action = ''stop'' then tunnelStop e args st
      else (tunnelErr ''invalid_argument'' ''action must be start|list|stop'', st))"

section \<open>Signals\<close>

text \<open>\<^verbatim>\<open>ps\<close> printed for the process of the record a line with \<open>fwd\<close> and the target in it.\<close>
definition seen_as_tunnel :: "tunnel_env \<Rightarrow> tunnel_record \<Rightarrow> nat \<Rightarrow> bool" where
  "seen_as_tunnel e r n \<longleftrightarrow> 0 < tu_pid r \<and> (\<exists>out. te_ps e n (tu_pid r) = Some out \<and> trim_space out \<noteq> '''' \<and>
     contains ''fwd'' (trim_space out) \<and> contains (tu_target r) (trim_space out))"

lemma alive_frame:
  assumes "aliveAsTunnel e r st = (b, st1)"
  shows "tt_fs st1 = tt_fs st \<and> tt_events st1 = tt_events st \<and> (b \<longrightarrow> seen_as_tunnel e r (tt_asked st))"
  using assms by (auto simp: aliveAsTunnel_def seen_as_tunnel_def Let_def split: if_splits option.splits)

definition no_signals :: "tunnel_state \<Rightarrow> tunnel_state \<Rightarrow> bool" where
  "no_signals st st' \<longleftrightarrow> (\<exists>new. tt_events st' = tt_events st @ new \<and> (\<forall>p s. Signalled p s \<notin> set new))"

lemma no_signalsI: "tt_events st' = tt_events st \<Longrightarrow> no_signals st st'" by (simp add: no_signals_def)

lemma prune_events: "prune e rs st = (vs, st') \<Longrightarrow> tt_events st' = tt_events st"
proof (induction rs arbitrary: st vs)
  case (Cons r rs)
  obtain b st1 where a: "aliveAsTunnel e r st = (b, st1)" by (cases "aliveAsTunnel e r st")
  from alive_frame[OF a] have e: "tt_events st1 = tt_events st" by blast
  show ?case
  proof (cases b)
    case True
    with Cons.prems a obtain ws where "prune e rs st1 = (ws, st')" by (auto split: prod.splits)
    from Cons.IH[OF this] e show ?thesis by simp
  next
    case False
    with Cons.prems a have "prune e rs (st1\<lparr>tt_fs := removeTunnelRecord (te_home e) (tu_id r) (tt_fs st1)\<rparr>) = (vs, st')" by simp
    from Cons.IH[OF this] e show ?thesis by simp
  qed
qed simp

lemma list_no_signals: "tunnelList e entries st = (res, st') \<Longrightarrow> no_signals st st'"
  by (auto simp: tunnelList_def dest: prune_events intro: no_signalsI split: prod.splits)

lemma start_no_signals:
  assumes "tunnelStart e args st = (res, st')"
  shows "no_signals st st'"
proof -
  have "tt_events st' = tt_events st \<or> (\<exists>argv pid. tt_events st' = tt_events st @ [Started argv pid])"
    using assms
    by (auto simp: tunnelStart_def Let_def dest: alive_frame split: if_splits option.splits sum.splits prod.splits)
  then show ?thesis by (auto simp: no_signals_def)
qed

definition signals_ok :: "tunnel_env \<Rightarrow> json \<Rightarrow> fs \<Rightarrow> tunnel_event list \<Rightarrow> bool" where
  "signals_ok e args f new \<longleftrightarrow> (\<forall>p sig. Signalled p sig \<in> set new \<longrightarrow>
     (\<exists>r n. readTunnelRecord (te_home e) (trimmed args ''id'') f = Some r \<and> \<bar>p\<bar> = tu_pid r \<and> seen_as_tunnel e r n))"

lemma stop_signals:
  assumes "tunnelStop e args st = (res, st')"
  shows "\<exists>new. tt_events st' = tt_events st @ new \<and> signals_ok e args (tt_fs st) new"
proof (cases "readTunnelRecord (te_home e) (trimmed args ''id'') (tt_fs st)")
  case None
  with assms show ?thesis by (auto simp: tunnelStop_def signals_ok_def Let_def split: if_splits)
next
  case (Some r)
  obtain b st1 where a: "aliveAsTunnel e r st = (b, st1)" by (cases "aliveAsTunnel e r st")
  note fa = alive_frame[OF a]
  show ?thesis
  proof (cases "b \<and> trimmed args ''id'' \<noteq> ''''")
    case False
    with assms Some a fa show ?thesis by (auto simp: tunnelStop_def signals_ok_def Let_def split: if_splits)
  next
    case True
    then have seen: "seen_as_tunnel e r (tt_asked st)" and pos: "0 < tu_pid r" using fa by (auto simp: seen_as_tunnel_def)
    obtain c st2 where k: "aliveAsTunnel e r (signal (tu_pid r) ''SIGTERM'' st1) = (c, st2)"
      by (cases "aliveAsTunnel e r (signal (tu_pid r) ''SIGTERM'' st1)")
    from alive_frame[OF k] have ev2: "tt_events st2 = tt_events st1 @ [Signalled (- tu_pid r) ''SIGTERM'', Signalled (tu_pid r) ''SIGTERM'']"
      by (simp add: signal_def)
    have ev: "tt_events st' = tt_events (if c then signal (tu_pid r) ''SIGKILL'' st2 else st2)"
      using assms Some a k True by (auto simp: tunnelStop_def Let_def)
    show ?thesis using ev ev2 fa seen pos Some
      by (cases c) (auto simp: signal_def signals_ok_def intro!: exI[of _ "tt_asked st"])
  qed
qed

text \<open>The tool signals a process only if it is the one of the record that was named, and \<^verbatim>\<open>ps\<close> was
  asked about it in this call and printed a line with the verb and the target in it.\<close>
theorem tunnel_signals_only_forwards:
  assumes "toolTunnel e entries args st = (res, st')"
  shows "\<exists>new. tt_events st' = tt_events st @ new \<and> signals_ok e args (tt_fs st) new"
proof -
  have q: "no_signals st st' \<Longrightarrow> ?thesis" by (auto simp: no_signals_def signals_ok_def)
  consider "tunnelStart e args st = (res, st')" | "tunnelList e entries st = (res, st')" | "tunnelStop e args st = (res, st')" | "st' = st"
    using assms by (auto simp: toolTunnel_def Let_def split: if_splits)
  then show ?thesis
  proof cases
    case 1 from start_no_signals[OF this] show ?thesis by (rule q)
  next
    case 2 from list_no_signals[OF this] show ?thesis by (rule q)
  next
    case 3 from stop_signals[OF this] show ?thesis .
  next
    case 4 then show ?thesis by (intro q no_signalsI) simp
  qed
qed

text \<open>A pager that shows notes on the forwards of a node is taken for one of them.\<close>
lemma mistaken_process:
  assumes "tu_target r = ''d1''" "tu_pid r = 7" "te_ps e (tt_asked st) 7 = Some ''less fwd-notes-d1.txt''"
  shows "fst (aliveAsTunnel e r st)"
proof -
  have "trim_space ''less fwd-notes-d1.txt'' = ''less fwd-notes-d1.txt''" "contains ''fwd'' ''less fwd-notes-d1.txt''"
    "contains ''d1'' ''less fwd-notes-d1.txt''" by code_simp+
  then show ?thesis using assms by (simp add: aliveAsTunnel_def)
qed

section \<open>Records that are none\<close>

lemma vssh_dirs:
  assumes "is_abs home"
  shows "tunnelDir home = CHR ''/'' # join ''/'' (clean_comps home @ [''.vssh'', ''tunnels''])"
    and "fleet_dir home = CHR ''/'' # join ''/'' (clean_comps home @ [''.vssh''])"
proof -
  have ne: "home \<noteq> ''''" using assms by (auto simp: is_abs_def)
  have a: "is_abs (home @ CHR ''/'' # q)" for q using assms by (cases home) (auto simp: is_abs_def)
  have s: "split_on (CHR ''/'') ''.vssh/tunnels'' = [''.vssh'', ''tunnels'']" "split_on (CHR ''/'') ''.vssh'' = [''.vssh'']" by simp_all
  show "tunnelDir home = CHR ''/'' # join ''/'' (clean_comps home @ [''.vssh'', ''tunnels''])"
    using clean_comps_append[OF assms, of "''.vssh/tunnels''"] a[of "''.vssh/tunnels''"]
    by (simp add: tunnelDir_def join_path_def ne clean_path_def s clean_step_def)
  show "fleet_dir home = CHR ''/'' # join ''/'' (clean_comps home @ [''.vssh''])"
    using clean_comps_append[OF assms, of "''.vssh''"] a[of "''.vssh''"]
    by (simp add: fleet_dir_def join_path_def ne clean_path_def s clean_step_def)
qed

lemma up_to_memory:
  assumes "is_abs home"
  shows "tunnel_path home ''../fleet_memory'' ''.json'' = MemoryPath home"
proof -
  have n: "list_all normal_comp (clean_comps home @ [''.vssh'', ''tunnels''])" "list_all normal_comp (clean_comps home @ [''.vssh''])"
    using clean_comps_normal[OF assms] by (simp_all add: normal_comp_def)
  have a: "is_abs (CHR ''/'' # t)" for t by (simp add: is_abs_def)
  have s: "split_on (CHR ''/'') ''../fleet_memory.json'' = [''..'', ''fleet_memory.json'']"
    "split_on (CHR ''/'') ''fleet_memory.json'' = [''fleet_memory.json'']" by simp_all
  show ?thesis
    using clean_comps_append[OF a, of "join ''/'' (clean_comps home @ [''.vssh'', ''tunnels''])" "''../fleet_memory.json''"]
      clean_comps_append[OF a, of "join ''/'' (clean_comps home @ [''.vssh''])" "''fleet_memory.json''"]
    by (simp add: tunnel_path_def MemoryPath_def vssh_dirs[OF assms] join_path_def clean_path_def a s clean_step_def
        clean_comps_rooted[OF n(1)] clean_comps_rooted[OF n(2)])
qed

lemma memory_is_no_tunnel: "struct_of set_tunnel tunnel_zero (json_norm (fleet_json fl)) = Some tunnel_zero"
proof -
  have "list_all (\<lambda>(a, b). \<not> equal_fold a b) (List.product [''version'', ''updated_at'', ''nodes'']
      [''id'', ''pid'', ''type'', ''target'', ''spec'', ''argv'', ''log'', ''started_at''])" by code_simp
  then show ?thesis by (simp add: fleet_json_def struct_of_def set_tunnel_def json_keys)
qed

text \<open>C19: The id given to stop is taken into the path as it is, and any JSON object is a record: the id
  \<open>../fleet_memory\<close> removes the memory of the fleet and answers that a tunnel was stopped.\<close>
theorem tunnel_stop_removes_memory:
  assumes "SaveFleet now (te_home e) fl f = (None, tt_fs st)" "fs_rderr f (MemoryPath (te_home e)) = None" "is_abs (te_home e)"
    and "to_lower (trimmed args ''action'') = ''stop''" "trimmed args ''id'' = ''../fleet_memory''"
    and "toolTunnel e entries args st = (res, st')"
  shows "LoadFleet (te_home e) (tt_fs st') = Inr fleet_new \<and>
    res = ok_json ''vssh_tunnel'' [(''action'', JStr ''stop''), (''id'', JStr ''../fleet_memory''), (''killed'', JBool False)]"
proof -
  let ?fl = "fl\<lparr>fl_version := or_one (fl_version fl), fl_updated := now\<rparr>"
  have f: "tt_fs st = put_file (MemoryPath (te_home e)) (marshal_indent 0 (fleet_json ?fl)) f"
    using assms(1) by (auto simp: SaveFleet_def write_file_def split: option.splits)
  have "json_wf (fleet_json ?fl)" by (simp add: fleet_json_def)
  then have r: "readTunnelRecord (te_home e) ''../fleet_memory'' (tt_fs st) = Some tunnel_zero"
    using assms(2) by (simp add: readTunnelRecord_def up_to_memory[OF assms(3)] f fs_simps unmarshal_indent memory_is_no_tunnel)
  have "aliveAsTunnel e tunnel_zero st = (False, st)" by (simp add: aliveAsTunnel_def tunnel_zero_def)
  then have "tunnelStop e args st = (ok_json ''vssh_tunnel'' [(''action'', JStr ''stop''), (''id'', JStr ''../fleet_memory''), (''killed'', JBool False)],
      st\<lparr>tt_fs := removeTunnelRecord (te_home e) ''../fleet_memory'' (tt_fs st)\<rparr>)"
    using assms(5) r by (simp add: tunnelStop_def Let_def)
  then have s: "res = ok_json ''vssh_tunnel'' [(''action'', JStr ''stop''), (''id'', JStr ''../fleet_memory''), (''killed'', JBool False)]"
      "tt_fs st' = removeTunnelRecord (te_home e) ''../fleet_memory'' (tt_fs st)"
    using assms(4,6) by (auto simp: toolTunnel_def Let_def)
  have "read_file (tt_fs st') (MemoryPath (te_home e)) = Inl ENotExist"
    using assms(2) by (simp add: s removeTunnelRecord_def up_to_memory[OF assms(3)] f read_file_def remove_file_def put_file_def)
  then show ?thesis using s(1) by (simp add: LoadFleet_def)
qed

section \<open>What is written is read again\<close>

definition tunnel_ok :: "tunnel_record \<Rightarrow> bool" where
  "tunnel_ok r \<longleftrightarrow> list_all utf8 [tu_id r, tu_type r, tu_target r, tu_spec r, tu_log r, tu_started r] \<and>
     list_all utf8 (tu_argv r) \<and> int64 (tu_pid r)"

lemma tunnel_keys_ascii:
  "utf8_fix ''id'' = ''id''" "utf8_fix ''pid'' = ''pid''" "utf8_fix ''type'' = ''type''" "utf8_fix ''target'' = ''target''"
  "utf8_fix ''spec'' = ''spec''" "utf8_fix ''argv'' = ''argv''" "utf8_fix ''log'' = ''log''" "utf8_fix ''started_at'' = ''started_at''"
  by (simp_all add: utf8_fix_ascii is_ascii_def byte_in_def)

lemma read_tunnel: "tunnel_ok r \<Longrightarrow> struct_of set_tunnel tunnel_zero (tunnel_json r) = Some r"
proof -
  assume ok: "tunnel_ok r"
  have "list_all (\<lambda>(a, b). (equal_fold a b) = (a = b))
     (List.product [''id'', ''pid'', ''type'', ''target'', ''spec'', ''argv'', ''log'', ''started_at'']
        [''id'', ''pid'', ''type'', ''target'', ''spec'', ''argv'', ''log'', ''started_at''])" by code_simp
  then show ?thesis using ok
    by (simp add: struct_of_def tunnel_json_def set_tunnel_def text_field_def list_field_def num_field_def all_some_texts
        tunnel_zero_def json_int_def read_int tunnel_ok_def)
qed

lemma read_written_tunnel:
  assumes "tunnel_ok r" "fs_wrerr f (tunnel_path home (tu_id r) ''.json'') = None" "fs_rderr f (tunnel_path home (tu_id r) ''.json'') = None"
  shows "readTunnelRecord home (tu_id r) (writeTunnelRecord home r f) = Some r"
proof -
  have "json_wf (tunnel_json r)" by (simp add: tunnel_json_def list_all_iff)
  moreover have "json_norm (tunnel_json r) = tunnel_json r" using assms(1)
    by (simp add: tunnel_json_def tunnel_ok_def norm_texts utf8_def tunnel_keys_ascii)
  ultimately show ?thesis
    using assms by (simp add: readTunnelRecord_def writeTunnelRecord_def fs_simps unmarshal_indent read_tunnel)
qed

section \<open>Examples\<close>

definition demo_tunnels :: tunnel_env where
  "demo_tunnels = \<lparr>te_home = ''/root'', te_self = Inr ''/usr/bin/vssh'', te_mkdir = None, te_stamp = ''17'', te_now = ''2026-01-01T00:00:00Z'',
     te_io = (\<lambda>_. ''''), te_spawn = (\<lambda>_. Inr 7), te_output = (\<lambda>_. ''''), te_ps = (\<lambda>n p. Some ''vssh fwd d1 -L 1:h:2'')\<rparr>"

definition kept_memory :: fleet where "kept_memory = AddNote ''2026-01-01T00:00:00Z'' ''d1'' ''disk is full'' fleet_new"

definition demo_fs :: fs where "demo_fs = snd (SaveFleet ''2026-01-01T00:00:00Z'' ''/root'' kept_memory empty_fs)"

definition demo_state :: tunnel_state where "demo_state = \<lparr>tt_fs = demo_fs, tt_asked = 0, tt_events = []\<rparr>"

definition stop_args :: json where
  "stop_args = JObj [(''action'', JStr ''stop''), (''id'', JStr ''../fleet_memory'')]"

lemma tunnel_signals_only_forwards_witness:
  "\<exists>res st' new. toolTunnel demo_tunnels [] stop_args demo_state = (res, st') \<and> tt_events st' = new \<and>
     signals_ok demo_tunnels stop_args demo_fs new"
proof -
  obtain res st' where t: "toolTunnel demo_tunnels [] stop_args demo_state = (res, st')" by (metis surj_pair)
  from tunnel_signals_only_forwards[OF t] t show ?thesis by (auto simp: demo_state_def)
qed

lemma tunnel_stop_removes_memory_witness:
  "LoadFleet ''/root'' (tt_fs (snd (toolTunnel demo_tunnels [] stop_args demo_state))) = Inr fleet_new"
proof -
  obtain res st' where t: "toolTunnel demo_tunnels [] stop_args demo_state = (res, st')" by (metis surj_pair)
  have s: "SaveFleet ''2026-01-01T00:00:00Z'' (te_home demo_tunnels) kept_memory empty_fs = (None, tt_fs demo_state)"
    by (simp add: demo_state_def demo_fs_def demo_tunnels_def SaveFleet_def write_file_def empty_fs_def)
  have "to_lower (trimmed stop_args ''action'') = ''stop''" "trimmed stop_args ''id'' = ''../fleet_memory''" by code_simp+
  with tunnel_stop_removes_memory[OF s _ _ _ _ t] t show ?thesis by (simp add: demo_tunnels_def fs_simps is_abs_def)
qed

end
