(* ===== verification/McpFacts.thy ===== *)
theory McpFacts
  imports McpFleet
begin

text \<open>
  What holds of the tools on the fleet: the health report is in order, a target names exactly the nodes it
  says, the configuration is written only with the switch of the operator, and the intent tool is outside
  the approval gate.
\<close>

section \<open>The report is in order\<close>

text \<open>A strict order in which elements may tie.\<close>
locale weak_order =
  fixes before :: "'a \<Rightarrow> 'a \<Rightarrow> bool"
  assumes asym: "before a b \<Longrightarrow> \<not> before b a"
    and not_trans: "\<not> before a b \<Longrightarrow> \<not> before b c \<Longrightarrow> \<not> before a c"
begin

lemma settle_perm: "settle before x ys = (m, zs) \<Longrightarrow> add_mset m (mset zs) = add_mset x (mset ys)"
proof (induction ys arbitrary: x m zs)
  case (Cons y ys)
  show ?case
  proof (cases "before y x")
    case True
    with Cons.prems obtain us where "settle before y ys = (m, us)" "zs = x # us" by (auto split: prod.splits)
    with Cons.IH[of y m us] show ?thesis by (simp add: add_mset_commute)
  next
    case False
    with Cons.prems obtain us where "settle before x ys = (m, us)" "zs = y # us" by (auto split: prod.splits)
    with Cons.IH[of x m us] show ?thesis by (metis add_mset_commute mset.simps(2))
  qed
qed simp

lemma settle_first: "settle before x ys = (m, zs) \<Longrightarrow> \<not> before x m \<and> (\<forall>z \<in> set zs. \<not> before z m)"
proof (induction ys arbitrary: x m zs)
  case Nil
  then show ?case using asym by auto
next
  case (Cons y ys)
  show ?case
  proof (cases "before y x")
    case True
    with Cons.prems obtain us where "settle before y ys = (m, us)" "zs = x # us" by (auto split: prod.splits)
    with Cons.IH[of y m us] True asym not_trans[of x y m] show ?thesis by auto
  next
    case False
    with Cons.prems obtain us where "settle before x ys = (m, us)" "zs = y # us" by (auto split: prod.splits)
    with Cons.IH[of x m us] False not_trans[of y x m] show ?thesis by auto
  qed
qed

lemma sort_perm: "mset (exchange_sort before xs) = mset xs"
proof (induction xs rule: measure_induct_rule[of length])
  case (less xs)
  show ?case
  proof (cases xs)
    case (Cons x ys)
    obtain m zs where s: "settle before x ys = (m, zs)" by (cases "settle before x ys")
    have "mset (exchange_sort before zs) = mset zs" using settle_length[OF s] Cons by (intro less) simp
    with settle_perm[OF s] Cons s show ?thesis by simp
  qed simp
qed

lemma sort_sorted: "sorted_wrt (\<lambda>a b. \<not> before b a) (exchange_sort before xs)"
proof (induction xs rule: measure_induct_rule[of length])
  case (less xs)
  show ?case
  proof (cases xs)
    case (Cons x ys)
    obtain m zs where s: "settle before x ys = (m, zs)" by (cases "settle before x ys")
    have "sorted_wrt (\<lambda>a b. \<not> before b a) (exchange_sort before zs)" using settle_length[OF s] Cons by (intro less) simp
    moreover have "set (exchange_sort before zs) = set zs" by (metis sort_perm set_mset_mset)
    ultimately show ?thesis using settle_first[OF s] Cons s by simp
  qed simp
qed

end

interpretation report: weak_order worse
  by unfold_locales (auto simp: worse_def)

text \<open>The report has every node once, and no node stands behind one that is better off.\<close>
theorem report_worst_first:
  "mset (cmdFleetHealth_report ns) = mset ns \<and> sorted_wrt (\<lambda>a b. \<not> worse b a) (cmdFleetHealth_report ns)"
  by (simp add: cmdFleetHealth_report_def report.sort_perm report.sort_sorted)

section \<open>Targets\<close>

text \<open>What a token of a target names: itself, every node, or the nodes of one facet. The value of a
  facet is never empty, so no selector but \<^verbatim>\<open>@all\<close> means the whole fleet.\<close>
definition has_facet :: "memory \<Rightarrow> string \<Rightarrow> string \<Rightarrow> bool" where
  "has_facet m k v \<longleftrightarrow> v \<noteq> '''' \<and>
     (k = ''role'' \<and> to_lower (me_role m) = v \<or> k = ''tag'' \<and> containsFold (me_tags m) v \<or>
      k = ''service'' \<and> containsFold (me_services m) v)"

definition names :: "fleet \<Rightarrow> string \<Rightarrow> string \<Rightarrow> bool" where
  "names fl tok n \<longleftrightarrow>
     (if \<not> has_prefix ''@'' tok then n = tok
      else let sel = to_lower (trim_space (trim_prefix ''@'' tok)) in
        sel = ''all'' \<and> n \<in> fst ` set (fl_nodes fl) \<or>
        (\<exists>k v m. m \<in> snd ` set (fl_nodes fl) \<and> me_name m = n \<and>
           has_facet m k (to_lower (trim_space v)) \<and> (sel = k @ '':'' @ v \<or> sel = v)))"

lemma FindNodes_set: "set (FindNodes ff fl) = {m \<in> snd ` set (fl_nodes fl). selects ff m}"
  by (auto simp: FindNodes_def)

lemma facet_prefix:
  assumes "has_prefix (k @ '':'') sel" "CHR '':'' \<notin> set k" "cut (CHR '':'') sel = Some (a, b)"
  shows "a = k \<and> sel = k @ '':'' @ b"
proof -
  obtain t where t: "sel = k @ CHR '':'' # t" using assms(1) by (auto simp: has_prefix_iff)
  with assms(2,3) show ?thesis by (simp add: cut_append)
qed

lemma suffix_not_blank:
  assumes "to_lower (trim_space x) = u @ v" "v \<noteq> ''''"
  shows "to_lower (trim_space v) \<noteq> ''''"
proof -
  have ne: "trim_space x \<noteq> ''''" using assms by (auto simp: to_lower_def)
  then have "\<not> is_space (last (trim_space x))" using trim_space_ends[of x] by simp
  moreover have "last v = lower_char (last (trim_space x))"
    using assms ne by (metis last_appendR last_map to_lower_def)
  ultimately have l: "\<not> is_space (last v)" by simp
  have "\<exists>c \<in> set (dropWhile is_space v). \<not> is_space c"
  proof -
    obtain c t where c: "dropWhile is_space v = c # t"
      using l assms(2) by (cases "dropWhile is_space v") (auto simp: dropWhile_eq_Nil_conv)
    then have "\<not> is_space c" by (simp add: dropWhile_eq_Cons_conv)
    with c show ?thesis by simp
  qed
  then have "trim_space v \<noteq> ''''" by (auto simp: trim_space_def trim_left_by_def trim_right_eq_Nil)
  then show ?thesis by (simp add: to_lower_def)
qed

lemma selects_facet:
  assumes "selects (facet k v) m" "to_lower (trim_space v) \<noteq> ''''" "k \<in> {''role'', ''tag'', ''service''}"
  shows "has_facet m k (to_lower (trim_space v))"
proof -
  have t: "to_lower (trim_space []) = []" by (simp add: to_lower_def)
  from assms(3) consider "k = ''role''" | "k = ''tag''" | "k = ''service''" by blast
  then show ?thesis
    using assms(1,2) by cases (simp_all add: selects_def facet_def has_facet_def t Let_def)
qed

lemma expandSelector_names:
  assumes "expandSelector fl tok = Inr ns" "has_prefix ''@'' tok" "n \<in> set ns"
  shows "names fl tok n"
proof -
  define sel where "sel = to_lower (trim_space (trim_prefix ''@'' tok))"
  have ne: "sel \<noteq> ''''" using assms(1) by (auto simp: expandSelector_def sel_def)
  show ?thesis
  proof (cases "sel = ''all''")
    case True
    have e: "expandSelector fl tok = (if fl_nodes fl = [] then Inl ''selector @all matched no nodes (fleet memory empty)''
         else Inr (sort (map fst (fl_nodes fl))))"
      unfolding expandSelector_def sel_def[symmetric] using True by simp
    show ?thesis using assms True unfolding e names_def sel_def[symmetric] by (auto split: if_splits)
  next
    case False
    have "\<exists>k v m. m \<in> snd ` set (fl_nodes fl) \<and> me_name m = n \<and> k \<in> {''role'', ''tag'', ''service''} \<and>
        selects (facet k v) m \<and> to_lower (trim_space v) \<noteq> '''' \<and> (sel = k @ '':'' @ v \<or> sel = v)"
    proof (cases "has_prefix ''role:'' sel \<or> has_prefix ''tag:'' sel \<or> has_prefix ''service:'' sel")
      case True
      then obtain k where k: "k \<in> {''role'', ''tag'', ''service''}" "has_prefix (k @ '':'') sel" by force
      then have nc: "CHR '':'' \<notin> set k" by auto
      from k(2) have "CHR '':'' \<in> set sel" by (auto simp: has_prefix_iff)
      then obtain a v where c: "cut (CHR '':'') sel = Some (a, v)" by (cases "cut (CHR '':'') sel") auto
      from facet_prefix[OF k(2) nc c] have sv: "sel = k @ '':'' @ v" "a = k" by auto
      have v: "v \<noteq> ''''" and n: "n \<in> set (map me_name (FindNodes (facet k v) fl))"
        using assms(1,3) ne False True c sv(2)
        unfolding expandSelector_def sel_def[symmetric] by (auto simp: Let_def set_insort_key split: if_splits list.splits)
      have "to_lower (trim_space v) \<noteq> ''''"
        using suffix_not_blank[of "trim_prefix ''@'' tok" "k @ '':''" v] v sv(1) by (simp add: sel_def)
      with n k(1) sv(1) show ?thesis by (auto simp: FindNodes_set)
    next
      case none: False
      have t: "to_lower (trim_space sel) \<noteq> ''''" using suffix_not_blank[of _ "[]" sel] ne by (simp add: sel_def)
      let ?L = "concat (map (\<lambda>k. map me_name (FindNodes (facet k sel) fl)) [''role'', ''tag'', ''service''])"
      have "expandSelector fl tok = (if dedup ?L = [] then Inl (''selector '' @ go_quote tok @ '' matched no nodes'')
          else Inr (sort (dedup ?L)))"
        using ne False none unfolding expandSelector_def sel_def[symmetric] by (auto simp: Let_def split: list.splits)
      then have "ns = sort (dedup ?L)" using assms(1) by (auto split: if_splits)
      then have "n \<in> set ?L" using assms(3) by simp
      then obtain k m where "k \<in> {''role'', ''tag'', ''service''}" "m \<in> set (FindNodes (facet k sel) fl)" "me_name m = n" by auto
      with t show ?thesis by (auto simp: FindNodes_set)
    qed
    then obtain k v m where kvm: "m \<in> snd ` set (fl_nodes fl)" "me_name m = n" "k \<in> {''role'', ''tag'', ''service''}"
      "selects (facet k v) m" "to_lower (trim_space v) \<noteq> ''''" "sel = k @ '':'' @ v \<or> sel = v" by blast
    from selects_facet[OF kvm(4,5,3)] kvm assms(2) show ?thesis unfolding names_def Let_def sel_def[symmetric] by auto
  qed
qed

lemma expand_tokens_names:
  "expand_tokens fl ts = Inr ns \<Longrightarrow> n \<in> set ns \<Longrightarrow> \<exists>t \<in> set ts. names fl (trim_space t) n"
proof (induction ts arbitrary: ns)
  case (Cons t ts)
  obtain a b where h: "(if trim_space t = '''' then Inr [] else if \<not> has_prefix ''@'' (trim_space t) then Inr [trim_space t]
      else expandSelector fl (trim_space t)) = Inr a" "expand_tokens fl ts = Inr b" "ns = a @ b"
    using Cons.prems(1) by (auto simp: Let_def split: sum.splits)
  show ?case
  proof (cases "n \<in> set a")
    case True
    then have "names fl (trim_space t) n"
      using h(1) expandSelector_names[of fl "trim_space t" a n] by (auto simp: names_def split: if_splits)
    then show ?thesis by auto
  next
    case False
    with Cons h show ?thesis by auto
  qed
qed simp

text \<open>The nodes a target resolves to are each named by one of its tokens, each once, and there is one at least.\<close>
theorem targets_are_named:
  assumes "resolveTargetsWith fl spec = Inr ns"
  shows "ns \<noteq> [] \<and> distinct ns \<and> (\<forall>n \<in> set ns. \<exists>t \<in> set (split_on (CHR '','') (trim_space spec)). names fl (trim_space t) n)"
proof -
  obtain ms where e: "expand_tokens fl (split_on (CHR '','') (trim_space spec)) = Inr ms"
    and ns: "ns = dedup (filter (\<lambda>n. n \<noteq> '''') ms)" "ns \<noteq> []"
    using assms by (auto simp: resolveTargetsWith_def Let_def split: if_splits sum.splits)
  show ?thesis using ns expand_tokens_names[OF e] by auto
qed


definition two_nodes :: fleet where
  "two_nodes = fleet_new\<lparr>fl_nodes := [(''d1'', memory_zero\<lparr>me_name := ''d1'', me_role := ''gpu''\<rparr>),
     (''v1'', memory_zero\<lparr>me_name := ''v1'', me_role := ''vm''\<rparr>)]\<rparr>"

lemma targets_are_named_witness:
  "resolveTargetsWith two_nodes ''v2, @gpu'' = Inr [''v2'', ''d1''] \<and> names two_nodes ''@gpu'' ''d1''"
proof -
  have r: "resolveTargetsWith two_nodes ''v2, @gpu'' = Inr [''v2'', ''d1'']" by code_simp
  have s: "split_on (CHR '','') (trim_space ''v2, @gpu'') = [''v2'', '' @gpu'']" "trim_space ''v2'' = ''v2''" "trim_space '' @gpu'' = ''@gpu''"
    by code_simp+
  have "\<not> names two_nodes ''v2'' ''d1''" by (simp add: names_def)
  with targets_are_named[OF r] r s show ?thesis by simp
qed

section \<open>What is gated, and what is not\<close>

definition config_writers :: "string list" where
  "config_writers = [''vssh_config_authorize_key'', ''vssh_config_revoke_key'', ''vssh_config_set_node'', ''vssh_config_pin_node'']"

text \<open>Without the switch of the operator no tool that writes the configuration changes anything.\<close>
theorem config_writes_gated:
  assumes "\<not> configWriteAllowed ct" "name \<in> set config_writers"
  shows "snd (dispatch_fleet entries ct fr other name args s) = s \<and>
    json_get ''success'' (fst (dispatch_fleet entries ct fr other name args s)) = Some (JBool False)"
proof -
  have j: "json_get ''success'' (memErr t c m) = Some (JBool False)" for t c m
    by (simp add: memErr_def json_get_def json_map_def)
  from assms(2) have "name = ''vssh_config_authorize_key'' \<or> name = ''vssh_config_revoke_key'' \<or>
      name = ''vssh_config_set_node'' \<or> name = ''vssh_config_pin_node''"
    by (simp only: config_writers_def list.set insert_iff empty_iff simp_thms)
  then show ?thesis
    by (elim disjE) (simp_all add: dispatch_fleet_def toolConfigAuthorizeKey_def toolConfigRevokeKey_def
        toolConfigSetNode_def toolConfigPinNode_def config_tool_def assms(1) j Let_def)
qed

lemma run_commands_calls: "run_commands fr h cs s = (rs, s') \<Longrightarrow> ms_calls s' = ms_calls s @ map (ExecOn h (fr_port fr)) cs"
  by (induction cs arbitrary: s rs) (auto simp: exec_on_def split: prod.splits)

text \<open>C25: A plan that is executed runs every command on every node of the target, whatever the classifier says of
  it and without the flag: the intent tool is not behind the approval gate.\<close>
theorem intent_bypasses_gate:
  assumes "getString args ''query'' = q" "trim_space q \<noteq> ''''" "ResolveIntent (fr_home fr) (ms_fs s) q = Some p"
    and "getBool args ''execute'' False" "getString args ''target'' = t" "t \<noteq> ''''" "resolveTargets ct fr t s = Inr [n]"
    and "dispatch_fleet entries ct fr other ''vssh_intent'' args s = (r, s')"
  shows "\<exists>h. ms_calls s' = ms_calls s @ map (ExecOn h (fr_port fr)) (pn_commands p)"
proof -
  have "toolIntent ct fr args s = (r, s')" using assms(8) by (simp add: dispatch_fleet_def)
  then obtain rs where "runPlan fr (pn_commands p) n s = (rs, s')"
    using assms(1-7) by (auto simp: toolIntent_def Let_def runPlanMulti_def split: prod.splits)
  then obtain h s1 rs2 where "reach fr n s = (h, s1)" "run_commands fr h (pn_commands p) s1 = (rs2, s')"
    by (auto simp: runPlan_def split: prod.splits)
  with run_commands_calls[of fr h "pn_commands p" s1 rs2 s'] show ?thesis by auto
qed

definition demo_ctl :: ctl where
  "demo_ctl = \<lparr>ct_now = '''', ct_stamp = '''', ct_floats = no_floats, ct_load_err = (\<lambda>_. ''''), ct_io_err = (\<lambda>_. ''''),
     ct_cfg_err = (\<lambda>_. ''''), ct_run_err = (\<lambda>_. ''''), ct_env = (\<lambda>_. ''''), ct_show = (\<lambda>_. '''')\<rparr>"

lemma config_writes_gated_witness:
  "snd (dispatch_fleet [] demo_ctl demo_front (\<lambda>_ _ s. (JNull, s)) ''vssh_config_revoke_key'' demo_args idle) = idle"
proof -
  have "\<not> configWriteAllowed demo_ctl" "''vssh_config_revoke_key'' \<in> set config_writers" by code_simp+
  from config_writes_gated[OF this] show ?thesis by blast
qed

text \<open>The argument of a service check can be a command of its own.\<close>
definition sly_args :: json where
  "sly_args = JObj [(''query'', JStr ''service check x;reboot''), (''target'', JStr ''g1''), (''execute'', JBool True)]"

lemma intent_bypasses_gate_witness:
  "(\<exists>h. ExecOn h 48291 ''systemctl is-active x;reboot'' \<in>
      set (ms_calls (snd (dispatch_fleet [] demo_ctl demo_front (\<lambda>_ _ s. (JNull, s)) ''vssh_intent'' sly_args idle)))) \<and>
   \<not> pd_allowed (classifyCommand ''systemctl is-active x;reboot'')"
proof -
  have a: "getString sly_args ''query'' = ''service check x;reboot''" "getString sly_args ''target'' = ''g1''"
    "getBool sly_args ''execute'' False" "\<not> pd_allowed (classifyCommand ''systemctl is-active x;reboot'')"
    "trim_space ''service check x;reboot'' \<noteq> ''''" by code_simp+
  have i: "ms_fs idle = empty_fs" "fr_home demo_front = ''/root''" "fr_port demo_front = 48291" by (simp_all add: demo_front_def)
  have l: "LoadFleet ''/root'' empty_fs = Inr fleet_new" by (simp add: LoadFleet_def read_file_def empty_fs_def)
  have w: "resolveTargetsWith fleet_new ''g1'' = Inr [''g1'']" by code_simp
  have t: "resolveTargets demo_ctl demo_front ''g1'' idle = Inr [''g1'']" by (simp add: resolveTargets_def i l w)
  obtain p where p: "ResolveIntent ''/root'' empty_fs ''service check x;reboot'' = Some p"
    "''systemctl is-active x;reboot'' \<in> set (pn_commands p)"
  proof -
    have "distinct (map in_name builtinIntents)" by code_simp
    then have "LoadIntents ''/root'' empty_fs = builtinIntents"
      by (simp add: LoadIntents_def loadUserIntents_def read_file_def empty_fs_def overlay_distinct)
    moreover have "map_option pn_commands (resolveWith builtinIntents ''service check x;reboot'')
        = Some [''systemctl status x;reboot --no-pager'', ''systemctl is-active x;reboot'']" by code_simp
    ultimately have "map_option pn_commands (ResolveIntent ''/root'' empty_fs ''service check x;reboot'')
        = Some [''systemctl status x;reboot --no-pager'', ''systemctl is-active x;reboot'']"
      by (simp only: ResolveIntent_def)
    then obtain p where "ResolveIntent ''/root'' empty_fs ''service check x;reboot'' = Some p"
      "pn_commands p = [''systemctl status x;reboot --no-pager'', ''systemctl is-active x;reboot'']" by blast
    with that[of p] show ?thesis by simp
  qed
  obtain r s' where d: "dispatch_fleet [] demo_ctl demo_front (\<lambda>_ _ s. (JNull, s)) ''vssh_intent'' sly_args idle = (r, s')"
    by (metis surj_pair)
  have "ResolveIntent (fr_home demo_front) (ms_fs idle) ''service check x;reboot'' = Some p" using p(1) i by simp
  from intent_bypasses_gate[OF a(1,5) this a(3,2) _ t d]
  obtain h where h: "ms_calls s' = ms_calls idle @ map (ExecOn h (fr_port demo_front)) (pn_commands p)" by blast
  have "ExecOn h 48291 ''systemctl is-active x;reboot'' \<in> set (ms_calls s')" unfolding h i using p(2) by simp
  with a(4) show ?thesis unfolding d snd_conv by blast
qed

end
