(* ===== verification/Setup.thy ===== *)
theory Setup
  imports TunnelTool McpFacts
begin

text \<open>
  The diagnosis (\<^verbatim>\<open>cmd/vssh/doctor.go\<close>) and the first set-up (\<^verbatim>\<open>cmd/vssh/setup.go\<close>): the checks and
  the status they add up to, the registry of node keys that is built from what the nodes answer over
  ssh, and the set-up that runs by itself at most once. The machine (programs, their output, ssh, the
  order in which nodes answer) is an argument.
\<close>

section \<open>The report\<close>

record check =
  ck_name :: string
  ck_status :: string
  ck_detail :: string
  ck_next :: string

record report =
  rt_status :: string
  rt_checks :: "check list"
  rt_next :: "string list"

definition add_check :: "string \<Rightarrow> string \<Rightarrow> string \<Rightarrow> string \<Rightarrow> report \<Rightarrow> report" where
  "add_check name status detail nxt r =
     r\<lparr>rt_checks := rt_checks r @ [\<lparr>ck_name = name, ck_status = status, ck_detail = detail, ck_next = nxt\<rparr>],
       rt_status := (if status = ''fail'' then ''fail'' else if status = ''warn'' \<and> rt_status r = ''ok'' then ''warn'' else rt_status r)\<rparr>"

record machine_env =
  mv_exe :: "string + string"
  mv_version :: string
  mv_home :: "string option"                          \<comment> \<open>None: no home directory\<close>
  mv_PATH :: string
  mv_lookup :: "string option"                        \<comment> \<open>the program on the path\<close>
  mv_program :: "path \<Rightarrow> bool"                        \<comment> \<open>a file that may be executed\<close>
  mv_asked :: "path \<Rightarrow> string option"                 \<comment> \<open>what it prints as its version\<close>
  mv_wire :: path
  mv_peers :: "string + node list"
  mv_time :: int
  mv_recent :: "string \<Rightarrow> bool"                       \<comment> \<open>a time less than a minute ago\<close>

subsection \<open>Binaries\<close>

definition or_empty :: "string option \<Rightarrow> string" where "or_empty x = (case x of None \<Rightarrow> '''' | Some s \<Rightarrow> s)"

definition vsshBinaryCandidates :: "machine_env \<Rightarrow> string \<Rightarrow> path list" where
  "vsshBinaryCandidates mv current =
     sort (filter (\<lambda>p. p \<noteq> '''' \<and> mv_program mv p)
       (dedup ([current] @ (case mv_lookup mv of None \<Rightarrow> [] | Some p \<Rightarrow> [p])
          @ [join_path [or_empty (mv_home mv), ''bin'', ''vssh''], ''/usr/local/bin/vssh'', ''/opt/homebrew/bin/vssh'']
          @ (if mv_PATH mv = '''' then [] else map (\<lambda>d. join_path [d, ''vssh'']) (split_on (CHR '':'') (mv_PATH mv))))))"

definition vsshBinaryVersion :: "machine_env \<Rightarrow> path \<Rightarrow> string" where
  "vsshBinaryVersion mv p = (case mv_asked mv p of None \<Rightarrow> ''unknown'' | Some out \<Rightarrow> trim_space out)"

definition hasVersionConflict :: "(path \<times> string) list \<Rightarrow> bool" where
  "hasVersionConflict vs \<longleftrightarrow> 1 < length (dedup (filter (\<lambda>v. v \<noteq> '''' \<and> v \<noteq> ''unknown'') (map snd vs)))"

definition formatVersions :: "(path \<times> string) list \<Rightarrow> string" where
  "formatVersions vs = join ''; '' (map (\<lambda>(p, v). p @ ''='' @ v) (sort_key fst vs))"

definition checkBinaryConflicts :: "machine_env \<Rightarrow> report \<Rightarrow> report" where
  "checkBinaryConflicts mv r =
     (let vs = map (\<lambda>p. (p, vsshBinaryVersion mv p)) (vsshBinaryCandidates mv (case mv_exe mv of Inl _ \<Rightarrow> '''' | Inr p \<Rightarrow> p)) in
      if vs = [] then add_check ''vssh_binary_conflict'' ''warn'' ''no executable vssh candidates found'' ''install vssh or add it to PATH'' r
      else if hasVersionConflict vs then
        add_check ''vssh_binary_conflict'' ''warn'' (formatVersions vs) ''remove stale vssh binaries or pin MCP clients to the intended binary'' r
      else add_check ''vssh_binary_conflict'' ''ok'' (formatVersions vs) '''' r)"

definition checkAuthModel :: "report \<Rightarrow> report" where
  "checkAuthModel r = add_check ''auth_model'' ''ok'' ''key-only (Ed25519 VAUTH1); no shared secret'' '''' r"

subsection \<open>Wire and peers\<close>

text \<open>Name of the node and address of the server; every field has to have its type.\<close>
definition wire_member :: "(string \<times> string) setter" where
  "wire_member k v = (\<lambda>(nn, su).
     if equal_fold k ''node_name'' then text_field v (\<lambda>t. (t, su)) (nn, su)
     else if equal_fold k ''server_url'' then text_field v (\<lambda>t. (nn, t)) (nn, su)
     else if equal_fold k ''node_id'' then text_field v (\<lambda>_. (nn, su)) (nn, su)
     else if equal_fold k ''networks'' then
       map_option (\<lambda>_. (nn, su)) (map_of_json (struct_of (\<lambda>k v u.
         if equal_fold k ''network'' \<or> equal_fold k ''vpn_ip'' \<or> equal_fold k ''vpn_subnet'' \<or> equal_fold k ''interface''
         then text_field v (\<lambda>_. u) u else Some u) ()) v)
     else Some (nn, su))"

definition wire_config :: "path \<Rightarrow> fs \<Rightarrow> (string \<times> string) option" where
  "wire_config wire f =
     (let try = (\<lambda>p. case read_file f p of Inl _ \<Rightarrow> None
                     | Inr d \<Rightarrow> (case unmarshal d of None \<Rightarrow> None | Some v \<Rightarrow> struct_of wire_member ('''', '''') v))
      in case try (join_path [wire, ''config.json'']) of Some u \<Rightarrow> Some u | None \<Rightarrow> try ''/etc/wire/config.json'')"

definition checkWireConfig :: "machine_env \<Rightarrow> fs \<Rightarrow> report \<Rightarrow> report" where
  "checkWireConfig mv f r =
     (case wire_config (mv_wire mv) f of
        None \<Rightarrow> add_check ''wire_config'' ''warn'' ''wire config not found''
          ''standalone vssh can still work; configure peers or use explicit host:port'' r
      | Some (nn, su) \<Rightarrow> add_check ''wire_config'' ''ok'' (''node='' @ nn @ (if su = '''' then '''' else '' server_url=set'')) '''' r)"

definition peerOnline :: "machine_env \<Rightarrow> node \<Rightarrow> bool" where
  "peerOnline mv p =
     (case nd_online p of Some b \<Rightarrow> b
      | None \<Rightarrow> (case nd_seen p of NotSeen \<Rightarrow> False | SeenAt t \<Rightarrow> mv_time mv - t < 60 | SeenText t \<Rightarrow> mv_recent mv t))"

definition checkPeers :: "machine_env \<Rightarrow> report \<Rightarrow> report" where
  "checkPeers mv r =
     (case mv_peers mv of
        Inl e \<Rightarrow> add_check ''peers'' ''warn'' e ''verify wire/tailscale peer configuration or use explicit host:port targets'' r
      | Inr ps \<Rightarrow>
          if ps = [] then
            add_check ''peers'' ''warn'' ''peers=0'' ''configure peers before using routing, facts-many, or MCP host selection'' r
          else add_check ''peers'' ''ok'' (''peers='' @ show_nat (length ps) @ '' online=''
            @ show_nat (length (filter (\<lambda>p. nd_name p \<noteq> '''' \<and> peerOnline mv p) ps))) '''' r)"

definition registry_path :: "string \<Rightarrow> path" where "registry_path home = join_path [home, ''.vssh'', ''node_keys'']"

definition nodeKeysCount :: "string \<Rightarrow> fs \<Rightarrow> nat" where
  "nodeKeysCount home f =
     (case read_file f (registry_path home) of Inl _ \<Rightarrow> 0
      | Inr d \<Rightarrow> length (filter (\<lambda>l. 2 \<le> length (go_fields l)) (split_on NL d)))"

definition checkRegistry :: "machine_env \<Rightarrow> fs \<Rightarrow> report \<Rightarrow> report" where
  "checkRegistry mv f r =
     (case mv_home mv of None \<Rightarrow> r
      | Some home \<Rightarrow>
          if nodeKeysCount home f = 0 then
            add_check ''host_identity_registry'' ''warn'' (''node_keys empty/missing '' @ [CHR 0xE2, CHR 0x80, CHR 0x94]
                @ '' host-identity verification is dormant'')
              ''run the vssh_setup tool (or scripts/build_node_registry.sh) to populate it'' r
          else add_check ''host_identity_registry'' ''ok'' (show_nat (nodeKeysCount home f) @ '' nodes pinned'') '''' r)"

definition next_actions :: "string \<Rightarrow> string list" where
  "next_actions status =
     (if status = ''ok'' then
        [''Run vssh status.'', ''Run vssh facts-many <hosts> before connecting AI operators.'',
         ''Connect MCP clients to vssh mcp only when direct transport tools are needed.'']
      else if status = ''warn'' then
        [''Review warning checks before relying on native execution.'', ''Pin MCP clients to the intended vssh binary.'']
      else [''Fix failed checks before starting vsshd or exposing vssh MCP.''])"

definition runDoctor :: "machine_env \<Rightarrow> fs \<Rightarrow> report" where
  "runDoctor mv f =
     (let r0 = \<lparr>rt_status = ''ok'', rt_checks = [], rt_next = []\<rparr>;
          r1 = (case mv_exe mv of Inr p \<Rightarrow> add_check ''vssh_binary'' ''ok'' p '''' r0
                | Inl e \<Rightarrow> add_check ''vssh_binary'' ''fail'' e ''reinstall vssh or run the expected binary explicitly'' r0);
          r2 = add_check ''vssh_version'' ''ok'' (''vssh '' @ mv_version mv) '''' r1;
          r7 = checkRegistry mv f (checkPeers mv (checkWireConfig mv f (checkAuthModel (checkBinaryConflicts mv r2))))
      in r7\<lparr>rt_next := next_actions (rt_status r7)\<rparr>)"

definition check_json :: "check \<Rightarrow> json" where
  "check_json c = JObj ([(''name'', JStr (ck_name c)), (''status'', JStr (ck_status c))] @ omit_empty ''detail'' (ck_detail c)
     @ omit_empty ''next'' (ck_next c))"

definition report_json :: "report \<Rightarrow> json" where
  "report_json r = JObj [(''kind'', JStr ''vssh_doctor''), (''status'', JStr (rt_status r)),
     (''checks'', json_list (map check_json (rt_checks r))), (''next_actions'', json_list (map JStr (rt_next r)))]"

text \<open>A document taken through \<^verbatim>\<open>interface{}\<close>: the members stand in the order of their names.\<close>
fun generic :: "json \<Rightarrow> json" where
  "generic (JArr vs) = JArr (map generic vs)"
| "generic (JObj ms) = json_map (map (\<lambda>(k, v). (k, generic v)) ms)"
| "generic v = v"

definition doctorJSON :: "report \<Rightarrow> json" where
  "doctorJSON r = (case unmarshal (marshal (report_json r)) of Some (JObj ms) \<Rightarrow> generic (JObj ms) | _ \<Rightarrow> JObj [])"

definition formatDoctor :: "report \<Rightarrow> string" where
  "formatDoctor r = ''vssh doctor status='' @ rt_status r @ [NL]
     @ concat (map (\<lambda>c. ''- '' @ ck_name c @ '': '' @ ck_status c @ (if ck_detail c = '''' then '''' else '' | '' @ ck_detail c)
         @ (if ck_next c = '''' then '''' else '' | next: '' @ ck_next c) @ [NL]) (rt_checks r))
     @ (if rt_next r = [] then '''' else ''next_actions:'' @ [NL] @ concat (map (\<lambda>a. ''- '' @ a @ [NL]) (rt_next r)))"

text \<open>Output, error output and exit status.\<close>
definition cmdDoctor :: "machine_env \<Rightarrow> fs \<Rightarrow> string list \<Rightarrow> string \<times> string \<times> int" where
  "cmdDoctor mv f args =
     (if filter (\<lambda>a. a \<noteq> ''--json'') args \<noteq> [] then ('''', ''Usage: vssh doctor [--json]'' @ [NL], 1)
      else let r = runDoctor mv f in
        if ''--json'' \<in> set args then (marshal_indent 0 (report_json r) @ [NL], '''', 0)
        else (formatDoctor r, '''', if rt_status r = ''fail'' then 1 else 0))"

subsection \<open>What the status says\<close>

definition worst :: "check list \<Rightarrow> string" where
  "worst cs = (if \<exists>c \<in> set cs. ck_status c = ''fail'' then ''fail'' else if \<exists>c \<in> set cs. ck_status c = ''warn'' then ''warn'' else ''ok'')"

lemma add_check_worst: "rt_status r = worst (rt_checks r) \<Longrightarrow> rt_status (add_check n s d x r) = worst (rt_checks (add_check n s d x r))"
  by (auto simp: add_check_def worst_def)

lemma doctor_status_is_worst: "rt_status (runDoctor mv f) = worst (rt_checks (runDoctor mv f))"
proof -
  have z: "rt_status \<lparr>rt_status = ''ok'', rt_checks = [], rt_next = x\<rparr> = worst (rt_checks \<lparr>rt_status = ''ok'', rt_checks = [], rt_next = x\<rparr>)" for x
    by (simp add: worst_def)
  have b: "rt_status r = worst (rt_checks r) \<Longrightarrow> rt_status (checkBinaryConflicts mv r) = worst (rt_checks (checkBinaryConflicts mv r))" for r
    by (simp add: checkBinaryConflicts_def Let_def add_check_worst)
  have w: "rt_status r = worst (rt_checks r) \<Longrightarrow> rt_status (checkWireConfig mv f r) = worst (rt_checks (checkWireConfig mv f r))" for r
    by (simp add: checkWireConfig_def add_check_worst split: option.split)
  have p: "rt_status r = worst (rt_checks r) \<Longrightarrow> rt_status (checkPeers mv r) = worst (rt_checks (checkPeers mv r))" for r
    by (simp add: checkPeers_def add_check_worst split: sum.split)
  have g: "rt_status r = worst (rt_checks r) \<Longrightarrow> rt_status (checkRegistry mv f r) = worst (rt_checks (checkRegistry mv f r))" for r
    by (simp add: checkRegistry_def add_check_worst split: option.split)
  have n: "rt_status (r\<lparr>rt_next := x\<rparr>) = rt_status r" "rt_checks (r\<lparr>rt_next := x\<rparr>) = rt_checks r" for r x by simp_all
  show ?thesis unfolding runDoctor_def Let_def n checkAuthModel_def
    by (intro g p w b add_check_worst) (cases "mv_exe mv"; simp only: sum.case; rule add_check_worst; rule z)
qed

section \<open>The registry of node keys\<close>

definition registry_of :: "string \<Rightarrow> (string \<times> string) list" where
  "registry_of d = overlay fst (List.map_filter (\<lambda>l. case go_fields l of n # k # _ \<Rightarrow> Some (n, k) | _ \<Rightarrow> None) (split_on NL d)) []"

text \<open>The key a node prints for itself; ssh gives the output of a command on a node.\<close>
definition probe_key :: "(string \<Rightarrow> string \<Rightarrow> string) \<Rightarrow> string \<Rightarrow> string" where
  "probe_key ssh name =
     (let osn = trim_space (ssh name ''uname -s'') in
      if osn = '''' then ''''
      else
        let (vb, pfx) = (if osn = ''Darwin'' then (''$HOME/.local/bin/vssh'', '''') else (''/usr/local/bin/vssh'', ''sudo''));
            out = ssh name (pfx @ '' '' @ vb @ '' handshake-test --tls 127.0.0.1 2>/dev/null'')
        in foldl (\<lambda>k l. if contains ''server_key'' l \<and> 4 \<le> length (split_on (CHR 0x22) l) then split_on (CHR 0x22) l ! 3 else k) ''''
             (split_on NL out))"

definition refreshed :: "(string \<times> string) list \<Rightarrow> (string \<times> string) list \<Rightarrow> (string \<times> string) list" where
  "refreshed reg rs = overlay fst reg (filter (\<lambda>(n, k). k \<noteq> '''') rs)"

definition registry_text :: "(string \<times> string) list \<Rightarrow> string" where
  "registry_text reg = concat (map (\<lambda>(n, k). n @ '' '' @ k @ [NL]) (sort_key fst reg))"

text \<open>The registry before, in the file.\<close>
definition kept_registry :: "string \<Rightarrow> fs \<Rightarrow> (string \<times> string) list" where
  "kept_registry home f = (case read_file f (registry_path home) of Inl _ \<Rightarrow> [] | Inr d \<Rightarrow> registry_of d)"

definition write_registry :: "string \<Rightarrow> (string \<times> string) list \<Rightarrow> fs \<Rightarrow> io_err option \<times> fs" where
  "write_registry home rs f = write_file (registry_path home) (registry_text (refreshed (kept_registry home f) rs)) f"

definition manual_step :: string where
  "manual_step = ''Flip VSSH_REQUIRE_TLS fleet-wide after the 7-day plaintext-free window: scripts/enable_require_tls.sh (gate-guarded).''"

text \<open>The nodes answer in any order; None is the panic of a controller without a key.\<close>
definition toolSetup ::
  "machine_env \<Rightarrow> signer \<Rightarrow> ctl \<Rightarrow> front \<Rightarrow> (string \<Rightarrow> string \<Rightarrow> string) \<Rightarrow> ((string \<times> string) list \<Rightarrow> (string \<times> string) list) \<Rightarrow>
    ident_cache \<times> mstate \<Rightarrow> (json \<times> ident_cache \<times> mstate) option" where
  "toolSetup mv si ct fr ssh arrive = (\<lambda>(c, s).
     (case mv_peers mv of
        Inl e \<Rightarrow> Some (json_map [(''success'', JBool False), (''tool'', JStr ''vssh_setup''), (''error'', JStr (''no connector: '' @ e))], c, s)
      | Inr ns \<Rightarrow>
          let rs = arrive (map (\<lambda>p. (nd_name p, probe_key ssh (nd_name p))) ns);
              reg = refreshed (kept_registry (fr_home fr) (ms_fs s)) rs;
              (err, f1) = write_registry (fr_home fr) rs (ms_fs s)
          in map_option (\<lambda>((sn, ferr), c2, s2). (json_map
               [(''fleet_state_written'', JBool (ferr = None)), (''success'', JBool (err = None)), (''tool'', JStr ''vssh_setup''),
                (''registry_path'', JStr (registry_path (fr_home fr))), (''registry_entries'', json_int (int (length reg))),
                (''refreshed'', json_int (int (length (filter (\<lambda>(n, k). k \<noteq> '''') rs)))),
                (''unreachable'', json_list (map (\<lambda>(n, k). JStr n) (filter (\<lambda>(n, k). k = '''') rs))),
                (''host_identity_verification'', JStr (''default-ON; now enforces '' @ show_nat (length reg)
                   @ '' known nodes (a misrouted/wrong host is refused)'')),
                (''remaining_manual'', texts [manual_step]),
                (''next'', JStr ''vssh is configured. Run vssh_doctor to confirm, then use vssh_exec normally.''),
                (''doctor'', doctorJSON (runDoctor mv (ms_fs s2)))], c2, s2))
             (refreshFleetState si ct fr ns False (c, s\<lparr>ms_fs := f1\<rparr>))))"

definition marker_path :: "string \<Rightarrow> path" where "marker_path home = join_path [home, ''.vssh'', ''.autosetup_done'']"

definition exists_path :: "fs \<Rightarrow> path \<Rightarrow> bool" where "exists_path f p \<longleftrightarrow> file_text f p \<noteq> None \<or> p \<in> set (fs_dirs f)"

definition writeAutoSetupMarker :: "ctl \<Rightarrow> path \<Rightarrow> fs \<Rightarrow> fs" where
  "writeAutoSetupMarker ct p f = snd (write_file p (ct_now ct @ [NL]) f)"

text \<open>The result of a set-up that ran.\<close>
definition autoSetupOnce ::
  "machine_env \<Rightarrow> signer \<Rightarrow> ctl \<Rightarrow> front \<Rightarrow> (string \<Rightarrow> string \<Rightarrow> string) \<Rightarrow> ((string \<times> string) list \<Rightarrow> (string \<times> string) list) \<Rightarrow>
    ident_cache \<times> mstate \<Rightarrow> (json option \<times> ident_cache \<times> mstate) option" where
  "autoSetupOnce mv si ct fr ssh arrive = (\<lambda>(c, s).
     (let v = trim_space (ct_env ct ''VSSH_NO_AUTOSETUP'') in
      if v \<noteq> '''' \<and> v \<noteq> ''0'' then Some (None, c, s)
      else (case mv_home mv of
          None \<Rightarrow> Some (None, c, s)
        | Some home \<Rightarrow>
            if home = '''' then Some (None, c, s)
            else if exists_path (ms_fs s) (marker_path home) then Some (None, c, s)
            else if 0 < nodeKeysCount home (ms_fs s) then
              Some (None, c, s\<lparr>ms_fs := writeAutoSetupMarker ct (marker_path home) (ms_fs s)\<rparr>)
            else map_option (\<lambda>(r, c1, s1). (Some (with_member ''auto_triggered'' (JBool True) r), c1,
                   s1\<lparr>ms_fs := writeAutoSetupMarker ct (marker_path home) (ms_fs s1)\<rparr>)) (toolSetup mv si ct fr ssh arrive (c, s)))))"

subsection \<open>What the registry answers after the set-up\<close>

lemma first_some_const:
  assumes "\<exists>x \<in> set xs. f x = Some k" "\<forall>x \<in> set xs. f x = None \<or> f x = Some k"
  shows "first_some f xs = Some k"
  using assms by (induction xs) (auto split: option.splits)

text \<open>An overlay of pairs answers with the last pair of a name.\<close>
lemma paired: "map_of (map (\<lambda>x. (fst x, x)) xs) k = map_option (Pair k) (map_of xs k)"
  by (induction xs) auto

lemma overlay_pairs:
  "map fst (overlay fst base over) = dedup (map fst (base @ over))"
  "map_of (overlay fst base over) k = map_of (rev (base @ over)) k"
proof -
  let ?xs = "base @ over"
  let ?pick = "\<lambda>n. the (map_of (rev (map (\<lambda>x. (fst x, x)) ?xs)) n)" and ?at = "\<lambda>n. (n, the (map_of (rev ?xs) n))"
  have pick: "?pick n = ?at n" if "n \<in> set (dedup (map fst ?xs))" for n
  proof -
    have "map_of (rev ?xs) n \<noteq> None" using that by (auto simp: map_of_eq_None_iff dedup_set)
    then obtain v where v: "map_of (rev ?xs) n = Some v" by blast
    have "map_of (rev (map (\<lambda>x. (fst x, x)) ?xs)) n = map_option (Pair n) (map_of (rev ?xs) n)"
      unfolding rev_map by (rule paired)
    with v show ?thesis by simp
  qed
  have o: "overlay fst base over = map ?at (dedup (map fst ?xs))"
    unfolding overlay_def Let_def using pick by (intro map_cong refl)
  show "map fst (overlay fst base over) = dedup (map fst ?xs)" unfolding o by (simp add: comp_def)
  have g: "map_of (map (\<lambda>n. (n, h n)) ns) k = (if k \<in> set ns then Some (h k) else None)" for h and ns :: "string list"
    by (induction ns) auto
  show "map_of (overlay fst base over) k = map_of (rev ?xs) k"
  proof (cases "map_of (rev ?xs) k")
    case None
    then have "k \<notin> set (dedup (map fst ?xs))" unfolding dedup_set set_map by (simp add: map_of_eq_None_iff image_Un)
    then show ?thesis unfolding o g None by simp
  next
    case (Some v)
    then have "k \<in> set (dedup (map fst ?xs))" unfolding dedup_set set_map by (metis map_of_SomeD set_rev image_eqI fst_conv)
    then show ?thesis unfolding o g Some by simp
  qed
qed

lemma map_of_reversed: "distinct (map fst xs) \<Longrightarrow> map_of (rev xs) = map_of xs"
  by (simp add: map_of_inject_set rev_map[symmetric])

text \<open>The registry after the answers: the key of a node that gave one, the old key of any other name.\<close>
lemma refreshed_entries:
  assumes "distinct (map fst rs)" "distinct (map fst reg)"
  shows "distinct (map fst (refreshed reg rs))"
    "(n, k) \<in> set rs \<Longrightarrow> k \<noteq> '''' \<Longrightarrow> (n, k) \<in> set (refreshed reg rs)"
    "(n, k) \<in> set reg \<Longrightarrow> (\<And>x. (n, x) \<in> set rs \<Longrightarrow> x = '''') \<Longrightarrow> (n, k) \<in> set (refreshed reg rs)"
proof -
  let ?new = "filter (\<lambda>(n, k). k \<noteq> '''') rs"
  have d: "distinct (map fst ?new)" using assms(1) by (simp add: distinct_map_filter)
  show dd: "distinct (map fst (refreshed reg rs))"
    unfolding refreshed_def overlay_pairs(1) by (rule dedup_seen_distinct)
  have m: "map_of (refreshed reg rs) n = (case map_of ?new n of None \<Rightarrow> map_of reg n | Some x \<Rightarrow> Some x)"
    unfolding refreshed_def overlay_pairs(2) using map_of_reversed[OF d] map_of_reversed[OF assms(2)]
    by (simp add: map_add_def split: option.split)
  show "(n, k) \<in> set (refreshed reg rs)" if "(n, k) \<in> set rs" "k \<noteq> ''''"
  proof -
    have "map_of ?new n = Some k" using that d by (intro map_of_is_SomeI) auto
    then show ?thesis using m by (auto dest!: map_of_SomeD)
  qed
  show "(n, k) \<in> set (refreshed reg rs)" if "(n, k) \<in> set reg" "\<And>x. (n, x) \<in> set rs \<Longrightarrow> x = ''''"
  proof -
    have "n \<notin> fst ` set ?new" using that(2) by force
    then have "map_of ?new n = None" by (simp add: map_of_eq_None_iff)
    moreover have "map_of reg n = Some k" using that(1) assms(2) by simp
    ultimately show ?thesis using m by (auto dest!: map_of_SomeD)
  qed
qed

lemma registry_lines:
  assumes "\<forall>(n, k) \<in> set reg. is_word n \<and> is_word k"
  shows "split_on NL (concat (map (\<lambda>(n, k). n @ '' '' @ k @ [NL]) reg)) = map (\<lambda>(n, k). n @ '' '' @ k) reg @ [[]]"
  using assms
proof (induction reg)
  case (Cons p reg)
  obtain n k where p: "p = (n, k)" by (cases p)
  with Cons.prems have "NL \<notin> set (n @ '' '' @ k)" using is_word_no_nl[of n] is_word_no_nl[of k] by auto
  then have "\<forall>c \<in> set (n @ '' '' @ k). c \<noteq> NL" by metis
  from split_by_append_sep[OF this, of NL] Cons p show ?case by simp
qed simp

lemma registry_words: "(n, k) \<in> set (registry_of d) \<Longrightarrow> is_word n \<and> is_word k"
proof -
  assume "(n, k) \<in> set (registry_of d)"
  then obtain l where "(case go_fields l of n # k # _ \<Rightarrow> Some (n, k) | _ \<Rightarrow> None) = Some (n, k)"
    by (auto simp: registry_of_def List.map_filter_def dest!: overlay_mem)
  then have "n \<in> set (go_fields l) \<and> k \<in> set (go_fields l)" by (auto split: list.splits)
  with fields_clean[of n l] fields_clean[of k l] show ?thesis by (simp add: is_word_def)
qed

lemma join_nested:
  assumes "is_abs p" "normal_comp a" "normal_comp b"
  shows "join_path [join_path [p, a], b] = join_path [p, a, b]"
proof -
  have ne: "p \<noteq> ''''" "a \<noteq> ''''" "b \<noteq> ''''" using assms by (auto simp: is_abs_def normal_comp_def)
  have s: "split_on (CHR ''/'') a = [a]" "split_on (CHR ''/'') b = [b]" using assms(2,3) by (auto simp: normal_comp_def intro!: split_by_none)
  have ab: "is_abs (p @ q)" for q using assms(1) by (cases p) (auto simp: is_abs_def)
  have st: "clean_step True st a = a # st" "clean_step True st b = b # st" for st using assms(2,3) by (auto simp: clean_step_def normal_comp_def)
  have n: "list_all normal_comp (clean_comps p @ [a])" using clean_comps_normal[OF assms(1)] assms(2) by simp
  have 1: "clean_comps (p @ CHR ''/'' # a) = clean_comps p @ [a]" using clean_comps_append[OF assms(1), of a] s st by simp
  have 2: "clean_comps (p @ CHR ''/'' # a @ CHR ''/'' # b) = clean_comps p @ [a, b]"
    using clean_comps_append[OF assms(1), of "a @ CHR ''/'' # b"] s st by (simp add: split_by_sep)
  have r: "is_abs (CHR ''/'' # t)" for t by (simp add: is_abs_def)
  have 3: "clean_comps (CHR ''/'' # join ''/'' (clean_comps p @ [a]) @ CHR ''/'' # b) = clean_comps p @ [a, b]"
    using clean_comps_append[OF r, of "join ''/'' (clean_comps p @ [a])" b] clean_comps_rooted[OF n] s st by simp
  show ?thesis using 1 2 3 ab[of "CHR ''/'' # a"] ab[of "CHR ''/'' # a @ CHR ''/'' # b"] r
    by (simp add: join_path_def ne clean_path_def)
qed

text \<open>A file of the configuration directory of a home: different names, different files.\<close>
lemma conf_path:
  assumes "is_abs home" "normal_comp a"
  shows "join_path [vsshConfigDir home, a] = join_path [home, ''.vssh'', a]"
    "join_path [vsshConfigDir home, a] = CHR ''/'' # join ''/'' (clean_comps home @ [''.vssh'', a])"
proof -
  have v: "normal_comp ''.vssh''" by (simp add: normal_comp_def)
  have h: "home \<noteq> ''''" using assms(1) by (auto simp: is_abs_def)
  show 1: "join_path [vsshConfigDir home, a] = join_path [home, ''.vssh'', a]"
    using join_nested[OF assms(1) v assms(2)] h by (simp add: vsshConfigDir_def)
  have s: "split_on (CHR ''/'') a = [a]" using assms(2) by (auto simp: normal_comp_def intro!: split_by_none)
  have st: "clean_step True st ''.vssh'' = ''.vssh'' # st" "clean_step True st a = a # st" for st
    using v assms(2) by (simp_all add: clean_step_def normal_comp_def)
  have "clean_comps (home @ CHR ''/'' # ''.vssh'' @ CHR ''/'' # a) = clean_comps home @ [''.vssh'', a]"
    using clean_comps_append[OF assms(1), of "''.vssh'' @ CHR ''/'' # a"] s st by (simp add: split_by_sep)
  moreover have "is_abs (home @ q)" for q using assms(1) by (cases home) (auto simp: is_abs_def)
  moreover have "a \<noteq> ''''" using assms(2) by (simp add: normal_comp_def)
  ultimately show "join_path [vsshConfigDir home, a] = CHR ''/'' # join ''/'' (clean_comps home @ [''.vssh'', a])"
    unfolding 1 using h by (simp add: join_path_def clean_path_def)
qed

lemma conf_path_apart:
  assumes "is_abs home" "normal_comp a" "normal_comp b" "a \<noteq> b"
  shows "join_path [vsshConfigDir home, a] \<noteq> join_path [vsshConfigDir home, b]"
proof -
  have n: "list_all normal_comp (clean_comps home @ [''.vssh'', x])" if "normal_comp x" for x
    using clean_comps_normal[OF assms(1)] that by (simp add: normal_comp_def)
  show ?thesis using assms(4) clean_comps_rooted[OF n[OF assms(2)]] clean_comps_rooted[OF n[OF assms(3)]]
    unfolding conf_path(2)[OF assms(1,2)] conf_path(2)[OF assms(1,3)] by (metis append1_eq_conv append.assoc append_Cons append_Nil)
qed

lemma join_snoc: "join ''/'' (xs @ [a]) @ b = join ''/'' (xs @ [a @ b])"
proof (induction xs)
  case (Cons x xs)
  then show ?case by (cases xs) auto
qed simp

lemma conf_path_ext:
  assumes "is_abs home" "normal_comp a" "normal_comp (a @ b)"
  shows "join_path [vsshConfigDir home, a] @ b = join_path [vsshConfigDir home, a @ b]"
  unfolding conf_path(2)[OF assms(1,2)] conf_path(2)[OF assms(1,3)]
  using join_snoc[of "clean_comps home @ [''.vssh'']" a b] by simp

text \<open>The files of the set-up: the registry, the marker, the identity and the state of the fleet.\<close>
lemma setup_paths:
  assumes "is_abs home"
  shows "registry_path home = join_path [vsshConfigDir home, ''node_keys'']"
    "marker_path home = join_path [vsshConfigDir home, ''.autosetup_done'']"
    "registry_path home \<notin> {IdentityKeyPath home, IdentityKeyPath home @ ''.pub'', FleetStatePath home}"
    "marker_path home \<notin> {registry_path home, IdentityKeyPath home, IdentityKeyPath home @ ''.pub'', FleetStatePath home}"
proof -
  have n: "normal_comp ''node_keys''" "normal_comp ''.autosetup_done''" "normal_comp ''vssh_id''" "normal_comp ''vssh_id.pub''"
    "normal_comp ''fleet_state.json''" by (simp_all add: normal_comp_def)
  show r: "registry_path home = join_path [vsshConfigDir home, ''node_keys'']"
    and m: "marker_path home = join_path [vsshConfigDir home, ''.autosetup_done'']"
    using conf_path(1)[OF assms n(1)] conf_path(1)[OF assms n(2)] by (simp_all add: registry_path_def marker_path_def)
  have i: "IdentityKeyPath home @ ''.pub'' = join_path [vsshConfigDir home, ''vssh_id.pub'']"
    using conf_path_ext[OF assms n(3), of "''.pub''"] n(4) by (simp add: IdentityKeyPath_def)
  show "registry_path home \<notin> {IdentityKeyPath home, IdentityKeyPath home @ ''.pub'', FleetStatePath home}"
    unfolding i unfolding r IdentityKeyPath_def FleetStatePath_def using conf_path_apart[OF assms] n by simp
  show "marker_path home \<notin> {registry_path home, IdentityKeyPath home, IdentityKeyPath home @ ''.pub'', FleetStatePath home}"
    unfolding i unfolding r m IdentityKeyPath_def FleetStatePath_def using conf_path_apart[OF assms] n by simp
qed

text \<open>What the set-up writes.\<close>
lemma dirs_write: "fs_dirs (snd (write_file p d f)) = fs_dirs f"
  by (simp add: write_file_def fs_simps split: option.split)

lemma identity_frame:
  "same_but {IdentityKeyPath home, IdentityKeyPath home @ ''.pub''} f (snd (LoadOrCreateIdentity gen po home (c, f)))"
  "fs_dirs (snd (LoadOrCreateIdentity gen po home (c, f))) = fs_dirs f"
  by (auto simp: LoadOrCreateIdentity_def Let_def dirs_write intro!: same_but_step[OF same_but_write same_but_write]
      split: option.splits prod.splits)

lemma refresh_frame:
  assumes "refreshFleetState si ct fr ns live (c, s) = Some (x, c1, s1)"
  shows "same_but {IdentityKeyPath (fr_home fr), IdentityKeyPath (fr_home fr) @ ''.pub'', FleetStatePath (fr_home fr)} (ms_fs s) (ms_fs s1)"
    "fs_dirs (ms_fs s1) = fs_dirs (ms_fs s)"
proof -
  obtain c2 f2 where l: "LoadOrCreateIdentity (si_gen si) (si_pub_of si) (fr_home fr) (c, ms_fs s) = (c2, f2)" by (metis surj_pair)
  note i = identity_frame[where home = "fr_home fr" and f = "ms_fs s" and gen = "si_gen si" and po = "si_pub_of si" and c = c,
      unfolded l snd_conv]
  from assms obtain sn where w: "ms_fs s1 = snd (WriteFleetState (fr_home fr) sn f2)"
    by (auto simp: refreshFleetState_def Let_def l split_beta)
  show "fs_dirs (ms_fs s1) = fs_dirs (ms_fs s)" using i(2) by (simp add: w WriteFleetState_def dirs_write)
  show "same_but {IdentityKeyPath (fr_home fr), IdentityKeyPath (fr_home fr) @ ''.pub'', FleetStatePath (fr_home fr)} (ms_fs s) (ms_fs s1)"
    unfolding w WriteFleetState_def by (rule same_but_trans[OF i(1) same_but_write[of _ "{FleetStatePath (fr_home fr)}"]]) auto
qed

lemma setup_run:
  assumes "toolSetup mv si ct fr ssh arrive (c, s) = Some (r, c1, s1)" "mv_peers mv = Inr ns"
  shows "same_but {IdentityKeyPath (fr_home fr), IdentityKeyPath (fr_home fr) @ ''.pub'', FleetStatePath (fr_home fr)}
      (snd (write_registry (fr_home fr) (arrive (map (\<lambda>p. (nd_name p, probe_key ssh (nd_name p))) ns)) (ms_fs s))) (ms_fs s1)"
    "fs_dirs (ms_fs s1) = fs_dirs (ms_fs s)"
proof -
  obtain er f1 where w: "write_registry (fr_home fr) (arrive (map (\<lambda>p. (nd_name p, probe_key ssh (nd_name p))) ns)) (ms_fs s) = (er, f1)"
    by (metis surj_pair)
  from assms w obtain x where x: "refreshFleetState si ct fr ns False (c, s\<lparr>ms_fs := f1\<rparr>) = Some (x, c1, s1)"
    by (auto simp: toolSetup_def Let_def)
  have d: "fs_dirs f1 = fs_dirs (ms_fs s)" using w by (metis dirs_write snd_conv write_registry_def)
  show "same_but {IdentityKeyPath (fr_home fr), IdentityKeyPath (fr_home fr) @ ''.pub'', FleetStatePath (fr_home fr)}
      (snd (write_registry (fr_home fr) (arrive (map (\<lambda>p. (nd_name p, probe_key ssh (nd_name p))) ns)) (ms_fs s))) (ms_fs s1)"
    using refresh_frame(1)[OF x] by (simp add: w)
  show "fs_dirs (ms_fs s1) = fs_dirs (ms_fs s)" using refresh_frame(2)[OF x] d by simp
qed

lemma same_but_read: "same_but A f g \<Longrightarrow> q \<notin> A \<Longrightarrow> read_file g q = read_file f q"
proof -
  assume a: "same_but A f g" and q: "q \<notin> A"
  show ?thesis unfolding read_file_text same_but_text[OF a q] same_but_errs[OF a, THEN conjunct1] ..
qed

text \<open>A registry whose names differ in more than their case answers each name with its key.\<close>
lemma registry_answers:
  assumes "is_abs home" "read_file f (registry_path home) = Inr (registry_text reg)" "distinct (map fst reg)"
    and w: "\<And>m x. (m, x) \<in> set reg \<Longrightarrow> is_word m \<and> is_word x"
    and one: "\<And>m. m \<in> fst ` set reg \<Longrightarrow> to_lower m = to_lower n \<Longrightarrow> m = n" and e: "(n, k) \<in> set reg"
  shows "NodeKey f home n = k"
proof -
  let ?srt = "sort_key fst reg"
  have ls: "split_on NL (registry_text reg) = map (\<lambda>(n, k). n @ '' '' @ k) ?srt @ [[]]"
    unfolding registry_text_def by (rule registry_lines) (use w in auto)
  have nk: "node_key_line (to_lower n) (m @ '' '' @ x) = (if m = n then Some x else None)" if "(m, x) \<in> set reg" for m x
  proof -
    have "(to_lower m = to_lower n) = (m = n)" using one[of m] that by force
    then show ?thesis using w[OF that] fields_word_sep[of m SP x] is_word_fields[of x]
      by (auto simp: node_key_line_def is_word_def is_space_def)
  qed
  have only: "x = k" if "(n, x) \<in> set reg" for x using assms(3) e that by (meson eq_key_imp_eq_value)
  have fs: "first_some (node_key_line (to_lower n)) (split_on NL (registry_text reg)) = Some k"
    unfolding ls
  proof (rule first_some_const)
    show "\<exists>l \<in> set (map (\<lambda>(n, k). n @ '' '' @ k) ?srt @ [[]]). node_key_line (to_lower n) l = Some k"
      using e nk[OF e] by force
    show "\<forall>l \<in> set (map (\<lambda>(n, k). n @ '' '' @ k) ?srt @ [[]]). node_key_line (to_lower n) l = None \<or> node_key_line (to_lower n) l = Some k"
      using nk only by (auto simp: node_key_line_def)
  qed
  have "is_word n" using w[OF e] by simp
  then have t: "trim_space (to_lower n) = to_lower n" "to_lower n \<noteq> ''''" using is_word_lower is_word_trim by (auto simp: is_word_def)
  show ?thesis unfolding NodeKey_def Let_def t(1) scan_files_def first_some.simps setup_paths(1)[OF assms(1), symmetric] assms(2)
    using fs t(2) by simp
qed

text \<open>C20: a set-up that ran, and whose registry could be read and written, pins every peer that printed a
  key to that key, whatever was registered for it before; and every other name of the registry, a peer
  that did not answer among them, keeps the key of its last line.  Needed is that the names (of the
  registry and of the peers) are words no two of which differ in their case only, and that what a peer
  prints is a word; \<open>stale_pin_survives\<close> shows what another spelling does.\<close>
theorem setup_pins_peers:
  assumes "toolSetup mv si ct fr ssh arrive (c, s) = Some (r, c1, s1)" "mv_peers mv = Inr ns"
    and "fr_home fr = home" "is_abs home"
    and "fs_wrerr (ms_fs s) (registry_path home) = None" "fs_rderr (ms_fs s) (registry_path home) = None"
    and "\<And>xs. mset (arrive xs) = mset xs" "distinct (map nd_name ns)"
    and "\<forall>p \<in> set ns. is_word (nd_name p) \<and> (probe_key ssh (nd_name p) = '''' \<or> is_word (probe_key ssh (nd_name p)))"
    and "\<forall>m \<in> fst ` set (kept_registry home (ms_fs s)) \<union> nd_name ` set ns.
      \<forall>m' \<in> fst ` set (kept_registry home (ms_fs s)) \<union> nd_name ` set ns. to_lower m = to_lower m' \<longrightarrow> m = m'"
  shows "(\<forall>p \<in> set ns. probe_key ssh (nd_name p) \<noteq> '''' \<longrightarrow>
        NodeKey (ms_fs s1) home (nd_name p) = probe_key ssh (nd_name p)) \<and>
    (\<forall>(m, k) \<in> set (kept_registry home (ms_fs s)).
        (m \<in> nd_name ` set ns \<longrightarrow> probe_key ssh m = '''') \<longrightarrow> NodeKey (ms_fs s1) home m = k)"
proof -
  let ?kept = "kept_registry home (ms_fs s)" and ?rs = "arrive (map (\<lambda>p. (nd_name p, probe_key ssh (nd_name p))) ns)"
  let ?reg = "refreshed ?kept ?rs"
  have rs: "set ?rs = (\<lambda>p. (nd_name p, probe_key ssh (nd_name p))) ` set ns"
    using mset_eq_setD[OF assms(7)] by (simp only: set_map)
  have "mset (map fst ?rs) = mset (map nd_name ns)"
    unfolding mset_map assms(7) by (simp add: multiset.map_comp comp_def)
  then have d: "distinct (map fst ?rs)" using assms(8) mset_eq_imp_distinct_iff by blast
  have dk: "distinct (map fst ?kept)"
    by (simp add: kept_registry_def registry_of_def overlay_pairs(1) dedup_seen_distinct split: sum.split)
  note ent = refreshed_entries[OF d dk]
  have mem: "p \<in> set ?kept \<or> p \<in> set ?rs \<and> snd p \<noteq> ''''" if "p \<in> set ?reg" for p
    using overlay_mem[OF that[unfolded refreshed_def]] by auto
  have w: "is_word m \<and> is_word x" if "(m, x) \<in> set ?reg" for m x
    using mem[OF that] assms(9) rs registry_words[of m x] by (auto simp: kept_registry_def split: sum.splits)
  have names: "m \<in> fst ` set ?kept \<union> nd_name ` set ns" if m: "m \<in> fst ` set ?reg" for m
  proof -
    obtain x where "(m, x) \<in> set ?reg" using m by fastforce
    then have "(m, x) \<in> set ?kept \<or> (m, x) \<in> (\<lambda>p. (nd_name p, probe_key ssh (nd_name p))) ` set ns"
      using mem unfolding rs by blast
    then show ?thesis by force
  qed
  have wr: "read_file (snd (write_registry home ?rs (ms_fs s))) (registry_path home) = Inr (registry_text ?reg)"
    using assms(5,6) by (simp add: write_registry_def fs_simps)
  have rd: "read_file (ms_fs s1) (registry_path home) = Inr (registry_text ?reg)"
    by (rule trans[OF same_but_read[OF setup_run(1)[OF assms(1,2), unfolded assms(3)] setup_paths(3)[OF assms(4)]] wr])
  have ans: "NodeKey (ms_fs s1) home n = k" if "(n, k) \<in> set ?reg" for n k
  proof (rule registry_answers[OF assms(4) rd ent(1) w _ that])
    fix m assume m: "m \<in> fst ` set ?reg" "to_lower m = to_lower n"
    have n: "n \<in> fst ` set ?reg" using that by (metis fst_conv image_eqI)
    from bspec[OF bspec[OF assms(10) names[OF m(1)]] names[OF n]] m(2) show "m = n" by (rule mp)
  qed assumption
  have "NodeKey (ms_fs s1) home (nd_name p) = probe_key ssh (nd_name p)" if "p \<in> set ns" "probe_key ssh (nd_name p) \<noteq> ''''" for p
    using ans ent(2) rs that by blast
  moreover have "NodeKey (ms_fs s1) home m = k" if "(m, k) \<in> set ?kept" "m \<in> nd_name ` set ns \<longrightarrow> probe_key ssh m = ''''" for m k
    using ans[OF ent(3)[OF that(1)]] rs that(2) by auto
  ultimately show ?thesis by blast
qed

text \<open>Another spelling that sorts first keeps its key: the node that answered is still held to the old one.\<close>
definition stale_fs :: fs where "stale_fs = put_file ''/root/.vssh/node_keys'' (''D1 OLD'' @ [NL]) empty_fs"

lemma stale_pin_survives:
  "read_file (snd (write_registry ''/root'' [(''d1'', ''NEW'')] stale_fs)) ''/root/.vssh/node_keys''
     = Inr (''D1 OLD'' @ [NL] @ ''d1 NEW'' @ [NL])"
  "NodeKey (snd (write_registry ''/root'' [(''d1'', ''NEW'')] stale_fs)) ''/root'' ''d1'' = ''OLD''"
  by code_simp+

subsection \<open>The set-up runs once\<close>

lemma identity_errs: "fs_wrerr (snd (LoadOrCreateIdentity gen po home (c, f))) = fs_wrerr f"
  by (auto simp: LoadOrCreateIdentity_def Let_def write_file_def put_file_def split: option.splits prod.splits)

lemma write_errs: "write_file p d f = (e, g) \<Longrightarrow> fs_wrerr g = fs_wrerr f"
  by (auto simp: write_file_def put_file_def split: option.splits)

lemma write_errs_snd: "fs_wrerr (snd (write_file p d f)) = fs_wrerr f"
  by (rule write_errs[of p d f "fst (write_file p d f)"]) simp

lemma refresh_errs:
  assumes "refreshFleetState si ct fr ns live (c, s) = Some (x, c1, s1)"
  shows "fs_wrerr (ms_fs s1) = fs_wrerr (ms_fs s)"
proof -
  obtain c2 f2 where l: "LoadOrCreateIdentity (si_gen si) (si_pub_of si) (fr_home fr) (c, ms_fs s) = (c2, f2)" by (metis surj_pair)
  have e: "fs_wrerr f2 = fs_wrerr (ms_fs s)"
    using identity_errs[of "si_gen si" "si_pub_of si" "fr_home fr" c "ms_fs s"] l by simp
  show ?thesis
    using assms e
    by (auto simp: refreshFleetState_def Let_def l WriteFleetState_def split_beta write_errs_snd)
qed

lemma setup_errs:
  assumes "toolSetup mv si ct fr ssh arrive (c, s) = Some (r, c1, s1)"
  shows "fs_wrerr (ms_fs s1) = fs_wrerr (ms_fs s)"
proof (cases "mv_peers mv")
  case (Inl e)
  with assms show ?thesis by (auto simp: toolSetup_def)
next
  case (Inr ns)
  obtain er f1 where w: "write_registry (fr_home fr) (arrive (map (\<lambda>p. (nd_name p, probe_key ssh (nd_name p))) ns)) (ms_fs s) = (er, f1)"
    by (metis surj_pair)
  from assms Inr w obtain x where "refreshFleetState si ct fr ns False (c, s\<lparr>ms_fs := f1\<rparr>) = Some (x, c1, s1)"
    by (auto simp: toolSetup_def Let_def)
  from refresh_errs[OF this] write_errs[OF w[unfolded write_registry_def]] show ?thesis by simp
qed

lemma marker_exists: "fs_wrerr f p = None \<Longrightarrow> exists_path (writeAutoSetupMarker ct p f) p"
  by (simp add: exists_path_def writeAutoSetupMarker_def fs_simps)

text \<open>A call that finds no marker and nothing registered is a set-up, whatever was tried before.\<close>
lemma setup_runs:
  assumes "mv_home mv = Some home" "home \<noteq> ''''" "trim_space (ct_env ct ''VSSH_NO_AUTOSETUP'') \<in> {'''', ''0''}"
    and "\<not> exists_path (ms_fs s) (marker_path home)" "nodeKeysCount home (ms_fs s) = 0"
  shows "autoSetupOnce mv si ct fr ssh arrive (c, s) =
    map_option (\<lambda>(r, c1, s1). (Some (with_member ''auto_triggered'' (JBool True) r), c1,
      s1\<lparr>ms_fs := writeAutoSetupMarker ct (marker_path home) (ms_fs s1)\<rparr>)) (toolSetup mv si ct fr ssh arrive (c, s))"
  using assms by (auto simp: autoSetupOnce_def Let_def)

lemma setup_keeps_marker:
  assumes "toolSetup mv si ct fr ssh arrive (c, s) = Some (r, c1, s1)" "fr_home fr = home" "is_abs home"
  shows "exists_path (ms_fs s1) (marker_path home) = exists_path (ms_fs s) (marker_path home)"
proof (cases "mv_peers mv")
  case (Inl e)
  with assms show ?thesis by (auto simp: toolSetup_def)
next
  case (Inr ns)
  let ?f1 = "snd (write_registry home (arrive (map (\<lambda>p. (nd_name p, probe_key ssh (nd_name p))) ns)) (ms_fs s))"
  have n: "marker_path home \<notin> {IdentityKeyPath home, IdentityKeyPath home @ ''.pub'', FleetStatePath home}"
    "marker_path home \<notin> {registry_path home}" using setup_paths(4)[OF assms(3)] by blast+
  have "same_but {registry_path home} (ms_fs s) ?f1" unfolding write_registry_def by (rule same_but_write) simp
  from same_but_text[OF this n(2)] same_but_text[OF setup_run(1)[OF assms(1) Inr, unfolded assms(2)] n(1)] setup_run(2)[OF assms(1) Inr]
  show ?thesis by (simp add: exists_path_def)
qed

text \<open>The marker stands after every call that returned with the switch off, if it could be written.\<close>
lemma marker_stands:
  assumes "autoSetupOnce mv si ct fr ssh arrive (c, s) = Some (r, c1, s1)" "mv_home mv = Some home" "home \<noteq> ''''"
    and "trim_space (ct_env ct ''VSSH_NO_AUTOSETUP'') \<in> {'''', ''0''}" "fs_wrerr (ms_fs s) (marker_path home) = None"
  shows "exists_path (ms_fs s1) (marker_path home)"
proof (cases "exists_path (ms_fs s) (marker_path home)")
  case True
  then show ?thesis using assms(1-4) by (auto simp: autoSetupOnce_def Let_def)
next
  case no: False
  show ?thesis
  proof (cases "0 < nodeKeysCount home (ms_fs s)")
    case True
    with no assms(1-4) have "ms_fs s1 = writeAutoSetupMarker ct (marker_path home) (ms_fs s)" by (auto simp: autoSetupOnce_def Let_def)
    with assms(5) show ?thesis by (simp add: marker_exists)
  next
    case False
    with no assms(1-4) obtain x s2 where t: "toolSetup mv si ct fr ssh arrive (c, s) = Some (x, c1, s2)"
      and m: "ms_fs s1 = writeAutoSetupMarker ct (marker_path home) (ms_fs s2)" by (auto simp: autoSetupOnce_def Let_def)
    have "fs_wrerr (ms_fs s2) (marker_path home) = None" using setup_errs[OF t] assms(5) by simp
    with m show ?thesis by (simp add: marker_exists)
  qed
qed

text \<open>C21: the set-up that runs by itself, and the marker that is to stop it.  After a call that returned
  (a set-up that panics leaves no marker), whatever came of it, the next call on the same home and with
  the same environment does nothing, if the marker could be written.  The error of writing it is not
  looked at: where it cannot be written and no key got registered, a call that ran the set-up is
  followed by one that runs it again.\<close>
theorem auto_setup_once:
  assumes "autoSetupOnce mv si ct fr ssh arrive (c, s) = Some (r, c1, s1)"
    and "mv_home mv = Some home" "mv_home mv' = Some home" "ct_env ct' = ct_env ct" "is_abs home" "fr_home fr = home"
  shows "(fs_wrerr (ms_fs s) (marker_path home) = None \<longrightarrow>
       autoSetupOnce mv' si' ct' fr' ssh' arrive' (c1, s1) = Some (None, c1, s1)) \<and>
    (fs_wrerr (ms_fs s) (marker_path home) \<noteq> None \<and> r \<noteq> None \<and> nodeKeysCount home (ms_fs s1) = 0 \<longrightarrow>
       autoSetupOnce mv' si' ct' fr' ssh' arrive' (c1, s1) =
         map_option (\<lambda>(r, c2, s2). (Some (with_member ''auto_triggered'' (JBool True) r), c2,
           s2\<lparr>ms_fs := writeAutoSetupMarker ct' (marker_path home) (ms_fs s2)\<rparr>))
           (toolSetup mv' si' ct' fr' ssh' arrive' (c1, s1)))"
proof (intro conjI impI)
  let ?v = "trim_space (ct_env ct ''VSSH_NO_AUTOSETUP'')" and ?m = "marker_path home"
  have h: "home \<noteq> ''''" using assms(5) by (auto simp: is_abs_def)
  show "autoSetupOnce mv' si' ct' fr' ssh' arrive' (c1, s1) = Some (None, c1, s1)" if wr: "fs_wrerr (ms_fs s) ?m = None"
  proof (cases "?v \<in> {'''', ''0''}")
    case False
    then show ?thesis using assms(4) by (auto simp: autoSetupOnce_def Let_def)
  next
    case True
    from marker_stands[OF assms(1,2) h True wr] show ?thesis using assms(3,4) h True by (auto simp: autoSetupOnce_def Let_def)
  qed
  show "autoSetupOnce mv' si' ct' fr' ssh' arrive' (c1, s1) =
      map_option (\<lambda>(r, c2, s2). (Some (with_member ''auto_triggered'' (JBool True) r), c2,
        s2\<lparr>ms_fs := writeAutoSetupMarker ct' ?m (ms_fs s2)\<rparr>)) (toolSetup mv' si' ct' fr' ssh' arrive' (c1, s1))"
    if bad: "fs_wrerr (ms_fs s) ?m \<noteq> None \<and> r \<noteq> None \<and> nodeKeysCount home (ms_fs s1) = 0"
  proof -
    have v: "?v \<in> {'''', ''0''}" using bad assms(1) by (auto simp: autoSetupOnce_def Let_def split: if_splits)
    have no: "\<not> exists_path (ms_fs s) ?m" "\<not> 0 < nodeKeysCount home (ms_fs s)"
      using bad assms(1,2) by (auto simp: autoSetupOnce_def Let_def split: if_splits)
    with v h assms(1,2) obtain x s2 where t: "toolSetup mv si ct fr ssh arrive (c, s) = Some (x, c1, s2)"
      and m: "ms_fs s1 = writeAutoSetupMarker ct ?m (ms_fs s2)" by (auto simp: autoSetupOnce_def Let_def)
    obtain e where "fs_wrerr (ms_fs s2) ?m = Some e" using setup_errs[OF t] bad by auto
    then have "ms_fs s1 = ms_fs s2" using m by (simp add: writeAutoSetupMarker_def write_file_def)
    then have "\<not> exists_path (ms_fs s1) ?m" using setup_keeps_marker[OF t assms(6,5)] no(1) by simp
    then show ?thesis using setup_runs[OF assms(3) h, of ct' s1] v bad assms(4) by simp
  qed
qed

section \<open>Examples\<close>

definition demo_machine :: machine_env where
  "demo_machine = \<lparr>mv_exe = Inr ''/usr/bin/vssh'', mv_version = ''0.7.48'', mv_home = Some ''/root'', mv_PATH = '''', mv_lookup = None,
     mv_program = (\<lambda>_. False), mv_asked = (\<lambda>_. None), mv_wire = ''/etc/wire'', mv_peers = Inl ''none'', mv_time = 0, mv_recent = (\<lambda>_. False)\<rparr>"

definition no_signer :: signer where
  "no_signer = \<lparr>si_sign = (\<lambda>_ _. ''''), si_verify = (\<lambda>_ _ _. False), si_gen = None, si_pub_of = (\<lambda>_. ''''), si_parse = (\<lambda>_. None), si_now = 0\<rparr>"

definition no_cache :: ident_cache where "no_cache = \<lparr>id_once = False, id_priv = None, id_pub = ''''\<rparr>"

definition fresh_state :: mstate where "fresh_state = idle\<lparr>ms_fs := empty_fs\<rparr>"

lemma auto_setup_once_witness:
  "\<exists>r c1 s1. autoSetupOnce demo_machine no_signer demo_ctl demo_front (\<lambda>_ _. '''') id (no_cache, fresh_state) = Some (Some r, c1, s1) \<and>
     autoSetupOnce demo_machine no_signer demo_ctl demo_front (\<lambda>_ _. '''') id (c1, s1) = Some (None, c1, s1)"
proof -
  have m: "mv_home demo_machine = Some ''/root''" "mv_peers demo_machine = Inl ''none''" by (simp_all add: demo_machine_def)
  have e: "trim_space (ct_env demo_ctl ''VSSH_NO_AUTOSETUP'') = ''''"
    by (simp add: demo_ctl_def trim_space_def trim_left_by_def trim_right_by_def)
  have f: "\<not> exists_path (ms_fs fresh_state) p" "nodeKeysCount h (ms_fs fresh_state) = 0" "fs_wrerr (ms_fs fresh_state) p = None" for p h
    by (simp_all add: fresh_state_def exists_path_def nodeKeysCount_def empty_fs_def file_text_def read_file_def)
  have h: "is_abs ''/root''" "fr_home demo_front = ''/root''" by (simp_all add: is_abs_def demo_front_def)
  obtain r c1 s1 where a: "autoSetupOnce demo_machine no_signer demo_ctl demo_front (\<lambda>_ _. '''') id (no_cache, fresh_state) = Some (Some r, c1, s1)"
    by (simp add: autoSetupOnce_def Let_def m e f toolSetup_def)
  from auto_setup_once[OF a m(1) m(1) refl h] f(3) a show ?thesis by blast
qed

text \<open>Two peers of which one answers, and a third name registered before.\<close>
definition two_nodes :: "node list" where
  "two_nodes = [Peers.node_zero\<lparr>nd_name := ''d1''\<rparr>, Peers.node_zero\<lparr>nd_name := ''g1''\<rparr>]"

definition d1_answers :: "string \<Rightarrow> string \<Rightarrow> string" where
  "d1_answers name cmd = (if name = ''g1'' then '''' else if cmd = ''uname -s'' then ''Linux'' @ [NL]
     else ''{'' @ [CHR 0x22] @ ''server_key'' @ [CHR 0x22] @ '': '' @ [CHR 0x22] @ ''NEW'' @ [CHR 0x22] @ ''}'')"

definition pinned_state :: mstate where
  "pinned_state = idle\<lparr>ms_fs := put_file ''/root/.vssh/node_keys'' (''d1 OLD'' @ [NL] @ ''g1 OLD'' @ [NL]) empty_fs\<rparr>"

definition held_cache :: ident_cache where "held_cache = \<lparr>id_once = True, id_priv = Some ''k'', id_pub = ''p''\<rparr>"

lemma setup_pins_peers_witness:
  "\<exists>r c1 s1. toolSetup (demo_machine\<lparr>mv_peers := Inr two_nodes\<rparr>) no_signer demo_ctl demo_front d1_answers rev (held_cache, pinned_state)
       = Some (r, c1, s1) \<and>
     NodeKey (ms_fs s1) ''/root'' ''d1'' = ''NEW'' \<and> NodeKey (ms_fs s1) ''/root'' ''g1'' = ''OLD''"
proof -
  let ?mv = "demo_machine\<lparr>mv_peers := Inr two_nodes\<rparr>"
  have b: "BuildAndSignFleetState sg now held_cache ns \<noteq> None" for sg now ns
    by (simp add: BuildAndSignFleetState_def held_cache_def Let_def)
  have l: "LoadOrCreateIdentity g p h (held_cache, f) = (held_cache, f)" for g p h f
    by (simp add: LoadOrCreateIdentity_def held_cache_def)
  obtain r c1 s1 where a: "toolSetup ?mv no_signer demo_ctl demo_front d1_answers rev (held_cache, pinned_state) = Some (r, c1, s1)"
    using b by (fastforce simp: toolSetup_def refreshFleetState_def Let_def l split_beta)
  have k: "kept_registry ''/root'' (ms_fs pinned_state) = [(''d1'', ''OLD''), (''g1'', ''OLD'')]"
    "probe_key d1_answers ''d1'' = ''NEW''" "probe_key d1_answers ''g1'' = ''''" by code_simp+
  have e: "fs_wrerr (ms_fs pinned_state) p = None" "fs_rderr (ms_fs pinned_state) p = None" for p
    by (simp_all add: pinned_state_def fs_simps)
  have w: "is_word ''d1''" "is_word ''g1''" "is_word ''NEW''" "is_word ''OLD''" by (simp_all add: is_word_def is_space_def)
  have t: "to_lower ''d1'' = ''d1''" "to_lower ''g1'' = ''g1''" by code_simp+
  have n: "map nd_name two_nodes = [''d1'', ''g1'']" by (simp add: two_nodes_def)
  then have ns: "nd_name ` set two_nodes = {''d1'', ''g1''}" by (simp flip: set_map)
  have p: "\<forall>p \<in> set two_nodes. is_word (nd_name p) \<and> (probe_key d1_answers (nd_name p) = '''' \<or> is_word (probe_key d1_answers (nd_name p)))"
    using k w by (simp add: two_nodes_def)
  have "(\<forall>p \<in> set two_nodes. probe_key d1_answers (nd_name p) \<noteq> '''' \<longrightarrow>
        NodeKey (ms_fs s1) ''/root'' (nd_name p) = probe_key d1_answers (nd_name p)) \<and>
    (\<forall>(m, k) \<in> set (kept_registry ''/root'' (ms_fs pinned_state)).
        (m \<in> nd_name ` set two_nodes \<longrightarrow> probe_key d1_answers m = '''') \<longrightarrow> NodeKey (ms_fs s1) ''/root'' m = k)"
    by (rule setup_pins_peers[OF a _ _ _ e _ _ p]) (simp_all add: demo_front_def is_abs_def n ns k(1) t)
  then show ?thesis using a k n by (simp add: two_nodes_def)
qed

end
