(* ===== verification/Daemon.thy ===== *)
theory Daemon
  imports Policy
begin

text \<open>
  \<^verbatim>\<open>internal/server/server.go\<close>: what the daemon does with one accepted connection, from the
  first byte to the handler it calls.  \<open>authenticate\<close> is the part up to \<^verbatim>\<open>AUTH_OK\<close>,
  \<open>dispatch\<close> the verb switch with its capability tests, \<open>handleConnection\<close> their
  composition with the handlers (an argument: what each handler does is in the theories of the
  handlers) and the deferred clean-up.
\<close>

section \<open>What arrives on a connection\<close>

record conn_in =
  ci_first :: "char option"         \<comment> \<open>the sniffed first byte; None when the peek fails\<close>
  ci_tls_cfg :: bool                \<comment> \<open>ServerTLSConfig succeeds\<close>
  ci_handshake :: bool              \<comment> \<open>the TLS handshake succeeds\<close>
  ci_peer_pub :: string             \<comment> \<open>PeerPubB64 of the TLS state, empty without a certificate\<close>
  ci_auth_line :: "string option"   \<comment> \<open>the first line, None on a read error\<close>
  ci_sig_line :: "string option"    \<comment> \<open>the answer to the challenge\<close>
  ci_ready :: bool                  \<comment> \<open>four bytes of a verb arrive in time\<close>
  ci_rest :: string                 \<comment> \<open>everything sent after the authentication\<close>

datatype action =
    DoPutZ string | DoTransfer string | DoSync string | DoRelay string | DoResume string
  | DoMPut string | DoGetM string | DoGetC string | DoPipeUp string | DoPipeDown string
  | DoRPC string | DoInfo | DoForward string | DoReverseForward string | DoReverseData string
  | DoFmux | DoMux | DoShell

datatype decision = Run action | DenyCap string | Unsupported string

section \<open>Authentication\<close>

definition tls_byte :: char where "tls_byte = CHR 0x16"

definition isUpperASCII :: "char \<Rightarrow> bool" where "isUpperASCII c = is_upper c"

type_synonym verifier = "bytes \<Rightarrow> bytes \<Rightarrow> bytes \<Rightarrow> bool"

text \<open>The first byte decides the transport: \<open>Proceed True\<close> after a TLS handshake, \<open>Proceed False\<close>
  for a plain connection.\<close>
datatype sniffed = Drop | Refuse | Proceed bool

definition sniff :: "bool \<Rightarrow> conn_in \<Rightarrow> sniffed" where
  "sniff requireTLS ci =
     (case ci_first ci of None \<Rightarrow> Drop
      | Some b \<Rightarrow>
          if b = tls_byte then (if ci_tls_cfg ci \<and> ci_handshake ci then Proceed True else Drop)
          else if requireTLS then Refuse else Proceed False)"

definition auth_failed :: "conn \<Rightarrow> pworld \<Rightarrow> caps option \<times> pworld" where
  "auth_failed c w = (None, send (Some c) (''AUTH_FAILED'' @ [NL]) w)"

text \<open>The challenge to a listed key and its answer.\<close>
definition challenge :: "verifier \<Rightarrow> bytes \<Rightarrow> conn \<Rightarrow> string \<Rightarrow> caps \<Rightarrow> string option \<Rightarrow> pworld \<Rightarrow> caps option \<times> pworld" where
  "challenge verify nonce c pub keyCaps answer w =
     (let w2 = send (Some c) (''CHALLENGE '' @ b64_encode nonce @ [NL]) w in
      case answer of None \<Rightarrow> (None, w2)
      | Some rawsig \<Rightarrow>
          let sig = trim_crlf rawsig in
          if \<not> has_prefix ''SIG '' sig \<or> \<not> VerifyChallenge verify pub nonce (trim_prefix ''SIG '' sig)
          then auth_failed c w2
          else (Some keyCaps,
                send (Some c) (''AUTH_OK'' @ [NL])
                  (setConnIdentity (Some c) pub (KeyName (w_fs w2) (w_home w2) pub) w2)))"

definition auth_line_step :: "verifier \<Rightarrow> bytes \<Rightarrow> conn \<Rightarrow> bool \<Rightarrow> conn_in \<Rightarrow> pworld \<Rightarrow> caps option \<times> pworld" where
  "auth_line_step verify nonce c tls ci w =
     (case ci_auth_line ci of None \<Rightarrow> (None, w)
      | Some raw \<Rightarrow>
          let line = trim_crlf raw; pub = trim_space (trim_prefix ''VAUTH1 '' line) in
          if \<not> has_prefix ''VAUTH1 '' line then auth_failed c w
          else if tls \<and> ci_peer_pub ci \<noteq> '''' \<and> ci_peer_pub ci \<noteq> pub then auth_failed c w
          else if \<not> snd (KeyCapabilities (w_fs w) (w_home w) pub) then auth_failed c w
          else challenge verify nonce c pub (fst (KeyCapabilities (w_fs w) (w_home w) pub)) (ci_sig_line ci) w)"

text \<open>The result is the capability set of the authenticated key, None when the connection was
  closed before that.\<close>
definition authenticate ::
  "verifier \<Rightarrow> bool \<Rightarrow> bytes \<Rightarrow> conn \<Rightarrow> conn_in \<Rightarrow> pworld \<Rightarrow> caps option \<times> pworld" where
  "authenticate verify requireTLS nonce c ci w =
     (case sniff requireTLS ci of
        Drop \<Rightarrow> (None, w)
      | Refuse \<Rightarrow> auth_failed c w
      | Proceed tls \<Rightarrow>
          auth_line_step verify nonce c tls ci
            (setConnTransport (Some c) (if tls then ''tls'' else ''plain'') w))"

section \<open>The verb switch\<close>

text \<open>\<^verbatim>\<open>ReadString('\n')\<close>: the line with its newline, or all there is; and what remains.\<close>
definition read_line :: "string \<Rightarrow> string \<times> string" where
  "read_line s = (case cut NL s of None \<Rightarrow> (s, '''') | Some (a, b) \<Rightarrow> (a @ [NL], b))"

definition guarded :: "caps \<Rightarrow> string \<Rightarrow> action \<Rightarrow> decision" where
  "guarded cs need act = (if capAllowed cs need then Run act else DenyCap need)"

definition dispatch :: "caps \<Rightarrow> bool \<Rightarrow> string \<Rightarrow> decision \<times> string" where
  "dispatch cs ready s =
     (if ready \<and> 4 \<le> length s then
        let prefix = take 4 s; prefix3 = take 3 s; (cmd, rest) = read_line s in
        if prefix3 = ''PUT'' \<or> prefix3 = ''GET'' \<or> prefix3 = ''EXE'' then
          (guarded cs (if prefix3 = ''EXE'' then ''exec'' else ''file'')
             (if 4 \<le> length cmd \<and> take 4 cmd = ''PUTZ'' then DoPutZ cmd else DoTransfer cmd), rest)
        else if prefix3 = ''SYN'' then (guarded cs ''file'' (DoSync cmd), rest)
        else if prefix3 = ''REL'' then (guarded cs ''exec'' (DoRelay cmd), rest)
        else if prefix = ''RESU'' then (guarded cs ''file'' (DoResume cmd), rest)
        else if prefix = ''MPUT'' then (guarded cs ''file'' (DoMPut cmd), rest)
        else if prefix = ''GETM'' then (guarded cs ''file'' (DoGetM cmd), rest)
        else if prefix = ''GETC'' then (guarded cs ''file'' (DoGetC cmd), rest)
        else if prefix = ''PIPE'' then
          (guarded cs ''file''
             (if 8 \<le> length cmd \<and> take 7 cmd = ''PIPE_UP'' then DoPipeUp cmd else DoPipeDown cmd), rest)
        else if prefix3 = ''RPC'' then (guarded cs ''rpc'' (DoRPC cmd), rest)
        else if prefix = ''INFO'' then (guarded cs ''rpc'' DoInfo, rest)
        else if prefix3 = ''FWD'' then (guarded cs ''forward'' (DoForward cmd), rest)
        else if prefix = ''RFWD'' then (guarded cs ''forward'' (DoReverseForward cmd), rest)
        else if prefix = ''RDAT'' then (guarded cs ''forward'' (DoReverseData cmd), rest)
        else if prefix = ''FMUX'' then (guarded cs ''forward'' DoFmux, s)
        else if prefix3 = ''MUX'' then (guarded cs ''exec'' DoMux, s)
        else if isUpperASCII (s ! 0) \<and> isUpperASCII (s ! 1) then
          (Unsupported (let verb = trim_space cmd in
              case index_pred (\<lambda>x. x = SP) verb of None \<Rightarrow> verb | Some i \<Rightarrow> take i verb), rest)
        else (guarded cs ''shell'' DoShell, s)
      else (guarded cs ''shell'' DoShell, s))"

definition denyCap :: "conn option \<Rightarrow> string \<Rightarrow> 'pol world \<Rightarrow> 'pol world" where
  "denyCap cn required w =
     send cn [NL] (send cn (marshal (json_map
       [(''success'', JBool False),
        (''error'', JStr (''capability denied: key lacks '' @ [CHR 0x27] @ required @ [CHR 0x27])),
        (''error_code'', JStr ''capability_denied''), (''required_capability'', JStr required),
        (''proto_version'', JStr ProtoVersion)])) w)"

definition unsupported :: "conn option \<Rightarrow> string \<Rightarrow> 'pol world \<Rightarrow> 'pol world" where
  "unsupported cn verb w =
     send cn [NL] (send cn (marshal (json_map
       [(''success'', JBool False), (''error'', JStr (''unsupported verb: '' @ go_quote verb)),
        (''error_code'', JStr ''unsupported_method''), (''proto_version'', JStr ProtoVersion)])) w)"

type_synonym handlers = "action \<Rightarrow> string \<Rightarrow> pworld \<Rightarrow> pworld"

text \<open>\<open>run act rest w\<close> is the handler of the action on the rest of the stream.  The first
  component is the action that was run.\<close>
definition handleConnection ::
  "verifier \<Rightarrow> bool \<Rightarrow> bytes \<Rightarrow> handlers \<Rightarrow> conn \<Rightarrow> conn_in \<Rightarrow> pworld \<Rightarrow> action option \<times> pworld" where
  "handleConnection verify requireTLS nonce run c ci w =
     (case authenticate verify requireTLS nonce c ci w of
        (None, w1) \<Rightarrow> (None, w1)
      | (Some cs, w1) \<Rightarrow>
          (case dispatch cs (ci_ready ci) (ci_rest ci) of
             (Run act, rest) \<Rightarrow> (Some act, clearConnIdentity (Some c) (run act rest w1))
           | (DenyCap need, _) \<Rightarrow> (None, clearConnIdentity (Some c) (denyCap (Some c) need w1))
           | (Unsupported verb, _) \<Rightarrow> (None, clearConnIdentity (Some c) (unsupported (Some c) verb w1))))"

text \<open>The accept loop's back-off after a failed accept, in milliseconds.\<close>
definition accept_backoff :: "int \<Rightarrow> int" where
  "accept_backoff b = (if b = 0 then 5 else if b < 1000 then b * 2 else b)"

text \<open>\<^verbatim>\<open>splitColon\<close> and \<^verbatim>\<open>lookupShell\<close> on the text of the password file.\<close>
definition splitColon :: "string \<Rightarrow> string list" where
  "splitColon s = split_on (CHR '':'') s"

fun shell_of :: "string \<Rightarrow> string list \<Rightarrow> string" where
  "shell_of uid [] = ''''"
| "shell_of uid (l # ls) =
     (let parts = splitColon l in
      if 7 \<le> length parts \<and> parts ! 2 = uid then parts ! 6 else shell_of uid ls)"

definition lookupShell :: "fs \<Rightarrow> string \<Rightarrow> string" where
  "lookupShell f uid =
     (case read_file f ''/etc/passwd'' of Inl _ \<Rightarrow> '''' | Inr d \<Rightarrow> shell_of uid (split_on NL d))"

section \<open>Who gets where\<close>

text \<open>The capability each handler stands behind.\<close>
fun required_cap :: "action \<Rightarrow> string" where
  "required_cap (DoTransfer cmd) = (if has_prefix ''EXE'' cmd then ''exec'' else ''file'')"
| "required_cap (DoRelay _) = ''exec''"
| "required_cap (DoRPC _) = ''rpc''"
| "required_cap DoInfo = ''rpc''"
| "required_cap (DoForward _) = ''forward''"
| "required_cap (DoReverseForward _) = ''forward''"
| "required_cap (DoReverseData _) = ''forward''"
| "required_cap DoFmux = ''forward''"
| "required_cap DoMux = ''exec''"
| "required_cap DoShell = ''shell''"
| "required_cap _ = ''file''"

lemma read_line_prefix: "4 \<le> length s \<Longrightarrow> NL \<notin> set (take n s) \<Longrightarrow> n \<le> 4 \<Longrightarrow> take n (fst (read_line s)) = take n s"
proof -
  assume l: "4 \<le> length s" and nl: "NL \<notin> set (take n s)" and n: "n \<le> 4"
  show ?thesis
  proof (cases "cut NL s")
    case None
    then show ?thesis unfolding read_line_def None by simp
  next
    case (Some ab)
    obtain a b where ab: "ab = (a, b)" by (cases ab)
    from cut_Some[OF Some[unfolded ab]] have s: "s = a @ NL # b" by simp
    have "n \<le> length a"
    proof (rule ccontr)
      assume "\<not> n \<le> length a"
      then have "NL \<in> set (take n s)" by (simp add: s take_Cons')
      with nl show False by simp
    qed
    then show ?thesis by (simp add: read_line_def Some ab) (simp add: s)
  qed
qed

lemma has_prefix_take: "has_prefix p s \<longleftrightarrow> take (length p) s = p"
  by (auto simp: has_prefix_iff) (metis append_take_drop_id)

lemma dispatch_required:
  assumes "dispatch cs ready s = (Run act, rest)"
  shows "capAllowed cs (required_cap act)"
proof -
  have e: "take 3 s = ''EXE'' \<Longrightarrow> 4 \<le> length s \<Longrightarrow> has_prefix ''EXE'' (fst (read_line s))"
    using read_line_prefix[of s 3] by (simp add: has_prefix_take numeral_3_eq_3)
  have ne: "take 3 s = ''PUT'' \<or> take 3 s = ''GET'' \<Longrightarrow> 4 \<le> length s \<Longrightarrow> \<not> has_prefix ''EXE'' (fst (read_line s))"
    using read_line_prefix[of s 3] by (auto simp: has_prefix_take numeral_3_eq_3)
  have z: "take 4 x = ''PUTZ'' \<Longrightarrow> \<not> has_prefix ''EXE'' x" for x by (cases x) auto
  show ?thesis
    using assms e ne z
    unfolding dispatch_def guarded_def Let_def split_beta
    by (simp split: if_split_asm) auto
qed

lemma challenge_Some:
  "challenge verify nonce c pub kc answer w = (Some cs, w1) \<Longrightarrow>
    cs = kc \<and> (\<exists>sig. answer = Some sig \<and> VerifyChallenge verify pub nonce (trim_prefix ''SIG '' (trim_crlf sig))) \<and>
    connIdentity w1 (Some c) = (pub, KeyName (w_fs w) (w_home w) pub)"
  by (auto simp: challenge_def auth_failed_def Let_def send_def setConnIdentity_def connIdentity_def
      split: option.splits if_splits)

lemma auth_line_Some:
  assumes "auth_line_step verify nonce c tls ci w = (Some cs, w1)"
  shows "\<exists>line. ci_auth_line ci = Some line \<and> has_prefix ''VAUTH1 '' (trim_crlf line) \<and>
    (let pub = trim_space (trim_prefix ''VAUTH1 '' (trim_crlf line)) in
     (tls \<longrightarrow> ci_peer_pub ci = '''' \<or> ci_peer_pub ci = pub) \<and>
     snd (KeyCapabilities (w_fs w) (w_home w) pub) \<and>
     challenge verify nonce c pub (fst (KeyCapabilities (w_fs w) (w_home w) pub)) (ci_sig_line ci) w = (Some cs, w1))"
  using assms by (auto simp: auth_line_step_def auth_failed_def Let_def split: option.splits if_splits)

lemma setConnTransport_sel [simp]:
  "w_fs (setConnTransport cn t w) = w_fs w" "w_home (setConnTransport cn t w) = w_home w"
  by (auto simp: setConnTransport_def split: option.splits)

text \<open>C1: no handler runs before the client has proved that it holds a key the daemon trusts:
  whenever an action runs, the first line was a VAUTH1 line whose key the key files list, the
  answer is a valid signature of this connection's nonce by that key, a certificate shown in the
  TLS layer carries the same key, and the capabilities of the key's line include the one of the
  action.  The action runs with that key as the connection's identity.\<close>
theorem handler_needs_verified_key:
  assumes "handleConnection verify requireTLS nonce run c ci w = (Some act, w')"
  shows "\<exists>line sig pub cs rest w1.
    ci_auth_line ci = Some line \<and> ci_sig_line ci = Some sig \<and>
    has_prefix ''VAUTH1 '' (trim_crlf line) \<and> pub = trim_space (trim_prefix ''VAUTH1 '' (trim_crlf line)) \<and>
    KeyCapabilities (w_fs w) (w_home w) pub = (cs, True) \<and> capAllowed cs (required_cap act) \<and>
    VerifyChallenge verify pub nonce (trim_prefix ''SIG '' (trim_crlf sig)) \<and>
    (ci_first ci = Some tls_byte \<longrightarrow> ci_peer_pub ci = '''' \<or> ci_peer_pub ci = pub) \<and>
    (requireTLS \<longrightarrow> ci_first ci = Some tls_byte) \<and>
    connIdentity w1 (Some c) = (pub, KeyName (w_fs w) (w_home w) pub) \<and>
    w' = clearConnIdentity (Some c) (run act rest w1)"
proof -
  obtain cs w1 where a: "authenticate verify requireTLS nonce c ci w = (Some cs, w1)"
    using assms by (auto simp: handleConnection_def split: prod.splits option.splits)
  obtain rest where d: "dispatch cs (ci_ready ci) (ci_rest ci) = (Run act, rest)"
    and w': "w' = clearConnIdentity (Some c) (run act rest w1)"
    using assms a by (auto simp: handleConnection_def split: prod.splits decision.splits)
  obtain tls where s: "sniff requireTLS ci = Proceed tls"
    using a by (cases "sniff requireTLS ci") (auto simp: authenticate_def auth_failed_def)
  then have t: "ci_first ci = Some tls_byte \<longrightarrow> tls" "requireTLS \<longrightarrow> ci_first ci = Some tls_byte"
    by (auto simp: sniff_def split: option.splits if_splits)
  from a s auth_line_Some obtain line where line: "ci_auth_line ci = Some line"
    "has_prefix ''VAUTH1 '' (trim_crlf line)"
    and rest: "let pub = trim_space (trim_prefix ''VAUTH1 '' (trim_crlf line)) in
     (tls \<longrightarrow> ci_peer_pub ci = '''' \<or> ci_peer_pub ci = pub) \<and>
     snd (KeyCapabilities (w_fs w) (w_home w) pub) \<and>
     challenge verify nonce c pub (fst (KeyCapabilities (w_fs w) (w_home w) pub)) (ci_sig_line ci)
       (setConnTransport (Some c) (if tls then ''tls'' else ''plain'') w) = (Some cs, w1)"
    unfolding authenticate_def by fastforce
  define pub where "pub = trim_space (trim_prefix ''VAUTH1 '' (trim_crlf line))"
  from rest have r: "tls \<longrightarrow> ci_peer_pub ci = '''' \<or> ci_peer_pub ci = pub"
    "snd (KeyCapabilities (w_fs w) (w_home w) pub)"
    and ch: "challenge verify nonce c pub (fst (KeyCapabilities (w_fs w) (w_home w) pub)) (ci_sig_line ci)
       (setConnTransport (Some c) (if tls then ''tls'' else ''plain'') w) = (Some cs, w1)"
    by (simp_all add: Let_def pub_def)
  note C = challenge_Some[OF ch]
  then obtain sig where sig: "ci_sig_line ci = Some sig"
    "VerifyChallenge verify pub nonce (trim_prefix ''SIG '' (trim_crlf sig))" by blast
  have kc: "KeyCapabilities (w_fs w) (w_home w) pub = (cs, True)"
    using C r(2) by (cases "KeyCapabilities (w_fs w) (w_home w) pub") simp
  have id: "connIdentity w1 (Some c) = (pub, KeyName (w_fs w) (w_home w) pub)" using C by simp
  from line sig kc id r(1) t w' dispatch_required[OF d] show ?thesis unfolding pub_def by blast
qed

section \<open>A concrete connection\<close>

definition demo_pub :: string where "demo_pub = b64_encode (replicate 32 CHR ''a'')"
definition demo_sig :: string where "demo_sig = b64_encode (replicate 64 CHR ''s'')"
definition demo_verify :: verifier where "demo_verify pub msg sig = (sig = replicate 64 CHR ''s'')"

text \<open>A key file with one line, the tags after the key.\<close>
definition demo_world :: "string \<Rightarrow> pworld" where
  "demo_world tags = world0\<lparr>w_fs := put_file ''/root/.vssh/authorized_keys'' (demo_pub @ tags @ [NL]) empty_fs\<rparr>"

definition demo_ci :: "string \<Rightarrow> conn_in" where
  "demo_ci stream = \<lparr>ci_first = Some tls_byte, ci_tls_cfg = True, ci_handshake = True, ci_peer_pub = '''',
     ci_auth_line = Some (''VAUTH1 '' @ demo_pub @ [NL]), ci_sig_line = Some (''SIG '' @ demo_sig @ [NL]),
     ci_ready = True, ci_rest = stream\<rparr>"

lemma demo_verifies: "VerifyChallenge demo_verify demo_pub nonce demo_sig"
  by (simp add: VerifyChallenge_def demo_pub_def demo_sig_def demo_verify_def)

lemma demo_strings:
  "trim_crlf (''VAUTH1 '' @ demo_pub @ [NL]) = ''VAUTH1 '' @ demo_pub"
  "trim_space (trim_prefix ''VAUTH1 '' (''VAUTH1 '' @ demo_pub)) = demo_pub"
  "trim_crlf (''SIG '' @ demo_sig @ [NL]) = ''SIG '' @ demo_sig"
  "trim_space demo_pub = demo_pub" "is_word demo_pub"
proof -
  have w: "is_word demo_pub" "is_word demo_sig"
    using b64_encode_clean by (auto simp: is_word_def demo_pub_def demo_sig_def)
  show "trim_crlf (''VAUTH1 '' @ demo_pub @ [NL]) = ''VAUTH1 '' @ demo_pub"
    "trim_crlf (''SIG '' @ demo_sig @ [NL]) = ''SIG '' @ demo_sig"
    using w by (auto intro: trim_crlf_word simp del: append.simps)
  show "trim_space (trim_prefix ''VAUTH1 '' (''VAUTH1 '' @ demo_pub)) = demo_pub"
    using w by (simp only: trim_prefix_append is_word_trim)
  show "trim_space demo_pub = demo_pub" "is_word demo_pub" using w by (simp_all add: is_word_trim)
qed

lemma demo_world_sel [simp]: "w_home (demo_world tags) = ''/root''"
  by (simp add: demo_world_def)

lemma demo_keys:
  assumes "NL \<notin> set tags" "key_line demo_pub (demo_pub @ tags) = Some ts"
  shows "KeyCapabilities (w_fs (demo_world tags)) ''/root'' demo_pub = (caps_of_tags ts, True)"
    "scan_files (key_line demo_pub) (w_fs (demo_world tags)) (authorized_paths ''/root'') = Some ts"
proof -
  have rd: "read_file (w_fs (demo_world tags)) ''/root/.vssh/authorized_keys'' = Inr ((demo_pub @ tags) @ [NL])"
    by (simp add: demo_world_def fs_simps)
  have nl: "NL \<notin> set (demo_pub @ tags)" using is_word_no_nl[OF demo_strings(5)] assms(1) by simp
  show s: "scan_files (key_line demo_pub) (w_fs (demo_world tags)) (authorized_paths ''/root'') = Some ts"
    using assms(2) unfolding scan_files_def cfg_paths first_some.simps rd sum.case split_line_nl[OF nl] by simp
  show "KeyCapabilities (w_fs (demo_world tags)) ''/root'' demo_pub = (caps_of_tags ts, True)"
    using is_word_nonempty[OF demo_strings(5)] unfolding KeyCapabilities_def Let_def demo_strings(4) s by simp
qed

lemma demo_authenticates:
  assumes "NL \<notin> set tags" "key_line demo_pub (demo_pub @ tags) = Some ts"
  shows "\<exists>w1. authenticate demo_verify req nonce c (demo_ci stream) (demo_world tags) = (Some (caps_of_tags ts), w1)"
proof -
  have vp: "trim_prefix ''SIG '' (''SIG '' @ demo_sig) = demo_sig" by (rule trim_prefix_append)
  have hp: "has_prefix ''VAUTH1 '' (''VAUTH1 '' @ demo_pub)" "has_prefix ''SIG '' (''SIG '' @ demo_sig)"
    by (rule has_prefix_append)+
  have sn: "sniff req (demo_ci stream) = Proceed True" by (simp add: sniff_def demo_ci_def)
  have ci: "ci_auth_line (demo_ci stream) = Some (''VAUTH1 '' @ demo_pub @ [NL])"
    "ci_sig_line (demo_ci stream) = Some (''SIG '' @ demo_sig @ [NL])" "ci_peer_pub (demo_ci stream) = ''''"
    by (simp_all add: demo_ci_def)
  show ?thesis
    unfolding authenticate_def sn sniffed.case auth_line_step_def ci option.case Let_def demo_strings(1,2)
      challenge_def demo_strings(3) vp setConnTransport_sel demo_world_sel demo_keys[OF assms]
    using hp demo_verifies by simp
qed

text \<open>The tags of a line of the key file.\<close>
lemma demo_key_line:
  assumes "tags = '''' \<or> (\<exists>t. tags = SP # t)" "go_fields tags = ts"
  shows "key_line demo_pub (demo_pub @ tags) = Some ts"
proof -
  note w = demo_strings(5)
  have nh: "\<not> has_prefix ''#'' demo_pub"
    by code_simp
  have "is_space SP" by (simp add: is_space_def)
  then have "go_fields (demo_pub @ tags) = demo_pub # ts"
    using assms w is_word_fields[OF w] fields_word_sep[of demo_pub SP] by (auto simp: is_word_def)
  with nh show ?thesis by (simp add: key_line_iff)
qed

lemma handler_needs_verified_key_witness:
  "\<exists>line sig. ci_auth_line (demo_ci ''INFO\<newline>'') = Some line \<and> ci_sig_line (demo_ci ''INFO\<newline>'') = Some sig \<and>
    has_prefix ''VAUTH1 '' (trim_crlf line)"
proof -
  have k: "key_line demo_pub (demo_pub @ '''') = Some []"
    using demo_key_line[of "''''" "[]"] by simp
  obtain w1 where a: "authenticate demo_verify True ''n'' 7 (demo_ci ''INFO\<newline>'') (demo_world '''') = (Some (caps_of_tags []), w1)"
    using demo_authenticates[OF _ k, of True "''n''" 7 "''INFO\<newline>''"] by auto
  have "fst (dispatch None True ''INFO\<newline>'') = Run DoInfo" by code_simp
  then obtain r where d: "dispatch None True ''INFO\<newline>'' = (Run DoInfo, r)" by (cases "dispatch None True ''INFO\<newline>''") auto
  have h: "handleConnection demo_verify True ''n'' (\<lambda>_ _ w. w) 7 (demo_ci ''INFO\<newline>'') (demo_world '''') =
      (Some DoInfo, clearConnIdentity (Some 7) w1)"
    using a d by (simp add: handleConnection_def caps_of_tags_def) (simp add: demo_ci_def)
  from handler_needs_verified_key[OF h] show ?thesis by blast
qed

section \<open>Gaps of the switch\<close>

text \<open>the parallel download is unreachable: its verbs begin with GET, which the first case of
  the switch takes, so \<open>HandleGetM\<close> and \<open>HandleGetC\<close> never run.\<close>
theorem parallel_download_unreachable:
  "fst (dispatch cs ready s) \<noteq> Run (DoGetM cmd) \<and> fst (dispatch cs ready s) \<noteq> Run (DoGetC cmd)"
proof -
  have g: "take 3 s = ''GET''" if a: "take 4 s = ''GETM'' \<or> take 4 s = ''GETC''"
  proof -
    have "take 3 s = take 3 (take 4 s)" by simp
    also have "\<dots> = ''GET''" using a by (elim disjE) (simp_all only:, simp_all)
    finally show ?thesis .
  qed
  show ?thesis
    using g unfolding dispatch_def guarded_def Let_def split_beta by simp
qed

lemma take_head: "take n s = x # t \<Longrightarrow> s ! 0 = x"
  by (cases s; cases n) auto

text \<open>a policy tag does not gate the interactive shell: an authenticated key without a caps tag
  whose stream is not a verb gets the shell, even when its policy cannot be loaded and every
  command would be refused.\<close>
theorem policied_key_gets_shell:
  assumes "authenticate verify req nonce c ci w = (Some None, w1)"
    and "tagged w1 (Some c) name" "policy_now (de_compile e) name w1 = Inl err"
    and "\<not> ci_ready ci \<or> length (ci_rest ci) < 4 \<or> \<not> isUpperASCII (ci_rest ci ! 0)"
  shows "fst (handleConnection verify req nonce run c ci w) = Some DoShell"
proof -
  have "fst (dispatch None (ci_ready ci) (ci_rest ci)) = Run DoShell"
  proof (cases "ci_ready ci \<and> 4 \<le> length (ci_rest ci)")
    case True
    define s where "s = ci_rest ci"
    have nu: "\<not> is_upper (s ! 0)" using assms(4) True by (auto simp: isUpperASCII_def s_def)
    have ne: "is_upper x \<Longrightarrow> take n s \<noteq> x # t" for n x t using nu take_head[of n s x t] by auto
    have u: "is_upper CHR ''P''" "is_upper CHR ''G''" "is_upper CHR ''E''" "is_upper CHR ''S''" "is_upper CHR ''R''"
      "is_upper CHR ''F''" "is_upper CHR ''M''" "is_upper CHR ''I''" by (simp_all add: is_upper_def)
    show ?thesis
      unfolding dispatch_def guarded_def Let_def split_beta s_def[symmetric]
      by (simp add: ne u nu isUpperASCII_def)
  qed (auto simp: dispatch_def guarded_def)
  then obtain r where "dispatch None (ci_ready ci) (ci_rest ci) = (Run DoShell, r)"
    by (cases "dispatch None (ci_ready ci) (ci_rest ci)") auto
  then show ?thesis using assms(1) by (simp add: handleConnection_def)
qed

text \<open>a connection that fails to authenticate leaves its entry in the transport map: the
  clean-up is deferred only after the authentication.\<close>
theorem failed_auth_keeps_transport_entry:
  assumes "sniff requireTLS ci = Proceed tls" "authenticate verify requireTLS nonce c ci w = (None, w1)"
  shows "w_transports (snd (handleConnection verify requireTLS nonce run c ci w)) c \<noteq> None"
proof -
  define w0 where "w0 = setConnTransport (Some c) (if tls then ''tls'' else ''plain'') w"
  have t: "w_transports w0 c \<noteq> None" by (simp add: w0_def setConnTransport_def)
  have a: "auth_line_step verify nonce c tls ci w0 = (None, w1)"
    using assms by (simp add: authenticate_def w0_def)
  have "w_transports w1 = w_transports w0"
    using a by (auto simp: auth_line_step_def auth_failed_def challenge_def Let_def send_def
        split: option.splits if_splits)
  with t assms(2) show ?thesis by (simp add: handleConnection_def)
qed

lemma failed_auth_witness:
  "w_transports (snd (handleConnection demo_verify False ''n'' (\<lambda>_ _ w. w) 7
     ((demo_ci '''')\<lparr>ci_first := Some CHR ''x'', ci_auth_line := Some ''x''\<rparr>) (demo_world ''''))) 7 \<noteq> None"
proof -
  let ?ci = "(demo_ci '''')\<lparr>ci_first := Some CHR ''x'', ci_auth_line := Some ''x''\<rparr>"
  have s: "sniff False ?ci = Proceed False" by (simp add: sniff_def tls_byte_def)
  have "trim_crlf ''x'' = ''x''" by code_simp
  then obtain w1 where "authenticate demo_verify False ''n'' 7 ?ci (demo_world '''') = (None, w1)"
    by (simp add: authenticate_def s auth_line_step_def auth_failed_def)
  from failed_auth_keeps_transport_entry[OF s this] show ?thesis .
qed

lemma challenge_identity:
  "challenge verify nonce c pub kc answer w = (Some cs, w1) \<Longrightarrow> w_fs w1 = w_fs w \<and> w_home w1 = w_home w"
  by (auto simp: challenge_def auth_failed_def Let_def send_def setConnIdentity_def
      split: option.splits if_splits)

lemma policied_shell_witness:
  "fst (handleConnection demo_verify True ''n'' (\<lambda>_ _ w. w) 7 (demo_ci '''') (demo_world '' policy=ro'')) = Some DoShell"
proof -
  let ?w = "demo_world '' policy=ro''" and ?ci = "demo_ci ''''"
  have k: "key_line demo_pub (demo_pub @ '' policy=ro'') = Some [''policy=ro'']"
    by (rule demo_key_line) (simp, code_simp)
  have nl: "NL \<notin> set '' policy=ro''" by simp
  have cp: "caps_of_tags [''policy=ro''] = None" by (simp add: caps_of_tags_def)
  obtain w1 where a: "authenticate demo_verify True ''n'' 7 ?ci ?w = (Some None, w1)"
    using demo_authenticates[OF nl k, of True "''n''" 7 "''''"] cp by auto
  have kp: "KeyPolicy (w_fs ?w) ''/root'' demo_pub = (''ro'', True)"
  proof -
    have "trim_space (trim_prefix ''policy='' ''policy=ro'') = ''ro''" by code_simp
    then show ?thesis
      using is_word_nonempty[OF demo_strings(5)]
      unfolding KeyPolicy_def Let_def demo_strings(4) demo_keys(2)[OF nl k] by simp
  qed
  have sn: "sniff True ?ci = Proceed True" by (simp add: sniff_def demo_ci_def)
  have ci: "ci_auth_line ?ci = Some (''VAUTH1 '' @ demo_pub @ [NL])" by (simp add: demo_ci_def)
  from a have "auth_line_step demo_verify ''n'' 7 True ?ci (setConnTransport (Some 7) ''tls'' ?w) = (Some None, w1)"
    by (simp add: authenticate_def sn)
  from auth_line_Some[OF this] have
    "challenge demo_verify ''n'' 7 demo_pub (fst (KeyCapabilities (w_fs ?w) ''/root'' demo_pub)) (ci_sig_line ?ci)
       (setConnTransport (Some 7) ''tls'' ?w) = (Some None, w1)"
    unfolding ci Let_def option.inject by (simp only: ex_simps simp_thms demo_strings(1,2) setConnTransport_sel demo_world_sel)
  note C = challenge_Some[OF this] challenge_identity[OF this]
  then have id: "fst (connIdentity w1 (Some 7)) = demo_pub" "w_fs w1 = w_fs ?w" "w_home w1 = ''/root''" by simp_all
  have tg: "tagged w1 (Some 7) ''ro''"
    using id kp is_word_nonempty[OF demo_strings(5)] by (simp add: tagged_def)
  have "trim_space ''ro'' = ''ro''" by code_simp
  then have pn: "policy_now (de_compile env0) ''ro'' w1 = Inl (PolicyNotFound ''ro'')"
    by (simp add: policy_now_def Let_def id cfg_paths policy_file_def)
      (simp add: demo_world_def put_file_def empty_fs_def)
  show ?thesis
    by (rule policied_key_gets_shell[OF a tg pn]) (simp add: demo_ci_def)
qed

end
