(* ===== verification/Jobs.thy ===== *)
theory Jobs
  imports ExecShell
begin

text \<open>
  \<^verbatim>\<open>internal/server/jobs.go\<close>: background jobs.  The registry is a map from job ids; a job is the
  record of \<^verbatim>\<open>jobRecord\<close>, its context reduced to whether it was cancelled.  The operations are
  functions on the registry, and \<open>job_step\<close> is the system of the RPC calls and of the goroutines
  that wait for the processes, in any order: a step is what the code does under one hold of a lock,
  or between two.  A cancel call is two steps, because \<^verbatim>\<open>rpcJobCancel\<close> gives the lock of the job
  back between reading its status and cancelling its context.
\<close>

section \<open>Jobs and their operations\<close>

datatype job_status = JobRunning | JobSucceeded | JobFailed | JobCanceled

record job_info =
  ji_id :: string
  ji_command :: string
  ji_status :: job_status
  ji_exit :: int
  ji_started :: int            \<comment> \<open>milliseconds\<close>
  ji_ended :: "int option"
  ji_duration :: int
  ji_error :: string

record job =
  jb_info :: job_info
  jb_out :: bytes
  jb_err :: bytes
  jb_cancel :: bool            \<comment> \<open>the context is cancelled\<close>
  jb_done :: bool              \<comment> \<open>the done channel is closed\<close>

type_synonym registry = "string \<Rightarrow> job option"

definition new_job :: "string \<Rightarrow> string \<Rightarrow> int \<Rightarrow> job" where
  "new_job uuid cmd now =
     \<lparr>jb_info = \<lparr>ji_id = uuid, ji_command = cmd, ji_status = JobRunning, ji_exit = -1, ji_started = now,
        ji_ended = None, ji_duration = 0, ji_error = ''''\<rparr>,
      jb_out = '''', jb_err = '''', jb_cancel = False, jb_done = False\<rparr>"

definition snapshot :: "int \<Rightarrow> job \<Rightarrow> job_info" where
  "snapshot now j =
     (let i = jb_info j in
      if ji_status i = JobRunning then i\<lparr>ji_duration := now - ji_started i\<rparr> else i)"

definition rpcJobStart :: "string \<Rightarrow> string \<Rightarrow> int \<Rightarrow> registry \<Rightarrow> (string + job_info) \<times> registry" where
  "rpcJobStart uuid cmd now reg =
     (if cmd = '''' then (Inl ''command is required'', reg)
      else let j = new_job uuid cmd now in (Inr (snapshot now j), reg(uuid \<mapsto> j)))"

definition lookupJob :: "string \<Rightarrow> registry \<Rightarrow> string + job" where
  "lookupJob jid reg =
     (if jid = '''' then Inl ''id is required''
      else (case reg jid of None \<Rightarrow> Inl ''job not found'' | Some j \<Rightarrow> Inr j))"

definition rpcJobStatus :: "string \<Rightarrow> int \<Rightarrow> registry \<Rightarrow> string + job_info" where
  "rpcJobStatus jid now reg = (case lookupJob jid reg of Inl e \<Rightarrow> Inl e | Inr j \<Rightarrow> Inr (snapshot now j))"

definition tailString :: "string \<Rightarrow> int \<Rightarrow> string" where
  "tailString v n = (if n \<le> 0 \<or> int (length v) \<le> n then v else drop (length v - nat n) v)"

definition rpcJobLogs :: "string \<Rightarrow> int \<Rightarrow> int \<Rightarrow> registry \<Rightarrow> string + (job_info \<times> string \<times> string)" where
  "rpcJobLogs jid n now reg =
     (case lookupJob jid reg of Inl e \<Rightarrow> Inl e
      | Inr j \<Rightarrow> Inr (snapshot now j, tailString (jb_out j) n, tailString (jb_err j) n))"

text \<open>\<^verbatim>\<open>rpcJobCancel\<close> is two critical steps: under the lock of the job it reads whether the job is
  running, and after giving the lock back it cancels the context if it was.\<close>
definition cancel_read :: "string \<Rightarrow> registry \<Rightarrow> string + bool" where
  "cancel_read jid reg =
     (case lookupJob jid reg of Inl e \<Rightarrow> Inl e | Inr j \<Rightarrow> Inr (ji_status (jb_info j) = JobRunning))"

definition cancel_context :: "string \<Rightarrow> registry \<Rightarrow> registry" where
  "cancel_context jid reg =
     (case reg jid of None \<Rightarrow> reg | Some j \<Rightarrow> reg(jid \<mapsto> j\<lparr>jb_cancel := True\<rparr>))"

text \<open>The call as a whole when nothing else comes between its steps.\<close>
definition rpcJobCancel :: "string \<Rightarrow> int \<Rightarrow> registry \<Rightarrow> (string + job_info) \<times> registry" where
  "rpcJobCancel jid now reg =
     (case cancel_read jid reg of Inl e \<Rightarrow> (Inl e, reg)
      | Inr running \<Rightarrow>
          let reg' = (if running then cancel_context jid reg else reg)
          in (rpcJobStatus jid now reg', reg'))"

text \<open>How a process ends: well, with an exit code, or with another error.\<close>
type_synonym process_end = "(int + string) option"

text \<open>\<open>runJob\<close> once \<^verbatim>\<open>cmd.Run\<close> has returned, in the critical section that ends the job; the \<^verbatim>\<open>done\<close>
  channel is closed after it.\<close>
definition finish_job :: "int \<Rightarrow> process_end \<Rightarrow> job \<Rightarrow> job" where
  "finish_job now pe j =
     (let i = (jb_info j)\<lparr>ji_ended := Some now, ji_duration := now - ji_started (jb_info j)\<rparr>;
          i' = (if jb_cancel j then i\<lparr>ji_status := JobCanceled, ji_error := ''canceled''\<rparr>
                else case pe of
                  None \<Rightarrow> i\<lparr>ji_status := JobSucceeded, ji_exit := 0\<rparr>
                | Some (Inl k) \<Rightarrow> i\<lparr>ji_status := JobFailed, ji_exit := k\<rparr>
                | Some (Inr e) \<Rightarrow> i\<lparr>ji_status := JobFailed, ji_error := e\<rparr>)
      in j\<lparr>jb_info := i'\<rparr>)"

text \<open>The argument vector of a job, and the login-path cache after it.\<close>
definition shellCommandContext ::
  "machine \<Rightarrow> string \<Rightarrow> (string \<Rightarrow> string option) \<Rightarrow> (string \<times> string list) \<times> (string \<Rightarrow> string option)" where
  "shellCommandContext m cmd cache =
     (case default_account m of
        Some usr \<Rightarrow> userExecParts m usr (shell_path m) cmd cache
      | None \<Rightarrow> ((shell_path m, [''-c'', cmd]), cache))"

section \<open>The system\<close>

text \<open>The registry and the cancel calls under way: the jobs they have read as running and will cancel.\<close>
record job_sys =
  js_reg :: registry
  js_cancels :: "string list"

datatype job_event =
    EvStart string string int | EvOutput string bytes bytes | EvRead string | EvCancel string
  | EvFinish string int process_end | EvDone string

abbreviation is_running :: "job \<Rightarrow> bool" where
  "is_running j \<equiv> ji_status (jb_info j) = JobRunning"

definition upd_job :: "string \<Rightarrow> job \<Rightarrow> job_sys \<Rightarrow> job_sys" where
  "upd_job jid j s = s\<lparr>js_reg := (js_reg s)(jid \<mapsto> j)\<rparr>"

text \<open>The events: a start call; output of a process; a cancel call that has read its job as running;
  its \<^verbatim>\<open>cancel()\<close>, at any later time; the return of \<^verbatim>\<open>cmd.Run\<close>, which no rule forces to come (a
  child that keeps the output pipe open holds it back, cancelled or not); the close of the channel.
  Status and log calls, and cancel calls on jobs that do not run, change nothing.\<close>
inductive job_step :: "job_sys \<Rightarrow> job_event \<Rightarrow> job_sys \<Rightarrow> bool" where
  start: "js_reg s uuid = None \<Longrightarrow> uuid \<noteq> '''' \<Longrightarrow> cmd \<noteq> '''' \<Longrightarrow>
    job_step s (EvStart uuid cmd now) (s\<lparr>js_reg := snd (rpcJobStart uuid cmd now (js_reg s))\<rparr>)"
| emit: "js_reg s jid = Some j \<Longrightarrow> is_running j \<Longrightarrow>
    job_step s (EvOutput jid a b) (upd_job jid (j\<lparr>jb_out := jb_out j @ a, jb_err := jb_err j @ b\<rparr>) s)"
| read_running: "cancel_read jid (js_reg s) = Inr True \<Longrightarrow>
    job_step s (EvRead jid) (s\<lparr>js_cancels := jid # js_cancels s\<rparr>)"
| cancel: "jid \<in> set (js_cancels s) \<Longrightarrow>
    job_step s (EvCancel jid)
      \<lparr>js_reg = cancel_context jid (js_reg s), js_cancels = remove1 jid (js_cancels s)\<rparr>"
| finish: "js_reg s jid = Some j \<Longrightarrow> is_running j \<Longrightarrow>
    job_step s (EvFinish jid now pe) (upd_job jid (finish_job now pe j) s)"
| close_done: "js_reg s jid = Some j \<Longrightarrow> \<not> is_running j \<Longrightarrow>
    job_step s (EvDone jid) (upd_job jid (j\<lparr>jb_done := True\<rparr>) s)"

inductive_cases startE: "job_step s (EvStart uuid cmd now) s'"
inductive_cases cancelE: "job_step s (EvCancel jid) s'"
inductive_simps finish_iff: "job_step s (EvFinish jid now pe) s'"

inductive job_steps :: "job_sys \<Rightarrow> job_event list \<Rightarrow> job_sys \<Rightarrow> bool" where
  none: "job_steps s [] s"
| more: "job_step s ev s1 \<Longrightarrow> job_steps s1 evs s2 \<Longrightarrow> job_steps s (ev # evs) s2"

definition jobs_init :: job_sys where
  "jobs_init = \<lparr>js_reg = (\<lambda>_. None), js_cancels = []\<rparr>"

lemmas job_ops = rpcJobStart_def cancel_read_def cancel_context_def lookupJob_def upd_job_def Let_def

text \<open>A cancel call with nothing in between is a run of the system.\<close>
lemma rpcJobCancel_steps:
  assumes "cancel_read jid (js_reg s) = Inr True"
  shows "job_steps s [EvRead jid, EvCancel jid] (s\<lparr>js_reg := snd (rpcJobCancel jid now (js_reg s))\<rparr>)"
proof -
  have "job_step (s\<lparr>js_cancels := jid # js_cancels s\<rparr>) (EvCancel jid)
      \<lparr>js_reg = cancel_context jid (js_reg s), js_cancels = js_cancels s\<rparr>"
    using cancel[of jid "s\<lparr>js_cancels := jid # js_cancels s\<rparr>"] by simp
  moreover have "\<lparr>js_reg = cancel_context jid (js_reg s), js_cancels = js_cancels s\<rparr> =
      s\<lparr>js_reg := snd (rpcJobCancel jid now (js_reg s))\<rparr>"
    using assms by (simp add: rpcJobCancel_def Let_def)
  ultimately show ?thesis using more[OF read_running[OF assms] more[OF _ none]] by metis
qed

text \<open>What the fields of a job say about each other.  A context may be cancelled after the job has
  ended, so a job that succeeded may have a cancelled context; the reverse has to hold.\<close>
definition job_ok :: "string \<Rightarrow> job \<Rightarrow> bool" where
  "job_ok jid j \<longleftrightarrow>
     (let i = jb_info j in
      ji_id i = jid \<and> ji_command i \<noteq> '''' \<and>
      (ji_status i = JobRunning \<longleftrightarrow> ji_ended i = None) \<and> (jb_done j \<longrightarrow> ji_status i \<noteq> JobRunning) \<and>
      (\<forall>t. ji_ended i = Some t \<longrightarrow> ji_duration i = t - ji_started i) \<and>
      (ji_status i = JobRunning \<longrightarrow> ji_exit i = -1 \<and> ji_error i = '''') \<and>
      (ji_status i = JobSucceeded \<longrightarrow> ji_exit i = 0 \<and> ji_error i = '''') \<and>
      (ji_status i = JobFailed \<longrightarrow> ji_exit i = -1 \<or> ji_error i = '''') \<and>
      (ji_status i = JobCanceled \<longrightarrow> jb_cancel j \<and> ji_error i = ''canceled'' \<and> ji_exit i = -1))"

definition sys_ok :: "job_sys \<Rightarrow> bool" where
  "sys_ok s \<longleftrightarrow> (\<forall>jid j. js_reg s jid = Some j \<longrightarrow> job_ok jid j)"

lemma sys_ok_get: "sys_ok s \<Longrightarrow> js_reg s jid = Some j \<Longrightarrow> job_ok jid j"
  by (simp add: sys_ok_def)

lemma finish_job_ok: "job_ok jid j \<Longrightarrow> is_running j \<Longrightarrow> job_ok jid (finish_job now pe j)"
  by (auto simp: job_ok_def finish_job_def Let_def split: option.split sum.split)

lemma new_job_ok: "cmd \<noteq> '''' \<Longrightarrow> job_ok uuid (new_job uuid cmd now)"
  by (simp add: job_ok_def new_job_def)

lemma output_job_ok: "job_ok jid j \<Longrightarrow> job_ok jid (j\<lparr>jb_out := a, jb_err := b\<rparr>)"
  by (simp add: job_ok_def)

lemma done_job_ok: "job_ok jid j \<Longrightarrow> \<not> is_running j \<Longrightarrow> job_ok jid (j\<lparr>jb_done := True\<rparr>)"
  by (simp add: job_ok_def Let_def)

lemma cancel_job_ok: "job_ok jid j \<Longrightarrow> job_ok jid (j\<lparr>jb_cancel := True\<rparr>)"
  by (auto simp: job_ok_def Let_def)

lemma job_step_ok: "job_step s ev s' \<Longrightarrow> sys_ok s \<Longrightarrow> sys_ok s'"
proof (induction rule: job_step.induct)
  case (cancel jid s)
  then show ?case by (auto simp: sys_ok_def cancel_context_def cancel_job_ok split: option.split)
next
  case (start s uuid cmd now)
  then show ?case by (auto simp: sys_ok_def job_ops new_job_ok)
qed (auto simp: sys_ok_def upd_job_def finish_job_ok output_job_ok done_job_ok)

lemma job_steps_ok: "job_steps s evs s' \<Longrightarrow> sys_ok s \<Longrightarrow> sys_ok s'"
  by (induction rule: job_steps.induct) (auto intro: job_step_ok)

text \<open>What a run may do to a job: nothing to what it reports once it has ended; and a context that is
  cancelled stays so, so that the job, if it still runs, can only end as cancelled.\<close>
definition job_later :: "job \<Rightarrow> job \<Rightarrow> bool" where
  "job_later j j' \<longleftrightarrow>
     (\<not> is_running j \<longrightarrow> jb_info j' = jb_info j \<and> jb_out j' = jb_out j \<and> jb_err j' = jb_err j) \<and>
     (jb_cancel j \<longrightarrow> jb_cancel j') \<and>
     (is_running j \<and> jb_cancel j \<and> \<not> is_running j' \<longrightarrow> ji_status (jb_info j') = JobCanceled)"

lemma job_later_refl [simp]: "job_later j j"
  by (simp add: job_later_def)

lemma job_later_trans: "job_later j j' \<Longrightarrow> job_later j' j'' \<Longrightarrow> job_later j j''"
  unfolding job_later_def by metis

lemma job_later_finish: "is_running j \<Longrightarrow> job_later j (finish_job now pe j)"
  by (auto simp: job_later_def finish_job_def Let_def split: option.split sum.split)

lemma job_step_later:
  "job_step s ev s' \<Longrightarrow> js_reg s jid = Some j \<Longrightarrow> \<exists>j'. js_reg s' jid = Some j' \<and> job_later j j'"
proof (induction rule: job_step.induct)
  case (finish s jid' j0 now pe)
  then show ?case by (auto simp: upd_job_def job_later_finish)
next
  case (cancel jid' s)
  then show ?case by (auto simp: cancel_context_def job_later_def split: option.split)
qed (auto simp: job_ops job_later_def)

lemma job_steps_later:
  "job_steps s evs s' \<Longrightarrow> js_reg s jid = Some j \<Longrightarrow> \<exists>j'. js_reg s' jid = Some j' \<and> job_later j j'"
proof (induction arbitrary: j rule: job_steps.induct)
  case (more s ev s1 evs s2)
  obtain j1 where j1: "js_reg s1 jid = Some j1" "job_later j j1" using job_step_later[OF more.hyps(1) more.prems] by blast
  show ?case using more.IH[OF j1(1)] j1(2) job_later_trans by blast
qed auto

text \<open>A context is cancelled by a cancel call only, and that call has read the job before.\<close>
definition asked :: "job_event list \<Rightarrow> job_sys \<Rightarrow> bool" where
  "asked evs s \<longleftrightarrow> set (js_cancels s) \<subseteq> {jid. EvRead jid \<in> set evs} \<and>
     (\<forall>jid j. js_reg s jid = Some j \<and> jb_cancel j \<longrightarrow> EvRead jid \<in> set evs)"

lemma asked_step: "job_step s ev s' \<Longrightarrow> asked evs s \<Longrightarrow> asked (evs @ [ev]) s'"
proof (induction rule: job_step.induct)
  case (cancel jid s)
  then show ?case by (auto simp: asked_def cancel_context_def dest: notin_set_remove1 split: option.split_asm if_splits)
next
  case (finish s jid j now pe)
  then show ?case by (auto simp: asked_def upd_job_def finish_job_def Let_def split: if_splits)
qed (auto simp: asked_def job_ops new_job_def)

lemma asked_steps: "job_steps s evs s' \<Longrightarrow> asked pre s \<Longrightarrow> asked (pre @ evs) s'"
proof (induction arbitrary: pre rule: job_steps.induct)
  case (more s ev s1 evs s2)
  show ?case using more.IH[OF asked_step[OF more.hyps(1) more.prems]] by simp
qed simp

lemma jobs_init_ok: "sys_ok jobs_init" "asked [] jobs_init"
  by (simp_all add: sys_ok_def asked_def jobs_init_def)

text \<open>C9: the life of a job, for every interleaving of starts, output, process ends and the two steps
  of cancel calls from an empty registry: the fields of every job agree with its status, so what a
  status call reports is consistent; only a job some call asked to cancel is reported as cancelled;
  a job whose context was cancelled while it ran can only end as cancelled; and a job that has ended
  reports the same status, exit code, times and output for good, though a late cancel may still
  reach its context.\<close>
theorem job_lifecycle:
  assumes "job_steps jobs_init evs s"
  shows "(\<forall>jid j. js_reg s jid = Some j \<longrightarrow> job_ok jid j \<and>
        (ji_status (jb_info j) = JobCanceled \<longrightarrow> EvRead jid \<in> set evs)) \<and>
    (\<forall>evs2 s2 jid j. job_steps s evs2 s2 \<and> js_reg s jid = Some j \<longrightarrow>
       (\<exists>j2. js_reg s2 jid = Some j2 \<and>
          (\<not> is_running j \<longrightarrow> jb_info j2 = jb_info j \<and> jb_out j2 = jb_out j \<and> jb_err j2 = jb_err j) \<and>
          (is_running j \<and> jb_cancel j \<and> \<not> is_running j2 \<longrightarrow>
             ji_status (jb_info j2) = JobCanceled \<and> ji_error (jb_info j2) = ''canceled'')))"
proof -
  have ok: "sys_ok s" by (rule job_steps_ok[OF assms jobs_init_ok(1)])
  have ask: "asked evs s" using asked_steps[OF assms jobs_init_ok(2)] by simp
  have canc: "job_ok jid j \<Longrightarrow> ji_status (jb_info j) = JobCanceled \<Longrightarrow> jb_cancel j \<and> ji_error (jb_info j) = ''canceled''" for jid j
    by (simp add: job_ok_def Let_def)
  have 1: "job_ok jid j \<and> (ji_status (jb_info j) = JobCanceled \<longrightarrow> EvRead jid \<in> set evs)"
    if "js_reg s jid = Some j" for jid j
    using sys_ok_get[OF ok that] canc ask that unfolding asked_def by metis
  have 2: "\<exists>j2. js_reg s2 jid = Some j2 \<and>
          (\<not> is_running j \<longrightarrow> jb_info j2 = jb_info j \<and> jb_out j2 = jb_out j \<and> jb_err j2 = jb_err j) \<and>
          (is_running j \<and> jb_cancel j \<and> \<not> is_running j2 \<longrightarrow>
             ji_status (jb_info j2) = JobCanceled \<and> ji_error (jb_info j2) = ''canceled'')"
    if st: "job_steps s evs2 s2" and j: "js_reg s jid = Some j" for evs2 s2 jid j
  proof -
    obtain j2 where j2: "js_reg s2 jid = Some j2" "job_later j j2" using job_steps_later[OF st j] by blast
    show ?thesis using j2 canc[OF sys_ok_get[OF job_steps_ok[OF st ok] j2(1)]] unfolding job_later_def by metis
  qed
  show ?thesis using 1 2 by blast
qed

text \<open>The interleaving the two steps of a cancel call allow: it reads \<open>running\<close>, the job succeeds, and
  the context is cancelled afterwards.  The job is reported as succeeded.\<close>
definition late_job :: job where
  "late_job = (finish_job 9 None (new_job ''a'' ''id'' 5))\<lparr>jb_cancel := True\<rparr>"

lemma late_cancel:
  "job_steps jobs_init [EvStart ''a'' ''id'' 5, EvRead ''a'', EvFinish ''a'' 9 None, EvCancel ''a'']
     \<lparr>js_reg = (\<lambda>_. None)(''a'' \<mapsto> late_job), js_cancels = []\<rparr>"
proof -
  let ?s1 = "\<lparr>js_reg = (\<lambda>_. None)(''a'' \<mapsto> new_job ''a'' ''id'' 5), js_cancels = []\<rparr>"
  let ?s3 = "\<lparr>js_reg = (\<lambda>_. None)(''a'' \<mapsto> finish_job 9 None (new_job ''a'' ''id'' 5)), js_cancels = [''a'']\<rparr>"
  have 1: "job_step jobs_init (EvStart ''a'' ''id'' 5) ?s1"
    using start[of jobs_init "''a''" "''id''" 5] by (simp add: jobs_init_def job_ops)
  have 2: "job_step ?s1 (EvRead ''a'') (?s1\<lparr>js_cancels := [''a'']\<rparr>)"
    using read_running[of "''a''" ?s1] by (simp add: job_ops new_job_def)
  have 3: "job_step (?s1\<lparr>js_cancels := [''a'']\<rparr>) (EvFinish ''a'' 9 None) ?s3"
    using finish[of "?s1\<lparr>js_cancels := [''a'']\<rparr>" "''a''" _ 9 None] by (simp add: upd_job_def new_job_def)
  have 4: "job_step ?s3 (EvCancel ''a'') \<lparr>js_reg = (\<lambda>_. None)(''a'' \<mapsto> late_job), js_cancels = []\<rparr>"
    using cancel[of "''a''" ?s3] by (simp add: cancel_context_def late_job_def)
  show ?thesis by (rule more[OF 1 more[OF 2 more[OF 3 more[OF 4 none]]]])
qed

lemma job_lifecycle_witness:
  "job_ok ''a'' late_job \<and> jb_cancel late_job \<and> ji_status (jb_info late_job) = JobSucceeded"
proof -
  have "job_ok ''a'' late_job" using conjunct1[OF job_lifecycle[OF late_cancel]] by simp
  then show ?thesis by (simp add: late_job_def finish_job_def new_job_def)
qed

lemma tailString_suffix: "0 < n \<Longrightarrow> suffix (tailString v n) v \<and> int (length (tailString v n)) \<le> n"
  by (auto simp: tailString_def suffix_drop)

end
