(* ===== verification/FileTransfer.thy ===== *)
theory FileTransfer
  imports Daemon ExecShell Jobs
begin

text \<open>
  \<^verbatim>\<open>internal/server/transfer.go\<close>: the handler of the basic verbs (\<open>HandleTransfer\<close>), and the
  client's side of an upload and a download.  \<^verbatim>\<open>internal/server/mux.go\<close> and
  \<^verbatim>\<open>internal/server/relay.go\<close> share its steps.  A handler takes what the peer sends behind
  the command line (\<open>incoming\<close>) and returns the state after it, None when it panics: nothing
  recovers, so the daemon process ends.  MD5 is an argument.
\<close>

section \<open>State and input of a handler\<close>

record parallel_session =
  ps_path :: path
  ps_size :: int
  ps_hash :: string
  ps_conns :: int
  ps_created :: int

text \<open>\<open>sv_ran\<close> records the commands given to a shell; no code reads it.\<close>
record srv =
  sv_w :: pworld
  sv_login :: "string \<Rightarrow> string option"             \<comment> \<open>loginPathCache\<close>
  sv_sessions :: "string \<Rightarrow> parallel_session option" \<comment> \<open>parallelSessions\<close>
  sv_jobs :: registry                                 \<comment> \<open>\<open>jobRegistry\<close>\<close>
  sv_ran :: "string list"

text \<open>The bytes the peer sends, how the stream ends (None: end of file), and the error of writing
  received bytes to a temporary file, if there is one.\<close>
record incoming =
  in_data :: bytes
  in_fault :: "string option"
  in_werr :: "string option"

definition on_w :: "(pworld \<Rightarrow> pworld) \<Rightarrow> srv \<Rightarrow> srv" where
  "on_w f s = s\<lparr>sv_w := f (sv_w s)\<rparr>"

definition reply :: "conn option \<Rightarrow> string \<Rightarrow> srv \<Rightarrow> srv" where
  "reply cn t s = on_w (send cn t) s"

definition set_fs :: "fs \<Rightarrow> srv \<Rightarrow> srv" where
  "set_fs f s = on_w (\<lambda>w. w\<lparr>w_fs := f\<rparr>) s"

abbreviation sv_fs :: "srv \<Rightarrow> fs" where "sv_fs s \<equiv> w_fs (sv_w s)"

text \<open>A gate of \<open>Policy\<close> on this state.\<close>
definition gate :: "(pworld \<Rightarrow> 'a \<times> pworld) \<Rightarrow> srv \<Rightarrow> 'a \<times> srv" where
  "gate g s = (let (r, w) = g (sv_w s) in (r, s\<lparr>sv_w := w\<rparr>))"

text \<open>The text of an error of the file system.\<close>
definition io_text :: "string \<Rightarrow> io_err \<Rightarrow> string" where
  "io_text what e =
     what @ '': '' @ (case e of ENotExist \<Rightarrow> ''no such file or directory'' | EIo t \<Rightarrow> t)"

definition error_line :: "string \<Rightarrow> string" where
  "error_line t = ''ERROR '' @ t @ [NL]"

section \<open>Commands\<close>

definition run_structured :: "machine \<Rightarrow> string \<Rightarrow> srv \<Rightarrow> exec_result \<times> srv" where
  "run_structured m cmd s =
     (let (r, cache) = ExecLocalStructured m cmd (sv_login s)
      in (r, s\<lparr>sv_login := cache, sv_ran := sv_ran s @ [cmd]\<rparr>))"

definition run_shell :: "machine \<Rightarrow> string \<Rightarrow> srv \<Rightarrow> (bytes \<times> string option) \<times> srv" where
  "run_shell m cmd s =
     (let (r, cache) = execShell m cmd (sv_login s)
      in (r, s\<lparr>sv_login := cache, sv_ran := sv_ran s @ [cmd]\<rparr>))"

text \<open>A decoded command: ask the policy, run, audit.  The result is what is sent.\<close>
definition exec_gated :: "denv \<Rightarrow> machine \<Rightarrow> conn option \<Rightarrow> string \<Rightarrow> srv \<Rightarrow> exec_result \<times> srv" where
  "exec_gated e m cn raw s =
     (case gate (enforceExecPolicy e cn raw) s of
        (Some d, s1) \<Rightarrow> (d, s1)
      | (None, s1) \<Rightarrow>
          let (r, s2) = run_structured m raw s1
          in (r, on_w (auditLog (de_sha e) cn raw r) s2))"

text \<open>An EXEJ line.\<close>
definition exej_run :: "denv \<Rightarrow> machine \<Rightarrow> conn option \<Rightarrow> exec_result \<Rightarrow> string \<Rightarrow> srv \<Rightarrow> exec_result \<times> srv" where
  "exej_run e m cn bad line s =
     (case b64_decode (trim_space (trim_prefix ''EXEJ '' line)) of
        None \<Rightarrow> (bad, s) | Some raw \<Rightarrow> exec_gated e m cn raw s)"

section \<open>PUT, GET, EXEC\<close>

type_synonym hash = "bytes \<Rightarrow> bytes"

text \<open>Up to \<open>sz\<close> bytes into a temporary file: the bytes received and the error.  A negative or
  zero size receives nothing and is no error.\<close>
definition copy_n :: "incoming \<Rightarrow> int \<Rightarrow> bytes \<times> string option" where
  "copy_n inc sz =
     (let got = take (nat sz) (in_data inc) in
      (got,
       if got \<noteq> [] \<and> in_werr inc \<noteq> None then in_werr inc
       else if sz \<le> int (length got) then None
       else (case in_fault inc of Some t \<Rightarrow> Some t | None \<Rightarrow> Some ''unexpected EOF'')))"

definition tmp_name :: "machine \<Rightarrow> path \<Rightarrow> path" where
  "tmp_name m p = p @ ''.vssh.tmp.'' @ show_nat (m_pid m)"

definition put_args :: "string \<Rightarrow> int \<times> path" where
  "put_args cmd =
     (let vs = sscanf [SLit ''PUT'', SSpace, SInt, SSpace, SStr] cmd in (arg_int vs 0, arg_str vs 1))"

text \<open>Receive into the temporary file and move it over the target.\<close>
definition receive_put :: "hash \<Rightarrow> machine \<Rightarrow> conn option \<Rightarrow> path \<Rightarrow> int \<Rightarrow> incoming \<Rightarrow> srv \<Rightarrow> srv" where
  "receive_put md5 m cn p sz inc s =
     (let tmp = tmp_name m p in
      case write_file tmp '''' (sv_fs s) of
        (Some er, _) \<Rightarrow> reply cn (error_line (io_text (''open '' @ tmp) er)) s
      | (None, f1) \<Rightarrow>
          let s1 = reply cn (''READY'' @ [NL]) (set_fs f1 s) in
          (case copy_n inc sz of
             (_, Some er) \<Rightarrow> reply cn (error_line er) (set_fs (remove_file tmp f1) s1)
           | (got, None) \<Rightarrow>
               let f2 = put_file tmp got f1 in
               (case rename_file tmp p f2 of
                  (Some er, _) \<Rightarrow>
                    reply cn (error_line (io_text (''rename '' @ tmp @ '' '' @ p) er)) (set_fs (remove_file tmp f2) s1)
                | (None, f3) \<Rightarrow>
                    reply cn (''OK '' @ show_nat (length got) @ '' '' @ hex_encode (md5 got) @ [NL]) (set_fs f3 s1))))"

definition transfer_put :: "denv \<Rightarrow> hash \<Rightarrow> machine \<Rightarrow> conn option \<Rightarrow> string \<Rightarrow> incoming \<Rightarrow> srv \<Rightarrow> srv" where
  "transfer_put e md5 m cn cmd inc s =
     (let (sz, path0) = put_args cmd;
          p = expandTransferPath m path0 (effectiveTransferUser m)
      in case gate (policyPathDenied e cn p) s of
           (True, s1) \<Rightarrow> s1
         | (False, s1) \<Rightarrow> receive_put md5 m cn p sz inc s1)"

text \<open>\<^verbatim>\<open>cmd[4:]\<close> without its last byte: None when there is no such byte.\<close>
definition get_arg :: "string \<Rightarrow> path option" where
  "get_arg cmd = (if length cmd < 5 then None else Some (butlast (drop 4 cmd)))"

definition transfer_get :: "denv \<Rightarrow> hash \<Rightarrow> machine \<Rightarrow> conn option \<Rightarrow> string \<Rightarrow> srv \<Rightarrow> srv option" where
  "transfer_get e md5 m cn cmd s =
     (case get_arg cmd of None \<Rightarrow> None
      | Some path0 \<Rightarrow>
          let p = expandTransferPath m path0 (effectiveTransferUser m) in
          Some (case gate (policyPathDenied e cn p) s of
             (True, s1) \<Rightarrow> s1
           | (False, s1) \<Rightarrow>
               (case read_file (sv_fs s1) p of
                  Inl er \<Rightarrow> reply cn (error_line (io_text (''open '' @ p) er)) s1
                | Inr d \<Rightarrow>
                    reply cn (hex_encode (md5 d) @ [NL])
                      (reply cn d (reply cn (''SIZE '' @ show_nat (length d) @ [NL]) s1)))))"

text \<open>\<^verbatim>\<open>cmd[5:]\<close> without one trailing newline: None when the slice is out of range.\<close>
definition exec_arg :: "string \<Rightarrow> string option" where
  "exec_arg cmd =
     (if length cmd < 5 then None
      else let c = drop 5 cmd in Some (if c \<noteq> [] \<and> last c = NL then butlast c else c))"

definition transfer_exec :: "denv \<Rightarrow> machine \<Rightarrow> conn option \<Rightarrow> string \<Rightarrow> srv \<Rightarrow> srv option" where
  "transfer_exec e m cn cmd s =
     (case exec_arg cmd of None \<Rightarrow> None
      | Some cmdStr \<Rightarrow>
          Some (case gate (enforceExecPolicy e cn cmdStr) s of
             (Some d, s1) \<Rightarrow> reply cn (''ERROR: '' @ er_error d @ [NL]) s1
           | (None, s1) \<Rightarrow>
               (case run_shell m cmdStr s1 of
                  ((out, Some er), s2) \<Rightarrow> reply cn (''ERROR: '' @ er @ [NL] @ out) s2
                | ((out, None), s2) \<Rightarrow> reply cn out s2)))"

definition bad_base64 :: "string \<Rightarrow> exec_result" where
  "bad_base64 code = exec_zero\<lparr>er_exit := -1, er_error := ''invalid base64 command'', er_code := code\<rparr>"

definition HandleTransfer :: "denv \<Rightarrow> hash \<Rightarrow> machine \<Rightarrow> conn option \<Rightarrow> string \<Rightarrow> incoming \<Rightarrow> srv \<Rightarrow> srv option" where
  "HandleTransfer e md5 m cn cmd inc s =
     (if length cmd < 4 then Some (reply cn (''ERROR invalid command'' @ [NL]) s)
      else if has_prefix ''EXEJ '' cmd then
        (let (r, s1) = exej_run e m cn (bad_base64 '''') cmd s in Some (on_w (writeExecJSON cn r) s1))
      else if take 3 cmd = ''PUT'' then Some (transfer_put e md5 m cn cmd inc s)
      else if take 3 cmd = ''GET'' then transfer_get e md5 m cn cmd s
      else if take 3 cmd = ''EXE'' then transfer_exec e m cn cmd s
      else Some s)"

section \<open>Uploads\<close>

lemma reply_sel [simp]:
  "sv_fs (reply cn t s) = sv_fs s" "w_audit_path (sv_w (reply cn t s)) = w_audit_path (sv_w s)"
  "sv_ran (reply cn t s) = sv_ran s" "sv_login (reply cn t s) = sv_login s" "sv_sessions (reply cn t s) = sv_sessions s"
  by (simp_all add: reply_def on_w_def)

lemma set_fs_sel [simp]:
  "sv_fs (set_fs f s) = f" "w_audit_path (sv_w (set_fs f s)) = w_audit_path (sv_w s)"
  "w_sent (sv_w (set_fs f s)) = w_sent (sv_w s)" "sv_ran (set_fs f s) = sv_ran s"
  "sv_sessions (set_fs f s) = sv_sessions s"
  by (simp_all add: set_fs_def on_w_def)

lemma reply_sent [simp]: "w_sent (sv_w (reply (Some c) t s)) c = w_sent (sv_w s) c @ [t]"
  by (simp add: reply_def on_w_def send_sent)

lemma gate_sel: "gate g s = (b, s1) \<Longrightarrow> \<exists>w. g (sv_w s) = (b, w) \<and> s1 = s\<lparr>sv_w := w\<rparr>"
  by (auto simp: gate_def split: prod.splits)

lemma copy_n_cases:
  "(\<exists>er. snd (copy_n inc n) = Some er) \<or>
   (snd (copy_n inc n) = None \<and> fst (copy_n inc n) = take (nat n) (in_data inc) \<and> n \<le> int (length (fst (copy_n inc n))))"
  by (auto simp: copy_n_def Let_def split: option.split)

text \<open>What an upload promises: the target holds exactly the announced bytes and the client is told
  so with their number and checksum, or the target is as it was and the client is told of an error.\<close>
definition put_promise :: "hash \<Rightarrow> conn \<Rightarrow> path \<Rightarrow> int \<Rightarrow> incoming \<Rightarrow> srv \<Rightarrow> srv \<Rightarrow> bool" where
  "put_promise md5 c p n inc s s' \<longleftrightarrow>
     (let got = take (nat n) (in_data inc); sent = w_sent (sv_w s') c in
      sent \<noteq> [] \<and>
      ((n \<le> int (length got) \<and> file_text (sv_fs s') p = Some got \<and>
        last sent = ''OK '' @ show_nat (length got) @ '' '' @ hex_encode (md5 got) @ [NL])
       \<or> (file_text (sv_fs s') p = file_text (sv_fs s) p \<and> has_prefix ''ERROR '' (last sent))))"

lemma tmp_name_neq: "tmp_name m p \<noteq> p"
  by (simp add: tmp_name_def)

lemma error_line_prefix [simp]: "has_prefix ''ERROR '' (error_line t)"
  by (simp add: error_line_def)

lemma receive_put_promise:
  assumes s'_def: "s' = receive_put md5 m (Some c) p n inc s"
  shows "put_promise md5 c p n inc s s'"
    "same_but {p, tmp_name m p} (sv_fs s) (sv_fs s')"
    "file_text (sv_fs s') (tmp_name m p) \<in> {None, file_text (sv_fs s) (tmp_name m p)}"
proof -
  let ?tmp = "tmp_name m p" and ?A = "{p, tmp_name m p}"
  obtain r f1 where w: "write_file ?tmp '''' (sv_fs s) = (r, f1)" by (cases "write_file ?tmp '''' (sv_fs s)")
  obtain got er where g: "copy_n inc n = (got, er)" by (cases "copy_n inc n")
  obtain r3 f3 where rn: "rename_file ?tmp p (put_file ?tmp got f1) = (r3, f3)"
    by (cases "rename_file ?tmp p (put_file ?tmp got f1)")
  have f1: "same_but ?A (sv_fs s) f1" "r = None \<Longrightarrow> file_text f1 p = file_text (sv_fs s) p"
    using same_but_write[where p = ?tmp and A = ?A and d = "''''" and f = "sv_fs s"] w tmp_name_neq[of m p]
    by (auto simp: write_file_def fs_simps split: option.splits)
  have f3: "same_but ?A f1 f3"
    using same_but_rename[where p = ?tmp and q = p and A = ?A and f = "put_file ?tmp got f1"] same_but_put[where p = ?tmp and A = ?A and f = f1 and d = got] rn
    by (auto intro: same_but_trans)
  have rm: "same_but ?A (sv_fs s) (remove_file ?tmp f)" if "same_but ?A (sv_fs s) f" for f
    using that by (auto intro: same_but_trans frame)
  have g': "er = None \<Longrightarrow> got = take (nat n) (in_data inc) \<and> n \<le> int (length got)"
    using copy_n_cases[of inc n] g by auto
  have P2: "same_but ?A f1 (put_file ?tmp got f1)" by (simp add: frame)
  note R = rename_file_cases[OF rn]
  show "put_promise md5 c p n inc s s'"
    using w g rn g' R f1 tmp_name_neq[of m p]
    by (auto simp: s'_def receive_put_def put_promise_def Let_def fs_simps split: option.splits)
  show "same_but ?A (sv_fs s) (sv_fs s')"
    using w g rn f1 same_but_trans[OF f1(1) f3] rm[OF f1(1)] rm[OF same_but_trans[OF f1(1) P2]]
    by (auto simp: s'_def receive_put_def Let_def split: option.splits)
  show "file_text (sv_fs s') (tmp_name m p) \<in> {None, file_text (sv_fs s) (tmp_name m p)}"
    using w g rn R tmp_name_neq[of m p]
    by (auto simp: s'_def receive_put_def Let_def fs_simps split: option.splits)
qed

lemma not_exej: "take 3 cmd \<noteq> ''EXE'' \<Longrightarrow> \<not> has_prefix ''EXEJ '' cmd"
  by (auto simp: has_prefix_iff)

lemma HandleTransfer_put:
  "take 3 cmd = ''PUT'' \<Longrightarrow> 4 \<le> length cmd \<Longrightarrow>
    HandleTransfer e md5 m cn cmd inc s = Some (transfer_put e md5 m cn cmd inc s)"
  by (simp add: HandleTransfer_def not_exej)

lemma HandleTransfer_get:
  "take 3 cmd = ''GET'' \<Longrightarrow> 4 \<le> length cmd \<Longrightarrow>
    HandleTransfer e md5 m cn cmd inc s = transfer_get e md5 m cn cmd s"
  by (simp add: HandleTransfer_def not_exej)

text \<open>C10: an upload is all or nothing: a PUT always returns, and then either the target holds exactly
  the announced number of bytes and the client was told OK with their MD5, or the target is as it
  was and the last thing the client was told is an error.  Only the target, its temporary file
  and the audit log are touched, and no temporary file is left behind.\<close>
theorem put_all_or_nothing:
  assumes "take 3 cmd = ''PUT''" "4 \<le> length cmd" "put_args cmd = (n, p0)"
    and "p = expandTransferPath m p0 (effectiveTransferUser m)"
    and "w_audit_path (sv_w s) \<notin> {p, tmp_name m p}"
  shows "\<exists>s'. HandleTransfer e md5 m (Some c) cmd inc s = Some s' \<and> put_promise md5 c p n inc s s' \<and>
    same_but {p, tmp_name m p, w_audit_path (sv_w s)} (sv_fs s) (sv_fs s') \<and>
    file_text (sv_fs s') (tmp_name m p) \<in> {None, file_text (sv_fs s) (tmp_name m p)}"
proof -
  obtain b s1 where g: "gate (policyPathDenied e (Some c) p) s = (b, s1)"
    by (cases "gate (policyPathDenied e (Some c) p) s")
  then obtain w where w: "policyPathDenied e (Some c) p (sv_w s) = (b, w)" "s1 = s\<lparr>sv_w := w\<rparr>"
    by (auto dest: gate_sel)
  note F = policyPathDenied_frame[OF w(1)]
  let ?s' = "if b then s1 else receive_put md5 m (Some c) p n inc s1"
  have h: "HandleTransfer e md5 m (Some c) cmd inc s = Some ?s'"
    using assms(3) g by (simp add: HandleTransfer_put[OF assms(1,2)] transfer_put_def flip: assms(4))
  show ?thesis
  proof (cases b)
    case True
    obtain t where t: "w_sent w c = w_sent (sv_w s) c @ [''ERROR '' @ t]" using F(4)[OF True] by blast
    have "file_text (w_fs w) q = file_text (sv_fs s) q" if "q \<in> {p, tmp_name m p}" for q
      using same_but_text[OF F(1), of q] that assms(5) by auto
    with h True t w F(1) show ?thesis
      by (auto simp: put_promise_def Let_def intro: same_but_mono)
  next
    case False
    note P = receive_put_promise[OF refl, where s = s1 and c = c and ?md5.0 = md5 and m = m and p = p and n = n and inc = inc]
    have "sv_fs s1 = sv_fs s" using F(3)[OF False] w(2) by simp
    with h False P show ?thesis
      by (auto simp: put_promise_def Let_def intro: same_but_mono)
  qed
qed

text \<open>the two commands that end the daemon: a GET or EXEC verb of four bytes is sliced out of
  range, and nothing recovers; every other command line returns.\<close>
theorem HandleTransfer_panics:
  "HandleTransfer e md5 m cn cmd inc s = None \<longleftrightarrow> length cmd = 4 \<and> take 3 cmd \<in> {''GET'', ''EXE''}"
proof -
  have "has_prefix ''EXEJ '' cmd \<Longrightarrow> 5 \<le> length cmd" by (auto simp: has_prefix_iff)
  moreover have "transfer_get e md5 m cn cmd s = None \<longleftrightarrow> length cmd < 5"
    by (simp add: transfer_get_def get_arg_def Let_def)
  moreover have "transfer_exec e m cn cmd s = None \<longleftrightarrow> length cmd < 5"
    by (simp add: transfer_exec_def exec_arg_def Let_def)
  ultimately show ?thesis by (auto simp: HandleTransfer_def split: prod.split)
qed

section \<open>The client\<close>

text \<open>Results are the number of bytes and the error text.  What the daemon sends is one stream.\<close>
type_synonym xfer_result = "int \<times> string option"

definition upload_cmd :: "bytes \<Rightarrow> path \<Rightarrow> path \<Rightarrow> string" where
  "upload_cmd d localPath remotePath =
     ''PUT '' @ show_nat (length d) @ '' '' @ (if remotePath = '''' then base_path localPath else remotePath) @ [NL]"

text \<open>\<open>SendFile\<close> from the daemon's answers on: None is the slice \<^verbatim>\<open>resp[:5]\<close> of a shorter line.\<close>
definition SendFile_answers :: "hash \<Rightarrow> bytes \<Rightarrow> string \<Rightarrow> xfer_result option" where
  "SendFile_answers md5 d stream =
     (case cut NL stream of None \<Rightarrow> Some (0, Some (''server not ready: '' @ stream))
      | Some (l1, rest) \<Rightarrow>
          let resp = l1 @ [NL] in
          if length resp < 5 then None
          else if take 5 resp \<noteq> ''READY'' then Some (0, Some (''server not ready: '' @ resp))
          else (let n = int (length d) in
            case cut NL rest of None \<Rightarrow> Some (n, Some ''no confirmation'')
            | Some (l2, _) \<Rightarrow>
                let resp = l2 @ [NL]; flds = go_fields resp in
                Some (if length resp < 2 \<or> take 2 resp \<noteq> ''OK'' then (n, Some (''transfer failed: '' @ trim_space resp))
                 else if 3 \<le> length flds \<and> flds ! 2 \<noteq> hex_encode (md5 d) then
                   (n, Some (''checksum mismatch: local='' @ hex_encode (md5 d) @ '' remote='' @ flds ! 2))
                 else (n, None))))"

definition download_cmd :: "path \<Rightarrow> string" where
  "download_cmd remotePath = ''GET '' @ remotePath @ [NL]"

text \<open>The checksum: of the SIZE line, or a trailing line of 32 bytes.\<close>
definition download_sum :: "string \<Rightarrow> string \<Rightarrow> string" where
  "download_sum resp trailer =
     (if 3 \<le> length (go_fields resp) \<and> go_fields resp ! 2 \<noteq> '''' then go_fields resp ! 2
      else let t = trim_space (fst (read_line trailer)) in if length t = 32 then t else '''')"

text \<open>Store \<open>n\<close> bytes of the stream behind the answer line \<open>resp\<close>.\<close>
definition store_download :: "hash \<Rightarrow> nat \<Rightarrow> path \<Rightarrow> string \<Rightarrow> int \<Rightarrow> bytes \<Rightarrow> fs \<Rightarrow> xfer_result \<times> fs" where
  "store_download md5 pid localPath resp n rest f =
     (let tmp = localPath @ ''.vssh.tmp.'' @ show_nat pid;
          got = take (nat n) rest;
          sum = download_sum resp (drop (nat n) rest)
      in case write_file tmp '''' f of
           (Some er, _) \<Rightarrow> ((0, Some (io_text (''open '' @ tmp) er)), f)
         | (None, f1) \<Rightarrow>
             if int (length got) < n then ((int (length got), Some ''unexpected EOF''), remove_file tmp f1)
             else if sum \<noteq> '''' \<and> hex_encode (md5 got) \<noteq> sum then
               ((int (length got), Some (''checksum mismatch: remote='' @ sum @ '' local='' @ hex_encode (md5 got))),
                remove_file tmp (put_file tmp got f1))
             else (case rename_file tmp localPath (put_file tmp got f1) of
                 (Some er, _) \<Rightarrow> ((int (length got), Some (io_text (''rename '' @ tmp @ '' '' @ localPath) er)),
                                remove_file tmp (put_file tmp got f1))
               | (None, f3) \<Rightarrow> ((int (length got), None), f3)))"

text \<open>\<open>RecvFile\<close> from the daemon's answer on, with the client's files.\<close>
definition RecvFile_answers :: "hash \<Rightarrow> nat \<Rightarrow> path \<Rightarrow> path \<Rightarrow> string \<Rightarrow> fs \<Rightarrow> xfer_result \<times> fs" where
  "RecvFile_answers md5 pid remotePath localPath stream f =
     (case cut NL stream of None \<Rightarrow> ((0, Some ''EOF''), f)
      | Some (l1, rest) \<Rightarrow>
          let resp = l1 @ [NL]; vs = sscanf [SLit ''SIZE'', SSpace, SInt] resp in
          if vs = [] then ((0, Some (''invalid response: '' @ trim_space resp)), f)
          else store_download md5 pid (if localPath = '''' then base_path remotePath else localPath) resp (arg_int vs 0) rest f)"

text \<open>One client call against one daemon handler: the stream is what the handler wrote.\<close>
definition answers :: "conn \<Rightarrow> srv \<Rightarrow> srv \<Rightarrow> string" where
  "answers c s s' = concat (drop (length (w_sent (sv_w s) c)) (w_sent (sv_w s') c))"

definition SendFile :: "denv \<Rightarrow> hash \<Rightarrow> machine \<Rightarrow> conn \<Rightarrow> bytes \<Rightarrow> path \<Rightarrow> path \<Rightarrow> srv \<Rightarrow> (xfer_result option \<times> srv) option" where
  "SendFile e md5 m c d localPath remotePath s =
     map_option (\<lambda>s'. (SendFile_answers md5 d (answers c s s'), s'))
       (HandleTransfer e md5 m (Some c) (upload_cmd d localPath remotePath)
          \<lparr>in_data = d, in_fault = None, in_werr = None\<rparr> s)"

definition RecvFile :: "denv \<Rightarrow> hash \<Rightarrow> machine \<Rightarrow> nat \<Rightarrow> conn \<Rightarrow> path \<Rightarrow> path \<Rightarrow> fs \<Rightarrow> srv \<Rightarrow> ((xfer_result \<times> fs) \<times> srv) option" where
  "RecvFile e md5 m pid c remotePath localPath f s =
     map_option (\<lambda>s'. (RecvFile_answers md5 pid remotePath localPath (answers c s s') f, s'))
       (HandleTransfer e md5 m (Some c) (download_cmd remotePath) \<lparr>in_data = '''', in_fault = None, in_werr = None\<rparr> s)"

text \<open>A download is all or nothing as well: without an error the local file is the received data
  and an announced checksum is the MD5 of it; with an error the local file is as it was.\<close>
lemma store_download_promise:
  assumes "store_download md5 pid lp resp n rest f = ((k, er), f')"
  shows "(er \<noteq> None \<longrightarrow> file_text f' lp = file_text f lp) \<and>
    (er = None \<longrightarrow> file_text f' lp = Some (take (nat n) rest) \<and> n \<le> int (length (take (nat n) rest)) \<and>
      download_sum resp (drop (nat n) rest) \<in> {'''', hex_encode (md5 (take (nat n) rest))})"
proof -
  let ?tmp = "lp @ ''.vssh.tmp.'' @ show_nat pid" and ?got = "take (nat n) rest"
  have tmp: "?tmp \<noteq> lp" "lp \<noteq> ?tmp" by simp_all
  obtain r f1 where w: "write_file ?tmp '''' f = (r, f1)" by (cases "write_file ?tmp '''' f")
  then have w1: "file_text f1 lp = file_text f lp"
    using tmp by (auto simp: write_file_def fs_simps split: option.splits)
  obtain r3 f3 where rn: "rename_file ?tmp lp (put_file ?tmp ?got f1) = (r3, f3)"
    by (cases "rename_file ?tmp lp (put_file ?tmp ?got f1)")
  have r: "r3 = None \<Longrightarrow> file_text f3 lp = Some ?got"
    using rename_file_cases[OF rn] by (auto simp: fs_simps)
  have wt: "r \<noteq> None \<Longrightarrow> f1 = f" using w by (auto simp: write_file_def split: option.splits)
  show ?thesis
    using assms w1 r tmp unfolding store_download_def Let_def w prod.case rn
    by (cases r; cases r3) (auto simp: fs_simps split: if_splits)
qed

section \<open>Round trips\<close>

lemma show_nat_hd: "\<not> is_space (hd (show_nat n))" "NL \<notin> set (show_nat n)"
proof -
  have d: "\<forall>x \<in> set (show_nat n). is_digit x" using show_nat_digits[of n] by (simp add: list_all_iff)
  have ns: "is_digit x \<Longrightarrow> \<not> is_space x \<and> x \<noteq> NL" for x by (auto simp: is_digit_def is_space_def)
  show "\<not> is_space (hd (show_nat n))" using d ns by (cases "show_nat n") auto
  show "NL \<notin> set (show_nat n)" using d ns by blast
qed

lemma is_word_hd: "is_word w \<Longrightarrow> w \<noteq> [] \<and> \<not> is_space (hd w)"
  by (cases w) (auto simp: is_word_def)

lemma put_args_upload:
  assumes "is_word w" "int (length d) \<le> max_int64" "rest = [] \<or> (\<exists>r. rest = SP # r)"
  shows "put_args (upload_cmd d lp (w @ rest)) = (int (length d), w)"
proof -
  let ?n = "show_nat (length d)" and ?t = "SP # w @ rest @ [NL]"
  have w: "w \<noteq> []" "\<not> is_space (hd w)" using is_word_hd[OF assms(1)] by simp_all
  have c: "upload_cmd d lp (w @ rest) = ''PUT'' @ SP # ?n @ ?t" using w by (simp add: upload_cmd_def)
  have s1: "sscanf (SLit ''PUT'' # f) (''PUT'' @ x) = sscanf f x" for f x by simp
  have s2: "sscanf (SSpace # f) (SP # ?n @ ?t) = sscanf f (?n @ ?t)" for f
    by (rule sscanf_space) (simp_all add: show_nat_hd)
  have i: "scan_int (?n @ ?t) = Some (int (length d), ?t)"
    by (rule scan_int_nat[OF assms(2)]) (simp add: is_digit_def)
  have s3: "sscanf (SSpace # f) ?t = sscanf f (w @ rest @ [NL])" for f
    by (rule sscanf_space) (simp_all add: w)
  have st: "scan_str (w @ rest @ [NL]) = Some (w, rest @ [NL])"
    using assms(3) by (intro scan_str_word[OF assms(1)]) (auto simp: is_space_def)
  show ?thesis
    unfolding put_args_def c s1 s2 sscanf.simps(4) i option.case prod.case s3 sscanf.simps(5) st
    by (simp add: arg_int_def arg_str_def Let_def)
qed

lemma upload_verb: "take 3 (upload_cmd d lp rp) = ''PUT''" "4 \<le> length (upload_cmd d lp rp)"
  by (simp_all add: upload_cmd_def)

text \<open>The gate lets the path through and leaves files and replies alone.\<close>
lemma gate_path_ok:
  assumes "\<not> fst (policyPathDenied e cn p (sv_w s))"
  shows "\<exists>s1. gate (policyPathDenied e cn p) s = (False, s1) \<and> sv_fs s1 = sv_fs s \<and> w_sent (sv_w s1) = w_sent (sv_w s)"
proof -
  obtain w1 where w: "policyPathDenied e cn p (sv_w s) = (False, w1)"
    using assms by (cases "policyPathDenied e cn p (sv_w s)") auto
  from policyPathDenied_frame(3)[OF w] show ?thesis by (simp add: gate_def w)
qed

lemma expand_plain: "\<not> has_prefix ''~'' p \<Longrightarrow> expandTransferPath m p u = p"
  by (cases p) (auto simp: expandTransferPath_def)

lemma cut_lines: "NL \<notin> set a \<Longrightarrow> cut NL ((a @ [NL]) @ b) = Some (a, b)"
  by (simp add: cut_append)

lemma cut_snoc: "NL \<notin> set a \<Longrightarrow> cut NL (a @ [NL]) = Some (a, [])"
  by (simp add: cut_append)

lemma hex_word: "is_word x \<Longrightarrow> is_word y \<Longrightarrow> go_fields (''OK '' @ x @ '' '' @ y @ [NL]) = [''OK'', x, y]"
proof -
  assume x: "is_word x" and y: "is_word y"
  have sp: "is_space SP" "is_space NL" by (simp_all add: is_space_def)
  have e: "''OK '' @ x @ '' '' @ y @ [NL] = ''OK'' @ SP # x @ SP # y @ [NL]" by simp
  have "go_fields (''OK'' @ SP # x @ SP # y @ [NL]) = go_fields ''OK'' @ go_fields x @ go_fields y"
    using sp by (simp only: fields_append_space fields_snoc_space fields_Nil append_Nil2)
  moreover have "is_word ''OK''" by (simp add: is_word_def is_space_def)
  ultimately show ?thesis using x y by (simp only: e is_word_fields append.simps)
qed

lemma SendFile_answers_ok:
  assumes "cut NL stream = Some (l1, rest)" "take 5 (l1 @ [NL]) = ''READY''" "4 \<le> length l1"
    and "cut NL rest = Some (l2, x)" "take 2 (l2 @ [NL]) = ''OK''" "2 \<le> length l2"
    and "go_fields (l2 @ [NL]) = [a, b, hex_encode (md5 d)]"
  shows "SendFile_answers md5 d stream = Some (int (length d), None)"
  using assms by (cases l2) (simp_all add: SendFile_answers_def Let_def)

lemma SendFile_stores:
  assumes "is_word w" "int (length d) \<le> max_int64" "rest = [] \<or> (\<exists>r. rest = SP # r)" "\<not> has_prefix ''~'' w"
    and "\<not> fst (policyPathDenied e (Some c) w (sv_w s))"
    and "fs_wrerr (sv_fs s) w = None" "fs_wrerr (sv_fs s) (tmp_name m w) = None"
    and "is_word (hex_encode (md5 d))"
  shows "\<exists>s'. SendFile e md5 m c d lp (w @ rest) s = Some (Some (int (length d), None), s') \<and>
    file_text (sv_fs s') w = Some d \<and> same_but {w, tmp_name m w} (sv_fs s) (sv_fs s')"
proof -
  let ?inc = "\<lparr>in_data = d, in_fault = None, in_werr = None\<rparr>" and ?tmp = "tmp_name m w"
  obtain s1 where g: "gate (policyPathDenied e (Some c) w) s = (False, s1)"
    and s1: "sv_fs s1 = sv_fs s" "w_sent (sv_w s1) = w_sent (sv_w s)"
    using gate_path_ok[OF assms(5)] by blast
  define s' where "s' = receive_put md5 m (Some c) w (int (length d)) ?inc s1"
  have h: "HandleTransfer e md5 m (Some c) (upload_cmd d lp (w @ rest)) ?inc s = Some s'"
    unfolding HandleTransfer_put[OF upload_verb] transfer_put_def put_args_upload[OF assms(1-3)] Let_def
      prod.case expand_plain[OF assms(4)] g s'_def by simp
  have cn: "copy_n ?inc (int (length d)) = (d, None)" by (simp add: copy_n_def)
  have fe: "file_text (put_file ?tmp d x) ?tmp = Some d" for x by (simp add: fs_simps)
  obtain x where x: "fs_files (put_file ?tmp d (put_file ?tmp '''' (sv_fs s))) ?tmp = Some x"
    by (simp add: put_file_def)
  define f3 where "f3 = snd (rename_file ?tmp w (put_file ?tmp d (put_file ?tmp '''' (sv_fs s))))"
  have rn: "rename_file ?tmp w (put_file ?tmp d (put_file ?tmp '''' (sv_fs s))) = (None, f3)"
    using assms(6) x by (simp add: f3_def rename_file_def fs_simps)
  let ?ok = "''OK '' @ show_nat (length d) @ '' '' @ hex_encode (md5 d) @ [NL]"
  have s': "s' = reply (Some c) ?ok (set_fs f3 (reply (Some c) (''READY'' @ [NL]) (set_fs (put_file ?tmp '''' (sv_fs s)) s1)))"
    unfolding s'_def receive_put_def Let_def s1 write_file_ok[OF assms(7)] prod.case option.case cn rn by simp
  have an: "answers c s s' = (''READY'' @ [NL]) @ (''OK '' @ show_nat (length d) @ '' '' @ hex_encode (md5 d)) @ [NL]"
    by (simp add: answers_def s' s1)
  have nl: "NL \<notin> set (''OK '' @ show_nat (length d) @ '' '' @ hex_encode (md5 d))" "NL \<notin> set ''READY''"
    using show_nat_hd(2) is_word_no_nl[OF assms(8)] by simp_all
  have wn: "is_word (show_nat (length d))"
    using show_nat_digits[of "length d"] by (auto simp: is_word_def list_all_iff is_digit_def is_space_def)
  have fl: "go_fields ?ok = [''OK'', show_nat (length d), hex_encode (md5 d)]" by (rule hex_word[OF wn assms(8)])
  have r: "SendFile_answers md5 d (answers c s s') = Some (int (length d), None)"
    unfolding an
  proof (rule SendFile_answers_ok[OF cut_lines[OF nl(2)] _ _ cut_snoc[OF nl(1)]])
    show "go_fields ((''OK '' @ show_nat (length d) @ '' '' @ hex_encode (md5 d)) @ [NL]) =
        [''OK'', show_nat (length d), hex_encode (md5 d)]" using fl by simp
  qed simp_all
  have t: "file_text f3 w = Some d" using rename_file_cases[OF rn] by (auto simp: fs_simps)
  have m: "same_but {w, ?tmp} f (put_file ?tmp x f)" for x f by (rule same_but_put) simp
  have "same_but {w, ?tmp} (put_file ?tmp d (put_file ?tmp '''' (sv_fs s))) f3"
    unfolding f3_def by (rule same_but_rename) simp_all
  from same_but_step[OF same_but_step[OF m m] this] have "same_but {w, ?tmp} (sv_fs s) f3" .
  with t show ?thesis using h r by (simp add: SendFile_def s')
qed

lemma SIZE_scan:
  assumes "int n \<le> max_int64"
  shows "sscanf [SLit ''SIZE'', SSpace, SInt] (''SIZE '' @ show_nat n @ [NL]) = [VInt (int n)]"
proof -
  have s1: "sscanf (SLit ''SIZE'' # f) (''SIZE '' @ x) = sscanf f (SP # x)" for f x by simp
  have s2: "sscanf (SSpace # f) (SP # show_nat n @ [NL]) = sscanf f (show_nat n @ [NL])" for f
    by (rule sscanf_space) (simp_all add: show_nat_hd)
  have i: "scan_int (show_nat n @ [NL]) = Some (int n, [NL])"
    by (rule scan_int_nat[OF assms]) (simp add: is_digit_def)
  show ?thesis unfolding s1 s2 sscanf.simps(4) i by simp
qed

lemma SIZE_fields: "go_fields (''SIZE '' @ show_nat n @ [NL]) = [''SIZE'', show_nat n]"
proof -
  have sp: "is_space SP" "is_space NL" "is_word ''SIZE''" by (simp_all add: is_space_def is_word_def)
  have "go_fields (''SIZE'' @ SP # show_nat n @ [NL]) = go_fields ''SIZE'' @ go_fields (show_nat n @ [NL])"
    by (rule fields_append_space[OF sp(1)])
  also have "\<dots> = [''SIZE'', show_nat n]"
    by (simp only: fields_snoc_space[OF sp(2)] is_word_fields[OF sp(3)] is_word_fields[OF is_word_digits] append.simps)
  finally show ?thesis by simp
qed

lemma get_verb: "take 3 (download_cmd rp) = ''GET''" "4 \<le> length (download_cmd rp)" "get_arg (download_cmd rp) = Some rp"
  by (simp_all add: download_cmd_def get_arg_def butlast_append)

lemma RecvFile_answers_ok:
  "cut NL stream = Some (l1, rest) \<Longrightarrow> sscanf [SLit ''SIZE'', SSpace, SInt] (l1 @ [NL]) = [VInt n] \<Longrightarrow> lp \<noteq> '''' \<Longrightarrow>
    RecvFile_answers md5 pid rp lp stream f = store_download md5 pid lp (l1 @ [NL]) n rest f"
  by (simp add: RecvFile_answers_def Let_def arg_int_def)

lemma RecvFile_gets:
  assumes "\<not> fst (policyPathDenied e (Some c) p (sv_w s))" "p = expandTransferPath m rp (effectiveTransferUser m)"
    and "read_file (sv_fs s) p = Inr d" "int (length d) \<le> max_int64"
    and "is_word (hex_encode (md5 d))" "length (hex_encode (md5 d)) = 32"
    and "lp \<noteq> ''''" "fs_wrerr f lp = None" "fs_wrerr f (lp @ ''.vssh.tmp.'' @ show_nat pid) = None"
  shows "\<exists>f' s'. RecvFile e md5 m pid c rp lp f s = Some (((int (length d), None), f'), s') \<and>
    file_text f' lp = Some d \<and> sv_fs s' = sv_fs s"
proof -
  let ?inc = "\<lparr>in_data = '''', in_fault = None, in_werr = None\<rparr>" and ?tmp = "lp @ ''.vssh.tmp.'' @ show_nat pid"
  let ?size = "''SIZE '' @ show_nat (length d)" and ?sum = "hex_encode (md5 d)"
  obtain s1 where g: "gate (policyPathDenied e (Some c) p) s = (False, s1)"
    and s1: "sv_fs s1 = sv_fs s" "w_sent (sv_w s1) = w_sent (sv_w s)"
    using gate_path_ok[OF assms(1)] by blast
  define s' where "s' = reply (Some c) (?sum @ [NL]) (reply (Some c) d (reply (Some c) (?size @ [NL]) s1))"
  have h: "HandleTransfer e md5 m (Some c) (download_cmd rp) ?inc s = Some s'"
    unfolding HandleTransfer_get[OF get_verb(1,2)] transfer_get_def get_verb(3) option.case Let_def
      assms(2)[symmetric] g prod.case s1 assms(3) s'_def by simp
  have an: "answers c s s' = (?size @ [NL]) @ d @ ?sum @ [NL]"
    by (simp add: answers_def s'_def s1)
  have nl: "NL \<notin> set ?size" using show_nat_hd(2) by simp
  have c1: "cut NL ((?size @ [NL]) @ d @ ?sum @ [NL]) = Some (?size, d @ ?sum @ [NL])" by (rule cut_lines[OF nl])
  have sz: "(?size @ [NL]) = ''SIZE '' @ show_nat (length d) @ [NL]" by simp
  have tr: "trim_space (fst (read_line (?sum @ [NL]))) = ?sum"
    using cut_snoc[OF is_word_no_nl[OF assms(5)]] is_word_trim_line[OF assms(5)] by (simp add: read_line_def)
  have ds: "download_sum (?size @ [NL]) (?sum @ [NL]) = ?sum"
    unfolding download_sum_def Let_def tr sz SIZE_fields using assms(6) by simp
  obtain f3 where rn: "rename_file ?tmp lp (put_file ?tmp d (put_file ?tmp '''' f)) = (None, f3)"
    using assms(8) by (auto simp: rename_file_def fs_simps) (simp add: put_file_def)
  have st: "store_download md5 pid lp (?size @ [NL]) (int (length d)) (d @ ?sum @ [NL]) f = ((int (length d), None), f3)"
    unfolding store_download_def Let_def write_file_ok[OF assms(9)] prod.case option.case
    using ds rn by simp
  have f3: "file_text f3 lp = Some d" using rename_file_cases[OF rn] by (auto simp: fs_simps)
  have "RecvFile_answers md5 pid rp lp (answers c s s') f = ((int (length d), None), f3)"
    unfolding an RecvFile_answers_ok[OF c1 SIZE_scan[OF assms(4), folded sz] assms(7)] by (rule st)
  then show ?thesis using h f3 s1 by (auto simp: RecvFile_def s'_def)
qed

lemma hex_encode_word: "s \<noteq> [] \<Longrightarrow> is_word (hex_encode s) \<and> length (hex_encode s) = 2 * length s"
proof -
  assume "s \<noteq> []"
  then have "hex_encode s \<noteq> []" using hex_encode_length[of s] by auto
  moreover have "(48 :: nat) \<le> of_char c \<Longrightarrow> \<not> is_space c" for c by (auto simp: is_space_def)
  ultimately show ?thesis using hex_encode_range[of s] by (auto simp: is_word_def list_all_iff hex_encode_length)
qed

text \<open>C12: what is uploaded can be downloaded.  For a remote path that is one word (without any white
  space) and does not begin with a tilde, and where the policy and the file systems let the writes
  through: a file that is sent is reported as sent whole and stored under that path, and a download of
  the path over any connection that may read it reports success and stores the same bytes.  For a path
  with a blank it fails (\<open>upload_cut_at_blank\<close>).\<close>
theorem send_then_receive:
  assumes "is_word p" "\<not> has_prefix ''~'' p" "int (length d) \<le> max_int64"
    and "\<not> fst (policyPathDenied e (Some c) p (sv_w s))"
    and "fs_wrerr (sv_fs s) p = None" "fs_wrerr (sv_fs s) (tmp_name m p) = None" "fs_rderr (sv_fs s) p = None"
    and "length (md5 d) = 16"
    and "lp \<noteq> ''''" "fs_wrerr f lp = None" "fs_wrerr f (lp @ ''.vssh.tmp.'' @ show_nat pid) = None"
  shows "\<exists>s'. SendFile e md5 m c d src p s = Some (Some (int (length d), None), s') \<and> file_text (sv_fs s') p = Some d \<and>
    (\<forall>c2. fst (policyPathDenied e (Some c2) p (sv_w s')) \<or>
      (\<exists>f' s''. RecvFile e md5 m pid c2 p lp f s' = Some (((int (length d), None), f'), s'') \<and> file_text f' lp = Some d))"
proof -
  have hx: "is_word (hex_encode (md5 d))" "length (hex_encode (md5 d)) = 32"
    using hex_encode_word[of "md5 d"] assms(8) by fastforce+
  obtain s' where s': "SendFile e md5 m c d src (p @ '''') s = Some (Some (int (length d), None), s')"
    "file_text (sv_fs s') p = Some d" "same_but {p, tmp_name m p} (sv_fs s) (sv_fs s')"
    using SendFile_stores[where ?md5.0 = md5 and rest = "''''" and lp = src, OF assms(1,3) _ assms(2,4-6) hx(1)] by blast
  have rd: "read_file (sv_fs s') p = Inr d"
    using s'(2) same_but_errs[OF s'(3)] assms(7) by (simp add: read_file_text)
  have "\<exists>f' s''. RecvFile e md5 m pid c2 p lp f s' = Some (((int (length d), None), f'), s'') \<and> file_text f' lp = Some d"
    if "\<not> fst (policyPathDenied e (Some c2) p (sv_w s'))" for c2
    using RecvFile_gets[where ?md5.0 = md5, OF that expand_plain[OF assms(2), symmetric] rd assms(3) hx assms(9-11)] by blast
  with s' show ?thesis by (simp del: not_None_eq) blast
qed

text \<open>an upload to a path with a blank goes astray: the daemon reads the path up to the first
  blank, stores the file there and confirms it, so \<open>SendFile\<close> reports success, but the named
  path is as it was.\<close>
theorem upload_cut_at_blank:
  assumes "is_word p" "\<not> has_prefix ''~'' p" "int (length d) \<le> max_int64"
    and "\<not> fst (policyPathDenied e (Some c) p (sv_w s))"
    and "fs_wrerr (sv_fs s) p = None" "fs_wrerr (sv_fs s) (tmp_name m p) = None"
    and "length (md5 d) = 16" "p @ '' '' @ rem \<noteq> tmp_name m p"
  shows "\<exists>s'. SendFile e md5 m c d src (p @ '' '' @ rem) s = Some (Some (int (length d), None), s') \<and>
    file_text (sv_fs s') p = Some d \<and>
    file_text (sv_fs s') (p @ '' '' @ rem) = file_text (sv_fs s) (p @ '' '' @ rem)"
proof -
  have hx: "is_word (hex_encode (md5 d))" using hex_encode_word[of "md5 d"] assms(7) by fastforce
  obtain s' where s': "SendFile e md5 m c d src (p @ '' '' @ rem) s = Some (Some (int (length d), None), s')"
    "file_text (sv_fs s') p = Some d" "same_but {p, tmp_name m p} (sv_fs s) (sv_fs s')"
    using SendFile_stores[where ?md5.0 = md5 and rest = "'' '' @ rem" and lp = src, OF assms(1,3) _ assms(2,4-6) hx] by auto
  with same_but_text[OF s'(3), of "p @ '' '' @ rem"] assms(8) show ?thesis by auto
qed

section \<open>A concrete daemon\<close>

definition machine0 :: machine where
  "machine0 = \<lparr>m_root = False, m_env_user = '''', m_home_dirs = None, m_syno_dirs = None, m_lookup = (\<lambda>_. None),
     m_home = ''/home/u'', m_zsh = False, m_login_path = (\<lambda>_ _. None), m_run = (\<lambda>_ a. (last a, None)),
     m_run_sep = (\<lambda>_ a. (last a, '''', None, 1)), m_pid = 5, m_alloc = 1000000\<rparr>"

definition srv_of :: "pworld \<Rightarrow> srv" where
  "srv_of w = \<lparr>sv_w = w, sv_login = (\<lambda>_. None), sv_sessions = (\<lambda>_. None), sv_jobs = (\<lambda>_. None), sv_ran = []\<rparr>"

definition md5_0 :: hash where "md5_0 d = replicate 16 CHR ''m''"

lemma srv_of_sel [simp]: "sv_w (srv_of w) = w" "sv_ran (srv_of w) = []"
  by (simp_all add: srv_of_def)

lemma world0_open [simp]: "connIdentity world0 cn = ('''', '''')" "connPolicyName world0 cn = ''''"
  by (auto simp: connIdentity_def connPolicyName_def world0_def split: option.split)

lemma world0_paths_open [simp]: "policyPathDenied e cn p world0 = (False, world0)"
  by (simp add: policyPathDenied_def)

lemma demo_word: "is_word ''f.txt''" "\<not> has_prefix ''~'' ''f.txt''"
  by (simp_all add: is_word_def is_space_def)

lemma put_all_or_nothing_witness:
  "\<exists>s'. HandleTransfer env0 md5_0 machine0 (Some 7) (upload_cmd ''hi'' ''a'' ''f.txt'')
      \<lparr>in_data = ''h'', in_fault = None, in_werr = None\<rparr> (srv_of world0) = Some s' \<and>
    put_promise md5_0 7 ''f.txt'' 2 \<lparr>in_data = ''h'', in_fault = None, in_werr = None\<rparr> (srv_of world0) s'"
proof -
  have a: "put_args (upload_cmd ''hi'' ''a'' ''f.txt'') = (2, ''f.txt'')"
    using put_args_upload[OF demo_word(1), of "''hi''" "''''" "''a''"] by (simp add: max_int64_def)
  have p: "''f.txt'' = expandTransferPath machine0 ''f.txt'' (effectiveTransferUser machine0)"
    by (simp add: expand_plain)
  show ?thesis
    using put_all_or_nothing[OF upload_verb a p, of "srv_of world0" env0 md5_0 7] by (auto simp: tmp_name_def)
qed

lemma send_then_receive_witness:
  "\<exists>s'. SendFile env0 md5_0 machine0 7 ''hi'' ''a'' ''f.txt'' (srv_of world0) = Some (Some (2, None), s')"
  using send_then_receive[OF demo_word, of "''hi''" env0 7 "srv_of world0" machine0 md5_0 "''l''" empty_fs 3 "''a''"]
  by (auto simp: max_int64_def md5_0_def fs_simps)

lemma upload_cut_at_blank_witness:
  "\<exists>s'. SendFile env0 md5_0 machine0 7 ''hi'' ''a'' (''f.txt'' @ '' '' @ ''old'') (srv_of world0) = Some (Some (2, None), s') \<and>
    file_text (sv_fs s') ''f.txt'' = Some ''hi''"
  using upload_cut_at_blank[OF demo_word, of "''hi''" env0 7 "srv_of world0" machine0 md5_0 "''old''" "''a''"]
  by (auto simp: max_int64_def md5_0_def fs_simps tmp_name_def)

end
