(* ===== verification/Deploy.thy ===== *)
theory Deploy
  imports McpFacts FileTransfer
begin

text \<open>
  Files and binaries for a node (\<^verbatim>\<open>cmd/vssh/mcp_transfer.go\<close>, \<^verbatim>\<open>commands_transfer.go\<close>): the tools
  and the verbs \<open>put\<close>, \<open>get\<close> and \<open>deploy-binary\<close>, and how \<open>fwd\<close> reads its specification. What a daemon
  answers to an upload or a download is an argument; the client's half is that of \<open>FileTransfer\<close>. Where
  the client slices past the end of an answer the program ends: None.
\<close>

section \<open>Uploads and downloads\<close>

record peer_env =
  pe_md5 :: hash
  pe_pid :: nat
  pe_put :: "string \<Rightarrow> int \<Rightarrow> string \<Rightarrow> bytes \<Rightarrow> string + string"   \<comment> \<open>no connection, or the answers to a command line and the data\<close>
  pe_get :: "string \<Rightarrow> int \<Rightarrow> string \<Rightarrow> string + string"

definition send_file ::
  "peer_env \<Rightarrow> ctl \<Rightarrow> string \<Rightarrow> int \<Rightarrow> path \<Rightarrow> path \<Rightarrow> mstate \<Rightarrow> xfer_result option \<times> mstate" where
  "send_file pe ct host port localPath remotePath s =
     (case read_file (ms_fs s) localPath of
        Inl e \<Rightarrow> (Some (0, Some (ct_io_err ct e)), s)
      | Inr d \<Rightarrow>
          (case pe_put pe host port (upload_cmd d localPath remotePath) d of
             Inl e \<Rightarrow> (Some (0, Some e), s)
           | Inr stream \<Rightarrow> (SendFile_answers (pe_md5 pe) d stream, log_call (PutOn host port remotePath d) s)))"

definition recv_file ::
  "peer_env \<Rightarrow> string \<Rightarrow> int \<Rightarrow> path \<Rightarrow> path \<Rightarrow> mstate \<Rightarrow> xfer_result \<times> mstate" where
  "recv_file pe host port remotePath localPath s =
     (case pe_get pe host port (download_cmd remotePath) of
        Inl e \<Rightarrow> ((0, Some e), s)
      | Inr stream \<Rightarrow>
          (let (r, f) = RecvFile_answers (pe_md5 pe) (pe_pid pe) remotePath localPath stream (ms_fs s)
           in (r, log_call (GetOn host port remotePath) (s\<lparr>ms_fs := f\<rparr>))))"

definition transferErr :: "string \<Rightarrow> string \<Rightarrow> string \<Rightarrow> json" where
  "transferErr tool code msg = json_map [(''success'', JBool False), (''tool'', JStr tool), (''error'', tool_error code msg)]"

definition toolPut :: "peer_env \<Rightarrow> ctl \<Rightarrow> front \<Rightarrow> json \<Rightarrow> mstate \<Rightarrow> json option \<times> mstate" where
  "toolPut pe ct fr args s =
     (let target = getString args ''target''; loc = getString args ''local_path''; rem = getString args ''remote_path'' in
      if target = '''' \<or> loc = '''' \<or> rem = '''' then
        (Some (transferErr ''vssh_put'' ''missing_argument'' ''target, local_path, and remote_path are required''), s)
      else
        let (host, s1) = reach fr target s; (r, s2) = send_file pe ct host (fr_port fr) loc rem s1
        in (map_option (\<lambda>(n, err). case err of
              Some e \<Rightarrow> transferErr ''vssh_put'' ''transfer_failed'' e
            | None \<Rightarrow> ok_json ''vssh_put'' [(''target'', JStr target), (''local_path'', JStr loc), (''remote_path'', JStr rem),
                (''bytes'', json_int n)]) r, s2))"

definition toolGet :: "peer_env \<Rightarrow> front \<Rightarrow> json \<Rightarrow> mstate \<Rightarrow> json \<times> mstate" where
  "toolGet pe fr args s =
     (let target = getString args ''target''; rem = getString args ''remote_path''; loc = getString args ''local_path'' in
      if target = '''' \<or> rem = '''' \<or> loc = '''' then
        (transferErr ''vssh_get'' ''missing_argument'' ''target, remote_path, and local_path are required'', s)
      else
        let (host, s1) = reach fr target s; ((n, err), s2) = recv_file pe host (fr_port fr) rem loc s1
        in (case err of
              Some e \<Rightarrow> transferErr ''vssh_get'' ''transfer_failed'' e
            | None \<Rightarrow> ok_json ''vssh_get'' [(''target'', JStr target), (''remote_path'', JStr rem), (''local_path'', JStr loc),
                (''bytes'', json_int n)], s2))"

section \<open>Deploying a binary\<close>

definition shellQuote :: "string \<Rightarrow> string" where
  "shellQuote s = [CHR 0x27] @ replace_all [CHR 0x27] [CHR 0x27, CHR 0x5C, CHR 0x27, CHR 0x27] s @ [CHR 0x27]"

record deploy_result =
  dr_success :: bool
  dr_host :: string
  dr_path :: string
  dr_service :: string
  dr_phase :: string
  dr_verify :: string
  dr_code :: string
  dr_error :: string

definition deploy_json :: "deploy_result \<Rightarrow> json" where
  "deploy_json r = JObj ([(''success'', JBool (dr_success r)), (''host'', JStr (dr_host r)), (''remote_path'', JStr (dr_path r))]
     @ omit_empty ''service'' (dr_service r) @ [(''phase'', JStr (dr_phase r))] @ omit_empty ''verify_output'' (dr_verify r)
     @ omit_empty ''error_code'' (dr_code r) @ omit_empty ''error'' (dr_error r))"

definition stage_path :: "nat \<Rightarrow> string \<Rightarrow> path" where
  "stage_path pid remotePath = ''/tmp/vssh-deploy-'' @ show_nat pid @ ''-''
     @ (case last_index (CHR ''/'') remotePath of None \<Rightarrow> remotePath | Some i \<Rightarrow> drop (Suc i) remotePath)"

definition install_command :: "path \<Rightarrow> path \<Rightarrow> string \<Rightarrow> string \<Rightarrow> string" where
  "install_command stage remotePath mode service =
     ''sudo cp '' @ shellQuote stage @ '' '' @ shellQuote remotePath @ ''.new && sudo chmod '' @ mode @ '' '' @ shellQuote remotePath
     @ ''.new && sudo mv -f '' @ shellQuote remotePath @ ''.new '' @ shellQuote remotePath @ '' && rm -f '' @ shellQuote stage
     @ (if service = '''' then ''''
        else '' && (sudo systemctl restart '' @ shellQuote service @ '' 2>/dev/null || sudo launchctl kickstart -k gui/$(id -u)/''
          @ shellQuote service @ '') && sleep 2'')"

definition or_mode :: "string \<Rightarrow> string" where "or_mode mode = (if mode = '''' then ''0755'' else mode)"

definition verify_command :: "path \<Rightarrow> string \<Rightarrow> string" where
  "verify_command remotePath verify = (if verify = '''' then remotePath @ '' --version'' else verify)"

definition runDeployBinary ::
  "peer_env \<Rightarrow> ctl \<Rightarrow> front \<Rightarrow> path \<Rightarrow> string \<Rightarrow> int \<Rightarrow> path \<Rightarrow> string \<Rightarrow> string \<Rightarrow> string \<Rightarrow> mstate \<Rightarrow> deploy_result option \<times> mstate" where
  "runDeployBinary pe ct fr loc host port remotePath service mode0 verify s =
     (let mode = or_mode mode0;
          (resolved, s1) = reach fr host s;
          stage = stage_path (pe_pid pe) remotePath;
          r0 = \<lparr>dr_success = False, dr_host = host, dr_path = remotePath, dr_service = service, dr_phase = '''', dr_verify = '''',
                dr_code = '''', dr_error = ''''\<rparr>
      in case send_file pe ct resolved port loc stage s1 of
           (None, s2) \<Rightarrow> (None, s2)
         | (Some (_, Some e), s2) \<Rightarrow> (Some (r0\<lparr>dr_phase := ''upload'', dr_code := ''upload_failed'', dr_error := e\<rparr>), s2)
         | (Some (_, None), s2) \<Rightarrow>
             (let ((r, err), s3) = exec_on fr resolved port (install_command stage remotePath mode service) s2
              in case err of
                   Some e \<Rightarrow> (Some (r0\<lparr>dr_phase := ''install'', dr_code := er_code r, dr_error := e\<rparr>), s3)
                 | None \<Rightarrow>
                     if \<not> er_success r then
                       (Some (r0\<lparr>dr_phase := ''install'', dr_code := er_code r,
                          dr_error := trim_space (er_stdout r @ er_stderr r @ er_error r)\<rparr>), s3)
                     else
                       (let ((v, _), s4) = exec_on fr resolved port (verify_command remotePath verify) s3
                        in (Some (r0\<lparr>dr_success := True, dr_phase := ''ok'', dr_verify := trim_space (er_stdout v)\<rparr>), s4))))"

definition toolDeployBinary :: "peer_env \<Rightarrow> ctl \<Rightarrow> front \<Rightarrow> json \<Rightarrow> mstate \<Rightarrow> json option \<times> mstate" where
  "toolDeployBinary pe ct fr args s =
     (let target = getString args ''target''; loc = getString args ''local_path''; rem = getString args ''remote_path'' in
      if target = '''' \<or> loc = '''' \<or> rem = '''' then
        (Some (transferErr ''vssh_deploy_binary'' ''missing_argument'' ''target, local_path, and remote_path are required''), s)
      else
        let (host, port) = parseHostPort (fr_port fr) target;
            (r, s1) = runDeployBinary pe ct fr loc host port rem (getString args ''service'') (getString args ''mode'')
              (getString args ''verify'') s
        in (map_option (\<lambda>r. json_map
             ([(''success'', JBool (dr_success r)), (''tool'', JStr ''vssh_deploy_binary''), (''host'', JStr (dr_host r)),
               (''remote_path'', JStr (dr_path r)), (''phase'', JStr (dr_phase r))]
              @ omit_empty ''service'' (dr_service r) @ omit_empty ''verify_output'' (dr_verify r)
              @ (if dr_success r then [] else [(''error'', tool_error (dr_code r) (dr_error r))]))) r, s1))"

section \<open>The verbs\<close>

text \<open>What a verb prints on its two outputs, and its exit status.\<close>
record shown =
  sh_out :: string
  sh_err :: string
  sh_exit :: int

definition says :: "string \<Rightarrow> shown" where "says t = \<lparr>sh_out = t, sh_err = '''', sh_exit = 0\<rparr>"

definition fails :: "string \<Rightarrow> shown" where "fails t = \<lparr>sh_out = '''', sh_err = t @ [NL], sh_exit = 1\<rparr>"

definition error_line :: "string \<Rightarrow> shown" where "error_line e = fails (''Error: '' @ e)"

definition json_line :: "json \<Rightarrow> string" where "json_line v = marshal_indent 0 v @ [NL]"

text \<open>Host, port and path of \<open>host:path\<close>.\<close>
definition remote_part :: "front \<Rightarrow> string \<Rightarrow> (string \<times> int \<times> path) option" where
  "remote_part fr remote =
     (case last_index (CHR '':'') remote of None \<Rightarrow> None
      | Some i \<Rightarrow> (case parseHostPort (fr_port fr) (take i remote) of (h, p) \<Rightarrow> Some (h, p, drop (Suc i) remote)))"

definition cmdPut :: "peer_env \<Rightarrow> ctl \<Rightarrow> front \<Rightarrow> string list \<Rightarrow> mstate \<Rightarrow> shown option \<times> mstate" where
  "cmdPut pe ct fr args s =
     (case args of
        loc # remote # _ \<Rightarrow>
          (case remote_part fr remote of
             None \<Rightarrow> (Some (fails ''Error: remote path must be host:path format''), s)
           | Some (h, port, rem) \<Rightarrow>
               (let (host, s1) = reach fr h s; (r, s2) = send_file pe ct host port loc rem s1
                in (map_option (\<lambda>(n, err). case err of Some e \<Rightarrow> error_line e
                      | None \<Rightarrow> says (''Sent '' @ show_int n @ '' bytes'' @ [NL])) r, s2)))
      | _ \<Rightarrow> (Some (fails ''Usage: vssh put <local-file> <host[:port]:remote-path>''), s))"

definition cmdGet :: "peer_env \<Rightarrow> front \<Rightarrow> string list \<Rightarrow> mstate \<Rightarrow> shown \<times> mstate" where
  "cmdGet pe fr args s =
     (case args of
        remote # loc # _ \<Rightarrow>
          (case remote_part fr remote of
             None \<Rightarrow> (fails ''Error: remote path must be host:path format'', s)
           | Some (h, port, rem) \<Rightarrow>
               (let (host, s1) = reach fr h s; ((n, err), s2) = recv_file pe host port rem loc s1
                in (case err of Some e \<Rightarrow> error_line e
                      | None \<Rightarrow> says (''Received '' @ show_int n @ '' bytes'' @ [NL]), s2)))
      | _ \<Rightarrow> (fails ''Usage: vssh get <host[:port]:remote-path> <local-file>'', s))"

text \<open>Service, mode and check; a flag without a value is left out, and so is a word that is no flag.\<close>
fun deploy_flags :: "string list \<Rightarrow> string \<times> string \<times> string \<Rightarrow> string \<times> string \<times> string" where
  "deploy_flags [] x = x"
| "deploy_flags [a] x = x"
| "deploy_flags (a # v # rest) (service, mode, verify) =
     (if a = ''--service'' then deploy_flags rest (v, mode, verify)
      else if a = ''--mode'' then deploy_flags rest (service, v, verify)
      else if a = ''--verify'' then deploy_flags rest (service, mode, v)
      else deploy_flags (v # rest) (service, mode, verify))"

definition cmdDeployBinary :: "peer_env \<Rightarrow> ctl \<Rightarrow> front \<Rightarrow> string list \<Rightarrow> mstate \<Rightarrow> shown option \<times> mstate" where
  "cmdDeployBinary pe ct fr args s =
     (case args of
        loc # target # remotePath # rest \<Rightarrow>
          (let (host, port) = parseHostPort (fr_port fr) target;
               (service, mode, verify) = deploy_flags rest ('''', ''0755'', '''');
               (r, s1) = runDeployBinary pe ct fr loc host port remotePath service mode verify s
           in (map_option (\<lambda>r. \<lparr>sh_out = json_line (deploy_json r), sh_err = '''', sh_exit = (if dr_success r then 0 else 1)\<rparr>) r, s1))
      | _ \<Rightarrow> (Some (fails (''Usage: vssh deploy-binary <local-binary> <host[:port]> <remote-path>''
               @ '' [--service <name>] [--mode 0755] [--verify <cmd>]'')), s))"

section \<open>Forwards on the command line\<close>

datatype forward = LocalForward string string int | RemoteForward string string string int | SocksForward string

definition joinHostPort :: "string \<Rightarrow> string \<Rightarrow> string" where
  "joinHostPort h p = (if CHR '':'' \<in> set h then ''['' @ h @ '']:'' @ p else h @ '':'' @ p)"

definition fwd_usage :: string where
  "fwd_usage = ''Usage: vssh fwd <host[:port]> {-L|-R [bind:]<a>:<h>:<p> | -D [bind:]<port>}''"

definition fwd_spec :: "string \<Rightarrow> string \<Rightarrow> string + forward" where
  "fwd_spec mode spec =
     (let parts = split_on (CHR '':'') spec in
      if mode = ''-L'' \<or> mode = ''-R'' then
        (case (case parts of [a, h, p] \<Rightarrow> Some (''127.0.0.1'', a, h, p) | [b, a, h, p] \<Rightarrow> Some (b, a, h, p) | _ \<Rightarrow> None) of
           None \<Rightarrow> Inl fwd_usage
         | Some (bind, a, h, p) \<Rightarrow>
             (case go_atoi p of (hp, ok) \<Rightarrow>
                if \<not> ok \<or> hp \<le> 0 \<or> 65535 < hp then Inl (''invalid port: '' @ p)
                else if mode = ''-L'' then Inr (LocalForward (joinHostPort bind a) h hp)
                else Inr (RemoteForward bind a h hp)))
      else if mode = ''-D'' then
        (case parts of [p] \<Rightarrow> Inr (SocksForward (joinHostPort ''127.0.0.1'' p))
         | [b, p] \<Rightarrow> Inr (SocksForward (joinHostPort b p)) | _ \<Rightarrow> Inl fwd_usage)
      else Inl fwd_usage)"

text \<open>How a forward ends is an argument.\<close>
definition cmdFwd :: "(string \<Rightarrow> int \<Rightarrow> forward \<Rightarrow> string option) \<Rightarrow> front \<Rightarrow> string list \<Rightarrow> mstate \<Rightarrow> shown \<times> mstate" where
  "cmdFwd run fr args s =
     (case args of
        target # mode # spec # _ \<Rightarrow>
          (let (h, port) = parseHostPort (fr_port fr) target; (host, s1) = reach fr h s
           in (case fwd_spec mode spec of Inl e \<Rightarrow> fails e
               | Inr fw \<Rightarrow> (case run host port fw of Some e \<Rightarrow> error_line e | None \<Rightarrow> says ''''), s1))
      | _ \<Rightarrow> (fails fwd_usage, s))"

section \<open>What a deployment did\<close>

definition confirmed :: "peer_env \<Rightarrow> string \<Rightarrow> int \<Rightarrow> path \<Rightarrow> path \<Rightarrow> bytes \<Rightarrow> bool" where
  "confirmed pe h port loc stage d \<longleftrightarrow> (\<exists>stream n. pe_put pe h port (upload_cmd d loc stage) d = Inr stream \<and>
     SendFile_answers (pe_md5 pe) d stream = Some (n, None))"

definition exec_ok :: "front \<Rightarrow> string \<Rightarrow> int \<Rightarrow> string \<Rightarrow> bool" where
  "exec_ok fr h port c \<longleftrightarrow> snd (fr_exec fr h port c) = None \<and> er_success (fst (fr_exec fr h port c))"

text \<open>A confirmation that carries a checksum carries that of the data.\<close>
lemma confirmed_sum:
  assumes "SendFile_answers md5 d stream = Some (n, None)"
  shows "\<exists>l1 l2 r1 r2. cut NL stream = Some (l1, r1) \<and> take 5 (l1 @ [NL]) = ''READY'' \<and> cut NL r1 = Some (l2, r2) \<and>
    take 2 (l2 @ [NL]) = ''OK'' \<and> (3 \<le> length (go_fields (l2 @ [NL])) \<longrightarrow> go_fields (l2 @ [NL]) ! 2 = hex_encode (md5 d))"
  using assms by (auto simp: SendFile_answers_def Let_def split: option.splits prod.splits if_splits)

lemma send_file_cases:
  assumes "send_file pe ct h port loc rem s = (r, s1)"
  shows "(\<exists>e. r = Some (0, Some e)) \<and> ms_calls s1 = ms_calls s \<or>
    (\<exists>d stream. read_file (ms_fs s) loc = Inr d \<and> pe_put pe h port (upload_cmd d loc rem) d = Inr stream \<and>
       r = SendFile_answers (pe_md5 pe) d stream \<and> s1 = log_call (PutOn h port rem d) s)"
  using assms by (auto simp: send_file_def split: sum.splits)

lemma reach_fs: "reach fr t s = (h, s1) \<Longrightarrow> ms_fs s1 = ms_fs s"
  by (auto simp: reach_def Let_def split: prod.splits)

text \<open>How far a deployment got, from the calls it made and its result.\<close>
definition deployed ::
  "peer_env \<Rightarrow> front \<Rightarrow> path \<Rightarrow> string \<Rightarrow> int \<Rightarrow> path \<Rightarrow> string \<Rightarrow> string \<Rightarrow> deploy_result \<Rightarrow> bytes \<Rightarrow> call list \<Rightarrow> bool" where
  "deployed pe fr loc h port stage inst check r d new \<longleftrightarrow>
     (if dr_phase r = ''upload'' then \<not> dr_success r \<and> (\<forall>c \<in> set new. runs c = None)
      else confirmed pe h port loc stage d \<and>
        (if dr_phase r = ''install'' then \<not> dr_success r \<and> \<not> exec_ok fr h port inst \<and> new = [PutOn h port stage d, ExecOn h port inst]
         else dr_phase r = ''ok'' \<and> dr_success r \<and> exec_ok fr h port inst \<and>
           new = [PutOn h port stage d, ExecOn h port inst, ExecOn h port check]))"

lemma deploy_calls:
  assumes "runDeployBinary pe ct fr loc host port rem service mode verify s = (Some r, s')"
  shows "\<exists>d new. ms_calls s' = ms_calls s @ new \<and> (dr_phase r = ''upload'' \<or> read_file (ms_fs s) loc = Inr d) \<and>
    deployed pe fr loc (fst (reach fr host s)) port (stage_path (pe_pid pe) rem)
      (install_command (stage_path (pe_pid pe) rem) rem (or_mode mode) service) (verify_command rem verify) r d new"
proof -
  let ?stage = "stage_path (pe_pid pe) rem"
  obtain h s1 where h: "reach fr host s = (h, s1)" by (cases "reach fr host s")
  obtain u s2 where u: "send_file pe ct h port loc ?stage s1 = (u, s2)" by (cases "send_file pe ct h port loc ?stage s1")
  from assms h u obtain n err where n: "u = Some (n, err)" by (cases u) (auto simp: runDeployBinary_def Let_def)
  from send_file_cases[OF u] reach_fs[OF h] reach_calls[OF h]
  consider (none) e where "err = Some e" "ms_calls s2 = ms_calls s"
    | (sent) d stream where "read_file (ms_fs s) loc = Inr d" "pe_put pe h port (upload_cmd d loc ?stage) d = Inr stream"
        "u = SendFile_answers (pe_md5 pe) d stream" "ms_calls s2 = ms_calls s @ [PutOn h port ?stage d]"
    using n by (auto simp: log_call_def)
  then show ?thesis
  proof cases
    case none
    then have "dr_phase r = ''upload'' \<and> \<not> dr_success r \<and> s' = s2" using assms h u n by (auto simp: runDeployBinary_def Let_def)
    with none show ?thesis by (auto simp: deployed_def)
  next
    case sent
    show ?thesis
    proof (cases err)
      case (Some e)
      then have "dr_phase r = ''upload'' \<and> \<not> dr_success r \<and> s' = s2" using assms h u n by (auto simp: runDeployBinary_def Let_def)
      with sent show ?thesis by (auto simp: deployed_def)
    next
      case None
      have c: "confirmed pe h port loc ?stage d" using sent n None unfolding confirmed_def by metis
      show ?thesis
        using assms h u n None sent(1,4) c
        by (auto simp: runDeployBinary_def Let_def exec_on_def deployed_def exec_ok_def log_call_def split: prod.splits option.splits if_splits)
    qed
  qed
qed

text \<open>C17: A deployment installs only what the daemon has confirmed to have received, and checks only what was
  installed. It reports success exactly when the installation succeeded: what the check found does not count,
  and the phase \<open>verify\<close> is never reported.\<close>
theorem deploy_by_phase:
  assumes "runDeployBinary pe ct fr loc host port rem service mode verify s = (Some r, s')"
  shows "\<exists>d new. ms_calls s' = ms_calls s @ new \<and> (dr_phase r = ''upload'' \<or> read_file (ms_fs s) loc = Inr d) \<and>
    deployed pe fr loc (fst (reach fr host s)) port (stage_path (pe_pid pe) rem)
      (install_command (stage_path (pe_pid pe) rem) rem (or_mode mode) service) (verify_command rem verify) r d new"
  using assms by (rule deploy_calls)

text \<open>C18: The check of a deployment is any command: one that the classifier holds back is run on the node without
  a flag and without asking the daemon.\<close>
theorem deploy_outside_gate:
  assumes "toolDeployBinary pe ct fr args s = (Some res, s')" "json_get ''success'' res = Some (JBool True)"
    and "verify = getString args ''verify''" "verify \<noteq> ''''" "\<not> pd_allowed (classifyCommand verify)"
  shows "(\<exists>h port. ExecOn h port verify \<in> set (ms_calls s')) \<and> \<not> gated fr s s'"
proof -
  obtain host port where hp: "parseHostPort (fr_port fr) (getString args ''target'') = (host, port)" by (metis surj_pair)
  have js: "json_get ''success'' (json_map ([(''success'', JBool b), (''tool'', JStr t), (''host'', JStr h), (''remote_path'', JStr p),
      (''phase'', JStr ph)] @ omit_empty ''service'' sv @ omit_empty ''verify_output'' v @ (if b then [] else [(''error'', e)]))) = Some (JBool b)"
    for b t h p ph sv v e
    by (simp add: json_get_def json_map_def omit_empty_def)
  have je: "json_get ''success'' (transferErr t c m) = Some (JBool False)" for t c m
    by (simp add: transferErr_def json_get_def json_map_def)
  obtain r where r: "runDeployBinary pe ct fr (getString args ''local_path'') host port (getString args ''remote_path'')
      (getString args ''service'') (getString args ''mode'') verify s = (Some r, s')"
    and res: "res = json_map ([(''success'', JBool (dr_success r)), (''tool'', JStr ''vssh_deploy_binary''), (''host'', JStr (dr_host r)),
      (''remote_path'', JStr (dr_path r)), (''phase'', JStr (dr_phase r))] @ omit_empty ''service'' (dr_service r)
      @ omit_empty ''verify_output'' (dr_verify r) @ (if dr_success r then [] else [(''error'', tool_error (dr_code r) (dr_error r))]))"
    using assms(1-3) hp je by (auto simp: toolDeployBinary_def Let_def split: prod.splits if_splits)
  have ok: "dr_success r" using assms(2) unfolding res js by simp
  from deploy_calls[OF r] obtain d new where n: "ms_calls s' = ms_calls s @ new"
    and D: "deployed pe fr (getString args ''local_path'') (fst (reach fr host s)) port
      (stage_path (pe_pid pe) (getString args ''remote_path'')) (install_command (stage_path (pe_pid pe) (getString args ''remote_path''))
        (getString args ''remote_path'') (or_mode (getString args ''mode'')) (getString args ''service''))
      (verify_command (getString args ''remote_path'') verify) r d new" by blast
  have v: "verify_command (getString args ''remote_path'') verify = verify" using assms(4) by (simp add: verify_command_def)
  from D ok v obtain h p i where new: "new = [PutOn h p (stage_path (pe_pid pe) (getString args ''remote_path'')) d, ExecOn h p i, ExecOn h p verify]"
    by (auto simp: deployed_def split: if_splits)
  have "\<not> daemon_said fr new verify" by (auto simp: daemon_said_def new)
  moreover have "\<exists>c \<in> set new. runs c = Some verify" by (auto simp: new)
  ultimately have "\<not> gated fr s s'" using n assms(5) by (auto simp: gated_def)
  then show ?thesis using n new by auto
qed

section \<open>How a shell reads the installation\<close>

text \<open>The part of the token recognition of a POSIX shell that the command needs, and nothing by guess:
  single quotes, a backslash before a byte, the plain characters (letters, digits and \<open>-./_:,+@\<close>), a
  command substitution of plain characters and blanks, and the operators \<open>&&\<close>, \<open>||\<close>, the parentheses
  and \<open>2>\<close>. Any text with something else in it, a lone \<open>&\<close> or \<open>|\<close>, a semicolon, a dollar, double
  quotes, a pattern, is None: of such a text the model says nothing.\<close>
datatype piece = Ch char | Subst string

datatype sh_token = Word "piece list" | Op string

definition plain_char :: "char \<Rightarrow> bool" where
  "plain_char c \<longleftrightarrow> is_digit c \<or> is_lower c \<or> is_upper c \<or> c \<in> set ''-./_:,+@''"

text \<open>The rest of a word, up to a blank or an operator.\<close>
fun sh_lex :: "string \<Rightarrow> (piece list \<times> string) option" where
  "sh_lex [] = Some ([], [])"
| "sh_lex (c # s) =
     (if c \<in> set '' &|()'' then Some ([], c # s)
      else if c = CHR 0x27 then
        (case cut CHR 0x27 s of None \<Rightarrow> None
         | Some (a, b) \<Rightarrow> if length b < Suc (length s) then map_option (\<lambda>(x, r). (map Ch a @ x, r)) (sh_lex b) else None)
      else if c = CHR 0x5C then
        (case s of [] \<Rightarrow> None | d # t \<Rightarrow> if d = NL then None else map_option (\<lambda>(x, r). (Ch d # x, r)) (sh_lex t))
      else if c = CHR ''$'' then
        (case cut CHR '')'' s of None \<Rightarrow> None
         | Some (a, b) \<Rightarrow>
             if has_prefix ''('' a \<and> list_all (\<lambda>d. plain_char d \<or> d = SP) (drop 1 a) \<and> length b < Suc (length s)
             then map_option (\<lambda>(x, r). (Subst (drop 1 a) # x, r)) (sh_lex b) else None)
      else if plain_char c then map_option (\<lambda>(x, r). (Ch c # x, r)) (sh_lex s)
      else None)"

text \<open>Every word read takes a byte; the second test of the guard only makes that explicit.\<close>
function sh_tokens :: "string \<Rightarrow> sh_token list option" where
  "sh_tokens s =
     (if s = [] then Some []
      else if hd s = SP then sh_tokens (tl s)
      else if has_prefix ''&&'' s \<or> has_prefix ''||'' s \<or> has_prefix ''2>'' s then map_option ((#) (Op (take 2 s))) (sh_tokens (drop 2 s))
      else if hd s \<in> set ''()'' then map_option ((#) (Op [hd s])) (sh_tokens (tl s))
      else (case sh_lex s of None \<Rightarrow> None
        | Some (w, r) \<Rightarrow> if length r < length s then map_option ((#) (Word w)) (sh_tokens r) else None))"
  by pat_completeness auto
termination by (relation "measure length") auto

declare sh_tokens.simps [simp del] sh_lex.simps(2) [simp del]

abbreviation word :: "string \<Rightarrow> sh_token" where "word s \<equiv> Word (map Ch s)"

subsection \<open>Words that are read as they were meant\<close>

definition before :: "piece list \<Rightarrow> (piece list \<times> string) option \<Rightarrow> (piece list \<times> string) option" where
  "before w = map_option (\<lambda>(x, r). (w @ x, r))"

lemma before_simps [simp]: "before w (Some (x, r)) = Some (w @ x, r)" "before w None = None"
  "before v (before w m) = before (v @ w) m" "before [] m = m"
  by (cases m; auto simp: before_def)+

lemma plain_apart: "plain_char c \<Longrightarrow> c \<notin> set '' &|()'' \<and> c \<noteq> CHR 0x27 \<and> c \<noteq> CHR 0x5C \<and> c \<noteq> CHR ''$''"
  by (auto simp: plain_char_def is_digit_def is_lower_def is_upper_def byte_in_def)

lemma lex_plain: "list_all plain_char p \<Longrightarrow> sh_lex (p @ s) = before (map Ch p) (sh_lex s)"
proof (induction p)
  case (Cons c p)
  then have "sh_lex ((c # p) @ s) = map_option (\<lambda>(x, r). (Ch c # x, r)) (sh_lex (p @ s))"
    using plain_apart[of c] by (simp add: sh_lex.simps(2))
  with Cons show ?case by (cases "sh_lex s") (auto simp: before_def)
qed simp

lemma lex_quote_step:
  assumes "cut (CHR 0x27) s = Some (a, b)"
  shows "sh_lex (CHR 0x27 # s) = before (map Ch a) (sh_lex b)"
  using cut_Some[OF assms] assms by (simp add: sh_lex.simps(2) before_def)

text \<open>What is quoted is one word, or the beginning of one, whatever bytes it has.\<close>
lemma lex_quoted: "sh_lex (shellQuote s @ rest) = before (map Ch s) (sh_lex rest)"
proof -
  let ?e = "[CHR 0x27, CHR 0x5C, CHR 0x27, CHR 0x27]"
  have "sh_lex (CHR 0x27 # replace_ne [CHR 0x27] ?e s @ CHR 0x27 # rest) = before (map Ch s) (sh_lex rest)"
  proof (induction s)
    case Nil
    have "cut (CHR 0x27) (CHR 0x27 # rest) = Some ([], rest)" by simp
    from lex_quote_step[OF this] show ?case by (simp add: replace_quote)
  next
    case (Cons c s)
    let ?t = "replace_ne [CHR 0x27] ?e s @ CHR 0x27 # rest"
    show ?case
    proof (cases "c = CHR 0x27")
      case True
      have k: "cut (CHR 0x27) (CHR 0x27 # CHR 0x5C # CHR 0x27 # CHR 0x27 # ?t) = Some ([], CHR 0x5C # CHR 0x27 # CHR 0x27 # ?t)" by simp
      have "sh_lex (CHR 0x5C # CHR 0x27 # CHR 0x27 # ?t) = before [Ch CHR 0x27] (sh_lex (CHR 0x27 # ?t))"
        by (subst sh_lex.simps(2)) (simp add: before_def)
      with lex_quote_step[OF k] True Cons.IH show ?thesis by (simp add: replace_quote)
    next
      case False
      obtain a b where ab: "cut (CHR 0x27) ?t = Some (a, b)" by (cases "cut (CHR 0x27) ?t") auto
      have "cut (CHR 0x27) (c # ?t) = Some (c # a, b)" using False ab by (simp add: cut_cons)
      from lex_quote_step[OF this] lex_quote_step[OF ab] Cons.IH False
      have "before (map Ch a) (sh_lex b) = before (map Ch s) (sh_lex rest)"
        "sh_lex (CHR 0x27 # c # ?t) = before [Ch c] (before (map Ch a) (sh_lex b))" by simp_all
      then show ?thesis using False by (simp add: replace_quote)
    qed
  qed
  then show ?thesis by (simp add: shellQuote_def replace_all_def)
qed

definition starts_word :: "string \<Rightarrow> bool" where
  "starts_word t \<longleftrightarrow> t \<noteq> [] \<and> hd t \<notin> set '' &|()'' \<and> \<not> has_prefix ''2>'' t"

lemma token_word:
  assumes "starts_word s" "sh_lex s = Some (w, r)" "length r < length s"
  shows "sh_tokens s = map_option ((#) (Word w)) (sh_tokens r)"
  using assms by (subst sh_tokens.simps) (cases s; auto simp: starts_word_def)

lemma token_skip: "sh_tokens (SP # s) = sh_tokens s"
  by (subst sh_tokens.simps) simp

lemma lex_end: "sh_lex (SP # s) = Some ([], SP # s)" "sh_lex (CHR '')'' # s) = Some ([], CHR '')'' # s)"
  by (simp_all add: sh_lex.simps(2))

text \<open>A text that is a word, followed by a blank or the end.\<close>
definition reads_as :: "string \<Rightarrow> piece list \<Rightarrow> bool" where
  "reads_as t w \<longleftrightarrow> starts_word t \<and> (\<forall>s. sh_lex (t @ s) = before w (sh_lex s))"

lemma reads_plain: "p \<noteq> [] \<Longrightarrow> list_all plain_char p \<Longrightarrow> reads_as p (map Ch p)"
proof -
  assume p: "p \<noteq> []" "list_all plain_char p"
  then obtain c q where c: "p = c # q" "plain_char c" by (cases p) auto
  have "\<not> has_prefix ''2>'' p" using p by (cases q) (auto simp: c plain_char_def is_digit_def is_lower_def is_upper_def byte_in_def)
  then show ?thesis using plain_apart[OF c(2)] lex_plain[OF p(2)] c(1) by (simp add: reads_as_def starts_word_def)
qed

lemma reads_quoted: "list_all plain_char p \<Longrightarrow> reads_as (shellQuote s @ p) (map Ch (s @ p))"
  using lex_quoted[of s] lex_plain[of p] by (simp add: reads_as_def starts_word_def shellQuote_def)

lemma has_prefix_app: "\<not> has_prefix ''2>'' t \<Longrightarrow> t \<noteq> [] \<Longrightarrow> c \<noteq> CHR ''>'' \<Longrightarrow> \<not> has_prefix ''2>'' (t @ c # s)"
  by (cases t; cases "tl t"; auto)

lemma tokens_word: "reads_as t w \<Longrightarrow> sh_tokens (t @ SP # s) = map_option ((#) (Word w)) (sh_tokens s)"
proof -
  assume t: "reads_as t w"
  then have l: "sh_lex (t @ SP # s) = Some (w, SP # s)" by (simp add: reads_as_def lex_end)
  have "starts_word (t @ SP # s)" using t has_prefix_app[of t SP s] by (auto simp: reads_as_def starts_word_def)
  from token_word[OF this l] t show ?thesis by (cases t) (auto simp: token_skip reads_as_def starts_word_def)
qed

lemma tokens_last: "reads_as t w \<Longrightarrow> sh_tokens t = Some [Word w]"
proof -
  assume t: "reads_as t w"
  then have "sh_lex (t @ []) = before w (sh_lex [])" unfolding reads_as_def by blast
  then have "sh_lex t = Some (w, [])" by simp
  from token_word[OF _ this] t show ?thesis by (cases t) (auto simp: reads_as_def starts_word_def sh_tokens.simps[of "[]"])
qed

lemma tokens_op:
  "sh_tokens (''&&'' @ s) = map_option ((#) (Op ''&&'')) (sh_tokens s)" "sh_tokens (''||'' @ s) = map_option ((#) (Op ''||'')) (sh_tokens s)"
  "sh_tokens (''2>'' @ s) = map_option ((#) (Op ''2>'')) (sh_tokens s)" "sh_tokens (CHR ''('' # s) = map_option ((#) (Op ''('')) (sh_tokens s)"
  "sh_tokens (CHR '')'' # s) = map_option ((#) (Op '')'')) (sh_tokens s)"
  by (subst sh_tokens.simps, simp)+

text \<open>The one word with a substitution.\<close>
lemma tokens_gui:
  "sh_tokens (''gui/$(id -u)/'' @ shellQuote service @ CHR '')'' # r) =
    map_option (\<lambda>x. Word (map Ch ''gui/'' @ Subst ''id -u'' # map Ch (''/'' @ service)) # Op '')'' # x) (sh_tokens r)"
proof -
  let ?u = "''gui/$(id -u)/'' @ shellQuote service @ CHR '')'' # r"
  have 1: "sh_lex (CHR ''$'' # ''(id -u)'' @ s) = before [Subst ''id -u''] (sh_lex s)" for s
    by (simp add: sh_lex.simps(2) before_def plain_char_def is_lower_def byte_in_def)
  have "sh_lex ?u = before (map Ch ''gui/'') (sh_lex (CHR ''$'' # ''(id -u)'' @ ''/'' @ shellQuote service @ CHR '')'' # r))"
    using lex_plain[of "''gui/''"] by (simp add: plain_char_def is_lower_def byte_in_def)
  also have "\<dots> = Some (map Ch ''gui/'' @ Subst ''id -u'' # map Ch (''/'' @ service), CHR '')'' # r)"
    unfolding 1 using lex_plain[of "''/''"] lex_quoted[of service] by (simp add: plain_char_def lex_end)
  finally have l: "sh_lex ?u = Some (map Ch ''gui/'' @ Subst ''id -u'' # map Ch (''/'' @ service), CHR '')'' # r)" .
  have "starts_word ?u" by (simp add: starts_word_def)
  from token_word[OF this l] show ?thesis by (simp add: tokens_op option.map_comp comp_def)
qed

text \<open>C24: whatever bytes (a NUL, which no command holds, aside) are in the path of the binary, in that of the
  staged file and in the name of the service, a shell reads the installation as exactly these words and
  operators: each path, with its \<open>.new\<close>, and the service are single words and nothing in them is an
  operator, an expansion or a pattern.  This needs a mode of plain characters, such as \<open>0755\<close>: the mode
  is put into the command as it is (\<open>mode_breaks_out\<close>).\<close>
theorem install_words:
  assumes "mode \<noteq> ''''" "list_all plain_char mode"
  shows "sh_tokens (install_command stage rem mode service) = Some
    ([word ''sudo'', word ''cp'', word stage, word (rem @ ''.new''), Op ''&&'',
      word ''sudo'', word ''chmod'', word mode, word (rem @ ''.new''), Op ''&&'',
      word ''sudo'', word ''mv'', word ''-f'', word (rem @ ''.new''), word rem, Op ''&&'',
      word ''rm'', word ''-f'', word stage] @
     (if service = '''' then [] else
      [Op ''&&'', Op ''('', word ''sudo'', word ''systemctl'', word ''restart'', word service, Op ''2>'', word ''/dev/null'', Op ''||'',
       word ''sudo'', word ''launchctl'', word ''kickstart'', word ''-k'',
       Word (map Ch ''gui/'' @ Subst ''id -u'' # map Ch (''/'' @ service)), Op '')'', Op ''&&'', word ''sleep'', word ''2'']))"
proof -
  have p: "reads_as ''sudo'' (map Ch ''sudo'')" "reads_as ''cp'' (map Ch ''cp'')" "reads_as ''chmod'' (map Ch ''chmod'')"
    "reads_as ''mv'' (map Ch ''mv'')" "reads_as ''-f'' (map Ch ''-f'')" "reads_as ''rm'' (map Ch ''rm'')"
    "reads_as ''systemctl'' (map Ch ''systemctl'')" "reads_as ''restart'' (map Ch ''restart'')"
    "reads_as ''/dev/null'' (map Ch ''/dev/null'')" "reads_as ''launchctl'' (map Ch ''launchctl'')"
    "reads_as ''kickstart'' (map Ch ''kickstart'')" "reads_as ''-k'' (map Ch ''-k'')" "reads_as ''sleep'' (map Ch ''sleep'')"
    "reads_as ''2'' (map Ch ''2'')"
    by (rule reads_plain; simp add: plain_char_def is_digit_def is_lower_def is_upper_def byte_in_def)+
  have m: "reads_as mode (map Ch mode)" by (rule reads_plain[OF assms])
  have q: "reads_as (shellQuote s) (map Ch s)" "reads_as (shellQuote s @ ''.new'') (map Ch (s @ ''.new''))" for s
    using reads_quoted[of "[]" s] reads_quoted[of "''.new''" s] by (simp_all add: plain_char_def is_lower_def byte_in_def)
  note w = p[THEN tokens_word, simplified] m[THEN tokens_word] q(1)[THEN tokens_word] q(2)[THEN tokens_word, simplified]
  have op: "sh_tokens (CHR ''&'' # CHR ''&'' # s) = map_option ((#) (Op ''&&'')) (sh_tokens s)"
    "sh_tokens (CHR ''|'' # CHR ''|'' # s) = map_option ((#) (Op ''||'')) (sh_tokens s)"
    "sh_tokens (CHR ''2'' # CHR ''>'' # s) = map_option ((#) (Op ''2>'')) (sh_tokens s)" for s
    using tokens_op(1-3)[of s] by simp_all
  show ?thesis
  proof (cases "service = ''''")
    case True
    then show ?thesis by (simp add: install_command_def w op token_skip tokens_last[OF q(1)])
  next
    case False
    have "sh_tokens (install_command stage rem mode service) = sh_tokens (install_command stage rem mode '''' @
      '' && (sudo systemctl restart '' @ shellQuote service @ '' 2>/dev/null || sudo launchctl kickstart -k '' @ (''gui/$(id -u)/'' @ shellQuote service @ CHR '')'' # '' && sleep 2''))"
      using False by (simp add: install_command_def)
    then show ?thesis using False tokens_gui[of service]
      by (simp add: install_command_def w op token_skip tokens_op tokens_last[OF p(14), simplified] option.map_comp comp_def)
  qed
qed

text \<open>The mode is not quoted: with a blank and an operator in it, the shell runs what follows.\<close>
lemma mode_breaks_out:
  "map_option (take 14) (sh_tokens (install_command ''/tmp/s'' ''/bin/x'' ''0755 /bin/x && reboot && true'' '''')) =
    Some [word ''sudo'', word ''cp'', word ''/tmp/s'', word ''/bin/x.new'', Op ''&&'', word ''sudo'', word ''chmod'', word ''0755'',
      word ''/bin/x'', Op ''&&'', word ''reboot'', Op ''&&'', word ''true'', word ''/bin/x.new'']"
  by code_simp

section \<open>Examples\<close>

definition ready_peer :: peer_env where
  "ready_peer = \<lparr>pe_md5 = (\<lambda>_. ''''), pe_pid = 7, pe_put = (\<lambda>_ _ _ _. Inr (''READY'' @ [NL] @ ''OK 1'' @ [NL])), pe_get = (\<lambda>_ _ _. Inl ''refused'')\<rparr>"

definition willing_front :: front where
  "willing_front = demo_front\<lparr>fr_exec := (\<lambda>_ _ _. (exec_zero\<lparr>er_success := True\<rparr>, None))\<rparr>"

definition shipping :: mstate where "shipping = idle\<lparr>ms_fs := put_file ''/b'' ''x'' empty_fs\<rparr>"

definition ship_args :: json where
  "ship_args = JObj [(''target'', JStr ''d1''), (''local_path'', JStr ''/b''), (''remote_path'', JStr ''/bin/x''), (''verify'', JStr ''rm -rf /'')]"

lemma ready_confirms: "SendFile_answers (pe_md5 ready_peer) ''x'' (''READY'' @ [NL] @ ''OK 1'' @ [NL]) = Some (1, None)"
  by code_simp

lemma ship_success:
  "\<exists>r s'. runDeployBinary ready_peer demo_ctl willing_front ''/b'' ''d1'' port ''/bin/x'' sv md c shipping = (Some r, s') \<and> dr_success r"
proof -
  let ?st = "stage_path (pe_pid ready_peer) ''/bin/x''"
  obtain h s1 where h: "reach willing_front ''d1'' shipping = (h, s1)" by (cases "reach willing_front ''d1'' shipping")
  obtain u s2 where u: "send_file ready_peer demo_ctl h port ''/b'' ?st s1 = (u, s2)"
    by (cases "send_file ready_peer demo_ctl h port ''/b'' ?st s1")
  have "read_file (ms_fs s1) ''/b'' = Inr ''x''" using reach_fs[OF h] by (simp add: shipping_def fs_simps)
  moreover have "pe_put ready_peer a p cmd d = Inr (''READY'' @ [NL] @ ''OK 1'' @ [NL])" for a p cmd d by (simp add: ready_peer_def)
  ultimately have v: "u = Some (1, None)" using ready_confirms u by (simp add: send_file_def)
  have x: "exec_on willing_front a p cmd s = ((exec_zero\<lparr>er_success := True\<rparr>, None), log_call (ExecOn a p cmd) s)" for a p cmd s
    by (simp add: exec_on_def willing_front_def)
  show ?thesis by (simp add: runDeployBinary_def Let_def h u v x)
qed

lemma deploy_by_phase_witness:
  "\<exists>s' h d. s' = snd (runDeployBinary ready_peer demo_ctl willing_front ''/b'' ''d1'' 1 ''/bin/x'' '''' '''' ''false'' shipping) \<and>
     ms_calls s' = ms_calls shipping @ [PutOn h 1 ''/tmp/vssh-deploy-7-x'' d,
       ExecOn h 1 (install_command ''/tmp/vssh-deploy-7-x'' ''/bin/x'' ''0755'' ''''), ExecOn h 1 ''false'']"
proof -
  obtain r s' where r: "runDeployBinary ready_peer demo_ctl willing_front ''/b'' ''d1'' 1 ''/bin/x'' '''' '''' ''false'' shipping = (Some r, s')"
    and ok: "dr_success r" using ship_success by blast
  have "stage_path (pe_pid ready_peer) ''/bin/x'' = ''/tmp/vssh-deploy-7-x''" by code_simp
  with deploy_by_phase[OF r] ok r show ?thesis
    by (auto simp: deployed_def or_mode_def verify_command_def split: if_splits)
qed

lemma deploy_outside_gate_witness:
  "\<exists>s'. s' = snd (toolDeployBinary ready_peer demo_ctl willing_front ship_args shipping) \<and>
     (\<exists>h port. ExecOn h port ''rm -rf /'' \<in> set (ms_calls s')) \<and> \<not> gated willing_front shipping s'"
proof -
  have a: "getString ship_args ''target'' = ''d1''" "getString ship_args ''local_path'' = ''/b''" "getString ship_args ''remote_path'' = ''/bin/x''"
    "getString ship_args ''service'' = ''''" "getString ship_args ''mode'' = ''''" "''rm -rf /'' = getString ship_args ''verify''"
    by (simp_all add: ship_args_def getString_def json_str_def json_get_def)
  have p: "parseHostPort (fr_port willing_front) ''d1'' = (''d1'', 48291)"
    by (simp add: parseHostPort_def willing_front_def demo_front_def)
  obtain r s' where r: "runDeployBinary ready_peer demo_ctl willing_front ''/b'' ''d1'' 48291 ''/bin/x'' '''' '''' ''rm -rf /'' shipping = (Some r, s')"
    and ok: "dr_success r" using ship_success by blast
  obtain res where t: "toolDeployBinary ready_peer demo_ctl willing_front ship_args shipping = (Some res, s')"
    and s: "json_get ''success'' res = Some (JBool True)"
    using r ok by (simp add: toolDeployBinary_def Let_def a(1-5) a(6)[symmetric] p json_get_def json_map_def omit_empty_def)
  have d: "\<not> pd_allowed (classifyCommand ''rm -rf /'')" by code_simp
  from deploy_outside_gate[OF t s a(6) _ d] t show ?thesis by simp
qed

lemma install_words_witness: "sh_tokens (install_command ''/tmp/s'' ''/bin/a;b $(id)'' ''0755'' '''') = Some
    [word ''sudo'', word ''cp'', word ''/tmp/s'', word ''/bin/a;b $(id).new'', Op ''&&'',
     word ''sudo'', word ''chmod'', word ''0755'', word ''/bin/a;b $(id).new'', Op ''&&'',
     word ''sudo'', word ''mv'', word ''-f'', word ''/bin/a;b $(id).new'', word ''/bin/a;b $(id)'', Op ''&&'',
     word ''rm'', word ''-f'', word ''/tmp/s'']"
  using install_words[of "''0755''" "''/tmp/s''" "''/bin/a;b $(id)''" "''''"] by (simp add: plain_char_def is_digit_def byte_in_def)

end
