(* ===== verification/McpInstall.thy ===== *)
theory McpInstall
  imports Setup Deploy
begin

text \<open>
  Attaching vssh to an AI client (\<^verbatim>\<open>cmd/vssh/commands_mcpinstall.go\<close>): the snippet for the
  configuration of a client and its merging into the file. The binary, the home directory, the system,
  the stamp of the time and the text of a float are arguments.
\<close>

section \<open>Clients\<close>

record install_env =
  in_exe :: "path option"                         \<comment> \<open>os.Executable\<close>
  in_real :: "path \<Rightarrow> path option"               \<comment> \<open>EvalSymlinks\<close>
  in_home :: string
  in_darwin :: bool
  in_stamp :: string
  in_float :: "string \<Rightarrow> string"                 \<comment> \<open>a number read as a float and written again\<close>
  in_json_err :: "string \<Rightarrow> string"
  in_io_err :: "io_err \<Rightarrow> string"

definition vsshBinaryAbsPath :: "install_env \<Rightarrow> path" where
  "vsshBinaryAbsPath iv =
     (case in_exe iv of None \<Rightarrow> ''vssh'' | Some x \<Rightarrow> (case in_real iv x of Some a \<Rightarrow> a | None \<Rightarrow> x))"

definition mcpServerEntry :: "install_env \<Rightarrow> json" where
  "mcpServerEntry iv = json_map [(''command'', JStr (vsshBinaryAbsPath iv)), (''args'', texts [''mcp''])]"

definition dq :: string where "dq = [CHR 0x22]"

definition mcpTOMLSnippet :: "install_env \<Rightarrow> string" where
  "mcpTOMLSnippet iv = ''[mcp_servers.vssh]'' @ [NL] @ ''command = '' @ dq @ vsshBinaryAbsPath iv @ dq @ [NL]
     @ ''args = ['' @ dq @ ''mcp'' @ dq @ '']''"

definition knownClients :: string where
  "knownClients = ''claude, claude-code, cursor, gemini/ai-studio, codex''"

definition clientConfigPath :: "install_env \<Rightarrow> string \<Rightarrow> path option" where
  "clientConfigPath iv client =
     (let c = to_lower client; home = in_home iv in
      if c = ''claude'' \<or> c = ''claude-desktop'' then
        Some (if in_darwin iv then join_path [home, ''Library'', ''Application Support'', ''Claude'', ''claude_desktop_config.json'']
          else join_path [home, ''.config'', ''Claude'', ''claude_desktop_config.json''])
      else if c = ''cursor'' then Some (join_path [home, ''.cursor'', ''mcp.json''])
      else if c = ''claude-code'' \<or> c = ''code'' then Some (join_path [home, ''.claude.json''])
      else if c = ''gemini'' \<or> c = ''ai-studio'' \<or> c = ''aistudio'' \<or> c = ''google-ai-studio'' then
        Some (join_path [home, ''.gemini'', ''settings.json''])
      else if c = ''codex'' then Some (join_path [home, ''.codex'', ''config.toml''])
      else None)"

definition clientIsTOML :: "string \<Rightarrow> bool" where "clientIsTOML client \<longleftrightarrow> to_lower client = ''codex''"

fun parseClientFlag :: "string list \<Rightarrow> string \<Rightarrow> string" where
  "parseClientFlag (a # v # as) client =
     (if a = ''--client'' \<or> a = ''-client'' then parseClientFlag as v else parseClientFlag (v # as) client)"
| "parseClientFlag as client = client"

definition cmdMCPConfig :: "install_env \<Rightarrow> string list \<Rightarrow> shown" where
  "cmdMCPConfig iv args =
     (let client = parseClientFlag args '''';
          snippet = (if clientIsTOML client then
              ''# Add to ~/.codex/config.toml (or run: codex mcp add vssh -- '' @ vsshBinaryAbsPath iv @ '' mcp):'' @ [NL] @ mcpTOMLSnippet iv @ [NL]
            else ''# Add to your MCP client config (merges under mcpServers.vssh):'' @ [NL]
              @ json_line (json_map [(''mcpServers'', json_map [(''vssh'', mcpServerEntry iv)])]));
          hint = (if client = '''' then
              [NL] @ ''# Auto-install: vssh mcp-install --client '' @ replace_all ''/ai-studio'' ''|gemini'' knownClients @ [NL]
              @ ''# (known clients: '' @ knownClients @ '')'' @ [NL]
            else (case clientConfigPath iv client of
                Some p \<Rightarrow> [NL] @ ''# '' @ client @ '' config: '' @ p @ [NL] @ ''# Auto-merge: vssh mcp-install --client '' @ client @ [NL]
              | None \<Rightarrow> [NL] @ ''# unknown client '' @ go_quote client @ '' (known: '' @ knownClients @ '')'' @ [NL]))
      in says (snippet @ hint))"

section \<open>Merging\<close>

text \<open>A document as \<^verbatim>\<open>map[string]interface{}\<close> holds it: floats for numbers, of members with one name the last.\<close>
fun interface_value :: "(string \<Rightarrow> string) \<Rightarrow> json \<Rightarrow> json" where
  "interface_value fl (JNum n) = JNum (fl n)"
| "interface_value fl (JArr vs) = JArr (map (interface_value fl) vs)"
| "interface_value fl (JObj ms) = json_map (overlay fst (map (\<lambda>(k, v). (k, interface_value fl v)) ms) [])"
| "interface_value fl v = v"

definition backup_path :: "install_env \<Rightarrow> path \<Rightarrow> path" where
  "backup_path iv p = p @ ''.bak.'' @ in_stamp iv"

text \<open>The path, the error and the files.\<close>
definition installMCPServerTOML :: "install_env \<Rightarrow> path \<Rightarrow> fs \<Rightarrow> (path \<times> string option) \<times> fs" where
  "installMCPServerTOML iv p f =
     (let (existing, f1) = (case read_file f p of Inl _ \<Rightarrow> ('''', f) | Inr d \<Rightarrow> (d, snd (write_file (backup_path iv p) d f)));
          sep = (if existing = '''' then '''' else (if has_suffix [NL] existing then '''' else [NL]) @ [NL]);
          (err, f2) = write_file p (existing @ sep @ mcpTOMLSnippet iv @ [NL]) f1
      in if contains ''[mcp_servers.vssh]'' existing then ((p, None), f)
         else ((p, map_option (in_io_err iv) err), f2))"

definition members_of :: "json option \<Rightarrow> (string \<times> json) list" where
  "members_of x = (case x of Some (JObj ms) \<Rightarrow> ms | _ \<Rightarrow> [])"

definition merged_config :: "install_env \<Rightarrow> (string \<times> json) list \<Rightarrow> json" where
  "merged_config iv cfg =
     json_map (put_entry ''mcpServers'' (json_map (put_entry ''vssh'' (mcpServerEntry iv) (members_of (map_of cfg ''mcpServers'')))) cfg)"

text \<open>None is the panic of an assignment to a nil map, which the document \<^verbatim>\<open>null\<close> leaves behind.\<close>
definition installMCPServer :: "install_env \<Rightarrow> string \<Rightarrow> fs \<Rightarrow> (path \<times> string option) option \<times> fs" where
  "installMCPServer iv client f =
     (case clientConfigPath iv client of
        None \<Rightarrow> (Some ('''', Some (''unknown client '' @ go_quote client @ '' (known: '' @ knownClients @ '')'')), f)
      | Some p \<Rightarrow>
          if clientIsTOML client then (let (r, f1) = installMCPServerTOML iv p f in (Some r, f1))
          else
            let store = (\<lambda>cfg f. let (err, f2) = write_file p (marshal_indent 0 (merged_config iv cfg)) f
                   in (Some (p, map_option (in_io_err iv) err), f2));
                bad = (\<lambda>d. (Some (p, Some (''existing config at '' @ p @ '' is not valid JSON: '' @ in_json_err iv d)), f)) in
            (case read_file f p of
               Inl _ \<Rightarrow> store [] f
             | Inr d \<Rightarrow>
                 if trim_space d = '''' then store [] f
                 else let f1 = snd (write_file (backup_path iv p) d f) in
                   (case unmarshal d of
                      Some (JObj ms) \<Rightarrow> store (members_of (Some (interface_value (in_float iv) (JObj ms)))) f1
                    | Some JNull \<Rightarrow> (None, f1)
                    | _ \<Rightarrow> bad d)))"

definition cmdMCPInstall :: "install_env \<Rightarrow> string list \<Rightarrow> fs \<Rightarrow> shown option \<times> fs" where
  "cmdMCPInstall iv args f =
     (let client = parseClientFlag args ''claude''; (r, f1) = installMCPServer iv client f in
      (map_option (\<lambda>(p, err). case err of
           Some e \<Rightarrow> fails (''vssh: '' @ e)
         | None \<Rightarrow> says (''installed vssh MCP server -> '' @ p @ '' (client='' @ client @ '')'' @ [NL]
             @ ''  command: '' @ vsshBinaryAbsPath iv @ '' mcp'' @ [NL] @ ''Restart the client to load it.'' @ [NL])) r, f1))"

section \<open>What the merging keeps\<close>

lemma map_of_sorted: "distinct (map fst xs) \<Longrightarrow> map_of (sort_key fst xs) = map_of xs"
  by (simp add: map_of_inject_set distinct_sort_key)

lemma json_get_map: "distinct (map fst xs) \<Longrightarrow> json_get k (json_map xs) = map_of xs k"
  by (simp add: json_get_def json_map_def map_of_reversed distinct_sort_key map_of_sorted)

lemma interface_members:
  "distinct (map fst (members_of (Some (interface_value fl (JObj ms)))))"
  "map_of (members_of (Some (interface_value fl (JObj ms)))) k = map_option (interface_value fl) (json_get k (JObj ms))"
proof -
  let ?xs = "map (\<lambda>(k, v). (k, interface_value fl v)) ms"
  have d: "distinct (map fst (overlay fst ?xs []))" unfolding overlay_pairs(1) by (rule dedup_seen_distinct)
  then show "distinct (map fst (members_of (Some (interface_value fl (JObj ms)))))"
    by (simp add: members_of_def json_map_def distinct_sort_key)
  have "map_of (members_of (Some (interface_value fl (JObj ms)))) k = map_of (overlay fst ?xs []) k"
    using d by (simp add: members_of_def json_map_def map_of_sorted)
  also have "\<dots> = map_of (map (\<lambda>(k, v). (k, interface_value fl v)) (rev ms)) k" unfolding overlay_pairs(2) by (simp add: rev_map)
  finally show "map_of (members_of (Some (interface_value fl (JObj ms)))) k = map_option (interface_value fl) (json_get k (JObj ms))"
    by (simp add: map_of_map json_get_def)
qed

lemma put_entry_distinct: "distinct (map fst xs) \<Longrightarrow> distinct (map fst (put_entry k v xs))"
  by (simp add: put_entry_keys)

definition servers_of :: "json \<Rightarrow> json" where
  "servers_of cfg = (case json_get ''mcpServers'' cfg of Some v \<Rightarrow> v | None \<Rightarrow> JObj [])"

definition merged_object :: "install_env \<Rightarrow> (string \<times> json) list \<Rightarrow> json" where
  "merged_object iv ms = merged_config iv (members_of (Some (interface_value (in_float iv) (JObj ms))))"

lemma members_json_map: "distinct (map fst xs) \<Longrightarrow> map_of (members_of (Some (json_map xs))) k = map_of xs k"
  by (simp add: members_of_def json_map_def map_of_sorted)

lemma inner_members:
  "map_of (members_of (map_option (interface_value fl) x)) k
     = (case x of Some (JObj ms) \<Rightarrow> map_option (interface_value fl) (json_get k (JObj ms)) | _ \<Rightarrow> None)"
  "distinct (map fst (members_of (map_option (interface_value fl) x)))"
proof -
  have "map_of (members_of (map_option (interface_value fl) x)) k
     = (case x of Some (JObj ms) \<Rightarrow> map_option (interface_value fl) (json_get k (JObj ms)) | _ \<Rightarrow> None)
   \<and> distinct (map fst (members_of (map_option (interface_value fl) x)))"
  proof (cases x)
    case (Some v)
    show ?thesis
    proof (cases v)
      case (JObj ms)
      then show ?thesis using interface_members[of fl ms] Some by (simp del: interface_value.simps)
    qed (simp_all add: Some members_of_def)
  qed (simp add: members_of_def)
  then show "map_of (members_of (map_option (interface_value fl) x)) k
     = (case x of Some (JObj ms) \<Rightarrow> map_option (interface_value fl) (json_get k (JObj ms)) | _ \<Rightarrow> None)"
    "distinct (map fst (members_of (map_option (interface_value fl) x)))" by blast+
qed

text \<open>The merging keeps the members of the document and the other servers, as a reader of floats sees them,
  and sets the entry of vssh.\<close>
theorem merging_keeps_the_rest:
  shows "k \<noteq> ''mcpServers'' \<Longrightarrow> json_get k (merged_object iv ms) = map_option (interface_value (in_float iv)) (json_get k (JObj ms))"
    "json_get ''vssh'' (servers_of (merged_object iv ms)) = Some (mcpServerEntry iv)"
    "json_get ''mcpServers'' (JObj ms) = Some (JObj ss) \<Longrightarrow> s \<noteq> ''vssh'' \<Longrightarrow>
       json_get s (servers_of (merged_object iv ms)) = map_option (interface_value (in_float iv)) (json_get s (JObj ss))"
proof -
  let ?cfg = "members_of (Some (interface_value (in_float iv) (JObj ms)))"
  have d: "distinct (map fst (put_entry k v ?cfg))" for k v
    by (intro put_entry_distinct interface_members(1))
  note get = json_get_map[OF d]
  note top = interface_members(2)[of "in_float iv" ms]
  show "k \<noteq> ''mcpServers'' \<Longrightarrow> json_get k (merged_object iv ms) = map_option (interface_value (in_float iv)) (json_get k (JObj ms))"
    unfolding merged_object_def merged_config_def get top[symmetric] by simp
  let ?ss = "members_of (map_of ?cfg ''mcpServers'')"
  have ss: "servers_of (merged_object iv ms) = json_map (put_entry ''vssh'' (mcpServerEntry iv) ?ss)"
    unfolding servers_of_def merged_object_def merged_config_def get put_entry_get by (simp only: simp_thms if_True option.case)
  have ds: "distinct (map fst (put_entry ''vssh'' (mcpServerEntry iv) ?ss))"
    unfolding top by (intro put_entry_distinct inner_members(2))
  show "json_get ''vssh'' (servers_of (merged_object iv ms)) = Some (mcpServerEntry iv)"
    unfolding ss json_get_map[OF ds] put_entry_get by (simp only: simp_thms if_True)
  have out: "json_get s (servers_of (merged_object iv ms)) = map_of ?ss s" if "s \<noteq> ''vssh''"
    using that unfolding ss json_get_map[OF ds] put_entry_get by (simp only: if_False)
  show "json_get s (servers_of (merged_object iv ms)) = map_option (interface_value (in_float iv)) (json_get s (JObj ss))"
    if a: "json_get ''mcpServers'' (JObj ms) = Some (JObj ss)" "s \<noteq> ''vssh''"
    unfolding out[OF a(2)] top a(1) inner_members(1) by (simp only: option.case json.case)
qed

text \<open>A whole installation into a readable document: the text is kept in a backup and replaced by the merged one.\<close>
theorem install_writes_merged:
  assumes "clientConfigPath iv client = Some p" "\<not> clientIsTOML client" "read_file f p = Inr d"
    "trim_space d \<noteq> ''''" "unmarshal d = Some (JObj ms)"
    "write_file (backup_path iv p) d f = (None, f1)" "write_file p (marshal_indent 0 (merged_object iv ms)) f1 = (None, f2)"
  shows "installMCPServer iv client f = (Some (p, None), f2)"
  using assms by (simp add: installMCPServer_def merged_object_def[symmetric] Let_def del: interface_value.simps)

text \<open>The document \<^verbatim>\<open>null\<close> makes the installation panic, after the backup.\<close>
theorem null_config_panics:
  assumes "clientConfigPath iv client = Some p" "\<not> clientIsTOML client" "read_file f p = Inr ''null''"
  shows "installMCPServer iv client f = (None, snd (write_file (backup_path iv p) ''null'' f))"
proof -
  have "unmarshal ''null'' = Some JNull" "trim_space ''null'' \<noteq> ''''" by code_simp+
  then show ?thesis using assms by (simp add: installMCPServer_def Let_def)
qed

text \<open>A document that exists and cannot be read is replaced by one with vssh alone, and no backup is made.\<close>
theorem unreadable_config_lost:
  assumes "clientConfigPath iv client = Some p" "\<not> clientIsTOML client" "read_file f p = Inl e"
    "write_file p (marshal_indent 0 (merged_config iv [])) f = (None, f1)"
  shows "installMCPServer iv client f = (Some (p, None), f1)"
  using assms by (simp add: installMCPServer_def Let_def)

end
