(* ===== verification/MuxSession.thy ===== *)
theory MuxSession
  imports FileTransfer
begin

text \<open>
  \<^verbatim>\<open>internal/server/mux.go\<close> and \<^verbatim>\<open>mux_pool.go\<close>: the session that runs many commands on one
  connection, the client that drives it, and the client's pool of reusable sessions with its
  retry rule.  The daemon's side is \<open>mux_loop\<close> on the text the client sends; for the pool the
  network is a script of outcomes.
\<close>

section \<open>The daemon\<close>

definition writeMuxJSON :: "conn option \<Rightarrow> exec_result \<Rightarrow> 'pol world \<Rightarrow> 'pol world" where
  "writeMuxJSON cn r w = send cn (marshal (exec_json r) @ [NL]) w"

definition ErrCodeBadResponse :: string where "ErrCodeBadResponse = ''bad_response''"

definition unknown_mux :: exec_result where
  "unknown_mux = exec_zero\<lparr>er_exit := -1, er_error := ''unknown mux command'', er_code := ''unsupported_method''\<rparr>"

text \<open>One line of the session: None ends it.\<close>
definition mux_line :: "denv \<Rightarrow> machine \<Rightarrow> conn option \<Rightarrow> string \<Rightarrow> srv \<Rightarrow> srv option" where
  "mux_line e m cn line s =
     (if line = '''' \<or> line = ''QUIT'' then None
      else if has_prefix ''EXEJ '' line then
        (let (r, s1) = exej_run e m cn (bad_base64 ErrCodeBadResponse) line s
         in Some (on_w (writeMuxJSON cn r) s1))
      else Some (on_w (writeMuxJSON cn unknown_mux) s))"

function mux_loop :: "denv \<Rightarrow> machine \<Rightarrow> conn option \<Rightarrow> string \<Rightarrow> srv \<Rightarrow> srv" where
  "mux_loop e m cn str s =
     (case cut NL str of None \<Rightarrow> s
      | Some (l, rest) \<Rightarrow>
          (case mux_line e m cn (trim_crlf l) s of None \<Rightarrow> s | Some s' \<Rightarrow> mux_loop e m cn rest s'))"
  by pat_completeness auto
termination
proof (relation "measure (\<lambda>(_, _, _, str, _). length str)")
  fix str :: string and l rest x
  assume "cut NL str = Some x" "(l, rest) = x"
  then show "((e, m, cn, rest, s'), e, m, cn, str, s) \<in> measure (\<lambda>(_, _, _, str, _). length str)"
    for e m cn s' s using cut_Some[of NL str l rest] by auto
qed simp

declare mux_loop.simps [simp del]

definition HandleMux :: "denv \<Rightarrow> machine \<Rightarrow> conn option \<Rightarrow> string \<Rightarrow> srv \<Rightarrow> srv" where
  "HandleMux e m cn str s = mux_loop e m cn (snd (read_line str)) (reply cn (''MUX_OK'' @ [NL]) s)"

section \<open>Reading a result\<close>

definition set_str :: "json \<Rightarrow> (string \<Rightarrow> exec_result) \<Rightarrow> exec_result \<Rightarrow> exec_result option" where
  "set_str v f r = (case v of JStr t \<Rightarrow> Some (f t) | JNull \<Rightarrow> Some r | _ \<Rightarrow> None)"

definition set_bool :: "json \<Rightarrow> (bool \<Rightarrow> exec_result) \<Rightarrow> exec_result \<Rightarrow> exec_result option" where
  "set_bool v f r = (case v of JBool b \<Rightarrow> Some (f b) | JNull \<Rightarrow> Some r | _ \<Rightarrow> None)"

definition set_int :: "json \<Rightarrow> (int \<Rightarrow> exec_result) \<Rightarrow> exec_result \<Rightarrow> exec_result option" where
  "set_int v f r =
     (case v of JNum t \<Rightarrow> (case go_atoi t of (i, ok) \<Rightarrow> if ok then Some (f i) else None)
      | JNull \<Rightarrow> Some r | _ \<Rightarrow> None)"

text \<open>One member into the struct: the tags of \<^verbatim>\<open>ExecCommandResult\<close>, case folded.\<close>
definition exec_field :: "string \<Rightarrow> json \<Rightarrow> exec_result \<Rightarrow> exec_result option" where
  "exec_field k v r =
     (let k = to_lower k in
      if k = ''success'' then set_bool v (\<lambda>b. r\<lparr>er_success := b\<rparr>) r
      else if k = ''command'' then set_str v (\<lambda>t. r\<lparr>er_command := t\<rparr>) r
      else if k = ''stdout'' then set_str v (\<lambda>t. r\<lparr>er_stdout := t\<rparr>) r
      else if k = ''stderr'' then set_str v (\<lambda>t. r\<lparr>er_stderr := t\<rparr>) r
      else if k = ''exit_code'' then set_int v (\<lambda>i. r\<lparr>er_exit := i\<rparr>) r
      else if k = ''duration_ms'' then set_int v (\<lambda>i. r\<lparr>er_duration := i\<rparr>) r
      else if k = ''error'' then set_str v (\<lambda>t. r\<lparr>er_error := t\<rparr>) r
      else if k = ''error_code'' then set_str v (\<lambda>t. r\<lparr>er_code := t\<rparr>) r
      else if k = ''retryable'' then set_bool v (\<lambda>b. r\<lparr>er_retryable := b\<rparr>) r
      else Some r)"

fun exec_fields :: "(string \<times> json) list \<Rightarrow> exec_result \<Rightarrow> exec_result option" where
  "exec_fields [] r = Some r"
| "exec_fields ((k, v) # ms) r = (case exec_field k v r of None \<Rightarrow> None | Some r' \<Rightarrow> exec_fields ms r')"

definition exec_of_line :: "string \<Rightarrow> exec_result option" where
  "exec_of_line line =
     (case unmarshal line of Some (JObj ms) \<Rightarrow> exec_fields ms exec_zero
      | Some JNull \<Rightarrow> Some exec_zero | _ \<Rightarrow> None)"

text \<open>What a result becomes on its way: text that is not UTF-8 is replaced.\<close>
definition wire_result :: "exec_result \<Rightarrow> exec_result" where
  "wire_result r =
     r\<lparr>er_command := utf8_fix (er_command r), er_stdout := utf8_fix (er_stdout r), er_stderr := utf8_fix (er_stderr r),
       er_error := utf8_fix (er_error r), er_code := utf8_fix (er_code r)\<rparr>"

definition int64_result :: "exec_result \<Rightarrow> bool" where
  "int64_result r \<longleftrightarrow> min_int64 \<le> er_exit r \<and> er_exit r \<le> max_int64 \<and> min_int64 \<le> er_duration r \<and> er_duration r \<le> max_int64"

lemma exec_fields_append:
  "exec_fields (a @ b) r = (case exec_fields a r of None \<Rightarrow> None | Some r' \<Rightarrow> exec_fields b r')"
  by (induction a r rule: exec_fields.induct) (auto split: option.split)

lemma exec_keys:
  "exec_field ''success'' v r = set_bool v (\<lambda>b. r\<lparr>er_success := b\<rparr>) r"
  "exec_field ''command'' v r = set_str v (\<lambda>t. r\<lparr>er_command := t\<rparr>) r"
  "exec_field ''stdout'' v r = set_str v (\<lambda>t. r\<lparr>er_stdout := t\<rparr>) r"
  "exec_field ''stderr'' v r = set_str v (\<lambda>t. r\<lparr>er_stderr := t\<rparr>) r"
  "exec_field ''exit_code'' v r = set_int v (\<lambda>i. r\<lparr>er_exit := i\<rparr>) r"
  "exec_field ''duration_ms'' v r = set_int v (\<lambda>i. r\<lparr>er_duration := i\<rparr>) r"
  "exec_field ''error'' v r = set_str v (\<lambda>t. r\<lparr>er_error := t\<rparr>) r"
  "exec_field ''error_code'' v r = set_str v (\<lambda>t. r\<lparr>er_code := t\<rparr>) r"
  "exec_field ''retryable'' v r = set_bool v (\<lambda>b. r\<lparr>er_retryable := b\<rparr>) r"
  by (simp_all add: exec_field_def to_lower_def lower_char_def is_upper_def)

lemma utf8_Nil [simp]: "utf8_fix '''' = ''''"
  by (simp add: utf8_fix.simps)

lemma exec_json_fields:
  assumes "int64_result r"
  shows "exec_of_line (marshal (exec_json r)) = Some (wire_result r)"
proof -
  have wf: "json_wf (exec_json r)" by (simp add: exec_json_def)
  have k: "utf8_fix ''success'' = ''success''" "utf8_fix ''command'' = ''command''" "utf8_fix ''stdout'' = ''stdout''"
    "utf8_fix ''stderr'' = ''stderr''" "utf8_fix ''exit_code'' = ''exit_code''" "utf8_fix ''duration_ms'' = ''duration_ms''"
    "utf8_fix ''error'' = ''error''" "utf8_fix ''error_code'' = ''error_code''" "utf8_fix ''retryable'' = ''retryable''"
    by (simp_all add: utf8_fix_ascii is_ascii_def byte_in_def)
  have i: "set_int (JNum (show_int (er_exit r))) f x = Some (f (er_exit r))"
    "set_int (JNum (show_int (er_duration r))) f x = Some (f (er_duration r))" for f x
    using assms by (simp_all add: set_int_def go_atoi_show_int int64_result_def)
  show ?thesis
    unfolding exec_of_line_def unmarshal_marshal[OF wf]
    by (simp add: exec_json_def exec_fields_append exec_keys k i set_str_def set_bool_def json_int_def
        exec_zero_def wire_result_def split: option.split)
qed

section \<open>The client\<close>

definition exej_line :: "string \<Rightarrow> string" where "exej_line c = ''EXEJ '' @ b64_encode c @ [NL]"

definition mux_script :: "string list \<Rightarrow> string" where
  "mux_script cmds = ''MUX'' @ [NL] @ concat (map exej_line cmds) @ ''QUIT'' @ [NL]"

definition bad_mux_response :: exec_result where
  "bad_mux_response = exec_zero\<lparr>er_exit := -1, er_error := ''bad mux response'', er_code := ErrCodeBadResponse\<rparr>"

definition fill_command :: "string \<Rightarrow> exec_result \<Rightarrow> exec_result" where
  "fill_command c r = (if er_command r = '''' then r\<lparr>er_command := c\<rparr> else r)"

text \<open>One answer line per command; the second component is a read error.\<close>
fun mux_collect :: "string \<Rightarrow> string list \<Rightarrow> exec_result list \<times> string option" where
  "mux_collect str [] = ([], None)"
| "mux_collect str (c # cs) =
     (case cut NL str of None \<Rightarrow> ([], Some ''EOF'')
      | Some (l, rest) \<Rightarrow>
          let r = (case exec_of_line l of None \<Rightarrow> bad_mux_response | Some r \<Rightarrow> r);
              (rs, er) = mux_collect rest cs
          in (fill_command c r # rs, er))"

definition RunMux_answers :: "string \<Rightarrow> string list \<Rightarrow> string + (exec_result list \<times> string option)" where
  "RunMux_answers stream cmds =
     (case cut NL stream of None \<Rightarrow> Inl ''mux not supported by daemon''
      | Some (l, rest) \<Rightarrow>
          if has_prefix ''MUX_OK'' l then Inr (mux_collect rest cmds) else Inl ''mux not supported by daemon'')"

text \<open>\<open>RunMux\<close> against the daemon's session.\<close>
definition RunMux :: "denv \<Rightarrow> machine \<Rightarrow> conn \<Rightarrow> string list \<Rightarrow> srv \<Rightarrow> (string + (exec_result list \<times> string option)) \<times> srv" where
  "RunMux e m c cmds s =
     (let s' = HandleMux e m (Some c) (mux_script cmds) s in (RunMux_answers (answers c s s') cmds, s'))"

section \<open>A session is its commands in order\<close>

text \<open>The abstract session: the commands one after the other through the policy, the shell and the
  audit log.\<close>
fun mux_results :: "denv \<Rightarrow> machine \<Rightarrow> conn option \<Rightarrow> string list \<Rightarrow> srv \<Rightarrow> exec_result list \<times> srv" where
  "mux_results e m cn [] s = ([], s)"
| "mux_results e m cn (c # cs) s =
     (let (r, s1) = exec_gated e m cn c s; (rs, s2) = mux_results e m cn cs (on_w (writeMuxJSON cn r) s1)
      in (r # rs, s2))"

text \<open>Exit codes and durations fit in 64 bits.\<close>
definition sane_machine :: "machine \<Rightarrow> bool" where
  "sane_machine m \<longleftrightarrow>
     (\<forall>name args. case m_run_sep m name args of (_, _, fail, ms) \<Rightarrow>
        min_int64 \<le> ms \<and> ms \<le> max_int64 \<and>
        (case fail of Some (Inl k) \<Rightarrow> min_int64 \<le> k \<and> k \<le> max_int64 | _ \<Rightarrow> True))"

lemma exec_gated_facts:
  assumes "exec_gated e m cn c s = (r, s1)"
  shows "w_sent (sv_w s1) = w_sent (sv_w s)" "sane_machine m \<Longrightarrow> int64_result r"
proof -
  obtain d s2 where g: "gate (enforceExecPolicy e cn c) s = (d, s2)" by (cases "gate (enforceExecPolicy e cn c) s")
  obtain w where w: "enforceExecPolicy e cn c (sv_w s) = (d, w)" "s2 = s\<lparr>sv_w := w\<rparr>" using gate_sel[OF g] by blast
  have sent: "w_sent (sv_w s2) = w_sent (sv_w s)" using enforceExecPolicy_frame(3)[OF w(1)] w(2) by simp
  show "w_sent (sv_w s1) = w_sent (sv_w s)"
    using assms g sent by (auto simp: exec_gated_def run_structured_def on_w_def split: option.splits prod.splits)
  have dr: "int64_result (deny_result t)" for t
    by (simp add: int64_result_def deny_result_def exec_zero_def min_int64_def max_int64_def)
  have den: "d = Some x \<Longrightarrow> int64_result x" for x
    using enforceExecPolicy_denial[of e cn c "sv_w s" x w] w(1) dr by auto
  have run: "int64_result (fst (execShellStructured m c cache))" if "sane_machine m" for cache
  proof -
    obtain name args cache' where a: "(case default_account m of Some usr \<Rightarrow> userExecParts m usr (shell_path m) c cache
        | None \<Rightarrow> ((shell_path m, [''-c'', c]), cache)) = ((name, args), cache')" by (metis surj_pair)
    obtain out err fail ms where o: "m_run_sep m name args = (out, err, fail, ms)" by (metis prod_cases4)
    have b: "min_int64 \<le> ms \<and> ms \<le> max_int64 \<and> (case fail of Some (Inl k) \<Rightarrow> min_int64 \<le> k \<and> k \<le> max_int64 | _ \<Rightarrow> True)"
      using that[unfolded sane_machine_def, rule_format, of name args] o by simp
    show ?thesis
      unfolding execShellStructured_def a Let_def prod.case fst_conv snd_conv o
      using b by (cases fail) (auto simp: int64_result_def exec_zero_def min_int64_def max_int64_def split: sum.split)
  qed
  show "sane_machine m \<Longrightarrow> int64_result r"
    using assms g den run[of "sv_login s2"]
    by (auto simp: exec_gated_def run_structured_def ExecLocalStructured_def split: option.splits prod.splits)
qed

definition result_lines :: "exec_result list \<Rightarrow> string list" where
  "result_lines rs = map (\<lambda>r. marshal (exec_json r)) rs"

lemma exec_json_line: "NL \<notin> set (marshal (exec_json r))"
  by (rule marshal_no_nl) (simp add: exec_json_def)

lemma exej_line_cut:
  "cut NL (exej_line c @ rest) = Some (''EXEJ '' @ b64_encode c, rest)"
  "trim_crlf (''EXEJ '' @ b64_encode c) = ''EXEJ '' @ b64_encode c"
proof -
  have "NL \<notin> set (b64_encode c)" using b64_encode_clean[of NL c] by blast
  then have "NL \<notin> set (''EXEJ '' @ b64_encode c)" by simp
  then show "cut NL (exej_line c @ rest) = Some (''EXEJ '' @ b64_encode c, rest)"
    using cut_lines[of "''EXEJ '' @ b64_encode c" rest] by (simp add: exej_line_def)
  have "\<not> (last (''EXEJ '' @ b64_encode c) = CR \<or> last (''EXEJ '' @ b64_encode c) = NL)"
    using b64_encode_clean[of "last (b64_encode c)" c] by (cases "b64_encode c = []") auto
  then show "trim_crlf (''EXEJ '' @ b64_encode c) = ''EXEJ '' @ b64_encode c"
    unfolding trim_crlf_def by (intro trim_right_by_id) simp
qed

lemma mux_line_exej:
  "mux_line e m cn (''EXEJ '' @ b64_encode c) s =
     (let (r, s1) = exec_gated e m cn c s in Some (on_w (writeMuxJSON cn r) s1))"
proof -
  have t: "trim_prefix ''EXEJ '' (''EXEJ '' @ b64_encode c) = b64_encode c" by (rule trim_prefix_append)
  have h: "has_prefix ''EXEJ '' (''EXEJ '' @ b64_encode c)" by (rule has_prefix_append)
  have ne: "''EXEJ '' @ b64_encode c \<noteq> ''''" "''EXEJ '' @ b64_encode c \<noteq> ''QUIT''" by simp_all
  show ?thesis
    unfolding mux_line_def exej_run_def t if_P[OF h] using ne by (simp del: append.simps)
qed

lemma writeMux_sent: "w_sent (sv_w (on_w (writeMuxJSON (Some c) r) s)) c = w_sent (sv_w s) c @ [marshal (exec_json r) @ [NL]]"
  by (simp add: on_w_def writeMuxJSON_def send_sent)

lemma mux_quit: "mux_loop e m cn (''QUIT'' @ [NL]) s = s"
proof -
  have c: "cut NL (''QUIT'' @ [NL]) = Some (''QUIT'', '''')" by (rule cut_snoc) simp
  have t: "trim_crlf ''QUIT'' = ''QUIT''" by code_simp
  show ?thesis unfolding mux_loop.simps[of e m cn "''QUIT'' @ [NL]"] c option.case prod.case t mux_line_def by simp
qed

lemma mux_loop_cmds:
  "mux_loop e m (Some c) (concat (map exej_line cmds) @ ''QUIT'' @ [NL]) s = snd (mux_results e m (Some c) cmds s) \<and>
    w_sent (sv_w (snd (mux_results e m (Some c) cmds s))) c =
      w_sent (sv_w s) c @ map (\<lambda>l. l @ [NL]) (result_lines (fst (mux_results e m (Some c) cmds s)))"
proof (induction cmds arbitrary: s)
  case Nil
  show ?case using mux_quit by (simp add: result_lines_def)
next
  case (Cons x cmds)
  obtain r s1 where r: "exec_gated e m (Some c) x s = (r, s1)" by (cases "exec_gated e m (Some c) x s")
  let ?s2 = "on_w (writeMuxJSON (Some c) r) s1"
  obtain rs s3 where rs: "mux_results e m (Some c) cmds ?s2 = (rs, s3)" by (cases "mux_results e m (Some c) cmds ?s2")
  let ?rest = "concat (map exej_line cmds) @ ''QUIT'' @ [NL]"
  have "mux_loop e m (Some c) (exej_line x @ ?rest) s = mux_loop e m (Some c) ?rest ?s2"
    unfolding mux_loop.simps[of e m "Some c" "exej_line x @ ?rest"] exej_line_cut option.case prod.case mux_line_exej r Let_def
    by (simp only: prod.case option.case)
  then show ?case
    using Cons.IH[of ?s2] r rs writeMux_sent[of c r s1] exec_gated_facts(1)[OF r]
    by (simp add: result_lines_def)
qed

lemma mux_collect_lines:
  "list_all int64_result rs \<Longrightarrow> length rs = length cmds \<Longrightarrow>
    mux_collect (concat (map (\<lambda>l. l @ [NL]) (result_lines rs))) cmds =
      (map2 (\<lambda>c r. fill_command c (wire_result r)) cmds rs, None)"
proof (induction rs arbitrary: cmds)
  case Nil
  then show ?case by simp
next
  case (Cons r rs)
  then obtain c cs where c: "cmds = c # cs" by (cases cmds) auto
  let ?rest = "concat (map (\<lambda>l. l @ [NL]) (result_lines rs))"
  have "cut NL ((marshal (exec_json r) @ [NL]) @ ?rest) = Some (marshal (exec_json r), ?rest)"
    by (rule cut_lines[OF exec_json_line])
  moreover have "concat (map (\<lambda>l. l @ [NL]) (result_lines (r # rs))) = (marshal (exec_json r) @ [NL]) @ ?rest"
    by (simp add: result_lines_def)
  ultimately show ?case
    using Cons exec_json_fields[of r] unfolding c mux_collect.simps by simp
qed

lemma mux_results_length: "length (fst (mux_results e m cn cmds s)) = length cmds"
  by (induction cmds arbitrary: s) (auto split: prod.split, metis fst_conv)

lemma mux_results_int64: "sane_machine m \<Longrightarrow> list_all int64_result (fst (mux_results e m cn cmds s))"
proof (induction cmds arbitrary: s)
  case (Cons c cs)
  obtain r s1 where r: "exec_gated e m cn c s = (r, s1)" by (cases "exec_gated e m cn c s")
  show ?case
    using Cons exec_gated_facts(2)[OF r] r by (simp add: split_beta)
qed simp

text \<open>C7: a multiplexed session returns one result per command, in order: whatever the commands and
  their output are, the client of \<open>RunMux\<close> gets back exactly what the daemon computed by putting
  the commands one after the other through policy, shell and audit log (text that is not UTF-8
  replaced, the command filled in where the daemon left it out), and the daemon ends in the state
  of that sequence.\<close>
theorem RunMux_refines_sequence:
  assumes "sane_machine m"
  shows "RunMux e m c cmds s =
    (let (rs, s') = mux_results e m (Some c) cmds (reply (Some c) (''MUX_OK'' @ [NL]) s)
     in (Inr (map2 (\<lambda>x r. fill_command x (wire_result r)) cmds rs, None), s'))"
proof -
  define start where "start = (\<lambda>c s. reply (Some c) (''MUX_OK'' @ [NL]) s)"
  obtain rs s' where rs: "mux_results e m (Some c) cmds (start c s) = (rs, s')"
    by (cases "mux_results e m (Some c) cmds (start c s)")
  have ml: "snd (read_line (mux_script cmds)) = concat (map exej_line cmds) @ ''QUIT'' @ [NL]"
    by (simp add: mux_script_def read_line_def)
  have h: "HandleMux e m (Some c) (mux_script cmds) s = s'"
    using mux_loop_cmds[of e m c cmds "start c s"] rs by (simp add: HandleMux_def ml start_def)
  have sent: "w_sent (sv_w s') c = w_sent (sv_w s) c @ [''MUX_OK'' @ [NL]] @ map (\<lambda>l. l @ [NL]) (result_lines rs)"
    using mux_loop_cmds[of e m c cmds "start c s"] rs by (simp add: start_def)
  have an: "answers c s s' = (''MUX_OK'' @ [NL]) @ concat (map (\<lambda>l. l @ [NL]) (result_lines rs))"
    by (simp add: answers_def sent)
  have ct: "cut NL ((''MUX_OK'' @ [NL]) @ concat (map (\<lambda>l. l @ [NL]) (result_lines rs))) =
      Some (''MUX_OK'', concat (map (\<lambda>l. l @ [NL]) (result_lines rs)))" by (rule cut_lines) simp
  have "list_all int64_result rs" "length rs = length cmds"
    using mux_results_int64[OF assms(1), of e "Some c" cmds "start c s"]
      mux_results_length[of e m "Some c" cmds "start c s"] rs by simp_all
  from mux_collect_lines[OF this] show ?thesis
    unfolding RunMux_def h Let_def an RunMux_answers_def ct option.case prod.case rs[unfolded start_def] by simp
qed

lemma sane_machine0: "sane_machine machine0"
  by (simp add: sane_machine_def machine0_def min_int64_def max_int64_def)

lemma RunMux_witness:
  "length (fst (projr (fst (RunMux env0 machine0 7 [''id'', ''pwd''] (srv_of world0))))) = 2"
  unfolding RunMux_refines_sequence[OF sane_machine0] by (simp add: split_beta)

section \<open>The pool of sessions\<close>

text \<open>What the network does: an attempt to dial and open a session, and a round trip, which brings
  an answer line (with the error a failed decoding would have) or an error; in the error case the
  flag says whether the daemon ran the command all the same.\<close>
datatype dial_outcome = DialFail string | NoMuxAnswer bool | MuxOk
datatype trip = Line string string | Broken string bool

text \<open>One session of the pool, the outcomes to come, and two observations: how often a command was
  sent and how often the daemon ran it.\<close>
record pool =
  mx_open :: bool
  mx_nomux :: bool
  mx_dials :: "dial_outcome list"
  mx_trips :: "trip list"
  mx_sent :: nat
  mx_ran :: nat

definition safeToRetry :: "string \<Rightarrow> bool" where
  "safeToRetry s =
     (if contains ''timeout'' s \<or> contains ''deadline exceeded'' s then False
      else contains ''EOF'' s \<or> contains ''connection reset'' s \<or> contains ''broken pipe'' s \<or> contains ''use of closed'' s)"

definition classifyDialError :: "string option \<Rightarrow> string \<times> bool" where
  "classifyDialError er =
     (case er of None \<Rightarrow> ('''', False)
      | Some s \<Rightarrow>
          if contains ''i/o timeout'' s \<or> contains ''deadline exceeded'' s then (''timeout'', True)
          else if contains ''no such host'' s \<or> contains ''refused'' s \<or> contains ''no route'' s \<or> contains ''unreachable'' s
            \<or> contains ''connection reset'' s \<or> contains ''broken pipe'' s then (''unreachable'', True)
          else (''unreachable'', True))"

definition errResult :: "string \<Rightarrow> string \<Rightarrow> exec_result" where
  "errResult cmd er =
     (let (code, retry) = classifyDialError (Some er) in
      exec_zero\<lparr>er_command := cmd, er_exit := -1, er_error := er, er_code := code, er_retryable := retry\<rparr>)"

text \<open>Whether the session is there, and the dial error.\<close>
definition establish :: "pool \<Rightarrow> (bool \<times> string option) \<times> pool" where
  "establish s =
     (case mx_dials s of
        [] \<Rightarrow> ((False, Some ''connection refused''), s)
      | DialFail er # ds \<Rightarrow> ((False, Some er), s\<lparr>mx_dials := ds\<rparr>)
      | NoMuxAnswer clean # ds \<Rightarrow> ((False, None), s\<lparr>mx_dials := ds, mx_nomux := mx_nomux s \<or> clean\<rparr>)
      | MuxOk # ds \<Rightarrow> ((True, None), s\<lparr>mx_dials := ds, mx_open := True\<rparr>))"

definition remote_exit :: "exec_result \<Rightarrow> exec_result" where
  "remote_exit r =
     (if \<not> er_success r \<and> er_code r = '''' \<and> 0 < er_exit r then r\<lparr>er_code := ''remote_exit_nonzero''\<rparr> else r)"

definition trip_outcome :: "string \<Rightarrow> trip \<Rightarrow> string + exec_result" where
  "trip_outcome cmd t =
     (case t of Broken er _ \<Rightarrow> Inl er
      | Line l jerr \<Rightarrow>
          (case exec_of_line l of None \<Rightarrow> Inl jerr | Some r \<Rightarrow> Inr (remote_exit (fill_command cmd r))))"

definition trip_ran :: "trip \<Rightarrow> bool" where
  "trip_ran t = (case t of Broken _ b \<Rightarrow> b | Line _ _ \<Rightarrow> True)"

definition roundtrip :: "string \<Rightarrow> pool \<Rightarrow> (string + exec_result) \<times> pool" where
  "roundtrip cmd s =
     (case mx_trips s of
        [] \<Rightarrow> (Inl ''i/o timeout'', s\<lparr>mx_sent := Suc (mx_sent s)\<rparr>)
      | t # ts \<Rightarrow> (trip_outcome cmd t,
          s\<lparr>mx_trips := ts, mx_sent := Suc (mx_sent s), mx_ran := mx_ran s + (if trip_ran t then 1 else 0)\<rparr>))"

definition closeLocked :: "pool \<Rightarrow> pool" where "closeLocked s = s\<lparr>mx_open := False\<rparr>"

text \<open>The part of \<open>execViaMux\<close> behind an open session.\<close>
definition mux_attempt :: "string \<Rightarrow> bool \<Rightarrow> pool \<Rightarrow> (exec_result \<times> bool \<times> string option) \<times> pool" where
  "mux_attempt cmd reused s =
     (case roundtrip cmd s of
        (Inr r, s1) \<Rightarrow> ((r, True, None), s1)
      | (Inl er, s1) \<Rightarrow>
          let s2 = closeLocked s1; give_up = (\<lambda>s. ((errResult cmd er, True, Some er), s)) in
          if reused \<and> safeToRetry er then
            (case establish s2 of
               ((True, None), s3) \<Rightarrow>
                 (case roundtrip cmd s3 of
                    (Inr r, s4) \<Rightarrow> ((r, True, None), s4)
                  | (Inl _, s4) \<Rightarrow> give_up (closeLocked s4))
             | (_, s3) \<Rightarrow> give_up s3)
          else give_up s2)"

definition execViaMux :: "string \<Rightarrow> pool \<Rightarrow> (exec_result \<times> bool \<times> string option) \<times> pool" where
  "execViaMux cmd s =
     (if mx_nomux s then ((exec_zero, False, None), s)
      else if mx_open s then mux_attempt cmd True s
      else (case establish s of
          ((True, _), s1) \<Rightarrow> mux_attempt cmd False s1
        | ((False, Some er), s1) \<Rightarrow> ((errResult cmd er, True, Some er), s1)
        | ((False, None), s1) \<Rightarrow> ((exec_zero, False, None), s1)))"

section \<open>At most once\<close>

text \<open>The network behaves as the retry rule expects: an error that counts as safe to retry was one
  the daemon answered without running the command.\<close>
definition trip_fair :: "string \<Rightarrow> trip \<Rightarrow> bool" where
  "trip_fair cmd t \<longleftrightarrow> (case trip_outcome cmd t of Inl er \<Rightarrow> safeToRetry er \<longrightarrow> \<not> trip_ran t | Inr _ \<Rightarrow> True)"

lemma establish_sel:
  "establish s = (r, s') \<Longrightarrow> mx_trips s' = mx_trips s \<and> mx_sent s' = mx_sent s \<and> mx_ran s' = mx_ran s"
  by (auto simp: establish_def split: list.splits dial_outcome.splits)

lemma roundtrip_sent: "roundtrip cmd s = (r, s') \<Longrightarrow> mx_sent s' = Suc (mx_sent s) \<and> mx_ran s' \<le> Suc (mx_ran s)
    \<and> set (mx_trips s') \<subseteq> set (mx_trips s)"
  by (auto simp: roundtrip_def split: list.splits)

lemma roundtrip_fair:
  "roundtrip cmd s = (Inl er, s') \<Longrightarrow> safeToRetry er \<Longrightarrow> \<forall>t \<in> set (mx_trips s). trip_fair cmd t \<Longrightarrow> mx_ran s' = mx_ran s"
  by (auto simp: roundtrip_def trip_fair_def split: list.splits)

lemma closeLocked_sel [simp]:
  "mx_trips (closeLocked s) = mx_trips s" "mx_sent (closeLocked s) = mx_sent s" "mx_ran (closeLocked s) = mx_ran s"
  by (simp_all add: closeLocked_def)

lemma mux_attempt_bounds:
  "let s' = snd (mux_attempt cmd reused s) in
    mx_sent s' \<le> mx_sent s + (if reused then 2 else 1) \<and> mx_ran s' \<le> mx_ran s + (if reused then 2 else 1) \<and>
    ((\<forall>t \<in> set (mx_trips s). trip_fair cmd t) \<longrightarrow> mx_ran s' \<le> Suc (mx_ran s))"
proof -
  obtain r s1 where r: "roundtrip cmd s = (r, s1)" by (cases "roundtrip cmd s")
  note R = roundtrip_sent[OF r]
  show ?thesis
  proof (cases r)
    case (Inr x)
    with r R show ?thesis by (auto simp: mux_attempt_def)
  next
    case (Inl er)
    show ?thesis
    proof (cases "reused \<and> safeToRetry er")
      case False
      with Inl r R show ?thesis by (auto simp: mux_attempt_def Let_def)
    next
      case True
      obtain e s3 where e: "establish (closeLocked s1) = (e, s3)" by (cases "establish (closeLocked s1)")
      obtain r4 s4 where r4: "roundtrip cmd s3 = (r4, s4)" by (cases "roundtrip cmd s3")
      note E = establish_sel[OF e] and R4 = roundtrip_sent[OF r4]
      have "(\<forall>t \<in> set (mx_trips s). trip_fair cmd t) \<longrightarrow> mx_ran s1 = mx_ran s"
        using roundtrip_fair[of cmd s er s1] r Inl True by simp
      with True Inl r R e E r4 R4 show ?thesis
        by (auto simp: mux_attempt_def Let_def split: prod.splits bool.splits option.splits sum.splits)
    qed
  qed
qed

text \<open>C14: a command given to the pool reaches the daemon at most twice, and only a reused session
  repeats it; when every error the rule calls safe was one before the daemon ran the command, the
  daemon runs it at most once.\<close>
theorem pool_at_most_once:
  "let s' = snd (execViaMux cmd s) in
    mx_sent s' \<le> mx_sent s + (if mx_open s then 2 else 1) \<and>
    ((\<forall>t \<in> set (mx_trips s). trip_fair cmd t) \<longrightarrow> mx_ran s' \<le> Suc (mx_ran s))"
proof (cases "mx_nomux s \<or> mx_open s")
  case True
  then show ?thesis using mux_attempt_bounds[of cmd True s] by (auto simp: execViaMux_def Let_def)
next
  case False
  obtain r s1 where e: "establish s = (r, s1)" by (cases "establish s")
  show ?thesis
    using False e establish_sel[OF e] mux_attempt_bounds[of cmd False s1]
    by (auto simp: execViaMux_def Let_def split: prod.splits bool.splits option.splits)
qed

definition pool0 :: "trip list \<Rightarrow> pool" where
  "pool0 ts = \<lparr>mx_open = True, mx_nomux = False, mx_dials = [MuxOk], mx_trips = ts, mx_sent = 0, mx_ran = 0\<rparr>"

definition done_line :: string where "done_line = marshal (exec_json (exec_zero\<lparr>er_success := True\<rparr>))"

lemma eof_safe: "safeToRetry ''EOF'' = True"
  by code_simp

lemma pool_at_most_once_witness: "mx_ran (snd (execViaMux ''id'' (pool0 [Broken ''EOF'' False, Line done_line '''']))) \<le> 1"
proof -
  have "int64_result (exec_zero\<lparr>er_success := True\<rparr>)"
    by (simp add: int64_result_def exec_zero_def min_int64_def max_int64_def)
  then have "exec_of_line done_line = Some (wire_result (exec_zero\<lparr>er_success := True\<rparr>))"
    unfolding done_line_def by (rule exec_json_fields)
  then have "\<forall>t \<in> set (mx_trips (pool0 [Broken ''EOF'' False, Line done_line ''''])). trip_fair ''id'' t"
    by (simp add: pool0_def trip_fair_def trip_outcome_def trip_ran_def)
  then show ?thesis
    using pool_at_most_once[of "''id''" "pool0 [Broken ''EOF'' False, Line done_line '''']"]
    by (simp add: Let_def pool0_def)
qed

text \<open>The rule is wrong about a daemon that dies after running the command and before answering: the
  reused session ends in EOF, the pool runs the command again and reports one success.\<close>
lemma pool_runs_twice:
  assumes "mx_open s" "\<not> mx_nomux s" "mx_dials s = MuxOk # ds"
    and "mx_trips s = Broken ''EOF'' True # Line l jerr # ts" "exec_of_line l = Some r"
  shows "mx_ran (snd (execViaMux cmd s)) = mx_ran s + 2 \<and> snd (snd (fst (execViaMux cmd s))) = None"
  using assms eof_safe
  by (simp add: execViaMux_def mux_attempt_def roundtrip_def trip_outcome_def trip_ran_def establish_def closeLocked_def Let_def)

end
