(* ===== verification/TransferAdv.thy ===== *)
theory TransferAdv
  imports FileTransfer
begin

text \<open>
  \<^verbatim>\<open>internal/server/transfer_advanced.go\<close>, \<^verbatim>\<open>sync.go\<close> and \<^verbatim>\<open>relay.go\<close>: the compressed,
  resumable, multiplexed and piped transfers, the parallel download, SYNC, RELAY, and the RPC verb
  with its authorization.  MD5, decompression and dialling a TCP target are arguments.  \<^verbatim>\<open>make\<close>
  of a negative or unallocatable length panics (None).
\<close>

section \<open>Shared steps\<close>

definition make_ok :: "machine \<Rightarrow> int \<Rightarrow> bool" where
  "make_ok m n \<longleftrightarrow> 0 \<le> n \<and> n \<le> m_alloc m"

text \<open>\<^verbatim>\<open>io.ReadFull\<close> into a fresh slice whose error is ignored: missing bytes stay zero.\<close>
definition fill :: "int \<Rightarrow> bytes \<Rightarrow> bytes" where
  "fill n d = take (nat n) d @ replicate (nat n - length d) CHR 0x00"

definition same_sum :: "hash \<Rightarrow> fs \<Rightarrow> path \<Rightarrow> string \<Rightarrow> bool" where
  "same_sum md5 f p sm = (case read_file f p of Inl _ \<Rightarrow> False | Inr d \<Rightarrow> hex_encode (md5 d) = sm)"

definition md5_mismatch :: string where "md5_mismatch = ''ERROR md5 mismatch'' @ [NL]"

text \<open>Store received data when its checksum is the announced one; \<open>what\<close> stands before the text of
  a write error.\<close>
definition store_checked ::
  "hash \<Rightarrow> conn option \<Rightarrow> path \<Rightarrow> string \<Rightarrow> bytes \<Rightarrow> string \<Rightarrow> string \<Rightarrow> srv \<Rightarrow> srv" where
  "store_checked md5 cn p sm d what ok s =
     (if hex_encode (md5 d) \<noteq> sm then reply cn md5_mismatch s
      else (case write_file p d (sv_fs s) of
          (Some er, _) \<Rightarrow> reply cn (''ERROR '' @ what @ io_text (''open '' @ p) er @ [NL]) s
        | (None, f) \<Rightarrow> reply cn (ok @ [NL]) (set_fs f s)))"

section \<open>Compressed and piped uploads\<close>

definition putz_args :: "string \<Rightarrow> int \<times> int \<times> string \<times> path" where
  "putz_args cmd =
     (let vs = sscanf [SLit ''PUTZ'', SSpace, SInt, SSpace, SInt, SSpace, SStr, SSpace, SStr] cmd
      in (arg_int vs 0, arg_int vs 1, arg_str vs 2, arg_str vs 3))"

definition HandlePutZ ::
  "denv \<Rightarrow> hash \<Rightarrow> (bytes \<Rightarrow> string + bytes) \<Rightarrow> machine \<Rightarrow> conn option \<Rightarrow> string \<Rightarrow> bytes \<Rightarrow> srv \<Rightarrow> srv option" where
  "HandlePutZ e md5 inflate m cn cmd d s =
     (case gate (policyBlockUnscoped e cn ''PUTZ'') s of
        (True, s1) \<Rightarrow> Some s1
      | (False, s1) \<Rightarrow>
          let (csize, osize, sm, path0) = putz_args cmd;
              p = expandTransferPath m path0 (effectiveTransferUser m)
          in if same_sum md5 (sv_fs s1) p sm then Some (reply cn (''SKIP'' @ [NL]) s1)
             else let s2 = reply cn (''READY'' @ [NL]) s1 in
               if \<not> make_ok m csize then None
               else Some (case inflate (fill csize d) of
                   Inl er \<Rightarrow> reply cn (''ERROR decompress: '' @ er @ [NL]) s2
                 | Inr x \<Rightarrow> store_checked md5 cn p sm x ''write: '' (''OK '' @ show_int osize) s2))"

definition pipe_args :: "string \<Rightarrow> path \<times> int \<times> string" where
  "pipe_args cmd =
     (let vs = sscanf [SLit ''PIPE_UP'', SSpace, SStr, SSpace, SInt, SSpace, SStr] cmd
      in (arg_str vs 0, arg_int vs 1, arg_str vs 2))"

definition HandlePipeUp :: "denv \<Rightarrow> hash \<Rightarrow> machine \<Rightarrow> conn option \<Rightarrow> string \<Rightarrow> bytes \<Rightarrow> srv \<Rightarrow> srv option" where
  "HandlePipeUp e md5 m cn cmd d s =
     (case gate (policyBlockUnscoped e cn ''PIPE_UP'') s of
        (True, s1) \<Rightarrow> Some s1
      | (False, s1) \<Rightarrow>
          let (path0, n, sm) = pipe_args cmd;
              p = expandTransferPath m path0 (effectiveTransferUser m);
              s2 = reply cn (''READY'' @ [NL]) s1
          in if \<not> make_ok m n then None
             else Some (store_checked md5 cn p sm (fill n d) '''' ''OK'' s2))"

definition HandlePipeDown :: "denv \<Rightarrow> machine \<Rightarrow> conn option \<Rightarrow> string \<Rightarrow> srv \<Rightarrow> srv" where
  "HandlePipeDown e m cn cmd s =
     (case gate (policyBlockUnscoped e cn ''PIPE_DOWN'') s of
        (True, s1) \<Rightarrow> s1
      | (False, s1) \<Rightarrow>
          let ((out, _), s2) = run_shell m (trim_space (trim_prefix ''PIPE_DOWN '' cmd)) s1
          in reply cn out s2)"

section \<open>Resume\<close>

definition resume_args :: "string \<Rightarrow> path \<times> int \<times> string" where
  "resume_args cmd =
     (let vs = sscanf [SLit ''RESUME'', SSpace, SStr, SSpace, SInt, SSpace, SStr] cmd
      in (arg_str vs 0, arg_int vs 1, arg_str vs 2))"

text \<open>The partial file, completed or restarted: an open that fails receives nothing.\<close>
definition resume_receive :: "conn option \<Rightarrow> path \<Rightarrow> int \<Rightarrow> bytes \<Rightarrow> srv \<Rightarrow> srv" where
  "resume_receive cn tmp n d s =
     (case file_text (sv_fs s) tmp of
        Some old \<Rightarrow>
          let s1 = reply cn (''CONTINUE '' @ show_nat (length old) @ [NL]) s
          in set_fs (snd (append_file tmp (take (nat (n - int (length old))) d) (sv_fs s1))) s1
      | None \<Rightarrow>
          let s1 = reply cn (''RESTART'' @ [NL]) s
          in set_fs (snd (write_file tmp (take (nat n) d) (sv_fs s1))) s1)"

definition resume_finish :: "hash \<Rightarrow> conn option \<Rightarrow> path \<Rightarrow> path \<Rightarrow> int \<Rightarrow> string \<Rightarrow> srv \<Rightarrow> srv" where
  "resume_finish md5 cn tmp p n sm s =
     (let d = (case read_file (sv_fs s) tmp of Inl _ \<Rightarrow> '''' | Inr x \<Rightarrow> x) in
      if hex_encode (md5 d) = sm
      then reply cn (''OK '' @ show_int n @ [NL]) (set_fs (snd (rename_file tmp p (sv_fs s))) s)
      else reply cn md5_mismatch (set_fs (remove_file tmp (sv_fs s)) s))"

definition HandleResume :: "denv \<Rightarrow> hash \<Rightarrow> machine \<Rightarrow> conn option \<Rightarrow> string \<Rightarrow> bytes \<Rightarrow> srv \<Rightarrow> srv" where
  "HandleResume e md5 m cn cmd d s =
     (case gate (policyBlockUnscoped e cn ''RESUME'') s of
        (True, s1) \<Rightarrow> s1
      | (False, s1) \<Rightarrow>
          let (path0, n, sm) = resume_args cmd;
              p = expandTransferPath m path0 (effectiveTransferUser m);
              tmp = p @ ''.tmp''
          in if same_sum md5 (sv_fs s1) p sm then reply cn (''SKIP'' @ [NL]) s1
             else resume_finish md5 cn tmp p n sm (resume_receive cn tmp n d s1))"

section \<open>Many files on one connection\<close>

definition file_args :: "string \<Rightarrow> path \<times> int \<times> string" where
  "file_args line =
     (let vs = sscanf [SLit ''FILE'', SSpace, SStr, SSpace, SInt, SSpace, SStr] line
      in (arg_str vs 0, arg_int vs 1, arg_str vs 2))"

text \<open>One file: a write that fails is confirmed all the same.\<close>
definition mput_file :: "hash \<Rightarrow> machine \<Rightarrow> conn option \<Rightarrow> string \<Rightarrow> bytes \<Rightarrow> srv \<Rightarrow> (bytes \<times> srv) option" where
  "mput_file md5 m cn line rest s =
     (let (path0, n, sm) = file_args line;
          p = expandTransferPath m path0 (effectiveTransferUser m);
          d = fill n rest
      in if \<not> make_ok m n then None
         else Some (drop (nat n) rest,
           if hex_encode (md5 d) = sm
           then reply cn (''OK'' @ [NL]) (set_fs (snd (write_file p d (sv_fs s))) s)
           else reply cn md5_mismatch s))"

fun mput_loop :: "hash \<Rightarrow> machine \<Rightarrow> conn option \<Rightarrow> nat \<Rightarrow> bytes \<Rightarrow> srv \<Rightarrow> srv option" where
  "mput_loop md5 m cn 0 str s = Some s"
| "mput_loop md5 m cn (Suc k) str s =
     (let (line, rest) = read_line str in
      if has_prefix ''DONE'' line then Some s
      else (case mput_file md5 m cn line rest s of None \<Rightarrow> None
            | Some (rest', s') \<Rightarrow> mput_loop md5 m cn k rest' s'))"

definition HandleMPut :: "denv \<Rightarrow> hash \<Rightarrow> machine \<Rightarrow> conn option \<Rightarrow> string \<Rightarrow> bytes \<Rightarrow> srv \<Rightarrow> srv option" where
  "HandleMPut e md5 m cn cmd str s =
     (case gate (policyBlockUnscoped e cn ''MPUT'') s of
        (True, s1) \<Rightarrow> Some s1
      | (False, s1) \<Rightarrow>
          mput_loop md5 m cn (nat (arg_int (sscanf [SLit ''MPUT'', SSpace, SInt] cmd) 0)) str
            (reply cn (''READY'' @ [NL]) s1))"

section \<open>Parallel download\<close>

definition home_path :: "machine \<Rightarrow> path \<Rightarrow> path" where
  "home_path m p = (if p \<noteq> '''' \<and> hd p = CHR ''~'' then m_home m @ tl p else p)"

text \<open>How many connections a file of a size gets for a request.\<close>
definition clamp_conns :: "int \<Rightarrow> int \<Rightarrow> int" where
  "clamp_conns n sz =
     (let k = (if 8 < n then 8 else n) in if sz < wrap64 (wrap64 (k * 1024) * 1024) then 1 else k)"

text \<open>\<open>sid\<close> is the session id, the time in nanoseconds as hexadecimal text.\<close>
definition HandleGetM :: "denv \<Rightarrow> hash \<Rightarrow> machine \<Rightarrow> string \<Rightarrow> conn option \<Rightarrow> string \<Rightarrow> srv \<Rightarrow> srv" where
  "HandleGetM e md5 m sid cn cmd s =
     (case gate (policyBlockUnscoped e cn ''GETM'') s of
        (True, s1) \<Rightarrow> s1
      | (False, s1) \<Rightarrow>
          let vs = sscanf [SLit ''GETM'', SSpace, SStr, SSpace, SInt] cmd;
              p = home_path m (arg_str vs 0)
          in (case read_file (sv_fs s1) p of
                Inl er \<Rightarrow> reply cn (error_line (io_text (''open '' @ p) er)) s1
              | Inr d \<Rightarrow>
                  let sz = int (length d); sm = hex_encode (md5 d); k = clamp_conns (arg_int vs 1) sz;
                      ses = \<lparr>ps_path = p, ps_size = sz, ps_hash = sm, ps_conns = k, ps_created = w_now (sv_w s1)\<rparr>
                  in reply cn (''OK '' @ sid @ '' '' @ show_int sz @ '' '' @ sm @ '' '' @ show_int k @ [NL])
                       (s1\<lparr>sv_sessions := (sv_sessions s1)(sid \<mapsto> ses)\<rparr>)))"

text \<open>Offset and length of a chunk, None for the division by zero.\<close>
definition chunk_range :: "int \<Rightarrow> int \<Rightarrow> int \<Rightarrow> (int \<times> int) option" where
  "chunk_range sz k i =
     (if k = 0 then None
      else let c = wrap64 (go_quot sz k); off = wrap64 (i * c)
           in Some (off, if i = wrap64 (k - 1) then wrap64 (sz - off) else c))"

text \<open>A seek to a negative offset fails and leaves the start.\<close>
definition chunk_bytes :: "bytes \<Rightarrow> int \<Rightarrow> int \<Rightarrow> bytes" where
  "chunk_bytes d off len = take (nat len) (drop (nat off) d)"

definition HandleGetC :: "denv \<Rightarrow> conn option \<Rightarrow> string \<Rightarrow> srv \<Rightarrow> srv option" where
  "HandleGetC e cn cmd s =
     (case gate (policyBlockUnscoped e cn ''GETC'') s of
        (True, s1) \<Rightarrow> Some s1
      | (False, s1) \<Rightarrow>
          let vs = sscanf [SLit ''GETC'', SSpace, SStr, SSpace, SInt] cmd in
          (case sv_sessions s1 (arg_str vs 0) of
             None \<Rightarrow> Some (reply cn (error_line ''session not found'') s1)
           | Some ses \<Rightarrow>
               (case chunk_range (ps_size ses) (ps_conns ses) (arg_int vs 1) of
                  None \<Rightarrow> None
                | Some (off, len) \<Rightarrow>
                    Some (case read_file (sv_fs s1) (ps_path ses) of
                        Inl er \<Rightarrow> reply cn (error_line (io_text (''open '' @ ps_path ses) er)) s1
                      | Inr d \<Rightarrow>
                          reply cn (chunk_bytes d off len)
                            (reply cn (''OK '' @ show_int off @ '' '' @ show_int len @ [NL]) s1)))))"

text \<open>The periodic clean-up of sessions older than ten minutes.\<close>
definition expire_sessions :: "int \<Rightarrow> srv \<Rightarrow> srv" where
  "expire_sessions now s =
     s\<lparr>sv_sessions := (\<lambda>i. case sv_sessions s i of None \<Rightarrow> None
        | Some x \<Rightarrow> if 600 < now - ps_created x then None else Some x)\<rparr>"

section \<open>SYNC and RELAY\<close>

text \<open>What is hashed and stored of the received bytes: nothing once writing them fails.\<close>
definition sync_stored :: "incoming \<Rightarrow> int \<Rightarrow> bytes" where
  "sync_stored inc n = (if in_werr inc = None then take (nat n) (in_data inc) else '''')"

definition sync_finish :: "hash \<Rightarrow> conn option \<Rightarrow> path \<Rightarrow> path \<Rightarrow> int \<Rightarrow> bytes \<Rightarrow> string \<Rightarrow> srv \<Rightarrow> srv" where
  "sync_finish md5 cn tmp p n d sm s =
     (let got = hex_encode (md5 d) in
      if got \<noteq> sm then
        reply cn (''ERROR md5 mismatch: expected '' @ sm @ '', got '' @ got @ [NL]) (set_fs (remove_file tmp (sv_fs s)) s)
      else
        let f1 = remove_file p (sv_fs s) in
        (case rename_file tmp p f1 of
           (Some er, _) \<Rightarrow> reply cn (''ERROR rename: '' @ io_text (''rename '' @ tmp @ '' '' @ p) er @ [NL]) (set_fs f1 s)
         | (None, f2) \<Rightarrow> reply cn (''OK '' @ show_int n @ '' '' @ got @ [NL]) (set_fs f2 s)))"

definition sync_receive :: "hash \<Rightarrow> conn option \<Rightarrow> path \<Rightarrow> int \<Rightarrow> string \<Rightarrow> incoming \<Rightarrow> srv \<Rightarrow> srv" where
  "sync_receive md5 cn p n sm inc s =
     (let tmp = p @ ''.tmp'' in
      case write_file tmp '''' (sv_fs s) of
        (Some er, _) \<Rightarrow> reply cn (error_line (io_text (''open '' @ tmp) er)) s
      | (None, f1) \<Rightarrow>
          let s1 = reply cn (''READY'' @ [NL]) (set_fs f1 s) in
          if int (length (in_data inc)) < n then
            reply cn (''ERROR read: '' @ (case in_fault inc of None \<Rightarrow> ''EOF'' | Some t \<Rightarrow> t) @ [NL])
              (set_fs (remove_file tmp f1) s1)
          else let d = sync_stored inc n in
            sync_finish md5 cn tmp p (max 0 n) d sm (set_fs (put_file tmp d f1) s1))"

definition HandleSync :: "denv \<Rightarrow> hash \<Rightarrow> machine \<Rightarrow> conn option \<Rightarrow> string \<Rightarrow> incoming \<Rightarrow> srv \<Rightarrow> srv" where
  "HandleSync e md5 m cn cmd inc s =
     (case gate (policyBlockUnscoped e cn ''SYNC'') s of
        (True, s1) \<Rightarrow> s1
      | (False, s1) \<Rightarrow>
          let parts = split_n SP 4 cmd in
          if length parts < 4 then reply cn (''ERROR invalid command'' @ [NL]) s1
          else let n = fst (go_atoi (parts ! 1)); sm = parts ! 2; p = home_path m (trim_space (parts ! 3)) in
            if same_sum md5 (sv_fs s1) p sm then reply cn (''SKIP'' @ [NL]) s1
            else sync_receive md5 cn p n sm inc s1)"

text \<open>\<open>dial\<close> is the error of connecting to a target, None when it is reached; the bytes the two
  sides then exchange pass through unchanged.\<close>
definition HandleRelay :: "denv \<Rightarrow> (string \<Rightarrow> string option) \<Rightarrow> conn option \<Rightarrow> string \<Rightarrow> srv \<Rightarrow> srv" where
  "HandleRelay e dial cn cmd s =
     (case gate (policyBlockUnscoped e cn ''RELAY'') s of
        (True, s1) \<Rightarrow> s1
      | (False, s1) \<Rightarrow>
          let parts = split_n SP 2 cmd in
          if length parts < 2 then reply cn (''ERROR invalid relay target'' @ [NL]) s1
          else (case dial (trim_space (parts ! 1)) of
              Some er \<Rightarrow> reply cn (''ERROR cannot reach target: '' @ er @ [NL]) s1
            | None \<Rightarrow> reply cn (''RELAY_OK'' @ [NL]) s1))"

section \<open>RPC\<close>

text \<open>A member of the parameters that is a string, else the empty string.\<close>
definition rpcStringParam :: "bytes \<Rightarrow> string \<Rightarrow> string" where
  "rpcStringParam params key =
     (case unmarshal params of None \<Rightarrow> ''''
      | Some v \<Rightarrow> (case json_str key v of None \<Rightarrow> '''' | Some t \<Rightarrow> t))"

text \<open>A string field of a struct: the last string member of that name, case folded.\<close>
fun field_str :: "string \<Rightarrow> (string \<times> json) list \<Rightarrow> string \<Rightarrow> string" where
  "field_str k [] x = x"
| "field_str k ((k', v) # ms) x =
     field_str k ms (if equal_fold k' k then (case v of JStr t \<Rightarrow> t | _ \<Rightarrow> x) else x)"

definition struct_str :: "string \<Rightarrow> bytes \<Rightarrow> string" where
  "struct_str k params = (case unmarshal params of Some (JObj ms) \<Rightarrow> field_str k ms '''' | _ \<Rightarrow> '''')"

definition rpc_failure :: "string \<Rightarrow> json" where
  "rpc_failure msg = JObj ([(''success'', JBool False)] @ (if msg \<noteq> '''' then [(''error'', JStr msg)] else []))"

definition rpc_line :: "conn option \<Rightarrow> string \<Rightarrow> srv \<Rightarrow> srv" where
  "rpc_line cn t s = reply cn [NL] (reply cn t s)"

definition quoted :: "string \<Rightarrow> string" where "quoted t = [CHR 0x27] @ t @ [CHR 0x27]"

definition file_methods :: "string list" where "file_methods = [''file_read'', ''file_write'', ''artifact_collect'']"
definition exec_methods :: "string list" where "exec_methods = [''job_start'', ''restart_service'']"

text \<open>The command an RPC method stands for in the policy.\<close>
definition rpc_command :: "string \<Rightarrow> bytes \<Rightarrow> string" where
  "rpc_command mth params =
     (if mth = ''restart_service'' then ''restart_service '' @ rpcStringParam params ''service''
      else rpcStringParam params ''command'')"

definition rpcAuthDenied :: "denv \<Rightarrow> conn option \<Rightarrow> string \<Rightarrow> bytes \<Rightarrow> srv \<Rightarrow> bool \<times> srv" where
  "rpcAuthDenied e cn mth params s =
     (let w = sv_w s; caps = fst (KeyCapabilities (w_fs w) (w_home w) (fst (connIdentity w cn)));
          writeErr = (\<lambda>code msg s. (True, rpc_line cn (marshal (rpc_failure (code @ '': '' @ msg))) s))
      in if mth \<in> set file_methods then
           (if \<not> capAllowed caps ''file''
            then writeErr ''cap_denied'' (''RPC '' @ mth @ '' requires the '' @ quoted ''file'' @ '' capability'') s
            else gate (policyPathDenied e cn (rpcStringParam params ''path'')) s)
         else if mth \<in> set exec_methods then
           (if \<not> capAllowed caps ''exec''
            then writeErr ''cap_denied'' (''RPC '' @ mth @ '' requires the '' @ quoted ''exec'' @ '' capability'') s
            else (case gate (enforceExecPolicy e cn (rpc_command mth params)) s of
                (Some res, s1) \<Rightarrow> writeErr ''policy_denied'' (er_error res) s1
              | (None, s1) \<Rightarrow> (False, s1)))
         else (False, s))"

type_synonym rpc_server = "string \<Rightarrow> bytes \<Rightarrow> srv \<Rightarrow> (string \<times> srv) option"

definition rpc_args :: "string \<Rightarrow> string \<times> int" where
  "rpc_args cmd =
     (let vs = sscanf [SLit ''RPC'', SSpace, SStr, SSpace, SInt] cmd in (arg_str vs 0, arg_int vs 1))"

definition HandleRPCCommand :: "denv \<Rightarrow> rpc_server \<Rightarrow> machine \<Rightarrow> conn option \<Rightarrow> string \<Rightarrow> bytes \<Rightarrow> srv \<Rightarrow> srv option" where
  "HandleRPCCommand e serve m cn cmd str s =
     (let (mth, n) = rpc_args cmd in
      if 0 < n \<and> \<not> make_ok m n then None
      else
        let params = (if 0 < n then fill n str else '''') in
        if mth = ''policy_check'' then
          (let (v, s1) = gate (PolicyCheckRPC e cn (struct_str ''command'' params)) s
           in Some (rpc_line cn (marshal v) s1))
        else (case rpcAuthDenied e cn mth params s of
            (True, s1) \<Rightarrow> Some s1
          | (False, s1) \<Rightarrow>
              (case serve mth params s1 of None \<Rightarrow> None
               | Some (r, s2) \<Rightarrow> Some (rpc_line cn r s2))))"

section \<open>Checked uploads\<close>

text \<open>The target is as it was, or holds data with the announced checksum.\<close>
definition announced :: "hash \<Rightarrow> string \<Rightarrow> path \<Rightarrow> srv \<Rightarrow> srv \<Rightarrow> bool" where
  "announced md5 sm p s s' \<longleftrightarrow>
     file_text (sv_fs s') p = file_text (sv_fs s) p \<or>
     (\<exists>x. file_text (sv_fs s') p = Some x \<and> hex_encode (md5 x) = sm)"

lemma announced_same: "file_text (sv_fs s') p = file_text (sv_fs s) p \<Longrightarrow> announced md5 sm p s s'"
  by (simp add: announced_def)

lemma gate_block:
  assumes "gate (policyBlockUnscoped e cn v) s = (b, s1)"
  shows "same_but {w_audit_path (sv_w s)} (sv_fs s) (sv_fs s1)" "w_audit_path (sv_w s1) = w_audit_path (sv_w s)"
    "\<not> b \<Longrightarrow> s1 = s"
proof -
  obtain w where w: "policyBlockUnscoped e cn v (sv_w s) = (b, w)" "s1 = s\<lparr>sv_w := w\<rparr>"
    using gate_sel[OF assms] by blast
  show "same_but {w_audit_path (sv_w s)} (sv_fs s) (sv_fs s1)" "w_audit_path (sv_w s1) = w_audit_path (sv_w s)"
    "\<not> b \<Longrightarrow> s1 = s"
    using policyBlockUnscoped_frame[OF w(1)] w(2) by auto
qed

text \<open>A handler behind the gate: refused, it leaves every file but the log; let through, it runs on
  the same state.\<close>
lemma gate_block_cases [consumes 1, case_names refused passed]:
  assumes "w_audit_path (sv_w s) \<noteq> p"
  obtains (refused) s1 where "gate (policyBlockUnscoped e cn v) s = (True, s1)"
      "file_text (sv_fs s1) p = file_text (sv_fs s) p" | (passed) "gate (policyBlockUnscoped e cn v) s = (False, s)"
proof (cases "gate (policyBlockUnscoped e cn v) s")
  case (Pair b s1)
  note G = gate_block[OF Pair]
  show ?thesis
  proof (cases b)
    case True
    have "file_text (sv_fs s1) p = file_text (sv_fs s) p" using same_but_text[OF G(1)] assms by simp
    then show ?thesis using refused[of s1] Pair True by simp
  next
    case False
    then show ?thesis using passed Pair G(3) by simp
  qed
qed

lemma store_checked_announced:
  "file_text (sv_fs s) p = file_text (sv_fs s0) p \<Longrightarrow> announced md5 sm p s0 (store_checked md5 cn p sm d what ok s)"
  by (auto simp: store_checked_def announced_def write_file_def fs_simps split: option.split)

lemma PutZ_announced:
  assumes "w_audit_path (sv_w s) \<noteq> p" "putz_args cmd = (cs, os, sm, p0)"
    and "p = expandTransferPath m p0 (effectiveTransferUser m)" "HandlePutZ e md5 inflate m cn cmd d s = Some s'"
  shows "announced md5 sm p s s'"
  using assms(1)
proof (cases rule: gate_block_cases[where e = e and cn = cn and v = "''PUTZ''"])
  case refused
  then show ?thesis using assms(4) by (simp add: HandlePutZ_def announced_same)
next
  case passed
  then show ?thesis
    using assms(2-4) by (auto simp: HandlePutZ_def Let_def announced_same store_checked_announced split: if_splits sum.splits)
qed

lemma PipeUp_announced:
  assumes "w_audit_path (sv_w s) \<noteq> p" "pipe_args cmd = (p0, n, sm)"
    and "p = expandTransferPath m p0 (effectiveTransferUser m)" "HandlePipeUp e md5 m cn cmd d s = Some s'"
  shows "announced md5 sm p s s'"
  using assms(1)
proof (cases rule: gate_block_cases[where e = e and cn = cn and v = "''PIPE_UP''"])
  case refused
  then show ?thesis using assms(4) by (simp add: HandlePipeUp_def announced_same)
next
  case passed
  then show ?thesis
    using assms(2-4) by (auto simp: HandlePipeUp_def Let_def store_checked_announced split: if_splits)
qed

lemma resume_receive_frame:
  "same_but {tmp} (sv_fs s) (sv_fs (resume_receive cn tmp n d s))"
  by (auto simp: resume_receive_def Let_def split: option.split intro!: same_but_append same_but_write)

lemma resume_finish_announced:
  assumes "fs_rderr (sv_fs s) tmp = None" "tmp \<noteq> p"
  shows "announced md5 sm p s (resume_finish md5 cn tmp p n sm s)"
proof (cases "rename_file tmp p (sv_fs s)")
  case (Pair r f)
  note R = rename_file_cases[OF Pair]
  show ?thesis
    using R assms Pair by (auto simp: resume_finish_def Let_def announced_def read_file_text fs_simps split: option.split)
qed

lemma Resume_announced:
  assumes "w_audit_path (sv_w s) \<noteq> p" "resume_args cmd = (p0, n, sm)"
    and "p = expandTransferPath m p0 (effectiveTransferUser m)" "fs_rderr (sv_fs s) (p @ ''.tmp'') = None"
  shows "announced md5 sm p s (HandleResume e md5 m cn cmd d s)"
  using assms(1)
proof (cases rule: gate_block_cases[where e = e and cn = cn and v = "''RESUME''"])
  case refused
  then show ?thesis by (simp add: HandleResume_def announced_same)
next
  case passed
  let ?tmp = "p @ ''.tmp''"
  let ?s1 = "resume_receive cn ?tmp n d s"
  note F = resume_receive_frame[of ?tmp s cn n d]
  have "announced md5 sm p ?s1 (resume_finish md5 cn ?tmp p n sm ?s1)"
    by (rule resume_finish_announced) (use same_but_errs[OF F] assms(4) in simp_all)
  moreover have "file_text (sv_fs ?s1) p = file_text (sv_fs s) p" by (rule same_but_text[OF F]) simp
  ultimately show ?thesis
    using passed assms(2,3) by (auto simp: HandleResume_def Let_def announced_def)
qed

lemma mput_file_announced:
  assumes "file_args line = (p0, n, sm)" "p = expandTransferPath m p0 (effectiveTransferUser m)"
    and "mput_file md5 m cn line rest s = Some (rest', s')"
  shows "announced md5 sm p s s' \<and> same_but {p} (sv_fs s) (sv_fs s')"
  using assms by (auto simp: mput_file_def Let_def announced_def write_file_def fs_simps frame split: if_splits option.splits)

text \<open>a checked upload never installs data other than the announced one: after PUTZ, PIPE_UP or
  RESUME, on every path through the handler, the target is as it was or holds data whose MD5 is
  the checksum of the command line.\<close>
theorem checked_uploads:
  assumes "w_audit_path (sv_w s) \<noteq> p" "p = expandTransferPath m p0 (effectiveTransferUser m)"
    and "fs_rderr (sv_fs s) (p @ ''.tmp'') = None"
  shows "(putz_args cmd = (cs, os, sm, p0) \<and> HandlePutZ e md5 inflate m cn cmd d s = Some s' \<longrightarrow> announced md5 sm p s s') \<and>
    (pipe_args cmd = (p0, n, sm) \<and> HandlePipeUp e md5 m cn cmd d s = Some s' \<longrightarrow> announced md5 sm p s s') \<and>
    (resume_args cmd = (p0, n, sm) \<longrightarrow> announced md5 sm p s (HandleResume e md5 m cn cmd d s))"
  by (intro conjI impI; (elim conjE)?)
    (erule (1) PutZ_announced[OF assms(1) _ assms(2)],
     erule (1) PipeUp_announced[OF assms(1) _ assms(2)], erule Resume_announced[OF assms(1) _ assms(2,3)])

lemma checked_uploads_witness:
  "announced md5_0 ''xx'' ''f'' (srv_of world0)
     (HandleResume env0 md5_0 machine0 (Some 7) (''RESUME f 2 xx'' @ [NL]) ''hi'' (srv_of world0))"
proof -
  have "resume_args (''RESUME f 2 xx'' @ [NL]) = (''f'', 2, ''xx'')" by code_simp
  then show ?thesis
    using checked_uploads[of "srv_of world0" "''f''" machine0 "''f''" _ _ _ _ env0 md5_0 _ "Some 7" "''hi''" _ 2]
    by (simp add: expand_plain fs_simps)
qed

section \<open>SYNC\<close>

text \<open>A SYNC whose final rename fails has already removed the target: the old contents are lost.\<close>
lemma sync_finish_loses_target:
  assumes "hex_encode (md5 d) = sm" "fs_wrerr (sv_fs s) p = Some er"
  shows "file_text (sv_fs (sync_finish md5 cn tmp p n d sm s)) p = None"
proof -
  have "rename_file tmp p (remove_file p (sv_fs s)) = (Some (EIo er), remove_file p (sv_fs s))"
    using assms(2) by (simp add: rename_file_def remove_file_def)
  then show ?thesis using assms(1) by (simp add: sync_finish_def Let_def fs_simps)
qed

section \<open>The parallel download\<close>

definition chunk :: "bytes \<Rightarrow> int \<Rightarrow> int \<Rightarrow> bytes" where
  "chunk d k i =
     (case chunk_range (int (length d)) k i of None \<Rightarrow> '''' | Some (off, len) \<Rightarrow> chunk_bytes d off len)"

lemma clamp_conns_bounds: "1 \<le> n \<Longrightarrow> 1 \<le> clamp_conns n sz \<and> clamp_conns n sz \<le> 8"
  by (simp add: clamp_conns_def Let_def)

lemma concat_chunks: "concat (map (\<lambda>i. take c (drop (i * c) d)) [0..<n]) = take (n * c) d"
  by (induction n) (simp_all add: take_add[symmetric] add.commute)

text \<open>the chunks of a parallel download are a partition of the file: for every number of
  connections a request can get, the chunks 0 to k - 1 put together are the file.\<close>
theorem parallel_chunks_partition:
  assumes "1 \<le> n" "k = clamp_conns n (int (length d))" "int (length d) \<le> max_int64"
  shows "concat (map (\<lambda>i. chunk d k (int i)) [0..<nat k]) = d"
proof -
  have k: "1 \<le> k" "k \<le> 8" using clamp_conns_bounds[OF assms(1)] assms(2) by simp_all
  define c where "c = length d div nat k"
  have ck: "nat k * c \<le> length d" unfolding c_def by (metis div_times_less_eq_dividend mult.commute)
  have q: "go_quot (int (length d)) k = int c"
    using k by (simp add: go_quot_nonneg c_def zdiv_int)
  have w: "wrap64 (int x) = int x" if "x \<le> length d" for x
    using that assms(3) by (intro wrap64_id) (simp_all add: min_int64_def)
  have cl: "c \<le> length d" using ck k by (cases "nat k") (auto intro: order_trans[rotated])
  have ic: "i * c \<le> length d" if "i < nat k" for i
    using that ck by (meson less_imp_le_nat mult_le_mono1 order_trans)
  have wk: "wrap64 (k - 1) = k - 1" using k by (intro wrap64_id) (simp_all add: min_int64_def max_int64_def)
  have ch: "chunk d k (int i) = (if int i = k - 1 then drop (i * c) d else take c (drop (i * c) d))" if "i < nat k" for i
  proof -
    have o: "wrap64 (int i * int c) = int (i * c)" using w[OF ic[OF that]] by simp
    have l: "wrap64 (int (length d) - int (i * c)) = int (length d - i * c)"
      using w[of "length d - i * c"] ic[OF that] by (simp add: of_nat_diff)
    have "chunk_range (int (length d)) k (int i) =
        Some (int (i * c), if int i = k - 1 then int (length d - i * c) else int c)"
      using k unfolding chunk_range_def Let_def q w[OF cl] o wk l by simp
    then show ?thesis by (simp add: chunk_def chunk_bytes_def flip: of_nat_mult)
  qed
  obtain m where m: "nat k = Suc m" using k by (cases "nat k") auto
  have e: "map (\<lambda>i. chunk d k (int i)) [0..<m] = map (\<lambda>i. take c (drop (i * c) d)) [0..<m]"
    using m k by (intro map_cong) (auto simp: ch)
  moreover have "chunk d k (int m) = drop (m * c) d" using ch[of m] m k by simp
  ultimately show ?thesis
    unfolding m upt_Suc_append[OF le0] map_append concat_append e concat_chunks by simp
qed

lemma parallel_chunks_witness:
  "concat (map (\<lambda>i. chunk ''abcde'' (clamp_conns 3 5) (int i)) [0..<nat (clamp_conns 3 5)]) = ''abcde''"
  using parallel_chunks_partition[of 3 "clamp_conns 3 5" "''abcde''"] by (simp add: max_int64_def)

section \<open>Running commands with the file capability\<close>

text \<open>the file capability runs commands: for a key without a policy whose capabilities are just
  \<^verbatim>\<open>file\<close>, the verb switch sends a PIPE_DOWN line to its handler, which gives the rest of the
  line to a shell, answers with the output and writes no audit record.\<close>
theorem file_capability_runs_commands:
  assumes "NL \<notin> set cmd" "connPolicyName (sv_w s) cn = ''''"
  shows "\<exists>line. dispatch (Some [''file'']) True (''PIPE_DOWN '' @ cmd @ [NL] @ rest) = (Run (DoPipeDown line), rest) \<and>
    sv_ran (HandlePipeDown e m cn line s) = sv_ran s @ [trim_space cmd] \<and>
    sv_fs (HandlePipeDown e m cn line s) = sv_fs s"
proof -
  let ?line = "(''PIPE_DOWN '' @ cmd) @ [NL]"
  have rl: "read_line (''PIPE_DOWN '' @ cmd @ [NL] @ rest) = (?line, rest)"
    using assms(1) cut_lines[of "''PIPE_DOWN '' @ cmd" rest] by (simp add: read_line_def)
  have d: "dispatch (Some [''file'']) True (''PIPE_DOWN '' @ cmd @ [NL] @ rest) = (Run (DoPipeDown ?line), rest)"
    unfolding dispatch_def rl Let_def prod.case by (simp add: guarded_def capAllowed_def)
  have g: "gate (policyBlockUnscoped e cn ''PIPE_DOWN'') s = (False, s)"
    using assms(2) by (simp add: gate_def policyBlockUnscoped_def)
  have t: "trim_prefix ''PIPE_DOWN '' ?line = cmd @ [NL]"
    using trim_prefix_append[of "''PIPE_DOWN ''" "cmd @ [NL]"] by simp
  have ts: "trim_space (cmd @ [NL]) = trim_space cmd" by (rule trim_space_snoc) (simp add: is_space_def)
  have "sv_ran (HandlePipeDown e m cn ?line s) = sv_ran s @ [trim_space cmd]"
    "sv_fs (HandlePipeDown e m cn ?line s) = sv_fs s"
    unfolding HandlePipeDown_def g t ts by (auto simp: run_shell_def split: prod.split)
  with d show ?thesis by blast
qed

lemma file_capability_runs_commands_witness:
  "\<exists>line. sv_ran (HandlePipeDown env0 machine0 (Some 7) line (srv_of world0)) = [''id'']"
proof -
  have "trim_space ''id'' = ''id''" by code_simp
  then show ?thesis
    using file_capability_runs_commands[of "''id''" "srv_of world0" "Some 7" "''''" env0 machine0] by auto
qed

section \<open>The RPC gate\<close>

lemma policyPathDenied_sound:
  assumes "tagged w cn name" "name \<noteq> ''''" "cache_coherent (de_compile e) w" "\<not> fst (policyPathDenied e cn p w)"
  shows "\<exists>pol. policy_now (de_compile e) name w = Inr pol \<and> PathAllowed (w_fs w) pol p"
proof -
  obtain r w1 where l: "LoadPolicy (de_compile e) name w = (r, w1)" by (cases "LoadPolicy (de_compile e) name w")
  have now: "policy_now (de_compile e) name w = r" using LoadPolicy_cache[OF assms(3), of name] l by simp
  note sel = LoadPolicy_sel[OF l]
  show ?thesis
    using assms(2,4) l sel tagged_name[OF assms(1)] now
    by (auto simp: policyPathDenied_def Let_def split: if_splits sum.splits)
qed

text \<open>C13: an RPC that touches files or runs commands is gated like the verbs: for a key with a policy,
  a file method goes through only with the file capability and a path parameter its policy allows,
  an exec method only with the exec capability and a command its policy allows.\<close>
theorem rpc_gate_sound:
  assumes "tagged (sv_w s) cn name" "name \<noteq> ''''" "cache_coherent (de_compile e) (sv_w s)"
    and "rpcAuthDenied e cn mth params s = (False, s1)" "caps = fst (KeyCapabilities (sv_fs s) (w_home (sv_w s)) (fst (connIdentity (sv_w s) cn)))"
  shows "(mth \<in> set file_methods \<longrightarrow> capAllowed caps ''file'' \<and>
      (\<exists>pol. policy_now (de_compile e) name (sv_w s) = Inr pol \<and> PathAllowed (sv_fs s) pol (rpcStringParam params ''path''))) \<and>
    (mth \<in> set exec_methods \<longrightarrow> capAllowed caps ''exec'' \<and>
      (\<exists>pol. policy_now (de_compile e) name (sv_w s) = Inr pol \<and> ed_allowed (EvalExec pol (rpc_command mth params))))"
proof (intro conjI impI)
  assume f: "mth \<in> set file_methods"
  show "capAllowed caps ''file''" using f assms(4,5) by (auto simp: rpcAuthDenied_def Let_def split: if_splits)
  have "\<not> fst (policyPathDenied e cn (rpcStringParam params ''path'') (sv_w s))"
    using f assms(4) by (auto simp: rpcAuthDenied_def Let_def dest: gate_sel split: if_splits)
  from policyPathDenied_sound[OF assms(1-3) this]
  show "\<exists>pol. policy_now (de_compile e) name (sv_w s) = Inr pol \<and> PathAllowed (sv_fs s) pol (rpcStringParam params ''path'')" .
next
  assume x: "mth \<in> set exec_methods"
  then have nf: "mth \<notin> set file_methods" by (auto simp: exec_methods_def file_methods_def)
  show "capAllowed caps ''exec''" using x nf assms(4,5) by (auto simp: rpcAuthDenied_def Let_def split: if_splits)
  have "fst (enforceExecPolicy e cn (rpc_command mth params) (sv_w s)) = None"
    using x nf assms(4) by (auto simp: rpcAuthDenied_def Let_def dest: gate_sel split: if_splits prod.splits option.splits)
  from exec_accepted[OF assms(1,3) this]
  show "\<exists>pol. policy_now (de_compile e) name (sv_w s) = Inr pol \<and> ed_allowed (EvalExec pol (rpc_command mth params))" by blast
qed

definition uptime_params :: bytes where "uptime_params = marshal (JObj [(''command'', JStr ''uptime'')])"

lemma uptime_param: "rpcStringParam uptime_params ''command'' = ''uptime''"
proof -
  have "json_wf (JObj [(''command'', JStr ''uptime'')])" by simp
  from unmarshal_marshal[OF this] show ?thesis
    by (simp add: rpcStringParam_def uptime_params_def json_str_def json_get_def utf8_fix_ascii is_ascii_def byte_in_def)
qed

lemma ro_caps: "KeyCapabilities (w_fs (tag_world ''ro'' (Some d))) ''/root'' ''K'' = (None, True)"
proof -
  have "split_on NL (''K policy=ro'' @ [NL]) = [''K policy=ro'', '''']"
    "key_line ''K'' ''K policy=ro'' = Some [''policy=ro'']" "trim_space ''K'' = ''K''" by code_simp+
  then show ?thesis
    by (simp add: KeyCapabilities_def Let_def scan_files_def cfg_paths)
      (simp add: tag_world_def fs_simps caps_of_tags_def)
qed

lemma rpc_gate_sound_witness:
  "\<exists>pol. policy_now (de_compile env0) ''ro'' (tag_world ''ro'' (Some ro_json)) = Inr pol \<and>
    ed_allowed (EvalExec pol (rpc_command ''job_start'' uptime_params))"
proof -
  let ?s = "srv_of (tag_world ''ro'' (Some ro_json))"
  obtain w where w: "enforceExecPolicy env0 (Some 7) ''uptime'' (tag_world ''ro'' (Some ro_json)) = (None, w)"
    using ro_uptime_accepted by (cases "enforceExecPolicy env0 (Some 7) ''uptime'' (tag_world ''ro'' (Some ro_json))") auto
  then have r: "rpcAuthDenied env0 (Some 7) ''job_start'' uptime_params ?s = (False, ?s\<lparr>sv_w := w\<rparr>)"
    by (simp add: rpcAuthDenied_def file_methods_def exec_methods_def ro_caps rpc_command_def uptime_param gate_def)
  show ?thesis
    using rpc_gate_sound[OF _ _ _ r refl, of "''ro''"] by (simp add: exec_methods_def)
qed

end
