(* ===== verification/Rpc.thy ===== *)
theory Rpc
  imports TransferAdv KnownHosts GoStruct
begin

text \<open>
  \<^verbatim>\<open>internal/server/rpc.go\<close>: the RPC methods and their dispatcher \<open>HandleRPC\<close>.  The
  programs the methods run and the facts they ask the operating system are arguments (\<open>host\<close>);
  what the code makes of the answers is modelled: the parsers of the tools' tables, the file
  methods on the file state, the job methods on the registry, and the JSON of the response.
\<close>

section \<open>The machine behind the methods\<close>

record file_info =
  fi_size :: int
  fi_mode :: string
  fi_time :: string
  fi_dir :: bool

text \<open>What a program answers: its standard output, the text of the error, and whether the deadline
  had passed.\<close>
type_synonym tool = "string \<Rightarrow> string list \<Rightarrow> bytes \<times> string option \<times> bool"

record host =
  h_tool :: tool
  h_darwin :: bool
  h_os :: string
  h_arch :: string
  h_go :: string
  h_name :: string
  h_cpus :: int
  h_version :: string
  h_uptime :: int
  h_env :: "string \<Rightarrow> string"
  h_float :: "string \<Rightarrow> string"                        \<comment> \<open>\<^verbatim>\<open>ParseFloat\<close>, printed as JSON\<close>
  h_loads :: "string \<Rightarrow> string \<times> string \<times> string"     \<comment> \<open>\<^verbatim>\<open>Sscanf\<close> of three floats, printed as JSON\<close>
  h_date :: "int \<Rightarrow> string"                           \<comment> \<open>a time as JSON text\<close>
  h_stat :: "path \<Rightarrow> string + file_info"
  h_list :: "path \<Rightarrow> string + (string \<times> file_info option) list"  \<comment> \<open>\<^verbatim>\<open>ReadDir\<close>, None where \<^verbatim>\<open>Info\<close> fails\<close>

text \<open>The output of a program, Inl for an error.\<close>
definition tool_out :: "host \<Rightarrow> string \<Rightarrow> string list \<Rightarrow> string + bytes" where
  "tool_out h name args =
     (case h_tool h name args of (d, None, _) \<Rightarrow> Inr d | (_, Some er, _) \<Rightarrow> Inl er)"

definition commandOutputTimeout :: "host \<Rightarrow> string \<Rightarrow> string \<Rightarrow> string list \<Rightarrow> string + bytes" where
  "commandOutputTimeout h t name args =
     (case h_tool h name args of (_, _, True) \<Rightarrow> Inl (name @ '' timed out after '' @ t)
      | _ \<Rightarrow> tool_out h name args)"

section \<open>Numbers of the parameters\<close>

text \<open>A JSON number read as a float64 and converted to an int.  The literal is the fraction
  \<open>n / d\<close>; it is rounded to 53 bits, ties to even; a literal beyond the floats is no value (the
  error of \<^verbatim>\<open>Unmarshal\<close> leaves nil).  A float that does not fit gives the lowest int, as on amd64.\<close>
function bit_len :: "int \<Rightarrow> int" where
  "bit_len n = (if n \<le> 0 then 0 else 1 + bit_len (n div 2))"
  by pat_completeness auto
termination by (relation "measure nat") auto

declare bit_len.simps [simp del]

definition round_even :: "int \<Rightarrow> int \<Rightarrow> int" where
  "round_even n d =
     (let q = n div d; r = n mod d in if d < 2 * r \<or> (2 * r = d \<and> odd q) then q + 1 else q)"

text \<open>The mantissa and the exponent of the float next to a fraction.\<close>
definition float_of :: "int \<Rightarrow> int \<Rightarrow> int \<times> int" where
  "float_of n d =
     (let e0 = bit_len n - bit_len d - 53;
          scaled = (\<lambda>e. if 0 \<le> e then (n, d * 2 ^ nat e) else (n * 2 ^ nat (- e), d));
          (a0, b0) = scaled e0;
          e = (if b0 * 9007199254740992 \<le> a0 then e0 + 1 else e0);
          (a, b) = scaled e
      in (round_even a b, e))"

text \<open>The sign, the digits and the exponent of a literal.\<close>
definition literal_parts :: "string \<Rightarrow> bool \<times> int \<times> int" where
  "literal_parts s =
     (let neg = has_prefix ''-'' s;
          t = (if neg then tl s else s);
          ip = takeWhile is_digit t;
          r = dropWhile is_digit t;
          fp = (if has_prefix ''.'' r then takeWhile is_digit (tl r) else '''');
          r' = (if has_prefix ''.'' r then dropWhile is_digit (tl r) else r);
          ex = (case r' of [] \<Rightarrow> 0
                | _ # x \<Rightarrow> (case x of [] \<Rightarrow> 0
                    | c # u \<Rightarrow> if c = CHR ''-'' then - digits_val u else if c = CHR ''+'' then digits_val u
                              else digits_val x))
      in (neg, digits_val (ip @ fp), ex - int (length fp)))"

definition float_int :: "string \<Rightarrow> int option" where
  "float_int s =
     (let (neg, m, ex) = literal_parts s;
          (n, d) = (if 0 \<le> ex then (m * 10 ^ nat ex, 1) else (m, 10 ^ nat (- ex)));
          (f, e) = float_of n d;
          v = (if 0 \<le> e then f * 2 ^ nat e else f div 2 ^ nat (- e));
          i = (if neg then - v else v)
      in if m = 0 then Some 0
         else if 1024 < bit_len v then None
         else if i < min_int64 \<or> max_int64 < i then Some min_int64 else Some i)"

definition params_of :: "bytes \<Rightarrow> (string \<times> json) list" where
  "params_of d = (case unmarshal d of Some (JObj ms) \<Rightarrow> rev ms | _ \<Rightarrow> [])"

definition str_param :: "(string \<times> json) list \<Rightarrow> string \<Rightarrow> string \<Rightarrow> string" where
  "str_param ms k dflt = (case map_of ms k of Some (JStr t) \<Rightarrow> t | _ \<Rightarrow> dflt)"

definition int_param :: "(string \<times> json) list \<Rightarrow> string \<Rightarrow> int \<Rightarrow> int" where
  "int_param ms k dflt =
     (case map_of ms k of Some (JNum t) \<Rightarrow> (case float_int t of Some i \<Rightarrow> i | None \<Rightarrow> dflt) | _ \<Rightarrow> dflt)"

section \<open>Parsers of the tools' tables\<close>

text \<open>The lines a \<^verbatim>\<open>bufio.Scanner\<close> gives: without the line end, a carriage return before it
  dropped; a line of 64 KiB or more ends the scan.\<close>
definition drop_cr :: "string \<Rightarrow> string" where
  "drop_cr l = (if l \<noteq> [] \<and> last l = CR then butlast l else l)"

definition scanner_lines :: "string \<Rightarrow> string list" where
  "scanner_lines d =
     (let ls = split_on NL d; ls' = (if last ls = [] then butlast ls else ls)
      in map drop_cr (takeWhile (\<lambda>l. length l < 65536) ls'))"

text \<open>\<^verbatim>\<open>strings.Split\<close> with a separator of two bytes.\<close>
fun split_pair :: "char \<Rightarrow> char \<Rightarrow> string \<Rightarrow> string list" where
  "split_pair a b (x # y # s) =
     (if x = a \<and> y = b then [] # split_pair a b s
      else (case split_pair a b (y # s) of [] \<Rightarrow> [[x]] | w # ws \<Rightarrow> (x # w) # ws))"
| "split_pair a b s = [s]"

definition parse_int :: "string \<Rightarrow> int" where "parse_int s = fst (go_atoi (trim_space s))"

record gpu_info =
  gi_index :: int
  gi_name :: string
  gi_total :: int
  gi_used :: int
  gi_free :: int
  gi_util :: int
  gi_temp :: int

definition gpu_line :: "string \<Rightarrow> gpu_info list" where
  "gpu_line l =
     (case split_pair (CHR '','') SP l of
        a # b # c # d # e # f # g # _ \<Rightarrow>
          [\<lparr>gi_index = parse_int a, gi_name = trim_space b, gi_total = parse_int c, gi_used = parse_int d,
            gi_free = parse_int e, gi_util = parse_int f, gi_temp = parse_int g\<rparr>]
      | _ \<Rightarrow> [])"

definition gpu_query :: "string list" where
  "gpu_query = [''--query-gpu=index,name,memory.total,memory.used,memory.free,utilization.gpu,temperature.gpu'',
     ''--format=csv,noheader,nounits'']"

definition rpcGetGPU :: "host \<Rightarrow> string + gpu_info list" where
  "rpcGetGPU h =
     (case commandOutputTimeout h ''3s'' ''nvidia-smi'' gpu_query of
        Inl _ \<Rightarrow> Inl ''nvidia-smi not available''
      | Inr d \<Rightarrow> Inr (concat (map gpu_line (scanner_lines d))))"

record disk_info =
  di_fs :: string
  di_size :: string
  di_used :: string
  di_avail :: string
  di_percent :: string
  di_mount :: string

definition disk_line :: "string \<Rightarrow> disk_info list" where
  "disk_line l =
     (case go_fields l of
        a # b # c # d # e # f # fs \<Rightarrow>
          [\<lparr>di_fs = a, di_size = b @ ''K'', di_used = c @ ''K'', di_avail = d @ ''K'', di_percent = e,
            di_mount = join '' '' (f # fs)\<rparr>]
      | _ \<Rightarrow> [])"

definition rpcGetDisk :: "host \<Rightarrow> string + disk_info list" where
  "rpcGetDisk h =
     (case commandOutputTimeout h ''3s'' ''df'' [''-kP''] of
        Inl er \<Rightarrow> Inl er | Inr d \<Rightarrow> Inr (concat (map disk_line (tl (split_on NL d)))))"

record memory_info =
  mi_total :: int
  mi_used :: int
  mi_free :: int
  mi_avail :: int
  mi_cached :: int

definition memory0 :: memory_info where
  "memory0 = \<lparr>mi_total = 0, mi_used = 0, mi_free = 0, mi_avail = 0, mi_cached = 0\<rparr>"

definition meminfo_line :: "string \<Rightarrow> memory_info \<Rightarrow> memory_info" where
  "meminfo_line l i =
     (case go_fields l of
        k # v # _ \<Rightarrow>
          (let n = go_quot (fst (go_atoi v)) 1024 in
           if k = ''MemTotal:'' then i\<lparr>mi_total := n\<rparr>
           else if k = ''MemFree:'' then i\<lparr>mi_free := n\<rparr>
           else if k = ''MemAvailable:'' then i\<lparr>mi_avail := n\<rparr>
           else if k = ''Cached:'' then i\<lparr>mi_cached := n\<rparr>
           else i)
      | _ \<Rightarrow> i)"

definition meminfo :: "string \<Rightarrow> memory_info" where
  "meminfo d =
     (let i = foldl (\<lambda>i l. meminfo_line l i) memory0 (split_on NL d)
      in i\<lparr>mi_used := wrap64 (mi_total i - mi_avail i)\<rparr>)"

text \<open>The counters of \<^verbatim>\<open>vm_stat\<close> by the prefix of their line, and the page size.\<close>
definition vm_labels :: "string list" where
  "vm_labels = [''Pages free:'', ''Pages active:'', ''Pages inactive:'', ''Pages speculative:'',
     ''Pages wired down:'', ''Pages occupied by compressor:'']"

definition vm_scan :: "string \<Rightarrow> string \<Rightarrow> int option" where
  "vm_scan label l =
     (case sscanf (concat (map (\<lambda>w. [SLit w, SSpace]) (go_fields label)) @ [SInt]) l of
        [VInt v] \<Rightarrow> Some v | _ \<Rightarrow> None)"

definition vm_line :: "string \<Rightarrow> (string \<Rightarrow> int) \<times> int \<Rightarrow> (string \<Rightarrow> int) \<times> int" where
  "vm_line l0 st =
     (let (cnt, page) = st; l = trim_space l0 in
      if has_prefix ''Mach Virtual Memory Statistics:'' l then
        (cnt, case sscanf [SLit ''Mach'', SSpace, SLit ''Virtual'', SSpace, SLit ''Memory'', SSpace, SLit ''Statistics:'',
                  SSpace, SLit ''(page'', SSpace, SLit ''size'', SSpace, SLit ''of'', SSpace, SInt] l of
                [VInt v] \<Rightarrow> v | _ \<Rightarrow> page)
      else let t = trim_suffix ''.'' l in
        (case find (\<lambda>k. has_prefix k t) vm_labels of
           None \<Rightarrow> (cnt, page)
         | Some k \<Rightarrow> (cnt(k := (case vm_scan k t of Some v \<Rightarrow> v | None \<Rightarrow> 0)), page)))"

definition mib :: "int \<Rightarrow> int" where "mib b = go_quot (go_quot (wrap64 b) 1024) 1024"

definition vm_stat :: "string \<Rightarrow> memory_info" where
  "vm_stat d =
     (let (c, page) = foldl (\<lambda>st l. vm_line l st) ((\<lambda>_. 0), 4096) (split_on NL d);
          fr = c ''Pages free:''; act = c ''Pages active:''; ina = c ''Pages inactive:'';
          spec = c ''Pages speculative:''; wired = c ''Pages wired down:'';
          comp = c ''Pages occupied by compressor:''
      in \<lparr>mi_total = mib ((act + ina + spec + wired + comp + fr) * page),
          mi_used = mib ((act + wired + comp) * page),
          mi_free = mib (fr * page),
          mi_avail = mib ((ina + spec + fr) * page),
          mi_cached = mib ((ina + spec) * page)\<rparr>)"

definition rpcGetMemory :: "host \<Rightarrow> fs \<Rightarrow> string + memory_info" where
  "rpcGetMemory h f =
     (if h_darwin h then
        (case tool_out h ''vm_stat'' [] of Inl er \<Rightarrow> Inl er | Inr d \<Rightarrow> Inr (vm_stat d))
      else
        (case read_file f ''/proc/meminfo'' of
           Inl er \<Rightarrow> Inl (io_text ''open /proc/meminfo'' er) | Inr d \<Rightarrow> Inr (meminfo d)))"

record load_info =
  li_one :: string
  li_five :: string
  li_fifteen :: string
  li_cpus :: int

text \<open>The three averages stay zero where the source could not be read.\<close>
definition rpcGetLoad :: "host \<Rightarrow> fs \<Rightarrow> load_info" where
  "rpcGetLoad h f =
     (let (a, b, c) =
        (if h_darwin h then
           (case tool_out h ''sysctl'' [''-n'', ''vm.loadavg''] of
              Inl _ \<Rightarrow> (''0'', ''0'', ''0'')
            | Inr d \<Rightarrow> h_loads h (let cut = (\<lambda>c. c \<in> set (''{ }'' @ [NL])) in trim_right_by cut (trim_left_by cut d)))
         else h_loads h (case read_file f ''/proc/loadavg'' of Inl _ \<Rightarrow> '''' | Inr d \<Rightarrow> d))
      in \<lparr>li_one = a, li_five = b, li_fifteen = c, li_cpus = h_cpus h\<rparr>)"

record process_info =
  pi_pid :: int
  pi_user :: string
  pi_cpu :: string
  pi_mem :: string
  pi_command :: string

definition process_line :: "host \<Rightarrow> string \<Rightarrow> process_info list" where
  "process_line h l =
     (let ws = go_fields l in
      if length ws < 11 then []
      else
        let cmd = join '' '' (drop 10 ws)
        in [\<lparr>pi_pid = fst (go_atoi (ws ! 1)), pi_user = ws ! 0, pi_cpu = h_float h (ws ! 2),
             pi_mem = h_float h (ws ! 3),
             pi_command = (if 80 < length cmd then take 80 cmd @ ''...'' else cmd)\<rparr>])"

definition ps_rows :: "host \<Rightarrow> int \<Rightarrow> string \<Rightarrow> process_info list" where
  "ps_rows h n d = take (nat n) (concat (map (process_line h) (tl (split_on NL d))))"

definition rpcGetProcesses :: "host \<Rightarrow> int \<Rightarrow> string \<Rightarrow> string + process_info list" where
  "rpcGetProcesses h n key =
     (let args = (if h_darwin h then [''aux'', ''-r'']
                  else [''aux'', ''--sort='' @ (if key = ''mem'' then ''-pmem'' else ''-pcpu'')])
      in case tool_out h ''ps'' args of Inl er \<Rightarrow> Inl er | Inr d \<Rightarrow> Inr (ps_rows h n d))"

text \<open>The last lines of the kernel log.  None is the panic of a slice whose start lies behind its end:
  the index wraps in 64 bits.\<close>
definition last_lines :: "string \<Rightarrow> int \<Rightarrow> string option" where
  "last_lines d n =
     (let ls = split_on NL d; len = int (length ls) in
      if n < len then
        (let i = wrap64 (len - n) in if 0 \<le> i \<and> i \<le> len then Some (join [NL] (drop (nat i) ls)) else None)
      else Some (join [NL] ls))"

definition rpcGetLogs :: "host \<Rightarrow> string \<Rightarrow> int \<Rightarrow> (string + string) option" where
  "rpcGetLogs h service n =
     (if service = '''' then
        (case tool_out h ''journalctl'' [''-n'', show_int n, ''--no-pager''] of
           Inr d \<Rightarrow> Some (Inr d)
         | Inl _ \<Rightarrow> map_option Inr (last_lines (fst (h_tool h ''dmesg'' [''-T''])) n))
      else Some (tool_out h ''journalctl'' [''-u'', service, ''-n'', show_int n, ''--no-pager'']))"

definition service_state :: "string + bytes \<Rightarrow> string" where
  "service_state r =
     (case r of Inl _ \<Rightarrow> ''unknown''
      | Inr d \<Rightarrow>
          if contains ''Active: active'' d then ''active''
          else if contains ''Active: inactive'' d then ''inactive''
          else if contains ''Active: failed'' d then ''failed''
          else ''unknown'')"

definition rpcServiceStatus :: "host \<Rightarrow> string \<Rightarrow> json" where
  "rpcServiceStatus h service =
     (let args = [''status'', service, ''--no-pager''] in
      json_map [(''service'', JStr service),
        (''status'', JStr (service_state (tool_out h ''systemctl'' args))),
        (''output'', JStr (fst (h_tool h ''systemctl'' args)))])"

definition service_line :: "string \<Rightarrow> json list" where
  "service_line l =
     (case go_fields l of
        a # b # c # d # _ \<Rightarrow>
          [json_map [(''name'', JStr (trim_suffix ''.service'' a)), (''load'', JStr b), (''active'', JStr c), (''sub'', JStr d)]]
      | _ \<Rightarrow> [])"

definition rpcListServices :: "host \<Rightarrow> string + json list" where
  "rpcListServices h =
     (case tool_out h ''systemctl'' [''list-units'', ''--type=service'', ''--state=running'', ''--no-pager'', ''--no-legend''] of
        Inl er \<Rightarrow> Inl er | Inr d \<Rightarrow> Inr (concat (map service_line (split_on NL d))))"

definition container_line :: "string \<Rightarrow> json list" where
  "container_line l =
     (if l = '''' then []
      else (case split_on TAB l of
        a # b # c # d # _ \<Rightarrow>
          [json_map [(''id'', JStr a), (''name'', JStr b), (''image'', JStr c), (''status'', JStr d)]]
      | _ \<Rightarrow> []))"

definition docker_format :: string where
  "docker_format = ''{{.ID}}'' @ [TAB] @ ''{{.Names}}'' @ [TAB] @ ''{{.Image}}'' @ [TAB] @ ''{{.Status}}''"

definition rpcDockerContainers :: "host \<Rightarrow> string + json list" where
  "rpcDockerContainers h =
     (case tool_out h ''docker'' [''ps'', ''--format'', docker_format] of
        Inl er \<Rightarrow> Inl er | Inr d \<Rightarrow> Inr (concat (map container_line (split_on NL d))))"

section \<open>Files and services\<close>

definition home_join :: "string \<Rightarrow> path \<Rightarrow> path" where
  "home_join home p = (if has_prefix ''~'' p then join_path [home, tl p] else p)"

definition rpcFileRead :: "string \<Rightarrow> path \<Rightarrow> fs \<Rightarrow> string + string" where
  "rpcFileRead home p f =
     (if p = '''' then Inl ''path required''
      else let q = home_join home p in
        (case read_file f q of Inl er \<Rightarrow> Inl (io_text (''open '' @ q) er) | Inr d \<Rightarrow> Inr d))"

definition rpcFileWrite :: "string \<Rightarrow> path \<Rightarrow> string \<Rightarrow> fs \<Rightarrow> (string + bool) \<times> fs" where
  "rpcFileWrite home p content f =
     (if p = '''' then (Inl ''path required'', f)
      else let q = home_join home p in
        (case write_file q content f of
           (Some er, f') \<Rightarrow> (Inl (io_text (''open '' @ q) er), f') | (None, f') \<Rightarrow> (Inr True, f')))"

definition restart_allowed :: "string list" where
  "restart_allowed = [''nginx'', ''docker'', ''postgresql'', ''redis'', ''mysql'', ''mongod'']"

definition rpcRestartService :: "host \<Rightarrow> string \<Rightarrow> string + bool" where
  "rpcRestartService h service =
     (if service = '''' then Inl ''service name required''
      else if service \<notin> set restart_allowed then Inl ''service not in whitelist''
      else (case tool_out h ''systemctl'' [''restart'', service] of Inl er \<Rightarrow> Inl er | Inr _ \<Rightarrow> Inr True))"

record dir_entry =
  de_name :: string
  de_path :: path
  de_type :: string
  de_size :: int
  de_mode :: string
  de_time :: string

record artifact =
  af_path :: path
  af_type :: string
  af_size :: int
  af_mode :: string
  af_time :: string
  af_truncated :: bool
  af_encoding :: string
  af_content :: string
  af_entries :: "dir_entry list"

definition file_type :: "file_info \<Rightarrow> string" where
  "file_type i = (if fi_dir i then ''directory'' else ''file'')"

definition entry_of :: "path \<Rightarrow> string \<times> file_info option \<Rightarrow> dir_entry list" where
  "entry_of p e =
     (case snd e of None \<Rightarrow> []
      | Some i \<Rightarrow> [\<lparr>de_name = fst e, de_path = join_path [p, fst e], de_type = file_type i,
                    de_size = fi_size i, de_mode = fi_mode i, de_time = fi_time i\<rparr>])"

definition artifact_limit :: "int \<Rightarrow> int \<Rightarrow> int" where
  "artifact_limit max_bytes sz = (let m = (if max_bytes \<le> 0 then 1048576 else max_bytes) in if sz < m then sz else m)"

text \<open>None is the panic of a buffer that cannot be allocated.\<close>
definition rpcArtifactCollect :: "host \<Rightarrow> machine \<Rightarrow> path \<Rightarrow> int \<Rightarrow> fs \<Rightarrow> (string + artifact) option" where
  "rpcArtifactCollect h m p max_bytes f =
     (if p = '''' then Some (Inl ''path is required'')
      else (case h_stat h p of Inl er \<Rightarrow> Some (Inl er)
        | Inr i \<Rightarrow>
            let a = \<lparr>af_path = p, af_type = file_type i, af_size = fi_size i, af_mode = fi_mode i, af_time = fi_time i,
                     af_truncated = False, af_encoding = '''', af_content = '''', af_entries = []\<rparr>
            in if fi_dir i then
                 (case h_list h p of Inl er \<Rightarrow> Some (Inl er)
                  | Inr es \<Rightarrow> Some (Inr (a\<lparr>af_truncated := 200 < length es,
                                          af_entries := concat (map (entry_of p) (take 200 es))\<rparr>)))
               else
                 let limit = artifact_limit max_bytes (fi_size i) in
                 if \<not> make_ok m limit then None
                 else (case read_file f p of Inl er \<Rightarrow> Some (Inl (io_text (''open '' @ p) er))
                   | Inr d \<Rightarrow>
                       let got = take (nat limit) d in
                       if got = [] \<and> 0 < limit then Some (Inl ''EOF'')
                       else Some (Inr (a\<lparr>af_truncated := int (length got) < fi_size i, af_encoding := ''base64'',
                                         af_content := b64_encode got\<rparr>)))))"

section \<open>Results as JSON\<close>

definition gpu_json :: "gpu_info \<Rightarrow> json" where
  "gpu_json g = JObj [(''index'', json_int (gi_index g)), (''name'', JStr (gi_name g)),
     (''memory_total_mb'', json_int (gi_total g)), (''memory_used_mb'', json_int (gi_used g)),
     (''memory_free_mb'', json_int (gi_free g)), (''utilization_percent'', json_int (gi_util g)),
     (''temperature_c'', json_int (gi_temp g))]"

definition disk_json :: "disk_info \<Rightarrow> json" where
  "disk_json d = JObj [(''filesystem'', JStr (di_fs d)), (''size'', JStr (di_size d)), (''used'', JStr (di_used d)),
     (''avail'', JStr (di_avail d)), (''use_percent'', JStr (di_percent d)), (''mount_point'', JStr (di_mount d))]"

definition memory_json :: "memory_info \<Rightarrow> json" where
  "memory_json i = JObj [(''total_mb'', json_int (mi_total i)), (''used_mb'', json_int (mi_used i)),
     (''free_mb'', json_int (mi_free i)), (''available_mb'', json_int (mi_avail i)),
     (''cached_mb'', json_int (mi_cached i))]"

definition load_json :: "load_info \<Rightarrow> json" where
  "load_json i = JObj [(''load_1'', JNum (li_one i)), (''load_5'', JNum (li_five i)),
     (''load_15'', JNum (li_fifteen i)), (''cpus'', json_int (li_cpus i))]"

definition process_json :: "process_info \<Rightarrow> json" where
  "process_json p = JObj [(''pid'', json_int (pi_pid p)), (''user'', JStr (pi_user p)),
     (''cpu_percent'', JNum (pi_cpu p)), (''mem_percent'', JNum (pi_mem p)), (''command'', JStr (pi_command p))]"

definition status_text :: "job_status \<Rightarrow> string" where
  "status_text st = (case st of JobRunning \<Rightarrow> ''running'' | JobSucceeded \<Rightarrow> ''succeeded''
     | JobFailed \<Rightarrow> ''failed'' | JobCanceled \<Rightarrow> ''canceled'')"

definition job_members :: "host \<Rightarrow> job_info \<Rightarrow> (string \<times> json) list" where
  "job_members h i = [(''id'', JStr (ji_id i)), (''command'', JStr (ji_command i)),
     (''status'', JStr (status_text (ji_status i))), (''exit_code'', json_int (ji_exit i)),
     (''started_at'', JStr (h_date h (ji_started i)))]
     @ (case ji_ended i of None \<Rightarrow> [] | Some t \<Rightarrow> [(''ended_at'', JStr (h_date h t))])
     @ [(''duration_ms'', json_int (ji_duration i))] @ omit_empty ''error'' (ji_error i)"

definition logs_json :: "host \<Rightarrow> job_info \<times> string \<times> string \<Rightarrow> json" where
  "logs_json h r = (case r of (i, a, b) \<Rightarrow> JObj (job_members h i @ [(''stdout'', JStr a), (''stderr'', JStr b)]))"

definition entry_json :: "dir_entry \<Rightarrow> json" where
  "entry_json e = JObj [(''name'', JStr (de_name e)), (''path'', JStr (de_path e)), (''type'', JStr (de_type e)),
     (''size_bytes'', json_int (de_size e)), (''mode'', JStr (de_mode e)), (''mod_time'', JStr (de_time e))]"

definition artifact_json :: "artifact \<Rightarrow> json" where
  "artifact_json a = JObj ([(''path'', JStr (af_path a)), (''type'', JStr (af_type a)),
     (''size_bytes'', json_int (af_size a)), (''mode'', JStr (af_mode a)), (''mod_time'', JStr (af_time a))]
     @ (if af_truncated a then [(''truncated'', JBool True)] else [])
     @ omit_empty ''encoding'' (af_encoding a) @ omit_empty ''content'' (af_content a)
     @ (if af_entries a = [] then [] else [(''entries'', JArr (map entry_json (af_entries a)))]))"

definition rpcNodeInfo :: "host \<Rightarrow> machine \<Rightarrow> json" where
  "rpcNodeInfo h m = JObj [(''version'', JStr (h_version h)), (''go_version'', JStr (h_go h)),
     (''os'', JStr (h_os h)), (''arch'', JStr (h_arch h)), (''hostname'', JStr (h_name h)),
     (''pid'', json_int (int (m_pid m))), (''uptime_seconds'', json_int (h_uptime h)),
     (''require_vauth'', JBool (envEnabled (h_env h ''VSSH_REQUIRE_VAUTH''))),
     (''require_tls'', JBool (envEnabled (h_env h ''VSSH_REQUIRE_TLS''))),
     (''auth_model'', JStr ''key-only (Ed25519 VAUTH1)'')]"

section \<open>The dispatcher\<close>

text \<open>The response: success, then the data or the error, which is left out when empty.\<close>
definition rpc_response :: "string + json \<Rightarrow> string" where
  "rpc_response r = marshal (case r of Inl er \<Rightarrow> rpc_failure er | Inr v \<Rightarrow> rpc_ok v)"

definition map_res :: "('a \<Rightarrow> 'b) \<Rightarrow> string + 'a \<Rightarrow> string + 'b" where
  "map_res g r = (case r of Inl er \<Rightarrow> Inl er | Inr v \<Rightarrow> Inr (g v))"

text \<open>The methods that only read, as a function of the parameters; the outer None is a panic.\<close>
definition rpc_read :: "host \<Rightarrow> machine \<Rightarrow> string \<Rightarrow> (string \<times> json) list \<Rightarrow> int \<Rightarrow> srv \<Rightarrow> (string + json) option" where
  "rpc_read h m mth ms now s =
     (let sp = (\<lambda>k. str_param ms k ''''); f = sv_fs s in
      if mth = ''get_gpu'' then Some (map_res (\<lambda>g. json_list (map gpu_json g)) (rpcGetGPU h))
      else if mth = ''get_disk'' then Some (map_res (\<lambda>d. json_list (map disk_json d)) (rpcGetDisk h))
      else if mth = ''get_memory'' then Some (map_res memory_json (rpcGetMemory h f))
      else if mth = ''get_load'' then Some (Inr (load_json (rpcGetLoad h f)))
      else if mth = ''get_processes'' then
        Some (map_res (\<lambda>p. json_list (map process_json p))
          (rpcGetProcesses h (int_param ms ''n'' 10) (str_param ms ''sort'' ''cpu'')))
      else if mth = ''get_logs'' then
        map_option (map_res JStr) (rpcGetLogs h (sp ''service'') (int_param ms ''lines'' 50))
      else if mth = ''service_status'' then Some (Inr (rpcServiceStatus h (sp ''service'')))
      else if mth = ''list_services'' then Some (map_res json_list (rpcListServices h))
      else if mth = ''docker_containers'' then Some (map_res json_list (rpcDockerContainers h))
      else if mth = ''job_status'' then
        Some (map_res (\<lambda>i. JObj (job_members h i)) (rpcJobStatus (sp ''id'') now (sv_jobs s)))
      else if mth = ''job_logs'' then
        Some (map_res (logs_json h) (rpcJobLogs (sp ''id'') (int_param ms ''tail_bytes'' 0) now (sv_jobs s)))
      else if mth = ''artifact_collect'' then
        map_option (map_res artifact_json)
          (rpcArtifactCollect h m (sp ''path'') (int_param ms ''max_bytes'' 1048576) f)
      else if mth = ''file_read'' then Some (map_res JStr (rpcFileRead (m_home m) (sp ''path'') f))
      else if mth = ''restart_service'' then Some (map_res JBool (rpcRestartService h (sp ''service'')))
      else if mth = ''node_info'' then Some (Inr (rpcNodeInfo h m))
      else Some (Inl (''unknown method: '' @ mth)))"

text \<open>With the three methods that change the state: a job starts or is cancelled, a file is written.\<close>
definition HandleRPC :: "host \<Rightarrow> machine \<Rightarrow> int \<Rightarrow> string \<Rightarrow> rpc_server" where
  "HandleRPC h m now uuid mth params s =
     (let ms = params_of params; sp = (\<lambda>k. str_param ms k '''') in
      if mth = ''job_start'' then
        (let (r, reg) = rpcJobStart uuid (sp ''command'') now (sv_jobs s)
         in Some (rpc_response (map_res (\<lambda>i. JObj (job_members h i)) r), s\<lparr>sv_jobs := reg\<rparr>))
      else if mth = ''job_cancel'' then
        (let (r, reg) = rpcJobCancel (sp ''id'') now (sv_jobs s)
         in Some (rpc_response (map_res (\<lambda>i. JObj (job_members h i)) r), s\<lparr>sv_jobs := reg\<rparr>))
      else if mth = ''file_write'' then
        (let (r, f) = rpcFileWrite (m_home m) (sp ''path'') (sp ''content'') (sv_fs s)
         in Some (rpc_response (map_res JBool r), set_fs f s))
      else (case rpc_read h m mth ms now s of None \<Rightarrow> None | Some r \<Rightarrow> Some (rpc_response r, s)))"

text \<open>\<^verbatim>\<open>RPCMethods\<close>.\<close>
definition RPCMethods :: "(string \<times> string) list" where
  "RPCMethods = [(''get_gpu'', ''read''), (''get_disk'', ''read''), (''get_memory'', ''read''), (''get_load'', ''read''),
     (''get_processes'', ''read''), (''get_logs'', ''read''), (''service_status'', ''read''), (''list_services'', ''read''),
     (''docker_containers'', ''read''), (''job_start'', ''write''), (''job_status'', ''read''), (''job_logs'', ''read''),
     (''job_cancel'', ''admin''), (''artifact_collect'', ''read''), (''file_read'', ''read''), (''file_write'', ''write''),
     (''restart_service'', ''admin''), (''node_info'', ''read'')]"

text \<open>Errors of the parts leave null, or for the GPUs nothing.\<close>
definition GetServerInfo :: "host \<Rightarrow> fs \<Rightarrow> json" where
  "GetServerInfo h f = JObj ([(''hostname'', JStr (h_name h)), (''os'', JStr (h_os h)), (''arch'', JStr (h_arch h)),
     (''cpus'', json_int (h_cpus h)),
     (''memory'', case rpcGetMemory h f of Inl _ \<Rightarrow> JNull | Inr i \<Rightarrow> memory_json i),
     (''load'', load_json (rpcGetLoad h f)),
     (''disk'', case rpcGetDisk h of Inl _ \<Rightarrow> JNull | Inr d \<Rightarrow> json_list (map disk_json d))]
     @ (case rpcGetGPU h of Inl _ \<Rightarrow> []
        | Inr g \<Rightarrow> if g = [] then [] else [(''gpu'', JArr (map gpu_json g))]))"

definition HandleInfo :: "host \<Rightarrow> fs \<Rightarrow> string" where
  "HandleInfo h f = marshal_indent 0 (GetServerInfo h f)"

section \<open>What ends the daemon\<close>

lemma float_int_bounds: "float_int t = Some i \<Longrightarrow> min_int64 \<le> i \<and> i \<le> max_int64"
  by (auto simp: float_int_def Let_def min_int64_def max_int64_def split: prod.splits if_splits)

lemma int_param_bounds:
  "min_int64 \<le> d \<Longrightarrow> d \<le> max_int64 \<Longrightarrow> min_int64 \<le> int_param ms k d \<and> int_param ms k d \<le> max_int64"
  by (auto simp: int_param_def dest: float_int_bounds split: option.splits json.splits)

lemma last_lines_panics:
  assumes "min_int64 \<le> n" "int (length (split_on NL d)) \<le> max_int64"
  shows "last_lines d n = None \<longleftrightarrow> n < 0"
proof -
  let ?len = "int (length (split_on NL d))"
  have l: "0 < ?len" by (simp add: split_by_not_Nil)
  have w: "wrap64 (?len - n) = ?len - n \<or> wrap64 (?len - n) = ?len - n - 2 ^ 64" if "n < ?len"
    using that assms l wrap64_id[of "?len - n"] wrap64_over[of "?len - n"]
    by (cases "max_int64 < ?len - n") (simp_all add: max_int64_def min_int64_def)
  show ?thesis
  proof (cases "n < 0")
    case True
    then have "\<not> (0 \<le> wrap64 (?len - n) \<and> wrap64 (?len - n) \<le> ?len)"
      using w l assms by (auto simp: max_int64_def min_int64_def)
    with True l show ?thesis by (simp add: last_lines_def Let_def)
  next
    case False
    then have "n < ?len \<Longrightarrow> wrap64 (?len - n) = ?len - n"
      using assms l by (intro wrap64_id) (simp_all add: max_int64_def min_int64_def)
    with False show ?thesis by (simp add: last_lines_def Let_def)
  qed
qed

lemma HandleRPC_get_logs: "HandleRPC h m now uuid ''get_logs'' params s =
    (case rpcGetLogs h (str_param (params_of params) ''service'' '''') (int_param (params_of params) ''lines'' 50) of
       None \<Rightarrow> None | Some r \<Rightarrow> Some (rpc_response (map_res JStr r), s))"
  by (simp add: HandleRPC_def rpc_read_def Let_def split: option.split)

lemma HandleRPC_artifact: "HandleRPC h m now uuid ''artifact_collect'' params s =
    (case rpcArtifactCollect h m (str_param (params_of params) ''path'' '''') (int_param (params_of params) ''max_bytes'' 1048576)
            (sv_fs s) of
       None \<Rightarrow> None | Some r \<Rightarrow> Some (rpc_response (map_res artifact_json r), s))"
  by (simp add: HandleRPC_def rpc_read_def Let_def split: option.split)

lemma rpcArtifactCollect_None: "rpcArtifactCollect h m p mb f = None \<longleftrightarrow>
    p \<noteq> '''' \<and> (\<exists>i. h_stat h p = Inr i \<and> \<not> fi_dir i \<and> \<not> make_ok m (artifact_limit mb (fi_size i)))"
  by (auto simp: rpcArtifactCollect_def Let_def split: sum.splits)

lemma rpcGetLogs_None:
  assumes "int (length (split_on NL (fst (h_tool h ''dmesg'' [''-T''])))) \<le> max_int64" "min_int64 \<le> n"
  shows "rpcGetLogs h sv n = None \<longleftrightarrow>
    sv = '''' \<and> n < 0 \<and> (\<exists>er. tool_out h ''journalctl'' [''-n'', show_int n, ''--no-pager''] = Inl er)"
  using last_lines_panics[OF assms(2,1)] by (simp add: rpcGetLogs_def split: sum.split)

lemma if_not_None: "(b \<Longrightarrow> x \<noteq> None) \<Longrightarrow> (\<not> b \<Longrightarrow> y \<noteq> None) \<Longrightarrow> (if b then x else y) \<noteq> None"
  by simp

lemma HandleRPC_other:
  "mth \<noteq> ''get_logs'' \<Longrightarrow> mth \<noteq> ''artifact_collect'' \<Longrightarrow> HandleRPC h m now uuid mth params s \<noteq> None"
proof -
  assume n: "mth \<noteq> ''get_logs''" "mth \<noteq> ''artifact_collect''"
  have "rpc_read h m mth (params_of params) now s \<noteq> None"
    unfolding rpc_read_def Let_def
    by (intro if_not_None option.distinct(2)) (erule notE[OF n(1)] notE[OF n(2)])+
  then obtain r where r: "rpc_read h m mth (params_of params) now s = Some r" by blast
  show ?thesis unfolding HandleRPC_def Let_def case_prod_beta r option.case
    by (intro if_not_None option.distinct(2))
qed

text \<open>A client that may call RPC ends the daemon in exactly two ways: with a negative number of log
  lines on a machine whose journal cannot be read, and with an artifact larger than what can be
  allocated under a limit as large.\<close>
theorem HandleRPC_panics:
  assumes "int (length (split_on NL (fst (h_tool h ''dmesg'' [''-T''])))) \<le> max_int64"
  shows "HandleRPC h m now uuid mth params s = None \<longleftrightarrow>
    (mth = ''get_logs'' \<and> str_param (params_of params) ''service'' '''' = '''' \<and>
       int_param (params_of params) ''lines'' 50 < 0 \<and>
       (\<exists>er. tool_out h ''journalctl'' [''-n'', show_int (int_param (params_of params) ''lines'' 50), ''--no-pager''] = Inl er))
    \<or> (mth = ''artifact_collect'' \<and> str_param (params_of params) ''path'' '''' \<noteq> '''' \<and>
       (\<exists>i. h_stat h (str_param (params_of params) ''path'' '''') = Inr i \<and> \<not> fi_dir i \<and>
            \<not> make_ok m (artifact_limit (int_param (params_of params) ''max_bytes'' 1048576) (fi_size i))))"
proof -
  let ?ms = "params_of params"
  have b: "min_int64 \<le> int_param ?ms ''lines'' 50"
    using int_param_bounds[of 50 ?ms "''lines''"] by (simp add: min_int64_def max_int64_def)
  have ne: "''get_logs'' \<noteq> ''artifact_collect''" by simp
  consider "mth = ''get_logs''" | "mth = ''artifact_collect''" | "mth \<noteq> ''get_logs''" "mth \<noteq> ''artifact_collect''" by blast
  then show ?thesis
  proof cases
    case 1
    then show ?thesis unfolding 1 HandleRPC_get_logs
      using rpcGetLogs_None[OF assms b] ne by (simp only: option.case_eq_if option.simps split: if_split) simp
  next
    case 2
    then show ?thesis unfolding 2 HandleRPC_artifact
      using rpcArtifactCollect_None ne by (simp only: option.case_eq_if option.simps split: if_split) simp
  next
    case 3
    with HandleRPC_other[OF 3] show ?thesis by blast
  qed
qed

definition broken_host :: host where
  "broken_host = \<lparr>h_tool = (\<lambda>_ _. ('''', Some ''exit status 1'', False)), h_darwin = False, h_os = ''linux'', h_arch = ''amd64'',
     h_go = ''go1.22'', h_name = ''n1'', h_cpus = 4, h_version = ''1'', h_uptime = 0, h_env = (\<lambda>_. ''''), h_float = (\<lambda>_. ''0''),
     h_loads = (\<lambda>_. (''0'', ''0'', ''0'')), h_date = show_int, h_stat = (\<lambda>_. Inl ''no such file''), h_list = (\<lambda>_. Inr [])\<rparr>"

lemma params_of_marshal:
  "json_wf (JObj ms) \<Longrightarrow> params_of (marshal (JObj ms)) = rev (map (\<lambda>(k, v). (utf8_fix k, json_norm v)) ms)"
  using unmarshal_marshal[of "JObj ms"] by (simp add: params_of_def)

lemma HandleRPC_panics_witness:
  "HandleRPC broken_host machine0 0 ''u'' ''get_logs'' (marshal (JObj [(''lines'', JNum ''-1'')])) (srv_of world0) = None"
proof -
  have f: "float_int ''-1'' = Some (-1)" by code_simp
  have j: "json_wf (JObj [(''lines'', JNum ''-1'')])" by code_simp
  have p: "params_of (marshal (JObj [(''lines'', JNum ''-1'')])) = [(''lines'', JNum ''-1'')]"
    unfolding params_of_marshal[OF j] by (simp add: utf8_fix_ascii is_ascii_def byte_in_def)
  have l: "int (length (split_on NL (fst (h_tool broken_host ''dmesg'' [''-T''])))) \<le> max_int64"
    by (simp add: broken_host_def max_int64_def)
  have i: "str_param [(''lines'', JNum ''-1'')] ''service'' '''' = ''''" "int_param [(''lines'', JNum ''-1'')] ''lines'' 50 = -1"
    by (simp_all add: str_param_def int_param_def f)
  show ?thesis unfolding HandleRPC_panics[OF l] p i by (simp add: tool_out_def broken_host_def)
qed

section \<open>The gate and the file methods\<close>

lemma rpcStringParam_eq: "rpcStringParam params k = str_param (params_of params) k ''''"
  by (auto simp: rpcStringParam_def str_param_def params_of_def json_str_def json_get_def split: option.splits json.splits)

lemma path_gate_open:
  assumes "tagged w cn name" "name \<noteq> ''''" "cache_coherent (de_compile e) w"
    "policy_now (de_compile e) name w = Inr pol" "PathAllowed (w_fs w) pol p"
  shows "\<exists>w1. policyPathDenied e cn p w = (False, w1) \<and> w_fs w1 = w_fs w \<and> w_sent w1 = w_sent w"
proof -
  obtain w1 where l: "LoadPolicy (de_compile e) name w = (Inr pol, w1)" using LoadPolicy_now[OF assms(3,4)] by blast
  note s = LoadPolicy_sel[OF l]
  show ?thesis
    using l s assms(2,5) tagged_name[OF assms(1)]
    by (simp add: policyPathDenied_def Let_def setConnPolicyMeta_sel)
qed

lemma HandleRPC_file_read: "HandleRPC h m now uuid ''file_read'' params s =
    Some (rpc_response (map_res JStr (rpcFileRead (m_home m) (rpcStringParam params ''path'') (sv_fs s))), s)"
  by (simp add: HandleRPC_def rpc_read_def Let_def rpcStringParam_eq)

text \<open>C36: The file methods check one path and use another: a path that begins with a tilde is put to the
  policy as it is, a name in the working directory of the daemon, and read from the home directory
  after that.  Where the policy allows the name, the client gets the file of the home directory,
  whatever the policy says of it.\<close>
theorem rpc_tilde_escapes_policy:
  assumes "tagged (sv_w s) cn name" "name \<noteq> ''''" "cache_coherent (de_compile e) (sv_w s)"
    and "policy_now (de_compile e) name (sv_w s) = Inr pol" "PathAllowed (sv_fs s) pol (''~'' @ p)"
    and "capAllowed (fst (KeyCapabilities (sv_fs s) (w_home (sv_w s)) (fst (connIdentity (sv_w s) cn)))) ''file''"
    and "rpcStringParam params ''path'' = ''~'' @ p" "read_file (sv_fs s) (join_path [m_home m, p]) = Inr d"
  shows "\<exists>s1. rpcAuthDenied e cn ''file_read'' params s = (False, s1) \<and>
    HandleRPC h m now uuid ''file_read'' params s1 = Some (rpc_response (Inr (JStr d)), s1)"
proof -
  obtain w1 where w1: "policyPathDenied e cn (''~'' @ p) (sv_w s) = (False, w1)" "w_fs w1 = sv_fs s"
    using path_gate_open[OF assms(1-5)] by blast
  have "rpcAuthDenied e cn ''file_read'' params s = (False, s\<lparr>sv_w := w1\<rparr>)"
    using assms(6,7) w1 by (simp add: rpcAuthDenied_def Let_def file_methods_def gate_def)
  moreover have "HandleRPC h m now uuid ''file_read'' params (s\<lparr>sv_w := w1\<rparr>) = Some (rpc_response (Inr (JStr d)), s\<lparr>sv_w := w1\<rparr>)"
    unfolding HandleRPC_file_read assms(7) using assms(8) w1(2) by (simp add: rpcFileRead_def home_join_def map_res_def)
  ultimately show ?thesis by blast
qed

definition srv_json :: string where
  "srv_json = marshal (JObj [(''file_paths'', JArr [JStr ''/srv/**''])])"

definition srv_policy :: policy where "srv_policy = policy_zero\<lparr>p_file_paths := [''/srv/**'']\<rparr>"

text \<open>The daemon works in \<^verbatim>\<open>/srv\<close>; a key in its home may not be read by the tagged connection.\<close>
definition tilde_world :: pworld where
  "tilde_world = (tag_world ''ro'' (Some srv_json))
     \<lparr>w_fs := put_file ''/home/u/k'' ''secret'' (w_fs (tag_world ''ro'' (Some srv_json)))\<lparr>fs_cwd := ''/srv''\<rparr>\<rparr>"

lemma srv_json_policy: "policy_of_json srv_json = Some srv_policy"
proof -
  let ?v = "JObj [(''file_paths'', JArr [JStr ''/srv/**''])]"
  have "json_wf ?v" by code_simp
  from unmarshal_marshal[OF this] have u: "unmarshal srv_json = Some ?v"
    by (simp add: srv_json_def utf8_fix_ascii is_ascii_def byte_in_def)
  have e: "\<not> equal_fold ''file_paths'' ''name''" "\<not> equal_fold ''file_paths'' ''exec_allow''"
    "\<not> equal_fold ''file_paths'' ''exec_deny''" "equal_fold ''file_paths'' ''file_paths''" by code_simp+
  show ?thesis by (simp add: policy_of_json_def u set_field_def e set_strings_def srv_policy_def)
qed

lemma tilde_world_files:
  "read_file (w_fs tilde_world) p = (if p = ''/home/u/k'' then Inr ''secret'' else read_file (w_fs (tag_world ''ro'' (Some srv_json))) p)"
  by (simp add: tilde_world_def read_file_def put_file_def tag_world_def empty_fs_def)

lemma tilde_world_keys: "scan_files g (w_fs tilde_world) (authorized_paths ''/root'') =
    scan_files g (w_fs (tag_world ''ro'' (Some srv_json))) (authorized_paths ''/root'')"
  unfolding scan_files_def by (rule first_some_cong) (auto simp: cfg_paths tilde_world_files)

lemma tilde_world_facts:
  "tagged tilde_world (Some 7) ''ro''" "cache_coherent (de_compile env0) tilde_world"
  "policy_now (de_compile env0) ''ro'' tilde_world = Inr srv_policy"
  "fst (KeyCapabilities (w_fs tilde_world) (w_home tilde_world) (fst (connIdentity tilde_world (Some 7)))) = None"
proof -
  have sel: "w_home tilde_world = ''/root''" "connIdentity tilde_world (Some 7) = (''K'', '''')" "w_polcache tilde_world n = None" for n
    by (simp_all add: tilde_world_def connIdentity_def tag_world_def)
  have "KeyPolicy (w_fs tilde_world) ''/root'' ''K'' = KeyPolicy (w_fs (tag_world ''ro'' (Some srv_json))) ''/root'' ''K''"
    unfolding KeyPolicy_def Let_def tilde_world_keys ..
  then show "tagged tilde_world (Some 7) ''ro''"
    using tag_world_tagged_file[of srv_json] by (simp add: tagged_def sel)
  show "cache_coherent (de_compile env0) tilde_world" by (simp add: cache_coherent_def sel)
  show "fst (KeyCapabilities (w_fs tilde_world) (w_home tilde_world) (fst (connIdentity tilde_world (Some 7)))) = None"
    using ro_caps[of srv_json] unfolding KeyCapabilities_def Let_def sel fst_conv tilde_world_keys by simp
  have "trim_space ''ro'' = ''ro''" by code_simp
  then show "policy_now (de_compile env0) ''ro'' tilde_world = Inr srv_policy"
    by (simp add: policy_now_def Let_def sel cfg_paths policy_file_def)
      (simp add: tilde_world_def tag_world_def put_file_def empty_fs_def loadPolicyFile_def read_file_def srv_json_policy
        compileAnchoredWarn_def env0_def srv_policy_def policy_zero_def)
qed

lemma tilde_paths: "PathAllowed (w_fs tilde_world) srv_policy ''~/k''" "\<not> PathAllowed (w_fs tilde_world) srv_policy ''/home/u/k''"
proof -
  have r: "clean_path (abs_path ''/srv'' ''~/k'') = ''/srv/~/k''" "clean_path (abs_path ''/srv'' ''/home/u/k'') = ''/home/u/k''"
    "clean_path (abs_path ''/srv'' ''/srv'') = ''/srv''" "clean_path (join_path [''/srv/~/k'', '''']) = ''/srv/~/k''"
    "clean_path (join_path [''/home/u/k'', '''']) = ''/home/u/k''" "clean_path (join_path [''/srv'', '''']) = ''/srv''" by code_simp+
  have f: "fs_cwd (w_fs tilde_world) = ''/srv''" "is_abs p \<Longrightarrow> fs_evalsym (w_fs tilde_world) p = Some p" for p
    by (simp_all add: tilde_world_def tag_world_def put_file_def empty_fs_def)
  have p: "resolvePath (w_fs tilde_world) ''~/k'' = ''/srv/~/k''" "resolvePath (w_fs tilde_world) ''/home/u/k'' = ''/home/u/k''"
    "resolvePath (w_fs tilde_world) ''/srv'' = ''/srv''"
    by (simp_all add: resolvePath_def Let_def f r is_abs_def resolve_loop.simps)
  have g: "resolveGlob (w_fs tilde_world) ''/srv/**'' = ''/srv/**''"
    using resolveGlob_subtree[of "''/srv''" "w_fs tilde_world"] p by simp
  have m: "matchGlob ''/srv/**'' ''/srv/~/k''" "\<not> matchGlob ''/srv/**'' ''/home/u/k''" by code_simp+
  show "PathAllowed (w_fs tilde_world) srv_policy ''~/k''" "\<not> PathAllowed (w_fs tilde_world) srv_policy ''/home/u/k''"
    by (simp_all add: PathAllowed_def srv_policy_def g p m)
qed

lemma rpc_tilde_escapes_policy_witness:
  "\<not> PathAllowed (w_fs tilde_world) srv_policy ''/home/u/k'' \<and>
   (\<exists>s1. rpcAuthDenied env0 (Some 7) ''file_read'' (marshal (JObj [(''path'', JStr ''~/k'')])) (srv_of tilde_world) = (False, s1) \<and>
     HandleRPC broken_host machine0 0 ''u'' ''file_read'' (marshal (JObj [(''path'', JStr ''~/k'')])) s1
       = Some (rpc_response (Inr (JStr ''secret'')), s1))"
proof -
  have j: "json_wf (JObj [(''path'', JStr ''~/k'')])" by code_simp
  obtain ps where ps: "ps = marshal (JObj [(''path'', JStr ''~/k'')])" by simp
  have p: "rpcStringParam ps ''path'' = ''~'' @ ''/k''"
    unfolding ps rpcStringParam_eq params_of_marshal[OF j] by (simp add: str_param_def utf8_fix_ascii is_ascii_def byte_in_def)
  have "join_path [m_home machine0, ''/k''] = ''/home/u/k''" unfolding machine0_def by code_simp
  then have h: "read_file (w_fs tilde_world) (join_path [m_home machine0, ''/k'']) = Inr ''secret''"
    by (simp add: tilde_world_files)
  have a: "PathAllowed (w_fs tilde_world) srv_policy (''~'' @ ''/k'')" using tilde_paths(1) by simp
  have "\<exists>s1. rpcAuthDenied env0 (Some 7) ''file_read'' ps (srv_of tilde_world) = (False, s1) \<and>
     HandleRPC broken_host machine0 0 ''u'' ''file_read'' ps s1 = Some (rpc_response (Inr (JStr ''secret'')), s1)"
    by (rule rpc_tilde_escapes_policy[where name = "''ro''" and pol = srv_policy and p = "''/k''"])
      (use tilde_world_facts a p h in \<open>simp_all only: srv_of_sel capAllowed_nil list.distinct not_False_eq_True\<close>)
  then show ?thesis using tilde_paths(2) unfolding ps by (intro conjI)
qed

end
