(* ===== verification/ExecClient.thy ===== *)
theory ExecClient
  imports MuxSession Rpc McpExec
begin

text \<open>
  The client side of one command and of one RPC (\<^verbatim>\<open>internal/server/transfer.go\<close>):
  \<^verbatim>\<open>ExecCommandStructuredTimeout\<close> with its codes, \<^verbatim>\<open>CallRPC\<close>, and what comes of
  them when the daemon at the other end is the one of \<open>FileTransfer\<close> and \<open>TransferAdv\<close>. What a
  dial ends with, what arrives on the connection and the texts of library errors are arguments.
\<close>

section \<open>One connection\<close>

record wire =
  wi_dial :: "(bool \<times> string) option"           \<comment> \<open>the error of \<open>dialAuth\<close>, and whether the key was refused\<close>
  wi_answer :: "string \<Rightarrow> bytes"                \<comment> \<open>all that is answered to a request\<close>
  wi_broken :: string                             \<comment> \<open>the error of reading a line that does not come\<close>
  wi_json_err :: "string \<Rightarrow> string"

definition exec_failed :: "string \<Rightarrow> string \<Rightarrow> string \<Rightarrow> bool \<Rightarrow> exec_result" where
  "exec_failed command err code retry =
     exec_zero\<lparr>er_command := command, er_exit := -1, er_error := err, er_code := code, er_retryable := retry\<rparr>"

text \<open>The line end that stays on the answer is white space to the decoder.\<close>
definition exec_once :: "wire \<Rightarrow> string \<Rightarrow> exec_result \<times> string option" where
  "exec_once wi command =
     (case wi_dial wi of
        Some (rejected, err) \<Rightarrow> (if rejected then exec_failed command err ''auth_failed'' False else errResult command err, Some err)
      | None \<Rightarrow>
          (case cut NL (wi_answer wi (exej_line command)) of
             None \<Rightarrow> (errResult command (wi_broken wi), Some (wi_broken wi))
           | Some (line, _) \<Rightarrow>
               (case exec_of_line line of
                  None \<Rightarrow> (exec_failed command (wi_json_err wi line) ErrCodeBadResponse False, Some (wi_json_err wi line))
                | Some r \<Rightarrow> (remote_exit (fill_command command r), None))))"

text \<open>A process that stays alive tries the open session of the pool first.\<close>
definition ExecCommandStructuredTimeout :: "bool \<Rightarrow> wire \<Rightarrow> string \<Rightarrow> pool \<Rightarrow> (exec_result \<times> string option) \<times> pool" where
  "ExecCommandStructuredTimeout persistent wi command s =
     (if \<not> persistent then (exec_once wi command, s)
      else (case execViaMux command s of
          ((r, True, err), s1) \<Rightarrow> ((r, err), s1)
        | ((_, False, _), s1) \<Rightarrow> (exec_once wi command, s1)))"

definition reply_zero :: reply where "reply_zero = \<lparr>rp_success = False, rp_data = JNull, rp_error = ''''\<rparr>"

definition set_reply :: "reply setter" where
  "set_reply k v r =
     (if equal_fold k ''success'' then flag_field v (\<lambda>b. r\<lparr>rp_success := b\<rparr>) r
      else if equal_fold k ''data'' then Some (r\<lparr>rp_data := v\<rparr>)
      else if equal_fold k ''error'' then text_field v (\<lambda>t. r\<lparr>rp_error := t\<rparr>) r
      else Some r)"

definition reply_of_line :: "string \<Rightarrow> reply option" where
  "reply_of_line line = (case unmarshal line of None \<Rightarrow> None | Some v \<Rightarrow> struct_of set_reply reply_zero v)"

text \<open>The request line and the parameters behind it.\<close>
definition rpc_request :: "string \<Rightarrow> json \<Rightarrow> string" where
  "rpc_request mth params =
     (let p = marshal params in ''RPC '' @ mth @ '' '' @ show_nat (length p) @ [NL] @ p)"

definition CallRPC :: "wire \<Rightarrow> string \<Rightarrow> json \<Rightarrow> string + reply" where
  "CallRPC wi mth params =
     (case wi_dial wi of
        Some (_, err) \<Rightarrow> Inl err
      | None \<Rightarrow>
          (case cut NL (wi_answer wi (rpc_request mth params)) of
             None \<Rightarrow> Inl (wi_broken wi)
           | Some (line, _) \<Rightarrow> (case reply_of_line line of None \<Rightarrow> Inl (wi_json_err wi line) | Some r \<Rightarrow> Inr r)))"

section \<open>The daemon at the other end\<close>

text \<open>What the handler writes to connection c in answer to a request.\<close>
definition daemon_exec :: "denv \<Rightarrow> hash \<Rightarrow> machine \<Rightarrow> conn \<Rightarrow> incoming \<Rightarrow> srv \<Rightarrow> string \<Rightarrow> bytes" where
  "daemon_exec e md5 m c inc s req =
     (case cut NL req of None \<Rightarrow> ''''
      | Some (l, _) \<Rightarrow> (case HandleTransfer e md5 m (Some c) (trim_crlf l) inc s of None \<Rightarrow> '''' | Some s' \<Rightarrow> answers c s s'))"

definition daemon_rpc :: "denv \<Rightarrow> rpc_server \<Rightarrow> machine \<Rightarrow> conn \<Rightarrow> srv \<Rightarrow> string \<Rightarrow> bytes" where
  "daemon_rpc e serve m c s req =
     (case cut NL req of None \<Rightarrow> ''''
      | Some (l, rest) \<Rightarrow> (case HandleRPCCommand e serve m (Some c) (trim_crlf l) rest s of None \<Rightarrow> '''' | Some s' \<Rightarrow> answers c s s'))"

section \<open>Commands over the wire\<close>

lemma exej_handled:
  assumes "exec_gated e m (Some c) command s = (r, s1)"
  shows "daemon_exec e md5 m c inc s (exej_line command) = marshal (exec_json r) @ [NL]"
proof -
  have t: "trim_prefix ''EXEJ '' (''EXEJ '' @ b64_encode command) = b64_encode command" by (rule trim_prefix_append)
  have h: "has_prefix ''EXEJ '' (''EXEJ '' @ b64_encode command)" by (rule has_prefix_append)
  have run: "exej_run e m (Some c) (bad_base64 '''') (''EXEJ '' @ b64_encode command) s = (r, s1)"
    unfolding exej_run_def t using assms by simp
  have "HandleTransfer e md5 m (Some c) (''EXEJ '' @ b64_encode command) inc s = Some (on_w (writeExecJSON (Some c) r) s1)"
    unfolding HandleTransfer_def run if_P[OF h] by simp
  moreover have "answers c s (on_w (writeExecJSON (Some c) r) s1) = marshal (exec_json r) @ [NL]"
    using exec_gated_facts(1)[OF assms] by (simp add: answers_def on_w_def writeExecJSON_def send_sent)
  ultimately show ?thesis
    using exej_line_cut(1)[of command "''''"] by (simp only: daemon_exec_def append_Nil2 option.case prod.case exej_line_cut(2))
qed

text \<open>C34: A command that crosses the wire comes back with the very result the daemon's gate, shell and audit gave it:
  only what is no UTF-8 is replaced, the text of the command and the code of a failed exit are filled in.\<close>
theorem exec_over_the_wire:
  assumes "wi_dial wi = None" "wi_answer wi = daemon_exec e md5 m c inc s"
    and "exec_gated e m (Some c) command s = (r, s1)" "sane_machine m"
  shows "exec_once wi command = (remote_exit (fill_command command (wire_result r)), None)"
proof -
  have "cut NL (wi_answer wi (exej_line command)) = Some (marshal (exec_json r), '''')"
    unfolding assms(2) exej_handled[OF assms(3)] using cut_lines[OF exec_json_line, of r "''''"] by simp
  then show ?thesis
    using exec_json_fields[OF exec_gated_facts(2)[OF assms(3,4)]] by (simp add: exec_once_def assms(1))
qed

text \<open>Whatever the network does, a call that ends with an error reports a result that did not succeed, with the text
  of the error and one of four codes, and a key that was refused is never tried again.\<close>
theorem exec_errors_are_typed:
  assumes "exec_once wi command = (r, Some err)"
  shows "\<not> er_success r \<and> er_command r = command \<and> er_exit r = - 1 \<and> er_error r = err \<and>
    er_code r \<in> {''auth_failed'', ''timeout'', ''unreachable'', ''bad_response''} \<and>
    (er_retryable r \<longleftrightarrow> er_code r \<in> {''timeout'', ''unreachable''})"
proof -
  have e: "\<not> er_success (errResult command x) \<and> er_command (errResult command x) = command \<and> er_exit (errResult command x) = - 1 \<and>
      er_error (errResult command x) = x \<and> er_code (errResult command x) \<in> {''timeout'', ''unreachable''} \<and> er_retryable (errResult command x)"
    for x by (simp add: errResult_def classifyDialError_def exec_zero_def)
  have f: "\<not> er_success (exec_failed command x k b) \<and> er_command (exec_failed command x k b) = command \<and>
      er_exit (exec_failed command x k b) = - 1 \<and> er_error (exec_failed command x k b) = x \<and> er_code (exec_failed command x k b) = k \<and>
      er_retryable (exec_failed command x k b) = b" for x k b by (simp add: exec_failed_def exec_zero_def)
  consider x where "r = errResult command x" "x = err" | "r = exec_failed command err ''auth_failed'' False"
    | "r = exec_failed command err ErrCodeBadResponse False"
    using assms by (auto simp: exec_once_def split: option.splits prod.splits if_splits)
  then show ?thesis
  proof cases
    case 1
    with e[of err] show ?thesis by auto
  next
    case 2
    with f[of err "''auth_failed''" False] show ?thesis by simp
  next
    case 3
    with f[of err ErrCodeBadResponse False] show ?thesis by (simp add: ErrCodeBadResponse_def)
  qed
qed

text \<open>The open session gives what a connection of its own gives for the same line.\<close>
lemma session_or_connection:
  assumes "mx_open s" "\<not> mx_nomux s" "mx_trips s = Line line jerr # ts" "exec_of_line line = Some r"
    and "wi_dial wi = None" "wi_answer wi (exej_line command) = line @ [NL]" "NL \<notin> set line"
  shows "fst (ExecCommandStructuredTimeout True wi command s) = exec_once wi command"
  using assms cut_lines[OF assms(7), of "''''"]
  by (simp add: ExecCommandStructuredTimeout_def execViaMux_def mux_attempt_def roundtrip_def trip_outcome_def exec_once_def)

section \<open>RPC over the wire\<close>

lemma rpc_args_request:
  assumes "is_word mth" "int n \<le> max_int64"
  shows "rpc_args (''RPC '' @ mth @ '' '' @ show_nat n) = (mth, int n)"
proof -
  have w: "mth \<noteq> []" "\<not> is_space (hd mth)" using is_word_hd[OF assms(1)] by simp_all
  have c: "''RPC '' @ mth @ '' '' @ show_nat n = ''RPC'' @ SP # mth @ SP # show_nat n" by simp
  have s1: "sscanf (SLit ''RPC'' # f) (''RPC'' @ x) = sscanf f x" for f x by simp
  have s2: "sscanf (SSpace # f) (SP # mth @ SP # show_nat n) = sscanf f (mth @ SP # show_nat n)" for f
    by (rule sscanf_space) (simp_all add: w)
  have st: "scan_str (mth @ SP # show_nat n) = Some (mth, SP # show_nat n)"
    by (rule scan_str_word[OF assms(1)]) (simp add: is_space_def)
  have s3: "sscanf (SSpace # f) (SP # show_nat n) = sscanf f (show_nat n)" for f
    using sscanf_space[of "show_nat n" f "[]"] show_nat_hd[of n] by simp
  have i: "scan_int (show_nat n) = Some (int n, '''')" using scan_int_nat[OF assms(2), of "[]"] by simp
  show ?thesis
    unfolding rpc_args_def c s1 s2 sscanf.simps(5) st option.case prod.case s3 sscanf.simps(4) i
    by (simp add: arg_int_def arg_str_def Let_def)
qed

lemma rpc_request_line:
  assumes "is_word mth"
  shows "cut NL (rpc_request mth params) = Some (''RPC '' @ mth @ '' '' @ show_nat (length (marshal params)), marshal params)"
    "trim_crlf (''RPC '' @ mth @ '' '' @ show_nat n) = ''RPC '' @ mth @ '' '' @ show_nat n"
proof -
  have m: "NL \<notin> set mth" using assms by (auto simp: is_word_def is_space_def)
  then have "NL \<notin> set (''RPC '' @ mth @ '' '' @ show_nat (length (marshal params)))" by (simp add: show_nat_hd)
  from cut_lines[OF this, of "marshal params"]
  show "cut NL (rpc_request mth params) = Some (''RPC '' @ mth @ '' '' @ show_nat (length (marshal params)), marshal params)"
    by (simp add: rpc_request_def Let_def)
  have "is_digit (last (show_nat n))" using show_nat_digits[of n] by (simp add: list_all_iff)
  then have "\<not> (last (show_nat n) = CR \<or> last (show_nat n) = NL)" by (auto simp: is_digit_def)
  then show "trim_crlf (''RPC '' @ mth @ '' '' @ show_nat n) = ''RPC '' @ mth @ '' '' @ show_nat n"
    unfolding trim_crlf_def by (intro trim_right_by_id) simp
qed

definition response_of :: "string + json \<Rightarrow> reply" where
  "response_of x = (case x of
     Inl er \<Rightarrow> \<lparr>rp_success = False, rp_data = JNull, rp_error = utf8_fix er\<rparr>
   | Inr v \<Rightarrow> \<lparr>rp_success = True, rp_data = json_norm v, rp_error = ''''\<rparr>)"

lemma reply_keys:
  "set_reply ''success'' v r = flag_field v (\<lambda>b. r\<lparr>rp_success := b\<rparr>) r"
  "set_reply ''data'' v r = Some (r\<lparr>rp_data := v\<rparr>)"
  "set_reply ''error'' v r = text_field v (\<lambda>t. r\<lparr>rp_error := t\<rparr>) r"
  by (simp_all add: set_reply_def equal_fold_def to_lower_def lower_char_def is_upper_def)

lemma read_response:
  assumes "\<And>v. x = Inr v \<Longrightarrow> json_wf v"
  shows "reply_of_line (rpc_response x) = Some (response_of x)" "NL \<notin> set (rpc_response x)"
proof -
  have k: "utf8_fix ''success'' = ''success''" "utf8_fix ''data'' = ''data''" "utf8_fix ''error'' = ''error''"
    by (simp_all add: utf8_fix_ascii is_ascii_def byte_in_def)
  have wf: "json_wf (case x of Inl er \<Rightarrow> rpc_failure er | Inr v \<Rightarrow> rpc_ok v)"
    using assms by (auto simp: rpc_failure_def rpc_ok_def split: sum.split)
  show "NL \<notin> set (rpc_response x)" unfolding rpc_response_def by (rule marshal_no_nl[OF wf])
  show "reply_of_line (rpc_response x) = Some (response_of x)"
    unfolding reply_of_line_def rpc_response_def unmarshal_marshal[OF wf]
    by (cases x) (simp_all add: rpc_failure_def rpc_ok_def struct_of_def reply_keys reply_zero_def k flag_field_def text_field_def
        response_of_def utf8_Nil)
qed

text \<open>An RPC that crosses the wire and is authorised comes back as the response the daemon's method gave for the very
  method and parameters, a failure as a failure with its text.\<close>
theorem rpc_over_the_wire:
  assumes "wi_dial wi = None" "wi_answer wi = daemon_rpc e serve m c s"
    and "is_word mth" "mth \<noteq> ''policy_check''" "int (length (marshal params)) \<le> max_int64" "make_ok m (int (length (marshal params)))"
    and "rpcAuthDenied e (Some c) mth (marshal params) s = (False, s1)" "serve mth (marshal params) s1 = Some (rpc_response x, s2)"
    and "w_sent (sv_w s2) c = w_sent (sv_w s) c" "\<And>v. x = Inr v \<Longrightarrow> json_wf v"
  shows "CallRPC wi mth params = Inr (response_of x)"
proof -
  let ?p = "marshal params" and ?r = "rpc_response x"
  have f: "fill (int (length ?p)) ?p = ?p" by (simp add: fill_def)
  have par: "(if 0 < int (length ?p) then fill (int (length ?p)) ?p else '''') = ?p" using f by (cases ?p) simp_all
  have h: "HandleRPCCommand e serve m (Some c) (''RPC '' @ mth @ '' '' @ show_nat (length ?p)) ?p s = Some (rpc_line (Some c) ?r s2)"
    unfolding HandleRPCCommand_def rpc_args_request[OF assms(3,5)] prod.case Let_def par assms(7)
    using assms(4,6,8) by simp
  have "answers c s (rpc_line (Some c) ?r s2) = ?r @ [NL]"
    using assms(9) by (simp add: answers_def rpc_line_def reply_def on_w_def send_sent)
  then have "wi_answer wi (rpc_request mth params) = ?r @ [NL]"
    unfolding assms(2) daemon_rpc_def rpc_request_line(1)[OF assms(3)] option.case prod.case rpc_request_line(2)[OF assms(3)] h by simp
  moreover have "cut NL (?r @ [NL]) = Some (?r, '''')"
    using cut_lines[of ?r "''''"] read_response(2)[OF assms(10)] by simp
  ultimately show ?thesis using read_response(1)[OF assms(10)] by (simp add: CallRPC_def assms(1))
qed

section \<open>Witnesses\<close>

definition wire0 :: "(string \<Rightarrow> bytes) \<Rightarrow> wire" where
  "wire0 ans = \<lparr>wi_dial = None, wi_answer = ans, wi_broken = ''EOF'', wi_json_err = (\<lambda>_. ''invalid'')\<rparr>"

definition inc0 :: incoming where "inc0 = \<lparr>in_data = '''', in_fault = None, in_werr = None\<rparr>"

lemma exec_over_the_wire_witness:
  "\<exists>r. exec_once (wire0 (daemon_exec env0 md5_0 machine0 7 inc0 (srv_of world0))) ''id'' =
    (remote_exit (fill_command ''id'' (wire_result r)), None)"
proof -
  obtain r s1 where g: "exec_gated env0 machine0 (Some 7) ''id'' (srv_of world0) = (r, s1)" by (metis surj_pair)
  show ?thesis
    using exec_over_the_wire[of "wire0 (daemon_exec env0 md5_0 machine0 7 inc0 (srv_of world0))" env0 md5_0 machine0 7 inc0
        "srv_of world0", OF _ _ g sane_machine0] by (auto simp: wire0_def)
qed

definition refused :: wire where
  "refused = (wire0 (\<lambda>_. ''''))\<lparr>wi_dial := Some (True, ''auth failed'')\<rparr>"

lemma exec_errors_are_typed_witness:
  "\<exists>r. exec_once refused ''id'' = (r, Some ''auth failed'') \<and> \<not> er_success r \<and> \<not> er_retryable r"
proof -
  have c: "exec_once refused ''id'' = (exec_failed ''id'' ''auth failed'' ''auth_failed'' False, Some ''auth failed'')"
    by (simp add: exec_once_def refused_def wire0_def)
  have k: "er_code (exec_failed ''id'' ''auth failed'' ''auth_failed'' False) = ''auth_failed''" by (simp add: exec_failed_def)
  from exec_errors_are_typed[OF c] c show ?thesis unfolding k by auto
qed

definition serve_up :: rpc_server where "serve_up mth params s = Some (rpc_response (Inr (JStr ''up'')), s)"

lemma rpc_over_the_wire_witness:
  "CallRPC (wire0 (daemon_rpc env0 serve_up machine0 7 (srv_of world0))) ''node_info'' JNull =
    Inr \<lparr>rp_success = True, rp_data = JStr ''up'', rp_error = ''''\<rparr>"
proof -
  let ?w = "wire0 (daemon_rpc env0 serve_up machine0 7 (srv_of world0))"
  have p: "marshal JNull = ''null''" by simp
  have a: "rpcAuthDenied env0 (Some 7) ''node_info'' ''null'' (srv_of world0) = (False, srv_of world0)"
    by (simp add: rpcAuthDenied_def file_methods_def exec_methods_def)
  have w: "is_word ''node_info''" by (simp add: is_word_def is_space_def)
  have "CallRPC ?w ''node_info'' JNull = Inr (response_of (Inr (JStr ''up'')))"
    by (rule rpc_over_the_wire[where serve = serve_up and e = env0 and m = machine0 and c = 7 and s = "srv_of world0" and ?s1.0 = "srv_of world0" and ?s2.0 = "srv_of world0"])
      (simp_all add: wire0_def w p a serve_up_def max_int64_def make_ok_def machine0_def)
  then show ?thesis by (simp add: response_of_def utf8_fix_ascii is_ascii_def byte_in_def)
qed

end
