(* ===== verification/Diff.thy ===== *)
theory Diff
  imports Observe Rpc
begin

text \<open>
  The account of what was done (\<^verbatim>\<open>internal/diff/engine.go\<close>): the records of an audit log are cut
  into sessions of one key and one endpoint, and each session gets a summary from the text of its
  commands. Times are nanoseconds; the two readings of a time are arguments.
\<close>

section \<open>Records and sessions\<close>

record entry =
  rc_ts :: int
  rc_command :: string
  rc_success :: bool
  rc_exit :: int
  rc_ms :: int
  rc_key :: string
  rc_remote :: string
  rc_transport :: string

record outcome =
  oc_command :: string
  oc_success :: bool
  oc_exit :: int
  oc_detail :: string

record session =
  se_key :: string
  se_remote :: string
  se_transport :: string
  se_start :: int
  se_end :: int
  se_ms :: int
  se_commands :: "string list"
  se_outcomes :: "outcome list"
  se_summary :: string

record options =
  op_last :: int
  op_since :: int
  op_now :: "int option"
  op_gap :: int

definition defaultGap :: int where "defaultGap = 300000000000"

section \<open>What a command did\<close>

definition reSystemd :: re where
  "reSystemd = seqs [lit ''systemctl'', plus (Chr blank_char),
     Grp (alts (map lit [''restart'', ''start'', ''stop'', ''reload'', ''enable'', ''disable''])),
     plus (Chr blank_char), Grp (plus (Chr unit_char))]"

definition reEditor :: re where
  "reEditor = seqs [WordB, Grp (alts [lit ''sed'', lit ''perl'']), WordB]"

definition letter :: "char \<Rightarrow> bool" where "letter c \<longleftrightarrow> is_lower c \<or> is_upper c"

definition reInPlace :: re where
  "reInPlace = Alt (seqs [Grp (Alt Start (Chr blank_char)), lit ''-'', Star (Chr letter), lit ''i'']) (lit ''--in-place'')"

definition reSedSub :: re where
  "reSedSub = seqs [WordB, lit ''s/'', Grp (plus (none_of ''/'')), lit ''/'', Grp (Star (none_of ''/'')), lit ''/'']"

definition reTee :: re where
  "reTee = seqs [WordB, lit ''tee'', plus (Chr blank_char), maybe (seqs [lit ''-a'', plus (Chr blank_char)]),
     Grp (plus (Chr (\<lambda>c. \<not> blank_char c \<and> c \<notin> set ''|;&'')))]"

definition reRedirect :: re where
  "reRedirect = seqs [lit ''>'', maybe (lit ''>''), spaces, Grp (plus (Chr (\<lambda>c. \<not> blank_char c \<and> c \<notin> set ''|;&>'')))]"

definition path_char :: "char \<Rightarrow> bool" where
  "path_char c \<longleftrightarrow> word_char c \<or> c \<in> set ''./-''"

definition rePath :: re where
  "rePath = seqs [maybe (lit ''/''), plus (Chr path_char), lit ''.'',
     alts (map lit [''conf'', ''cfg'', ''json'', ''yaml'', ''yml'', ''toml'', ''ini'', ''env'', ''service'', ''sh'', ''py'', ''rb'', ''js'', ''ts'', ''go'']), WordB]"

definition verbPast :: "(string \<times> string) list" where
  "verbPast = [(''restart'', ''restarted''), (''start'', ''started''), (''stop'', ''stopped''),
     (''reload'', ''reloaded''), (''enable'', ''enabled''), (''disable'', ''disabled'')]"

definition isSink :: "string \<Rightarrow> bool" where
  "isSink target \<longleftrightarrow> target = ''/dev/null'' \<or> has_prefix ''/dev/'' target"

definition firstPath :: "string \<Rightarrow> string" where "firstPath cmd = find_string rePath cmd"

fun shared :: "'a list \<Rightarrow> 'a list \<Rightarrow> nat" where
  "shared (x # xs) (y # ys) = (if x = y then Suc (shared xs ys) else 0)"
| "shared _ _ = 0"

definition trimSharedPrefix :: "string \<Rightarrow> string \<Rightarrow> string \<times> string" where
  "trimSharedPrefix from to =
     (let fw = go_fields from; tw = go_fields to; i = shared fw tw in
      if 0 < i \<and> i < length tw then (from, join '' '' (drop i tw)) else (from, to))"

text \<open>Each kind of phrase, or none.\<close>
definition service_phrase :: "string \<Rightarrow> string option" where
  "service_phrase cmd = (case submatch reSystemd cmd of
     Some [verb, u] \<Rightarrow> Some (''service '' @ u @ '' '' @ (case map_of verbPast verb of Some v \<Rightarrow> v | None \<Rightarrow> verb)) | _ \<Rightarrow> None)"

definition edit_phrase :: "string \<Rightarrow> string option" where
  "edit_phrase cmd =
     (if match_string reEditor cmd \<and> match_string reInPlace cmd then
        (case submatch reSedSub cmd of
           Some [old, new] \<Rightarrow>
             (let f = firstPath cmd; (a, b) = trimSharedPrefix (trim_space old) (trim_space new) in
              if f = '''' then None else Some (base_path f @ '' changed ('' @ a @ arrow @ b @ '')''))
         | _ \<Rightarrow> None)
      else None)"

definition tee_phrase :: "string \<Rightarrow> string option" where
  "tee_phrase cmd = (case submatch reTee cmd of
     Some [f] \<Rightarrow> if isSink f then None else Some (base_path f @ '' written'') | _ \<Rightarrow> None)"

definition redirect_phrase :: "string \<Rightarrow> string option" where
  "redirect_phrase cmd = map_option (\<lambda>f. base_path f @ '' written'')
     (find (\<lambda>f. \<not> isSink f) (concat (all_submatches reRedirect cmd)))"

definition headlineFor :: "string \<Rightarrow> string" where
  "headlineFor cmd =
     (case service_phrase cmd of Some p \<Rightarrow> p | None \<Rightarrow>
       (case edit_phrase cmd of Some p \<Rightarrow> p | None \<Rightarrow>
         (case tee_phrase cmd of Some p \<Rightarrow> p | None \<Rightarrow>
           (case redirect_phrase cmd of Some p \<Rightarrow> p | None \<Rightarrow> ''''))))"

section \<open>Cutting into sessions\<close>

fun dedupeAdjacent :: "string list \<Rightarrow> string list" where
  "dedupeAdjacent (x # y # ys) = (if x = y then dedupeAdjacent (y # ys) else x # dedupeAdjacent (y # ys))"
| "dedupeAdjacent xs = xs"

definition summarize_session :: "outcome list \<Rightarrow> string" where
  "summarize_session os =
     (let parts = filter (\<lambda>d. d \<noteq> '''') (map oc_detail os);
          failed = length (filter (\<lambda>oc. \<not> oc_success oc) os);
          result = (if 0 < failed then show_nat failed @ '' failed'' else ''OK'')
      in (if parts = [] then show_nat (length os) @ '' command(s)'' else join '', '' (dedupeAdjacent parts))
         @ '', result: '' @ result)"

definition finalize :: "session \<Rightarrow> session" where
  "finalize s = s\<lparr>se_ms := go_quot (go_sub (se_end s) (se_start s)) 1000000, se_summary := summarize_session (se_outcomes s)\<rparr>"

definition fresh_session :: "entry \<Rightarrow> session" where
  "fresh_session r = \<lparr>se_key = rc_key r, se_remote = rc_remote r, se_transport = rc_transport r, se_start = rc_ts r,
     se_end = rc_ts r, se_ms = 0, se_commands = [], se_outcomes = [], se_summary = ''''\<rparr>"

definition outcome_of :: "entry \<Rightarrow> outcome" where
  "outcome_of r = \<lparr>oc_command = rc_command r, oc_success = rc_success r, oc_exit = rc_exit r, oc_detail = headlineFor (rc_command r)\<rparr>"

definition extend_session :: "entry \<Rightarrow> session \<Rightarrow> session" where
  "extend_session r s = s\<lparr>se_end := rc_ts r, se_commands := se_commands s @ [rc_command r], se_outcomes := se_outcomes s @ [outcome_of r]\<rparr>"

definition new_session :: "int \<Rightarrow> entry \<Rightarrow> session option \<Rightarrow> bool" where
  "new_session gap r cur = (case cur of None \<Rightarrow> True
     | Some s \<Rightarrow> rc_key r \<noteq> se_key s \<or> rc_remote r \<noteq> se_remote s \<or> gap < go_sub (rc_ts r) (se_end s))"

text \<open>The loop: the sessions that are complete and the current one.\<close>
fun cut_loop :: "int \<Rightarrow> entry list \<Rightarrow> session list \<Rightarrow> session option \<Rightarrow> session list" where
  "cut_loop gap [] out cur = out @ (case cur of None \<Rightarrow> [] | Some s \<Rightarrow> [finalize s])"
| "cut_loop gap (r # rs) out cur =
     (if new_session gap r cur then
        cut_loop gap rs (out @ (case cur of None \<Rightarrow> [] | Some s \<Rightarrow> [finalize s])) (Some (extend_session r (fresh_session r)))
      else cut_loop gap rs out (map_option (extend_session r) cur))"

definition recent :: "int \<Rightarrow> options \<Rightarrow> entry list \<Rightarrow> entry list" where
  "recent clock opts rs =
     (if 0 < op_since opts then
        (let now = (case op_now opts of Some t \<Rightarrow> t | None \<Rightarrow> clock) in filter (\<lambda>r. now - op_since opts < rc_ts r) rs)
      else rs)"

definition keep_last :: "int \<Rightarrow> 'a list \<Rightarrow> 'a list" where
  "keep_last n xs = (if 0 < n \<and> n < int (length xs) then drop (length xs - nat n) xs else xs)"

definition Analyze :: "int \<Rightarrow> options \<Rightarrow> entry list \<Rightarrow> session list" where
  "Analyze clock opts rs =
     (let gap = (if op_gap opts \<le> 0 then defaultGap else op_gap opts)
      in keep_last (op_last opts) (cut_loop gap (sort_key rc_ts (recent clock opts rs)) [] None))"

section \<open>Reading the log\<close>

record raw_entry =
  ra_ts :: string
  ra_command :: string
  ra_success :: bool
  ra_exit :: int
  ra_ms :: int
  ra_key :: string
  ra_remote :: string
  ra_transport :: string

definition raw_zero :: raw_entry where
  "raw_zero = \<lparr>ra_ts = '''', ra_command = '''', ra_success = False, ra_exit = 0, ra_ms = 0, ra_key = '''', ra_remote = '''', ra_transport = ''''\<rparr>"

definition set_raw :: "raw_entry setter" where
  "set_raw k v r =
     (if equal_fold k ''ts'' then text_field v (\<lambda>t. r\<lparr>ra_ts := t\<rparr>) r
      else if equal_fold k ''command'' then text_field v (\<lambda>t. r\<lparr>ra_command := t\<rparr>) r
      else if equal_fold k ''success'' then flag_field v (\<lambda>b. r\<lparr>ra_success := b\<rparr>) r
      else if equal_fold k ''exit_code'' then num_field v (\<lambda>i. r\<lparr>ra_exit := i\<rparr>) r
      else if equal_fold k ''duration_ms'' then num_field v (\<lambda>i. r\<lparr>ra_ms := i\<rparr>) r
      else if equal_fold k ''key_name'' then text_field v (\<lambda>t. r\<lparr>ra_key := t\<rparr>) r
      else if equal_fold k ''remote'' then text_field v (\<lambda>t. r\<lparr>ra_remote := t\<rparr>) r
      else if equal_fold k ''transport'' then text_field v (\<lambda>t. r\<lparr>ra_transport := t\<rparr>) r
      else Some r)"

record clocks =
  cl_nano :: "string \<Rightarrow> int option"
  cl_plain :: "string \<Rightarrow> int option"

definition parse_line :: "clocks \<Rightarrow> string \<Rightarrow> entry option" where
  "parse_line cl line =
     (case unmarshal line of None \<Rightarrow> None
      | Some v \<Rightarrow> (case struct_of set_raw raw_zero v of None \<Rightarrow> None
          | Some r \<Rightarrow>
              map_option (\<lambda>t. \<lparr>rc_ts = t, rc_command = ra_command r, rc_success = ra_success r, rc_exit = ra_exit r, rc_ms = ra_ms r,
                  rc_key = ra_key r, rc_remote = ra_remote r, rc_transport = ra_transport r\<rparr>)
                (case cl_nano cl (ra_ts r) of Some t \<Rightarrow> Some t | None \<Rightarrow> cl_plain cl (ra_ts r))))"

definition max_line :: nat where "max_line = 8388608"

text \<open>None is the error of a line that does not fit the buffer.\<close>
definition parseRecords :: "clocks \<Rightarrow> string \<Rightarrow> entry list option" where
  "parseRecords cl d =
     (let ls = split_on NL d in
      if list_all (\<lambda>l. length l < max_line) ls
      then Some (List.map_filter (parse_line cl) (filter (\<lambda>l. l \<noteq> '''') (map (\<lambda>l. trim_space (drop_cr l)) ls)))
      else None)"

definition AnalyzeReader :: "clocks \<Rightarrow> int \<Rightarrow> options \<Rightarrow> string \<Rightarrow> session list option" where
  "AnalyzeReader cl clock opts d = map_option (Analyze clock opts) (parseRecords cl d)"
section \<open>The sessions are the maximal runs\<close>

definition goes_on :: "int \<Rightarrow> entry \<Rightarrow> entry \<Rightarrow> bool" where
  "goes_on gap a b \<longleftrightarrow> rc_key b = rc_key a \<and> rc_remote b = rc_remote a \<and> go_sub (rc_ts b) (rc_ts a) \<le> gap"

text \<open>The session of a run.\<close>
definition session_of :: "entry list \<Rightarrow> session" where
  "session_of rs = finalize (foldl (\<lambda>s r. extend_session r s) (fresh_session (hd rs)) rs)"

lemma extended_sel:
  "se_key (foldl (\<lambda>s r. extend_session r s) s rs) = se_key s" "se_remote (foldl (\<lambda>s r. extend_session r s) s rs) = se_remote s"
  "se_start (foldl (\<lambda>s r. extend_session r s) s rs) = se_start s"
  "se_end (foldl (\<lambda>s r. extend_session r s) s rs) = (if rs = [] then se_end s else rc_ts (last rs))"
  "se_commands (foldl (\<lambda>s r. extend_session r s) s rs) = se_commands s @ map rc_command rs"
  "se_outcomes (foldl (\<lambda>s r. extend_session r s) s rs) = se_outcomes s @ map outcome_of rs"
  by (induction rs arbitrary: s) (simp_all add: extend_session_def)

lemma session_of_sel:
  assumes "rs \<noteq> []"
  shows "se_key (session_of rs) = rc_key (hd rs)" "se_remote (session_of rs) = rc_remote (hd rs)"
    "se_start (session_of rs) = rc_ts (hd rs)" "se_end (session_of rs) = rc_ts (last rs)"
    "se_commands (session_of rs) = map rc_command rs" "se_outcomes (session_of rs) = map outcome_of rs"
  using assms by (simp_all add: session_of_def finalize_def extended_sel fresh_session_def)

lemma run_heads: "successively (goes_on gap) rs \<Longrightarrow> rs \<noteq> [] \<Longrightarrow> rc_key (last rs) = rc_key (hd rs) \<and> rc_remote (last rs) = rc_remote (hd rs)"
  by (induction rs rule: induct_list012) (auto simp: goes_on_def)

lemma cut_loop_runs:
  assumes "xs \<noteq> []" "successively (goes_on gap) xs"
  shows "\<exists>gs. cut_loop gap rs out (Some (foldl (\<lambda>s r. extend_session r s) (fresh_session (hd xs)) xs)) = out @ map session_of gs \<and>
    concat gs = xs @ rs \<and> [] \<notin> set gs \<and> list_all (successively (goes_on gap)) gs \<and>
    successively (\<lambda>g h. \<not> goes_on gap (last g) (hd h)) gs \<and> gs \<noteq> [] \<and> hd (hd gs) = hd xs"
  using assms
proof (induction rs arbitrary: xs out)
  case Nil
  then show ?case by (intro exI[of _ "[xs]"]) (simp add: session_of_def)
next
  case (Cons r rs)
  let ?s = "foldl (\<lambda>s r. extend_session r s) (fresh_session (hd xs)) xs"
  have n: "new_session gap r (Some ?s) \<longleftrightarrow> \<not> goes_on gap (last xs) r"
    using run_heads[OF Cons.prems(2,1)] Cons.prems(1) by (auto simp: new_session_def goes_on_def extended_sel fresh_session_def)
  show ?case
  proof (cases "goes_on gap (last xs) r")
    case True
    then have "successively (goes_on gap) (xs @ [r])" using Cons.prems by (simp add: successively_append_iff)
    from Cons.IH[OF _ this, of out] True n show ?thesis using Cons.prems(1) by simp
  next
    case False
    from Cons.IH[of "[r]" "out @ [session_of xs]"] obtain gs where gs:
      "cut_loop gap rs (out @ [session_of xs]) (Some (extend_session r (fresh_session r))) = (out @ [session_of xs]) @ map session_of gs"
      "concat gs = r # rs" "[] \<notin> set gs" "list_all (successively (goes_on gap)) gs"
      "successively (\<lambda>g h. \<not> goes_on gap (last g) (hd h)) gs" "gs \<noteq> []" "hd (hd gs) = r" by auto
    have "cut_loop gap (r # rs) out (Some ?s) = out @ map session_of (xs # gs)"
      using False n gs(1) by (simp add: session_of_def)
    moreover have "successively (\<lambda>g h. \<not> goes_on gap (last g) (hd h)) (xs # gs)"
      using gs(5-7) False by (cases gs) auto
    ultimately show ?thesis using gs Cons.prems by (intro exI[of _ "xs # gs"]) auto
  qed
qed

definition gap_of :: "options \<Rightarrow> int" where "gap_of opts = (if op_gap opts \<le> 0 then defaultGap else op_gap opts)"

text \<open>C31: The sessions are the maximal runs of the records, in the order of time, that one key did at one endpoint
  without a pause longer than the gap: no record is lost or counted twice, and no two neighbouring
  sessions could be one.\<close>
theorem sessions_are_maximal_runs:
  "\<exists>gs. Analyze clock opts rs = keep_last (op_last opts) (map session_of gs) \<and>
     concat gs = sort_key rc_ts (recent clock opts rs) \<and> [] \<notin> set gs \<and>
     list_all (successively (goes_on (gap_of opts))) gs \<and>
     successively (\<lambda>g h. \<not> goes_on (gap_of opts) (last g) (hd h)) gs"
proof (cases "sort_key rc_ts (recent clock opts rs)")
  case Nil
  then show ?thesis by (intro exI[of _ "[]"]) (simp add: Analyze_def)
next
  case (Cons r xs)
  have "cut_loop (gap_of opts) (r # xs) [] None = cut_loop (gap_of opts) xs [] (Some (extend_session r (fresh_session r)))"
    by (simp add: new_session_def)
  with cut_loop_runs[of "[r]" "gap_of opts" xs "[]"] Cons show ?thesis by (auto simp: Analyze_def gap_of_def)
qed

text \<open>The file that is named can be a part of the substitution.\<close>
lemma headline_takes_pattern:
  "headlineFor ''sed -i s/a.conf/b.conf/ x.txt'' = ''b.conf changed (a.conf'' @ arrow @ ''b.conf)''"
  by code_simp

end
