(* ===== verification/McpDiff.thy ===== *)
theory McpDiff
  imports McpFleet Diff
begin

text \<open>
  The account of the audit log at the front end (\<^verbatim>\<open>cmd/vssh/commands_diff.go\<close>): where the log
  comes from, the flags of the command line, the tool. The path of the local log, the parsing of
  durations and times and the printing of times are arguments.
\<close>

record diff_env =
  dv_log :: path                                  \<comment> \<open>AuditLogPath\<close>
  dv_clocks :: clocks
  dv_now :: int
  dv_duration :: "string \<Rightarrow> string + int"         \<comment> \<open>\<^verbatim>\<open>time.ParseDuration\<close>\<close>
  dv_show :: "int \<Rightarrow> string"                      \<comment> \<open>the JSON text of a time\<close>
  dv_atoi_err :: "string \<Rightarrow> string"

definition audit_cat :: string where
  "audit_cat = ''cat /var/log/vssh/audit.log '' @ [CHR 0x22] @ ''$HOME/.vssh/audit.log'' @ [CHR 0x22] @ '' 2>/dev/null''"

definition readAuditSource :: "diff_env \<Rightarrow> ctl \<Rightarrow> front \<Rightarrow> string \<Rightarrow> mstate \<Rightarrow> (string + string) \<times> mstate" where
  "readAuditSource dv ct fr node s =
     (if trim_space node = '''' then
        (case read_file (ms_fs s) (dv_log dv) of Inl e \<Rightarrow> (Inl (ct_io_err ct e), s) | Inr d \<Rightarrow> (Inr d, s))
      else (let ((r, err), s1) = run_at fr node audit_cat s
            in (case err of Some m \<Rightarrow> Inl m | None \<Rightarrow> Inr (er_stdout r), s1)))"

definition flag_value :: "string \<Rightarrow> string \<Rightarrow> string list \<Rightarrow> string + string \<times> string list" where
  "flag_value name a rest =
     (if has_prefix (name @ ''='') a then Inr (trim_prefix (name @ ''='') a, rest)
      else (case rest of [] \<Rightarrow> Inl (name @ '' needs a value'') | v # more_args \<Rightarrow> Inr (v, more_args)))"

lemma flag_value_length: "flag_value name a rest = Inr (v, t) \<Longrightarrow> length t \<le> length rest"
  by (auto simp: flag_value_def split: if_splits list.splits)

definition is_flag :: "string \<Rightarrow> string \<Rightarrow> bool" where
  "is_flag name a \<longleftrightarrow> a = name \<or> has_prefix (name @ ''='') a"

function diff_flags :: "diff_env \<Rightarrow> string list \<Rightarrow> string \<times> bool \<times> options \<Rightarrow> string + (string \<times> bool \<times> options)" where
  "diff_flags dv [] x = Inr x"
| "diff_flags dv (a # rest) x =
     (case x of (node, js, opts) \<Rightarrow>
       if is_flag ''--node'' a then
         (case flag_value ''--node'' a rest of Inl e \<Rightarrow> Inl e | Inr (v, t) \<Rightarrow> diff_flags dv t (v, js, opts))
       else if is_flag ''--last'' a then
         (case flag_value ''--last'' a rest of Inl e \<Rightarrow> Inl e
          | Inr (v, t) \<Rightarrow> (case go_atoi v of (n, ok) \<Rightarrow>
              if ok then diff_flags dv t (node, js, opts\<lparr>op_last := n\<rparr>) else Inl (''invalid --last: '' @ dv_atoi_err dv v)))
       else if is_flag ''--since'' a then
         (case flag_value ''--since'' a rest of Inl e \<Rightarrow> Inl e
          | Inr (v, t) \<Rightarrow> (case dv_duration dv v of Inl e \<Rightarrow> Inl (''invalid --since: '' @ e)
              | Inr d \<Rightarrow> diff_flags dv t (node, js, opts\<lparr>op_since := d\<rparr>)))
       else if a = ''--json'' then diff_flags dv rest (node, True, opts)
       else Inl (''unknown flag '' @ go_quote a))"
  by pat_completeness auto
termination
  by (relation "measure (\<lambda>(_, as, _). length as)") (auto dest!: flag_value_length)

definition last_ten :: options where "last_ten = \<lparr>op_last = 10, op_since = 0, op_now = None, op_gap = 0\<rparr>"

definition diffOptionsFromArgs :: "diff_env \<Rightarrow> string list \<Rightarrow> string + (string \<times> bool \<times> options)" where
  "diffOptionsFromArgs dv as = diff_flags dv as ('''', False, last_ten)"

definition outcome_json :: "outcome \<Rightarrow> json" where
  "outcome_json oc = JObj ([(''command'', JStr (oc_command oc)), (''success'', JBool (oc_success oc)),
     (''exit_code'', json_int (oc_exit oc))] @ omit_empty ''detail'' (oc_detail oc))"

definition session_json :: "diff_env \<Rightarrow> session \<Rightarrow> json" where
  "session_json dv s = JObj (omit_empty ''key_name'' (se_key s) @ omit_empty ''remote'' (se_remote s)
     @ omit_empty ''transport'' (se_transport s)
     @ [(''start'', JStr (dv_show dv (se_start s))), (''end'', JStr (dv_show dv (se_end s))), (''duration_ms'', json_int (se_ms s)),
        (''commands'', json_list (map JStr (se_commands s))), (''outcomes'', json_list (map outcome_json (se_outcomes s))),
        (''summary'', JStr (se_summary s))])"

definition parse_failed :: string where "parse_failed = ''bufio.Scanner: token too long''"

definition toolDiff :: "diff_env \<Rightarrow> ctl \<Rightarrow> front \<Rightarrow> json \<Rightarrow> mstate \<Rightarrow> json \<times> mstate" where
  "toolDiff dv ct fr args s =
     (let tool = ''vssh_diff''; since = getString args ''since''; node = getString args ''node'';
          opts = last_ten\<lparr>op_last := fr_int fr (getFloat args ''last_n'' ''10'')\<rparr> in
      case (if since = '''' then Inr 0 else dv_duration dv since) of
        Inl e \<Rightarrow> (memErr tool ''bad_argument'' (''invalid since: '' @ e), s)
      | Inr d \<Rightarrow>
          (case readAuditSource dv ct fr node s of
             (Inl e, s1) \<Rightarrow> (memErr tool ''audit_read_failed'' e, s1)
           | (Inr text, s1) \<Rightarrow>
               (case AnalyzeReader (dv_clocks dv) (dv_now dv) (opts\<lparr>op_since := d\<rparr>) text of
                  None \<Rightarrow> (memErr tool ''parse_failed'' parse_failed, s1)
                | Some ss \<Rightarrow> (ok_json tool [(''node'', JStr node), (''session_count'', json_int (int (length ss))),
                      (''sessions'', json_list (map (session_json dv) ss))], s1))))"

text \<open>The answer of a node that could not run the command counts as an empty log.\<close>
lemma failed_read_is_empty:
  assumes "trim_space node \<noteq> ''''" "run_at fr node audit_cat s = ((r, None), s1)" "er_stdout r = ''''"
  shows "readAuditSource dv ct fr node s = (Inr '''', s1)"
  using assms by (simp add: readAuditSource_def)

end
