(* ===== verification/Operator.thy ===== *)
theory Operator
  imports Deploy McpDiff McpState
begin

text \<open>
  The verbs of the command line on the memory of the fleet, discovery, health, intents, plans, the signed
  state and the account of the audit log (\<^verbatim>\<open>cmd/vssh/commands_memory.go\<close>,
  \<^verbatim>\<open>commands_discover.go\<close>, \<^verbatim>\<open>commands_health.go\<close>, \<^verbatim>\<open>commands_intent.go\<close>,
  \<^verbatim>\<open>commands_workflow.go\<close>, \<^verbatim>\<open>commands_fleetstate.go\<close>, \<^verbatim>\<open>commands_diff.go\<close>):
  their words, what they print and with which status they end. Standard input is an argument.
\<close>

section \<open>Printing\<close>

text \<open>\<^verbatim>\<open>%-ns\<close> counts runes.\<close>
definition padded :: "nat \<Rightarrow> string \<Rightarrow> string" where
  "padded n t = t @ replicate (n - rune_count (length t) t) SP"

definition lines_text :: "string list \<Rightarrow> string" where
  "lines_text ls = concat (map (\<lambda>l. l @ [NL]) ls)"

definition vssh_fails :: "string \<Rightarrow> shown" where
  "vssh_fails e = fails (''vssh: '' @ e)"

section \<open>Memory\<close>

definition memoryUsage :: string where
  "memoryUsage = join [NL]
     [''usage:'', ''  vssh memory get [node]'', ''  vssh memory set <node> [--role=R] [--services=a,b] [--tags=x,y]'',
      ''  vssh memory note <node> <text>'', ''  vssh memory find [--role=R] [--tag=T] [--service=S] [query]'',
      ''  vssh memory auto-note <node> [output]   (reads stdin if output omitted)'', ''  vssh memory ask <query>'',
      ''  vssh memory discover [nodes...] [--apply]   auto-detect role/services/tags from'',
      replicate 46 SP @ ''what each node actually runs'']"

definition unknown_flag :: "string \<Rightarrow> string" where
  "unknown_flag a = ''vssh: unknown flag '' @ go_quote a"

definition loadMemoryOrExit :: "ctl \<Rightarrow> front \<Rightarrow> (fleet \<Rightarrow> shown \<times> mstate) \<Rightarrow> mstate \<Rightarrow> shown \<times> mstate" where
  "loadMemoryOrExit ct fr k s =
     (case LoadFleet (fr_home fr) (ms_fs s) of Inl e \<Rightarrow> (vssh_fails (ct_load_err ct e), s) | Inr fl \<Rightarrow> k fl)"

definition save_or_exit :: "ctl \<Rightarrow> front \<Rightarrow> string \<Rightarrow> fleet \<Rightarrow> shown \<Rightarrow> mstate \<Rightarrow> shown \<times> mstate" where
  "save_or_exit ct fr what fl r s =
     (case SaveFleet (ct_now ct) (fr_home fr) fl (ms_fs s) of
        (Some e, f) \<Rightarrow> (vssh_fails (what @ ct_io_err ct e), s\<lparr>ms_fs := f\<rparr>)
      | (None, f) \<Rightarrow> (r, s\<lparr>ms_fs := f\<rparr>))"

definition printJSON :: "json \<Rightarrow> shown" where "printJSON v = says (json_line v)"

definition cmdMemoryGet :: "ctl \<Rightarrow> front \<Rightarrow> string list \<Rightarrow> mstate \<Rightarrow> shown \<times> mstate" where
  "cmdMemoryGet ct fr args s = loadMemoryOrExit ct fr (\<lambda>fl.
     (case args of [] \<Rightarrow> printJSON (fleet_json fl)
      | node # _ \<Rightarrow> (case GetNode fl node of None \<Rightarrow> vssh_fails (''no memory for node '' @ go_quote node)
          | Some m \<Rightarrow> printJSON (Fleet.memory_json m)), s)) s"

definition splitCSV :: "string \<Rightarrow> string list" where
  "splitCSV t = filter (\<lambda>p. p \<noteq> '''') (map trim_space (split_on (CHR '','') t))"

fun set_flags :: "string list \<Rightarrow> memory \<Rightarrow> string + memory" where
  "set_flags [] m = Inr m"
| "set_flags (a # as) m =
     (if has_prefix ''--role='' a then set_flags as (m\<lparr>me_role := trim_prefix ''--role='' a\<rparr>)
      else if has_prefix ''--services='' a then set_flags as (m\<lparr>me_services := splitCSV (trim_prefix ''--services='' a)\<rparr>)
      else if has_prefix ''--tags='' a then set_flags as (m\<lparr>me_tags := splitCSV (trim_prefix ''--tags='' a)\<rparr>)
      else Inl (unknown_flag a @ [NL] @ memoryUsage))"

definition cmdMemorySet :: "ctl \<Rightarrow> front \<Rightarrow> string list \<Rightarrow> mstate \<Rightarrow> shown \<times> mstate" where
  "cmdMemorySet ct fr args s =
     (case args of [] \<Rightarrow> (fails memoryUsage, s)
      | node # flags \<Rightarrow> loadMemoryOrExit ct fr (\<lambda>fl.
          (case set_flags flags (node_memory fl node) of Inl e \<Rightarrow> (fails e, s)
           | Inr m \<Rightarrow> (let fl1 = SetNode (ct_now ct) node m fl
               in save_or_exit ct fr '''' fl1 (printJSON (Fleet.memory_json (node_memory fl1 node))) s))) s)"

definition cmdMemoryNote :: "ctl \<Rightarrow> front \<Rightarrow> string list \<Rightarrow> mstate \<Rightarrow> shown \<times> mstate" where
  "cmdMemoryNote ct fr args s =
     (case args of
        node # w # ws \<Rightarrow>
          (let text = trim_space (join '' '' (w # ws)) in
           if text = '''' then (vssh_fails ''note text is required'', s)
           else loadMemoryOrExit ct fr (\<lambda>fl.
             let fl1 = AddNote (ct_now ct) node text fl
             in save_or_exit ct fr '''' fl1 (printJSON (Fleet.memory_json (node_memory fl1 node))) s) s)
      | _ \<Rightarrow> (fails ''usage: vssh memory note <node> <text>'', s))"

function find_flags :: "string list \<Rightarrow> fleet_filter \<times> string list \<Rightarrow> shown + fleet_filter \<times> string list" where
  "find_flags [] x = Inr x"
| "find_flags (a # rest) x =
     (case x of (ff, text) \<Rightarrow>
       if is_flag ''--role'' a then
         (case flag_value ''--role'' a rest of Inl e \<Rightarrow> Inl (vssh_fails e) | Inr (v, t) \<Rightarrow> find_flags t (ff\<lparr>ff_role := v\<rparr>, text))
       else if is_flag ''--tag'' a then
         (case flag_value ''--tag'' a rest of Inl e \<Rightarrow> Inl (vssh_fails e) | Inr (v, t) \<Rightarrow> find_flags t (ff\<lparr>ff_tag := v\<rparr>, text))
       else if is_flag ''--service'' a then
         (case flag_value ''--service'' a rest of Inl e \<Rightarrow> Inl (vssh_fails e) | Inr (v, t) \<Rightarrow> find_flags t (ff\<lparr>ff_service := v\<rparr>, text))
       else if has_prefix ''--'' a then Inl (fails (unknown_flag a @ [NL] @ memoryUsage))
       else find_flags rest (ff, text @ [a]))"
  by pat_completeness auto
termination
  by (relation "measure (\<lambda>(as, _). length as)") (auto dest!: flag_value_length)

definition cmdMemoryFind :: "ctl \<Rightarrow> front \<Rightarrow> string list \<Rightarrow> mstate \<Rightarrow> shown \<times> mstate" where
  "cmdMemoryFind ct fr args s =
     (case find_flags args (\<lparr>ff_role = '''', ff_tag = '''', ff_service = '''', ff_text = ''''\<rparr>, []) of
        Inl x \<Rightarrow> (x, s)
      | Inr (ff, text) \<Rightarrow> loadMemoryOrExit ct fr (\<lambda>fl.
          (printJSON (JArr (map Fleet.memory_json (FindNodes (ff\<lparr>ff_text := join '' '' text\<rparr>) fl))), s)) s)"

text \<open>Standard input is its text or the error of reading it.\<close>
definition cmdMemoryAutoNote :: "ctl \<Rightarrow> front \<Rightarrow> string + string \<Rightarrow> string list \<Rightarrow> mstate \<Rightarrow> shown \<times> mstate" where
  "cmdMemoryAutoNote ct fr stdin args s =
     (case args of [] \<Rightarrow> (fails ''usage: vssh memory auto-note <node> [output]  (reads stdin if output omitted)'', s)
      | node # as \<Rightarrow>
          (let given = filter (has_prefix ''--command='') as;
               command = (if given = [] then '''' else trim_prefix ''--command='' (last given));
               words = join '' '' (filter (\<lambda>a. \<not> has_prefix ''--command='' a) as)
           in case (if trim_space words = '''' then stdin else Inr words) of
                Inl e \<Rightarrow> (vssh_fails e, s)
              | Inr out \<Rightarrow>
                  if trim_space out = '''' then (vssh_fails ''no output to analyze (pass as arg or via stdin)'', s)
                  else loadMemoryOrExit ct fr (\<lambda>fl.
                    let (ns, fl1) = AutoNote (ct_floats ct) (ct_now ct) node command out fl
                    in save_or_exit ct fr '''' fl1
                         (printJSON (json_map [(''node'', JStr node), (''extracted'', json_list (map JStr ns))])) s) s))"

definition hit_lines :: "hit \<Rightarrow> string list" where
  "hit_lines h =
     (ht_node h @ '' (role='' @ (if me_role (ht_memory h) = '''' then ''-'' else me_role (ht_memory h)) @ '', score='' @ show_int (ht_score h) @ '')'')
     # map (\<lambda>r. ''  - '' @ r) (ht_reasons h)"

definition cmdMemoryAsk :: "ctl \<Rightarrow> front \<Rightarrow> string list \<Rightarrow> mstate \<Rightarrow> shown \<times> mstate" where
  "cmdMemoryAsk ct fr args s =
     (let query = trim_space (join '' '' args) in
      if query = '''' then (fails ''usage: vssh memory ask <query>'', s)
      else loadMemoryOrExit ct fr (\<lambda>fl.
        let hs = AskFleet query fl
        in (says (if hs = [] then ''no matching nodes for '' @ go_quote query @ [NL]
                  else lines_text (concat (map hit_lines hs))), s)) s)"

section \<open>Discovery and health\<close>

text \<open>The switches that were given, and the targets.\<close>
fun node_flags :: "string list \<Rightarrow> string list \<Rightarrow> string list \<times> string list \<Rightarrow> shown + string list \<times> string list" where
  "node_flags sw [] x = Inr x"
| "node_flags sw [a] (seen, ts) =
     (if a \<in> set sw then Inr (a # seen, ts)
      else if a = ''--target'' then Inl (vssh_fails ''--target needs a value'')
      else if has_prefix ''--target='' a then Inr (seen, ts @ split_on (CHR '','') (trim_prefix ''--target='' a))
      else if has_prefix ''--'' a then Inl (fails (unknown_flag a))
      else Inr (seen, ts @ [a]))"
| "node_flags sw (a # v # as) (seen, ts) =
     (if a \<in> set sw then node_flags sw (v # as) (a # seen, ts)
      else if a = ''--target'' then node_flags sw as (seen, ts @ split_on (CHR '','') v)
      else if has_prefix ''--target='' a then node_flags sw (v # as) (seen, ts @ split_on (CHR '','') (trim_prefix ''--target='' a))
      else if has_prefix ''--'' a then Inl (fails (unknown_flag a))
      else node_flags sw (v # as) (seen, ts @ [a]))"

definition or_peers :: "front \<Rightarrow> string list \<Rightarrow> string list" where
  "or_peers fr ts = (if ts = [] then peerNames fr else ts)"

definition dash :: string where "dash = [CHR 0xE2, CHR 0x80, CHR 0x94]"

definition discovery_line :: "discovery \<Rightarrow> string" where
  "discovery_line d =
     padded 6 (di_node d) @
     (if di_error d \<noteq> '''' then ''  !! '' @ di_error d
      else ''  role='' @ padded 8 (di_role d) @ '' services='' @ padded 30 (join '','' (di_services d)) @ '' tags='' @ join '','' (di_tags d))"

definition cmdMemoryDiscover :: "ctl \<Rightarrow> front \<Rightarrow> string list \<Rightarrow> mstate \<Rightarrow> shown \<times> mstate" where
  "cmdMemoryDiscover ct fr args s =
     (case node_flags [''--apply'', ''--json''] args ([], []) of
        Inl x \<Rightarrow> (x, s)
      | Inr (seen, given) \<Rightarrow>
          let targets = or_peers fr given; ap = (''--apply'' \<in> set seen); js = (''--json'' \<in> set seen) in
          if targets = [] then (vssh_fails ''no nodes to discover (no peers configured)'', s)
          else
            let (ds, s1) = discoverNodes fr targets s;
                head_text = (\<lambda>n. if ap then ''applied to '' @ show_nat n @ ''/'' @ show_nat (length ds) @ '' nodes (notes preserved)'' @ [NL, NL]
                   else ''(plan only '' @ dash @ '' re-run with --apply to write fleet memory)'' @ [NL, NL]);
                r = (\<lambda>n. if js then printJSON (json_map [(''applied'', JBool ap), (''nodes'', JArr (map discovery_json ds))])
                   else says (head_text n @ lines_text (map discovery_line ds)))
            in if ap then loadMemoryOrExit ct fr (\<lambda>fl.
                 save_or_exit ct fr ''save: '' (apply_discovery (ct_now ct) ds fl)
                   (r (length (filter (\<lambda>d. di_error d = '''') ds))) s1) s1
               else (r 0, s1))"

definition cmdMemory :: "ctl \<Rightarrow> front \<Rightarrow> string + string \<Rightarrow> string list \<Rightarrow> mstate \<Rightarrow> shown \<times> mstate" where
  "cmdMemory ct fr stdin args s =
     (case args of [] \<Rightarrow> (fails memoryUsage, s)
      | verb # as \<Rightarrow>
          if verb = ''get'' then cmdMemoryGet ct fr as s
          else if verb = ''set'' then cmdMemorySet ct fr as s
          else if verb = ''note'' then cmdMemoryNote ct fr as s
          else if verb = ''find'' then cmdMemoryFind ct fr as s
          else if verb = ''auto-note'' \<or> verb = ''autonote'' then cmdMemoryAutoNote ct fr stdin as s
          else if verb = ''ask'' then cmdMemoryAsk ct fr as s
          else if verb = ''discover'' then cmdMemoryDiscover ct fr as s
          else (fails memoryUsage, s))"

definition fleetTrim :: "floats \<Rightarrow> string \<Rightarrow> string" where
  "fleetTrim fp x =
     (let t = trim_right_by (\<lambda>c. c = CHR ''.'') (trim_right_by (\<lambda>c. c = CHR ''0'') (fl_fixed fp x))
      in if t = '''' then ''0'' else t)"

definition health_mark :: "severity option \<Rightarrow> string" where
  "health_mark v = (case v of Some HealthOK \<Rightarrow> ''  ok  '' | Some HealthWarn \<Rightarrow> '' WARN '' | Some HealthCritical \<Rightarrow> '' CRIT ''
     | None \<Rightarrow> '' DOWN '')"

definition health_line_of :: "floats \<Rightarrow> node_health \<Rightarrow> string" where
  "health_line_of fp n =
     (let detail = join '', '' (nh_issues n); h = nh_signals n;
          shown_detail = (if nh_severity n = None then nh_error n
            else if detail \<noteq> '''' then detail
            else ''disk '' @ show_int (hs_disk h) @ ''%, load '' @ fleetTrim fp (hs_load h) @ ''/'' @ show_int (hs_cores h) @ ''c, mem ''
              @ show_int (hs_mem h) @ ''%'')
      in ''['' @ health_mark (nh_severity n) @ ''] '' @ padded 8 (nh_node n) @ '' '' @ shown_detail)"

definition count_of :: "node_health list \<Rightarrow> severity option \<Rightarrow> string" where
  "count_of ns v = show_nat (length (filter (\<lambda>n. nh_severity n = v) ns))"

definition cmdFleetHealth :: "ctl \<Rightarrow> front \<Rightarrow> string list \<Rightarrow> mstate \<Rightarrow> shown \<times> mstate" where
  "cmdFleetHealth ct fr args s =
     (case node_flags [''--json''] args ([], []) of
        Inl x \<Rightarrow> (x, s)
      | Inr (seen, given) \<Rightarrow>
          let targets = or_peers fr given in
          if targets = [] then (vssh_fails ''no nodes to check (no peers configured)'', s)
          else
            let (ns0, s1) = probeFleetHealth (ct_floats ct) fr targets s; ns = cmdFleetHealth_report ns0 in
            (if (''--json'' \<in> set seen) then
               printJSON (json_map [(''nodes'', JArr (map (health_json fr) ns)), (''summary'', healthCounts ns)])
             else says (lines_text (map (health_line_of (ct_floats ct)) ns @
               ['''', show_nat (length ns) @ '' nodes: '' @ count_of ns (Some HealthOK) @ '' ok, '' @ count_of ns (Some HealthWarn)
                 @ '' warn, '' @ count_of ns (Some HealthCritical) @ '' critical, '' @ count_of ns None @ '' down''])), s1))"

section \<open>Intents\<close>

record intent_words =
  iw_target :: string
  iw_run :: bool
  iw_json :: bool
  iw_query :: "string list"

fun intent_flags :: "string list \<Rightarrow> intent_words \<Rightarrow> shown + intent_words" where
  "intent_flags [] w = Inr w"
| "intent_flags (a # as) w =
     (if a = ''--target'' then (case as of [] \<Rightarrow> Inl (vssh_fails ''--target needs a value'')
        | v # rest \<Rightarrow> intent_flags rest (w\<lparr>iw_target := v\<rparr>))
      else if has_prefix ''--target='' a then intent_flags as (w\<lparr>iw_target := trim_prefix ''--target='' a\<rparr>)
      else if a = ''--run'' then intent_flags as (w\<lparr>iw_run := True\<rparr>)
      else if a = ''--json'' then intent_flags as (w\<lparr>iw_json := True\<rparr>)
      else if has_prefix ''--'' a then Inl (fails (unknown_flag a))
      else intent_flags as (w\<lparr>iw_query := iw_query w @ [a]\<rparr>))"

definition plan_json :: "plan \<Rightarrow> json" where
  "plan_json p = JObj ([(''intent'', JStr (pn_intent p)), (''commands'', json_list (map JStr (pn_commands p))),
     (''rationale'', JStr (pn_rationale p)), (''matched_keywords'', json_list (map JStr (pn_matched p)))]
     @ omit_empty ''arg'' (pn_arg p))"

definition plan_text :: "plan \<Rightarrow> string" where
  "plan_text p = lines_text ([''intent: '' @ pn_intent p, ''why:    '' @ pn_rationale p, ''matched: '' @ join '', '' (pn_matched p), ''plan:'']
     @ map (\<lambda>c. ''  $ '' @ c) (pn_commands p))"

text \<open>What is printed of a step and of a node, read from their documents.\<close>
definition step_out :: "json \<Rightarrow> string" where
  "step_out r = (let so = getString r ''stdout'' in
     ''$ '' @ getString r ''command'' @ [NL] @ (if so = '''' then '''' else so @ (if has_suffix [NL] so then '''' else [NL])))"

definition step_err :: "json \<Rightarrow> string" where
  "step_err r = (let e = getString r ''error'' in getString r ''stderr'' @ (if e = '''' then '''' else ''[error] '' @ e @ [NL]))"

definition steps_of :: "json \<Rightarrow> json list" where
  "steps_of n = (case json_get ''results'' n of Some (JArr rs) \<Rightarrow> rs | _ \<Rightarrow> [])"

definition node_out :: "bool \<Rightarrow> json \<Rightarrow> string" where
  "node_out many n =
     (if many then [NL] @ ''=== '' @ getString n ''node'' @ '' ==='' @ [NL] else '''') @ concat (map step_out (steps_of n))"

definition cmdIntent :: "ctl \<Rightarrow> front \<Rightarrow> string list \<Rightarrow> mstate \<Rightarrow> shown \<times> mstate" where
  "cmdIntent ct fr args s =
     (case intent_flags args \<lparr>iw_target = '''', iw_run = False, iw_json = False, iw_query = []\<rparr> of
        Inl x \<Rightarrow> (x, s)
      | Inr w \<Rightarrow>
          let query = join '' '' (iw_query w) in
          if trim_space query = '''' then
            (fails (''usage: vssh intent '' @ [CHR 0x22] @ ''disk check'' @ [CHR 0x22] @ '' [--target <host>] [--run] [--json]''), s)
          else (case ResolveIntent (fr_home fr) (ms_fs s) query of
              None \<Rightarrow> (vssh_fails (''no intent matched '' @ go_quote query @ '' (try '' @ [CHR 0x27] @ ''disk check'' @ [CHR 0x27] @ '', ''
                @ [CHR 0x27] @ ''service check nginx'' @ [CHR 0x27] @ '', '' @ [CHR 0x27] @ ''gpu status'' @ [CHR 0x27] @ '')''), s)
            | Some p \<Rightarrow>
                if iw_run w \<and> iw_target w = '''' then (vssh_fails ''--run requires --target'', s)
                else if \<not> iw_run w then (if iw_json w then printJSON (plan_json p) else says (plan_text p), s)
                else (case resolveTargets ct fr (iw_target w) s of
                    Inl e \<Rightarrow> (vssh_fails e, s)
                  | Inr ts \<Rightarrow>
                      let (ns, s1) = runPlanMulti fr ts (pn_commands p) s in
                      (if iw_json w then printJSON (json_map [(''plan'', plan_json p), (''targets'', texts ts), (''nodes'', JArr ns)])
                       else \<lparr>sh_out = ''intent: '' @ pn_intent p @ arrow @ join '', '' ts @ [NL] @ concat (map (node_out (1 < length ns)) ns),
                              sh_err = concat (map step_err (concat (map steps_of ns))), sh_exit = 0\<rparr>, s1))))"

section \<open>Plans\<close>

definition workflow_line :: "workflow \<Rightarrow> string" where
  "workflow_line w = padded 18 (wf_name w) @ '' '' @ wf_desc w
     @ (if wf_params w = [] then '''' else '' (params: '' @ join '', '' (wf_params w) @ '')'')"

record run_words =
  rw_target :: string
  rw_dry :: bool
  rw_json :: bool
  rw_params :: "(string \<times> string) list"
  rw_name :: string

definition add_param :: "string \<Rightarrow> run_words \<Rightarrow> run_words option" where
  "add_param kv w =
     (case cut (CHR ''='') kv of None \<Rightarrow> None
      | Some (k, v) \<Rightarrow> if k = '''' then None else Some (w\<lparr>rw_params := put_entry k v (rw_params w)\<rparr>))"

definition bad_param :: shown where "bad_param = vssh_fails ''--param expects key=value''"

fun run_flags :: "string list \<Rightarrow> run_words \<Rightarrow> shown + run_words" where
  "run_flags [] w = Inr w"
| "run_flags (a # as) w =
     (if has_prefix ''--target='' a then run_flags as (w\<lparr>rw_target := trim_prefix ''--target='' a\<rparr>)
      else if a = ''--target'' \<and> as \<noteq> [] then
        (case as of v # rest \<Rightarrow> run_flags rest (w\<lparr>rw_target := v\<rparr>) | [] \<Rightarrow> Inr w)
      else if has_prefix ''--param='' a then
        (case add_param (trim_prefix ''--param='' a) w of None \<Rightarrow> Inl bad_param | Some w1 \<Rightarrow> run_flags as w1)
      else if a = ''--param'' \<and> as \<noteq> [] then
        (case as of v # rest \<Rightarrow> (case add_param v w of None \<Rightarrow> Inl bad_param | Some w1 \<Rightarrow> run_flags rest w1) | [] \<Rightarrow> Inr w)
      else if a = ''--dry-run'' then run_flags as (w\<lparr>rw_dry := True\<rparr>)
      else if a = ''--json'' then run_flags as (w\<lparr>rw_json := True\<rparr>)
      else if has_prefix ''--'' a then Inl (fails (unknown_flag a))
      else run_flags as (if rw_name w = '''' then w\<lparr>rw_name := a\<rparr> else w))"

definition step_lines :: "step_result \<Rightarrow> string list" where
  "step_lines r =
     (if sr_type r = ''summary'' then []
      else if sr_skipped r then [''  [plan] '' @ sr_id r @ '': '' @ sr_cmd r]
      else let out = trim_right_by (\<lambda>c. c = NL) (sr_stdout r) in
        (''  ['' @ (if sr_success r then ''ok'' else ''FAIL exit='' @ show_int (sr_exit r)) @ ''] '' @ sr_id r
          @ (if sr_action r = '''' then '''' else arrow @ sr_action r))
        # (if out = '''' then [] else map (\<lambda>l. ''      '' @ l) (split_on NL out)))"

definition printWorkflowRun :: "run_result \<Rightarrow> string" where
  "printWorkflowRun r = lines_text ([''run '' @ rr_id r @ ''  ('' @ rr_status r @ '')'']
     @ concat (map step_lines (rr_steps r)) @ [''summary: '' @ rr_summary r])"

definition cmdWorkflowRun :: "(string \<times> bool) list \<Rightarrow> ctl \<Rightarrow> front \<Rightarrow> string list \<Rightarrow> mstate \<Rightarrow> shown \<times> mstate" where
  "cmdWorkflowRun entries ct fr args s =
     (case run_flags args \<lparr>rw_target = '''', rw_dry = False, rw_json = False, rw_params = [], rw_name = ''''\<rparr> of
        Inl x \<Rightarrow> (x, s)
      | Inr w \<Rightarrow>
          let name = rw_name w; target = rw_target w in
          if name = '''' then (fails ''usage: vssh workflow run <name> --target X [--param k=v] [--dry-run]'', s)
          else (case GetWorkflow (fr_home fr) entries (ms_fs s) name of
              None \<Rightarrow> (vssh_fails (''no workflow '' @ go_quote name @ '' (try '' @ [CHR 0x27] @ ''vssh workflow list'' @ [CHR 0x27] @ '')''), s)
            | Some wk \<Rightarrow>
                (case Validate wk (rw_params w) of
                   Some e \<Rightarrow> (vssh_fails e, s)
                 | None \<Rightarrow>
                     if target = '''' then (vssh_fails ''--target is required'', s)
                     else
                       let (exec, s1) = (if rw_dry w then (no_runner, s) else (let (h, s1) = reach fr target s in (nativeExecFunc fr h, s1)));
                           (r, s2) = Run_workflow wk (newRunID ct name) target (rw_params w) (rw_dry w) exec (ct_now ct) (ct_now ct) s1;
                           (err, f) = SaveRun (fr_home fr) r (ms_fs s2)
                       in (\<lparr>sh_out = (if rw_json w then json_line (run_json r) else printWorkflowRun r),
                             sh_err = (case err of None \<Rightarrow> ''''
                               | Some e \<Rightarrow> ''vssh: warning: could not persist run: '' @ ct_io_err ct e @ [NL]),
                             sh_exit = 0\<rparr>, s2\<lparr>ms_fs := f\<rparr>))))"

definition cmdWorkflow :: "(string \<times> bool) list \<Rightarrow> ctl \<Rightarrow> front \<Rightarrow> string list \<Rightarrow> mstate \<Rightarrow> shown \<times> mstate" where
  "cmdWorkflow entries ct fr args s =
     (case args of
        [] \<Rightarrow> (fails ''usage: vssh workflow {list | run <name> --target X [--param k=v] [--dry-run] | status <run_id>}'', s)
      | verb # as \<Rightarrow>
          if verb = ''list'' then (says (lines_text (map workflow_line (ListWorkflows (fr_home fr) entries (ms_fs s)))), s)
          else if verb = ''run'' then cmdWorkflowRun entries ct fr as s
          else if verb = ''status'' then
            (case as of [] \<Rightarrow> fails ''usage: vssh workflow status <run_id>''
             | rid # _ \<Rightarrow> (case LoadRun (fr_home fr) rid (ms_fs s) of
                 Inl e \<Rightarrow> vssh_fails (''no such run '' @ go_quote rid @ '' ('' @ ct_run_err ct e @ '')'')
               | Inr r \<Rightarrow> says (printWorkflowRun r)), s)
          else (fails ''usage: vssh workflow {list | run | status}'', s))"

section \<open>Fleet state\<close>

definition show_flag :: "bool \<Rightarrow> string" where "show_flag b = (if b then ''true'' else ''false'')"

text \<open>None is the panic of a controller without a key.\<close>
definition cmdFleetState ::
  "signer \<Rightarrow> ctl \<Rightarrow> front \<Rightarrow> node list \<Rightarrow> string list \<Rightarrow> ident_cache \<times> mstate \<Rightarrow> (shown \<times> ident_cache \<times> mstate) option" where
  "cmdFleetState si ct fr ns args cs =
     (let action = (case args of [] \<Rightarrow> ''show'' | a # _ \<Rightarrow> a); live = list_ex (\<lambda>a. a = ''--live'' \<or> a = ''-live'') args;
          age = (\<lambda>sn. show_int (FleetStateAgeSeconds (si_parse si) (si_now si) sn));
          count = (\<lambda>sn. show_nat (length (sn_nodes sn)));
          stored = ReadFleetState (fr_home fr) (ms_fs (snd cs)) in
      if action = ''build'' \<or> action = ''refresh'' then
        map_option (\<lambda>((sn, err), c1, s1). (case err of
            Some e \<Rightarrow> vssh_fails (ct_io_err ct e)
          | None \<Rightarrow> says (''fleet state written: '' @ FleetStatePath (fr_home fr) @ '' ('' @ count sn @ '' nodes, live='' @ show_flag live
              @ '')'' @ [NL]), c1, s1)) (refreshFleetState si ct fr ns live cs)
      else if action = ''show'' then
        Some (case stored of
            Inl e \<Rightarrow> vssh_fails (''no fleet state ('' @ ct_load_err ct e @ ''); run '' @ [CHR 0x27] @ ''vssh fleet-state build'' @ [CHR 0x27])
          | Inr sn \<Rightarrow> \<lparr>sh_out = json_line (state_json sn), sh_err = ''# verified='' @ show_flag (VerifyFleetState (si_verify si) sn)
              @ '' age='' @ age sn @ ''s'' @ [NL], sh_exit = 0\<rparr>, cs)
      else if action = ''verify'' then
        Some (case stored of
            Inl e \<Rightarrow> vssh_fails (ct_load_err ct e)
          | Inr sn \<Rightarrow> if \<not> VerifyFleetState (si_verify si) sn then
                (says (''FAIL: signature invalid'' @ [NL]))\<lparr>sh_exit := 1\<rparr>
              else says (''OK: signature valid, '' @ count sn @ '' nodes, age '' @ age sn @ ''s'' @ [NL]), cs)
      else Some (fails ''usage: vssh fleet-state [build [--live]|show|verify]'', cs))"

section \<open>Account of the audit log\<close>

definition outcome_line :: "outcome \<Rightarrow> string" where
  "outcome_line oc = ''  - ['' @ (if oc_success oc then ''ok'' else ''exit '' @ show_int (oc_exit oc)) @ ''] '' @ oc_command oc
     @ (if oc_detail oc = '''' then '''' else ''   ('' @ oc_detail oc @ '')'')"

text \<open>The text of a time to the second is an argument.\<close>
definition session_lines :: "(int \<Rightarrow> string) \<Rightarrow> nat \<times> session \<Rightarrow> string list" where
  "session_lines at = (\<lambda>(i, s).
     [''session '' @ show_nat (Suc i) @ ''  key='' @ (if se_key s = '''' then ''-'' else se_key s) @ ''  endpoint='' @ se_remote s @ ''  ''
        @ at (se_start s) @ ''  ('' @ show_nat (length (se_outcomes s)) @ '' cmds, '' @ show_int (se_ms s) @ ''ms)'',
      ''  summary: '' @ se_summary s] @ map outcome_line (se_outcomes s))"

definition cmdDiff :: "(int \<Rightarrow> string) \<Rightarrow> diff_env \<Rightarrow> ctl \<Rightarrow> front \<Rightarrow> string list \<Rightarrow> mstate \<Rightarrow> shown \<times> mstate" where
  "cmdDiff at dv ct fr args s =
     (case diffOptionsFromArgs dv args of
        Inl e \<Rightarrow> (vssh_fails (e @ [NL] @ ''usage: vssh diff [--node <host>] [--last <N>] [--since <dur>] [--json]''), s)
      | Inr (node, js, opts) \<Rightarrow>
          (case readAuditSource dv ct fr node s of
             (Inl e, s1) \<Rightarrow> (vssh_fails e, s1)
           | (Inr text, s1) \<Rightarrow>
               (case AnalyzeReader (dv_clocks dv) (dv_now dv) opts text of
                  None \<Rightarrow> vssh_fails parse_failed
                | Some ss \<Rightarrow>
                    if js then says (json_line (json_list (map (session_json dv) ss)))
                    else if ss = [] then says (''no audit activity in range'' @ [NL])
                    else says (lines_text (concat (map (session_lines at) (enumerate 0 ss)))), s1)))"

section \<open>Asking for a plan changes nothing\<close>

lemma node_flags_seen:
  "node_flags sw args (seen, ts) = Inr (seen', ts') \<Longrightarrow> set seen' \<subseteq> set seen \<union> set args"
proof (induction sw args "(seen, ts)" arbitrary: seen ts rule: node_flags.induct)
  case (2 sw a)
  then show ?case by (auto split: if_splits)
next
  case (3 sw a v as)
  from 3(5) show ?case
    by (simp only: node_flags.simps split: if_splits) (use 3(1-4) in \<open>auto\<close>)
qed simp

lemma intent_flags_run: "intent_flags args w = Inr w' \<Longrightarrow> ''--run'' \<notin> set args \<Longrightarrow> iw_run w' = iw_run w"
proof (induction args w rule: intent_flags.induct)
  case (2 a as w)
  then have a: "a = ''--run'' \<longleftrightarrow> False" and as: "''--run'' \<notin> set as" by auto
  show ?case
  proof (cases "a = ''--target''")
    case True
    have e: "intent_flags (a # as) w = (case as of [] \<Rightarrow> Inl (vssh_fails ''--target needs a value'')
        | v # rest \<Rightarrow> intent_flags rest (w\<lparr>iw_target := v\<rparr>))"
      by (simp only: intent_flags.simps(2) True refl if_True)
    show ?thesis
    proof (cases as)
      case Nil
      with "2.prems"(1) show ?thesis unfolding e by simp
    next
      case (Cons v rest)
      with "2.prems"(1) have "intent_flags rest (w\<lparr>iw_target := v\<rparr>) = Inr w'" unfolding e by simp
      with 2(1)[OF True Cons] as Cons show ?thesis by simp
    qed
  next
    case False
    with 2(2-5) "2.prems"(1) as show ?thesis by (simp only: intent_flags.simps a False if_False split: if_splits) auto
  qed
qed simp

lemma over_targets_fs:
  assumes "\<And>t s r s'. f t s = (r, s') \<Longrightarrow> ms_fs s' = ms_fs s"
  shows "over_targets f ts s = (rs, s') \<Longrightarrow> ms_fs s' = ms_fs s"
proof (induction ts arbitrary: s rs)
  case (Cons t ts)
  obtain r s1 where "f t s = (r, s1)" by (metis surj_pair)
  with Cons assms[OF this] show ?case by (auto split: prod.splits)
qed simp

lemma run_at_fs: "run_at fr t c s = (r, s') \<Longrightarrow> ms_fs s' = ms_fs s"
  by (auto simp: run_at_def exec_on_def log_call_def split: prod.splits dest: reach_fs)

lemma discover_fs:
  assumes "discoverNodes fr ts s = (ds, s')"
  shows "ms_fs s' = ms_fs s"
proof -
  have "discover_one fr t s = (r, s1) \<Longrightarrow> ms_fs s1 = ms_fs s" for t s r s1
    by (auto simp: discover_one_def Let_def split: prod.splits option.splits dest: run_at_fs)
  note one = this
  from assms obtain rs where "over_targets (discover_one fr) ts s = (rs, s')" by (auto simp: discoverNodes_def split: prod.splits)
  then show ?thesis by (rule over_targets_fs[of "discover_one fr", rotated]) (rule one)
qed

lemma dry_step: "run_step exec True ps ss i status st = (x, st') \<Longrightarrow> st' = st"
  by (auto simp: run_step_def Let_def split: if_splits)

lemma dry_loop: "run_loop exec True ps ss hops i status st = (x, st') \<Longrightarrow> st' = st"
proof (induction hops arbitrary: i status x)
  case (Suc h)
  then show ?case by (auto split: if_splits prod.splits dest: dry_step)
qed simp

lemma dry_run: "Run_workflow w rid target ps True exec t0 t1 st = (r, st') \<Longrightarrow> st' = st"
  by (auto simp: Run_workflow_def Let_def split: prod.splits dest: dry_loop)

definition no_words :: intent_words where
  "no_words = \<lparr>iw_target = '''', iw_run = False, iw_json = False, iw_query = []\<rparr>"

definition no_run_words :: run_words where
  "no_run_words = \<lparr>rw_target = '''', rw_dry = False, rw_json = False, rw_params = [], rw_name = ''''\<rparr>"

text \<open>Without \<open>--apply\<close> the discovery writes no file, without \<open>--run\<close> an intent leaves everything as it is, and
  with \<open>--dry-run\<close> a workflow makes no call.\<close>
theorem planning_changes_nothing:
  "(''--apply'' \<notin> set args \<longrightarrow> ms_fs (snd (cmdMemoryDiscover ct fr args s)) = ms_fs s) \<and>
   (''--run'' \<notin> set args \<longrightarrow> snd (cmdIntent ct fr args s) = s) \<and>
   (\<forall>w. run_flags args no_run_words = Inr w \<and> rw_dry w \<longrightarrow> ms_calls (snd (cmdWorkflowRun entries ct fr args s)) = ms_calls s)"
proof (intro conjI impI allI)
  assume "''--apply'' \<notin> set args"
  then have "''--apply'' \<notin> set seen" if "node_flags [''--apply'', ''--json''] args ([], []) = Inr (seen, ts)" for seen ts
    using node_flags_seen[OF that] by auto
  then show "ms_fs (snd (cmdMemoryDiscover ct fr args s)) = ms_fs s"
    by (auto simp: cmdMemoryDiscover_def Let_def split: sum.splits prod.splits dest: discover_fs)
next
  assume "''--run'' \<notin> set args"
  then have "\<not> iw_run w" if "intent_flags args no_words = Inr w" for w
    using intent_flags_run[OF that] by (simp add: no_words_def)
  then show "snd (cmdIntent ct fr args s) = s"
    unfolding cmdIntent_def Let_def no_words_def[symmetric] by (auto split: sum.split option.split)
next
  fix w assume "run_flags args no_run_words = Inr w \<and> rw_dry w"
  then show "ms_calls (snd (cmdWorkflowRun entries ct fr args s)) = ms_calls s"
    unfolding cmdWorkflowRun_def Let_def no_run_words_def[symmetric]
    by (auto split: option.split prod.split dest!: dry_run)
qed

section \<open>The verbs do what the tools do\<close>

text \<open>An intent that is run from the command line makes the calls that the tool makes when it is told to execute
  the same words on the same target, and leaves the same state.\<close>
theorem intent_verb_is_tool:
  assumes "intent_flags args no_words = Inr w" "iw_run w"
    and "getString j ''query'' = join '' '' (iw_query w)" "getString j ''target'' = iw_target w" "getBool j ''execute'' False"
  shows "snd (cmdIntent ct fr args s) = snd (toolIntent ct fr j s)"
  using assms(2-5) unfolding cmdIntent_def toolIntent_def Let_def no_words_def[symmetric] assms(1)
  by (auto split: option.split sum.split prod.split)

text \<open>A workflow that is started from the command line makes the calls, and leaves the record, that the tool does
  for the same name, parameters and target.\<close>
theorem workflow_verb_is_tool:
  assumes "run_flags args no_run_words = Inr w" "rw_target w \<noteq> ''''"
    and "getString j ''name'' = rw_name w" "getString j ''target'' = rw_target w" "getBool j ''dry_run'' False = rw_dry w"
      "given_params ct j = rw_params w"
  shows "snd (cmdWorkflowRun entries ct fr args s) = snd (toolWorkflowRun entries ct fr j s)"
proof (cases "rw_name w = ''''")
  case True
  then show ?thesis by (simp add: cmdWorkflowRun_def toolWorkflowRun_def assms(3) assms(1)[unfolded no_run_words_def])
next
  case False
  note steps_def = cmdWorkflowRun_def toolWorkflowRun_def assms(3-6) assms(1)[unfolded no_run_words_def] False assms(2)
  show ?thesis
  proof (cases "GetWorkflow (fr_home fr) entries (ms_fs s) (rw_name w)")
    case (Some wk)
    show ?thesis
    proof (cases "Validate wk (rw_params w)")
      case None
      obtain exec s1 where e: "(if rw_dry w then (no_runner, s)
          else (let (h, s1) = reach fr (rw_target w) s in (nativeExecFunc fr h, s1))) = (exec, s1)" by (metis surj_pair)
      obtain r s2 where r: "Run_workflow wk (newRunID ct (rw_name w)) (rw_target w) (rw_params w) (rw_dry w) exec (ct_now ct) (ct_now ct) s1
        = (r, s2)" by (metis surj_pair)
      obtain err f where "SaveRun (fr_home fr) r (ms_fs s2) = (err, f)" by (metis surj_pair)
      then show ?thesis by (simp add: steps_def Some None e r Let_def)
    qed (simp add: steps_def Some)
  qed (simp add: steps_def)
qed

text \<open>Only the tool tells a run that failed from one that succeeded.\<close>
lemma failed_workflow_exits_zero:
  assumes "run_flags args no_run_words = Inr w" "rw_name w \<noteq> ''''" "rw_target w \<noteq> ''''"
    "GetWorkflow (fr_home fr) entries (ms_fs s) (rw_name w) = Some wk" "Validate wk (rw_params w) = None"
  shows "sh_exit (fst (cmdWorkflowRun entries ct fr args s)) = 0"
proof -
  obtain exec s1 where e: "(if rw_dry w then (no_runner, s)
      else (let (h, s1) = reach fr (rw_target w) s in (nativeExecFunc fr h, s1))) = (exec, s1)" by (metis surj_pair)
  obtain r s2 where r: "Run_workflow wk (newRunID ct (rw_name w)) (rw_target w) (rw_params w) (rw_dry w) exec (ct_now ct) (ct_now ct) s1
    = (r, s2)" by (metis surj_pair)
  obtain err f where "SaveRun (fr_home fr) r (ms_fs s2) = (err, f)" by (metis surj_pair)
  then show ?thesis by (simp add: cmdWorkflowRun_def assms(1)[unfolded no_run_words_def] assms(2-5) e r Let_def)
qed

section \<open>What a discovery may change\<close>

lemma SetNode_get:
  assumes "me_notes m = []"
  shows "GetNode (SetNode now k m fl) n =
    (if n = k then Some (m\<lparr>me_name := k, me_services := normalize_texts (me_services m), me_tags := normalize_texts (me_tags m),
        me_notes := (case GetNode fl k of Some old \<Rightarrow> me_notes old | None \<Rightarrow> []), me_updated := now\<rparr>) else GetNode fl n)"
  using assms by (auto simp: SetNode_def GetNode_def Let_def split: option.split)

lemma zero_notes: "me_notes memory_zero = []" by (simp add: memory_zero_def)

text \<open>Applying a discovery keeps the notes of every node, keeps the whole entry of a node that did not answer,
  and never drops a node.\<close>
theorem discovery_keeps_notes:
  assumes "GetNode fl n = Some m"
  shows "\<exists>m'. GetNode (apply_discovery now ds fl) n = Some m' \<and> me_notes m' = me_notes m \<and>
    ((\<forall>d \<in> set ds. di_node d = n \<longrightarrow> di_error d \<noteq> '''') \<longrightarrow> m' = m)"
  using assms
proof (induction ds arbitrary: fl m)
  case (Cons d ds)
  show ?case
  proof (cases "di_error d = ''''")
    case True
    let ?fl1 = "SetNode now (di_node d) (memory_zero\<lparr>me_role := di_role d, me_services := di_services d, me_tags := di_tags d\<rparr>) fl"
    have e: "apply_discovery now (d # ds) fl = apply_discovery now ds ?fl1" using True by (simp add: apply_discovery_def)
    obtain m1 where m1: "GetNode ?fl1 n = Some m1" "me_notes m1 = me_notes m" "n \<noteq> di_node d \<Longrightarrow> m1 = m"
      using Cons.prems by (cases "n = di_node d") (simp_all add: SetNode_get zero_notes)
    from Cons.IH[OF m1(1)] m1(2,3) True show ?thesis unfolding e by auto
  next
    case False
    then have "apply_discovery now (d # ds) fl = apply_discovery now ds fl" by (simp add: apply_discovery_def)
    with Cons.IH[OF Cons.prems] show ?thesis by auto
  qed
qed (auto simp: apply_discovery_def)

section \<open>Witnesses\<close>

definition plan_words :: "string list" where "plan_words = [''gpu'', ''status'', ''--target'', ''g1'', ''--run'']"

definition plan_args :: json where
  "plan_args = JObj [(''query'', JStr ''gpu status''), (''target'', JStr ''g1''), (''execute'', JBool True)]"

lemma intent_verb_is_tool_witness:
  "snd (cmdIntent demo_ctl demo_front plan_words idle) = snd (toolIntent demo_ctl demo_front plan_args idle)"
proof -
  have f: "intent_flags plan_words no_words = Inr \<lparr>iw_target = ''g1'', iw_run = True, iw_json = False, iw_query = [''gpu'', ''status'']\<rparr>"
    by code_simp
  have "getString plan_args ''query'' = join '' '' [''gpu'', ''status'']" "getString plan_args ''target'' = ''g1''"
    "getBool plan_args ''execute'' False" by code_simp+
  with intent_verb_is_tool[OF f] show ?thesis by simp
qed

definition dry_words :: "string list" where
  "dry_words = [''service-restart'', ''--target=d1'', ''--dry-run'', ''--param'', ''service=nginx'']"

definition dry_args :: json where
  "dry_args = JObj [(''name'', JStr ''service-restart''), (''target'', JStr ''d1''), (''dry_run'', JBool True),
     (''params'', JObj [(''service'', JStr ''nginx'')])]"

definition showing_ctl :: ctl where
  "showing_ctl = demo_ctl\<lparr>ct_show := (\<lambda>v. case v of JStr t \<Rightarrow> t | _ \<Rightarrow> '''')\<rparr>"

definition dry_parsed :: run_words where
  "dry_parsed = \<lparr>rw_target = ''d1'', rw_dry = True, rw_json = False, rw_params = [(''service'', ''nginx'')], rw_name = ''service-restart''\<rparr>"

lemma dry_flags: "run_flags dry_words no_run_words = Inr dry_parsed" by code_simp

lemma workflow_verb_is_tool_witness:
  "snd (cmdWorkflowRun [] showing_ctl demo_front dry_words idle) = snd (toolWorkflowRun [] showing_ctl demo_front dry_args idle)"
proof -
  have "getString dry_args ''name'' = ''service-restart''" "getString dry_args ''target'' = ''d1''"
    "getBool dry_args ''dry_run'' False = True" by code_simp+
  moreover have "given_params showing_ctl dry_args = [(''service'', ''nginx'')]"
    by (simp add: given_params_def getParamsMap_def dry_args_def json_get_def showing_ctl_def overlay_def)
  ultimately show ?thesis using workflow_verb_is_tool[OF dry_flags] by (simp add: dry_parsed_def)
qed

lemma planning_changes_nothing_witness:
  "ms_fs (snd (cmdMemoryDiscover demo_ctl demo_front [''d1''] idle)) = ms_fs idle \<and>
   snd (cmdIntent demo_ctl demo_front [''gpu'', ''status''] idle) = idle \<and>
   ms_calls (snd (cmdWorkflowRun [] showing_ctl demo_front dry_words idle)) = ms_calls idle"
proof -
  have "rw_dry dry_parsed" by (simp add: dry_parsed_def)
  with planning_changes_nothing[of "[''d1'']" demo_ctl demo_front idle]
    planning_changes_nothing[of "[''gpu'', ''status'']" demo_ctl demo_front idle]
    planning_changes_nothing[of dry_words showing_ctl demo_front idle "[]"] dry_flags
  show ?thesis by simp
qed

definition seen_d1 :: discovery where
  "seen_d1 = \<lparr>di_node = ''d1'', di_role = ''gpu'', di_services = [], di_tags = [], di_error = ''''\<rparr>"

definition noted :: fleet where
  "noted = AddNote '''' ''d1'' ''disk is full'' fleet_new"

lemma discovery_keeps_notes_witness:
  "\<exists>m. GetNode (apply_discovery ''2026'' [seen_d1] noted) ''d1'' = Some m \<and> map nt_text (me_notes m) = [''disk is full'']"
proof -
  obtain m where m: "GetNode noted ''d1'' = Some m" "map nt_text (me_notes m) = [''disk is full'']"
    by (simp add: noted_def AddNote_def GetNode_def fleet_new_def put_entry_def memory_zero_def last_notes_def maxNotes_def)
  from discovery_keeps_notes[OF m(1)] m(2) show ?thesis by metis
qed

end
