(* ===== verification/Verbs.thy ===== *)
theory Verbs
  imports TunnelTool Deploy
begin

text \<open>
  The verbs of the command line that act on nodes (\<^verbatim>\<open>cmd/vssh/main.go\<close>, \<^verbatim>\<open>commands_exec.go\<close>,
  \<^verbatim>\<open>commands_rpc.go\<close>): which verb a word means, what each prints and with which status it ends. What the
  verbs share with the tools is in \<open>McpExec\<close>.
\<close>

section \<open>The verb of a command line\<close>

definition verb_table :: "(string list \<times> string) list" where
  "verb_table =
     [([''server'', ''daemon'', ''vsshd''], ''server''), ([''shell''], ''shell''), ([''put''], ''put''), ([''get''], ''get''),
      ([''deploy-binary'', ''deploy''], ''deploy-binary''), ([''run'', ''exec''], ''run''), ([''run-many'', ''exec-many''], ''run-many''),
      ([''run-async'', ''run-job''], ''run-async''), ([''run-batch''], ''run-batch''), ([''rpc''], ''rpc''), ([''rpc-many''], ''rpc-many''),
      ([''facts''], ''facts''), ([''facts-many''], ''facts-many''), ([''job-start''], ''job-start''), ([''job-status''], ''job-status''),
      ([''job-logs''], ''job-logs''), ([''job-cancel''], ''job-cancel''), ([''artifact-collect''], ''artifact-collect''),
      ([''pubkey''], ''pubkey''), ([''keygen'', ''rotate-id'', ''rotate-key''], ''keygen''), ([''handshake-test''], ''handshake-test''),
      ([''audit-verify''], ''audit-verify''), ([''fwd'', ''tunnel''], ''fwd''), ([''setup''], ''setup''),
      ([''doctor'', ''setup-check'', ''install-check''], ''doctor''), ([''status''], ''status''), ([''list'', ''ls''], ''list''),
      ([''bench''], ''bench''), ([''mcp''], ''mcp''), ([''mcp-config''], ''mcp-config''), ([''mcp-install''], ''mcp-install''),
      ([''fleet-state'', ''fleetstate''], ''fleet-state''), ([''memory'', ''mem''], ''memory''), ([''diff''], ''diff''), ([''intent''], ''intent''),
      ([''workflow'', ''wf''], ''workflow''), ([''fleet-health'', ''health''], ''fleet-health''), ([''agent''], ''agent''),
      ([''version'', ''-v'', ''--version''], ''version''), ([''help'', ''-h'', ''--help''], ''help'')]"

text \<open>The verb and its arguments; a word that is no verb is the target of a shell.\<close>
definition command_of :: "string list \<Rightarrow> string \<times> string list" where
  "command_of args =
     (case args of [] \<Rightarrow> (''status'', [])
      | a # rest \<Rightarrow>
          (case find (\<lambda>(ws, _). a \<in> set ws) verb_table of Some (_, v) \<Rightarrow> (v, rest) | None \<Rightarrow> (''shell'', a # rest)))"

text \<open>The port of \<open>server\<close>: the last value of \<open>-p\<close> that is a number.\<close>
fun server_port :: "string list \<Rightarrow> int \<Rightarrow> int" where
  "server_port (a # v # rest) port =
     (if a = ''-p'' then server_port rest (if snd (go_atoi v) then fst (go_atoi v) else port) else server_port (v # rest) port)"
| "server_port _ port = port"

definition shows_json :: "json \<Rightarrow> shown" where "shows_json v = says (json_line v)"

section \<open>Commands\<close>

definition cmdServer :: "(int \<Rightarrow> string option) \<Rightarrow> front \<Rightarrow> string list \<Rightarrow> shown" where
  "cmdServer serve fr args =
     (let port = server_port args (fr_port fr); line = ''vsshd starting on :'' @ show_int port @ [NL] in
      case serve port of None \<Rightarrow> says line
      | Some e \<Rightarrow> \<lparr>sh_out = line, sh_err = ''Server error: '' @ e @ [NL], sh_exit = 1\<rparr>)"

definition cmdShell :: "(string \<Rightarrow> int \<Rightarrow> string option) \<Rightarrow> front \<Rightarrow> string list \<Rightarrow> mstate \<Rightarrow> shown \<times> mstate" where
  "cmdShell connect fr args s =
     (case args of [] \<Rightarrow> (fails ''Usage: vssh shell <host[:port]>'', s)
      | t # _ \<Rightarrow>
          (let (h0, port) = parseHostPort (fr_port fr) t; (h, s1) = reach fr h0 s
           in (case connect h port of Some e \<Rightarrow> error_line e | None \<Rightarrow> says '''', s1)))"

definition coded :: "string \<Rightarrow> string \<Rightarrow> string" where "coded code t = (if code = '''' then t else ''['' @ code @ ''] '' @ t)"

text \<open>What a command left, or why it was not run.\<close>
definition run_shown :: "exec_result \<times> string option \<Rightarrow> shown" where
  "run_shown x = (case x of
     (r, Some e) \<Rightarrow> fails (if er_code r = '''' then ''Error: '' @ e else ''Error ['' @ er_code r @ '']: '' @ e)
   | (r, None) \<Rightarrow>
       \<lparr>sh_out = er_stdout r,
        sh_err = er_stderr r @ (if \<not> er_success r \<and> er_error r \<noteq> '''' then coded (er_code r) (er_error r) @ [NL] else ''''),
        sh_exit = (if er_success r then 0 else if 0 < er_exit r then er_exit r else 1)\<rparr>)"

definition cmdRun :: "front \<Rightarrow> string list \<Rightarrow> mstate \<Rightarrow> shown \<times> mstate" where
  "cmdRun fr args s =
     (case args of
        t # c # cs \<Rightarrow>
          (let (h0, port) = parseHostPort (fr_port fr) t; (h, s1) = reach fr h0 s;
               (x, s2) = exec_on fr h port (join '' '' (c # cs)) s1
           in (run_shown x, s2))
      | _ \<Rightarrow> (fails ''Usage: vssh run <host[:port]> <command>'', s))"

text \<open>The lines of the standard input, and the session that runs them.\<close>
definition cmdRunBatch ::
  "(string \<Rightarrow> int \<Rightarrow> string list \<Rightarrow> string + json) \<Rightarrow> front \<Rightarrow> string list \<Rightarrow> string list \<Rightarrow> mstate \<Rightarrow> shown \<times> mstate" where
  "cmdRunBatch mux fr lines args s =
     (case args of [] \<Rightarrow> (fails ''Usage: vssh run-batch <host[:port]>   (commands on stdin, one per line)'', s)
      | t # _ \<Rightarrow>
          (let (h0, port) = parseHostPort (fr_port fr) t; (h, s1) = reach fr h0 s;
               cs = filter (\<lambda>l. trim_space l \<noteq> '''') lines
           in (if cs = [] then fails ''no commands provided on stdin''
               else (case mux h port cs of Inl e \<Rightarrow> error_line e | Inr v \<Rightarrow> shows_json v), s1)))"

definition cmdRunMany :: "front \<Rightarrow> string list \<Rightarrow> mstate \<Rightarrow> shown \<times> mstate" where
  "cmdRunMany fr args s =
     (case args of
        ts # c # cs \<Rightarrow>
          (let (rs, s1) = runMany fr (splitTargets ts) (join '' '' (c # cs)) s
           in (shows_json (JArr (map (multi_json exec_json) rs)), s1))
      | _ \<Rightarrow> (fails ''Usage: vssh run-many <host1,host2> <command>'', s))"

section \<open>A command as a job\<close>

text \<open>Id, status, exit code and duration of a job as the client reads it.\<close>
record job_view =
  jv_id :: string
  jv_status :: string
  jv_exit :: int
  jv_ms :: int

definition job_zero :: job_view where "job_zero = \<lparr>jv_id = '''', jv_status = '''', jv_exit = 0, jv_ms = 0\<rparr>"

text \<open>A time has to be a string that the parser of times takes.\<close>
definition set_job :: "(string \<Rightarrow> bool) \<Rightarrow> job_view setter" where
  "set_job time k v j =
     (if equal_fold k ''id'' then text_field v (\<lambda>t. j\<lparr>jv_id := t\<rparr>) j
      else if equal_fold k ''command'' \<or> equal_fold k ''error'' then text_field v (\<lambda>_. j) j
      else if equal_fold k ''status'' then text_field v (\<lambda>t. j\<lparr>jv_status := t\<rparr>) j
      else if equal_fold k ''exit_code'' then num_field v (\<lambda>i. j\<lparr>jv_exit := i\<rparr>) j
      else if equal_fold k ''started_at'' \<or> equal_fold k ''ended_at'' then
        (case v of JStr t \<Rightarrow> if time t then Some j else None | JNull \<Rightarrow> Some j | _ \<Rightarrow> None)
      else if equal_fold k ''duration_ms'' then num_field v (\<lambda>i. j\<lparr>jv_ms := i\<rparr>) j
      else Some j)"

definition set_logs :: "(string \<Rightarrow> bool) \<Rightarrow> (string \<times> string) setter" where
  "set_logs time k v = (\<lambda>(so, se).
     if equal_fold k ''stdout'' then text_field v (\<lambda>t. (t, se)) (so, se)
     else if equal_fold k ''stderr'' then text_field v (\<lambda>t. (so, t)) (so, se)
     else map_option (\<lambda>_. (so, se)) (set_job time k v job_zero))"

text \<open>What the data of a response decodes to, or the error.\<close>
definition decodeRPCResult :: "'a setter \<Rightarrow> 'a \<Rightarrow> reply \<Rightarrow> string + 'a" where
  "decodeRPCResult f z r =
     (if \<not> rp_success r then Inl (if rp_error r \<noteq> '''' then rp_error r else ''rpc failed'')
      else (case struct_of f z (rp_data r) of None \<Rightarrow> Inl ''json: cannot unmarshal'' | Some x \<Rightarrow> Inr x))"

text \<open>\<open>--wait n\<close> and the rest of the words.\<close>
fun async_flags :: "string list \<Rightarrow> int \<times> string list \<Rightarrow> int \<times> string list" where
  "async_flags (a # v # as) (wait, rest) =
     (if a = ''--wait'' \<or> a = ''-w'' then async_flags as (if snd (go_atoi v) then fst (go_atoi v) else wait, rest)
      else async_flags (v # as) (wait, rest @ [a]))"
| "async_flags [a] (wait, rest) = (wait, rest @ [a])"
| "async_flags [] x = x"

text \<open>The answers to the questions for the status that fit in before the deadline; every question is a call.\<close>
fun await_job ::
  "(string \<Rightarrow> bool) \<Rightarrow> front \<Rightarrow> string \<Rightarrow> string \<Rightarrow> (string + reply) list \<Rightarrow> mstate \<Rightarrow> job_view option \<times> mstate" where
  "await_job time fr target jid [] s = (None, s)"
| "await_job time fr target jid (a # as) s =
     (let (h0, port) = parseHostPort (fr_port fr) target; (h, s0) = reach fr h0 s;
          s1 = log_call (RpcOn h port ''job_status'' (JObj [(''id'', JStr jid)])) s0
      in case a of
           Inl _ \<Rightarrow> await_job time fr target jid as s1
         | Inr r \<Rightarrow>
             (case decodeRPCResult (set_job time) job_zero r of
                Inl _ \<Rightarrow> await_job time fr target jid as s1
              | Inr j \<Rightarrow> if jv_status j = ''running'' then await_job time fr target jid as s1 else (Some j, s1)))"

definition cmdRunAsync ::
  "(string \<Rightarrow> bool) \<Rightarrow> (int \<Rightarrow> (string + reply) list) \<Rightarrow> front \<Rightarrow> string list \<Rightarrow> mstate \<Rightarrow> shown \<times> mstate" where
  "cmdRunAsync time answers_in fr args s =
     (case async_flags args (20, []) of
        (wait, target # c # cs) \<Rightarrow>
          (let command = join '' '' (c # cs);
               (resp, s1) = callRPCNative fr target ''job_start'' (JObj [(''command'', JStr command)]) s
           in case resp of
                Inl e \<Rightarrow> (error_line e, s1)
              | Inr r \<Rightarrow>
                  (case decodeRPCResult (set_job time) job_zero r of
                     Inl e \<Rightarrow> (error_line e, s1)
                   | Inr info \<Rightarrow>
                       (let jid = jv_id info; (done, s2) = await_job time fr target jid (answers_in wait) s1 in
                        case done of
                          None \<Rightarrow> (shows_json (json_map [(''promoted'', JBool True), (''success'', JBool True), (''job_id'', JStr jid),
                              (''status'', JStr ''running''), (''host'', JStr target),
                              (''poll'', JStr (''vssh job-status '' @ target @ '' '' @ jid @ '' | vssh job-logs '' @ target @ '' '' @ jid))]), s2)
                        | Some st \<Rightarrow>
                            (let (lr, s3) = callRPCNative fr target ''job_logs'' (JObj [(''id'', JStr jid)]) s2;
                                 (so, se) = (case lr of Inl _ \<Rightarrow> ('''', '''')
                                    | Inr l \<Rightarrow> if rp_success l then lenient (set_logs time) ('''', '''') (rp_data l) else ('''', ''''));
                                 ok = (jv_status st = ''succeeded'')
                             in (\<lparr>sh_out = json_line (json_map [(''promoted'', JBool False), (''success'', JBool ok), (''job_id'', JStr jid),
                                    (''status'', JStr (jv_status st)), (''exit_code'', json_int (jv_exit st)), (''duration_ms'', json_int (jv_ms st)),
                                    (''stdout'', JStr so), (''stderr'', JStr se)]),
                                  sh_err = '''', sh_exit = (if ok then 0 else if 0 < jv_exit st then jv_exit st else 1)\<rparr>, s3)))))
      | _ \<Rightarrow> (fails ''Usage: vssh run-async <host[:port]> <command> [--wait <seconds>]'', s))"

section \<open>RPC\<close>

text \<open>The parameters after the method; the error text of the parser is an argument.\<close>
definition parseJSONParams :: "(string \<Rightarrow> string) \<Rightarrow> string list \<Rightarrow> shown + json" where
  "parseJSONParams err parts =
     (if parts = [] then Inr (JObj [])
      else let raw = join '' '' parts; bad = Inl (fails (''Invalid JSON params: '' @ err raw)) in
        (case unmarshal raw of Some (JObj ms) \<Rightarrow> Inr (JObj ms) | Some JNull \<Rightarrow> Inr JNull | _ \<Rightarrow> bad))"

text \<open>The answer of one call; \<open>strict\<close> verbs end with status 1 on an answer that reports a failure.\<close>
definition reply_shown :: "bool \<Rightarrow> string + reply \<Rightarrow> shown" where
  "reply_shown strict x = (case x of Inl e \<Rightarrow> error_line e
     | Inr r \<Rightarrow> (shows_json (reply_json r))\<lparr>sh_exit := (if strict \<and> \<not> rp_success r then 1 else 0)\<rparr>)"

definition rpc_verb :: "bool \<Rightarrow> front \<Rightarrow> string \<Rightarrow> string \<Rightarrow> json \<Rightarrow> mstate \<Rightarrow> shown \<times> mstate" where
  "rpc_verb strict fr target mth params s = (let (x, s1) = callRPCNative fr target mth params s in (reply_shown strict x, s1))"

definition cmdRPC :: "(string \<Rightarrow> string) \<Rightarrow> front \<Rightarrow> string list \<Rightarrow> mstate \<Rightarrow> shown \<times> mstate" where
  "cmdRPC err fr args s =
     (case args of
        t # m # ps \<Rightarrow> (case parseJSONParams err ps of Inl x \<Rightarrow> (x, s) | Inr p \<Rightarrow> rpc_verb True fr t m p s)
      | _ \<Rightarrow> (fails ''Usage: vssh rpc <host[:port]> <method> [json-params]'', s))"

definition cmdRPCMany :: "(string \<Rightarrow> string) \<Rightarrow> front \<Rightarrow> string list \<Rightarrow> mstate \<Rightarrow> shown \<times> mstate" where
  "cmdRPCMany err fr args s =
     (case args of
        ts # m # ps \<Rightarrow> (case parseJSONParams err ps of Inl x \<Rightarrow> (x, s)
          | Inr p \<Rightarrow> (let (rs, s1) = rpcMany fr (splitTargets ts) m p s in (shows_json (JArr (map (multi_json reply_json) rs)), s1)))
      | _ \<Rightarrow> (fails ''Usage: vssh rpc-many <host1,host2> <method> [json-params]'', s))"

definition cmdFacts :: "front \<Rightarrow> string list \<Rightarrow> mstate \<Rightarrow> shown \<times> mstate" where
  "cmdFacts fr args s =
     (case args of [] \<Rightarrow> (fails ''Usage: vssh facts <host[:port]>'', s)
      | t # _ \<Rightarrow> (let (x, s1) = facts_one fr t s in (case x of Inl e \<Rightarrow> error_line e | Inr v \<Rightarrow> shows_json v, s1)))"

definition cmdFactsMany :: "front \<Rightarrow> string list \<Rightarrow> mstate \<Rightarrow> shown \<times> mstate" where
  "cmdFactsMany fr args s =
     (case args of [] \<Rightarrow> (fails ''Usage: vssh facts-many <host1,host2>'', s)
      | ts # _ \<Rightarrow> (let (rs, s1) = factsMany fr (splitTargets ts) s in (shows_json (JArr (map (multi_json id) rs)), s1)))"

definition cmdJobStart :: "front \<Rightarrow> string list \<Rightarrow> mstate \<Rightarrow> shown \<times> mstate" where
  "cmdJobStart fr args s =
     (case args of
        t # c # cs \<Rightarrow> rpc_verb False fr t ''job_start'' (JObj [(''command'', JStr (join '' '' (c # cs)))]) s
      | _ \<Rightarrow> (fails ''Usage: vssh job-start <host[:port]> <command>'', s))"

definition cmdJobStatus :: "front \<Rightarrow> string list \<Rightarrow> mstate \<Rightarrow> shown \<times> mstate" where
  "cmdJobStatus fr args s =
     (case args of [t, i] \<Rightarrow> rpc_verb False fr t ''job_status'' (JObj [(''id'', JStr i)]) s
      | _ \<Rightarrow> (fails ''Usage: vssh job-status <host[:port]> <id>'', s))"

definition with_number :: "string \<Rightarrow> string \<Rightarrow> string \<Rightarrow> string list \<Rightarrow> json" where
  "with_number k v nk rest = json_map ([(k, JStr v)] @ (case rest of n # _ \<Rightarrow> if snd (go_atoi n) then [(nk, json_int (fst (go_atoi n)))] else [] | [] \<Rightarrow> []))"

definition cmdJobLogs :: "front \<Rightarrow> string list \<Rightarrow> mstate \<Rightarrow> shown \<times> mstate" where
  "cmdJobLogs fr args s =
     (case args of
        t # i # rest \<Rightarrow>
          if 1 < length rest then (fails ''Usage: vssh job-logs <host[:port]> <id> [tail-bytes]'', s)
          else rpc_verb False fr t ''job_logs'' (with_number ''id'' i ''tail_bytes'' rest) s
      | _ \<Rightarrow> (fails ''Usage: vssh job-logs <host[:port]> <id> [tail-bytes]'', s))"

definition cmdJobCancel :: "front \<Rightarrow> string list \<Rightarrow> mstate \<Rightarrow> shown \<times> mstate" where
  "cmdJobCancel fr args s =
     (case args of [t, i] \<Rightarrow> rpc_verb False fr t ''job_cancel'' (JObj [(''id'', JStr i)]) s
      | _ \<Rightarrow> (fails ''Usage: vssh job-cancel <host[:port]> <id>'', s))"

definition cmdArtifactCollect :: "front \<Rightarrow> string list \<Rightarrow> mstate \<Rightarrow> shown \<times> mstate" where
  "cmdArtifactCollect fr args s =
     (case args of
        t # p # rest \<Rightarrow>
          if 1 < length rest then (fails ''Usage: vssh artifact-collect <host[:port]> <path> [max-bytes]'', s)
          else rpc_verb False fr t ''artifact_collect'' (with_number ''path'' p ''max_bytes'' rest) s
      | _ \<Rightarrow> (fails ''Usage: vssh artifact-collect <host[:port]> <path> [max-bytes]'', s))"

section \<open>Latency\<close>

definition percentileLatency :: "int list \<Rightarrow> int \<Rightarrow> int" where
  "percentileLatency values p =
     (if values = [] then 0
      else if p \<le> 0 then values ! 0
      else if 100 \<le> p then last values
      else
        let idx = go_quot (int (length values) * p + 99) 100;
            idx = (if idx \<le> 0 then 1 else idx);
            idx = (if int (length values) < idx then int (length values) else idx)
        in values ! nat (idx - 1))"

definition bench_count :: "string list \<Rightarrow> nat" where
  "bench_count rest =
     (let n = (case rest of c # _ \<Rightarrow> if snd (go_atoi c) \<and> 0 < fst (go_atoi c) then fst (go_atoi c) else 20 | [] \<Rightarrow> 20)
      in nat (min n 500))"

text \<open>The i-th attempt: whether it succeeded, and nanoseconds; how a duration is printed is an argument.\<close>
definition cmdBench :: "(nat \<Rightarrow> bool \<times> int) \<Rightarrow> (int \<Rightarrow> string) \<Rightarrow> front \<Rightarrow> string list \<Rightarrow> mstate \<Rightarrow> shown \<times> mstate" where
  "cmdBench attempt show_dur fr args s =
     (case args of [] \<Rightarrow> (fails ''Usage: vssh bench <host[:port]> [count]'', s)
      | t # rest \<Rightarrow>
          (let (host, port) = parseHostPort (fr_port fr) t; count = bench_count rest; (resolved, s1) = reach fr host s;
               tries = map attempt [0..<count]; lat = sort (map snd (filter fst tries));
               s2 = fold (\<lambda>_. log_call (ExecOn resolved port '':'')) tries s1;
               where_to = ''vssh bench '' @ host @ '' ('' @ resolved @ '':'' @ show_int port @ '')''
           in (if lat = [] then \<lparr>sh_out = where_to @ '': all '' @ show_nat count @ '' attempts failed'' @ [NL], sh_err = '''', sh_exit = 1\<rparr>
               else says (concat (map (\<lambda>l. l @ [NL])
                 [where_to, ''  attempts: '' @ show_nat (length lat) @ '' ok, '' @ show_nat (count - length lat) @ '' failed'',
                  ''  min:      '' @ show_dur (lat ! 0), ''  p50:      '' @ show_dur (percentileLatency lat 50),
                  ''  avg:      '' @ show_dur (go_quot (sum_list lat) (int (length lat))),
                  ''  p95:      '' @ show_dur (percentileLatency lat 95), ''  max:      '' @ show_dur (last lat)])), s2)))"

section \<open>What the verbs promise\<close>

text \<open>The status of \<open>run\<close> is that of the command.\<close>
lemma run_status: "sh_exit (run_shown (r, err)) = 0 \<longleftrightarrow> err = None \<and> er_success r"
  by (auto simp: run_shown_def fails_def split: option.split)

text \<open>Of the verbs on RPC only \<open>rpc\<close> ends with a failure when the daemon reports one.\<close>
lemma silent_failure:
  assumes "rp_success r = False"
  shows "sh_exit (reply_shown True (Inr r)) = 1" "sh_exit (reply_shown False (Inr r)) = 0"
  using assms by (simp_all add: reply_shown_def)

lemma await_calls:
  assumes "await_job time fr t jid as s = (r, s')"
  shows "\<exists>new. ms_calls s' = ms_calls s @ new \<and> List.map_filter runs new = []"
  using assms
proof (induction as arbitrary: s)
  case (Cons a as)
  obtain h0 port h s0 where p: "parseHostPort (fr_port fr) t = (h0, port)" "reach fr h0 s = (h, s0)" by (metis surj_pair)
  let ?c = "RpcOn h port ''job_status'' (JObj [(''id'', JStr jid)])"
  let ?s1 = "log_call ?c s0"
  have l: "ms_calls ?s1 = ms_calls s @ [?c]" using reach_calls[OF p(2)] by simp
  have q: "runs ?c = None" by simp
  consider "await_job time fr t jid as ?s1 = (r, s')" | "s' = ?s1"
    using Cons.prems by (auto simp: p Let_def split: sum.splits if_splits)
  then show ?case
  proof cases
    case 1
    from Cons.IH[OF this] obtain new where "ms_calls s' = ms_calls ?s1 @ new" "List.map_filter runs new = []" by blast
    then show ?thesis using l q by (intro exI[of _ "?c # new"]) (simp add: List.map_filter_simps)
  next
    case 2
    then show ?thesis using l q by (intro exI[of _ "[?c]"]) (simp add: List.map_filter_simps)
  qed
qed simp

text \<open>C22: Whatever the daemon answers and however long it takes, \<open>run-async\<close> gives it the command exactly once.\<close>
theorem run_async_starts_once:
  assumes "async_flags args (20, []) = (wait, target # c # cs)" "cmdRunAsync time answers_in fr args s = (x, s')"
  shows "\<exists>new. ms_calls s' = ms_calls s @ new \<and> List.map_filter runs new = [join '' '' (c # cs)]"
proof -
  let ?p = "JObj [(''command'', JStr (join '' '' (c # cs)))]"
  obtain resp s1 where st: "callRPCNative fr target ''job_start'' ?p s = (resp, s1)" by (metis surj_pair)
  from callRPCNative_calls[OF st] obtain h port where c1: "ms_calls s1 = ms_calls s @ [RpcOn h port ''job_start'' ?p]" by blast
  have r1: "runs (RpcOn h port ''job_start'' ?p) = Some (join '' '' (c # cs))" by (simp add: getString_def json_str_def json_get_def)
  have one: "ms_calls s' = ms_calls s1 @ new \<Longrightarrow> List.map_filter runs new = [] \<Longrightarrow> ?thesis" for new
    using c1 r1 by (intro exI[of _ "RpcOn h port ''job_start'' ?p # new"]) (simp add: List.map_filter_simps)
  consider "s' = s1" | jid d s2 where "await_job time fr target jid (answers_in wait) s1 = (d, s2)"
      "s' = s2 \<or> (\<exists>lr. callRPCNative fr target ''job_logs'' (JObj [(''id'', JStr jid)]) s2 = (lr, s'))"
    using assms(2) unfolding cmdRunAsync_def assms(1)
    by (auto simp: st Let_def split: sum.splits prod.splits option.splits)
  then show ?thesis
  proof cases
    case 1
    then show ?thesis by (intro one[of "[]"]) (simp_all add: List.map_filter_simps)
  next
    case 2
    from await_calls[OF 2(1)] obtain new where n: "ms_calls s2 = ms_calls s1 @ new" "List.map_filter runs new = []" by blast
    from 2(2) show ?thesis
    proof (elim disjE exE)
      assume "s' = s2"
      with n show ?thesis by (intro one[of new]) simp_all
    next
      fix lr assume "callRPCNative fr target ''job_logs'' (JObj [(''id'', JStr jid)]) s2 = (lr, s')"
      from callRPCNative_calls[OF this] obtain a b where "ms_calls s' = ms_calls s2 @ [RpcOn a b ''job_logs'' (JObj [(''id'', JStr jid)])]" by blast
      with n show ?thesis
        by (intro one[of "new @ [RpcOn a b ''job_logs'' (JObj [(''id'', JStr jid)])]"]) (simp_all add: List.map_filter_def)
    qed
  qed
qed

text \<open>The percentile is the nearest rank: at least that share of the latencies is as small as it, and less than
  that share is smaller.\<close>
theorem percentile_is_nearest_rank:
  assumes "sorted xs" "xs \<noteq> []" "0 < p" "p < 100"
  defines "v \<equiv> percentileLatency xs p"
  shows "v \<in> set xs \<and> int (length xs) * p \<le> 100 * int (length (filter (\<lambda>x. x \<le> v) xs)) \<and>
    100 * int (length (filter (\<lambda>x. x < v) xs)) < int (length xs) * p"
proof -
  let ?n = "length xs"
  define q where "q = (int ?n * p + 99) div 100"
  have np: "0 < int ?n * p" using assms(2,3) by simp
  have "int ?n * p \<le> int ?n * 99" using assms(4) by (intro mult_left_mono) auto
  moreover have "100 * q \<le> int ?n * p + 99" "int ?n * p + 99 < 100 * q + 100" unfolding q_def by linarith+
  ultimately have b: "1 \<le> q" "q \<le> int ?n" "int ?n * p \<le> 100 * q" using np by linarith+
  have b4: "100 * (q - 1) < int ?n * p" using \<open>100 * q \<le> int ?n * p + 99\<close> by (simp add: right_diff_distrib)
  have g: "go_quot (int ?n * p + 99) 100 = q" using np by (simp add: go_quot_def q_def)
  define k where "k = nat (q - 1)"
  have k: "k < ?n" "int k = q - 1" using b unfolding k_def by auto
  have v: "v = xs ! k" unfolding v_def percentileLatency_def Let_def g k_def using assms(2-4) b by simp
  have le: "\<forall>x \<in> set (take (Suc k) xs). x \<le> v"
    using sorted_nth_mono[OF assms(1)] k(1) by (auto simp: v in_set_conv_nth)
  have ge: "\<forall>x \<in> set (drop k xs). v \<le> x"
    using sorted_nth_mono[OF assms(1)] k(1) by (auto simp: v in_set_conv_nth)
  have "Suc k = length (filter (\<lambda>x. x \<le> v) (take (Suc k) xs))" using le k(1) by (simp add: filter_True)
  also have "\<dots> \<le> length (filter (\<lambda>x. x \<le> v) (take (Suc k) xs @ drop (Suc k) xs))" by (simp only: filter_append length_append)
  finally have c1: "Suc k \<le> length (filter (\<lambda>x. x \<le> v) xs)" by simp
  have "filter (\<lambda>x. x < v) (drop k xs) = []" using ge by (auto simp: filter_empty_conv)
  then have "length (filter (\<lambda>x. x < v) (take k xs @ drop k xs)) = length (filter (\<lambda>x. x < v) (take k xs))"
    by (simp only: filter_append append_Nil2)
  also have "\<dots> \<le> k" using length_filter_le[of "\<lambda>x. x < v" "take k xs"] k(1) by simp
  finally have c2: "length (filter (\<lambda>x. x < v) xs) \<le> k" by simp
  have "v \<in> set xs" using k(1) by (simp add: v)
  moreover have "int ?n * p \<le> 100 * int (length (filter (\<lambda>x. x \<le> v) xs))" using c1 k(2) b(3) by linarith
  moreover have "int (length (filter (\<lambda>x. x < v) xs)) \<le> q - 1" unfolding k(2)[symmetric] using c2 by (simp only: of_nat_le_iff)
  then have "100 * int (length (filter (\<lambda>x. x < v) xs)) < int ?n * p" by (intro le_less_trans[OF _ b4]) simp
  ultimately show ?thesis using \<open>100 * int (length (filter (\<lambda>x. x < v) xs)) < int ?n * p\<close> by blast
qed

lemma percentile_is_nearest_rank_witness: "percentileLatency [10, 20, 30] 50 = 20 \<and> (20::int) \<in> set [10, 20, 30]"
proof -
  have v: "percentileLatency [10, 20, 30] 50 = 20" by (simp add: percentileLatency_def go_quot_def)
  from percentile_is_nearest_rank[of "[10, 20, 30]" 50] show ?thesis by (simp add: v)
qed

definition async_words :: "string list" where "async_words = [''d1'', ''sleep'', ''9'', ''--wait'', ''1'']"

lemma run_async_starts_once_witness:
  "\<exists>x s' new. cmdRunAsync (\<lambda>_. True) (\<lambda>_. []) demo_front async_words idle = (x, s') \<and> ms_calls s' = ms_calls idle @ new \<and>
     List.map_filter runs new = [''sleep 9'']"
proof -
  have a: "async_flags async_words (20, []) = (1, [''d1'', ''sleep'', ''9''])" by code_simp
  obtain x s' where c: "cmdRunAsync (\<lambda>_. True) (\<lambda>_. []) demo_front async_words idle = (x, s')" by (metis surj_pair)
  from run_async_starts_once[OF a c] c show ?thesis by auto
qed

end
