(* ===== verification/Surface.thy ===== *)
theory Surface
  imports TunnelTool McpFacts
begin

text \<open>
  The tools that are offered (\<^verbatim>\<open>cmd/vssh/mcp_schema.go\<close>, \<^verbatim>\<open>mcp.go\<close>, \<^verbatim>\<open>mcp_grouped.go\<close>): their
  names, parameters and required parameters, the flat and the grouped surface, and how they agree with
  the dispatcher. Descriptions, which are text for the caller and which no code reads, are an argument.
\<close>

section \<open>The schemas\<close>

type_synonym property = "string \<times> string \<times> json option"   \<comment> \<open>name, type, default\<close>

record tool =
  tl_name :: string
  tl_props :: "property list"
  tl_required :: "string list"

definition tool :: "string \<Rightarrow> property list \<Rightarrow> string list \<Rightarrow> tool" where
  "tool n ps req = \<lparr>tl_name = n, tl_props = ps, tl_required = req\<rparr>"

definition param :: "string \<Rightarrow> string \<Rightarrow> property" where "param n t = (n, t, None)"

definition param_or :: "string \<Rightarrow> string \<Rightarrow> json \<Rightarrow> property" where "param_or n t d = (n, t, Some d)"

definition hostListProperties :: "property list" where
  "hostListProperties = [param_or ''include_health'' ''boolean'' (JBool False), param_or ''health_timeout_seconds'' ''number'' (json_int 1)]"

definition config_schema :: "tool list" where
  "config_schema =
     [tool ''vssh_config_list'' [] [],
      tool ''vssh_config_authorize_key'' [param ''pubkey'' ''string'', param ''caps'' ''string'', param ''comment'' ''string''] [''pubkey''],
      tool ''vssh_config_revoke_key'' [param ''pubkey'' ''string''] [''pubkey''],
      tool ''vssh_config_set_node'' [param ''name'' ''string'', param ''ip'' ''string''] [''name'', ''ip''],
      tool ''vssh_config_pin_node'' [param ''name'' ''string'', param ''pubkey'' ''string''] [''name'', ''pubkey''],
      tool ''vssh_fleet_state'' [param ''action'' ''string'', param_or ''live'' ''boolean'' (JBool False)] []]"

definition memory_schema :: "tool list" where
  "memory_schema =
     [tool ''vssh_memory_get'' [param ''node'' ''string''] [],
      tool ''vssh_memory_set'' [param ''node'' ''string'', param ''role'' ''string'', param ''services'' ''array'', param ''tags'' ''array''] [''node''],
      tool ''vssh_memory_note'' [param ''node'' ''string'', param ''text'' ''string''] [''node'', ''text''],
      tool ''vssh_memory_find'' [param ''role'' ''string'', param ''tag'' ''string'', param ''service'' ''string'', param ''text'' ''string''] [],
      tool ''vssh_memory_auto_note'' [param ''node'' ''string'', param ''output'' ''string'', param ''command'' ''string''] [''node'', ''output''],
      tool ''vssh_memory_ask'' [param ''query'' ''string''] [''query'']]"

definition transfer_schema :: "tool list" where
  "transfer_schema =
     [tool ''vssh_put'' [param ''target'' ''string'', param ''local_path'' ''string'', param ''remote_path'' ''string''] [''target'', ''local_path'', ''remote_path''],
      tool ''vssh_get'' [param ''target'' ''string'', param ''remote_path'' ''string'', param ''local_path'' ''string''] [''target'', ''remote_path'', ''local_path''],
      tool ''vssh_deploy_binary'' [param ''target'' ''string'', param ''local_path'' ''string'', param ''remote_path'' ''string'', param ''service'' ''string'', param_or ''mode'' ''string'' (JStr ''0755''), param ''verify'' ''string''] [''target'', ''local_path'', ''remote_path'']]"

definition fleet_schema :: "tool list" where
  "fleet_schema =
     [tool ''vssh_fleet_health'' [param ''target'' ''string''] [],
      tool ''vssh_memory_discover'' [param ''target'' ''string'', param_or ''apply'' ''boolean'' (JBool False)] [],
      tool ''vssh_diff'' [param ''node'' ''string'', param_or ''last_n'' ''number'' (json_int 10), param ''since'' ''string''] [],
      tool ''vssh_intent'' [param ''query'' ''string'', param ''target'' ''string'', param_or ''execute'' ''boolean'' (JBool False)] [''query''],
      tool ''vssh_workflow_list'' [] []]"

definition workflow_schema :: "tool list" where
  "workflow_schema =
     [tool ''vssh_workflow_run'' [param ''name'' ''string'', param ''target'' ''string'', param ''params'' ''object'', param_or ''dry_run'' ''boolean'' (JBool False)] [''name''],
      tool ''vssh_workflow_status'' [param ''run_id'' ''string''] [''run_id''],
      tool ''vssh_tunnel'' [param ''action'' ''string'', param ''target'' ''string'', param ''type'' ''string'', param ''spec'' ''string'', param ''id'' ''string''] []]"

definition host_schema :: "tool list" where
  "host_schema =
     [tool ''vssh_doctor'' [] [],
      tool ''vssh_setup'' [] [],
      tool ''vssh_status'' [] [],
      tool ''vssh_list'' hostListProperties [],
      tool ''vssh_hosts_list'' hostListProperties []]"

definition exec_schema :: "tool list" where
  "exec_schema =
     [tool ''vssh_exec'' [param ''target'' ''string'', param ''command'' ''string'', param_or ''timeout_seconds'' ''number'' (json_int 30), param_or ''allow_dangerous'' ''boolean'' (JBool False)] [''target'', ''command''],
      tool ''vssh_exec'' [param ''target'' ''string'', param ''command'' ''string'', param_or ''timeout_seconds'' ''number'' (json_int 30), param_or ''allow_dangerous'' ''boolean'' (JBool False)] [''target'', ''command''],
      tool ''vssh_exec_safe'' [param ''target'' ''string'', param ''command'' ''string'', param_or ''timeout_seconds'' ''number'' (json_int 30)] [''target'', ''command''],
      tool ''vssh_policy_check'' [param ''command'' ''string''] [''command'']]"

definition route_schema :: "tool list" where
  "route_schema =
     [tool ''vssh_route_select'' [param ''required_capabilities'' ''array'', param ''preferred_tags'' ''array'', param_or ''avoid_health'' ''array'' (texts [''offline'', ''degraded'']), param ''target'' ''string'', param_or ''include_health'' ''boolean'' (JBool False), param_or ''health_timeout_seconds'' ''number'' (json_int 1)] [],
      tool ''vssh_route_select'' [param ''required_capabilities'' ''array'', param ''preferred_tags'' ''array'', param_or ''avoid_health'' ''array'' (texts [''offline'', ''degraded'']), param ''target'' ''string'', param_or ''include_health'' ''boolean'' (JBool False), param_or ''health_timeout_seconds'' ''number'' (json_int 1)] [],
      tool ''vssh_exec_routed'' [param ''required_capabilities'' ''array'', param ''preferred_tags'' ''array'', param_or ''avoid_health'' ''array'' (texts [''offline'', ''degraded'']), param ''target'' ''string'', param_or ''include_health'' ''boolean'' (JBool False), param_or ''health_timeout_seconds'' ''number'' (json_int 1), param ''command'' ''string'', param_or ''timeout_seconds'' ''number'' (json_int 30), param_or ''allow_dangerous'' ''boolean'' (JBool False)] [''command'']]"

definition many_schema :: "tool list" where
  "many_schema =
     [tool ''vssh_rpc_call'' [param ''target'' ''string'', param ''method'' ''string'', param ''params'' ''object'', param_or ''timeout_seconds'' ''number'' (json_int 30)] [''target'', ''method''],
      tool ''vssh_exec_many'' [param ''targets'' ''array'', param ''command'' ''string'', param_or ''timeout_seconds'' ''number'' (json_int 30), param_or ''allow_dangerous'' ''boolean'' (JBool False), param_or ''max_parallelism'' ''number'' (json_int 16), param_or ''allow_partial'' ''boolean'' (JBool True)] [''targets'', ''command''],
      tool ''vssh_rpc_many'' [param ''targets'' ''array'', param ''method'' ''string'', param ''params'' ''object'', param_or ''timeout_seconds'' ''number'' (json_int 30), param_or ''max_parallelism'' ''number'' (json_int 16)] [''targets'', ''method''],
      tool ''vssh_facts'' [param ''target'' ''string'', param_or ''timeout_seconds'' ''number'' (json_int 30)] [''target''],
      tool ''vssh_facts_many'' [param ''targets'' ''array'', param_or ''timeout_seconds'' ''number'' (json_int 30), param_or ''max_parallelism'' ''number'' (json_int 16)] [''targets'']]"

definition job_schema :: "tool list" where
  "job_schema =
     [tool ''vssh_job_start'' [param ''target'' ''string'', param ''command'' ''string'', param_or ''allow_dangerous'' ''boolean'' (JBool False)] [''target'', ''command''],
      tool ''vssh_job_status'' [param ''target'' ''string'', param ''id'' ''string''] [''target'', ''id''],
      tool ''vssh_job_logs'' [param ''target'' ''string'', param ''id'' ''string'', param_or ''tail_bytes'' ''number'' (json_int 0)] [''target'', ''id''],
      tool ''vssh_job_cancel'' [param ''target'' ''string'', param ''id'' ''string''] [''target'', ''id''],
      tool ''vssh_artifact_collect'' [param ''target'' ''string'', param ''path'' ''string'', param_or ''max_bytes'' ''number'' (json_int 1048576)] [''target'', ''path''],
      tool ''vssh_exec_routed'' [param ''required_capabilities'' ''array'', param ''preferred_tags'' ''array'', param_or ''avoid_health'' ''array'' (texts [''offline'', ''degraded'']), param ''target'' ''string'', param_or ''include_health'' ''boolean'' (JBool False), param_or ''health_timeout_seconds'' ''number'' (json_int 1), param ''command'' ''string'', param_or ''timeout_seconds'' ''number'' (json_int 30), param_or ''allow_dangerous'' ''boolean'' (JBool False)] [''command'']]"

fun dedupeMCPTools :: "string list \<Rightarrow> tool list \<Rightarrow> tool list" where
  "dedupeMCPTools seen [] = []"
| "dedupeMCPTools seen (t # ts) =
     (if tl_name t \<in> set seen then dedupeMCPTools seen ts else t # dedupeMCPTools (tl_name t # seen) ts)"

definition getMCPTools :: "tool list" where
  "getMCPTools = dedupeMCPTools [] (config_schema @ memory_schema @ transfer_schema @ fleet_schema @ workflow_schema @ host_schema
     @ exec_schema @ route_schema @ many_schema @ job_schema)"

definition property_json :: "(string \<Rightarrow> string \<Rightarrow> string) \<Rightarrow> string \<Rightarrow> property \<Rightarrow> json" where
  "property_json describe owner p = (case p of (n, ty, d) \<Rightarrow>
     JObj ([(''type'', JStr ty), (''description'', JStr (describe owner n))] @ (case d of None \<Rightarrow> [] | Some v \<Rightarrow> [(''default'', v)])))"

definition tool_json :: "(string \<Rightarrow> string \<Rightarrow> string) \<Rightarrow> tool \<Rightarrow> json" where
  "tool_json describe t = JObj [(''name'', JStr (tl_name t)), (''description'', JStr (describe (tl_name t) '''')),
     (''inputSchema'', JObj ([(''type'', JStr ''object''),
        (''properties'', json_map (map (\<lambda>p. (fst p, property_json describe (tl_name t) p)) (tl_props t)))]
        @ omit_texts ''required'' (tl_required t)))]"

section \<open>The surfaces\<close>

text \<open>The parameters of the members, the first of a name; an \<open>action\<close> of a member is left out.\<close>
definition add_props :: "property list \<Rightarrow> property list \<Rightarrow> property list" where
  "add_props ps qs = ps @ filter (\<lambda>(n, _). n \<noteq> ''action'' \<and> n \<notin> fst ` set ps) qs"

definition group :: "tool list \<Rightarrow> string \<Rightarrow> string list \<Rightarrow> tool" where
  "group ts name members = tool name
     (foldl add_props [param ''action'' ''string'']
        (map (\<lambda>m. case find (\<lambda>t. tl_name t = m) ts of None \<Rightarrow> [] | Some t \<Rightarrow> tl_props t) members)) [''action'']"

definition groupedMCPTools :: "tool list" where
  "groupedMCPTools =
     (let ts = getMCPTools in
      [group ts ''vssh_exec'' [''vssh_exec'', ''vssh_exec_safe'', ''vssh_exec_routed'', ''vssh_exec_many''],
       group ts ''vssh_query'' [''vssh_facts'', ''vssh_facts_many'', ''vssh_rpc_call'', ''vssh_rpc_many''],
       group ts ''vssh_job'' [''vssh_job_start'', ''vssh_job_status'', ''vssh_job_logs'', ''vssh_job_cancel''],
       group ts ''vssh_fleet'' [''vssh_doctor'', ''vssh_status'', ''vssh_list'', ''vssh_hosts_list'', ''vssh_setup''],
       group ts ''vssh_transport'' [''vssh_put'', ''vssh_get'', ''vssh_deploy_binary'', ''vssh_artifact_collect'', ''vssh_tunnel''],
       group ts ''vssh_route'' [''vssh_route_select'', ''vssh_policy_check''],
       group ts ''vssh_config'' [''vssh_config_list'', ''vssh_config_authorize_key'', ''vssh_config_revoke_key'', ''vssh_config_set_node'',
         ''vssh_config_pin_node''],
       group ts ''vssh_memory'' [''vssh_memory_get'', ''vssh_memory_set'', ''vssh_memory_note'', ''vssh_memory_auto_note'',
         ''vssh_memory_find'', ''vssh_memory_ask'', ''vssh_memory_discover''],
       group ts ''vssh_workflow'' [''vssh_workflow_list'', ''vssh_workflow_run'', ''vssh_workflow_status'']]
      @ List.map_filter (\<lambda>n. find (\<lambda>t. tl_name t = n) ts) [''vssh_fleet_state'', ''vssh_intent'', ''vssh_diff''])"

definition flatMCPTools :: "ctl \<Rightarrow> tool list" where
  "flatMCPTools ct =
     (if configWriteAllowed ct then getMCPTools
      else filter (\<lambda>t. tl_name t \<notin> set [''vssh_config_authorize_key'', ''vssh_config_revoke_key'', ''vssh_config_set_node'',
        ''vssh_config_pin_node'']) getMCPTools)"

definition filteredMCPTools :: "ctl \<Rightarrow> tool list" where
  "filteredMCPTools ct =
     (let m = to_lower (trim_space (ct_env ct ''VSSH_MCP_TOOLSET'')) in
      if m = ''core'' then
        filter (\<lambda>t. tl_name t \<in> set [''vssh_doctor'', ''vssh_list'', ''vssh_fleet_state'', ''vssh_exec'', ''vssh_exec_safe'', ''vssh_facts'',
          ''vssh_rpc_call'']) getMCPTools
      else if m = ''flat'' \<or> m = ''full'' then flatMCPTools ct
      else groupedMCPTools)"

section \<open>The rest of the dispatcher\<close>

text \<open>The tools that are not part of \<open>dispatchMCPTool\<close> and \<open>dispatch_fleet\<close>, on the state of the front end.\<close>
record local_tools =
  lt_doctor :: "mstate \<Rightarrow> json \<times> mstate"
  lt_setup :: "mstate \<Rightarrow> json \<times> mstate"
  lt_status :: "mstate \<Rightarrow> json \<times> mstate"
  lt_list :: "json \<Rightarrow> mstate \<Rightarrow> json \<times> mstate"
  lt_tunnel :: "json \<Rightarrow> mstate \<Rightarrow> json \<times> mstate"
  lt_fleet_state :: "json \<Rightarrow> mstate \<Rightarrow> json \<times> mstate"
  lt_put :: "json \<Rightarrow> mstate \<Rightarrow> json \<times> mstate"
  lt_get :: "json \<Rightarrow> mstate \<Rightarrow> json \<times> mstate"
  lt_deploy :: "json \<Rightarrow> mstate \<Rightarrow> json \<times> mstate"
  lt_diff :: "json \<Rightarrow> mstate \<Rightarrow> json \<times> mstate"

definition dispatch_local :: "local_tools \<Rightarrow> other_tools \<Rightarrow> other_tools" where
  "dispatch_local lt other name args s =
     (if name = ''vssh_doctor'' then lt_doctor lt s
      else if name = ''vssh_setup'' then lt_setup lt s
      else if name = ''vssh_status'' then lt_status lt s
      else if name = ''vssh_list'' \<or> name = ''vssh_hosts_list'' then lt_list lt args s
      else if name = ''vssh_tunnel'' then lt_tunnel lt args s
      else if name = ''vssh_fleet_state'' then lt_fleet_state lt args s
      else if name = ''vssh_put'' then lt_put lt args s
      else if name = ''vssh_get'' then lt_get lt args s
      else if name = ''vssh_deploy_binary'' then lt_deploy lt args s
      else if name = ''vssh_diff'' then lt_diff lt args s
      else other name args s)"

definition unknown_tool :: other_tools where
  "unknown_tool name args s = (JObj [(''error'', JStr (''Unknown tool: '' @ name))], s)"

definition dispatch_all :: "(string \<times> bool) list \<Rightarrow> ctl \<Rightarrow> local_tools \<Rightarrow> front \<Rightarrow> inventory \<Rightarrow> other_tools \<Rightarrow> other_tools" where
  "dispatch_all entries ct lt fr recs other = dispatchMCPTool fr recs (dispatch_fleet entries ct fr (dispatch_local lt other))"

section \<open>Surfaces and dispatcher agree\<close>

definition dispatched :: "string list" where
  "dispatched = [''vssh_exec'', ''vssh_exec_safe'', ''vssh_policy_check'', ''vssh_route_select'', ''vssh_exec_routed'', ''vssh_rpc_call'',
     ''vssh_exec_many'', ''vssh_rpc_many'', ''vssh_facts'', ''vssh_facts_many'', ''vssh_job_start'', ''vssh_job_status'', ''vssh_job_logs'',
     ''vssh_job_cancel'', ''vssh_artifact_collect'', ''vssh_memory_get'', ''vssh_memory_set'', ''vssh_memory_note'', ''vssh_memory_find'',
     ''vssh_memory_auto_note'', ''vssh_memory_ask'', ''vssh_memory_discover'', ''vssh_fleet_health'', ''vssh_intent'',
     ''vssh_workflow_list'', ''vssh_workflow_run'', ''vssh_workflow_status'', ''vssh_config_list'', ''vssh_config_authorize_key'',
     ''vssh_config_revoke_key'', ''vssh_config_set_node'', ''vssh_config_pin_node'', ''vssh_doctor'', ''vssh_setup'', ''vssh_status'',
     ''vssh_list'', ''vssh_hosts_list'', ''vssh_tunnel'', ''vssh_fleet_state'', ''vssh_put'', ''vssh_get'', ''vssh_deploy_binary'',
     ''vssh_diff'']"

lemma not_default:
  assumes "name \<in> set dispatched"
  shows "dispatch_all entries ct lt fr recs d1 name args s = dispatch_all entries ct lt fr recs d2 name args s"
  using assms unfolding dispatch_all_def dispatchMCPTool_def dispatch_fleet_def dispatch_local_def Let_def
  apply -
  apply (rule if_cong, rule refl, rule refl)+
  apply (simp only: dispatched_def list.set insert_iff empty_iff simp_thms)
  done

lemma dedupe_subset: "set (dedupeMCPTools seen ts) \<subseteq> set ts"
  by (induction seen ts rule: dedupeMCPTools.induct) auto

abbreviation served :: "tool \<Rightarrow> bool" where "served t \<equiv> tl_name t \<in> set dispatched"

lemma config_served: "list_all served config_schema" by (simp add: config_schema_def tool_def dispatched_def)
lemma memory_served: "list_all served memory_schema" by (simp add: memory_schema_def tool_def dispatched_def)
lemma transfer_served: "list_all served transfer_schema" by (simp add: transfer_schema_def tool_def dispatched_def)
lemma fleet_served: "list_all served fleet_schema" by (simp add: fleet_schema_def tool_def dispatched_def)
lemma workflow_served: "list_all served workflow_schema" by (simp add: workflow_schema_def tool_def dispatched_def)
lemma host_served: "list_all served host_schema" by (simp add: host_schema_def tool_def dispatched_def)
lemma exec_served: "list_all served exec_schema" by (simp add: exec_schema_def tool_def dispatched_def)
lemma route_served: "list_all served route_schema" by (simp add: route_schema_def tool_def dispatched_def)
lemma many_served: "list_all served many_schema" by (simp add: many_schema_def tool_def dispatched_def)
lemma job_served: "list_all served job_schema" by (simp add: job_schema_def tool_def dispatched_def)

lemma flat_dispatched: "t \<in> set getMCPTools \<Longrightarrow> served t"
  using dedupe_subset[of "[]" "config_schema @ memory_schema @ transfer_schema @ fleet_schema @ workflow_schema @ host_schema
     @ exec_schema @ route_schema @ many_schema @ job_schema"] config_served memory_served transfer_served fleet_served workflow_served
     host_served exec_served route_served many_served job_served
  unfolding getMCPTools_def list_all_iff by fastforce

lemma actions_dispatched: "list_all (\<lambda>(n, acts). list_all (\<lambda>(a, f). f \<in> set dispatched) acts) groupActions"
  by (simp add: groupActions_def dispatched_def)

lemma group_name [simp]: "tl_name (group ts n ms) = n" by (simp add: group_def tool_def)

lemma grouped_cases:
  "t \<in> set groupedMCPTools \<Longrightarrow> tl_name t \<in> set (map fst groupActions) \<or> tl_name t \<in> set [''vssh_fleet_state'', ''vssh_intent'', ''vssh_diff'']"
  by (auto simp: groupedMCPTools_def Let_def groupActions_def List.map_filter_def dest!: find_Some_iff[THEN iffD1] split: if_splits)

lemma resolved_cases:
  assumes "resolveGroupedTool name args = Inr flat"
  shows "map_of groupActions name = None \<and> flat = name \<or>
    (\<exists>acts. (name, acts) \<in> set groupActions \<and> (trim_space (getString args ''action''), flat) \<in> set acts)"
  using assms
  by (auto simp: resolveGroupedTool_def Let_def dest: map_of_SomeD split: option.splits)

text \<open>Every tool that is offered, on any surface and with any action that is taken, has a case of its own in
  the dispatcher: no call of it is answered as one of an unknown tool.\<close>
theorem advertised_tools_exist:
  assumes "t \<in> set (filteredMCPTools ct)" "resolveGroupedTool (tl_name t) args = Inr flat"
  shows "dispatch_all entries ct lt fr recs unknown_tool flat args s = dispatch_all entries ct lt fr recs other flat args s"
proof (rule not_default)
  have "t \<in> set getMCPTools \<or> t \<in> set groupedMCPTools"
    using assms(1) by (auto simp: filteredMCPTools_def flatMCPTools_def Let_def split: if_splits)
  moreover have "''vssh_fleet_state'' \<in> set dispatched \<and> ''vssh_intent'' \<in> set dispatched \<and> ''vssh_diff'' \<in> set dispatched"
    by (simp add: dispatched_def)
  ultimately have "tl_name t \<in> set dispatched \<or> map_of groupActions (tl_name t) \<noteq> None"
    using flat_dispatched grouped_cases[of t] by (auto simp: map_of_eq_None_iff)
  with resolved_cases[OF assms(2)] actions_dispatched show "flat \<in> set dispatched"
    by (fastforce simp: list_all_iff)
qed

lemma tunnel_action: "list_all (\<lambda>(n, acts). list_all (\<lambda>(a, f). f = ''vssh_tunnel'' \<longrightarrow> a = ''tunnel'') acts) groupActions"
  by (simp add: groupActions_def)

lemma tunnel_not_grouped: "t \<in> set groupedMCPTools \<Longrightarrow> tl_name t \<noteq> ''vssh_tunnel''"
  using grouped_cases[of t] by (auto simp: groupActions_def)

text \<open>C23: The default surface leads to the tunnel tool only by an action that the tool takes for its own and
  refuses: through it no tunnel can be started, listed or stopped.\<close>
theorem grouped_tunnel_unreachable:
  assumes "t \<in> set groupedMCPTools" "resolveGroupedTool (tl_name t) args = Inr ''vssh_tunnel''"
  shows "toolTunnel e entries args st = (tunnelErr ''invalid_argument'' ''action must be start|list|stop'', st)"
proof -
  have "tl_name t \<noteq> ''vssh_tunnel''" using assms(1) by (rule tunnel_not_grouped)
  with resolved_cases[OF assms(2)] obtain acts where "(tl_name t, acts) \<in> set groupActions"
    "(trim_space (getString args ''action''), ''vssh_tunnel'') \<in> set acts" by auto
  with tunnel_action have "trimmed args ''action'' = ''tunnel''" by (fastforce simp: list_all_iff trimmed_def)
  moreover have "to_lower ''tunnel'' = ''tunnel''" by code_simp
  ultimately show ?thesis by (simp add: toolTunnel_def)
qed

text \<open>The health report of the fleet is offered on the flat surface only.\<close>
lemma health_not_grouped:
  assumes "t \<in> set groupedMCPTools"
  shows "tl_name t \<noteq> ''vssh_fleet_health'' \<and>
    list_all (\<lambda>(n, acts). list_all (\<lambda>(a, f). f \<noteq> ''vssh_fleet_health'') acts) groupActions"
  using grouped_cases[OF assms] by (auto simp: groupActions_def)

definition transport_args :: json where "transport_args = JObj [(''action'', JStr ''tunnel'')]"

lemma offers:
  "\<exists>t \<in> set groupedMCPTools. tl_name t = ''vssh_transport''"
  "resolveGroupedTool ''vssh_transport'' transport_args = Inr ''vssh_tunnel''"
  by (simp add: groupedMCPTools_def Let_def)
    (simp add: resolveGroupedTool_def transport_args_def getString_def json_str_def json_get_def groupActions_def trim_space_def
      trim_left_by_def trim_right_by_def is_space_def)

lemma advertised_tools_exist_witness:
  "dispatch_all [] demo_ctl lt demo_front (\<lambda>_. []) unknown_tool ''vssh_tunnel'' transport_args idle
   = dispatch_all [] demo_ctl lt demo_front (\<lambda>_. []) (\<lambda>n a s. (JNull, s)) ''vssh_tunnel'' transport_args idle"
proof -
  obtain t where t: "t \<in> set groupedMCPTools" "tl_name t = ''vssh_transport''" using offers(1) by blast
  have "filteredMCPTools demo_ctl = groupedMCPTools"
    by (simp add: filteredMCPTools_def demo_ctl_def trim_space_def trim_left_by_def trim_right_by_def to_lower_def)
  with advertised_tools_exist[of t demo_ctl transport_args "''vssh_tunnel''"] offers(2) t show ?thesis by simp
qed

lemma grouped_tunnel_unreachable_witness:
  "toolTunnel demo_tunnels [] transport_args demo_state = (tunnelErr ''invalid_argument'' ''action must be start|list|stop'', demo_state)"
proof -
  obtain t where "t \<in> set groupedMCPTools" "tl_name t = ''vssh_transport''" using offers(1) by blast
  with grouped_tunnel_unreachable[of t transport_args] offers(2) show ?thesis by simp
qed

end
