(* ===== verification/EventLog.thy ===== *)
theory EventLog
  imports FleetLog Rpc
begin

text \<open>
  The log of events (\<^verbatim>\<open>internal/event/event.go\<close>): an append-only file of one JSON document per
  line, with the ids of the events written by this process kept to leave out duplicates. The id and the
  time of an event are arguments. Directory creation is not represented.
\<close>

section \<open>Events\<close>

record event =
  ev_id :: string
  ev_ts :: int                                    \<comment> \<open>milliseconds\<close>
  ev_node :: string
  ev_agent :: string
  ev_type :: string
  ev_payload :: "json option"                     \<comment> \<open>None where the member is missing\<close>
  ev_version :: int

definition event_zero :: event where
  "event_zero = \<lparr>ev_id = '''', ev_ts = 0, ev_node = '''', ev_agent = '''', ev_type = '''', ev_payload = None, ev_version = 0\<rparr>"

definition TypeAgentLifecycle :: string where "TypeAgentLifecycle = ''agent_lifecycle''"
definition TypePeerStateChange :: string where "TypePeerStateChange = ''peer_state_change''"
definition TypeProbeResult :: string where "TypeProbeResult = ''probe_result''"

definition lifecycle_json :: "string \<Rightarrow> int \<Rightarrow> string \<Rightarrow> json" where
  "lifecycle_json action pid version = JObj ([(''action'', JStr action)]
     @ (if pid = 0 then [] else [(''pid'', json_int pid)]) @ omit_empty ''version'' version)"

definition probe_json :: "string \<Rightarrow> string \<Rightarrow> int \<Rightarrow> bool \<Rightarrow> string \<Rightarrow> json" where
  "probe_json target path latency success err = JObj ([(''target'', JStr target), (''path'', JStr path),
     (''latency_ms'', json_int latency), (''success'', JBool success)] @ omit_empty ''error'' err)"

text \<open>No id is an error.\<close>
definition NewEvent :: "string option \<Rightarrow> int \<Rightarrow> string \<Rightarrow> string \<Rightarrow> string \<Rightarrow> json option \<Rightarrow> event option" where
  "NewEvent nid now node agent type payload =
     map_option (\<lambda>i. \<lparr>ev_id = i, ev_ts = now, ev_node = node, ev_agent = agent, ev_type = type, ev_payload = payload,
       ev_version = 1\<rparr>) nid"

definition event_json :: "event \<Rightarrow> json" where
  "event_json e = JObj [(''id'', JStr (ev_id e)), (''ts'', json_int (ev_ts e)), (''node'', JStr (ev_node e)),
     (''agent'', JStr (ev_agent e)), (''type'', JStr (ev_type e)),
     (''payload'', case ev_payload e of None \<Rightarrow> JNull | Some v \<Rightarrow> v), (''version'', json_int (ev_version e))]"

definition event_line :: "event \<Rightarrow> string" where "event_line e = marshal (event_json e)"

definition set_event :: "event setter" where
  "set_event k v e =
     (if equal_fold k ''id'' then text_field v (\<lambda>t. e\<lparr>ev_id := t\<rparr>) e
      else if equal_fold k ''ts'' then num_field v (\<lambda>i. e\<lparr>ev_ts := i\<rparr>) e
      else if equal_fold k ''node'' then text_field v (\<lambda>t. e\<lparr>ev_node := t\<rparr>) e
      else if equal_fold k ''agent'' then text_field v (\<lambda>t. e\<lparr>ev_agent := t\<rparr>) e
      else if equal_fold k ''type'' then text_field v (\<lambda>t. e\<lparr>ev_type := t\<rparr>) e
      else if equal_fold k ''payload'' then Some (e\<lparr>ev_payload := Some v\<rparr>)
      else if equal_fold k ''version'' then num_field v (\<lambda>i. e\<lparr>ev_version := i\<rparr>) e
      else Some e)"

section \<open>The log\<close>

record event_log =
  el_path :: path
  el_seen :: "string list"                        \<comment> \<open>each once\<close>

definition DefaultLocalLogPath :: "string \<Rightarrow> string \<Rightarrow> path" where
  "DefaultLocalLogPath tmp home = join_path [if home = '''' then tmp else home, ''.vssh'', ''events.log'']"

definition NewEventLog :: "string \<Rightarrow> string \<Rightarrow> path \<Rightarrow> event_log" where
  "NewEventLog tmp home path = \<lparr>el_path = (if path = '''' then DefaultLocalLogPath tmp home else path), el_seen = []\<rparr>"

definition seen_limit :: nat where "seen_limit = 10000"

text \<open>The ids are forgotten when there are more of them than the limit.\<close>
definition note_id :: "string \<Rightarrow> string list \<Rightarrow> string list" where
  "note_id i seen = (if seen_limit < length (i # seen) then [] else i # seen)"

definition Append :: "event \<Rightarrow> event_log \<times> fs \<Rightarrow> io_err option \<times> event_log \<times> fs" where
  "Append e = (\<lambda>(l, f).
     if ev_id e \<in> set (el_seen l) then (None, l, f)
     else (case append_file (el_path l) (event_line e @ [NL]) f of
          (Some er, f1) \<Rightarrow> (Some er, l, f1)
        | (None, f1) \<Rightarrow> (None, l\<lparr>el_seen := note_id (ev_id e) (el_seen l)\<rparr>, f1)))"

definition event_of :: "string \<Rightarrow> event option" where
  "event_of line = (case unmarshal line of None \<Rightarrow> None | Some v \<Rightarrow> struct_of set_event event_zero v)"

text \<open>Whether the scanner met a line that is too long: the lines before it are given with the error.\<close>
definition scan_error :: "string \<Rightarrow> bool" where
  "scan_error d \<longleftrightarrow> \<not> list_all (\<lambda>l. length l < 65536) (split_on NL d)"

definition ReadSince :: "int \<Rightarrow> event_log \<Rightarrow> fs \<Rightarrow> event list \<times> bool" where
  "ReadSince since l f =
     (case read_file f (el_path l) of
        Inl ENotExist \<Rightarrow> ([], False)
      | Inl _ \<Rightarrow> ([], True)
      | Inr d \<Rightarrow> (filter (\<lambda>e. since \<le> ev_ts e) (List.map_filter event_of (scanner_lines d)), scan_error d))"

definition ReadAll :: "event_log \<Rightarrow> fs \<Rightarrow> event list \<times> bool" where
  "ReadAll l f = ReadSince 0 l f"

section \<open>What is appended is read\<close>

text \<open>An event as Go can hold it: strings in UTF-8, 64-bit numbers, a payload in its normal form.\<close>
definition event_ok :: "event \<Rightarrow> bool" where
  "event_ok e \<longleftrightarrow> list_all utf8 [ev_id e, ev_node e, ev_agent e, ev_type e] \<and>
     list_all (\<lambda>i. min_int64 \<le> i \<and> i \<le> max_int64) [ev_ts e, ev_version e] \<and>
     (case ev_payload e of None \<Rightarrow> True | Some v \<Rightarrow> json_wf v \<and> json_norm v = v)"

text \<open>What comes back: a missing payload has become the document \<open>null\<close>.\<close>
definition reread :: "event \<Rightarrow> event" where
  "reread e = e\<lparr>ev_payload := Some (case ev_payload e of None \<Rightarrow> JNull | Some v \<Rightarrow> v)\<rparr>"

text \<open>The line of the event fits the buffer of the scanner that reads it; \<open>Append\<close> does not look.\<close>
definition short_event :: "event \<Rightarrow> bool" where
  "short_event e \<longleftrightarrow> length (event_line e) < 65536"

lemma event_keys [json_keys]:
  "utf8_fix ''id'' = ''id''" "utf8_fix ''node'' = ''node''" "utf8_fix ''agent'' = ''agent''"
  "utf8_fix ''type'' = ''type''" "utf8_fix ''payload'' = ''payload''"
  by (simp_all add: utf8_fix_ascii is_ascii_def byte_in_def)

lemma event_keys_apart [json_keys]:
  "list_all (\<lambda>(a, b). (equal_fold a b) = (a = b))
     (List.product [''id'', ''ts'', ''node'', ''agent'', ''type'', ''payload'', ''version'']
        [''id'', ''ts'', ''node'', ''agent'', ''type'', ''payload'', ''version''])"
  by code_simp

lemma event_of_json: "event_ok e \<Longrightarrow> event_of (marshal (event_json e)) = Some (reread e)"
proof -
  assume ok: "event_ok e"
  define v where "v = (case ev_payload e of None \<Rightarrow> JNull | Some v \<Rightarrow> v)"
  have v: "(case ev_payload e of None \<Rightarrow> JNull | Some v \<Rightarrow> v) = v" "json_wf v" "json_norm v = v"
    using ok by (auto simp: event_ok_def v_def split: option.splits)
  have w: "json_wf (event_json e)" using v by (simp add: event_json_def)
  have "json_norm (event_json e) = event_json e" using ok v
    by (simp add: event_json_def event_ok_def utf8_def event_keys keys_ascii)
  then have "unmarshal (marshal (event_json e)) = Some (event_json e)" using unmarshal_marshal[OF w] by simp
  then show ?thesis using ok v event_keys_apart
    by (simp add: event_of_def struct_of_def event_json_def set_event_def text_field_def num_field_def json_int_def
        go_atoi_show_int event_ok_def event_zero_def reread_def)
qed

lemma event_line_ends: "event_ok e \<Longrightarrow> NL \<notin> set (marshal (event_json e)) \<and> last (marshal (event_json e)) \<noteq> CR"
proof -
  assume "event_ok e"
  then have "json_wf (event_json e)" by (auto simp: event_ok_def event_json_def split: option.splits)
  from marshal_no_nl[OF this] show ?thesis by (simp add: event_json_def)
qed

abbreviation lines_of :: "string list \<Rightarrow> string" where
  "lines_of ls \<equiv> concat (map (\<lambda>l. l @ [NL]) ls)"

lemma split_lines_of: "list_all (\<lambda>l. NL \<notin> set l) ls \<Longrightarrow> split_on NL (lines_of ls) = ls @ [[]]"
proof (induction ls)
  case (Cons l ls)
  then have "split_on NL l = [l]" by (intro split_by_none) auto
  with Cons show ?case using split_on_append_line[of NL l "lines_of ls"] by simp
qed simp

lemma scanned_lines:
  assumes "list_all (\<lambda>l. NL \<notin> set l \<and> last l \<noteq> CR) ls"
  shows "scanner_lines (lines_of ls) = takeWhile (\<lambda>l. length l < 65536) ls"
    "scan_error (lines_of ls) \<longleftrightarrow> \<not> list_all (\<lambda>l. length l < 65536) ls"
proof -
  let ?t = "takeWhile (\<lambda>l. length l < 65536) ls"
  have s: "split_on NL (lines_of ls) = ls @ [[]]" using assms by (intro split_lines_of) (auto simp: list_all_iff)
  have "map drop_cr ?t = ?t"
    using assms by (intro map_idI) (auto simp: list_all_iff drop_cr_def dest!: set_takeWhileD)
  then show "scanner_lines (lines_of ls) = ?t" by (simp add: scanner_lines_def s)
  show "scan_error (lines_of ls) \<longleftrightarrow> \<not> list_all (\<lambda>l. length l < 65536) ls" by (simp add: scan_error_def s)
qed

definition append_all :: "event list \<Rightarrow> event_log \<times> fs \<Rightarrow> event_log \<times> fs" where
  "append_all es s = foldl (\<lambda>s e. snd (Append e s)) s es"

lemma append_all_file:
  assumes "distinct (map ev_id es)" "el_seen l = []" "fs_wrerr f (el_path l) = None" "fs_rderr f (el_path l) = None"
    and "file_text f (el_path l) = Some []" "append_all es (l, f) = (l', f')"
  shows "el_path l' = el_path l \<and> set (el_seen l') \<subseteq> set (map ev_id es) \<and> fs_wrerr f' (el_path l) = None \<and>
    fs_rderr f' (el_path l) = None \<and> file_text f' (el_path l) = Some (lines_of (map event_line es))"
  using assms(1,6)
proof (induction es arbitrary: l' f' rule: rev_induct)
  case Nil
  then show ?case using assms by (simp add: append_all_def)
next
  case (snoc e es)
  obtain l1 f1 where m: "append_all es (l, f) = (l1, f1)" by fastforce
  with snoc have ih: "el_path l1 = el_path l" "set (el_seen l1) \<subseteq> set (map ev_id es)" "fs_wrerr f1 (el_path l) = None"
    "fs_rderr f1 (el_path l) = None" "file_text f1 (el_path l) = Some (lines_of (map event_line es))" by auto
  have "ev_id e \<notin> set (el_seen l1)" using snoc.prems(1) ih(2) by auto
  moreover have "append_all (es @ [e]) (l, f) = snd (Append e (l1, f1))" using m by (simp add: append_all_def)
  ultimately show ?case using snoc.prems(2) ih by (auto simp: Append_def note_id_def fs_simps put_file_sel split: if_splits)
qed

text \<open>C28: events of different ids are appended, each accepted whatever its size, to an empty log and read
  back.  The reader gives those of the asked time, in order and whole (a missing payload reads as
  \<open>null\<close>), up to the first event whose line has 65536 bytes or more; that one and every later one
  are lost to it, and it reports an error exactly when there is one.\<close>
theorem event_log_roundtrip:
  assumes "list_all event_ok es" "distinct (map ev_id es)" "el_seen l = []" "fs_wrerr f (el_path l) = None"
    and "fs_rderr f (el_path l) = None" "file_text f (el_path l) = Some []" "append_all es (l, f) = (l', f')"
  shows "ReadSince since l' f' =
    (filter (\<lambda>e. since \<le> ev_ts e) (map reread (takeWhile short_event es)), \<not> list_all short_event es)"
proof -
  let ?ls = "map event_line es"
  from append_all_file[OF assms(2-7)] have r: "read_file f' (el_path l') = Inr (lines_of ?ls)" by (simp add: read_file_text)
  have ls: "list_all (\<lambda>l. NL \<notin> set l \<and> last l \<noteq> CR) ?ls"
    using assms(1) event_line_ends by (auto simp: list_all_iff event_line_def)
  have "List.map_filter event_of (map event_line (takeWhile short_event es)) = map reread (takeWhile short_event es)"
    using assms(1) by (induction es) (auto simp: map_filter_simps event_of_json event_line_def)
  moreover have "takeWhile (\<lambda>l. length l < 65536) ?ls = map event_line (takeWhile short_event es)"
    by (simp add: takeWhile_map comp_def flip: short_event_def)
  moreover have "list_all (\<lambda>l. length l < 65536) ?ls = list_all short_event es"
    by (simp add: list_all_iff short_event_def)
  ultimately show ?thesis using scanned_lines[OF ls] by (simp add: ReadSince_def r)
qed

text \<open>An event whose id was forgotten is written again.\<close>
lemma append_twice:
  assumes "length (el_seen l) = seen_limit" "ev_id e \<notin> set (el_seen l)" "fs_wrerr f (el_path l) = None"
    and "file_text f (el_path l) = Some d"
  shows "file_text (snd (append_all [e, e] (l, f))) (el_path l) = Some (d @ lines_of [event_line e, event_line e])"
  using assms by (simp add: append_all_def Append_def note_id_def seen_limit_def fs_simps put_file_sel)
definition demo_event :: "string \<Rightarrow> int \<Rightarrow> event" where
  "demo_event i t = \<lparr>ev_id = i, ev_ts = t, ev_node = ''d1'', ev_agent = ''vssh'', ev_type = TypeProbeResult,
     ev_payload = Some (JObj [(''success'', JBool True)]), ev_version = 1\<rparr>"

lemma event_log_roundtrip_witness:
  "ReadSince 6 (fst (append_all [demo_event ''a'' 5, demo_event ''b'' 7] (NewEventLog ''/tmp'' '''' ''/log'', put_file ''/log'' [] empty_fs)))
     (snd (append_all [demo_event ''a'' 5, demo_event ''b'' 7] (NewEventLog ''/tmp'' '''' ''/log'', put_file ''/log'' [] empty_fs)))
   = ([demo_event ''b'' 7], False)"
proof -
  let ?es = "[demo_event ''a'' 5, demo_event ''b'' 7]"
  let ?l = "NewEventLog ''/tmp'' '''' ''/log''" and ?f = "put_file ''/log'' [] empty_fs"
  obtain l' f' where a: "append_all ?es (?l, ?f) = (l', f')" by fastforce
  have n: "length (marshal (event_json (demo_event ''a'' 5))) < 200" "length (marshal (event_json (demo_event ''b'' 7))) < 200"
    by code_simp+
  have u: "utf8 ''a''" "utf8 ''b''" "utf8 ''d1''" "utf8 ''vssh''" "utf8 TypeProbeResult" "utf8_fix ''success'' = ''success''"
    by (simp_all add: utf8_ascii utf8_fix_ascii is_ascii_def byte_in_def TypeProbeResult_def)
  have ok: "list_all event_ok ?es" using n u
    by (simp add: event_ok_def demo_event_def min_int64_def max_int64_def)
  have l: "el_path ?l = ''/log''" "el_seen ?l = []" by (simp_all add: NewEventLog_def)
  have f: "fs_wrerr ?f (el_path ?l) = None" "fs_rderr ?f (el_path ?l) = None" "file_text ?f (el_path ?l) = Some []"
    unfolding l by (simp_all add: put_file_sel file_text_put empty_fs_def)
  have d: "distinct (map ev_id ?es)" by (simp add: demo_event_def)
  have sh: "list_all short_event ?es" "takeWhile short_event ?es = ?es"
    using n by (simp_all add: short_event_def event_line_def)
  have "ReadSince 6 l' f' = (filter (\<lambda>e. 6 \<le> ev_ts e) (map reread (takeWhile short_event ?es)), \<not> list_all short_event ?es)"
    by (rule event_log_roundtrip[OF ok d l(2) f a])
  then have "ReadSince 6 l' f' = (filter (\<lambda>e. 6 \<le> ev_ts e) (map reread ?es), False)" by (simp only: sh simp_thms)
  moreover have "filter (\<lambda>e. 6 \<le> ev_ts e) (map reread ?es) = [demo_event ''b'' 7]" by (simp add: demo_event_def reread_def)
  ultimately show ?thesis by (simp only: a fst_conv snd_conv)
qed

end
