(* ===== verification/Agent.thy ===== *)
theory Agent
  imports EventLog
begin

text \<open>
  The monitoring agent (\<^verbatim>\<open>internal/agent/agent.go\<close>, \<^verbatim>\<open>api.go\<close>) and the adapter with
  the same probing (\<^verbatim>\<open>internal/adapter/vssh.go\<close>): what it knows of the nodes, one round, the
  attempts reported to it, and the documents of its HTTP interface. What the agent meets in a round is an
  argument: addresses that answer, the clock, ids, latencies, the arithmetic of floats, as is YAML. A map
  is a list in the order of its iteration, and a counter an integer without the bound of 64 bits.
\<close>

section \<open>Configuration\<close>

record agent_config =
  gc_interval :: int
  gc_log :: path
  gc_http :: string

record node_conf =
  nc_name :: string
  nc_wire :: string
  nc_lan :: string
  nc_public :: string
  nc_tail :: string

definition defaultConfigPath :: "string \<Rightarrow> path" where
  "defaultConfigPath home = (if home = '''' then '''' else join_path [home, ''.vssh'', ''vssh.yaml''])"

definition DefaultConfig :: "string \<Rightarrow> string \<Rightarrow> agent_config" where
  "DefaultConfig tmp home = \<lparr>gc_interval = 10000000000, gc_log = DefaultLocalLogPath tmp home, gc_http = ''127.0.0.1:18701''\<rparr>"

text \<open>\<open>yaml\<close> gives the three texts of the file, \<open>duration\<close> is \<^verbatim>\<open>time.ParseDuration\<close>.\<close>
definition LoadConfig ::
  "(string \<Rightarrow> (string \<times> string \<times> string) option) \<Rightarrow> (string \<Rightarrow> int option) \<Rightarrow> string \<Rightarrow> string \<Rightarrow> fs \<Rightarrow> path \<Rightarrow> agent_config" where
  "LoadConfig yaml duration tmp home f path =
     (let cfg = DefaultConfig tmp home; p = (if path = '''' then defaultConfigPath home else path) in
      case read_file f p of Inl _ \<Rightarrow> cfg
      | Inr d \<Rightarrow> (case yaml d of None \<Rightarrow> cfg
          | Some (iv, lg, ht) \<Rightarrow>
              cfg\<lparr>gc_interval := (if iv = '''' then gc_interval cfg else (case duration iv of Some t \<Rightarrow> t | None \<Rightarrow> gc_interval cfg)),
                  gc_log := (if lg = '''' then gc_log cfg else lg), gc_http := (if ht = '''' then gc_http cfg else ht)\<rparr>))"

definition loadNodes :: "(string \<Rightarrow> node_conf list option) \<Rightarrow> string \<Rightarrow> fs \<Rightarrow> node_conf list" where
  "loadNodes yaml home f =
     (case read_file f (defaultConfigPath home) of Inl _ \<Rightarrow> [] | Inr d \<Rightarrow> (case yaml d of None \<Rightarrow> [] | Some ns \<Rightarrow> ns))"

section \<open>State\<close>

record node_stats =
  na_name :: string
  na_attempts :: int
  na_successes :: int
  na_failures :: int
  na_last_attempt :: "int option"
  na_last_success :: "int option"
  na_avg :: string                                \<comment> \<open>the text of a float\<close>
  na_timeouts :: int
  na_path :: string

record agent =
  ag_log :: event_log
  ag_node :: string
  ag_stats :: "(string \<times> node_stats) list"
  ag_healthy :: bool
  ag_last :: "int option"
  ag_hints :: "string list"                       \<comment> \<open>\<^verbatim>\<open>unreachable\<close>\<close>
  ag_known :: "node_conf list"
  ag_drawn :: nat                                 \<comment> \<open>how many events it has made\<close>

record around =
  ar_id :: "nat \<Rightarrow> string option"                 \<comment> \<open>the id of the n-th event\<close>
  ar_ms :: "nat \<Rightarrow> int"                           \<comment> \<open>its time in milliseconds\<close>
  ar_now :: int
  ar_since :: int                                 \<comment> \<open>five minutes ago, in milliseconds\<close>
  ar_up :: "string \<Rightarrow> bool"                       \<comment> \<open>the addresses that answer while nodes are probed\<close>
  ar_up2 :: "string \<Rightarrow> bool"                      \<comment> \<open>those that answer when paths are looked for again\<close>
  ar_latency :: "string \<Rightarrow> int"
  ar_average :: "string \<Rightarrow> int \<Rightarrow> string \<Rightarrow> string"  \<comment> \<open>the running average\<close>
  ar_whole :: "string \<Rightarrow> int"                     \<comment> \<open>a float as an integer\<close>

definition NewAgent :: "string \<Rightarrow> string \<Rightarrow> agent_config \<Rightarrow> string \<Rightarrow> node_conf list \<Rightarrow> agent" where
  "NewAgent tmp home cfg hostname nodes = \<lparr>ag_log = NewEventLog tmp home (gc_log cfg), ag_node = hostname, ag_stats = [],
     ag_healthy = True, ag_last = None, ag_hints = [], ag_known = nodes, ag_drawn = 0\<rparr>"

definition publish :: "around \<Rightarrow> string \<Rightarrow> json \<Rightarrow> agent \<times> fs \<Rightarrow> agent \<times> fs" where
  "publish ar type payload = (\<lambda>(a, f).
     let a1 = a\<lparr>ag_drawn := Suc (ag_drawn a)\<rparr> in
     (case NewEvent (ar_id ar (ag_drawn a)) (ar_ms ar (ag_drawn a)) (ag_node a) ''vssh'' type (Some payload) of
        None \<Rightarrow> (a1, f)
      | Some e \<Rightarrow> (let (_, l, f1) = Append e (ag_log a, f) in (a1\<lparr>ag_log := l\<rparr>, f1))))"

definition stats_zero :: "string \<Rightarrow> node_stats" where
  "stats_zero name = \<lparr>na_name = name, na_attempts = 0, na_successes = 0, na_failures = 0, na_last_attempt = None,
     na_last_success = None, na_avg = ''0'', na_timeouts = 0, na_path = ''''\<rparr>"

definition stats_for :: "(string \<times> node_stats) list \<Rightarrow> string \<Rightarrow> node_stats" where
  "stats_for st name = (case map_of st name of Some s \<Rightarrow> s | None \<Rightarrow> stats_zero name)"

text \<open>The entry of a name, made when there is none, is changed.\<close>
definition update_stats :: "string \<Rightarrow> (node_stats \<Rightarrow> node_stats) \<Rightarrow> agent \<Rightarrow> agent" where
  "update_stats name g a = a\<lparr>ag_stats := put_entry name (g (stats_for (ag_stats a) name)) (ag_stats a)\<rparr>"

text \<open>What both kinds of attempts count.\<close>
definition count_attempt :: "around \<Rightarrow> bool \<Rightarrow> string \<Rightarrow> node_stats \<Rightarrow> node_stats" where
  "count_attempt ar success latency s =
     (let s = s\<lparr>na_attempts := na_attempts s + 1, na_last_attempt := Some (ar_now ar)\<rparr> in
      if success then
        (let n = na_successes s + 1 in
         s\<lparr>na_successes := n, na_last_success := Some (ar_now ar), na_avg := ar_average ar (na_avg s) n latency\<rparr>)
      else s\<lparr>na_failures := na_failures s + 1\<rparr>)"

definition probed :: "around \<Rightarrow> string option \<Rightarrow> string \<Rightarrow> node_stats \<Rightarrow> node_stats" where
  "probed ar p latency s =
     (let s = count_attempt ar (p \<noteq> None) latency s in
      case p of Some x \<Rightarrow> s\<lparr>na_path := x\<rparr> | None \<Rightarrow> s\<lparr>na_timeouts := na_timeouts s + 1\<rparr>)"

definition reported :: "around \<Rightarrow> bool \<Rightarrow> string \<Rightarrow> bool \<Rightarrow> node_stats \<Rightarrow> node_stats" where
  "reported ar success latency timeout s =
     (let s = count_attempt ar success latency s in
      if \<not> success \<and> timeout then s\<lparr>na_timeouts := na_timeouts s + 1\<rparr> else s)"

section \<open>A round\<close>

text \<open>The names that an event hints at: public keys of peers that are stale or not connected.\<close>
definition hint_keys :: "event \<Rightarrow> string list" where
  "hint_keys ev =
     (if ev_type ev \<noteq> TypePeerStateChange then []
      else (case ev_payload ev of
          Some (JObj ms) \<Rightarrow>
            let v = JObj ms;
                k = (case json_str ''public_key'' v of Some k \<Rightarrow> [k] | None \<Rightarrow> [])
            in (if json_get ''stale'' v = Some (JBool True) then k else [])
               @ (if json_get ''connected'' v \<noteq> Some (JBool True) then k else [])
        | _ \<Rightarrow> []))"

definition readEventHints :: "around \<Rightarrow> agent \<times> fs \<Rightarrow> agent" where
  "readEventHints ar = (\<lambda>(a, f).
     (case ReadSince (ar_since ar) (ag_log a) f of
        (_, True) \<Rightarrow> a
      | (evs, False) \<Rightarrow> a\<lparr>ag_hints := dedup (concat (map hint_keys evs))\<rparr>))"

definition reach_path :: "bool \<Rightarrow> (string \<Rightarrow> bool) \<Rightarrow> node_conf \<Rightarrow> string option" where
  "reach_path unreachable up n =
     (if \<not> unreachable \<and> nc_wire n \<noteq> '''' \<and> up (nc_wire n) then Some ''wire''
      else if nc_lan n \<noteq> '''' \<and> up (nc_lan n) then Some ''lan''
      else if nc_public n \<noteq> '''' \<and> up (nc_public n) then Some ''public''
      else if nc_tail n \<noteq> '''' \<and> up (nc_tail n) then Some ''tailscale''
      else None)"

definition probe_node :: "around \<Rightarrow> node_conf \<Rightarrow> agent \<times> fs \<Rightarrow> agent \<times> fs" where
  "probe_node ar n = (\<lambda>(a, f).
     let name = nc_name n in
     if name = ag_node a then (a, f)
     else
       let p = reach_path (name \<in> set (ag_hints a)) (ar_up ar) n; lat = ar_latency ar name;
           (a1, f1) = publish ar TypeProbeResult (probe_json name (case p of Some x \<Rightarrow> x | None \<Rightarrow> '''') lat (p \<noteq> None)
             (if p = None then ''all paths failed'' else '''')) (a, f)
       in (update_stats name (probed ar p (show_int lat)) a1, f1))"

definition probe_nodes :: "around \<Rightarrow> agent \<times> fs \<Rightarrow> agent \<times> fs" where
  "probe_nodes ar s = fold (probe_node ar) (ag_known (fst s)) s"

definition collectState :: "around \<Rightarrow> agent \<times> fs \<Rightarrow> agent \<times> fs" where
  "collectState ar s = probe_nodes ar (readEventHints ar s, snd s)"

text \<open>A rate below one half is a comparison of integers.\<close>
definition node_problems :: "string \<times> node_stats \<Rightarrow> string list" where
  "node_problems = (\<lambda>(name, s).
     (if 5 < na_attempts s \<and> 2 * na_successes s < na_attempts s then [name] else [])
     @ (if 3 < na_timeouts s then [name] else []))"

definition evaluate :: "agent \<Rightarrow> string list" where
  "evaluate a = concat (map node_problems (ag_stats a))"

definition findBestPath :: "around \<Rightarrow> agent \<Rightarrow> string \<Rightarrow> string" where
  "findBestPath ar a name =
     (case find (\<lambda>n. nc_name n = name) (ag_known a) of None \<Rightarrow> ''public''
      | Some n \<Rightarrow> (case reach_path (name \<in> set (ag_hints a)) (ar_up2 ar) n of Some p \<Rightarrow> p | None \<Rightarrow> ''public''))"

definition act_on :: "around \<Rightarrow> string \<Rightarrow> agent \<Rightarrow> agent" where
  "act_on ar name a =
     (if map_of (ag_stats a) name = None then a
      else update_stats name (\<lambda>s. s\<lparr>na_path := findBestPath ar a name\<rparr>) a)"

definition act :: "around \<Rightarrow> string list \<Rightarrow> agent \<Rightarrow> agent \<times> string list" where
  "act ar problems a =
     (fold (act_on ar) problems a, map (\<lambda>n. ''switch_path:'' @ n @ '':'' @ findBestPath ar a n) problems)"

definition tick :: "around \<Rightarrow> agent \<times> fs \<Rightarrow> agent \<times> fs" where
  "tick ar = (\<lambda>(a, f).
     let (a1, f1) = collectState ar (a\<lparr>ag_last := Some (ar_now ar)\<rparr>, f);
         problems = evaluate a1; (a2, _) = act ar problems a1
     in (a2\<lparr>ag_healthy := (problems = [])\<rparr>, f1))"

definition RecordAttempt :: "around \<Rightarrow> string \<Rightarrow> bool \<Rightarrow> string \<Rightarrow> bool \<Rightarrow> agent \<times> fs \<Rightarrow> agent \<times> fs" where
  "RecordAttempt ar node success latency timeout = (\<lambda>(a, f).
     let a1 = update_stats node (reported ar success latency timeout) a
     in publish ar TypeProbeResult (probe_json node (na_path (stats_for (ag_stats a1) node)) (ar_whole ar latency) success
          (if success then '''' else if timeout then ''timeout'' else ''connection failed'')) (a1, f))"

text \<open>\<^verbatim>\<open>Run\<close>: the start, rounds and reports in any order, the end.\<close>
datatype agent_op = Started around int | Ticked around | Recorded around string bool string bool | Stopped around

fun agent_step :: "agent_op \<Rightarrow> agent \<times> fs \<Rightarrow> agent \<times> fs" where
  "agent_step (Started ar pid) s = publish ar TypeAgentLifecycle (lifecycle_json ''start'' pid '''') s"
| "agent_step (Ticked ar) s = tick ar s"
| "agent_step (Recorded ar node success latency timeout) s = RecordAttempt ar node success latency timeout s"
| "agent_step (Stopped ar) s = publish ar TypeAgentLifecycle (lifecycle_json ''stop'' 0 '''') s"

section \<open>The HTTP interface\<close>

text \<open>\<open>rate\<close> is the JSON of a quotient of integers, \<open>num\<close> that of a float, \<open>fmt\<close> a time in RFC 3339.\<close>
definition handleStatus :: "(int \<Rightarrow> int \<Rightarrow> json) \<Rightarrow> (string \<Rightarrow> json) \<Rightarrow> (int \<Rightarrow> string) \<Rightarrow> agent \<Rightarrow> json" where
  "handleStatus rate num fmt a =
     json_map [(''node'', JStr (ag_node a)), (''nodes'', JArr (map (\<lambda>(_, s).
       JObj ([(''name'', JStr (na_name s)), (''attempts'', json_int (na_attempts s)), (''successes'', json_int (na_successes s)),
          (''failures'', json_int (na_failures s)),
          (''success_rate'', if 0 < na_attempts s then rate (na_successes s) (na_attempts s) else JNum ''0''),
          (''avg_latency_ms'', num (na_avg s)), (''timeouts'', json_int (na_timeouts s)), (''best_path'', JStr (na_path s))]
         @ (case na_last_success s of None \<Rightarrow> [] | Some t \<Rightarrow> omit_empty ''last_success'' (fmt t)))) (ag_stats a)))]"

text \<open>An agent that has not run yet is stale.\<close>
definition health_status :: "int \<Rightarrow> int \<Rightarrow> agent \<Rightarrow> string" where
  "health_status now interval a =
     (if (case ag_last a of None \<Rightarrow> True | Some t \<Rightarrow> 2 * interval < now - t) then ''stale''
      else if ag_healthy a then ''ok'' else ''degraded'')"

definition handleHealth :: "int \<Rightarrow> int \<Rightarrow> (int option \<Rightarrow> string) \<Rightarrow> agent \<Rightarrow> json" where
  "handleHealth now interval fmt a = json_map [(''status'', JStr (health_status now interval a)),
     (''healthy'', JBool (ag_healthy a)), (''last_run'', JStr (fmt (ag_last a)))]"

definition total_of :: "(node_stats \<Rightarrow> int) \<Rightarrow> agent \<Rightarrow> int" where
  "total_of g a = sum_list (map (g \<circ> snd) (ag_stats a))"

definition handleMetrics :: "(int \<Rightarrow> int \<Rightarrow> json) \<Rightarrow> agent \<Rightarrow> json" where
  "handleMetrics rate a =
     (let t = total_of na_attempts a; s = total_of na_successes a in
      json_map [(''total_attempts'', json_int t), (''total_successes'', json_int s),
        (''total_failures'', json_int (total_of na_failures a)), (''total_timeouts'', json_int (total_of na_timeouts a)),
        (''overall_success_rate'', if 0 < t then rate s t else JNum ''0''),
        (''node_success_rates'', json_map (map (\<lambda>(n, s). (n, rate (na_successes s) (na_attempts s)))
           (filter (\<lambda>(_, s). 0 < na_attempts s) (ag_stats a))))])"

section \<open>The adapter\<close>

record probe_result =
  pb_target :: string
  pb_path :: string
  pb_success :: bool
  pb_latency :: int
  pb_error :: string

definition Probe :: "(string \<Rightarrow> bool) \<Rightarrow> int \<Rightarrow> node_conf list \<Rightarrow> string \<Rightarrow> probe_result" where
  "Probe up latency nodes name =
     (case find (\<lambda>n. nc_name n = name) nodes of
        None \<Rightarrow> \<lparr>pb_target = name, pb_path = '''', pb_success = False, pb_latency = 0, pb_error = ''node not found''\<rparr>
      | Some n \<Rightarrow>
          (case find (\<lambda>(_, ip). ip \<noteq> '''' \<and> up ip)
             [(''wire'', nc_wire n), (''lan'', nc_lan n), (''public'', nc_public n), (''tailscale'', nc_tail n)] of
             Some (p, _) \<Rightarrow> \<lparr>pb_target = name, pb_path = p, pb_success = True, pb_latency = latency, pb_error = ''''\<rparr>
           | None \<Rightarrow> \<lparr>pb_target = name, pb_path = '''', pb_success = False, pb_latency = latency, pb_error = ''all paths failed''\<rparr>))"

definition ProbeAll :: "(string \<Rightarrow> bool) \<Rightarrow> (string \<Rightarrow> int) \<Rightarrow> node_conf list \<Rightarrow> probe_result list" where
  "ProbeAll up latency nodes = map (\<lambda>n. Probe up (latency (nc_name n)) nodes (nc_name n)) nodes"

section \<open>What the rounds keep\<close>

definition agent_moves :: "agent \<times> fs \<Rightarrow> agent \<times> fs \<Rightarrow> bool" where
  "agent_moves s t \<longleftrightarrow> (\<exists>op. t = agent_step op s)"

lemma publish_sel [simp]:
  "ag_stats (fst (publish ar type p s)) = ag_stats (fst s)" "ag_known (fst (publish ar type p s)) = ag_known (fst s)"
  "ag_hints (fst (publish ar type p s)) = ag_hints (fst s)" "ag_node (fst (publish ar type p s)) = ag_node (fst s)"
  by (cases s; auto simp: publish_def Let_def split: option.splits prod.splits)+

lemma hints_sel [simp]: "ag_stats (readEventHints ar s) = ag_stats (fst s)" "ag_known (readEventHints ar s) = ag_known (fst s)"
  "ag_node (readEventHints ar s) = ag_node (fst s)"
  by (cases s; auto simp: readEventHints_def split: prod.splits bool.splits)+

lemma fold_keeps: "(\<And>x s. P (g s) \<Longrightarrow> P (g (h x s))) \<Longrightarrow> P (g s) \<Longrightarrow> P (g (fold h xs s))"
  by (induction xs arbitrary: s) auto

lemma probe_stats: "ag_stats (fst (probe_node ar n s)) =
  (if nc_name n = ag_node (fst s) then ag_stats (fst s)
   else put_entry (nc_name n) (probed ar (reach_path (nc_name n \<in> set (ag_hints (fst s))) (ar_up ar) n)
      (show_int (ar_latency ar (nc_name n))) (stats_for (ag_stats (fst s)) (nc_name n))) (ag_stats (fst s)))"
  by (cases s) (simp add: probe_node_def Let_def split_beta update_stats_def)

text \<open>The statistics change one name at a time, by one of three writes.\<close>
locale kept_stats =
  fixes inv :: "(string \<times> node_stats) list \<Rightarrow> bool"
  assumes on_probe: "inv st \<Longrightarrow> inv (put_entry name (probed ar p lat (stats_for st name)) st)"
    and on_report: "inv st \<Longrightarrow> inv (put_entry name (reported ar ok lat tmo (stats_for st name)) st)"
    and on_path: "inv st \<Longrightarrow> map_of st name \<noteq> None \<Longrightarrow> inv (put_entry name (stats_for st name\<lparr>na_path := q\<rparr>) st)"
begin

lemma collected: "inv (ag_stats (fst s)) \<Longrightarrow> inv (ag_stats (fst (collectState ar s)))"
  unfolding collectState_def probe_nodes_def
  by (rule fold_keeps[of inv "\<lambda>s. ag_stats (fst s)" "probe_node ar"]) (simp_all add: probe_stats on_probe)

lemma acted: "inv (ag_stats a) \<Longrightarrow> inv (ag_stats (act_on ar n a))"
  by (auto simp: act_on_def update_stats_def on_path)

lemma ticked: "inv (ag_stats (fst s)) \<Longrightarrow> inv (ag_stats (fst (tick ar s)))"
proof (cases s)
  case (Pair a f)
  let ?c = "fst (collectState ar (a\<lparr>ag_last := Some (ar_now ar)\<rparr>, f))"
  assume "inv (ag_stats (fst s))"
  then have "inv (ag_stats ?c)" by (intro collected) (simp add: Pair)
  then have "inv (ag_stats (fold (act_on ar) (evaluate ?c) ?c))" using fold_keeps[of inv ag_stats "act_on ar"] acted by blast
  then show ?thesis by (simp add: Pair tick_def act_def split_beta Let_def)
qed

lemma moved: "inv (ag_stats (fst s)) \<Longrightarrow> agent_moves s t \<Longrightarrow> inv (ag_stats (fst t))"
proof -
  assume i: "inv (ag_stats (fst s))" and m: "agent_moves s t"
  then obtain op where t: "t = agent_step op s" by (auto simp: agent_moves_def)
  show ?thesis using i
    by (cases op; cases s) (simp_all add: t ticked RecordAttempt_def Let_def update_stats_def on_report)
qed

end

sublocale kept_stats \<subseteq> step_invariant agent_moves "\<lambda>s. inv (ag_stats (fst s))" "\<lambda>s. inv (ag_stats (fst s))"
  by unfold_locales (simp, rule moved)

subsection \<open>The counts agree\<close>

definition stats_ok :: "string \<times> node_stats \<Rightarrow> bool" where
  "stats_ok = (\<lambda>(name, s). na_name s = name \<and> na_attempts s = na_successes s + na_failures s \<and> 0 \<le> na_successes s \<and>
     0 \<le> na_timeouts s \<and> na_timeouts s \<le> na_failures s \<and> (na_last_success s = None \<longleftrightarrow> na_successes s = 0))"

definition all_stats_ok :: "(string \<times> node_stats) list \<Rightarrow> bool" where
  "all_stats_ok st \<longleftrightarrow> distinct (map fst st) \<and> list_all stats_ok st"

lemma stats_for_ok: "all_stats_ok st \<Longrightarrow> stats_ok (name, stats_for st name)"
  by (auto simp: all_stats_ok_def stats_for_def list_all_iff stats_ok_def stats_zero_def dest: map_of_SomeD split: option.splits)

lemma put_stats_ok: "all_stats_ok st \<Longrightarrow> stats_ok (name, s) \<Longrightarrow> all_stats_ok (put_entry name s st)"
  by (auto simp: all_stats_ok_def put_entry_keys list_all_iff dest!: put_entry_set)

lemma counted_ok: "stats_ok (name, s) \<Longrightarrow> stats_ok (name, probed ar p lat s) \<and> stats_ok (name, reported ar ok lat tmo s)"
  by (auto simp: stats_ok_def probed_def reported_def count_attempt_def Let_def split: option.splits)

interpretation counts: kept_stats all_stats_ok
proof unfold_locales
  fix st name ar p lat okay tmo q
  assume ok: "all_stats_ok st"
  note s = stats_for_ok[OF ok, of name]
  show "all_stats_ok (put_entry name (probed ar p lat (stats_for st name)) st)"
    "all_stats_ok (put_entry name (reported ar okay lat tmo (stats_for st name)) st)"
    "all_stats_ok (put_entry name (stats_for st name\<lparr>na_path := q\<rparr>) st)"
    using counted_ok[OF s] s by (auto intro!: put_stats_ok[OF ok] simp: stats_ok_def)
qed

subsection \<open>What has timed out stays a problem\<close>

definition worn :: "string \<Rightarrow> (string \<times> node_stats) list \<Rightarrow> bool" where
  "worn name st \<longleftrightarrow> (\<exists>s. map_of st name = Some s \<and> 3 < na_timeouts s)"

lemma worn_put: "worn n st \<Longrightarrow> na_timeouts (stats_for st m) \<le> na_timeouts s \<Longrightarrow> worn n (put_entry m s st)"
  by (auto simp: worn_def stats_for_def put_entry_get)

interpretation timeouts: kept_stats "worn n" for n
  by unfold_locales (auto intro!: worn_put simp: probed_def reported_def count_attempt_def Let_def split: option.splits)

section \<open>Properties\<close>

lemma totals_agree: "list_all stats_ok st \<Longrightarrow>
  sum_list (map (na_attempts \<circ> snd) st) = sum_list (map (na_successes \<circ> snd) st) + sum_list (map (na_failures \<circ> snd) st)"
  by (induction st) (auto simp: stats_ok_def)

text \<open>C29: Whatever rounds and reports the agent has seen, each node has one entry under its own name, its
  attempts are its successes and failures, a time-out is a failure, a time of success stands exactly where
  there was one; and so are the totals that the metrics give.\<close>
theorem agent_counts_agree:
  assumes "ag_stats (fst s) = []" "agent_moves\<^sup>*\<^sup>* s t"
  shows "all_stats_ok (ag_stats (fst t)) \<and> total_of na_attempts (fst t) = total_of na_successes (fst t) + total_of na_failures (fst t)"
proof -
  have "all_stats_ok (ag_stats (fst s))" using assms(1) by (simp add: all_stats_ok_def)
  with assms(2) have ok: "all_stats_ok (ag_stats (fst t))" by (rule counts.inv_stays)
  then have "list_all stats_ok (ag_stats (fst t))" by (simp add: all_stats_ok_def)
  from totals_agree[OF this] ok show ?thesis by (simp only: total_of_def)
qed

text \<open>C30: A node of which four probes have ever failed is a problem for good: however many rounds succeed after
  that, the agent reports itself degraded.\<close>
theorem agent_never_recovers:
  assumes "map_of (ag_stats (fst s)) name = Some st" "3 < na_timeouts st" "agent_moves\<^sup>*\<^sup>* s t"
  shows "\<not> ag_healthy (fst (tick ar t))"
proof -
  have "worn name (ag_stats (fst s))" using assms(1,2) by (auto simp: worn_def)
  with assms(3) have "worn name (ag_stats (fst t))" by (rule timeouts.inv_stays)
  then have "worn name (ag_stats (fst (collectState ar ((fst t)\<lparr>ag_last := Some (ar_now ar)\<rparr>, snd t))))"
    by (intro timeouts.collected) simp
  then obtain st where "(name, st) \<in> set (ag_stats (fst (collectState ar ((fst t)\<lparr>ag_last := Some (ar_now ar)\<rparr>, snd t))))" "3 < na_timeouts st"
    by (auto simp: worn_def dest: map_of_SomeD)
  then have "evaluate (fst (collectState ar ((fst t)\<lparr>ag_last := Some (ar_now ar)\<rparr>, snd t))) \<noteq> []"
    by (auto simp: evaluate_def node_problems_def intro!: bexI[of _ "(name, st)"])
  then show ?thesis by (cases t) (simp add: tick_def split_beta Let_def)
qed

lemma probe_unhinted:
  assumes "nc_name n \<notin> set (ag_hints (fst s))"
  shows "ag_stats (fst (probe_node ar n s)) = (if nc_name n = ag_node (fst s) then ag_stats (fst s)
   else put_entry (nc_name n) (probed ar (reach_path False (ar_up ar) n) (show_int (ar_latency ar (nc_name n)))
     (stats_for (ag_stats (fst s)) (nc_name n))) (ag_stats (fst s)))"
  using assms by (simp add: probe_stats)

lemma probe_sel [simp]: "ag_hints (fst (probe_node ar n s)) = ag_hints (fst s)" "ag_node (fst (probe_node ar n s)) = ag_node (fst s)"
  by (cases s; simp add: probe_node_def Let_def split_beta update_stats_def)+

text \<open>The statistics after probing without any hint.\<close>
definition unhinted :: "around \<Rightarrow> string \<Rightarrow> node_conf list \<Rightarrow> (string \<times> node_stats) list \<Rightarrow> (string \<times> node_stats) list" where
  "unhinted ar self = fold (\<lambda>n st. if nc_name n = self then st
     else put_entry (nc_name n) (probed ar (reach_path False (ar_up ar) n) (show_int (ar_latency ar (nc_name n))) (stats_for st (nc_name n))) st)"

lemma fold_unhinted:
  "\<forall>n \<in> set ns. nc_name n \<notin> set (ag_hints (fst s)) \<Longrightarrow>
   ag_stats (fst (fold (probe_node ar) ns s)) = unhinted ar (ag_node (fst s)) ns (ag_stats (fst s))"
  by (induction ns arbitrary: s) (simp_all add: unhinted_def probe_unhinted)

text \<open>Hints carry public keys and are looked up by name: while no node is named like a public key, the events
  that report a peer as gone change nothing in what is probed and how.\<close>
theorem hints_name_keys:
  assumes "\<forall>ev \<in> set (fst (ReadSince (ar_since ar) (ag_log (fst s)) (snd s))). \<forall>k \<in> set (hint_keys ev). k \<notin> nc_name ` set (ag_known (fst s))"
    and "set (ag_hints (fst s)) \<inter> nc_name ` set (ag_known (fst s)) = {}"
  shows "ag_stats (fst (collectState ar s)) = unhinted ar (ag_node (fst s)) (ag_known (fst s)) (ag_stats (fst s))"
proof -
  have "set (ag_hints (readEventHints ar s)) \<inter> nc_name ` set (ag_known (fst s)) = {}"
    using assms by (cases s) (fastforce simp: readEventHints_def dedup_set split: prod.splits bool.splits)
  then have "\<forall>n \<in> set (ag_known (fst s)). nc_name n \<notin> set (ag_hints (fst (readEventHints ar s, snd s)))" by auto
  from fold_unhinted[OF this] show ?thesis by (simp add: collectState_def probe_nodes_def)
qed

text \<open>The adapter finds the path that the agent finds for a node without hints.\<close>
theorem adapter_finds_agent_path:
  assumes "find (\<lambda>n. nc_name n = name) nodes = Some n"
  shows "pb_success (Probe up latency nodes name) = (reach_path False up n \<noteq> None) \<and>
    pb_path (Probe up latency nodes name) = (case reach_path False up n of Some p \<Rightarrow> p | None \<Rightarrow> '''')"
  using assms by (simp add: Probe_def reach_path_def)

section \<open>Examples\<close>

definition demo_conf :: node_conf where
  "demo_conf = \<lparr>nc_name = ''d1'', nc_wire = ''10.0.0.1'', nc_lan = '''', nc_public = '''', nc_tail = ''''\<rparr>"

definition demo_agent :: agent where
  "demo_agent = NewAgent ''/tmp'' ''/root'' (DefaultConfig ''/tmp'' ''/root'') ''ctl'' [demo_conf]"

definition demo_around :: "bool \<Rightarrow> around" where
  "demo_around up = \<lparr>ar_id = (\<lambda>_. None), ar_ms = (\<lambda>_. 0), ar_now = 1, ar_since = 0, ar_up = (\<lambda>_. up), ar_up2 = (\<lambda>_. up),
     ar_latency = (\<lambda>_. 3), ar_average = (\<lambda>_ _ l. l), ar_whole = (\<lambda>_. 3)\<rparr>"

lemma agent_counts_agree_witness:
  "all_stats_ok (ag_stats (fst (tick (demo_around False) (demo_agent, empty_fs))))"
proof -
  have "agent_moves (demo_agent, empty_fs) (tick (demo_around False) (demo_agent, empty_fs))"
    unfolding agent_moves_def by (rule exI[of _ "Ticked (demo_around False)"]) simp
  from agent_counts_agree[OF _ r_into_rtranclp[of agent_moves, OF this]] show ?thesis
    by (simp add: demo_agent_def NewAgent_def)
qed

lemma agent_never_recovers_witness:
  "\<not> ag_healthy (fst (tick (demo_around True) (tick (demo_around True)
      (demo_agent\<lparr>ag_stats := [(''d1'', stats_zero ''d1''\<lparr>na_attempts := 4, na_failures := 4, na_timeouts := 4\<rparr>)]\<rparr>, empty_fs))))"
proof -
  let ?s = "(demo_agent\<lparr>ag_stats := [(''d1'', stats_zero ''d1''\<lparr>na_attempts := 4, na_failures := 4, na_timeouts := 4\<rparr>)]\<rparr>, empty_fs)"
  have "agent_moves ?s (tick (demo_around True) ?s)"
    unfolding agent_moves_def by (rule exI[of _ "Ticked (demo_around True)"]) simp
  from agent_never_recovers[OF _ _ r_into_rtranclp[of agent_moves, OF this], of "''d1''" _ "demo_around True"] show ?thesis by simp
qed

definition stale_event :: event where
  "stale_event = event_zero\<lparr>ev_type := TypePeerStateChange, ev_payload := Some (JObj [(''public_key'', JStr ''d1key''), (''stale'', JBool True)])\<rparr>"

lemma hints_name_keys_witness:
  "hint_keys stale_event = [''d1key'', ''d1key''] \<and>
   ag_stats (fst (collectState (demo_around True) (demo_agent\<lparr>ag_hints := [''d1key'']\<rparr>, empty_fs)))
     = unhinted (demo_around True) ''ctl'' [demo_conf] []"
proof -
  let ?s = "(demo_agent\<lparr>ag_hints := [''d1key'']\<rparr>, empty_fs)"
  have "ReadSince 0 (ag_log (fst ?s)) empty_fs = ([], False)" by (simp add: ReadSince_def read_file_def empty_fs_def)
  then have "ag_stats (fst (collectState (demo_around True) ?s)) = unhinted (demo_around True) (ag_node (fst ?s)) (ag_known (fst ?s)) (ag_stats (fst ?s))"
    by (intro hints_name_keys) (simp_all add: demo_around_def demo_agent_def NewAgent_def demo_conf_def)
  moreover have "hint_keys stale_event = [''d1key'', ''d1key'']" by code_simp
  ultimately show ?thesis by (simp add: demo_agent_def NewAgent_def)
qed

lemma adapter_finds_agent_path_witness:
  "pb_path (Probe (\<lambda>ip. ip = ''10.0.0.1'') 5 [demo_conf] ''d1'') = ''wire''"
  using adapter_finds_agent_path[of "''d1''" "[demo_conf]" demo_conf "\<lambda>ip. ip = ''10.0.0.1''" 5]
  by (simp add: demo_conf_def reach_path_def)

end
