(* ===== verification/Connector.thy ===== *)
theory Connector
  imports Peers
begin

text \<open>
  The connector (\<^verbatim>\<open>internal/ssh/ssh.go\<close>, \<^verbatim>\<open>trySSH\<close> of \<^verbatim>\<open>resolve.go\<close>): one
  endpoint of a peer after the other, with the system's \<^verbatim>\<open>ssh\<close> and \<^verbatim>\<open>scp\<close>. What a program does is
  an argument; the argument vectors that were run are kept. Printing is not represented.
\<close>

section \<open>Programs\<close>

text \<open>An exit status with the text of its error, the time limit, any other error of running it.\<close>
datatype ended = Exited int string | TimedOut | RunFailed string

record ran =
  rn_end :: ended
  rn_stdout :: string
  rn_stderr :: string
  rn_ms :: int                                    \<comment> \<open>since the first endpoint\<close>

type_synonym runner_of = "string list \<Rightarrow> string \<Rightarrow> ran"    \<comment> \<open>arguments and input\<close>

definition went_well :: "ran \<Rightarrow> bool" where "went_well r \<longleftrightarrow> (case rn_end r of Exited c _ \<Rightarrow> c = 0 | _ \<Rightarrow> False)"

definition user_at :: "endpoint \<Rightarrow> string" where
  "user_at ep = (if ep_user ep \<noteq> '''' then ep_user ep @ ''@'' @ ep_host ep else ep_host ep)"

definition plain_options :: "string list" where
  "plain_options = [''-o'', ''ConnectTimeout=10'', ''-o'', ''StrictHostKeyChecking=no'', ''-o'', ''UserKnownHostsFile=/dev/null'']"

definition quiet :: "string list" where "quiet = [''-o'', ''LogLevel=ERROR'']"

text \<open>The vectors that are run, up to the first that goes well, and whether one did.\<close>
fun first_success :: "runner_of \<Rightarrow> string list list \<Rightarrow> string list list \<times> bool" where
  "first_success run [] = ([], False)"
| "first_success run (as # rest) =
     (if went_well (run as []) then ([as], True) else (let (cs, ok) = first_success run rest in (as # cs, ok)))"

definition over_endpoints ::
  "runner_of \<Rightarrow> site \<Rightarrow> string \<Rightarrow> (endpoint \<Rightarrow> string list) \<Rightarrow> string \<Rightarrow> string option \<times> string list list" where
  "over_endpoints run st target args failed =
     (case findPeer st target of None \<Rightarrow> (Some (''peer not found: '' @ target), [])
      | Some p \<Rightarrow> (let (cs, ok) = first_success run (map args (getEndpoints st p)) in (if ok then None else Some (failed @ target), cs)))"

definition Connect :: "runner_of \<Rightarrow> site \<Rightarrow> string \<Rightarrow> string list \<Rightarrow> string option \<times> string list list" where
  "Connect run st target extra = over_endpoints run st target (\<lambda>ep. ssh_args (ep_host ep) (ep_user ep) extra) ''failed to connect to ''"

definition ExecOnPeer :: "runner_of \<Rightarrow> site \<Rightarrow> string \<Rightarrow> string list \<Rightarrow> string option \<times> string list list" where
  "ExecOnPeer run st target command =
     over_endpoints run st target (\<lambda>ep. plain_options @ quiet @ [user_at ep] @ command) ''failed to execute on ''"

definition StreamOutput :: "runner_of \<Rightarrow> site \<Rightarrow> string \<Rightarrow> string list \<Rightarrow> string option \<times> string list list" where
  "StreamOutput run st target command =
     over_endpoints run st target (\<lambda>ep. plain_options @ quiet @ [ep_host ep] @ command) ''failed to execute on ''"

definition parsePath :: "string \<Rightarrow> string \<times> string" where
  "parsePath p = (case index_of '':'' p of Some i \<Rightarrow> if 0 < i then (take i p, drop (Suc i) p) else ('''', p) | None \<Rightarrow> ('''', p))"

definition CopyFiles :: "runner_of \<Rightarrow> site \<Rightarrow> string \<Rightarrow> string \<Rightarrow> string option \<times> string list list" where
  "CopyFiles run st src dst =
     (let (sp, spath) = parsePath src; (dp, dpath) = parsePath dst;
          vector = (\<lambda>ep. plain_options @ [''-r'']
             @ (if sp \<noteq> '''' then [ep_host ep @ '':'' @ spath, dst] else [src, ep_host ep @ '':'' @ dpath])) in
      if sp = '''' \<and> dp = '''' then (Some ''either source or destination must be a remote peer'', [])
      else (case findPeer st (if sp \<noteq> '''' then sp else dp) of None \<Rightarrow> (Some ''peer not found'', [])
        | Some p \<Rightarrow> (let (cs, ok) = first_success run (map vector (getEndpoints st p)) in (if ok then None else Some ''failed to copy'', cs))))"

definition OverlayStats :: "(string \<times> stats option) list \<Rightarrow> node list \<Rightarrow> node list" where
  "OverlayStats m ns =
     map (\<lambda>n. case map_of m (nd_name n) of Some (Some s) \<Rightarrow> n\<lparr>nd_stats := Some s\<rparr> | _ \<Rightarrow> n) ns"

section \<open>ExecCapture\<close>

record attempt =
  at_endpoint :: string
  at_user :: string
  at_path :: string
  at_error :: string

record capture =
  cp_success :: bool
  cp_target :: string
  cp_command :: string
  cp_endpoint :: string
  cp_stdout :: string
  cp_stderr :: string
  cp_exit :: int
  cp_ms :: int
  cp_attempts :: "attempt list"
  cp_fallback :: bool
  cp_error :: "(string \<times> string \<times> bool) option"  \<comment> \<open>code, message, retryable\<close>

definition capture_zero :: "string \<Rightarrow> string \<Rightarrow> capture" where
  "capture_zero target command = \<lparr>cp_success = False, cp_target = target, cp_command = command, cp_endpoint = '''', cp_stdout = '''',
     cp_stderr = '''', cp_exit = - 1, cp_ms = 0, cp_attempts = [], cp_fallback = False, cp_error = None\<rparr>"

definition attempt_of :: "endpoint \<Rightarrow> string \<Rightarrow> attempt" where
  "attempt_of ep err = \<lparr>at_endpoint = ep_host ep, at_user = ep_user ep, at_path = ep_desc ep, at_error = err\<rparr>"

definition capture_args :: "endpoint \<Rightarrow> string list" where
  "capture_args ep = plain_options @ quiet @ [user_at ep, ''sh'', ''-s'']"

text \<open>The loop: a result with its error, or nothing when every endpoint is used up.\<close>
fun capture_loop :: "runner_of \<Rightarrow> string \<Rightarrow> endpoint list \<Rightarrow> capture \<Rightarrow> capture \<times> string option option" where
  "capture_loop run limit [] c = (c, None)"
| "capture_loop run limit (ep # eps) c =
     (let r = run (capture_args ep) (cp_command c);
          c1 = c\<lparr>cp_ms := rn_ms r, cp_endpoint := ep_host ep, cp_stdout := rn_stdout r, cp_stderr := rn_stderr r,
                 cp_fallback := (cp_attempts c \<noteq> [])\<rparr>;
          tried = (\<lambda>e. c1\<lparr>cp_attempts := cp_attempts c @ [attempt_of ep e]\<rparr>) in
      case rn_end r of
        TimedOut \<Rightarrow> (let m = ''command timed out after '' @ limit in
          ((tried ''timeout'')\<lparr>cp_exit := 124, cp_error := Some (''timeout'', m, True)\<rparr>, Some (Some m)))
      | Exited code e \<Rightarrow>
          if code = 0 then ((tried '''')\<lparr>cp_success := True, cp_exit := 0\<rparr>, Some None)
          else ((tried e)\<lparr>cp_exit := code, cp_error := Some (''remote_exit_nonzero'', e, False)\<rparr>, Some (Some e))
      | RunFailed e \<Rightarrow> capture_loop run limit eps (tried e))"

text \<open>\<open>limit\<close> is the text of the time limit, \<open>spent\<close> the time when every endpoint is used up.\<close>
definition ExecCapture :: "runner_of \<Rightarrow> site \<Rightarrow> string \<Rightarrow> int \<Rightarrow> string \<Rightarrow> string \<Rightarrow> capture \<times> string option" where
  "ExecCapture run st limit spent target command =
     (let c = capture_zero target command in
      case findPeer st target of
        None \<Rightarrow> (let m = ''peer not found: '' @ target in (c\<lparr>cp_error := Some (''peer_not_found'', m, False)\<rparr>, Some m))
      | Some p \<Rightarrow>
          (case capture_loop run limit (getEndpoints st p) c of
             (c1, Some e) \<Rightarrow> (c1, e)
           | (c1, None) \<Rightarrow> (let m = ''failed to execute on '' @ target in
               (c1\<lparr>cp_ms := spent, cp_fallback := (1 < length (cp_attempts c1)), cp_error := Some (''endpoint_unreachable'', m, True)\<rparr>, Some m))))"

section \<open>Which endpoints are used\<close>

lemma first_success_calls:
  "fst (first_success run vs) = takeWhile (\<lambda>v. \<not> went_well (run v [])) vs @ take 1 (dropWhile (\<lambda>v. \<not> went_well (run v [])) vs)"
  "snd (first_success run vs) = list_ex (\<lambda>v. went_well (run v [])) vs"
  by (induction vs) (auto split: prod.splits)

text \<open>A command is run at one address of the peer after the other until it ends with status zero: one that
  fails by itself is run again at every address.\<close>
theorem failing_command_runs_everywhere:
  assumes "findPeer st target = Some p"
  shows "snd (ExecOnPeer run st target command) =
    (let vs = map (\<lambda>ep. plain_options @ quiet @ [user_at ep] @ command) (getEndpoints st p);
         bad = (\<lambda>v. \<not> went_well (run v [])) in takeWhile bad vs @ take 1 (dropWhile bad vs))"
  using assms by (simp add: ExecOnPeer_def over_endpoints_def Let_def split_beta first_success_calls)

text \<open>C32: the captured execution uses the first endpoint only, whenever \<^verbatim>\<open>ssh\<close> could be run there at all, and
  gives its output; and every exit status of \<^verbatim>\<open>ssh\<close>, 255 of a connection that could not be made among
  them, is taken for the status of the command: it is the exit code of the result, zero is success, any
  other is \<open>remote_exit_nonzero\<close> and not to be tried again.  A time-out is exit code 124.\<close>
theorem capture_never_falls_back:
  assumes "findPeer st target = Some p" "getEndpoints st p = ep # eps" "run (capture_args ep) command = r"
    and "\<forall>e. rn_end r \<noteq> RunFailed e" "ExecCapture run st limit spent target command = (c, err)"
  shows "map at_endpoint (cp_attempts c) = [ep_host ep] \<and> \<not> cp_fallback c \<and> cp_endpoint c = ep_host ep \<and>
    cp_stdout c = rn_stdout r \<and> cp_stderr c = rn_stderr r \<and> cp_ms c = rn_ms r \<and>
    (\<forall>code e. rn_end r = Exited code e \<longrightarrow>
       cp_exit c = code \<and> cp_success c = (code = 0) \<and>
       cp_error c = (if code = 0 then None else Some (''remote_exit_nonzero'', e, False)) \<and>
       err = (if code = 0 then None else Some e)) \<and>
    (rn_end r = TimedOut \<longrightarrow> cp_exit c = 124 \<and> \<not> cp_success c \<and> err = Some (''command timed out after '' @ limit))"
  using assms by (cases "rn_end r") (auto simp: ExecCapture_def capture_zero_def attempt_of_def Let_def split: if_splits)

section \<open>Examples\<close>

definition two_peer :: peer where
  "two_peer = \<lparr>pe_name = ''d1'', pe_id = '''', pe_vpn = ''10.0.0.1'', pe_lan = '''', pe_public = ''5.6.7.8'', pe_user = ''''\<rparr>"

definition two_ways :: site where
  "two_ways = \<lparr>st_peers = [two_peer], st_users = [], st_self = None, st_nodes = [], st_local = [], st_hostname = ''ctl'',
     st_parse_ip = (\<lambda>_. None)\<rparr>"

definition no_route :: runner_of where
  "no_route v inp = \<lparr>rn_end = Exited 255 ''exit status 255'', rn_stdout = '''', rn_stderr = ''ssh: connect to host'', rn_ms = 9\<rparr>"

lemma two_ways_peer: "findPeer two_ways ''d1'' = Some two_peer"
proof -
  have "peer_matches (to_lower ''d1'') two_peer" by code_simp
  then show ?thesis by (simp add: findPeer_def two_ways_def)
qed

lemma two_ways_hosts: "map ep_host (getEndpoints two_ways two_peer) = [''10.0.0.1'', ''5.6.7.8'']"
  by code_simp

lemma failing_command_runs_everywhere_witness: "length (snd (ExecOnPeer no_route two_ways ''d1'' [''false''])) = 2"
proof -
  have n: "length (getEndpoints two_ways two_peer) = 2" using arg_cong[OF two_ways_hosts, of length] by simp
  have w: "\<not> went_well (no_route v [])" for v by (simp add: went_well_def no_route_def)
  have t: "takeWhile (\<lambda>v. True) xs = xs" for xs :: "string list list" by (simp add: takeWhile_eq_all_conv)
  have d: "dropWhile (\<lambda>v. True) xs = []" for xs :: "string list list" by (simp add: dropWhile_eq_Nil_conv)
  have "length (let vs = map g (getEndpoints two_ways two_peer); bad = (\<lambda>v. \<not> went_well (no_route v []))
      in takeWhile bad vs @ take 1 (dropWhile bad vs)) = 2" for g using n by (simp add: Let_def w t d)
  then show ?thesis unfolding failing_command_runs_everywhere[OF two_ways_peer] .
qed

lemma capture_never_falls_back_witness:
  "\<exists>c err. ExecCapture no_route two_ways ''30s'' 9 ''d1'' ''uptime'' = (c, err) \<and>
     map at_endpoint (cp_attempts c) = [''10.0.0.1''] \<and> cp_exit c = 255 \<and> \<not> cp_success c"
proof -
  obtain ep eps where e: "getEndpoints two_ways two_peer = ep # eps" "ep_host ep = ''10.0.0.1''"
    using two_ways_hosts by (cases "getEndpoints two_ways two_peer") auto
  obtain c err where c: "ExecCapture no_route two_ways ''30s'' 9 ''d1'' ''uptime'' = (c, err)" by fastforce
  have r: "rn_end (no_route (capture_args ep) ''uptime'') = Exited 255 ''exit status 255''" by (simp add: no_route_def)
  then have "\<forall>e. rn_end (no_route (capture_args ep) ''uptime'') \<noteq> RunFailed e" by simp
  from capture_never_falls_back[OF two_ways_peer e(1) refl this c] r e(2) c show ?thesis by auto
qed

end
