(* ===== verification/Revocation.thy ===== *)
theory Revocation
  imports MuxSession Rpc
begin

text \<open>
  Live sessions and the configuration that changes under them: \<^verbatim>\<open>identity.go\<close>,
  \<^verbatim>\<open>configwrite.go\<close>, \<^verbatim>\<open>policy.go\<close>, \<^verbatim>\<open>mux.go\<close> and \<^verbatim>\<open>rpc.go\<close> together.  A
  connection keeps the key it authenticated with; the gates look the key up again for every command.
\<close>

lemma unknown_key_is_open:
  assumes "connIdentity w cn = (K, nm)" "\<not> IsAuthorizedKey (w_fs w) (w_home w) K"
  shows "enforceExecPolicy e cn cmd w = (None, w)" "policyPathDenied e cn p w = (False, w)"
    and "fst (KeyCapabilities (w_fs w) (w_home w) K) = None"
proof -
  note p = KeyPolicy_unknown[OF assms(2)]
  show "enforceExecPolicy e cn cmd w = (None, w)" using p assms(1) by (simp add: enforceExecPolicy_def Let_def)
  have "connPolicyName w cn = ''''" using p assms(1) by (simp add: connPolicyName_def Let_def)
  then show "policyPathDenied e cn p w = (False, w)" by (simp add: policyPathDenied_def)
  show "fst (KeyCapabilities (w_fs w) (w_home w) K) = None"
    using assms(2) by (auto simp: IsAuthorizedKey_def KeyCapabilities_def Let_def split: if_splits option.splits)
qed

lemma unknown_key_runs:
  assumes "connIdentity (sv_w s) cn = (K, nm)" "\<not> IsAuthorizedKey (sv_fs s) (w_home (sv_w s)) K"
  shows "sv_ran (snd (exec_gated e m cn cmd s)) = sv_ran s @ [cmd]"
    and "rpcAuthDenied e cn mth params s = (False, s)"
proof -
  note o = unknown_key_is_open[OF assms]
  show "sv_ran (snd (exec_gated e m cn cmd s)) = sv_ran s @ [cmd]"
    by (simp add: exec_gated_def gate_def o run_structured_def on_w_def split: prod.split)
  show "rpcAuthDenied e cn mth params s = (False, s)"
    using assms(1) by (simp add: rpcAuthDenied_def Let_def o gate_def)
qed

lemma revoked_unknown:
  assumes "is_word K" "RevokeKey home K f = ((True, None), f')"
    and "authorizedKeysPath home \<noteq> ''/etc/vssh/authorized_keys''"
    and "scan_files (key_line K) f [''/etc/vssh/authorized_keys''] = None"
  shows "\<not> IsAuthorizedKey f' home K"
  using RevokeKey_caps[OF assms(1,1) _ assms(3), of f] assms(2,4) by (simp add: IsAuthorizedKey_def)

text \<open>C4: Revoking a key lifts its policy from the sessions it has open: once the line is gone, every
  command of a multiplexed session of that key runs, every path is open and no RPC method is
  refused, whatever the policy of the line allowed.\<close>
theorem revocation_lifts_policy:
  assumes "connIdentity (sv_w s) cn = (K, nm)" "is_word K"
    and "RevokeKey (w_home (sv_w s)) K (sv_fs s) = ((True, None), f')"
    and "authorizedKeysPath (w_home (sv_w s)) \<noteq> ''/etc/vssh/authorized_keys''"
    and "scan_files (key_line K) (sv_fs s) [''/etc/vssh/authorized_keys''] = None"
  shows "sv_ran (snd (exec_gated e m cn cmd (set_fs f' s))) = sv_ran s @ [cmd] \<and>
    fst (policyPathDenied e cn p (sv_w (set_fs f' s))) = False \<and>
    fst (rpcAuthDenied e cn mth params (set_fs f' s)) = False"
proof -
  let ?s = "set_fs f' s"
  have i: "connIdentity (sv_w ?s) cn = (K, nm)" "w_home (sv_w ?s) = w_home (sv_w s)" "sv_fs ?s = f'" "sv_ran ?s = sv_ran s"
    using assms(1) by (cases cn; simp add: set_fs_def on_w_def connIdentity_def split: option.splits)+
  have u: "\<not> IsAuthorizedKey (sv_fs ?s) (w_home (sv_w ?s)) K" unfolding i by (rule revoked_unknown[OF assms(2-5)])
  show ?thesis using unknown_key_is_open(2)[OF i(1) u] unknown_key_runs[OF i(1) u] i(4) by simp
qed

text \<open>The key K may run \<^verbatim>\<open>uptime\<close> and nothing else; after its revocation it runs anything.\<close>
lemma revocation_lifts_policy_witness:
  "\<exists>f'. RevokeKey ''/root'' ''K'' (w_fs (tag_world ''ro'' (Some ro_json))) = ((True, None), f') \<and>
     sv_ran (snd (exec_gated env0 machine0 (Some 7) ''reboot'' (set_fs f' (srv_of (tag_world ''ro'' (Some ro_json)))))) = [''reboot'']"
proof -
  let ?w = "tag_world ''ro'' (Some ro_json)"
  have rd: "read_file (w_fs ?w) ''/root/.vssh/authorized_keys'' = Inr (''K policy=ro'' @ [NL])"
    "read_file (w_fs ?w) ''/etc/vssh/authorized_keys'' = Inl ENotExist"
    by (simp_all add: tag_world_def read_file_def put_file_def empty_fs_def)
  have a: "authorizedKeysPath ''/root'' = ''/root/.vssh/authorized_keys''" by code_simp
  have t: "trim_space ''K'' = ''K''" "split_on NL (''K policy=ro'' @ [NL]) = [''K policy=ro'', '''']"
    "line_of_key ''K'' ''K policy=ro''" "\<not> line_of_key ''K'' ''''" by code_simp+
  have wr: "fs_wrerr (w_fs ?w) p = None" "fs_wrerr (put_file q d (w_fs ?w)) p = None" for p q d
    by (simp_all add: tag_world_def put_file_def empty_fs_def)
  obtain f' where r: "RevokeKey ''/root'' ''K'' (w_fs ?w) = ((True, None), f')"
    unfolding RevokeKey_def Let_def t(1) a rd by (simp add: t write_file_def wr)
  have i: "connIdentity (sv_w (srv_of ?w)) (Some 7) = (''K'', '''')" "is_word ''K''" by (simp_all add: is_word_def is_space_def)
  show ?thesis
    using r a rd revocation_lifts_policy[where s = "srv_of ?w" and nm = "''''", OF i, of f']
    by (intro exI[of _ f']) (simp add: scan_files_def)
qed

end
