(* ===== verification/Frames.thy ===== *)
theory Frames
  imports FileTransfer "HOL-Library.Word"
begin

text \<open>
  The byte formats of the tunnels: the UDP frames of \<^verbatim>\<open>internal/server/fmux.go\<close> and the SOCKS5
  requests and datagrams of \<^verbatim>\<open>internal/server/forward.go\<close>.  Lengths of frames are 16-bit words and
  wrap as they do in the code; name resolution is an argument.
\<close>

unbundle bit_operations_syntax

section \<open>16-bit numbers\<close>

definition put16 :: "16 word \<Rightarrow> bytes" where
  "put16 v = [char_of (unat (drop_bit 8 v)), char_of (unat v)]"

definition get16 :: "char \<Rightarrow> char \<Rightarrow> 16 word" where
  "get16 a b = of_nat (of_char b) OR push_bit 8 (of_nat (of_char a))"

lemma low_byte: "of_nat (of_char (char_of (unat w) :: char)) = take_bit 8 (w :: 16 word)"
proof -
  have "of_nat (of_char (char_of (unat w) :: char)) = (of_nat (take_bit 8 (unat w)) :: 16 word)"
    by (simp add: take_bit_eq_mod)
  also have "\<dots> = take_bit 8 w" by (simp flip: take_bit_of_nat)
  finally show ?thesis .
qed

lemma get16_put16: "get16 (char_of (unat (drop_bit 8 v))) (char_of (unat v)) = v"
  unfolding get16_def low_byte by (rule bit_word_eqI) (auto simp: bit_simps)

lemma put16_length [simp]: "length (put16 v) = 2"
  by (simp add: put16_def)

section \<open>UDP frames\<close>

text \<open>An address as \<^verbatim>\<open>net.UDPAddr\<close>: 4 or 16 bytes (or none), and a port.\<close>
record udp_addr =
  ua_ip :: bytes
  ua_port :: int

definition v4_prefix :: bytes where
  "v4_prefix = replicate 10 (CHR 0x00) @ replicate 2 (CHR 0xFF)"

definition to4 :: "bytes \<Rightarrow> bytes option" where
  "to4 ip =
     (if length ip = 4 then Some ip
      else if length ip = 16 \<and> take 12 ip = v4_prefix then Some (drop 12 ip) else None)"

definition to16 :: "bytes \<Rightarrow> bytes" where
  "to16 ip = (if length ip = 4 then v4_prefix @ ip else if length ip = 16 then ip else [])"

definition addr_bytes :: "udp_addr \<Rightarrow> bytes" where
  "addr_bytes a =
     (case to4 (ua_ip a) of Some ip \<Rightarrow> CHR 0x01 # ip | None \<Rightarrow> CHR 0x04 # to16 (ua_ip a))
     @ [char_of (nat (ua_port a div 256 mod 256)), char_of (nat (ua_port a mod 256))]"

definition framed :: "bytes \<Rightarrow> bytes" where
  "framed payload = put16 (of_nat (length payload)) @ payload"

definition packUDPFrame :: "udp_addr \<Rightarrow> bytes \<Rightarrow> bytes" where
  "packUDPFrame a d = framed (addr_bytes a @ d)"

text \<open>The first bytes of a stream, None when it ends before.\<close>
definition read_full :: "nat \<Rightarrow> bytes \<Rightarrow> (bytes \<times> bytes) option" where
  "read_full n s = (if n \<le> length s then Some (take n s, drop n s) else None)"

definition byte_at :: "bytes \<Rightarrow> nat \<Rightarrow> nat" where "byte_at p i = of_char (p ! i)"

text \<open>Where the port stands in a payload: behind the address of its type.  Inl is the error.\<close>
definition frame_addr :: "bytes \<Rightarrow> string + (bytes \<times> string \<times> nat)" where
  "frame_addr p =
     (let t = byte_at p 0; l = length p in
      if t = 1 then (if l < 7 then Inl ''bad ipv4 frame'' else Inr (take 4 (drop 1 p), '''', 5))
      else if t = 4 then (if l < 19 then Inl ''bad ipv6 frame'' else Inr (take 16 (drop 1 p), '''', 17))
      else if t = 3 then
        (let dl = byte_at p 1 in
         if l < 2 + dl + 2 then Inl ''bad domain frame'' else Inr ([], take dl (drop 2 p), 2 + dl))
      else Inl (''bad atyp 0x'' @ hex_encode [hd p]))"

text \<open>One frame of the stream and what follows it; Inl ends the relay.\<close>
definition readUDPFrame :: "(string \<Rightarrow> int \<Rightarrow> string + udp_addr) \<Rightarrow> bytes \<Rightarrow> string + ((udp_addr \<times> bytes) \<times> bytes)" where
  "readUDPFrame resolve s =
     (case read_full 2 s of None \<Rightarrow> Inl ''EOF''
      | Some (lb, s1) \<Rightarrow>
          let l = unat (get16 (lb ! 0) (lb ! 1)) in
          if l < 7 then Inl ''short udp frame''
          else (case read_full l s1 of None \<Rightarrow> Inl ''unexpected EOF''
            | Some (p, s2) \<Rightarrow>
                (case frame_addr p of Inl er \<Rightarrow> Inl er
                 | Inr (ip, host, i) \<Rightarrow>
                     let port = int (byte_at p i) * 256 + int (byte_at p (i + 1));
                         d = drop (i + 2) p
                     in if host \<noteq> '''' then
                          (case resolve host port of Inl er \<Rightarrow> Inl er | Inr a \<Rightarrow> Inr ((a, d), s2))
                        else Inr ((\<lparr>ua_ip = ip, ua_port = port\<rparr>, d), s2))))"

section \<open>SOCKS5\<close>

text \<open>\<^verbatim>\<open>net.IP.String\<close>: dotted for an IPv4 address, also a mapped one; else groups in hexadecimal,
  the first longest run of at least two zero groups left out.\<close>
definition dotted :: "bytes \<Rightarrow> string" where
  "dotted ip = join ''.'' (map (\<lambda>c. show_nat (of_char c)) ip)"

definition hex_group :: "nat \<Rightarrow> string" where
  "hex_group n =
     (let t = dropWhile (\<lambda>c. c = CHR ''0'') (hex_encode [char_of (n div 256), char_of (n mod 256)])
      in if t = [] then ''0'' else t)"

fun groups_of :: "bytes \<Rightarrow> nat list" where
  "groups_of (a # b # s) = (of_char a * 256 + of_char b) # groups_of s"
| "groups_of _ = []"

definition zero_run :: "nat list \<Rightarrow> nat \<Rightarrow> nat" where
  "zero_run gs i = length (takeWhile (\<lambda>g. g = 0) (drop i gs))"

definition best_run :: "nat list \<Rightarrow> nat \<times> nat" where
  "best_run gs =
     foldl (\<lambda>(i, n) j. if n < zero_run gs j then (j, zero_run gs j) else (i, n)) (0, 1) [0..<length gs]"

definition ip_string :: "bytes \<Rightarrow> string" where
  "ip_string ip =
     (case to4 ip of Some q \<Rightarrow> dotted q
      | None \<Rightarrow>
          let gs = groups_of ip; (i, n) = best_run gs; show = (\<lambda>xs. join '':'' (map hex_group xs)) in
          if n < 2 then show gs else show (take i gs) @ ''::'' @ show (drop (i + n) gs))"

definition socks_reply :: "nat \<Rightarrow> bytes" where
  "socks_reply code = map char_of [5, code, 0, 1, 0, 0, 0, 0, 0, 0]"

datatype socks_request =
    SocksDrop                            \<comment> \<open>closed without an answer\<close>
  | SocksRefuse bytes                    \<comment> \<open>answered and closed\<close>
  | SocksConnect string int bytes        \<comment> \<open>destination, port and what the application sent after\<close>
  | SocksAssociate bytes

text \<open>The address of a request; a short read leaves zero bytes in the buffer, and the read of the port
  behind it fails then.\<close>
definition socks_addr :: "nat \<Rightarrow> bytes \<Rightarrow> (string \<times> bytes) option" where
  "socks_addr t s =
     (let fixed = (\<lambda>n. (ip_string (take n s @ replicate (n - length s) (CHR 0x00)), drop n s)) in
      if t = 1 then Some (fixed 4)
      else if t = 4 then Some (fixed 16)
      else if t = 3 then
        (let n = (case s of [] \<Rightarrow> 0 | c # _ \<Rightarrow> of_char c)
         in Some (take n (tl s) @ replicate (n - length (tl s)) (CHR 0x00), drop n (tl s)))
      else None)"

text \<open>What the proxy does with the bytes of a new connection, the greeting answered on the way.\<close>
definition socks_parse :: "bytes \<Rightarrow> bytes \<times> socks_request" where
  "socks_parse s =
     (case s of
        v # nm # s1 \<Rightarrow>
          if of_char v \<noteq> (5 :: nat) \<or> length s1 < of_char nm then ([], SocksDrop)
          else
            let hello = map char_of [5, 0 :: nat] in
            (case read_full 4 (drop (of_char nm) s1) of None \<Rightarrow> (hello, SocksDrop)
             | Some (h, s2) \<Rightarrow>
                 (case socks_addr (byte_at h 3) s2 of
                    None \<Rightarrow> (hello, SocksRefuse (socks_reply 8))
                  | Some (dst, s3) \<Rightarrow>
                      (case read_full 2 s3 of None \<Rightarrow> (hello, SocksDrop)
                       | Some (pb, s4) \<Rightarrow>
                           let port = int (byte_at pb 0) * 256 + int (byte_at pb 1) in
                           (hello,
                            if byte_at h 1 = 1 then SocksConnect dst port s4
                            else if byte_at h 1 = 3 then SocksAssociate s4
                            else SocksRefuse (socks_reply 7)))))
      | _ \<Rightarrow> ([], SocksDrop))"

text \<open>A datagram of the application as a frame for the daemon, None when it is dropped.\<close>
definition socks_udp_frame :: "bytes \<Rightarrow> bytes option" where
  "socks_udp_frame b =
     (if length b < 5 \<or> b ! 2 \<noteq> CHR 0x00 then None else Some (framed (drop 3 b)))"

text \<open>A frame of the daemon as a datagram for the application, None when the stream ends.\<close>
definition socks_udp_packet :: "bytes \<Rightarrow> (bytes \<times> bytes) option" where
  "socks_udp_packet s =
     (case read_full 2 s of None \<Rightarrow> None
      | Some (lb, s1) \<Rightarrow>
          (case read_full (unat (get16 (lb ! 0) (lb ! 1))) s1 of None \<Rightarrow> None
           | Some (p, s2) \<Rightarrow> Some (replicate 3 (CHR 0x00) @ p, s2)))"

text \<open>The reply that tells the application where the relay listens.\<close>
definition socks_bound :: "udp_addr \<Rightarrow> bytes" where
  "socks_bound a = map char_of [5, 0, 0 :: nat] @ addr_bytes a"

section \<open>Frames read back\<close>

lemma read_full_append [simp]: "length p = n \<Longrightarrow> read_full n (p @ r) = Some (p, r)"
  by (simp add: read_full_def)

lemma read_frame_head:
  "read_full 2 (framed p @ r) = Some (put16 (of_nat (length p)), p @ r)"
  by (simp add: framed_def)

lemma put16_get: "get16 (put16 v ! 0) (put16 v ! 1) = v"
  by (simp add: put16_def get16_put16)

lemma frame_length: "length p \<le> 65535 \<Longrightarrow> unat (get16 (put16 (of_nat (length p)) ! 0) (put16 (of_nat (length p)) ! 1)) = length p"
  unfolding put16_get by (simp add: unat_of_nat)

definition frame_result :: "(string \<Rightarrow> int \<Rightarrow> string + udp_addr) \<Rightarrow> bytes \<Rightarrow> string + (udp_addr \<times> bytes)" where
  "frame_result resolve p =
     (if length p < 7 then Inl ''short udp frame''
      else (case frame_addr p of Inl er \<Rightarrow> Inl er
        | Inr (ip, host, i) \<Rightarrow>
            let port = int (byte_at p i) * 256 + int (byte_at p (i + 1)); d = drop (i + 2) p in
            if host \<noteq> '''' then (case resolve host port of Inl er \<Rightarrow> Inl er | Inr a \<Rightarrow> Inr (a, d))
            else Inr (\<lparr>ua_ip = ip, ua_port = port\<rparr>, d)))"

lemma readUDPFrame_framed:
  assumes "length p \<le> 65535"
  shows "readUDPFrame resolve (framed p @ r) =
    (case frame_result resolve p of Inl er \<Rightarrow> Inl er | Inr x \<Rightarrow> Inr (x, r))"
  unfolding readUDPFrame_def read_frame_head option.case prod.case Let_def frame_length[OF assms] frame_result_def
  by (simp split: sum.split prod.split)

text \<open>A payload that does not fit: the length written is its remainder.\<close>
lemma framed_wraps: "unat (get16 (framed p ! 0) (framed p ! 1)) = length p mod 65536"
proof -
  have "framed p ! 0 = put16 (of_nat (length p)) ! 0" "framed p ! 1 = put16 (of_nat (length p)) ! 1"
    by (simp_all add: framed_def nth_append)
  then show ?thesis by (simp only: put16_get) (simp add: unat_of_nat)
qed

lemma port_bytes:
  "0 \<le> p \<Longrightarrow> p \<le> 65535 \<Longrightarrow>
    int (of_char (char_of (nat (p div 256 mod 256)) :: char)) * 256 + int (of_char (char_of (nat (p mod 256)) :: char)) = p"
proof -
  assume p: "0 \<le> p" "p \<le> 65535"
  have a: "p div 256 < 256" "0 \<le> p div 256" using p by auto
  have "(of_char (char_of (nat (p div 256 mod 256)) :: char) :: nat) = nat (p div 256)"
    using a by simp
  moreover have "(of_char (char_of (nat (p mod 256)) :: char) :: nat) = nat (p mod 256)" by (simp add: nat_mod_distrib)
  ultimately show ?thesis using a p by (simp add: mult.commute)
qed

lemma to4_length: "to4 ip = Some q \<Longrightarrow> length q = 4"
  by (auto simp: to4_def split: if_splits)

lemma frame_result_addr:
  assumes "length (ua_ip a) \<in> {4, 16}" "0 \<le> ua_port a" "ua_port a \<le> 65535"
  shows "frame_result resolve (addr_bytes a @ d) =
    Inr (\<lparr>ua_ip = (case to4 (ua_ip a) of Some q \<Rightarrow> q | None \<Rightarrow> ua_ip a), ua_port = ua_port a\<rparr>, d)"
proof -
  let ?hi = "char_of (nat (ua_port a div 256 mod 256)) :: char" and ?lo = "char_of (nat (ua_port a mod 256)) :: char"
  note port = port_bytes[OF assms(2,3)]
  have gen: "frame_result resolve ((t # ip @ [?hi, ?lo]) @ d) = Inr (\<lparr>ua_ip = ip, ua_port = ua_port a\<rparr>, d)"
    if "(t = CHR 0x01 \<and> length ip = 4) \<or> (t = CHR 0x04 \<and> length ip = 16)" for t ip
  proof -
    have b: "byte_at ((t # ip @ [?hi, ?lo]) @ d) (length ip + 1) = of_char ?hi"
      "byte_at ((t # ip @ [?hi, ?lo]) @ d) (length ip + 2) = of_char ?lo"
      by (simp_all add: byte_at_def nth_append)
    have f: "frame_addr ((t # ip @ [?hi, ?lo]) @ d) = Inr (ip, '''', length ip + 1)"
      using that by (auto simp: frame_addr_def byte_at_def)
    have dr: "drop (length ip + 1 + 2) ((t # ip @ [?hi, ?lo]) @ d) = d" by simp
    have n: "\<not> length ((t # ip @ [?hi, ?lo]) @ d) < 7" using that by auto
    show ?thesis unfolding frame_result_def if_not_P[OF n] f Let_def sum.case prod.case dr
      using b port by simp
  qed
  show ?thesis
  proof (cases "to4 (ua_ip a)")
    case (Some q)
    with gen[of "CHR 0x01" q] to4_length[OF Some] show ?thesis by (simp add: addr_bytes_def)
  next
    case None
    then have l: "length (ua_ip a) = 16" using assms(1) by (auto simp: to4_def split: if_splits)
    with None gen[of "CHR 0x04" "ua_ip a"] show ?thesis by (simp add: addr_bytes_def to16_def)
  qed
qed

text \<open>C37: A datagram packed with its address and sent over a stream is read back with the address (an
  IPv4 address in its short form) and the data, and what follows on the stream stays.\<close>
theorem udp_frame_roundtrip:
  assumes "length (ua_ip a) \<in> {4, 16}" "0 \<le> ua_port a" "ua_port a \<le> 65535"
    and "length (addr_bytes a @ d) \<le> 65535"
  shows "readUDPFrame resolve (packUDPFrame a d @ rest) =
    Inr ((\<lparr>ua_ip = (case to4 (ua_ip a) of Some q \<Rightarrow> q | None \<Rightarrow> ua_ip a), ua_port = ua_port a\<rparr>, d), rest)"
  unfolding packUDPFrame_def readUDPFrame_framed[OF assms(4)] frame_result_addr[OF assms(1-3)] by simp

lemma udp_frame_roundtrip_witness:
  "readUDPFrame (\<lambda>_ _. Inl '''') (packUDPFrame \<lparr>ua_ip = ''abcd'', ua_port = 53\<rparr> ''q'' @ ''next'') =
    Inr ((\<lparr>ua_ip = ''abcd'', ua_port = 53\<rparr>, ''q''), ''next'')"
  using udp_frame_roundtrip[of "\<lparr>ua_ip = ''abcd'', ua_port = 53\<rparr>" "''q''"]
  by (simp add: addr_bytes_def to4_def)

text \<open>A well-formed datagram of a SOCKS application reaches the daemon with its destination and its
  data; one whose payload is shorter than any address ends the relay of the association instead of
  being dropped.\<close>
theorem socks_datagram_relay:
  assumes "length b \<le> 65535" "5 \<le> length b" "b ! 2 = CHR 0x00"
  shows "\<exists>fr. socks_udp_frame b = Some fr \<and>
    (length b < 10 \<longrightarrow> readUDPFrame resolve (fr @ rest) = Inl ''short udp frame'') \<and>
    (\<forall>a d. drop 3 b = addr_bytes a @ d \<and> length (ua_ip a) = 4 \<and> 0 \<le> ua_port a \<and> ua_port a \<le> 65535 \<longrightarrow>
       readUDPFrame resolve (fr @ rest) = Inr ((a, d), rest))"
proof (intro exI conjI allI impI)
  show "socks_udp_frame b = Some (framed (drop 3 b))" using assms by (simp add: socks_udp_frame_def)
  have l: "length (drop 3 b) \<le> 65535" using assms(1) by simp
  show "readUDPFrame resolve (framed (drop 3 b) @ rest) = Inl ''short udp frame''" if "length b < 10"
  proof -
    have "length (drop 3 b) < 7" using that assms(2) by simp
    then have "frame_result resolve (drop 3 b) = Inl ''short udp frame''" unfolding frame_result_def by (rule if_P)
    then show ?thesis unfolding readUDPFrame_framed[OF l] by simp
  qed
  fix a d
  assume a: "drop 3 b = addr_bytes a @ d \<and> length (ua_ip a) = 4 \<and> 0 \<le> ua_port a \<and> ua_port a \<le> 65535"
  then have t: "to4 (ua_ip a) = Some (ua_ip a)" by (simp add: to4_def)
  have "frame_result resolve (addr_bytes a @ d) = Inr (a, d)"
    using frame_result_addr[of a resolve d] a t by simp
  then show "readUDPFrame resolve (framed (drop 3 b) @ rest) = Inr ((a, d), rest)"
    unfolding readUDPFrame_framed[OF l] using a by simp
qed

lemma socks_datagram_relay_witness:
  "\<exists>fr. socks_udp_frame (replicate 6 (CHR 0x00)) = Some fr \<and>
     readUDPFrame (\<lambda>_ _. Inl '''') (fr @ '''') = Inl ''short udp frame''"
proof -
  obtain b :: bytes where b: "b = replicate 6 (CHR 0x00)" by simp
  have "length b \<le> 65535" "5 \<le> length b" "b ! 2 = CHR 0x00" "length b < 10" by (simp_all add: b)
  from socks_datagram_relay[OF this(1-3), of "\<lambda>_ _. Inl ''''" "''''"] this(4)
  show ?thesis unfolding b by blast
qed

end
