(* ===== verification/Tunnels.thy ===== *)
theory Tunnels
  imports Frames
begin

text \<open>
  \<^verbatim>\<open>internal/server/forward.go\<close> and the session part of \<^verbatim>\<open>internal/server/fmux.go\<close>: forward and
  reverse tunnels, the streams of a multiplexed tunnel session, the client that keeps one such
  session, and the pairing of the connections a reverse listener accepts with the data connections
  that claim them.  Dialling and listening are arguments; the copying of bytes passes them through.
\<close>

section \<open>The daemon's side\<close>

record tunnel_net =
  tn_dial :: "string \<Rightarrow> string \<Rightarrow> string option"      \<comment> \<open>the error of dialling host and port\<close>
  tn_listen :: "string \<Rightarrow> string \<Rightarrow> string option"
  tn_udp :: "string option"

text \<open>What a tunnel connection becomes.\<close>
datatype tunnel = Closed | Splice string string | UdpRelay | Listening string string | MuxServer

definition valid_port :: "string \<Rightarrow> int option" where
  "valid_port p = (case go_atoi p of (v, ok) \<Rightarrow> if ok \<and> 0 < v \<and> v \<le> 65535 then Some v else None)"

definition host_port :: "string \<Rightarrow> int \<Rightarrow> string" where
  "host_port h p = ''FWD '' @ h @ '':'' @ show_int p"

definition failed_result :: "string \<Rightarrow> exec_result" where
  "failed_result er = exec_zero\<lparr>er_exit := -1, er_error := er\<rparr>"

definition ok_result :: exec_result where "ok_result = exec_zero\<lparr>er_success := True\<rparr>"

definition HandleForward :: "denv \<Rightarrow> tunnel_net \<Rightarrow> conn option \<Rightarrow> string \<Rightarrow> pworld \<Rightarrow> tunnel \<times> pworld" where
  "HandleForward e net cn cmd w =
     (case go_fields (trim_space cmd) of
        [_, host, portStr] \<Rightarrow>
          (case valid_port portStr of
             None \<Rightarrow> (Closed, writeFwdErr cn (''invalid port: '' @ portStr) ''bad_request'' w)
           | Some port \<Rightarrow>
               (case policyFwdDenied e cn host port w of
                  (True, w1) \<Rightarrow> (Closed, w1)
                | (False, w1) \<Rightarrow>
                    (case tn_dial net host portStr of
                       Some er \<Rightarrow>
                         (Closed, auditLog (de_sha e) cn (host_port host port) (failed_result er)
                            (writeFwdErr cn er ''unreachable'' w1))
                     | None \<Rightarrow>
                         (Splice host portStr, auditLog (de_sha e) cn (host_port host port) ok_result
                            (send cn (''FWD_OK'' @ [NL]) w1)))))
      | _ \<Rightarrow> (Closed, writeFwdErr cn ''usage: FWD <host> <port>'' ''bad_request'' w))"

definition HandleForwardMux :: "denv \<Rightarrow> conn option \<Rightarrow> pworld \<Rightarrow> tunnel \<times> pworld" where
  "HandleForwardMux e cn w =
     (case policyBlockUnscoped e cn ''FMUX'' w of
        (True, w1) \<Rightarrow> (Closed, w1)
      | (False, w1) \<Rightarrow> (MuxServer, send cn (''FMUX_OK'' @ [NL]) w1))"

text \<open>A stream \<open>st\<close> of the session of the control connection \<open>ctl\<close>, by its header line.\<close>
definition fmux_fwd :: "denv \<Rightarrow> tunnel_net \<Rightarrow> conn option \<Rightarrow> conn option \<Rightarrow> string \<Rightarrow> string \<Rightarrow> pworld \<Rightarrow> tunnel \<times> pworld" where
  "fmux_fwd e net ctl st host portStr w =
     (case valid_port portStr of
        None \<Rightarrow> (Closed, writeFwdErr st (''invalid port: '' @ portStr) ''bad_request'' w)
      | Some port \<Rightarrow>
          let what = host_port host port @ '' (fmux)'' in
          (case tn_dial net host portStr of
             Some er \<Rightarrow> (Closed, auditLog (de_sha e) ctl what (failed_result er) (writeFwdErr st er ''unreachable'' w))
           | None \<Rightarrow> (Splice host portStr, auditLog (de_sha e) ctl what ok_result (send st (''FWD_OK'' @ [NL]) w))))"

definition fmuxServeStream ::
  "denv \<Rightarrow> tunnel_net \<Rightarrow> conn option \<Rightarrow> conn option \<Rightarrow> string option \<Rightarrow> pworld \<Rightarrow> tunnel \<times> pworld" where
  "fmuxServeStream e net ctl st hdr w =
     (case hdr of None \<Rightarrow> (Closed, w)
      | Some h \<Rightarrow>
          (case go_fields (trim_space h) of
             [] \<Rightarrow> (Closed, writeFwdErr st ''empty fmux stream header'' ''bad_request'' w)
           | verb # args \<Rightarrow>
               if verb = ''FWD'' then
                 (case args of [host, portStr] \<Rightarrow> fmux_fwd e net ctl st host portStr w
                  | _ \<Rightarrow> (Closed, writeFwdErr st ''usage: FWD <host> <port>'' ''bad_request'' w))
               else if verb = ''UDP'' then
                 (case tn_udp net of
                    Some er \<Rightarrow> (Closed, writeFwdErr st er ''unreachable'' w)
                  | None \<Rightarrow> (UdpRelay, auditLog (de_sha e) ctl ''UDPA (fmux)'' ok_result (send st (''UDP_OK'' @ [NL]) w)))
               else if verb = ''RFWD'' then
                 (case args of
                    [addr, port] \<Rightarrow>
                      (case tn_listen net addr port of
                         Some er \<Rightarrow> (Closed, writeFwdErr st er ''unreachable'' w)
                       | None \<Rightarrow> (Listening addr port,
                           auditLog (de_sha e) ctl (''RFWD '' @ addr @ '':'' @ port @ '' (fmux)'') ok_result
                             (send st (''RFWD_OK'' @ [NL]) w)))
                  | _ \<Rightarrow> (Closed, writeFwdErr st ''usage: RFWD <bindaddr> <bindport>'' ''bad_request'' w))
               else (Closed, writeFwdErr st ''unknown fmux stream header'' ''bad_request'' w)))"

section \<open>Reverse tunnels\<close>

text \<open>\<open>revPending\<close>, and what becomes of the accepted connections: with whom each is spliced, and
  which were closed unclaimed.\<close>
record rev =
  rv_pending :: "string \<Rightarrow> conn option"
  rv_spliced :: "(conn \<times> conn) list"
  rv_closed :: "conn list"
  rv_seen :: "conn set"

definition rev0 :: rev where
  "rev0 = \<lparr>rv_pending = (\<lambda>_. None), rv_spliced = [], rv_closed = [], rv_seen = {}\<rparr>"

definition HandleReverseForward :: "denv \<Rightarrow> tunnel_net \<Rightarrow> conn option \<Rightarrow> string \<Rightarrow> pworld \<Rightarrow> tunnel \<times> pworld" where
  "HandleReverseForward e net cn cmd w =
     (case policyBlockUnscoped e cn ''RFWD'' w of
        (True, w1) \<Rightarrow> (Closed, w1)
      | (False, w1) \<Rightarrow>
          (case go_fields (trim_space cmd) of
             [_, addr, port] \<Rightarrow>
               (case tn_listen net addr port of
                  Some er \<Rightarrow> (Closed, writeFwdErr cn er ''unreachable'' w1)
                | None \<Rightarrow> (Listening addr port,
                    auditLog (de_sha e) cn (''RFWD '' @ addr @ '':'' @ port) ok_result (send cn (''RFWD_OK'' @ [NL]) w1)))
           | _ \<Rightarrow> (Closed, writeFwdErr cn ''usage: RFWD <bindaddr> <bindport>'' ''bad_request'' w1)))"

text \<open>A new connection under an id; it is announced on the control connection, and dropped when that
  write fails.\<close>
definition rev_accept :: "string \<Rightarrow> conn \<Rightarrow> rev \<Rightarrow> rev" where
  "rev_accept k c r = r\<lparr>rv_pending := (rv_pending r)(k \<mapsto> c), rv_seen := insert c (rv_seen r)\<rparr>"

definition rev_announce_failed :: "string \<Rightarrow> conn \<Rightarrow> rev \<Rightarrow> rev" where
  "rev_announce_failed k c r = r\<lparr>rv_pending := (rv_pending r)(k := None), rv_closed := c # rv_closed r\<rparr>"

text \<open>The reaper of an accept, 15 seconds later.\<close>
definition rev_reap :: "string \<Rightarrow> conn \<Rightarrow> rev \<Rightarrow> rev" where
  "rev_reap k c r =
     (if rv_pending r k = Some c then r\<lparr>rv_pending := (rv_pending r)(k := None), rv_closed := c # rv_closed r\<rparr> else r)"

definition rev_claim :: "string \<Rightarrow> rev \<Rightarrow> conn option \<times> rev" where
  "rev_claim k r = (rv_pending r k, r\<lparr>rv_pending := (rv_pending r)(k := None)\<rparr>)"

definition HandleReverseData :: "denv \<Rightarrow> conn \<Rightarrow> string \<Rightarrow> rev \<times> pworld \<Rightarrow> rev \<times> pworld" where
  "HandleReverseData e d cmd rw =
     (let (r, w) = rw in
      case policyBlockUnscoped e (Some d) ''RDAT'' w of
        (True, w1) \<Rightarrow> (r, w1)
      | (False, w1) \<Rightarrow>
          (case go_fields (trim_space cmd) of
             [_, k] \<Rightarrow>
               (case rev_claim k r of
                  (None, r1) \<Rightarrow> (r1, writeFwdErr (Some d) ''no such pending connection'' ''bad_request'' w1)
                | (Some c, r1) \<Rightarrow> (r1\<lparr>rv_spliced := (d, c) # rv_spliced r1\<rparr>, send (Some d) (''RDATA_OK'' @ [NL]) w1))
           | _ \<Rightarrow> (r, writeFwdErr (Some d) ''usage: RDATA <id>'' ''bad_request'' w1)))"

text \<open>The listeners, the reapers and the data connections, in any order.  Ids may repeat; the
  connection a listener accepts is a new one.  An announcement that fails has told nobody the id, so
  that connection is not yet claimed; it may be overwritten by another one under the same id.\<close>
inductive rev_step :: "denv \<Rightarrow> rev \<times> pworld \<Rightarrow> rev \<times> pworld \<Rightarrow> bool" for e where
  accepted: "c \<notin> rv_seen r \<Longrightarrow> rev_step e (r, w) (rev_accept k c r, w)"
| announce_failed: "c \<in> rv_seen r \<Longrightarrow> c \<notin> snd ` set (rv_spliced r) \<Longrightarrow> c \<notin> set (rv_closed r) \<Longrightarrow>
    (\<And>k'. rv_pending r k' = Some c \<Longrightarrow> k' = k) \<Longrightarrow> rev_step e (r, w) (rev_announce_failed k c r, w)"
| reaped: "rev_step e (r, w) (rev_reap k c r, w)"
| data_conn: "rev_step e (r, w) (HandleReverseData e d cmd (r, w))"

section \<open>The invariant\<close>

text \<open>Every accepted connection is in one place: pending under one id, spliced with one data
  connection, closed, or (after a collision of ids) forgotten.\<close>
definition rev_ok :: "rev \<Rightarrow> bool" where
  "rev_ok r \<longleftrightarrow>
     distinct (map snd (rv_spliced r)) \<and> distinct (rv_closed r) \<and>
     snd ` set (rv_spliced r) \<inter> set (rv_closed r) = {} \<and>
     (\<forall>k c. rv_pending r k = Some c \<longrightarrow> c \<in> rv_seen r \<and> c \<notin> snd ` set (rv_spliced r) \<and> c \<notin> set (rv_closed r)) \<and>
     (\<forall>k k' c. rv_pending r k = Some c \<and> rv_pending r k' = Some c \<longrightarrow> k = k') \<and>
     snd ` set (rv_spliced r) \<subseteq> rv_seen r \<and> set (rv_closed r) \<subseteq> rv_seen r"

lemma rev0_ok: "rev_ok rev0"
  by (simp add: rev_ok_def rev0_def)

lemma rev_accept_ok: "rev_ok r \<Longrightarrow> c \<notin> rv_seen r \<Longrightarrow> rev_ok (rev_accept k c r)"
  by (auto simp: rev_ok_def rev_accept_def split: if_splits)

lemma rev_close_ok:
  assumes "rev_ok r" "c \<in> rv_seen r" "c \<notin> snd ` set (rv_spliced r)" "c \<notin> set (rv_closed r)"
    and "\<And>k'. rv_pending r k' = Some c \<Longrightarrow> k' = k"
  shows "rev_ok (r\<lparr>rv_pending := (rv_pending r)(k := None), rv_closed := c # rv_closed r\<rparr>)"
  using assms unfolding rev_ok_def by (auto split: if_splits)

lemma rev_splice_ok:
  assumes "rev_ok r" "rv_pending r k = Some c"
  shows "rev_ok (r\<lparr>rv_pending := (rv_pending r)(k := None), rv_spliced := (d, c) # rv_spliced r\<rparr>)"
  using assms unfolding rev_ok_def by (auto split: if_splits)

lemma rev_forget_ok: "rev_ok r \<Longrightarrow> rev_ok (r\<lparr>rv_pending := (rv_pending r)(k := None)\<rparr>)"
  unfolding rev_ok_def by (auto split: if_splits)

lemma rev_data_ok: "rev_ok r \<Longrightarrow> rev_ok (fst (HandleReverseData e d cmd (r, w)))"
  by (auto simp: HandleReverseData_def rev_claim_def intro: rev_splice_ok rev_forget_ok
      split: prod.split bool.split list.split option.split)

lemma rev_step_ok: "rev_step e s t \<Longrightarrow> rev_ok (fst s) \<Longrightarrow> rev_ok (fst t)"
proof (induction rule: rev_step.induct)
  case (reaped r w k c)
  show ?case
  proof (cases "rv_pending r k = Some c")
    case True
    with reaped have "c \<in> rv_seen r \<and> c \<notin> snd ` set (rv_spliced r) \<and> c \<notin> set (rv_closed r)"
      "\<And>k'. rv_pending r k' = Some c \<Longrightarrow> k' = k" by (auto simp: rev_ok_def)
    with reaped have "rev_ok (r\<lparr>rv_pending := (rv_pending r)(k := None), rv_closed := c # rv_closed r\<rparr>)"
      by (intro rev_close_ok) auto
    with True show ?thesis by (simp add: rev_reap_def)
  qed (use reaped in \<open>simp add: rev_reap_def\<close>)
next
  case (announce_failed c r k w)
  then have "rev_ok (rev_announce_failed k c r)" unfolding rev_announce_failed_def fst_conv by (intro rev_close_ok)
  then show ?case by simp
next
  case (data_conn r w d cmd)
  then show ?case by (intro rev_data_ok) simp
qed (simp add: rev_accept_ok)

interpretation revs: step_invariant "rev_step e" "\<lambda>s. fst s = rev0" "\<lambda>s. rev_ok (fst s)" for e
  by unfold_locales (simp add: rev0_ok, rule rev_step_ok)

text \<open>C15: In every interleaving of listeners, reapers and data connections an accepted connection is given
  to at most one data connection, and one that was given away is not closed by a reaper, nor closed
  twice.\<close>
theorem rev_conn_claimed_once:
  assumes "(rev_step e)\<^sup>*\<^sup>* (rev0, w0) (r, w)"
  shows "distinct (map snd (rv_spliced r)) \<and> distinct (rv_closed r) \<and>
    snd ` set (rv_spliced r) \<inter> set (rv_closed r) = {}"
  using revs.reachable_inv[OF assms] by (simp add: rev_ok_def)

lemma rev_conn_claimed_once_witness:
  "rv_spliced (fst (HandleReverseData env0 9 ''RDATA ab'' (rev_accept ''ab'' 3 rev0, world0))) = [(9, 3)] \<and>
   distinct (map snd (rv_spliced (fst (HandleReverseData env0 9 ''RDATA ab'' (rev_accept ''ab'' 3 rev0, world0)))))"
proof -
  let ?s = "HandleReverseData env0 9 ''RDATA ab'' (rev_accept ''ab'' 3 rev0, world0)"
  have s: "(rev_step env0)\<^sup>*\<^sup>* (rev0, world0) (fst ?s, snd ?s)"
    using rev_step.accepted[where r = rev0 and c = 3 and k = "''ab''" and w = world0 and e = env0]
      rev_step.data_conn[where r = "rev_accept ''ab'' 3 rev0" and w = world0 and d = 9 and cmd = "''RDATA ab''" and e = env0]
    by (simp add: rev0_def)
  have f: "go_fields (trim_space ''RDATA ab'') = [''RDATA'', ''ab'']" by code_simp
  have "rv_spliced (fst ?s) = [(9, 3)]"
    unfolding HandleReverseData_def f by (simp add: policyBlockUnscoped_def rev_claim_def rev_accept_def rev0_def)
  with rev_conn_claimed_once[OF s] show ?thesis by simp
qed

section \<open>The client of a multiplexed tunnel session\<close>

text \<open>\<open>fmuxClient\<close>, with the number of dials made so far.\<close>
record fmux_client =
  fc_live :: bool
  fc_dead :: bool
  fc_dials :: nat

text \<open>What the network does during one call of \<open>open\<close>.\<close>
record open_net =
  on_closed :: bool                    \<comment> \<open>the session was found closed\<close>
  on_dial :: "string option"           \<comment> \<open>the error of dialling and authenticating\<close>
  on_hello :: "string option"          \<comment> \<open>the line read after FMUX, None for an error\<close>
  on_yamux :: "string option"
  on_stream :: "string option"

text \<open>Whether the daemon speaks FMUX, and the error; None is an open stream.\<close>
definition fc_stream :: "open_net \<Rightarrow> fmux_client \<Rightarrow> (bool \<times> string option) \<times> fmux_client" where
  "fc_stream n f =
     (case on_stream n of None \<Rightarrow> ((True, None), f) | Some er \<Rightarrow> ((True, Some er), f\<lparr>fc_live := False\<rparr>))"

definition fc_open :: "open_net \<Rightarrow> fmux_client \<Rightarrow> (bool \<times> string option) \<times> fmux_client" where
  "fc_open n f =
     (if fc_dead f then ((False, Some ''fmux unsupported by daemon''), f)
      else if fc_live f \<and> \<not> on_closed n then fc_stream n f
      else
        let f1 = f\<lparr>fc_live := False, fc_dials := Suc (fc_dials f)\<rparr> in
        (case on_dial n of Some er \<Rightarrow> ((True, Some er), f1)
         | None \<Rightarrow>
             let line = (case on_hello n of None \<Rightarrow> '''' | Some l \<Rightarrow> l) in
             if \<not> has_prefix ''FMUX_OK'' line
             then ((False, Some (''daemon has no FMUX (pre-0.7.23): '' @ trim_space line)), f1\<lparr>fc_dead := True\<rparr>)
             else (case on_yamux n of Some er \<Rightarrow> ((True, Some er), f1)
               | None \<Rightarrow> fc_stream n (f1\<lparr>fc_live := True\<rparr>))))"

text \<open>One tunnelled connection: over the session, or over a connection of its own with a daemon that
  has no FMUX.  The lines are the answers to FWD.\<close>
datatype transport = OnStream | OnOwnConnection

definition refused :: "string option \<Rightarrow> string option" where
  "refused line =
     (case line of None \<Rightarrow> Some ''tunnel refused: ''
      | Some l \<Rightarrow> if has_prefix ''FWD_OK'' l then None else Some (''tunnel refused: '' @ trim_space l))"

definition fwdOpenTunnel ::
  "open_net \<Rightarrow> string option \<Rightarrow> string option \<Rightarrow> string option \<Rightarrow> fmux_client \<Rightarrow> (string + transport) \<times> fmux_client" where
  "fwdOpenTunnel n line dial2 line2 f =
     (case fc_open n f of
        ((_, None), f1) \<Rightarrow> (case refused line of None \<Rightarrow> (Inr OnStream, f1) | Some er \<Rightarrow> (Inl er, f1))
      | ((True, Some er), f1) \<Rightarrow> (Inl er, f1)
      | ((False, Some _), f1) \<Rightarrow>
          (case dial2 of Some er \<Rightarrow> (Inl er, f1)
           | None \<Rightarrow> (case refused line2 of None \<Rightarrow> (Inr OnOwnConnection, f1) | Some er \<Rightarrow> (Inl er, f1))))"

text \<open>One lifetime of a reverse tunnel: whether FMUX is supported, whether the refusal is final, and
  the error.  The session ends with an error of accepting streams.\<close>
definition forwardRemoteFmuxOnce ::
  "open_net \<Rightarrow> string option \<Rightarrow> string \<Rightarrow> fmux_client \<Rightarrow> (bool \<times> bool \<times> string option) \<times> fmux_client" where
  "forwardRemoteFmuxOnce n line ended f =
     (case fc_open n f of
        ((speaks, Some er), f1) \<Rightarrow> ((speaks, False, Some er), f1)
      | ((_, None), f1) \<Rightarrow>
          ((case line of None \<Rightarrow> (True, False, Some ''read error'')
            | Some l \<Rightarrow>
                if has_prefix ''RFWD_OK'' l then (True, False, Some ended)
                else if contains ''unknown fmux stream header'' l
                then (False, False, Some ''daemon fmux predates RFWD streams'')
                else (True, True, Some (''reverse tunnel refused: '' @ trim_space l))), f1))"

datatype remote_end = LegacyPath | Refused string | StillRunning

text \<open>The sessions of a reverse tunnel one after the other, on the network's behaviour in each.\<close>
fun ForwardRemote :: "(open_net \<times> string option \<times> string) list \<Rightarrow> fmux_client \<Rightarrow> remote_end \<times> fmux_client" where
  "ForwardRemote [] f = (StillRunning, f)"
| "ForwardRemote ((n, line, ended) # rest) f =
     (case forwardRemoteFmuxOnce n line ended f of
        ((False, _, _), f1) \<Rightarrow> (LegacyPath, f1)
      | ((True, True, er), f1) \<Rightarrow> (Refused (case er of None \<Rightarrow> '''' | Some t \<Rightarrow> t), f1)
      | ((True, False, _), f1) \<Rightarrow> ForwardRemote rest f1)"

text \<open>What the client takes for a daemon without FMUX it never asks again, and then every tunnel has a
  connection of its own; a time-out of the answer counts as such a daemon.\<close>
lemma fc_dead_stays:
  assumes "fc_dead f"
  shows "fc_open n f = ((False, Some ''fmux unsupported by daemon''), f)"
    and "snd (fwdOpenTunnel n line dial2 line2 f) = f"
  using assms by (simp_all add: fc_open_def fwdOpenTunnel_def split: option.split)

lemma fc_hello_timeout:
  "\<not> fc_dead f \<Longrightarrow> \<not> fc_live f \<Longrightarrow> on_dial n = None \<Longrightarrow> on_hello n = None \<Longrightarrow> fc_dead (snd (fc_open n f))"
  by (simp add: fc_open_def Let_def)

section \<open>The policy of forward tunnels\<close>

lemma fwd_gate_open:
  assumes "tagged w cn name" "name \<noteq> ''''" "cache_coherent (de_compile e) w" "policyFwdDenied e cn host port w = (False, w1)"
  shows "\<exists>pol. policy_now (de_compile e) name w = Inr pol \<and> fwdTargetMatch (de_cidr e) (p_fwd_targets pol) host port"
proof -
  obtain r w2 where l: "LoadPolicy (de_compile e) name w = (r, w2)" by (cases "LoadPolicy (de_compile e) name w")
  then have "policy_now (de_compile e) name w = r" using LoadPolicy_cache[OF assms(3), of name] by simp
  then show ?thesis
    using l assms(2,4) tagged_name[OF assms(1)] by (auto simp: policyFwdDenied_def Let_def split: sum.splits if_splits)
qed

text \<open>For a key with a policy a forward tunnel is opened only to a target the policy lists: the host and
  the port that are dialled are the ones that were put to the policy.\<close>
theorem forward_gate_sound:
  assumes "tagged w cn name" "name \<noteq> ''''" "cache_coherent (de_compile e) w"
    and "HandleForward e net cn cmd w = (t, w')" "t \<noteq> Closed"
  shows "\<exists>host ptxt port pol. t = Splice host ptxt \<and> valid_port ptxt = Some port \<and>
    policy_now (de_compile e) name w = Inr pol \<and> fwdTargetMatch (de_cidr e) (p_fwd_targets pol) host port"
proof -
  obtain verb host ptxt port w1 where f: "go_fields (trim_space cmd) = [verb, host, ptxt]" "valid_port ptxt = Some port"
    "policyFwdDenied e cn host port w = (False, w1)" "t = Splice host ptxt"
    using assms(4,5) unfolding HandleForward_def by (simp split: list.splits option.splits prod.splits bool.splits)
  with fwd_gate_open[OF assms(1-3) f(3)] show ?thesis by blast
qed

definition fwd_json :: string where
  "fwd_json = marshal (JObj [(''fwd_targets'', JArr [JStr ''db:54''])])"

lemma fwd_json_policy: "policy_of_json fwd_json = Some (policy_zero\<lparr>p_fwd_targets := [''db:54'']\<rparr>)"
proof -
  let ?v = "JObj [(''fwd_targets'', JArr [JStr ''db:54''])]"
  have "json_wf ?v" by code_simp
  from unmarshal_marshal[OF this] have u: "unmarshal fwd_json = Some ?v"
    by (simp add: fwd_json_def utf8_fix_ascii is_ascii_def byte_in_def)
  have e: "\<not> equal_fold ''fwd_targets'' ''name''" "\<not> equal_fold ''fwd_targets'' ''exec_allow''"
    "\<not> equal_fold ''fwd_targets'' ''exec_deny''" "\<not> equal_fold ''fwd_targets'' ''file_paths''"
    "equal_fold ''fwd_targets'' ''fwd_targets''" by code_simp+
  show ?thesis by (simp add: policy_of_json_def u set_field_def e set_strings_def)
qed

definition open_net0 :: tunnel_net where
  "open_net0 = \<lparr>tn_dial = (\<lambda>_ _. None), tn_listen = (\<lambda>_ _. None), tn_udp = None\<rparr>"

lemma forward_gate_sound_witness:
  "\<exists>w' pol. HandleForward env0 open_net0 (Some 7) ''FWD db 54'' (tag_world ''ro'' (Some fwd_json)) = (Splice ''db'' ''54'', w') \<and>
     policy_now (de_compile env0) ''ro'' (tag_world ''ro'' (Some fwd_json)) = Inr pol \<and>
     fwdTargetMatch (de_cidr env0) (p_fwd_targets pol) ''db'' 54"
proof -
  let ?w = "tag_world ''ro'' (Some fwd_json)" and ?pol = "policy_zero\<lparr>p_fwd_targets := [''db:54'']\<rparr>"
  have "trim_space ''ro'' = ''ro''" by code_simp
  then have p: "policy_now (de_compile env0) ''ro'' ?w = Inr ?pol"
    by (simp add: policy_now_def Let_def cfg_paths policy_file_def)
      (simp add: tag_world_def put_file_def empty_fs_def loadPolicyFile_def read_file_def fwd_json_policy
        compileAnchoredWarn_def env0_def policy_zero_def)
  obtain w1 where l: "LoadPolicy (de_compile env0) ''ro'' ?w = (Inr ?pol, w1)" using LoadPolicy_now[OF tag_world_coherent p] by blast
  have m: "fwdTargetMatch (de_cidr env0) [''db:54''] ''db'' 54" unfolding env0_def by code_simp
  have g: "policyFwdDenied env0 (Some 7) ''db'' 54 ?w = (False, setConnPolicyMeta (Some 7) ''fwd_ok'' False w1)"
    using l m tagged_name[OF tag_world_tagged_file[of fwd_json]] by (simp add: policyFwdDenied_def Let_def)
  have f: "go_fields (trim_space ''FWD db 54'') = [''FWD'', ''db'', ''54'']" "valid_port ''54'' = Some 54" by code_simp+
  obtain w' where h: "HandleForward env0 open_net0 (Some 7) ''FWD db 54'' ?w = (Splice ''db'' ''54'', w')"
    unfolding HandleForward_def f list.case option.case g prod.case bool.case by (simp add: open_net0_def)
  obtain h1 t1 p1 pol1 where x: "Splice ''db'' ''54'' = Splice h1 t1" "valid_port t1 = Some p1"
    "policy_now (de_compile env0) ''ro'' ?w = Inr pol1" "fwdTargetMatch (de_cidr env0) (p_fwd_targets pol1) h1 p1"
    using forward_gate_sound[OF tag_world_tagged_file _ tag_world_coherent h] by auto
  then have "h1 = ''db''" "t1 = ''54''" by simp_all
  with x f(2) have "fwdTargetMatch (de_cidr env0) (p_fwd_targets pol1) ''db'' 54" by simp
  with h x(3) show ?thesis by blast
qed

end
