(* ===== verification/Spec2Isabelle.thy ===== *)
theory Spec2Isabelle
  imports McpInstall ExecClient Operator Verbs Setup Surface Deploy Agent McpDiff Connector Revocation Tunnels MuxSession Workflow Intent Rpc McpFacts
begin

text \<open>
  \<^bold>\<open>vssh: a remote shell and fleet controller, as definitions of HOL and what holds of them.\<close>

  The program is one Go binary with three faces. The \<^emph>\<open>daemon\<close> (\<^verbatim>\<open>internal/server\<close>) listens on a
  port, tells TLS from plaintext by the first bytes, authenticates a client by a signature of an Ed25519
  key from \<^verbatim>\<open>authorized_keys\<close>, reads one verb and hands the connection to its handler: a shell, a
  command, a transfer, a multiplexed session, a tunnel or a call of RPC. Every handler that acts passes the
  capabilities of the key and the policy file its line may name, and leaves a record in a hash-chained
  audit log. The \<^emph>\<open>client\<close> resolves the name of a target to addresses (\<^verbatim>\<open>internal/ssh\<close>), dials the
  first that answers, pins the key of the daemon (\<^verbatim>\<open>known_hosts\<close>) and speaks the other half of the verbs.
  The \<^emph>\<open>MCP front end\<close> (\<^verbatim>\<open>cmd/vssh\<close>) offers the client's operations as tools of a language model:
  it classifies commands by risk, chooses hosts, runs workflows (\<^verbatim>\<open>internal/workflow\<close>) and intents
  (\<^verbatim>\<open>internal/intent\<close>), and keeps what it learnt of each node (\<^verbatim>\<open>internal/fleet\<close>). Beside these stand
  a monitoring agent (\<^verbatim>\<open>internal/agent\<close>), a log of events (\<^verbatim>\<open>internal/event\<close>) and an account of the
  audit log (\<^verbatim>\<open>internal/diff\<close>).

  \<^bold>\<open>Go and its library.\<close>
  \<^item> \<open>GoBase\<close> is the prelude: the parts of \<^verbatim>\<open>strings\<close>, \<^verbatim>\<open>strconv\<close>, slices and maps that the
    program uses, on strings of bytes; the rule of an invariant that every step keeps
    (\<open>step_invariant\<close>), which the components with interleavings instantiate.
  \<^item> \<open>GoScan\<close> (\<^verbatim>\<open>fmt.Sscanf\<close>), \<open>GoCodec\<close> (base64, hex), \<open>GoFiles\<close> (\<^verbatim>\<open>path/filepath\<close>, the file
    system as a value with directories, symbolic links and failures), \<open>GoRegexp\<close> (leftmost matching by
    backtracking), \<open>GoJson\<close>, \<open>GoStruct\<close>, \<open>GoIndent\<close> (writing and reading of \<^verbatim>\<open>encoding/json\<close>, on the
    text, with the decoding into structs and \<^verbatim>\<open>MarshalIndent\<close>). They are models of documented behaviour
    of the standard library and have lemmas only as far as components rest on them, among those that a
    written document is read back.

  \<^bold>\<open>The daemon.\<close> Its shared state is the record \<open>world\<close> of \<open>AuditLog\<close>: files, clock, policy cache, rate
  limiter, table of connections, job registry. Every handler takes it and returns it updated.
  \<^item> \<open>Identity\<close> (\<^verbatim>\<open>identity.go\<close>): keys and the lines of \<^verbatim>\<open>authorized_keys\<close>.
  \<^item> \<open>ConfigWrite\<close> (\<^verbatim>\<open>configwrite.go\<close>): authorizing, revoking and the files of one line for each key; their
    contract is the locale \<open>keyed_lines\<close>, interpreted on the node configuration, the pins of nodes and, in
    \<open>KnownHosts\<close>, the pinned hosts.
  \<^item> \<open>AuditLog\<close> (\<^verbatim>\<open>audit.go\<close>): the chain of records, its writer and its verifier; what is appended keeps
    a verified log verified, and a verified log can only have lost lines at its front.
  \<^item> \<open>Policy\<close> (\<^verbatim>\<open>policy.go\<close>): policy files with their cache by modification time, the rules on commands,
    paths, addresses and hours, the rate limit and every gate.
  \<^item> \<open>Daemon\<close> (\<^verbatim>\<open>server.go\<close>): accepting, sniffing, the handshake, the switch on the verb with the guard
    of each. The handlers are its argument, so what it proves of the order of guard and handler holds of
    all of them.
  \<^item> \<open>ExecShell\<close> (\<^verbatim>\<open>exec_shell.go\<close>), \<open>FileTransfer\<close> (\<^verbatim>\<open>transfer.go\<close>, \<^verbatim>\<open>sync.go\<close>, \<^verbatim>\<open>relay.go\<close>),
    \<open>TransferAdv\<close> (\<^verbatim>\<open>transfer_advanced.go\<close>), \<open>Jobs\<close> (\<^verbatim>\<open>jobs.go\<close>), \<open>Rpc\<close> (\<^verbatim>\<open>rpc.go\<close>): the handlers. A
    connection is the list of bytes it delivers and the list of those written; a panic of Go is a value of
    the result type. Jobs are a step relation over the registry and the cancel calls under way: such a
    call reads the status in one step and cancels the context in a later one, as the code does, which gives
    the lock back in between.
  \<^item> \<open>MuxSession\<close> (\<^verbatim>\<open>mux.go\<close>, \<^verbatim>\<open>mux_pool.go\<close>): one session and the pool that retries on it.
  \<^item> \<open>Frames\<close>, \<open>Tunnels\<close> (\<^verbatim>\<open>fmux.go\<close>, \<^verbatim>\<open>forward.go\<close>): byte formats with 16-bit lengths as words, and
    the tunnels; reverse connections are paired by a step relation.
  \<^item> \<open>KnownHosts\<close> (\<^verbatim>\<open>tlsident.go\<close>, \<^verbatim>\<open>transfer.go\<close>): trust on first use and the choice between TLS and
    plaintext.
  \<^item> \<open>Revocation\<close> joins \<open>Identity\<close>, \<open>Policy\<close>, \<open>MuxSession\<close> and \<open>Rpc\<close>: what a live session may do when
    its key is taken away under it.

  \<^bold>\<open>The client and the front end.\<close> The tools thread the record of \<open>McpExec\<close>, in which the calls made to
  daemons are written down; daemons answer by an argument.
  \<^item> \<open>Resolve\<close>, \<open>Peers\<close>, \<open>Reach\<close>, \<open>Connector\<close> (\<^verbatim>\<open>internal/ssh\<close>, \<^verbatim>\<open>internal/config\<close>, \<^verbatim>\<open>main.go\<close>): from a
    name to an address that is dialled, and the fallback from endpoint to endpoint.
  \<^item> \<open>Classify\<close>, \<open>McpExec\<close>, \<open>McpRoute\<close>, \<open>Mcp\<close> (\<^verbatim>\<open>mcp_exec.go\<close>, \<^verbatim>\<open>mcp_tools.go\<close>,
    \<^verbatim>\<open>mcp_hostrecord.go\<close>, \<^verbatim>\<open>mcp_routing.go\<close>, \<^verbatim>\<open>mcp.go\<close>, \<^verbatim>\<open>mcp_grouped.go\<close>): the classifier, the tools on
    nodes, the choice of a host, the dispatcher.
  \<^item> \<open>Workflow\<close>, \<open>Intent\<close> (\<^verbatim>\<open>internal/workflow\<close>, \<^verbatim>\<open>internal/intent\<close>).
  \<^item> \<open>Fleet\<close>, \<open>Observe\<close>, \<open>FleetLog\<close> (\<^verbatim>\<open>internal/fleet\<close>): the memory, what output says of a node, and
    the memory on disk. \<open>FleetState\<close> (\<^verbatim>\<open>fleetstate.go\<close>): the signed snapshot.
  \<^item> \<open>McpFleet\<close>, \<open>McpFacts\<close>, \<open>McpState\<close>, \<open>McpDiff\<close>: the tools on memory, plans, configuration, snapshot
    and account of the log, and what holds of them.
  \<^item> \<open>TunnelTool\<close> (\<^verbatim>\<open>tunnel.go\<close>), \<open>Deploy\<close> (\<^verbatim>\<open>mcp_transfer.go\<close>, \<^verbatim>\<open>commands_transfer.go\<close>): forwards that
    outlive the tool, and files and binaries shipped to a node. The command of an installation is judged by a
    reader of a fragment of the shell language (\<open>sh_tokens\<close>), which refuses whatever lies outside it.
  \<^item> \<open>Surface\<close> (\<^verbatim>\<open>mcp_schema.go\<close>, \<^verbatim>\<open>mcp_grouped.go\<close>): every tool with its parameters, what a client is
    shown, and the complete dispatcher.
  \<^item> \<open>Setup\<close> (\<^verbatim>\<open>setup.go\<close>, \<^verbatim>\<open>doctor.go\<close>), \<open>McpInstall\<close> (\<^verbatim>\<open>commands_mcpinstall.go\<close>): the checks of a
    machine, the pinning of the keys of peers, and the entry of vssh in the configuration of an AI client.
  \<^item> \<open>ExecClient\<close> (\<^verbatim>\<open>transfer.go\<close>): a command or an RPC as a client sends it, against the daemon above.
    \<open>Verbs\<close>, \<open>Operator\<close> (\<^verbatim>\<open>commands_exec.go\<close>, \<^verbatim>\<open>commands_rpc.go\<close>, \<^verbatim>\<open>commands_memory.go\<close> and the other
    files of verbs): what each verb prints and with which status it ends.
  \<^item> \<open>EventLog\<close>, \<open>Agent\<close>, \<open>Diff\<close> (\<^verbatim>\<open>internal/event\<close>, \<^verbatim>\<open>internal/agent\<close> with \<^verbatim>\<open>internal/adapter\<close>,
    \<^verbatim>\<open>internal/diff\<close>).

  \<^bold>\<open>How to read the properties.\<close> Each follows a paragraph with its number. Those of the daemon say that no
  handler runs before its checks, that policies fail closed and that files are replaced whole or not at all;
  those of the client, whom it trusts and what it sends how often; those of the front end, what reaches a
  node without approval; those of the stores, that what is written is read back. Several say of the code what
  its author may not have wanted: \<open>revocation_lifts_policy\<close>, \<open>dialAuth_downgrade\<close>, \<open>HandleRPC_panics\<close>,
  \<open>rpc_tilde_escapes_policy\<close>, \<open>intent_bypasses_gate\<close>, \<open>agent_never_recovers\<close> and
  \<open>capture_never_falls_back\<close> state it as it is. A property with hypotheses is followed by a witness, the
  same theorem at a concrete input.

  \<^bold>\<open>Fuel and bounds.\<close> The loops of the source are recursion on the data where they walk data. Loops that
  read from a connection are recursion on what is left of it, with a proof that each turn takes some.
  A workflow has the code's own bound on hops, and \<open>forward_plan_ends\<close> shows it is never met by a plan
  without backward jumps. The resolution of symbolic links and the matching of regular expressions recurse
  with a bound taken from the length of their input or the number of links Go follows. Lengths of UDP frames are
  16-bit words; the numbers of JSON documents and of Go's \<^verbatim>\<open>int\<close> are integers, and where a length from
  the wire reaches an allocation or a slice the panic is a result.

  \<^bold>\<open>What is an argument.\<close> Ed25519, SHA-256, MD5 and deflate; certificates and the TLS handshake; yamux;
  compilation of the regular expressions in policy files and CIDR membership; the processes a command starts and
  their output; the answers of daemons, of Tailscale, of \<^verbatim>\<open>wire\<close> and of coordinators; the clock, the parsing and
  printing of times, fresh identifiers, the text and comparison of floats; the text of YAML; the order in
  which Go walks a map. Hypotheses on them are only their documented behaviour: a signature verifies under
  its key, a hash has no collision among the texts in question, a fresh identifier is fresh.

  \<^bold>\<open>Where the model is coarser than the code.\<close> Lower-casing is its ASCII part. Mode bits, owners,
  directory creation and \<^verbatim>\<open>fsync\<close> are not part of the file state. Where the code asks nodes side by side and
  then sorts or collects the answers, the model takes them one after the other; where the order of events can be
  seen (jobs, reverse connections, probes of addresses) it is a step relation or an arbitrary order.
  Deadlines and time-outs appear as the error they lead to.

  \<^bold>\<open>Not modelled.\<close> The pseudo-terminals, the raw mode and the signals of the interactive shell and of its
  client (system calls of three platforms); the daemon's diagnostic log, which nothing reads; the
  generation of certificates and the sessions of TLS, beyond what a resumed session skips; the
  change of owner of a received file; the polling of statistics for the dashboard (\<^verbatim>\<open>live_stats.go\<close>) and
  the verbs of \<^verbatim>\<open>main.go\<close> and \<^verbatim>\<open>commands_keys.go\<close> that only print (usage, status, list, keygen,
  pubkey, agent, handshake-test); the descriptions of the tools, which are an argument; and the text that the
  shell script of the statistics prints. The manifest beside the theories lists each of these parts with
  its reason.
\<close>

end
